(* ===== verification/Prelude.thy ===== *)
theory Prelude
  imports Main "HOL-Library.Word"
begin

text \<open>
  Shared vocabulary of the development: the machine integers of the C and C++ sources as
  words, the collections of simplification rules the component theories extend, and the
  generic facts on words, bit fields and lists that several components use.
\<close>

unbundle bit_operations_syntax

section \<open>Machine integers\<close>

type_synonym u8 = "8 word"
type_synonym u16 = "16 word"
type_synonym i16 = "16 word"
type_synonym u32 = "32 word"
type_synonym u64 = "64 word"

text \<open>
  Signed C integers are words too: the arithmetic is the same, comparisons use the signed
  order and \<open>sint\<close> reads the value.
\<close>

type_synonym i32 = "32 word"
type_synonym i64 = "64 word"

named_theorems consts_defs \<open>numeric constants of the sources\<close>
named_theorems field_simps_words \<open>bit fields as quotients and remainders\<close>

section \<open>Bit fields as quotients and remainders\<close>

lemma uint_take_bit_mod [field_simps_words]:
  fixes x :: "'a::len word"
  shows "uint (take_bit n x) = uint x mod 2 ^ n"
  by (simp add: unsigned_take_bit_eq flip: take_bit_eq_mod)

lemma uint_drop_bit_div [field_simps_words]:
  fixes x :: "'a::len word"
  shows "uint (drop_bit n x) = uint x div 2 ^ n"
  by (simp add: unsigned_drop_bit_eq take_bit_int_eq_self flip: drop_bit_eq_div)

lemma and_mask_field:
  fixes x :: "'a::len word"
  shows "drop_bit m (x AND push_bit m (mask n)) = take_bit n (drop_bit m x)"
  by (rule bit_word_eqI) (auto simp: bit_simps dest: bit_imp_le_length)

section \<open>Words and integers\<close>

lemma uint_plus_no_overflow:
  fixes x y :: "'a::len word"
  assumes "uint x + uint y < 2 ^ LENGTH('a)"
  shows "uint (x + y) = uint x + uint y"
  using assms by (simp add: uint_word_ariths)

lemma unat_plus_no_overflow:
  fixes x y :: "'a::len word"
  assumes "unat x + unat y < 2 ^ LENGTH('a)"
  shows "unat (x + y) = unat x + unat y"
  using assms by (simp add: unat_word_ariths)

lemma unat_of_nat_small:
  assumes "n < 2 ^ LENGTH('a::len)"
  shows "unat (of_nat n :: 'a word) = n"
  using assms by (simp add: unat_of_nat)

lemma unat_and_pred_power:
  fixes x s :: "'a::len word"
  assumes "unat s = 2 ^ k" and "k < LENGTH('a)"
  shows "unat (x AND (s - 1)) = unat x mod 2 ^ k"
proof -
  have "s = of_nat (unat s)" by simp
  also have "\<dots> = 2 ^ k" by (simp only: assms of_nat_power of_nat_numeral)
  finally have "s = 2 ^ k" .
  then have "x AND (s - 1) = take_bit k x"
    by (simp add: take_bit_eq_mask mask_eq_exp_minus_1)
  then show ?thesis
    by (simp add: unsigned_take_bit_eq flip: take_bit_eq_mod)
qed

lemma uint_times_no_overflow:
  fixes x y :: "'a::len word"
  assumes "uint x * uint y < 2 ^ LENGTH('a)"
  shows "uint (x * y) = uint x * uint y"
  using assms by (simp add: uint_word_ariths)

lemma uint_minus_no_underflow:
  fixes x y :: "'a::len word"
  assumes "uint y \<le> uint x"
  shows "uint (x - y) = uint x - uint y"
proof -
  have "uint x - uint y < 2 ^ LENGTH('a)"
    using uint_bounded [of x] uint_ge_0 [of y] by linarith
  then show ?thesis
    using assms by (simp add: uint_word_ariths)
qed

lemma uint_ucast_up:
  fixes x :: "'a::len word"
  assumes "LENGTH('a) \<le> LENGTH('b::len)"
  shows "uint (ucast x :: 'b word) = uint x"
  using assms by (simp add: unsigned_ucast_eq take_bit_int_eq_self order.strict_trans2 [OF unsigned_less])

lemma sint_of_int_in_range:
  assumes "- (2 ^ (LENGTH('a::len) - 1)) \<le> k" and "k < 2 ^ (LENGTH('a) - 1)"
  shows "sint (of_int k :: 'a word) = k"
  using assms by (simp add: signed_of_int signed_take_bit_int_eq_self)

lemma sint_diff_small:
  fixes x y :: "'a::len word"
  assumes "uint x < 2 ^ (LENGTH('a) - 1)" and "uint y < 2 ^ (LENGTH('a) - 1)"
  shows "sint (x - y) = uint x - uint y"
proof -
  have "sint (of_int (uint x - uint y) :: 'a word) = uint x - uint y"
    using assms uint_ge_0 [of x] uint_ge_0 [of y]
    by (intro sint_of_int_in_range) linarith+
  then show ?thesis by simp
qed

lemma uint_of_sint:
  fixes x :: "'a::len word"
  assumes "0 \<le> sint x"
  shows "uint x = sint x"
proof -
  have "(2 :: int) ^ (LENGTH('a) - 1) \<le> 2 ^ LENGTH('a)"
    by (rule power_increasing) simp_all
  then have "sint x < 2 ^ LENGTH('a)"
    using sint_lt [of x] by linarith
  then show ?thesis
    using assms by (simp add: uint_sint take_bit_int_eq_self)
qed

lemma sint_of_uint:
  fixes x :: "'a::len word"
  assumes "uint x < 2 ^ (LENGTH('a) - 1)"
  shows "sint x = uint x"
  using sint_diff_small [of x 0] assms by simp

section \<open>Remainders one period away\<close>

lemma mod_one_down:
  fixes x m :: int
  assumes "m \<le> x" and "x < 2 * m"
  shows "x mod m = x - m"
proof -
  have "x mod m = (x - m) mod m" by simp
  also have "\<dots> = x - m" using assms by (intro mod_pos_pos_trivial) linarith+
  finally show ?thesis .
qed

lemma mod_one_up:
  fixes x m :: int
  assumes "- m \<le> x" and "x < 0"
  shows "x mod m = x + m"
proof -
  have "x mod m = (x + m) mod m" by simp
  also have "\<dots> = x + m" using assms by (intro mod_pos_pos_trivial) linarith+
  finally show ?thesis .
qed

section \<open>Segments of a cyclic array\<close>

lemma mod_add_cases:
  fixes r i s :: nat
  assumes "r < s" and "i \<le> s"
  shows "(r + i) mod s = (if r + i < s then r + i else r + i - s)"
  using assms by (auto simp: le_mod_geq)

lemma mod_add_inject:
  fixes r i j s :: nat
  assumes "(r + i) mod s = (r + j) mod s" and "r < s" and "i < s" and "j < s"
  shows "i = j"
  using assms by (auto simp: mod_add_cases split: if_splits)

lemma cyclic_read:
  assumes "length b = s" and "r < s" and "n \<le> s"
  shows "map (\<lambda>i. b ! ((r + i) mod s)) [0..<n] =
     (if r + n \<le> s then take n (drop r b) else drop r b @ take (r + n - s) b)"
  using assms by (intro nth_equalityI) (auto simp: nth_append mod_add_cases add.commute)

definition cyclic_put :: "'a list \<Rightarrow> nat \<Rightarrow> 'a list \<Rightarrow> 'a list" where
  "cyclic_put b w xs =
     (if w + length xs \<le> length b then take w b @ xs @ drop (w + length xs) b
      else drop (length b - w) xs @ drop (w + length xs - length b) (take w b) @ take (length b - w) xs)"

lemma cyclic_put:
  assumes "w < length b" and "length xs \<le> length b"
  shows "length (cyclic_put b w xs) = length b"
    and "k < length xs \<Longrightarrow> cyclic_put b w xs ! ((w + k) mod length b) = xs ! k"
    and "j < length b \<Longrightarrow> (\<And>k. k < length xs \<Longrightarrow> (w + k) mod length b \<noteq> j) \<Longrightarrow> cyclic_put b w xs ! j = b ! j"
proof -
  show "length (cyclic_put b w xs) = length b"
    using assms by (auto simp: cyclic_put_def)
  show "cyclic_put b w xs ! ((w + k) mod length b) = xs ! k" if "k < length xs"
    using assms that by (auto simp: cyclic_put_def nth_append mod_add_cases)
  show "cyclic_put b w xs ! j = b ! j"
    if j: "j < length b" and other: "\<And>k. k < length xs \<Longrightarrow> (w + k) mod length b \<noteq> j"
  proof -
    have a: "j < w \<or> w + length xs \<le> j" if "w + length xs \<le> length b"
    proof (rule ccontr)
      assume "\<not> (j < w \<or> w + length xs \<le> j)"
      then have "j - w < length xs" "w + (j - w) = j" by linarith+
      then show False using other [of "j - w"] j by simp
    qed
    have b: "w + length xs - length b \<le> j \<and> j < w" if "\<not> w + length xs \<le> length b"
    proof (rule ccontr)
      assume "\<not> (w + length xs - length b \<le> j \<and> j < w)"
      then consider "j + length b < w + length xs" | "w \<le> j" by linarith
      then show False
      proof cases
        case 1
        then have "w \<le> j + length b" "w + (j + length b - w) = j + length b"
          using assms by simp_all
        then show False using 1 j other [of "j + length b - w"] by simp
      next
        case 2
        then have "j - w < length xs" "w + (j - w) = j" using j that by linarith+
        then show False using other [of "j - w"] j by simp
      qed
    qed
    show ?thesis
    proof (cases "w + length xs \<le> length b")
      case True
      then show ?thesis using a [OF True] j by (auto simp: cyclic_put_def nth_append)
    next
      case False
      then show ?thesis using b [OF False] j assms by (auto simp: cyclic_put_def nth_append)
    qed
  qed
qed

section \<open>Numbers below the word range\<close>

lemma of_nat_word_less_iff:
  assumes "a < 2 ^ LENGTH('a::len)" and "b < 2 ^ LENGTH('a)"
  shows "(of_nat a :: 'a word) < of_nat b \<longleftrightarrow> a < b"
  using assms by (simp add: word_less_nat_alt unat_of_nat_small)

lemma of_nat_word_div:
  assumes "a < 2 ^ LENGTH('a::len)" and "b < 2 ^ LENGTH('a)"
  shows "(of_nat a :: 'a word) div of_nat b = of_nat (a div b)"
proof -
  have "a div b < 2 ^ LENGTH('a)" using assms(1) by (rule order.strict_trans1 [OF div_le_dividend])
  then show ?thesis
    using assms by (simp add: word_unat_eq_iff unat_div unat_of_nat_small)
qed

lemma of_nat_word_mod:
  assumes "a < 2 ^ LENGTH('a::len)" and "b < 2 ^ LENGTH('a)"
  shows "(of_nat a :: 'a word) mod of_nat b = of_nat (a mod b)"
proof -
  have "a mod b < 2 ^ LENGTH('a)" using assms(1) by (rule order.strict_trans1 [OF mod_less_eq_dividend])
  then show ?thesis
    using assms by (simp add: word_unat_eq_iff unat_mod unat_of_nat_small)
qed

lemma of_nat_word_eq_0_iff:
  assumes "a < 2 ^ LENGTH('a::len)"
  shows "(of_nat a :: 'a word) = 0 \<longleftrightarrow> a = 0"
  using assms by (simp add: word_unat_eq_iff unat_of_nat_small)

lemma ucast_of_nat_u32:
  assumes "a < 2 ^ 32"
  shows "ucast (of_nat a :: u32) = (of_nat a :: u64)"
  using assms by (simp add: word_unat_eq_iff unat_of_nat_small unsigned_ucast_eq take_bit_nat_eq_self)

lemma ucast_of_nat_u64:
  "ucast (of_nat a :: u64) = (of_nat a :: u32)"
  by (simp add: word_unat_eq_iff unsigned_ucast_eq unsigned_of_nat)

lemma scast_of_nat_u32:
  assumes "a < 2 ^ 31"
  shows "scast (of_nat a :: u32) = (of_nat a :: u64)"
proof -
  have "sint (of_nat a :: u32) = int a"
    using assms by (subst sint_of_uint) (simp_all add: unsigned_of_nat take_bit_nat_eq_self)
  then show ?thesis by (simp add: scast_eq)
qed

section \<open>Words bit by bit\<close>

text \<open>Equality of words of a fixed width, as a finite conjunction over the bits.\<close>

lemma word_eq_bits:
  fixes a b :: "'a::len word"
  assumes "list_all (\<lambda>i. bit a i = bit b i) [0..<LENGTH('a)]"
  shows "a = b"
  using assms by (intro bit_word_eqI) (auto simp: list_all_iff)

lemma upt_zero_numeral:
  "[0..<numeral (Num.Bit0 k)] = 0 # 1 # [2..<numeral (Num.Bit0 k)]"
proof -
  have "(1 :: nat) < numeral (Num.Bit0 k)" by simp
  then show ?thesis by (simp add: upt_conv_Cons numeral_2_eq_2)
qed

lemma bit_beyond: "LENGTH('a) \<le> n \<Longrightarrow> bit (x :: 'a::len word) n = False"
  using bit_imp_le_length [of x n] by auto

lemmas word_bits_simps = upt_zero_numeral bit_beyond bit_simps

end
