(* ===== verification/CmdSerialize.thy ===== *)
theory CmdSerialize
  imports Prelude "HOL-Library.State_Monad"
begin

text \<open>
  The command serializers of \<^verbatim>\<open>libutil/cmd_serialize.cpp\<close>. The abstract classes \<^verbatim>\<open>IOSSerialize\<close>
  and \<^verbatim>\<open>IISDeserialize\<close> are records of operations over a state (\<open>oss\<close>, \<open>iis\<close>); every virtual
  method is a computation of the state monad that returns the method's \<^verbatim>\<open>bool\<close>. A reading method
  gets the old value of the variable behind its pointer argument and returns the new one. The
  labels that the debug serializers print are left out. The contracts of the two interfaces are the
  locales \<open>byte_sink\<close> and \<open>byte_source\<close>; they are interpreted on \<^verbatim>\<open>BufferSerialize\<close>,
  \<^verbatim>\<open>BufferDeserialize\<close> and on the byte counters of the debug serializers.
\<close>

unbundle bit_operations_syntax

section \<open>Interfaces\<close>

record 's oss =
  write_byte :: "u8 \<Rightarrow> ('s, bool) state"
  write_u16 :: "u16 \<Rightarrow> ('s, bool) state"
  write_quadlet :: "u32 \<Rightarrow> ('s, bool) state"
  write_chars :: "u8 list \<Rightarrow> u64 \<Rightarrow> ('s, bool) state"

record 'd iis =
  read_byte :: "u8 \<Rightarrow> ('d, bool \<times> u8) state"
  read_u16 :: "u16 \<Rightarrow> ('d, bool \<times> u16) state"
  read_quadlet :: "u32 \<Rightarrow> ('d, bool \<times> u32) state"
  read_chars :: "u8 list \<Rightarrow> u64 \<Rightarrow> ('d, bool \<times> u8 list) state"
  peek_byte :: "u8 \<Rightarrow> ('d, bool \<times> u8) state"
  peek_u16 :: "u16 \<Rightarrow> u64 \<Rightarrow> ('d, bool \<times> u16) state"
  skip :: "u64 \<Rightarrow> ('d, bool) state"
  getNrOfConsumedBytes :: "'d \<Rightarrow> i32"

section \<open>Byte order\<close>

definition u16_hi :: "u16 \<Rightarrow> u8" where
  "u16_hi v = ucast (drop_bit 8 (v AND 0xFF00))"

definition u16_lo :: "u16 \<Rightarrow> u8" where
  "u16_lo v = ucast (v AND 0xFF)"

definition u16_join :: "u8 \<Rightarrow> u8 \<Rightarrow> u16" where
  "u16_join hi lo = push_bit 8 (ucast hi) OR ucast lo"

text \<open>The bytes of a quadlet in memory; \<open>be\<close> says whether the host is big endian.\<close>

definition host_bytes :: "bool \<Rightarrow> u32 \<Rightarrow> u8 list" where
  "host_bytes be v =
     (let bs = [ucast (drop_bit 24 v), ucast (drop_bit 16 v), ucast (drop_bit 8 v), ucast v]
      in if be then bs else rev bs)"

definition host_quadlet :: "bool \<Rightarrow> u8 list \<Rightarrow> u32" where
  "host_quadlet be bs =
     (let bs = (if be then bs else rev bs)
      in push_bit 24 (ucast (bs ! 0)) OR push_bit 16 (ucast (bs ! 1))
         OR push_bit 8 (ucast (bs ! 2)) OR ucast (bs ! 3))"

section \<open>Serializing into a buffer\<close>

text \<open>
  \<open>bs_buffer\<close> is the caller's array, \<open>bs_curPos\<close> the offset of \<^verbatim>\<open>m_curPos\<close> in it. \<open>bs_overrun\<close> records
  a store beyond the end of the array.
\<close>

record bufser =
  bs_buffer :: "u8 list"
  bs_curPos :: u64
  bs_length :: u64
  bs_overrun :: bool

definition BufferSerialize :: "u8 list \<Rightarrow> u64 \<Rightarrow> bufser" where
  "BufferSerialize buffer len =
     \<lparr>bs_buffer = buffer, bs_curPos = 0, bs_length = len, bs_overrun = False\<rparr>"

definition getNrOfProducesBytes :: "bufser \<Rightarrow> i32" where
  "getNrOfProducesBytes s = ucast (bs_curPos s)"

definition bs_isCurPosValid :: "bufser \<Rightarrow> bool" where
  "bs_isCurPosValid s = (if bs_curPos s \<ge> bs_length s then False else True)"

text \<open>Store bytes at the current position and move it.\<close>

definition poke :: "u8 list \<Rightarrow> nat \<Rightarrow> u8 list \<Rightarrow> u8 list" where
  "poke buf p xs = take p buf @ take (length buf - p) xs @ drop (p + length xs) buf"

definition bs_emit :: "u8 list \<Rightarrow> bufser \<Rightarrow> bufser" where
  "bs_emit xs s =
     s\<lparr>bs_buffer := poke (bs_buffer s) (unat (bs_curPos s)) xs,
       bs_curPos := bs_curPos s + of_nat (length xs),
       bs_overrun := bs_overrun s \<or> unat (bs_curPos s) + length xs > length (bs_buffer s)\<rparr>"

definition BufferSerialize_write_byte :: "u8 \<Rightarrow> (bufser, bool) state" where
  "BufferSerialize_write_byte value = State (\<lambda>s.
     if bs_isCurPosValid s then (True, bs_emit [value] s) else (False, s))"

definition BufferSerialize_write_u16 :: "u16 \<Rightarrow> (bufser, bool) state" where
  "BufferSerialize_write_u16 value = State (\<lambda>s.
     let hi = u16_hi value; lo = u16_lo value
     in if bs_isCurPosValid s then
          let s1 = bs_emit [hi] s
          in if bs_isCurPosValid s1 then (True, bs_emit [lo] s1) else (False, s1)
        else (False, s))"

definition BufferSerialize_write_quadlet :: "bool \<Rightarrow> u32 \<Rightarrow> (bufser, bool) state" where
  "BufferSerialize_write_quadlet be value = State (\<lambda>s.
     if bs_isCurPosValid s then (True, bs_emit (host_bytes be value) s) else (False, s))"

definition BufferSerialize_write_chars :: "u8 list \<Rightarrow> u64 \<Rightarrow> (bufser, bool) state" where
  "BufferSerialize_write_chars v len = State (\<lambda>s.
     if bs_isCurPosValid s then
       let s1 = s\<lparr>bs_curPos := bs_curPos s + len\<rparr>
       in if bs_isCurPosValid s1 then
            (True, bs_emit (take (unat len) v) (s1\<lparr>bs_curPos := bs_curPos s1 - len\<rparr>))
          else (False, s1)
     else (False, s))"

definition buffer_serializer :: "bool \<Rightarrow> bufser oss" where
  "buffer_serializer be =
     \<lparr>write_byte = BufferSerialize_write_byte, write_u16 = BufferSerialize_write_u16,
      write_quadlet = BufferSerialize_write_quadlet be, write_chars = BufferSerialize_write_chars\<rparr>"

section \<open>The byte counters of the debug serializers\<close>

definition CoutSerializer_write_byte :: "u8 \<Rightarrow> (u32, bool) state" where
  "CoutSerializer_write_byte d = State (\<lambda>cnt. (True, cnt + 1))"

definition CoutSerializer_write_u16 :: "u16 \<Rightarrow> (u32, bool) state" where
  "CoutSerializer_write_u16 d = State (\<lambda>cnt. (True, cnt + 2))"

definition CoutSerializer_write_quadlet :: "u32 \<Rightarrow> (u32, bool) state" where
  "CoutSerializer_write_quadlet d = State (\<lambda>cnt. (True, cnt + 4))"

definition CoutSerializer_write_chars :: "u8 list \<Rightarrow> u64 \<Rightarrow> (u32, bool) state" where
  "CoutSerializer_write_chars v len = State (\<lambda>cnt. (True, cnt + ucast len))"

definition count_serializer :: "u32 oss" where
  "count_serializer =
     \<lparr>write_byte = CoutSerializer_write_byte, write_u16 = CoutSerializer_write_u16,
      write_quadlet = CoutSerializer_write_quadlet, write_chars = CoutSerializer_write_chars\<rparr>"

section \<open>Deserializing from a buffer\<close>

text \<open>
  A pointer into the buffer is represented by the bytes from there to the end of the array.
  \<open>bd_overread\<close> records a read beyond the end of the array.
\<close>

record bufdes =
  bd_buffer :: "u8 list"
  bd_curPos :: u64
  bd_length :: u64
  bd_overread :: bool

definition BufferDeserialize :: "u8 list \<Rightarrow> u64 \<Rightarrow> bufdes" where
  "BufferDeserialize buffer len =
     \<lparr>bd_buffer = buffer, bd_curPos = 0, bd_length = len, bd_overread = False\<rparr>"

definition bd_isCurPosValid :: "bufdes \<Rightarrow> bool" where
  "bd_isCurPosValid d = (if bd_curPos d \<ge> bd_length d then False else True)"

definition bd_at :: "bufdes \<Rightarrow> u8" where
  "bd_at d = (if unat (bd_curPos d) < length (bd_buffer d) then bd_buffer d ! unat (bd_curPos d) else 0)"

text \<open>Move the position after reading \<open>n\<close> bytes.\<close>

definition bd_advance :: "nat \<Rightarrow> bufdes \<Rightarrow> bufdes" where
  "bd_advance n d =
     d\<lparr>bd_curPos := bd_curPos d + of_nat n,
       bd_overread := bd_overread d \<or> unat (bd_curPos d) + n > length (bd_buffer d)\<rparr>"

definition BufferDeserialize_read_byte :: "u8 \<Rightarrow> (bufdes, bool \<times> u8) state" where
  "BufferDeserialize_read_byte value = State (\<lambda>d.
     if bd_isCurPosValid d then ((True, bd_at d), bd_advance 1 d) else ((False, value), d))"

definition BufferDeserialize_read_u16 :: "u16 \<Rightarrow> (bufdes, bool \<times> u16) state" where
  "BufferDeserialize_read_u16 value = State (\<lambda>d.
     if bd_isCurPosValid d then
       let hi = bd_at d; d1 = bd_advance 1 d
       in if bd_isCurPosValid d1 then
            let lo = bd_at d1; d2 = bd_advance 1 d1
            in ((True, u16_join hi lo), d2)
          else ((False, value), d1)
     else ((False, value), d))"

definition BufferDeserialize_read_quadlet :: "bool \<Rightarrow> u32 \<Rightarrow> (bufdes, bool \<times> u32) state" where
  "BufferDeserialize_read_quadlet be value = State (\<lambda>d.
     if bd_isCurPosValid d then
       let bs = map (\<lambda>i. bd_at (d\<lparr>bd_curPos := bd_curPos d + i\<rparr>)) [0, 1, 2, 3]
       in ((True, host_quadlet be bs), bd_advance 4 d)
     else ((False, value), d))"

definition BufferDeserialize_read_chars :: "u8 list \<Rightarrow> u64 \<Rightarrow> (bufdes, bool \<times> u8 list) state" where
  "BufferDeserialize_read_chars value len = State (\<lambda>d.
     if bd_isCurPosValid d then
       let value = drop (unat (bd_curPos d)) (bd_buffer d);
           d1 = d\<lparr>bd_curPos := bd_curPos d + (len - 1)\<rparr>
       in if \<not> bd_isCurPosValid d1 then ((False, value), d1)
          else ((True, value), d1\<lparr>bd_curPos := bd_curPos d1 + 1\<rparr>)
     else ((False, value), d))"

definition BufferDeserialize_peek_byte :: "u8 \<Rightarrow> (bufdes, bool \<times> u8) state" where
  "BufferDeserialize_peek_byte value = State (\<lambda>d.
     if bd_isCurPosValid d then ((True, bd_at d), d) else ((False, value), d))"

definition BufferDeserialize_peek_u16 :: "u16 \<Rightarrow> u64 \<Rightarrow> (bufdes, bool \<times> u16) state" where
  "BufferDeserialize_peek_u16 value offset = State (\<lambda>d.
     let d1 = d\<lparr>bd_curPos := bd_curPos d + offset\<rparr>;
         r = (if bd_isCurPosValid d1 then
                let hi = bd_at d1; d2 = d1\<lparr>bd_curPos := bd_curPos d1 + 1\<rparr>
                in if bd_isCurPosValid d2 then
                     let lo = bd_at d2
                     in ((True, u16_join hi lo), d2\<lparr>bd_curPos := bd_curPos d2 - 1\<rparr>)
                   else ((False, value), d2\<lparr>bd_curPos := bd_curPos d2 - 1\<rparr>)
              else ((False, value), d1))
     in (fst r, (snd r)\<lparr>bd_curPos := bd_curPos (snd r) - offset\<rparr>))"

definition BufferDeserialize_skip :: "u64 \<Rightarrow> (bufdes, bool) state" where
  "BufferDeserialize_skip len = State (\<lambda>d. (True, d\<lparr>bd_curPos := bd_curPos d + len\<rparr>))"

definition BufferDeserialize_getNrOfConsumedBytes :: "bufdes \<Rightarrow> i32" where
  "BufferDeserialize_getNrOfConsumedBytes d = ucast (bd_curPos d)"

definition buffer_deserializer :: "bool \<Rightarrow> bufdes iis" where
  "buffer_deserializer be =
     \<lparr>read_byte = BufferDeserialize_read_byte, read_u16 = BufferDeserialize_read_u16,
      read_quadlet = BufferDeserialize_read_quadlet be, read_chars = BufferDeserialize_read_chars,
      peek_byte = BufferDeserialize_peek_byte, peek_u16 = BufferDeserialize_peek_u16,
      skip = BufferDeserialize_skip,
      getNrOfConsumedBytes = BufferDeserialize_getNrOfConsumedBytes\<rparr>"

section \<open>Bytes of words\<close>

lemma u16_split_join [simp]: "u16_join (u16_hi v) (u16_lo v) = v"
  by (rule word_eq_bits) (simp add: u16_join_def u16_hi_def u16_lo_def word_bits_simps)

lemma host_quadlet_bytes [simp]: "host_quadlet be (host_bytes be v) = v"
  by (rule word_eq_bits) (simp add: host_quadlet_def host_bytes_def Let_def word_bits_simps)

lemma length_host_bytes [simp]: "length (host_bytes be v) = 4"
  by (simp add: host_bytes_def Let_def)

lemma run_bind: "run_state m d = (a, d1) \<Longrightarrow> run_state (State_Monad.bind m f) d = run_state (f a) d1"
  by simp

section \<open>The contract of a serializer\<close>

text \<open>
  \<open>fits s n\<close>: there is room for \<open>n\<close> bytes after the state \<open>s\<close>; \<open>put xs s\<close>: the state after writing the
  bytes \<open>xs\<close> from \<open>s\<close> on. A computation \<open>emits\<close> bytes when, wherever there is room, it returns the
  given result and writes exactly these bytes.
\<close>

definition emits ::
  "('s \<Rightarrow> nat \<Rightarrow> bool) \<Rightarrow> (u8 list \<Rightarrow> 's \<Rightarrow> 's) \<Rightarrow> ('s, 'a) state \<Rightarrow> 'a \<Rightarrow> u8 list \<Rightarrow> bool" where
  "emits fits put m r bs \<longleftrightarrow>
     (\<forall>s xs. fits s (length xs + length bs) \<longrightarrow> run_state m (put xs s) = (r, put (xs @ bs) s))"

locale byte_sink =
  fixes se :: "'s oss"
    and quad :: "u32 \<Rightarrow> u8 list"
    and fits :: "'s \<Rightarrow> nat \<Rightarrow> bool"
    and put :: "u8 list \<Rightarrow> 's \<Rightarrow> 's"
  assumes write_byte_put: "fits s (length xs + 1) \<Longrightarrow>
      run_state (write_byte se x) (put xs s) = (True, put (xs @ [x]) s)"
    and write_u16_put: "fits s (length xs + 2) \<Longrightarrow>
      run_state (write_u16 se v) (put xs s) = (True, put (xs @ [u16_hi v, u16_lo v]) s)"
    and write_quadlet_put: "fits s (length xs + 4) \<Longrightarrow>
      run_state (write_quadlet se q) (put xs s) = (True, put (xs @ quad q) s)"
    and write_chars_put: "fits s (length xs + Suc (length ys)) \<Longrightarrow> length ys < 2 ^ 64 \<Longrightarrow>
      run_state (write_chars se ys (of_nat (length ys))) (put xs s) = (True, put (xs @ ys) s)"
    and fits_less: "fits s n \<Longrightarrow> m \<le> n \<Longrightarrow> fits s m"
    and put_nil: "fits s n \<Longrightarrow> put [] s = s"
    and quad_length: "length (quad q) = 4"
begin

lemma emits_return: "emits fits put (State_Monad.return r) r []"
  by (simp add: emits_def)

lemma emits_bind:
  assumes "emits fits put m a bs" and "emits fits put (f a) r bs'"
  shows "emits fits put (State_Monad.bind m f) r (bs @ bs')"
  unfolding emits_def
proof (intro allI impI)
  fix s and xs :: "u8 list"
  assume "fits s (length xs + length (bs @ bs'))"
  then have f: "fits s (length (xs @ bs) + length bs')" "fits s (length xs + length bs)"
    by (auto elim: fits_less)
  then show "run_state (State_Monad.bind m f) (put xs s) = (r, put (xs @ bs @ bs') s)"
    using assms by (simp add: emits_def)
qed

lemma emits_bind_return:
  "emits fits put m a bs \<Longrightarrow> f a = State_Monad.return r \<Longrightarrow> emits fits put (State_Monad.bind m f) r bs"
  using emits_bind [of m a bs f r "[]"] by (simp add: emits_return)

lemma emits_byte: "emits fits put (write_byte se x) True [x]"
  using write_byte_put by (simp add: emits_def)

lemma emits_u16: "emits fits put (write_u16 se v) True [u16_hi v, u16_lo v]"
  using write_u16_put by (simp add: emits_def)

lemma emits_quadlet: "emits fits put (write_quadlet se q) True (quad q)"
  using write_quadlet_put by (simp add: emits_def quad_length)

text \<open>The rules that follow the shape of a serializing method.\<close>

lemma emits_byte_bind:
  "emits fits put (f True) r bs \<Longrightarrow> emits fits put (State_Monad.bind (write_byte se x) f) r (x # bs)"
  using emits_bind [OF emits_byte] by fastforce

lemma emits_u16_bind:
  "emits fits put (f True) r bs \<Longrightarrow>
   emits fits put (State_Monad.bind (write_u16 se v) f) r (u16_hi v # u16_lo v # bs)"
  using emits_bind [OF emits_u16] by fastforce

lemma emits_quadlet_bind:
  "emits fits put (f True) r bs \<Longrightarrow>
   emits fits put (State_Monad.bind (write_quadlet se q) f) r (quad q @ bs)"
  by (rule emits_bind [OF emits_quadlet])

lemmas emits_intros = emits_return emits_byte_bind emits_u16_bind emits_quadlet_bind

text \<open>From the start of a state with enough room.\<close>

lemma emits_run:
  assumes "emits fits put m r bs" and "fits s (length bs)"
  shows "run_state m s = (r, put bs s)"
proof -
  have "run_state m (put [] s) = (r, put ([] @ bs) s)"
    using assms by (auto simp: emits_def)
  then show ?thesis using put_nil [OF assms(2)] by simp
qed

end

section \<open>The contract of a deserializer\<close>

text \<open>
  \<open>rest d\<close>: the bytes not read yet; \<open>adv n d\<close>: the state after reading \<open>n\<close> bytes. A computation \<open>takes\<close>
  bytes when, wherever they are next, it returns the given result and has read exactly them.
\<close>

definition takes ::
  "('d \<Rightarrow> bool) \<Rightarrow> ('d \<Rightarrow> u8 list) \<Rightarrow> (nat \<Rightarrow> 'd \<Rightarrow> 'd) \<Rightarrow> ('d, 'a) state \<Rightarrow> 'a \<Rightarrow> u8 list \<Rightarrow> bool" where
  "takes invar rest adv m r bs \<longleftrightarrow>
     (\<forall>d tail. invar d \<longrightarrow> rest d = bs @ tail \<longrightarrow> run_state m d = (r, adv (length bs) d))"

locale byte_source =
  fixes de :: "'d iis"
    and quad :: "u8 list \<Rightarrow> u32"
    and invar :: "'d \<Rightarrow> bool"
    and rest :: "'d \<Rightarrow> u8 list"
    and adv :: "nat \<Rightarrow> 'd \<Rightarrow> 'd"
  assumes read_byte_next: "invar d \<Longrightarrow> rest d = x # tail \<Longrightarrow>
      run_state (read_byte de v) d = ((True, x), adv 1 d)"
    and read_byte_end: "invar d \<Longrightarrow> rest d = [] \<Longrightarrow> run_state (read_byte de v) d = ((False, v), d)"
    and peek_byte_next: "invar d \<Longrightarrow> rest d = x # tail \<Longrightarrow>
      run_state (peek_byte de v) d = ((True, x), d)"
    and peek_byte_end: "invar d \<Longrightarrow> rest d = [] \<Longrightarrow> run_state (peek_byte de v) d = ((False, v), d)"
    and read_u16_next: "invar d \<Longrightarrow> rest d = x # y # tail \<Longrightarrow>
      run_state (read_u16 de w) d = ((True, u16_join x y), adv 2 d)"
    and read_quadlet_next: "invar d \<Longrightarrow> rest d = bs @ tail \<Longrightarrow> length bs = 4 \<Longrightarrow>
      run_state (read_quadlet de q) d = ((True, quad bs), adv 4 d)"
    and read_chars_next: "invar d \<Longrightarrow> 0 < n \<Longrightarrow> n \<le> length (rest d) \<Longrightarrow> n < 2 ^ 64 \<Longrightarrow>
      run_state (read_chars de p (of_nat n)) d = ((True, rest d), adv n d)"
    and adv_adv: "invar d \<Longrightarrow> m + n \<le> length (rest d) \<Longrightarrow> adv n (adv m d) = adv (m + n) d"
    and adv_zero: "invar d \<Longrightarrow> adv 0 d = d"
    and rest_adv: "invar d \<Longrightarrow> n \<le> length (rest d) \<Longrightarrow> rest (adv n d) = drop n (rest d)"
    and inv_adv: "invar d \<Longrightarrow> n \<le> length (rest d) \<Longrightarrow> invar (adv n d)"
begin

lemma takes_return: "takes invar rest adv (State_Monad.return r) r []"
  by (simp add: takes_def adv_zero)

lemma takes_bind:
  assumes "takes invar rest adv m a bs" and "takes invar rest adv (f a) r bs'"
  shows "takes invar rest adv (State_Monad.bind m f) r (bs @ bs')"
  unfolding takes_def
proof (intro allI impI)
  fix d tail
  assume d: "invar d" "rest d = (bs @ bs') @ tail"
  then have "run_state m d = (a, adv (length bs) d)"
    using assms(1) by (simp add: takes_def)
  moreover have "invar (adv (length bs) d)" "rest (adv (length bs) d) = bs' @ tail"
    using d by (simp_all add: inv_adv rest_adv)
  then have "run_state (f a) (adv (length bs) d) = (r, adv (length bs') (adv (length bs) d))"
    using assms(2) by (simp add: takes_def)
  ultimately show "run_state (State_Monad.bind m f) d = (r, adv (length (bs @ bs')) d)"
    using d by (simp add: adv_adv)
qed

lemma takes_return_eq: "r' = r \<Longrightarrow> takes invar rest adv (State_Monad.return r') r []"
  by (simp add: takes_return)

lemma takes_bind_return:
  "takes invar rest adv m a bs \<Longrightarrow> f a = State_Monad.return r \<Longrightarrow> takes invar rest adv (State_Monad.bind m f) r bs"
  using takes_bind [of m a bs f r "[]"] by (simp add: takes_return)

lemma takes_byte: "takes invar rest adv (read_byte de v) (True, x) [x]"
  using read_byte_next by (simp add: takes_def)

lemma takes_u16: "takes invar rest adv (read_u16 de w) (True, u16_join x y) [x, y]"
  using read_u16_next by (simp add: takes_def numeral_2_eq_2)

lemma takes_quadlet: "length bs = 4 \<Longrightarrow> takes invar rest adv (read_quadlet de q) (True, quad bs) bs"
  using read_quadlet_next by (simp add: takes_def)

text \<open>The rules that follow the shape of a deserializing method.\<close>

lemma takes_byte_bind:
  "takes invar rest adv (f (True, x)) r bs \<Longrightarrow>
   takes invar rest adv (State_Monad.bind (read_byte de v) f) r (x # bs)"
  using takes_bind [OF takes_byte] by fastforce

lemma takes_u16_bind:
  "takes invar rest adv (f (True, u16_join x y)) r bs \<Longrightarrow>
   takes invar rest adv (State_Monad.bind (read_u16 de v) f) r (x # y # bs)"
  using takes_bind [OF takes_u16] by fastforce

lemma takes_quadlet_bind:
  "length bs = 4 \<Longrightarrow> takes invar rest adv (f (True, quad bs)) r bs' \<Longrightarrow>
   takes invar rest adv (State_Monad.bind (read_quadlet de v) f) r (bs @ bs')"
  by (rule takes_bind [OF takes_quadlet])

lemma takes_peek_bind:
  "takes invar rest adv (f (True, x)) r (x # bs) \<Longrightarrow>
   takes invar rest adv (State_Monad.bind (peek_byte de v) f) r (x # bs)"
  by (simp add: takes_def peek_byte_next)

lemmas takes_intros = takes_return takes_byte_bind takes_u16_bind takes_peek_bind

end

section \<open>The buffers keep the contracts\<close>

definition bs_fits :: "bufser \<Rightarrow> nat \<Rightarrow> bool" where
  "bs_fits s n \<longleftrightarrow> unat (bs_length s) \<le> length (bs_buffer s) \<and> unat (bs_curPos s) + n \<le> unat (bs_length s)"

lemma poke_poke:
  assumes "p + length xs + length ys \<le> length buf"
  shows "poke (poke buf p xs) (p + length xs) ys = poke buf p (xs @ ys)"
  using assms by (simp add: poke_def ac_simps)

lemma length_poke [simp]: "p + length xs \<le> length buf \<Longrightarrow> length (poke buf p xs) = length buf"
  by (simp add: poke_def)

lemma bs_pos_add:
  assumes "bs_fits s n" and "m \<le> n"
  shows "unat (bs_curPos s + of_nat m) = unat (bs_curPos s) + m"
proof -
  have "unat (bs_length s) < 2 ^ 64" using unsigned_less [of "bs_length s"] by simp
  then have "unat (bs_curPos s) + m < 2 ^ 64"
    using assms by (simp add: bs_fits_def)
  then show ?thesis by (simp add: unat_plus_no_overflow unat_of_nat_small)
qed

lemma bs_emit_valid:
  assumes "bs_fits s n" and "length xs < n"
  shows "bs_isCurPosValid (bs_emit xs s)"
  using assms bs_pos_add [OF assms(1), of "length xs"]
  by (simp add: bs_isCurPosValid_def bs_fits_def bs_emit_def word_le_nat_alt)

lemma bs_emit_emit:
  assumes "bs_fits s n" and "length xs + length ys \<le> n"
  shows "bs_emit ys (bs_emit xs s) = bs_emit (xs @ ys) s"
  using assms bs_pos_add [OF assms(1), of "length xs"]
  by (auto simp: bs_emit_def bs_fits_def poke_poke add.assoc)

interpretation bser: byte_sink "buffer_serializer be" "host_bytes be" bs_fits bs_emit
  for be
proof (unfold_locales, goal_cases)
  case (1 s xs x)
  then show ?case
    by (simp add: buffer_serializer_def BufferSerialize_write_byte_def bs_emit_valid [OF 1] bs_emit_emit [OF 1])
next
  case (2 s xs v)
  then show ?case
    by (simp add: buffer_serializer_def BufferSerialize_write_u16_def bs_emit_valid [OF 2] bs_emit_emit [OF 2] Let_def)
next
  case (3 s xs q)
  then show ?case
    by (simp add: buffer_serializer_def BufferSerialize_write_quadlet_def bs_emit_valid [OF 3] bs_emit_emit [OF 3])
next
  case (4 s xs ys)
  let ?s = "bs_emit xs s"
  have "bs_emit ys ?s = bs_emit (xs @ ys) s" by (rule bs_emit_emit [OF 4(1)]) simp
  moreover have "bs_isCurPosValid (bs_emit (xs @ ys) s)" by (rule bs_emit_valid [OF 4(1)]) simp
  then have "bs_isCurPosValid (?s\<lparr>bs_curPos := bs_curPos ?s + of_nat (length ys)\<rparr>)"
    by (simp add: bs_isCurPosValid_def bs_emit_def add.assoc)
  ultimately show ?case
    using 4(2) bs_emit_valid [OF 4(1), of xs]
    by (simp add: buffer_serializer_def BufferSerialize_write_chars_def Let_def unat_of_nat_small)
next
  case (5 s n m)
  then show ?case by (simp add: bs_fits_def)
next
  case (6 s n)
  then show ?case by (auto simp: bs_fits_def bs_emit_def poke_def)
next
  case (7 q)
  then show ?case by simp
qed

interpretation cser: byte_sink count_serializer "host_bytes be" "\<lambda>s n. True" "\<lambda>xs s. s + of_nat (length xs)"
  for be
proof (unfold_locales, goal_cases)
  case (4 s xs ys)
  then show ?case
    by (simp add: count_serializer_def CoutSerializer_write_chars_def ucast_of_nat_u64 add.assoc)
qed (simp_all add: count_serializer_def CoutSerializer_write_byte_def CoutSerializer_write_u16_def
    CoutSerializer_write_quadlet_def)

definition bd_invar :: "bufdes \<Rightarrow> bool" where
  "bd_invar d \<longleftrightarrow> length (bd_buffer d) = unat (bd_length d) \<and> bd_curPos d \<le> bd_length d"

definition bd_rest :: "bufdes \<Rightarrow> u8 list" where
  "bd_rest d = drop (unat (bd_curPos d)) (bd_buffer d)"

lemma bd_pos_add:
  assumes "bd_invar d" and "n \<le> length (bd_rest d)"
  shows "unat (bd_curPos d + of_nat n) = unat (bd_curPos d) + n"
proof -
  have "unat (bd_length d) < 2 ^ 64" using unsigned_less [of "bd_length d"] by simp
  then have "unat (bd_curPos d) + n < 2 ^ 64"
    using assms by (auto simp: bd_invar_def bd_rest_def word_le_nat_alt)
  then show ?thesis by (simp add: unat_plus_no_overflow unat_of_nat_small)
qed

lemma bd_advance_rest:
  assumes "bd_invar d" and "n \<le> length (bd_rest d)"
  shows "bd_invar (bd_advance n d)" and "bd_rest (bd_advance n d) = drop n (bd_rest d)"
    and "bd_overread (bd_advance n d) = bd_overread d"
proof -
  have le: "unat (bd_curPos d) \<le> length (bd_buffer d)"
    using assms(1) by (simp add: bd_invar_def word_le_nat_alt)
  then have "unat (bd_curPos d) + n \<le> length (bd_buffer d)" using assms(2) by (simp add: bd_rest_def)
  then show "bd_invar (bd_advance n d)" "bd_rest (bd_advance n d) = drop n (bd_rest d)"
    "bd_overread (bd_advance n d) = bd_overread d"
    using assms bd_pos_add [OF assms]
    by (simp_all add: bd_invar_def bd_advance_def bd_rest_def word_le_nat_alt add.commute)
qed

lemma bd_valid_iff: "bd_invar d \<Longrightarrow> bd_isCurPosValid d \<longleftrightarrow> bd_rest d \<noteq> []"
  by (auto simp: bd_isCurPosValid_def bd_invar_def bd_rest_def word_le_nat_alt)

lemma bd_at_next: "bd_rest d = x # tail \<Longrightarrow> bd_at d = x"
proof -
  assume r: "bd_rest d = x # tail"
  then have "unat (bd_curPos d) < length (bd_buffer d)" by (rule contrapos_pp) (simp add: bd_rest_def)
  then show "bd_at d = x"
    using r by (simp add: bd_at_def bd_rest_def flip: hd_drop_conv_nth)
qed

lemma bd_advance_advance:
  assumes "bd_invar d" and "m + n \<le> length (bd_rest d)"
  shows "bd_advance n (bd_advance m d) = bd_advance (m + n) d"
proof -
  have "unat (bd_curPos d) + (m + n) \<le> length (bd_buffer d)"
    using assms by (auto simp: bd_invar_def bd_rest_def word_le_nat_alt)
  then show ?thesis
    using assms(2) bd_pos_add [OF assms(1), of m] by (simp add: bd_advance_def add.assoc)
qed

lemma bd_at_offset:
  assumes "bd_invar d" and "bd_rest d = bs @ tail" and "i < length bs"
  shows "bd_at (d\<lparr>bd_curPos := bd_curPos d + of_nat i\<rparr>) = bs ! i"
proof -
  have le: "unat (bd_curPos d) \<le> length (bd_buffer d)"
    using assms(1) by (simp add: bd_invar_def word_le_nat_alt)
  have "unat (bd_curPos d) + i < length (bd_buffer d)"
    using assms(3) arg_cong [OF assms(2), of length] by (simp add: bd_rest_def)
  moreover have "bd_buffer d ! (unat (bd_curPos d) + i) = (bs @ tail) ! i"
    using assms(2) le by (simp add: bd_rest_def nth_drop flip: assms(2))
  ultimately show ?thesis
    using assms bd_pos_add [OF assms(1), of i] by (simp add: bd_at_def nth_append)
qed

interpretation bdes: byte_source "buffer_deserializer be" "host_quadlet be" bd_invar bd_rest bd_advance
  for be
proof (unfold_locales, goal_cases)
  case (1 d x tail v)
  then show ?case
    by (simp add: buffer_deserializer_def BufferDeserialize_read_byte_def bd_valid_iff bd_at_next)
next
  case (2 d v)
  then show ?case
    by (simp add: buffer_deserializer_def BufferDeserialize_read_byte_def bd_valid_iff)
next
  case (3 d x tail v)
  then show ?case
    by (simp add: buffer_deserializer_def BufferDeserialize_peek_byte_def bd_valid_iff bd_at_next)
next
  case (4 d v)
  then show ?case
    by (simp add: buffer_deserializer_def BufferDeserialize_peek_byte_def bd_valid_iff)
next
  case (5 d x y tail w)
  have "bd_invar (bd_advance 1 d)" "bd_rest (bd_advance 1 d) = y # tail"
    using bd_advance_rest [OF 5(1), of 1] 5(2) by simp_all
  then show ?case
    using 5 bd_advance_advance [OF 5(1), of 1 1]
    by (simp add: buffer_deserializer_def BufferDeserialize_read_u16_def bd_valid_iff bd_at_next Let_def
        numeral_2_eq_2)
next
  case (6 d bs tail q)
  have "map (\<lambda>i. bd_at (d\<lparr>bd_curPos := bd_curPos d + i\<rparr>)) [0, 1, 2, 3] = map ((!) bs) [0, 1, 2, 3]"
    using bd_at_offset [OF 6(1,2), of 0] bd_at_offset [OF 6(1,2), of 1] bd_at_offset [OF 6(1,2), of 2]
      bd_at_offset [OF 6(1,2), of 3] 6(3) by simp
  also have "\<dots> = bs" using 6(3) by (simp add: list_eq_iff_nth_eq less_Suc_eq numeral_eq_Suc)
  finally show ?case
    using 6 by (auto simp: buffer_deserializer_def BufferDeserialize_read_quadlet_def bd_valid_iff Let_def)
next
  case (7 d n p)
  have le: "unat (bd_curPos d) + n \<le> length (bd_buffer d)" "unat (bd_curPos d) \<le> length (bd_buffer d)"
    "length (bd_buffer d) = unat (bd_length d)"
    using 7(1,3) by (auto simp: bd_rest_def bd_invar_def word_le_nat_alt)
  have pred: "of_nat n - 1 = (of_nat (n - 1) :: u64)" using 7(2) by (simp add: of_nat_diff)
  have "unat (bd_curPos d + of_nat (n - 1)) = unat (bd_curPos d) + (n - 1)"
    using 7(3) by (intro bd_pos_add [OF 7(1)]) simp
  then have "unat (bd_curPos d + (of_nat n - 1)) < unat (bd_length d)"
    using le 7(2) unfolding pred by linarith
  then have "bd_isCurPosValid (d\<lparr>bd_curPos := bd_curPos d + (of_nat n - 1)\<rparr>)"
    by (simp add: bd_isCurPosValid_def word_le_nat_alt)
  moreover have "bd_isCurPosValid d"
    using le 7(2) by (simp add: bd_isCurPosValid_def word_le_nat_alt)
  moreover have "bd_advance n d = d\<lparr>bd_curPos := bd_curPos d + of_nat n\<rparr>"
    using le(1) by (simp add: bd_advance_def)
  ultimately show ?case
    by (simp add: buffer_deserializer_def BufferDeserialize_read_chars_def Let_def bd_rest_def)
next
  case (8 d m n)
  then show ?case by (rule bd_advance_advance)
next
  case (9 d)
  then show ?case by (auto simp: bd_advance_def bd_invar_def word_le_nat_alt)
next
  case (10 d n)
  then show ?case by (rule bd_advance_rest(2))
next
  case (11 d n)
  then show ?case by (rule bd_advance_rest(1))
qed

section \<open>Properties\<close>

text \<open>A sequence of values of the three fixed sizes, written and read by a client.\<close>

datatype item = Byte u8 | Word16 u16 | Quad u32

fun item_bytes :: "(u32 \<Rightarrow> u8 list) \<Rightarrow> item \<Rightarrow> u8 list" where
  "item_bytes q (Byte x) = [x]"
| "item_bytes q (Word16 v) = [u16_hi v, u16_lo v]"
| "item_bytes q (Quad x) = q x"

fun write_items :: "'s oss \<Rightarrow> item list \<Rightarrow> ('s, bool) state" where
  "write_items se [] = State_Monad.return True"
| "write_items se (it # its) =
     do { r \<leftarrow> (case it of Byte x \<Rightarrow> write_byte se x | Word16 v \<Rightarrow> write_u16 se v | Quad q \<Rightarrow> write_quadlet se q);
          rs \<leftarrow> write_items se its;
          State_Monad.return (r \<and> rs) }"

fun read_items :: "'d iis \<Rightarrow> item list \<Rightarrow> ('d, bool \<times> item list) state" where
  "read_items de [] = State_Monad.return (True, [])"
| "read_items de (it # its) =
     do { (r, it') \<leftarrow> (case it of
              Byte x \<Rightarrow> do { (r, y) \<leftarrow> read_byte de x; State_Monad.return (r, Byte y) }
            | Word16 x \<Rightarrow> do { (r, y) \<leftarrow> read_u16 de x; State_Monad.return (r, Word16 y) }
            | Quad x \<Rightarrow> do { (r, y) \<leftarrow> read_quadlet de x; State_Monad.return (r, Quad y) });
          (rs, its') \<leftarrow> read_items de its;
          State_Monad.return (r \<and> rs, it' # its') }"

fun cleared :: "item \<Rightarrow> item" where
  "cleared (Byte x) = Byte 0"
| "cleared (Word16 x) = Word16 0"
| "cleared (Quad x) = Quad 0"

context byte_sink
begin

lemma emits_items: "emits fits put (write_items se its) True (concat (map (item_bytes quad) its))"
proof (induction its)
  case Nil
  then show ?case by (simp add: emits_return)
next
  case (Cons it its)
  let ?w = "case it of Byte x \<Rightarrow> write_byte se x | Word16 v \<Rightarrow> write_u16 se v | Quad q \<Rightarrow> write_quadlet se q"
  have "emits fits put ?w True (item_bytes quad it)"
    by (cases it) (simp_all add: emits_byte emits_u16 emits_quadlet)
  moreover have "emits fits put (State_Monad.bind (write_items se its) (\<lambda>rs. State_Monad.return (True \<and> rs))) True
      (concat (map (item_bytes quad) its) @ [])"
    by (rule emits_bind [OF Cons.IH]) (simp add: emits_return)
  ultimately show ?case using emits_bind by fastforce
qed

end

context byte_source
begin

lemma takes_items:
  assumes "\<And>v. quad (q v) = v" and "\<And>v. length (q v) = 4"
  shows "takes invar rest adv (read_items de (map cleared its)) (True, its) (concat (map (item_bytes q) its))"
proof (induction its)
  case Nil
  then show ?case by (simp add: takes_return)
next
  case (Cons it its)
  let ?k = "\<lambda>(r, it'). State_Monad.bind (read_items de (map cleared its))
    (\<lambda>(rs, its'). State_Monad.return (r \<and> rs, it' # its'))"
  have k: "takes invar rest adv (?k (True, it)) (True, it # its) (concat (map (item_bytes q) its))"
    using takes_bind [OF Cons.IH, of "\<lambda>(rs, its'). State_Monad.return (True \<and> rs, it # its')" "(True, it # its)" "[]"]
    by (simp add: takes_return)
  show ?case
  proof (cases it)
    case (Byte x)
    then show ?thesis using k by (auto intro!: takes_byte_bind)
  next
    case (Word16 v)
    then show ?thesis using k by (auto intro!: takes_u16_bind)
  next
    case (Quad v)
    then show ?thesis using k assms by (auto intro!: takes_quadlet_bind)
  qed
qed

end

text \<open>
  What is written to a \<^verbatim>\<open>BufferSerialize\<close> is read back by a \<^verbatim>\<open>BufferDeserialize\<close>: for any sequence
  of bytes, 16-bit values and quadlets that fits the buffer, every write succeeds, no store goes
  beyond the buffer, the position is the number of bytes written, and reading the buffer with the
  same sequence of calls succeeds and returns the same values.
\<close>

theorem buffer_roundtrip:
  assumes "length (concat (map (item_bytes (host_bytes be)) its)) \<le> unat len" and "length buffer = unat len"
  shows "\<exists>s d. run_state (write_items (buffer_serializer be) its) (BufferSerialize buffer len) = (True, s)
     \<and> \<not> bs_overrun s \<and> length (bs_buffer s) = length buffer
     \<and> unat (bs_curPos s) = length (concat (map (item_bytes (host_bytes be)) its))
     \<and> run_state (read_items (buffer_deserializer be) (map cleared its)) (BufferDeserialize (bs_buffer s) len) = ((True, its), d)
     \<and> bd_curPos d = bs_curPos s \<and> \<not> bd_overread d"
proof -
  let ?bs = "concat (map (item_bytes (host_bytes be)) its)" and ?s = "BufferSerialize buffer len"
  let ?e = "bs_emit ?bs ?s"
  have "bs_fits ?s (length ?bs)" using assms by (simp add: bs_fits_def BufferSerialize_def)
  note w = bser.emits_run [OF bser.emits_items this] and p = bs_pos_add [OF this order.refl]
  let ?d = "BufferDeserialize (bs_buffer ?e) len"
  have buf: "bs_buffer ?e = ?bs @ drop (length ?bs) buffer" "length (bs_buffer ?e) = unat len"
    using assms by (simp_all add: bs_emit_def BufferSerialize_def poke_def)
  then have d: "bd_invar ?d" "bd_rest ?d = ?bs @ drop (length ?bs) buffer"
    by (simp_all add: bd_invar_def bd_rest_def BufferDeserialize_def)
  moreover have "takes bd_invar bd_rest bd_advance (read_items (buffer_deserializer be) (map cleared its)) (True, its) ?bs"
    by (rule bdes.takes_items) simp_all
  ultimately have r: "run_state (read_items (buffer_deserializer be) (map cleared its)) ?d = ((True, its), bd_advance (length ?bs) ?d)"
    by (auto simp: takes_def)
  have "bd_curPos (bd_advance (length ?bs) ?d) = bs_curPos ?e" "\<not> bs_overrun ?e" "unat (bs_curPos ?e) = length ?bs"
    "\<not> bd_overread (bd_advance (length ?bs) ?d)"
    using assms p buf by (simp_all add: bd_advance_def bs_emit_def BufferSerialize_def BufferDeserialize_def)
  then show ?thesis using w r buf(2) assms(2) by auto
qed

theorem buffer_roundtrip_witness:
  "\<exists>s d. run_state (write_items (buffer_serializer False) [Byte 1, Word16 2, Quad 3])
       (BufferSerialize (replicate 8 0) 8) = (True, s)
     \<and> run_state (read_items (buffer_deserializer False) [Byte 0, Word16 0, Quad 0])
       (BufferDeserialize (bs_buffer s) 8) = ((True, [Byte 1, Word16 2, Quad 3]), d)"
  using buffer_roundtrip [of False "[Byte 1, Word16 2, Quad 3]" 8 "replicate 8 0"] by auto

text \<open>
  Bounds of the writes into a buffer of exactly the given length: bytes, 16-bit values and
  character arrays never go beyond it; a quadlet goes beyond it exactly when the position is
  in the last three bytes, since only the first byte is checked, and the write is reported as
  successful; and a character array is refused if it would end exactly at the end of the buffer.
\<close>

theorem buffer_write_bounds:
  assumes len: "length (bs_buffer s) = unat (bs_length s)" and ok: "\<not> bs_overrun s"
    and v: "length v = unat n" "unat (bs_curPos s) + unat n < 2 ^ 64"
  shows "\<not> bs_overrun (snd (run_state (BufferSerialize_write_byte x) s))
     \<and> \<not> bs_overrun (snd (run_state (BufferSerialize_write_u16 w) s))
     \<and> \<not> bs_overrun (snd (run_state (BufferSerialize_write_chars v n) s))
     \<and> (bs_overrun (snd (run_state (BufferSerialize_write_quadlet be q) s))
        \<longleftrightarrow> fst (run_state (BufferSerialize_write_quadlet be q) s) \<and> unat (bs_length s) < unat (bs_curPos s) + 4)
     \<and> (fst (run_state (BufferSerialize_write_quadlet be q) s) \<longleftrightarrow> bs_curPos s < bs_length s)
     \<and> (fst (run_state (BufferSerialize_write_chars v n) s) \<longleftrightarrow> unat (bs_curPos s) + unat n < unat (bs_length s))"
proof -
  have n: "unat (bs_curPos s + n) = unat (bs_curPos s) + unat n"
    using v(2) by (simp add: unat_plus_no_overflow)
  have "unat (bs_curPos s + 1) = unat (bs_curPos s) + 1" if "bs_curPos s < bs_length s"
  proof -
    have "unat (bs_curPos s) + 1 < 2 ^ 64"
      using that unsigned_less [of "bs_length s", where 'a = nat] by (simp add: word_less_nat_alt)
    then show ?thesis by (simp add: unat_plus_no_overflow)
  qed
  then show ?thesis
    using len ok v(1) n
    by (auto simp: BufferSerialize_write_byte_def BufferSerialize_write_u16_def BufferSerialize_write_chars_def
        BufferSerialize_write_quadlet_def bs_isCurPosValid_def bs_emit_def Let_def word_less_nat_alt
        word_le_nat_alt not_le)
qed

theorem buffer_write_bounds_witness:
  "bs_overrun (snd (run_state (BufferSerialize_write_quadlet False 7)
     \<lparr>bs_buffer = [0, 0], bs_curPos = 1, bs_length = 2, bs_overrun = False\<rparr>))
   \<and> \<not> fst (run_state (BufferSerialize_write_chars [5] 1)
     \<lparr>bs_buffer = [0, 0], bs_curPos = 1, bs_length = 2, bs_overrun = False\<rparr>)"
  using buffer_write_bounds [of "\<lparr>bs_buffer = [0, 0], bs_curPos = 1, bs_length = 2, bs_overrun = False\<rparr>" "[5]" 1 0 0 False 7]
  by simp

end
