(* ===== verification/AvcGeneric.thy ===== *)
theory AvcGeneric
  imports CmdSerialize
begin

text \<open>
  The base class \<^verbatim>\<open>AVCCommand\<close> of all AV/C commands (\<^verbatim>\<open>libavc/general/avc_generic.cpp\<close>) and the
  conversions of \<^verbatim>\<open>libavc/avc_definitions.cpp\<close>. A command class is a record that extends
  \<open>avc_command\<close>; the methods of the base class work on every extension. \<^verbatim>\<open>fire\<close> takes the virtual
  methods \<^verbatim>\<open>serialize\<close> and \<^verbatim>\<open>deserialize\<close> of the class and the bus transaction
  (\<^verbatim>\<open>Ieee1394Service::transactionBlock\<close>) as arguments. The contract between \<^verbatim>\<open>fire\<close> and a command class
  is the locale \<open>avc_codec\<close>. Values of C enumerations are the bytes they are converted to and from.
\<close>

unbundle bit_operations_syntax

section \<open>Constants\<close>

definition fcpFrameMaxLength :: u64 where "fcpFrameMaxLength = 512"

definition eR_Unknown :: u8 where [consts_defs]: "eR_Unknown = 0xff"
definition eR_NotImplemented :: u8 where [consts_defs]: "eR_NotImplemented = 0x08"
definition eR_Accepted :: u8 where [consts_defs]: "eR_Accepted = 0x09"
definition eR_Rejected :: u8 where [consts_defs]: "eR_Rejected = 0x0A"
definition eR_InTransition :: u8 where [consts_defs]: "eR_InTransition = 0x0B"
definition eR_Implemented :: u8 where [consts_defs]: "eR_Implemented = 0x0C"
definition eR_Changed :: u8 where [consts_defs]: "eR_Changed = 0x0D"
definition eR_Interim :: u8 where [consts_defs]: "eR_Interim = 0x0F"

definition eCT_Control :: u8 where [consts_defs]: "eCT_Control = 0x00"
definition eCT_Status :: u8 where [consts_defs]: "eCT_Status = 0x01"
definition eCT_SpecificInquiry :: u8 where [consts_defs]: "eCT_SpecificInquiry = 0x02"
definition eCT_Notify :: u8 where [consts_defs]: "eCT_Notify = 0x03"
definition eCT_GeneralInquiry :: u8 where [consts_defs]: "eCT_GeneralInquiry = 0x04"
definition eCT_Unknown :: u8 where [consts_defs]: "eCT_Unknown = 0xff"

definition eST_Audio :: u8 where [consts_defs]: "eST_Audio = 0x01"
definition eST_Music :: u8 where [consts_defs]: "eST_Music = 0x0C"
definition eST_Reserved :: u8 where [consts_defs]: "eST_Reserved = 0x1D"
definition eST_Unit :: u8 where [consts_defs]: "eST_Unit = 0x1F"

section \<open>Conversions\<close>

text \<open>
  The sampling frequencies as a datatype, with their codes; every code outside the enumeration takes
  the default branch of the \<^verbatim>\<open>switch\<close>.
\<close>

datatype ESamplingFrequency =
  eSF_22050Hz | eSF_24000Hz | eSF_32000Hz | eSF_44100Hz | eSF_48000Hz | eSF_88200Hz | eSF_96000Hz
| eSF_176400Hz | eSF_192000Hz | eSF_AnyLow | eSF_AnyMid | eSF_AnyHigh | eSF_None | eSF_DontCare

fun code_of_frequency :: "ESamplingFrequency \<Rightarrow> u8" where
  "code_of_frequency eSF_22050Hz = 0x00"
| "code_of_frequency eSF_24000Hz = 0x01"
| "code_of_frequency eSF_32000Hz = 0x02"
| "code_of_frequency eSF_44100Hz = 0x03"
| "code_of_frequency eSF_48000Hz = 0x04"
| "code_of_frequency eSF_88200Hz = 0x0A"
| "code_of_frequency eSF_96000Hz = 0x05"
| "code_of_frequency eSF_176400Hz = 0x06"
| "code_of_frequency eSF_192000Hz = 0x07"
| "code_of_frequency eSF_AnyLow = 0x0B"
| "code_of_frequency eSF_AnyMid = 0x0C"
| "code_of_frequency eSF_AnyHigh = 0x0D"
| "code_of_frequency eSF_None = 0x0E"
| "code_of_frequency eSF_DontCare = 0x0F"

fun convertESamplingFrequency :: "ESamplingFrequency \<Rightarrow> int" where
  "convertESamplingFrequency eSF_22050Hz = 22050"
| "convertESamplingFrequency eSF_24000Hz = 24000"
| "convertESamplingFrequency eSF_32000Hz = 32000"
| "convertESamplingFrequency eSF_44100Hz = 44100"
| "convertESamplingFrequency eSF_48000Hz = 48000"
| "convertESamplingFrequency eSF_88200Hz = 88200"
| "convertESamplingFrequency eSF_96000Hz = 96000"
| "convertESamplingFrequency eSF_176400Hz = 176400"
| "convertESamplingFrequency eSF_192000Hz = 192000"
| "convertESamplingFrequency eSF_AnyLow = 48000"
| "convertESamplingFrequency eSF_AnyMid = 96000"
| "convertESamplingFrequency eSF_AnyHigh = 192000"
| "convertESamplingFrequency _ = 0"

definition parseSampleRate :: "int \<Rightarrow> ESamplingFrequency" where
  "parseSampleRate sampleRate =
     (if sampleRate = 22050 then eSF_22050Hz
      else if sampleRate = 24000 then eSF_24000Hz
      else if sampleRate = 32000 then eSF_32000Hz
      else if sampleRate = 44100 then eSF_44100Hz
      else if sampleRate = 48000 then eSF_48000Hz
      else if sampleRate = 88200 then eSF_88200Hz
      else if sampleRate = 96000 then eSF_96000Hz
      else if sampleRate = 176400 then eSF_176400Hz
      else if sampleRate = 192000 then eSF_192000Hz
      else eSF_DontCare)"

fun show_frequency :: "ESamplingFrequency \<Rightarrow> string" where
  "show_frequency eSF_22050Hz = ''22050''"
| "show_frequency eSF_24000Hz = ''24000''"
| "show_frequency eSF_32000Hz = ''32000''"
| "show_frequency eSF_44100Hz = ''44100''"
| "show_frequency eSF_48000Hz = ''48000''"
| "show_frequency eSF_88200Hz = ''88200''"
| "show_frequency eSF_96000Hz = ''96000''"
| "show_frequency eSF_176400Hz = ''176400''"
| "show_frequency eSF_192000Hz = ''192000''"
| "show_frequency _ = ''unknown''"

definition byteToSubunitType :: "u8 \<Rightarrow> u8" where
  "byteToSubunitType s =
     (if s \<in> {0x00, 0x01, 0x02, 0x03, 0x04, 0x05, 0x06, 0x07, 0x09, 0x0A, 0x0B, 0x0C, 0x1C, 0x1D, 0x1E}
      then s else eST_Unit)"

text \<open>
  The codes of the FDF field are constants of the library libiec61883, given as a record.
\<close>

record fdf_sfc =
  SFC_32KHZ :: u8
  SFC_44K1HZ :: u8
  SFC_48KHZ :: u8
  SFC_88K2HZ :: u8
  SFC_96KHZ :: u8
  SFC_176K4HZ :: u8
  SFC_192KHZ :: u8

definition fdfSfcToSampleRate :: "fdf_sfc \<Rightarrow> u8 \<Rightarrow> u32" where
  "fdfSfcToSampleRate k fdf =
     (let f = fdf AND 0x07
      in if f = SFC_32KHZ k then 32000
         else if f = SFC_44K1HZ k then 44100
         else if f = SFC_48KHZ k then 48000
         else if f = SFC_88K2HZ k then 88200
         else if f = SFC_96KHZ k then 96000
         else if f = SFC_176K4HZ k then 176400
         else if f = SFC_192KHZ k then 192000
         else 0)"

definition sampleRateToFdfSfc :: "fdf_sfc \<Rightarrow> u32 \<Rightarrow> u8" where
  "sampleRateToFdfSfc k rate =
     (if rate = 32000 then SFC_32KHZ k
      else if rate = 44100 then SFC_44K1HZ k
      else if rate = 48000 then SFC_48KHZ k
      else if rate = 88200 then SFC_88K2HZ k
      else if rate = 96000 then SFC_96KHZ k
      else if rate = 176400 then SFC_176K4HZ k
      else if rate = 192000 then SFC_192KHZ k
      else 0x07)"

section \<open>Commands\<close>

record avc_command =
  m_nodeId :: u16
  m_fcpFrame :: "u8 list"
  m_ctype :: u8
  m_subunit :: u8
  m_opcode :: u8
  m_eResponse :: u8
  m_commandType :: u8

text \<open>\<open>ini\<close> are the indeterminate values of the members that the constructor does not set.\<close>

definition AVCCommand_new :: "u8 list \<Rightarrow> u8 \<Rightarrow> u8 \<Rightarrow> avc_command" where
  "AVCCommand_new ini_frame ini_type opcode =
     \<lparr>m_nodeId = 0, m_fcpFrame = ini_frame, m_ctype = eCT_Unknown, m_subunit = 0xff, m_opcode = opcode,
      m_eResponse = eR_Unknown, m_commandType = ini_type\<rparr>"

definition AVCCommand_serialize :: "'s oss \<Rightarrow> 'a avc_command_scheme \<Rightarrow> ('s, bool) state" where
  "AVCCommand_serialize se c =
     do { write_byte se (m_ctype c);
          write_byte se (m_subunit c);
          write_byte se (m_opcode c);
          State_Monad.return True }"

definition AVCCommand_deserialize ::
  "'d iis \<Rightarrow> 'a avc_command_scheme \<Rightarrow> ('d, bool \<times> 'a avc_command_scheme) state" where
  "AVCCommand_deserialize de c =
     do { (_, v) \<leftarrow> read_byte de (m_ctype c);
          let c = c\<lparr>m_ctype := v\<rparr>;
          (_, v) \<leftarrow> read_byte de (m_subunit c);
          let c = c\<lparr>m_subunit := v\<rparr>;
          (_, v) \<leftarrow> read_byte de (m_opcode c);
          let c = c\<lparr>m_opcode := v\<rparr>;
          State_Monad.return (True, c) }"

definition setCommandType :: "u8 \<Rightarrow> 'a avc_command_scheme \<Rightarrow> bool \<times> 'a avc_command_scheme" where
  "setCommandType commandType c = (True, c\<lparr>m_ctype := commandType, m_commandType := commandType\<rparr>)"

definition getCommandType :: "'a avc_command_scheme \<Rightarrow> u8" where
  "getCommandType c = m_commandType c"

definition getResponse :: "'a avc_command_scheme \<Rightarrow> u8" where
  "getResponse c = m_eResponse c"

definition setSubunitType :: "u8 \<Rightarrow> 'a avc_command_scheme \<Rightarrow> bool \<times> 'a avc_command_scheme" where
  "setSubunitType subT c = (True, c\<lparr>m_subunit := push_bit 3 subT OR (m_subunit c AND 0x7)\<rparr>)"

definition setNodeId :: "u16 \<Rightarrow> 'a avc_command_scheme \<Rightarrow> bool \<times> 'a avc_command_scheme" where
  "setNodeId nodeId c = (True, c\<lparr>m_nodeId := nodeId\<rparr>)"

definition setSubunitId :: "u8 \<Rightarrow> 'a avc_command_scheme \<Rightarrow> bool \<times> 'a avc_command_scheme" where
  "setSubunitId subunitId c = (True, c\<lparr>m_subunit := (subunitId AND 0x7) OR (m_subunit c AND 0xf8)\<rparr>)"

definition getSubunitType :: "'a avc_command_scheme \<Rightarrow> u8" where
  "getSubunitType c = drop_bit 3 (m_subunit c)"

definition getSubunitId :: "'a avc_command_scheme \<Rightarrow> u8" where
  "getSubunitId c = m_subunit c AND 0x7"

text \<open>
  The request goes out as whole quadlets of the frame; a response is its first byte and the others.
\<close>

definition fire ::
  "('a avc_command_scheme \<Rightarrow> (bufser, bool) state) \<Rightarrow>
   ('a avc_command_scheme \<Rightarrow> (bufdes, bool \<times> 'a avc_command_scheme) state) \<Rightarrow>
   (u16 \<Rightarrow> u8 list \<Rightarrow> (u8 \<times> u8 list) option) \<Rightarrow>
   'a avc_command_scheme \<Rightarrow> bool \<times> 'a avc_command_scheme" where
  "fire ser des transactionBlock c =
     (let frame = replicate (unat fcpFrameMaxLength) 0;
          (ok, se) = run_state (ser c) (BufferSerialize frame fcpFrameMaxLength);
          c = c\<lparr>m_fcpFrame := bs_buffer se\<rparr>
      in if \<not> ok then (False, c)
         else
           let fcpFrameSize = ucast (getNrOfProducesBytes se) :: u16;
               quadlets = (uint fcpFrameSize + 3) div 4
           in case transactionBlock (m_nodeId c) (take (nat (quadlets * 4)) (m_fcpFrame c)) of
                None \<Rightarrow> (False, c)
              | Some (resp, others) \<Rightarrow>
                  let c = c\<lparr>m_eResponse := resp\<rparr>;
                      de = BufferDeserialize (resp # others) (of_nat (Suc (length others)));
                      ((result, c), _) = run_state (des c) de
                  in if resp = eR_Accepted \<or> resp = eR_Implemented
                        \<or> resp = eR_Rejected \<or> resp = eR_NotImplemented
                     then (result, c)
                     else (False, c))"

section \<open>Names for debug output\<close>

text \<open>
  The tables as the compiler sees them: a comma is missing after the string for 13, so that the
  strings for 13 and 14 are one. A read outside the table is \<open>None\<close>.
\<close>

definition subunitTypeStrings :: "string list" where
  "subunitTypeStrings =
     [''Monitor'', ''Audio'', ''Printer'', ''Disc recorder'', ''Tape recorder/VCR'', ''Tuner'', ''CA'',
      ''Video camera'', ''unknown'', ''Panel'', ''Bulletin board'', ''Camera storage'', ''Music'']"

definition responseToStrings :: "string list" where
  "responseToStrings =
     [''control'', ''status'', ''specific inquiry'', ''notify'', ''general inquiry'',
      ''reserved for future specification'', ''reserved for future specification'',
      ''reserved for future specification'', ''not implemented'', ''accepted'', ''rejected'',
      ''in transition'', ''implemented/stable'',
      ''changed'' @ ''reserved for future specification'', ''interim'']"

definition table_at :: "string list \<Rightarrow> nat \<Rightarrow> string option" where
  "table_at t i = (if i < length t then Some (t ! i) else None)"

definition subunitTypeToString :: "u8 \<Rightarrow> string option" where
  "subunitTypeToString subunitType =
     (if subunitType = eST_Unit then Some ''Unit''
      else if unat subunitType > length subunitTypeStrings then Some ''unknown''
      else table_at subunitTypeStrings (unat subunitType))"

definition responseToString :: "u8 \<Rightarrow> string option" where
  "responseToString eResponse =
     (if unat eResponse > length responseToStrings then Some ''unknown''
      else table_at responseToStrings (unat eResponse))"

section \<open>Packed bytes\<close>

lemma word_less_bits:
  fixes x :: "'a::len word"
  assumes "unat x < 2 ^ n" and "n \<le> i"
  shows "\<not> bit x i"
  using assms by (metis bit_take_bit_iff linorder_not_less take_bit_nat_eq_self unsigned_take_bit_eq
      word_unat_eq_iff)

text \<open>The fields of a byte: a value shifted up by \<open>n\<close> and one masked to the low \<open>n\<close> bits.\<close>

lemma pack_3_5:
  fixes t i :: u8
  shows "drop_bit 3 (push_bit 3 t OR (i AND 0x7)) = t AND 0x1f" and "(push_bit 3 t OR (i AND 0x7)) AND 0x7 = i AND 0x7"
  by (rule word_eq_bits, simp add: word_bits_simps)+

lemma pack_3_5':
  fixes i s :: u8
  shows "drop_bit 3 ((i AND 0x7) OR (s AND 0xf8)) = drop_bit 3 s" and "((i AND 0x7) OR (s AND 0xf8)) AND 0x7 = i AND 0x7"
  by (rule word_eq_bits, simp add: word_bits_simps)+

lemma mask_id_u8:
  fixes x :: u8
  shows "unat x < 2 \<Longrightarrow> x AND 0x1 = x" and "unat x < 8 \<Longrightarrow> x AND 0x7 = x" and "unat x < 16 \<Longrightarrow> x AND 0xf = x"
    and "unat x < 32 \<Longrightarrow> x AND 0x1f = x" and "unat x < 64 \<Longrightarrow> x AND 0x3f = x"
  using word_less_bits [of x 1] word_less_bits [of x 3] word_less_bits [of x 4] word_less_bits [of x 5]
    word_less_bits [of x 6]
  by (auto intro!: word_eq_bits simp: word_bits_simps)

section \<open>The header of a command\<close>

definition avc_header :: "'a avc_command_scheme \<Rightarrow> u8 list" where
  "avc_header c = [m_ctype c, m_subunit c, m_opcode c]"

lemma length_avc_header [simp]: "length (avc_header c) = 3"
  by (simp add: avc_header_def)

text \<open>\<open>c0\<close> after it has read the header of \<open>c\<close>.\<close>

definition with_header :: "'a avc_command_scheme \<Rightarrow> 'b avc_command_scheme \<Rightarrow> 'a avc_command_scheme" where
  "with_header c0 c = c0\<lparr>m_ctype := m_ctype c, m_subunit := m_subunit c, m_opcode := m_opcode c\<rparr>"

context byte_sink
begin

lemma emits_header: "emits fits put (AVCCommand_serialize se c) True (avc_header c)"
  unfolding AVCCommand_serialize_def avc_header_def by (intro emits_intros)

lemma emits_header_bind:
  "emits fits put (f True) r bs \<Longrightarrow> emits fits put (State_Monad.bind (AVCCommand_serialize se c) f) r (avc_header c @ bs)"
  by (rule emits_bind [OF emits_header])

end

context byte_source
begin

lemma takes_header:
  "takes invar rest adv (AVCCommand_deserialize de c0) (True, with_header c0 c) (avc_header c)"
  by (auto simp: AVCCommand_deserialize_def avc_header_def with_header_def intro!: takes_intros)

lemma takes_header_bind:
  "takes invar rest adv (f (True, with_header c0 c)) r bs \<Longrightarrow>
   takes invar rest adv (State_Monad.bind (AVCCommand_deserialize de c0) f) r (avc_header c @ bs)"
  by (rule takes_bind [OF takes_header])

end

section \<open>The contract of a command class\<close>

text \<open>The frame that holds the bytes of a request and the quadlets of it that are sent.\<close>

definition fcp_frame :: "u8 list \<Rightarrow> u8 list" where
  "fcp_frame bs = bs @ replicate (512 - length bs) 0"

definition fcp_request :: "u8 list \<Rightarrow> u8 list" where
  "fcp_request bs = bs @ replicate ((length bs + 3) div 4 * 4 - length bs) 0"

definition final_response :: "u8 \<Rightarrow> bool" where
  "final_response r \<longleftrightarrow> r = eR_Accepted \<or> r = eR_Implemented \<or> r = eR_Rejected \<or> r = eR_NotImplemented"

lemma take_fcp_frame:
  assumes "length bs \<le> 512"
  shows "take (nat ((int (length bs) + 3) div 4 * 4)) (fcp_frame bs) = fcp_request bs"
proof -
  have q: "(int (length bs) + 3) div 4 * 4 = int ((length bs + 3) div 4 * 4)"
    by (simp add: zdiv_int)
  have "(length bs + 3) div 4 * 4 \<le> 512" using assms by presburger
  moreover have "length bs \<le> (length bs + 3) div 4 * 4" by presburger
  ultimately show ?thesis
    unfolding q nat_int by (simp add: fcp_frame_def fcp_request_def min_def)
qed

lemma serialize_frame:
  assumes "emits bs_fits bs_emit m True bs" and "length bs \<le> 512"
  shows "\<exists>se. run_state m (BufferSerialize (replicate (unat fcpFrameMaxLength) 0) fcpFrameMaxLength) = (True, se)
     \<and> bs_buffer se = fcp_frame bs \<and> uint (ucast (getNrOfProducesBytes se) :: u16) = int (length bs)
     \<and> \<not> bs_overrun se"
proof -
  let ?s = "BufferSerialize (replicate (unat fcpFrameMaxLength) 0) fcpFrameMaxLength"
  have fits: "bs_fits ?s (length bs)"
    using assms(2) by (simp add: bs_fits_def BufferSerialize_def fcpFrameMaxLength_def)
  note run = bser.emits_run [OF assms(1) fits]
  have pos: "bs_curPos (bs_emit bs ?s) = of_nat (length bs)" by (simp add: bs_emit_def BufferSerialize_def)
  have "uint (ucast (ucast (of_nat (length bs) :: u64) :: u32) :: u16) = int (length bs)"
    using assms(2) by (simp add: unsigned_ucast_eq unsigned_of_nat take_bit_nat_eq_self take_bit_int_eq_self)
  then show ?thesis
    using run pos assms(2)
    by (simp add: getNrOfProducesBytes_def bs_emit_def BufferSerialize_def fcpFrameMaxLength_def poke_def fcp_frame_def)
qed

text \<open>A computation \<open>reads\<close> bytes when it returns the given result wherever they are next.\<close>

definition reads :: "(bufdes, 'a) state \<Rightarrow> 'a \<Rightarrow> u8 list \<Rightarrow> bool" where
  "reads m r bs \<longleftrightarrow> (\<forall>d tail. bd_invar d \<longrightarrow> bd_rest d = bs @ tail \<longrightarrow> (\<exists>d'. run_state m d = (r, d')))"

lemma takes_reads: "takes bd_invar bd_rest bd_advance m r bs \<Longrightarrow> reads m r bs"
  by (simp add: takes_def reads_def)

locale avc_codec =
  fixes ser :: "'a avc_command_scheme \<Rightarrow> (bufser, bool) state"
    and des :: "'a avc_command_scheme \<Rightarrow> (bufdes, bool \<times> 'a avc_command_scheme) state"
    and wire :: "'a avc_command_scheme \<Rightarrow> u8 list"
    and good :: "'a avc_command_scheme \<Rightarrow> bool"
    and accepts :: "'a avc_command_scheme \<Rightarrow> 'a avc_command_scheme \<Rightarrow> bool"
    and reply :: "'a avc_command_scheme \<Rightarrow> 'a avc_command_scheme \<Rightarrow> 'a avc_command_scheme"
  assumes ser_emits: "good c \<Longrightarrow> emits bs_fits bs_emit (ser c) True (wire c)"
    and wire_length: "good c \<Longrightarrow> length (wire c) \<le> 512"
    and des_reads: "accepts c0 c \<Longrightarrow> reads (des c0) (True, reply c0 c) (wire c)"
begin

text \<open>A command without a response fails and keeps its members, apart from the frame.\<close>

lemma fire_no_response:
  assumes "good c" and "transactionBlock (m_nodeId c) (fcp_request (wire c)) = None"
  shows "fire ser des transactionBlock c = (False, c\<lparr>m_fcpFrame := fcp_frame (wire c)\<rparr>)"
proof -
  obtain se where "run_state (ser c) (BufferSerialize (replicate (unat fcpFrameMaxLength) 0) fcpFrameMaxLength) = (True, se)"
    "bs_buffer se = fcp_frame (wire c)" "uint (ucast (getNrOfProducesBytes se) :: u16) = int (length (wire c))"
    using serialize_frame [OF ser_emits wire_length] assms(1) by blast
  then show ?thesis
    using take_fcp_frame [OF wire_length] assms by (simp add: fire_def Let_def)
qed

text \<open>
  A response that starts with the bytes of a command of the class is read into the command; the
  result is true for the final responses only.
\<close>

lemma fire_response:
  assumes "good c" and "transactionBlock (m_nodeId c) (fcp_request (wire c)) = Some (r, others)"
    and "r # others = wire c' @ pad" and "Suc (length others) < 2 ^ 64"
    and "accepts (c\<lparr>m_fcpFrame := fcp_frame (wire c), m_eResponse := r\<rparr>) c'"
  shows "fire ser des transactionBlock c =
     (final_response r, reply (c\<lparr>m_fcpFrame := fcp_frame (wire c), m_eResponse := r\<rparr>) c')"
proof -
  obtain se where se: "run_state (ser c) (BufferSerialize (replicate (unat fcpFrameMaxLength) 0) fcpFrameMaxLength) = (True, se)"
    "bs_buffer se = fcp_frame (wire c)" "uint (ucast (getNrOfProducesBytes se) :: u16) = int (length (wire c))"
    using serialize_frame [OF ser_emits wire_length] assms(1) by blast
  let ?d = "BufferDeserialize (r # others) (of_nat (Suc (length others)))"
  let ?c = "c\<lparr>m_fcpFrame := fcp_frame (wire c), m_eResponse := r\<rparr>"
  have "unat (of_nat (Suc (length others)) :: u64) = Suc (length others)"
    using assms(4) by (simp add: unat_of_nat_small del: of_nat_Suc)
  then have "bd_invar ?d" by (simp add: bd_invar_def BufferDeserialize_def del: of_nat_Suc)
  moreover have "bd_rest ?d = wire c' @ pad" by (simp add: bd_rest_def BufferDeserialize_def assms(3))
  ultimately have "\<exists>d'. run_state (des ?c) ?d = ((True, reply ?c c'), d')"
    using des_reads [OF assms(5)] by (auto simp: reads_def)
  then show ?thesis
    using se take_fcp_frame [OF wire_length [OF assms(1)]] assms(2)
    by (auto simp: fire_def Let_def final_response_def)
qed

text \<open>A command that is serialized into a frame is read back from it.\<close>

lemma codec_roundtrip:
  assumes "good c" and "accepts recv c"
  shows "\<exists>s d. run_state (ser c) (BufferSerialize (replicate 512 0) 512) = (True, s) \<and> \<not> bs_overrun s
     \<and> take (length (wire c)) (bs_buffer s) = wire c
     \<and> run_state (des recv) (BufferDeserialize (bs_buffer s) 512) = ((True, reply recv c), d)"
proof -
  obtain s where s: "run_state (ser c) (BufferSerialize (replicate 512 0) 512) = (True, s)"
    "bs_buffer s = fcp_frame (wire c)" "\<not> bs_overrun s"
    using serialize_frame [OF ser_emits wire_length] assms(1) by (auto simp: fcpFrameMaxLength_def)
  let ?d = "BufferDeserialize (fcp_frame (wire c)) 512"
  have "bd_invar ?d" "bd_rest ?d = wire c @ replicate (512 - length (wire c)) 0"
    using wire_length [OF assms(1)] by (simp_all add: bd_invar_def bd_rest_def BufferDeserialize_def fcp_frame_def)
  then show ?thesis using des_reads [OF assms(2)] s by (auto simp: reads_def fcp_frame_def)
qed

end

section \<open>Properties\<close>

text \<open>
  The subunit byte of a command: setting the subunit type (5 bits) or the subunit id (3 bits)
  is read back and leaves the other field alone; a larger type or id is cut to its width.
\<close>

theorem subunit_fields:
  "getSubunitType (snd (setSubunitType t c)) = t AND 0x1f
   \<and> getSubunitId (snd (setSubunitType t c)) = getSubunitId c
   \<and> getSubunitId (snd (setSubunitId i c)) = i AND 0x7
   \<and> getSubunitType (snd (setSubunitId i c)) = getSubunitType c"
  using pack_3_5 [of t "m_subunit c"] pack_3_5' [of i "m_subunit c"]
  by (simp add: getSubunitType_def setSubunitType_def getSubunitId_def setSubunitId_def)

text \<open>
  The names for debug output: reading the table of response names goes beyond its end for
  exactly the response code 0x0F (interim), and reading the table of subunit types for exactly
  the type 13; and the code 0x0E (reserved) is given the name of 0x0F.
\<close>

theorem debug_names_out_of_bounds:
  "(responseToString r = None \<longleftrightarrow> r = eR_Interim) \<and> (subunitTypeToString t = None \<longleftrightarrow> t = 13)
   \<and> responseToString 0x0E = Some ''interim''"
proof -
  have "responseToString r = None \<longleftrightarrow> unat r = 15"
    by (auto simp: responseToString_def table_at_def responseToStrings_def)
  moreover have "unat r = 15 \<longleftrightarrow> r = eR_Interim"
    by (simp add: word_unat_eq_iff consts_defs)
  moreover have "subunitTypeToString t = None \<longleftrightarrow> t \<noteq> eST_Unit \<and> unat t = 13"
    by (auto simp: subunitTypeToString_def table_at_def subunitTypeStrings_def)
  moreover have "t \<noteq> eST_Unit \<and> unat t = 13 \<longleftrightarrow> t = 13"
    by (auto simp: word_unat_eq_iff consts_defs)
  moreover have "responseToString 0x0E = Some ''interim''"
    by (simp add: responseToString_def table_at_def responseToStrings_def)
  ultimately show ?thesis by simp
qed

text \<open>
  Sampling rates: parsing the rate of a frequency code gives the code back exactly for the nine
  codes of a definite rate and for the code without preference, and the rate of a parsed rate is the
  rate itself or 0; with distinct 3-bit FDF codes (none of them 7), every supported rate survives the
  FDF field and every other rate becomes 0.
\<close>

theorem sampling_rates:
  assumes "distinct [SFC_32KHZ k, SFC_44K1HZ k, SFC_48KHZ k, SFC_88K2HZ k, SFC_96KHZ k, SFC_176K4HZ k, SFC_192KHZ k, 7]"
    and "list_all (\<lambda>x. x AND 7 = x) [SFC_32KHZ k, SFC_44K1HZ k, SFC_48KHZ k, SFC_88K2HZ k, SFC_96KHZ k, SFC_176K4HZ k, SFC_192KHZ k]"
  shows "(parseSampleRate (convertESamplingFrequency f) = f \<longleftrightarrow> f \<notin> {eSF_AnyLow, eSF_AnyMid, eSF_AnyHigh, eSF_None})
     \<and> convertESamplingFrequency (parseSampleRate r) \<in> {r, 0}
     \<and> fdfSfcToSampleRate k (sampleRateToFdfSfc k rate)
       = (if rate \<in> {32000, 44100, 48000, 88200, 96000, 176400, 192000} then rate else 0)"
proof -
  have "parseSampleRate (convertESamplingFrequency f) = f \<longleftrightarrow> f \<notin> {eSF_AnyLow, eSF_AnyMid, eSF_AnyHigh, eSF_None}"
    by (cases f) (simp_all add: parseSampleRate_def)
  moreover have "convertESamplingFrequency (parseSampleRate r) \<in> {r, 0}"
    by (simp add: parseSampleRate_def)
  moreover have "fdfSfcToSampleRate k (sampleRateToFdfSfc k rate)
       = (if rate \<in> {32000, 44100, 48000, 88200, 96000, 176400, 192000} then rate else 0)"
  proof -
    have m: "SFC_32KHZ k AND 7 = SFC_32KHZ k" "SFC_44K1HZ k AND 7 = SFC_44K1HZ k" "SFC_48KHZ k AND 7 = SFC_48KHZ k"
      "SFC_88K2HZ k AND 7 = SFC_88K2HZ k" "SFC_96KHZ k AND 7 = SFC_96KHZ k" "SFC_176K4HZ k AND 7 = SFC_176K4HZ k"
      "SFC_192KHZ k AND 7 = SFC_192KHZ k" "(7 :: u8) AND 7 = 7"
      using assms(2) by simp_all
    note d = assms(1) [simplified]
    consider "rate = 32000" | "rate = 44100" | "rate = 48000" | "rate = 88200" | "rate = 96000"
      | "rate = 176400" | "rate = 192000" | "rate \<notin> {32000, 44100, 48000, 88200, 96000, 176400, 192000}"
      by blast
    then show ?thesis
      by cases (use d in \<open>simp_all add: fdfSfcToSampleRate_def sampleRateToFdfSfc_def m eq_commute\<close>)
  qed
  ultimately show ?thesis by blast
qed

theorem sampling_rates_witness:
  "fdfSfcToSampleRate \<lparr>SFC_32KHZ = 0, SFC_44K1HZ = 1, SFC_48KHZ = 2, SFC_88K2HZ = 3, SFC_96KHZ = 4, SFC_176K4HZ = 5, SFC_192KHZ = 6\<rparr>
     (sampleRateToFdfSfc \<lparr>SFC_32KHZ = 0, SFC_44K1HZ = 1, SFC_48KHZ = 2, SFC_88K2HZ = 3, SFC_96KHZ = 4, SFC_176K4HZ = 5, SFC_192KHZ = 6\<rparr> 88200)
   = 88200"
  using sampling_rates [of "\<lparr>SFC_32KHZ = 0, SFC_44K1HZ = 1, SFC_48KHZ = 2, SFC_88K2HZ = 3, SFC_96KHZ = 4, SFC_176K4HZ = 5, SFC_192KHZ = 6\<rparr>" _ 0 88200]
  by simp

end
