(* ===== verification/AvcCommands.thy ===== *)
theory AvcCommands
  imports AvcGeneric
begin

text \<open>
  The AV/C commands with fixed layouts: connect, plug info, plug signal formats, subunit info, unit
  info, vendor dependent, extended subunit info (\<^verbatim>\<open>libavc/general\<close>) and signal source
  (\<^verbatim>\<open>libavc/ccm/avc_signal_source.cpp\<close>). Each class is a record that extends \<open>avc_command\<close>, with its
  constructor, \<^verbatim>\<open>serialize\<close>, \<^verbatim>\<open>deserialize\<close> and setters. The specification of a class is the function
  \<open>*_wire\<close>, the bytes of the command on the bus; each class is an interpretation of \<open>avc_codec\<close>.
  \<open>ini\<close> is the indeterminate value of an uninitialised local variable or member.
\<close>

unbundle bit_operations_syntax

section \<open>Connect\<close>

definition ConnectCmd_new :: "u8 list \<Rightarrow> u8 \<Rightarrow> avc_command" where
  "ConnectCmd_new ini_frame ini_type = AVCCommand_new ini_frame ini_type 0x24"

definition ConnectCmd_serialize :: "'s oss \<Rightarrow> avc_command \<Rightarrow> ('s, bool) state" where
  "ConnectCmd_serialize se c =
     do { let result = True;
          r \<leftarrow> AVCCommand_serialize se c;
          State_Monad.return (result \<and> r) }"

definition ConnectCmd_deserialize :: "'d iis \<Rightarrow> avc_command \<Rightarrow> ('d, bool \<times> avc_command) state" where
  "ConnectCmd_deserialize de c =
     do { let result = True;
          (r, c) \<leftarrow> AVCCommand_deserialize de c;
          State_Monad.return (result \<and> r, c) }"

section \<open>Plug info\<close>

record plug_info_cmd = avc_command +
  m_serialBusIsochronousInputPlugs :: u8
  m_serialBusIsochronousOutputPlugs :: u8
  m_externalInputPlugs :: u8
  m_externalOutputPlugs :: u8
  m_serialBusAsynchronousInputPlugs :: u8
  m_serialBusAsynchronousOuputPlugs :: u8
  m_destinationPlugs :: u8
  m_sourcePlugs :: u8
  pi_subFunction :: u8

definition eSF_SerialBusIsochronousAndExternalPlug :: u8 where
  [consts_defs]: "eSF_SerialBusIsochronousAndExternalPlug = 0x00"
definition eSF_SerialBusAsynchonousPlug :: u8 where
  [consts_defs]: "eSF_SerialBusAsynchonousPlug = 0x01"

definition PlugInfoCmd_new :: "u8 list \<Rightarrow> u8 \<Rightarrow> u8 \<Rightarrow> plug_info_cmd" where
  "PlugInfoCmd_new ini_frame ini_type eSubFunction =
     avc_command.extend (AVCCommand_new ini_frame ini_type 0x02)
       (plug_info_cmd.fields 0xff 0xff 0xff 0xff 0xff 0xff 0xff 0xff eSubFunction)"

definition PlugInfoCmd_clear :: "plug_info_cmd \<Rightarrow> plug_info_cmd" where
  "PlugInfoCmd_clear c =
     c\<lparr>m_serialBusIsochronousInputPlugs := 0xff, m_serialBusIsochronousOutputPlugs := 0xff,
       m_externalInputPlugs := 0xff, m_externalOutputPlugs := 0xff,
       m_serialBusAsynchronousInputPlugs := 0xff, m_serialBusAsynchronousOuputPlugs := 0xff,
       m_destinationPlugs := 0xff, m_sourcePlugs := 0xff\<rparr>"

definition PlugInfoCmd_serialize :: "'s oss \<Rightarrow> plug_info_cmd \<Rightarrow> ('s, bool) state" where
  "PlugInfoCmd_serialize se c =
     do { let reserved = 0xff;
          AVCCommand_serialize se c;
          write_byte se (pi_subFunction c);
          if getSubunitType c = eST_Unit then
            if pi_subFunction c = eSF_SerialBusIsochronousAndExternalPlug then
              do { write_byte se (m_serialBusIsochronousInputPlugs c);
                   write_byte se (m_serialBusIsochronousOutputPlugs c);
                   write_byte se (m_externalInputPlugs c);
                   write_byte se (m_externalOutputPlugs c);
                   State_Monad.return True }
            else if pi_subFunction c = eSF_SerialBusAsynchonousPlug then
              do { write_byte se (m_serialBusAsynchronousInputPlugs c);
                   write_byte se (m_serialBusAsynchronousOuputPlugs c);
                   write_byte se reserved;
                   write_byte se reserved;
                   State_Monad.return True }
            else State_Monad.return False
          else
            do { write_byte se (m_destinationPlugs c);
                 write_byte se (m_sourcePlugs c);
                 write_byte se reserved;
                 write_byte se reserved;
                 State_Monad.return True } }"

definition PlugInfoCmd_deserialize :: "u8 \<Rightarrow> 'd iis \<Rightarrow> plug_info_cmd \<Rightarrow> ('d, bool \<times> plug_info_cmd) state" where
  "PlugInfoCmd_deserialize ini de c =
     do { (_, c) \<leftarrow> AVCCommand_deserialize de c;
          (_, v) \<leftarrow> read_byte de (pi_subFunction c);
          let c = c\<lparr>pi_subFunction := v\<rparr>;
          if getSubunitType c = eST_Unit then
            if pi_subFunction c = eSF_SerialBusIsochronousAndExternalPlug then
              do { (_, v) \<leftarrow> read_byte de (m_serialBusIsochronousInputPlugs c);
                   let c = c\<lparr>m_serialBusIsochronousInputPlugs := v\<rparr>;
                   (_, v) \<leftarrow> read_byte de (m_serialBusIsochronousOutputPlugs c);
                   let c = c\<lparr>m_serialBusIsochronousOutputPlugs := v\<rparr>;
                   (_, v) \<leftarrow> read_byte de (m_externalInputPlugs c);
                   let c = c\<lparr>m_externalInputPlugs := v\<rparr>;
                   (_, v) \<leftarrow> read_byte de (m_externalOutputPlugs c);
                   State_Monad.return (True, c\<lparr>m_externalOutputPlugs := v\<rparr>) }
            else if pi_subFunction c = eSF_SerialBusAsynchonousPlug then
              do { (_, v) \<leftarrow> read_byte de (m_serialBusAsynchronousInputPlugs c);
                   let c = c\<lparr>m_serialBusAsynchronousInputPlugs := v\<rparr>;
                   (_, v) \<leftarrow> read_byte de (m_serialBusAsynchronousOuputPlugs c);
                   let c = c\<lparr>m_serialBusAsynchronousOuputPlugs := v\<rparr>;
                   (_, reserved) \<leftarrow> read_byte de ini;
                   (_, reserved) \<leftarrow> read_byte de reserved;
                   State_Monad.return (True, c) }
            else State_Monad.return (False, c)
          else
            do { (_, v) \<leftarrow> read_byte de (m_destinationPlugs c);
                 let c = c\<lparr>m_destinationPlugs := v\<rparr>;
                 (_, v) \<leftarrow> read_byte de (m_sourcePlugs c);
                 let c = c\<lparr>m_sourcePlugs := v\<rparr>;
                 (_, reserved) \<leftarrow> read_byte de ini;
                 (_, reserved) \<leftarrow> read_byte de reserved;
                 State_Monad.return (True, c) } }"

definition PlugInfoCmd_setSubFunction :: "u8 \<Rightarrow> plug_info_cmd \<Rightarrow> bool \<times> plug_info_cmd" where
  "PlugInfoCmd_setSubFunction subFunction c = (True, c\<lparr>pi_subFunction := subFunction\<rparr>)"

section \<open>Plug signal formats\<close>

record signal_format_cmd = avc_command +
  sf_plug :: u8
  sf_eoh :: u8
  sf_form :: u8
  sf_fmt :: u8
  sf_fdf0 :: u8
  sf_fdf1 :: u8
  sf_fdf2 :: u8

definition OutputPlugSignalFormatCmd_new :: "u8 list \<Rightarrow> u8 \<Rightarrow> signal_format_cmd" where
  "OutputPlugSignalFormatCmd_new ini_frame ini_type =
     avc_command.extend (AVCCommand_new ini_frame ini_type 0x18)
       (signal_format_cmd.fields 0 1 0 0 0xFF 0xFF 0xFF)"

definition OutputPlugSignalFormatCmd_serialize :: "'s oss \<Rightarrow> signal_format_cmd \<Rightarrow> ('s, bool) state" where
  "OutputPlugSignalFormatCmd_serialize se c =
     do { result \<leftarrow> AVCCommand_serialize se c;
          r \<leftarrow> write_byte se (sf_plug c);
          let result = (result \<and> r);
          let tmp = push_bit 7 (sf_eoh c AND 0x01);
          let tmp = tmp OR push_bit 6 (sf_form c AND 0x01);
          let tmp = tmp OR (sf_fmt c AND 0x3f);
          r \<leftarrow> write_byte se tmp;
          let result = (result \<and> r);
          r \<leftarrow> write_byte se (sf_fdf0 c);
          let result = (result \<and> r);
          r \<leftarrow> write_byte se (sf_fdf1 c);
          let result = (result \<and> r);
          r \<leftarrow> write_byte se (sf_fdf2 c);
          State_Monad.return (result \<and> r) }"

definition OutputPlugSignalFormatCmd_deserialize ::
  "u8 \<Rightarrow> 'd iis \<Rightarrow> signal_format_cmd \<Rightarrow> ('d, bool \<times> signal_format_cmd) state" where
  "OutputPlugSignalFormatCmd_deserialize ini de c =
     do { (result, c) \<leftarrow> AVCCommand_deserialize de c;
          (r, v) \<leftarrow> read_byte de (sf_plug c);
          let result = (result \<and> r);
          let c = c\<lparr>sf_plug := v\<rparr>;
          (r, tmp) \<leftarrow> read_byte de ini;
          let result = (result \<and> r);
          let c = c\<lparr>sf_eoh := drop_bit 7 (tmp AND 0x80), sf_form := drop_bit 6 (tmp AND 0x40), sf_fmt := tmp AND 0x3f\<rparr>;
          (r, v) \<leftarrow> read_byte de (sf_fdf0 c);
          let result = (result \<and> r);
          let c = c\<lparr>sf_fdf0 := v\<rparr>;
          (r, v) \<leftarrow> read_byte de (sf_fdf1 c);
          let result = (result \<and> r);
          let c = c\<lparr>sf_fdf1 := v\<rparr>;
          (r, v) \<leftarrow> read_byte de (sf_fdf2 c);
          State_Monad.return (result \<and> r, c\<lparr>sf_fdf2 := v\<rparr>) }"

definition InputPlugSignalFormatCmd_new :: "u8 list \<Rightarrow> u8 \<Rightarrow> signal_format_cmd" where
  "InputPlugSignalFormatCmd_new ini_frame ini_type =
     avc_command.extend (AVCCommand_new ini_frame ini_type 0x19)
       (signal_format_cmd.fields 0 1 0 0 0xFF 0xFF 0xFF)"

definition InputPlugSignalFormatCmd_serialize :: "'s oss \<Rightarrow> signal_format_cmd \<Rightarrow> ('s, bool) state" where
  "InputPlugSignalFormatCmd_serialize se c =
     do { result \<leftarrow> AVCCommand_serialize se c;
          r \<leftarrow> write_byte se (sf_plug c);
          let result = (result \<and> r);
          let tmp = push_bit 7 (sf_eoh c AND 0x01);
          let tmp = tmp OR push_bit 6 (sf_form c AND 0x01);
          let tmp = tmp OR (sf_fmt c AND 0x3f);
          r \<leftarrow> write_byte se tmp;
          let result = (result \<and> r);
          r \<leftarrow> write_byte se (sf_fdf0 c);
          let result = (result \<and> r);
          r \<leftarrow> write_byte se (sf_fdf1 c);
          let result = (result \<and> r);
          r \<leftarrow> write_byte se (sf_fdf2 c);
          State_Monad.return (result \<and> r) }"

definition InputPlugSignalFormatCmd_deserialize ::
  "u8 \<Rightarrow> 'd iis \<Rightarrow> signal_format_cmd \<Rightarrow> ('d, bool \<times> signal_format_cmd) state" where
  "InputPlugSignalFormatCmd_deserialize ini de c =
     do { (result, c) \<leftarrow> AVCCommand_deserialize de c;
          (r, v) \<leftarrow> read_byte de (sf_plug c);
          let result = (result \<and> r);
          let c = c\<lparr>sf_plug := v\<rparr>;
          (r, tmp) \<leftarrow> read_byte de ini;
          let result = (result \<and> r);
          let c = c\<lparr>sf_eoh := drop_bit 7 (tmp AND 0x80), sf_form := drop_bit 6 (tmp AND 0x40), sf_fmt := tmp AND 0x3f\<rparr>;
          (r, v) \<leftarrow> read_byte de (sf_fdf0 c);
          let result = (result \<and> r);
          let c = c\<lparr>sf_fdf0 := v\<rparr>;
          (r, v) \<leftarrow> read_byte de (sf_fdf1 c);
          let result = (result \<and> r);
          let c = c\<lparr>sf_fdf1 := v\<rparr>;
          (r, v) \<leftarrow> read_byte de (sf_fdf2 c);
          State_Monad.return (result \<and> r, c\<lparr>sf_fdf2 := v\<rparr>) }"

section \<open>Subunit info\<close>

record subunit_info_cmd = avc_command +
  sui_page :: u8
  sui_extension_code :: u8
  sui_table :: "(u8 \<times> u8) list"
  sui_nrOfValidEntries :: i16

definition SubUnitInfoCmd_clear :: "subunit_info_cmd \<Rightarrow> bool \<times> subunit_info_cmd" where
  "SubUnitInfoCmd_clear c =
     (True, c\<lparr>sui_page := 0xff, sui_extension_code := 0x7, sui_table := replicate 4 (0xff, 0xff),
              sui_nrOfValidEntries := 0\<rparr>)"

definition SubUnitInfoCmd_new ::
  "u8 list \<Rightarrow> u8 \<Rightarrow> u8 \<Rightarrow> (u8 \<times> u8) list \<Rightarrow> i16 \<Rightarrow> subunit_info_cmd" where
  "SubUnitInfoCmd_new ini_frame ini ini_byte ini_table ini_short =
     snd (SubUnitInfoCmd_clear (avc_command.extend (AVCCommand_new ini_frame ini 0x31)
       (subunit_info_cmd.fields ini_byte ini_byte ini_table ini_short)))"

fun write_subunit_table :: "'s oss \<Rightarrow> (u8 \<times> u8) list \<Rightarrow> ('s, unit) state" where
  "write_subunit_table se [] = State_Monad.return ()"
| "write_subunit_table se ((t, i) # es) =
     do { write_byte se (push_bit 3 t OR (i AND 0x7));
          write_subunit_table se es }"

definition SubUnitInfoCmd_serialize :: "'s oss \<Rightarrow> subunit_info_cmd \<Rightarrow> ('s, bool) state" where
  "SubUnitInfoCmd_serialize se c =
     do { AVCCommand_serialize se c;
          let operand = push_bit 4 (sui_page c AND 0x7) OR (sui_extension_code c AND 0x7);
          write_byte se operand;
          write_subunit_table se (sui_table c);
          State_Monad.return True }"

text \<open>The loop over the table keeps the variable \<^verbatim>\<open>operand\<close> and counts the entries in use.\<close>

fun read_subunit_table :: "'d iis \<Rightarrow> nat \<Rightarrow> u8 \<Rightarrow> i16 \<Rightarrow> ('d, (u8 \<times> u8) list \<times> i16) state" where
  "read_subunit_table de 0 operand valid = State_Monad.return ([], valid)"
| "read_subunit_table de (Suc n) operand valid =
     do { (_, operand) \<leftarrow> read_byte de operand;
          let valid = (if operand \<noteq> 0xff then valid + 1 else valid);
          (es, valid) \<leftarrow> read_subunit_table de n operand valid;
          State_Monad.return ((drop_bit 3 operand, operand AND 0x7) # es, valid) }"

definition SubUnitInfoCmd_deserialize ::
  "u8 \<Rightarrow> 'd iis \<Rightarrow> subunit_info_cmd \<Rightarrow> ('d, bool \<times> subunit_info_cmd) state" where
  "SubUnitInfoCmd_deserialize ini de c =
     do { (_, c) \<leftarrow> AVCCommand_deserialize de c;
          (_, operand) \<leftarrow> read_byte de ini;
          let c = c\<lparr>sui_page := drop_bit 4 operand AND 0x7, sui_extension_code := operand AND 0x7\<rparr>;
          (es, valid) \<leftarrow> read_subunit_table de 4 operand 0;
          State_Monad.return (True, c\<lparr>sui_table := es, sui_nrOfValidEntries := valid\<rparr>) }"

section \<open>Unit info\<close>

record unit_info_cmd = avc_command +
  ui_reserved :: u8
  ui_unit_type :: u8
  ui_unit :: u8
  ui_company_id :: u32

definition UnitInfoCmd_new :: "u8 list \<Rightarrow> u8 \<Rightarrow> unit_info_cmd" where
  "UnitInfoCmd_new ini_frame ini_type =
     avc_command.extend (AVCCommand_new ini_frame ini_type 0x30)
       (unit_info_cmd.fields 0xff 0xff 0xff 0xffffffff)"

definition UnitInfoCmd_serialize :: "'s oss \<Rightarrow> unit_info_cmd \<Rightarrow> ('s, bool) state" where
  "UnitInfoCmd_serialize se c =
     do { AVCCommand_serialize se c;
          write_byte se (ui_reserved c);
          let operand = push_bit 3 (ui_unit_type c) OR (ui_unit c AND 0x7);
          write_byte se operand;
          let operand = ucast (drop_bit 16 (ui_company_id c) AND 0xff);
          write_byte se operand;
          let operand = ucast (drop_bit 8 (ui_company_id c) AND 0xff);
          write_byte se operand;
          let operand = ucast (drop_bit 0 (ui_company_id c) AND 0xff);
          write_byte se operand;
          State_Monad.return True }"

definition UnitInfoCmd_deserialize :: "u8 \<Rightarrow> 'd iis \<Rightarrow> unit_info_cmd \<Rightarrow> ('d, bool \<times> unit_info_cmd) state" where
  "UnitInfoCmd_deserialize ini de c =
     do { (_, c) \<leftarrow> AVCCommand_deserialize de c;
          (_, v) \<leftarrow> read_byte de (ui_reserved c);
          let c = c\<lparr>ui_reserved := v\<rparr>;
          (_, operand) \<leftarrow> read_byte de ini;
          let c = c\<lparr>ui_unit_type := drop_bit 3 operand, ui_unit := operand AND 0x7\<rparr>;
          (_, operand) \<leftarrow> read_byte de operand;
          let c = c\<lparr>ui_company_id := 0\<rparr>;
          let c = c\<lparr>ui_company_id := ui_company_id c OR push_bit 16 (ucast operand)\<rparr>;
          (_, operand) \<leftarrow> read_byte de operand;
          let c = c\<lparr>ui_company_id := ui_company_id c OR push_bit 8 (ucast operand)\<rparr>;
          (_, operand) \<leftarrow> read_byte de operand;
          let c = c\<lparr>ui_company_id := ui_company_id c OR ucast operand\<rparr>;
          State_Monad.return (True, c) }"

section \<open>Vendor dependent commands\<close>

record vendor_dependent_cmd = avc_command +
  m_companyId :: u32

definition VendorDependentCmd_new :: "u8 list \<Rightarrow> u8 \<Rightarrow> u32 \<Rightarrow> vendor_dependent_cmd" where
  "VendorDependentCmd_new ini_frame ini_type ini_id =
     avc_command.extend (AVCCommand_new ini_frame ini_type 0x00) (vendor_dependent_cmd.fields ini_id)"

definition VendorDependentCmd_serialize :: "'s oss \<Rightarrow> vendor_dependent_cmd \<Rightarrow> ('s, bool) state" where
  "VendorDependentCmd_serialize se c =
     do { result \<leftarrow> AVCCommand_serialize se c;
          r \<leftarrow> write_byte se (ucast (drop_bit 16 (m_companyId c) AND 0xFF));
          let result = (result \<and> r);
          r \<leftarrow> write_byte se (ucast (drop_bit 8 (m_companyId c) AND 0xFF));
          let result = (result \<and> r);
          r \<leftarrow> write_byte se (ucast (m_companyId c AND 0xFF));
          State_Monad.return (result \<and> r) }"

definition VendorDependentCmd_deserialize ::
  "u8 \<Rightarrow> 'd iis \<Rightarrow> vendor_dependent_cmd \<Rightarrow> ('d, bool \<times> vendor_dependent_cmd) state" where
  "VendorDependentCmd_deserialize ini de c =
     do { (result, c) \<leftarrow> AVCCommand_deserialize de c;
          (r, tmp2) \<leftarrow> read_byte de ini;
          let result = (result \<and> r);
          (r, tmp1) \<leftarrow> read_byte de ini;
          let result = (result \<and> r);
          (r, tmp0) \<leftarrow> read_byte de ini;
          State_Monad.return (result \<and> r,
            c\<lparr>m_companyId := push_bit 16 (ucast tmp2) OR push_bit 8 (ucast tmp1) OR ucast tmp0\<rparr>) }"

section \<open>Signal source\<close>

datatype signal_address =
    SignalUnitAddress u8
  | SignalSubunitAddress u8 u8 u8

definition SignalUnitAddress_new :: signal_address where
  "SignalUnitAddress_new = SignalUnitAddress 0xfe"

definition SignalSubunitAddress_new :: signal_address where
  "SignalSubunitAddress_new = SignalSubunitAddress eST_Reserved 0x06 0xfe"

fun SignalAddress_serialize :: "'s oss \<Rightarrow> signal_address \<Rightarrow> ('s, bool) state" where
  "SignalAddress_serialize se (SignalUnitAddress plugId) =
     do { let reserved = 0xff;
          write_byte se reserved;
          write_byte se plugId;
          State_Monad.return True }"
| "SignalAddress_serialize se (SignalSubunitAddress subunitType subunitId plugId) =
     do { let operand = push_bit 3 subunitType OR (subunitId AND 0x7);
          write_byte se operand;
          write_byte se plugId;
          State_Monad.return True }"

fun SignalAddress_deserialize :: "u8 \<Rightarrow> 'd iis \<Rightarrow> signal_address \<Rightarrow> ('d, bool \<times> signal_address) state" where
  "SignalAddress_deserialize ini de (SignalUnitAddress plugId) =
     do { (_, operand) \<leftarrow> read_byte de ini;
          (_, plugId) \<leftarrow> read_byte de plugId;
          State_Monad.return (True, SignalUnitAddress plugId) }"
| "SignalAddress_deserialize ini de (SignalSubunitAddress subunitType subunitId plugId) =
     do { (_, operand) \<leftarrow> read_byte de ini;
          let subunitType = drop_bit 3 operand;
          let subunitId = operand AND 0x7;
          (_, plugId) \<leftarrow> read_byte de plugId;
          State_Monad.return (True, SignalSubunitAddress subunitType subunitId plugId) }"

record signal_source_cmd = avc_command +
  m_resultStatus :: u8
  m_outputStatus :: u8
  m_conv :: u8
  m_signalStatus :: u8
  m_signalSource :: "signal_address option"
  m_signalDestination :: "signal_address option"

definition SignalSourceCmd_new :: "u8 list \<Rightarrow> u8 \<Rightarrow> signal_source_cmd" where
  "SignalSourceCmd_new ini_frame ini_type =
     avc_command.extend (AVCCommand_new ini_frame ini_type 0x1A)
       (signal_source_cmd.fields 0xff 0xff 0xff 0xff None None)"

definition SignalSourceCmd_serialize :: "'s oss \<Rightarrow> signal_source_cmd \<Rightarrow> ('s, bool) state" where
  "SignalSourceCmd_serialize se c =
     do { AVCCommand_serialize se c;
          handled \<leftarrow> (if getCommandType c = eCT_Status then
              do { write_byte se (push_bit 5 (m_outputStatus c) OR push_bit 4 (m_conv c AND 0x1) OR (m_signalStatus c AND 0xf));
                   State_Monad.return True }
            else if getCommandType c = eCT_Control \<or> getCommandType c = eCT_SpecificInquiry then
              do { write_byte se (m_resultStatus c AND 0xf);
                   State_Monad.return True }
            else State_Monad.return False);
          if \<not> handled then State_Monad.return False
          else if getSubunitType c = eST_Unit \<or> getSubunitType c = eST_Audio \<or> getSubunitType c = eST_Music then
            do { (case m_signalSource c of
                    Some a \<Rightarrow> SignalAddress_serialize se a
                  | None \<Rightarrow> do { write_byte se 0xff; write_byte se 0xff });
                 (case m_signalDestination c of
                    Some a \<Rightarrow> SignalAddress_serialize se a
                  | None \<Rightarrow> do { write_byte se 0xff; write_byte se 0xff });
                 State_Monad.return True }
          else State_Monad.return False }"

definition read_signal_address :: "u8 \<Rightarrow> 'd iis \<Rightarrow> u8 \<Rightarrow> ('d, u8 \<times> signal_address) state" where
  "read_signal_address ini de operand =
     do { (_, operand) \<leftarrow> peek_byte de operand;
          let a = (if operand = 0xff then SignalUnitAddress_new else SignalSubunitAddress_new);
          (_, a) \<leftarrow> SignalAddress_deserialize ini de a;
          State_Monad.return (operand, a) }"

definition SignalSourceCmd_deserialize ::
  "u8 \<Rightarrow> 'd iis \<Rightarrow> signal_source_cmd \<Rightarrow> ('d, bool \<times> signal_source_cmd) state" where
  "SignalSourceCmd_deserialize ini de c =
     do { let c = c\<lparr>m_signalSource := None, m_signalDestination := None\<rparr>;
          (_, c) \<leftarrow> AVCCommand_deserialize de c;
          (handled, c) \<leftarrow> (if getCommandType c = eCT_Status then
              do { (_, operand) \<leftarrow> read_byte de ini;
                   State_Monad.return (True, c\<lparr>m_outputStatus := drop_bit 5 operand,
                     m_conv := drop_bit 4 (operand AND 0x10), m_signalStatus := operand AND 0xf\<rparr>) }
            else if getCommandType c = eCT_Control \<or> getCommandType c = eCT_SpecificInquiry then
              do { (_, operand) \<leftarrow> read_byte de ini;
                   State_Monad.return (True, c\<lparr>m_resultStatus := operand AND 0xf\<rparr>) }
            else State_Monad.return (False, c));
          if \<not> handled then State_Monad.return (False, c)
          else if getSubunitType c = eST_Unit \<or> getSubunitType c = eST_Audio \<or> getSubunitType c = eST_Music then
            do { (operand, a) \<leftarrow> read_signal_address ini de ini;
                 let c = c\<lparr>m_signalSource := Some a\<rparr>;
                 (operand, a) \<leftarrow> read_signal_address ini de operand;
                 State_Monad.return (True, c\<lparr>m_signalDestination := Some a\<rparr>) }
          else State_Monad.return (False, c) }"

definition setSignalSource :: "signal_address \<Rightarrow> signal_source_cmd \<Rightarrow> bool \<times> signal_source_cmd" where
  "setSignalSource a c = (True, c\<lparr>m_signalSource := Some a\<rparr>)"

definition setSignalDestination :: "signal_address \<Rightarrow> signal_source_cmd \<Rightarrow> bool \<times> signal_source_cmd" where
  "setSignalDestination a c = (True, c\<lparr>m_signalDestination := Some a\<rparr>)"

section \<open>Extended subunit info\<close>

record esi_page_data =
  pd_functionBlockType :: u8
  pd_functionBlockId :: u8
  pd_functionBlockSpecialPupose :: u8
  pd_noOfInputPlugs :: u8
  pd_noOfOutputPlugs :: u8

definition ExtendedSubunitInfoPageData_new :: esi_page_data where
  "ExtendedSubunitInfoPageData_new =
     \<lparr>pd_functionBlockType = 0xff, pd_functionBlockId = 0xff, pd_functionBlockSpecialPupose = 0xff,
      pd_noOfInputPlugs = 0xff, pd_noOfOutputPlugs = 0xff\<rparr>"

definition ExtendedSubunitInfoPageData_serialize :: "'s oss \<Rightarrow> esi_page_data \<Rightarrow> ('s, bool) state" where
  "ExtendedSubunitInfoPageData_serialize se p =
     do { write_byte se (pd_functionBlockType p);
          write_byte se (pd_functionBlockId p);
          write_byte se (pd_functionBlockSpecialPupose p);
          write_byte se (pd_noOfInputPlugs p);
          write_byte se (pd_noOfOutputPlugs p);
          State_Monad.return True }"

definition ExtendedSubunitInfoPageData_deserialize ::
  "'d iis \<Rightarrow> esi_page_data \<Rightarrow> ('d, bool \<times> esi_page_data) state" where
  "ExtendedSubunitInfoPageData_deserialize de p =
     do { (_, v) \<leftarrow> read_byte de (pd_functionBlockType p);
          let p = p\<lparr>pd_functionBlockType := v\<rparr>;
          (_, v) \<leftarrow> read_byte de (pd_functionBlockId p);
          let p = p\<lparr>pd_functionBlockId := v\<rparr>;
          (_, v) \<leftarrow> read_byte de (pd_functionBlockSpecialPupose p);
          let p = p\<lparr>pd_functionBlockSpecialPupose := v\<rparr>;
          (_, v) \<leftarrow> read_byte de (pd_noOfInputPlugs p);
          let p = p\<lparr>pd_noOfInputPlugs := v\<rparr>;
          (_, v) \<leftarrow> read_byte de (pd_noOfOutputPlugs p);
          State_Monad.return (True, p\<lparr>pd_noOfOutputPlugs := v\<rparr>) }"

record ext_subunit_info_cmd = avc_command +
  esi_page :: u8
  esi_fbType :: u8
  m_infoPageDatas :: "esi_page_data list"

definition ExtendedSubunitInfoCmd_new :: "u8 list \<Rightarrow> u8 \<Rightarrow> ext_subunit_info_cmd" where
  "ExtendedSubunitInfoCmd_new ini_frame ini_type =
     avc_command.extend (AVCCommand_new ini_frame ini_type 0x31) (ext_subunit_info_cmd.fields 0xff 0xff [])"

fun write_info_pages :: "'s oss \<Rightarrow> esi_page_data list \<Rightarrow> ('s, bool) state" where
  "write_info_pages se [] = State_Monad.return True"
| "write_info_pages se (p # ps) =
     do { r \<leftarrow> ExtendedSubunitInfoPageData_serialize se p;
          rs \<leftarrow> write_info_pages se ps;
          State_Monad.return (r \<and> rs) }"

fun write_space_fill :: "'s oss \<Rightarrow> nat \<Rightarrow> ('s, unit) state" where
  "write_space_fill se 0 = State_Monad.return ()"
| "write_space_fill se (Suc n) = do { write_byte se 0xff; write_space_fill se n }"

definition ExtendedSubunitInfoCmd_serialize :: "'s oss \<Rightarrow> ext_subunit_info_cmd \<Rightarrow> ('s, bool) state" where
  "ExtendedSubunitInfoCmd_serialize se c =
     do { status \<leftarrow> AVCCommand_serialize se c;
          r \<leftarrow> write_byte se (esi_page c);
          let status = (status \<and> r);
          r \<leftarrow> write_byte se (esi_fbType c);
          let status = (status \<and> r);
          r \<leftarrow> write_info_pages se (m_infoPageDatas c);
          let status = (status \<and> r);
          write_space_fill se (5 * 5 - length (m_infoPageDatas c) * 5);
          State_Monad.return status }"

text \<open>The loop adds pages to the vector and ends at a byte 0xff.\<close>

fun read_info_pages ::
  "u8 \<Rightarrow> 'd iis \<Rightarrow> nat \<Rightarrow> bool \<Rightarrow> esi_page_data list \<Rightarrow> ('d, bool \<times> esi_page_data list) state" where
  "read_info_pages ini de 0 status ps = State_Monad.return (status, ps)"
| "read_info_pages ini de (Suc n) status ps =
     do { (_, next) \<leftarrow> peek_byte de ini;
          if next \<noteq> 0xff then
            do { (r, p) \<leftarrow> ExtendedSubunitInfoPageData_deserialize de ExtendedSubunitInfoPageData_new;
                 if \<not> r then State_Monad.return (False, ps)
                 else read_info_pages ini de n status (ps @ [p]) }
          else State_Monad.return (status, ps) }"

definition ExtendedSubunitInfoCmd_deserialize ::
  "u8 \<Rightarrow> 'd iis \<Rightarrow> ext_subunit_info_cmd \<Rightarrow> ('d, bool \<times> ext_subunit_info_cmd) state" where
  "ExtendedSubunitInfoCmd_deserialize ini de c =
     do { (status, c) \<leftarrow> AVCCommand_deserialize de c;
          (r, v) \<leftarrow> read_byte de (esi_page c);
          let status = (status \<and> r);
          let c = c\<lparr>esi_page := v\<rparr>;
          (r, v) \<leftarrow> read_byte de (esi_fbType c);
          let status = (status \<and> r);
          let c = c\<lparr>esi_fbType := v\<rparr>;
          (status, ps) \<leftarrow> read_info_pages ini de 5 status (m_infoPageDatas c);
          State_Monad.return (status, c\<lparr>m_infoPageDatas := ps\<rparr>) }"

section \<open>The bytes on the bus\<close>

text \<open>
  For every class: the bytes of a command, the commands for which the method succeeds, and the
  receiver \<open>c0\<close> after it has read the bytes of \<open>c\<close>.
\<close>

definition PlugInfoCmd_good :: "plug_info_cmd \<Rightarrow> bool" where
  "PlugInfoCmd_good c \<longleftrightarrow> getSubunitType c = eST_Unit \<longrightarrow>
     pi_subFunction c \<in> {eSF_SerialBusIsochronousAndExternalPlug, eSF_SerialBusAsynchonousPlug}"

definition PlugInfoCmd_wire :: "plug_info_cmd \<Rightarrow> u8 list" where
  "PlugInfoCmd_wire c = avc_header c @ pi_subFunction c #
     (if getSubunitType c \<noteq> eST_Unit then [m_destinationPlugs c, m_sourcePlugs c, 0xff, 0xff]
      else if pi_subFunction c = eSF_SerialBusIsochronousAndExternalPlug
      then [m_serialBusIsochronousInputPlugs c, m_serialBusIsochronousOutputPlugs c, m_externalInputPlugs c,
            m_externalOutputPlugs c]
      else [m_serialBusAsynchronousInputPlugs c, m_serialBusAsynchronousOuputPlugs c, 0xff, 0xff])"

definition PlugInfoCmd_reply :: "plug_info_cmd \<Rightarrow> plug_info_cmd \<Rightarrow> plug_info_cmd" where
  "PlugInfoCmd_reply c0 c =
     (let c1 = (with_header c0 c)\<lparr>pi_subFunction := pi_subFunction c\<rparr>
      in if getSubunitType c \<noteq> eST_Unit
         then c1\<lparr>m_destinationPlugs := m_destinationPlugs c, m_sourcePlugs := m_sourcePlugs c\<rparr>
         else if pi_subFunction c = eSF_SerialBusIsochronousAndExternalPlug
         then c1\<lparr>m_serialBusIsochronousInputPlugs := m_serialBusIsochronousInputPlugs c,
                 m_serialBusIsochronousOutputPlugs := m_serialBusIsochronousOutputPlugs c,
                 m_externalInputPlugs := m_externalInputPlugs c,
                 m_externalOutputPlugs := m_externalOutputPlugs c\<rparr>
         else c1\<lparr>m_serialBusAsynchronousInputPlugs := m_serialBusAsynchronousInputPlugs c,
                 m_serialBusAsynchronousOuputPlugs := m_serialBusAsynchronousOuputPlugs c\<rparr>)"

lemma getSubunitType_with_header [simp]: "getSubunitType (with_header c0 c) = getSubunitType c"
  by (simp add: getSubunitType_def with_header_def)

lemma getSubunitType_plug_info [simp]: "getSubunitType (c\<lparr>pi_subFunction := v\<rparr>) = getSubunitType c"
  by (simp add: getSubunitType_def)

context byte_sink
begin

lemma emits_plug_info:
  "PlugInfoCmd_good c \<Longrightarrow> emits fits put (PlugInfoCmd_serialize se c) True (PlugInfoCmd_wire c)"
  by (auto simp: PlugInfoCmd_good_def PlugInfoCmd_serialize_def PlugInfoCmd_wire_def
      intro!: emits_header_bind emits_intros)

end

context byte_source
begin

lemma takes_plug_info:
  "PlugInfoCmd_good c \<Longrightarrow>
   takes invar rest adv (PlugInfoCmd_deserialize ini de c0) (True, PlugInfoCmd_reply c0 c) (PlugInfoCmd_wire c)"
  by (auto simp: PlugInfoCmd_good_def PlugInfoCmd_deserialize_def PlugInfoCmd_wire_def PlugInfoCmd_reply_def
      intro!: takes_header_bind takes_intros)

end

interpretation plug_info: avc_codec
  "PlugInfoCmd_serialize (buffer_serializer be)" "PlugInfoCmd_deserialize ini (buffer_deserializer be)"
  PlugInfoCmd_wire PlugInfoCmd_good "\<lambda>c0. PlugInfoCmd_good" PlugInfoCmd_reply
  for be ini
  by unfold_locales
    (simp_all add: bser.emits_plug_info takes_reads [OF bdes.takes_plug_info], simp add: PlugInfoCmd_wire_def)

text \<open>Connect.\<close>

context byte_sink
begin

lemma emits_connect: "emits fits put (ConnectCmd_serialize se c) True (avc_header c)"
  using emits_bind [OF emits_header, of "State_Monad.return" True "[]"]
  by (simp add: ConnectCmd_serialize_def emits_return)

end

context byte_source
begin

lemma takes_connect:
  "takes invar rest adv (ConnectCmd_deserialize de c0) (True, with_header c0 c) (avc_header c)"
proof -
  have "takes invar rest adv (State_Monad.bind (AVCCommand_deserialize de c0) (\<lambda>(r, c). State_Monad.return (True \<and> r, c)))
      (True, with_header c0 c) (avc_header c @ [])"
    by (rule takes_header_bind) (simp add: takes_return)
  then show ?thesis by (simp add: ConnectCmd_deserialize_def)
qed

end

interpretation connect: avc_codec
  "ConnectCmd_serialize (buffer_serializer be)" "ConnectCmd_deserialize (buffer_deserializer be)"
  avc_header "\<lambda>c. True" "\<lambda>c0 c. True" with_header
  for be
  by unfold_locales (simp_all add: bser.emits_connect takes_reads [OF bdes.takes_connect])

text \<open>Plug signal formats.\<close>

definition sf_pack :: "signal_format_cmd \<Rightarrow> u8" where
  "sf_pack c = (push_bit 7 (sf_eoh c AND 0x01) OR push_bit 6 (sf_form c AND 0x01)) OR (sf_fmt c AND 0x3f)"

definition SignalFormatCmd_wire :: "signal_format_cmd \<Rightarrow> u8 list" where
  "SignalFormatCmd_wire c = avc_header c @ [sf_plug c, sf_pack c, sf_fdf0 c, sf_fdf1 c, sf_fdf2 c]"

definition SignalFormatCmd_reply :: "signal_format_cmd \<Rightarrow> signal_format_cmd \<Rightarrow> signal_format_cmd" where
  "SignalFormatCmd_reply c0 c =
     (with_header c0 c)\<lparr>sf_plug := sf_plug c, sf_eoh := sf_eoh c AND 0x01, sf_form := sf_form c AND 0x01,
       sf_fmt := sf_fmt c AND 0x3f, sf_fdf0 := sf_fdf0 c, sf_fdf1 := sf_fdf1 c, sf_fdf2 := sf_fdf2 c\<rparr>"

lemma sf_unpack:
  "drop_bit 7 (sf_pack c AND 0x80) = sf_eoh c AND 0x01" "drop_bit 6 (sf_pack c AND 0x40) = sf_form c AND 0x01"
  "sf_pack c AND 0x3f = sf_fmt c AND 0x3f"
  by (rule word_eq_bits, simp add: sf_pack_def word_bits_simps)+

context byte_sink
begin

lemma emits_signal_format:
  "emits fits put (OutputPlugSignalFormatCmd_serialize se c) True (SignalFormatCmd_wire c)"
  "emits fits put (InputPlugSignalFormatCmd_serialize se c) True (SignalFormatCmd_wire c)"
  by (auto simp: OutputPlugSignalFormatCmd_serialize_def InputPlugSignalFormatCmd_serialize_def
      SignalFormatCmd_wire_def sf_pack_def Let_def intro!: emits_header_bind emits_intros)

end

context byte_source
begin

lemma takes_signal_format:
  "takes invar rest adv (OutputPlugSignalFormatCmd_deserialize ini de c0) (True, SignalFormatCmd_reply c0 c) (SignalFormatCmd_wire c)"
  "takes invar rest adv (InputPlugSignalFormatCmd_deserialize ini de c0) (True, SignalFormatCmd_reply c0 c) (SignalFormatCmd_wire c)"
  unfolding SignalFormatCmd_reply_def sf_unpack [symmetric]
  by (auto simp: OutputPlugSignalFormatCmd_deserialize_def InputPlugSignalFormatCmd_deserialize_def
      SignalFormatCmd_wire_def Let_def intro!: takes_header_bind takes_intros)

end

interpretation output_format: avc_codec
  "OutputPlugSignalFormatCmd_serialize (buffer_serializer be)"
  "OutputPlugSignalFormatCmd_deserialize ini (buffer_deserializer be)"
  SignalFormatCmd_wire "\<lambda>c. True" "\<lambda>c0 c. True" SignalFormatCmd_reply
  for be ini
  by unfold_locales
    (simp_all add: bser.emits_signal_format takes_reads [OF bdes.takes_signal_format(1)], simp add: SignalFormatCmd_wire_def)

interpretation input_format: avc_codec
  "InputPlugSignalFormatCmd_serialize (buffer_serializer be)"
  "InputPlugSignalFormatCmd_deserialize ini (buffer_deserializer be)"
  SignalFormatCmd_wire "\<lambda>c. True" "\<lambda>c0 c. True" SignalFormatCmd_reply
  for be ini
  by unfold_locales
    (simp_all add: bser.emits_signal_format takes_reads [OF bdes.takes_signal_format(2)], simp add: SignalFormatCmd_wire_def)

text \<open>Subunit info.\<close>

definition subunit_byte :: "u8 \<times> u8 \<Rightarrow> u8" where
  "subunit_byte e = push_bit 3 (fst e) OR (snd e AND 0x7)"

definition sui_pack :: "subunit_info_cmd \<Rightarrow> u8" where
  "sui_pack c = push_bit 4 (sui_page c AND 0x7) OR (sui_extension_code c AND 0x7)"

definition valid_entries :: "u8 list \<Rightarrow> i16" where
  "valid_entries bs = of_nat (length (filter (\<lambda>b. b \<noteq> 0xff) bs))"

definition SubUnitInfoCmd_wire :: "subunit_info_cmd \<Rightarrow> u8 list" where
  "SubUnitInfoCmd_wire c = avc_header c @ sui_pack c # map subunit_byte (sui_table c)"

definition SubUnitInfoCmd_reply :: "subunit_info_cmd \<Rightarrow> subunit_info_cmd \<Rightarrow> subunit_info_cmd" where
  "SubUnitInfoCmd_reply c0 c =
     (with_header c0 c)\<lparr>sui_page := sui_page c AND 0x7, sui_extension_code := sui_extension_code c AND 0x7,
       sui_table := map (\<lambda>(t, i). (t AND 0x1f, i AND 0x7)) (sui_table c),
       sui_nrOfValidEntries := valid_entries (map subunit_byte (sui_table c))\<rparr>"

lemma subunit_unpack:
  "drop_bit 3 (subunit_byte (t, i)) = t AND 0x1f" "subunit_byte (t, i) AND 0x7 = i AND 0x7"
  unfolding subunit_byte_def fst_conv snd_conv by (rule pack_3_5)+

lemma sui_unpack:
  "drop_bit 4 (sui_pack c) AND 0x7 = sui_page c AND 0x7" "sui_pack c AND 0x7 = sui_extension_code c AND 0x7"
  by (rule word_eq_bits, simp add: sui_pack_def word_bits_simps)+

context byte_sink
begin

lemma emits_subunit_table: "emits fits put (write_subunit_table se es) () (map subunit_byte es)"
proof (induction es)
  case Nil
  then show ?case by (simp add: emits_return)
next
  case (Cons e es)
  then show ?case by (cases e) (simp add: subunit_byte_def emits_byte_bind)
qed

lemma emits_subunit_info: "emits fits put (SubUnitInfoCmd_serialize se c) True (SubUnitInfoCmd_wire c)"
proof -
  have "emits fits put (State_Monad.bind (write_subunit_table se (sui_table c)) (\<lambda>_. State_Monad.return True)) True
      (map subunit_byte (sui_table c) @ [])"
    by (rule emits_bind [OF emits_subunit_table]) (rule emits_return)
  then show ?thesis
    unfolding SubUnitInfoCmd_serialize_def SubUnitInfoCmd_wire_def sui_pack_def Let_def
    by (intro emits_header_bind emits_byte_bind) simp
qed

end

context byte_source
begin

lemma takes_subunit_table:
  "takes invar rest adv (read_subunit_table de (length bs) operand n)
     (map (\<lambda>b. (drop_bit 3 b, b AND 0x7)) bs, n + valid_entries bs) bs"
proof (induction bs arbitrary: operand n)
  case Nil
  then show ?case by (simp add: takes_return valid_entries_def)
next
  case (Cons b bs)
  let ?n = "if b \<noteq> 0xff then n + 1 else n"
  have "takes invar rest adv (State_Monad.bind (read_subunit_table de (length bs) b ?n)
      (\<lambda>(es, valid). State_Monad.return ((drop_bit 3 b, b AND 0x7) # es, valid)))
      (map (\<lambda>b. (drop_bit 3 b, b AND 0x7)) (b # bs), ?n + valid_entries bs) (bs @ [])"
    by (rule takes_bind [OF Cons.IH]) (simp add: takes_return)
  moreover have "?n + valid_entries bs = n + valid_entries (b # bs)" by (simp add: valid_entries_def)
  ultimately show ?case by (auto intro!: takes_byte_bind simp: Let_def)
qed

lemma takes_subunit_info:
  assumes "length (sui_table c) = 4"
  shows "takes invar rest adv (SubUnitInfoCmd_deserialize ini de c0) (True, SubUnitInfoCmd_reply c0 c) (SubUnitInfoCmd_wire c)"
proof -
  let ?bs = "map subunit_byte (sui_table c)"
  have t: "map (\<lambda>b. (drop_bit 3 b, b AND 0x7)) ?bs = map (\<lambda>(t, i). (t AND 0x1f, i AND 0x7)) (sui_table c)"
    by (auto simp: subunit_unpack)
  have T: "takes invar rest adv (read_subunit_table de 4 (sui_pack c) 0)
      (map (\<lambda>(t, i). (t AND 0x1f, i AND 0x7)) (sui_table c), valid_entries ?bs) ?bs"
    using takes_subunit_table [of ?bs "sui_pack c" 0] assms unfolding t by simp
  have "takes invar rest adv (State_Monad.bind (read_subunit_table de 4 (sui_pack c) 0)
      (\<lambda>(es, valid). State_Monad.return (True, ((with_header c0 c)\<lparr>sui_page := sui_page c AND 0x7,
        sui_extension_code := sui_extension_code c AND 0x7\<rparr>)\<lparr>sui_table := es, sui_nrOfValidEntries := valid\<rparr>)))
      (True, SubUnitInfoCmd_reply c0 c) (?bs @ [])"
    by (rule takes_bind [OF T]) (simp add: SubUnitInfoCmd_reply_def takes_return)
  then show ?thesis
    unfolding SubUnitInfoCmd_deserialize_def SubUnitInfoCmd_wire_def sui_unpack [symmetric]
    by (auto intro!: takes_header_bind takes_byte_bind simp: Let_def)
qed

end

interpretation subunit_info: avc_codec
  "SubUnitInfoCmd_serialize (buffer_serializer be)" "SubUnitInfoCmd_deserialize ini (buffer_deserializer be)"
  SubUnitInfoCmd_wire "\<lambda>c. length (sui_table c) = 4" "\<lambda>c0 c. length (sui_table c) = 4" SubUnitInfoCmd_reply
  for be ini
  by unfold_locales
    (simp_all add: bser.emits_subunit_info takes_reads [OF bdes.takes_subunit_info], simp add: SubUnitInfoCmd_wire_def)

text \<open>Unit info and vendor dependent commands: a company id of three bytes.\<close>

definition company_bytes :: "u32 \<Rightarrow> u8 list" where
  "company_bytes i = [ucast (drop_bit 16 i AND 0xff), ucast (drop_bit 8 i AND 0xff), ucast (i AND 0xff)]"

lemma company_join:
  "(push_bit 16 (ucast (ucast (drop_bit 16 i AND 0xff) :: u8)) OR push_bit 8 (ucast (ucast (drop_bit 8 i AND 0xff) :: u8)))
     OR ucast (ucast (i AND 0xff) :: u8) = (i :: u32) AND 0xffffff"
  by (rule word_eq_bits) (simp add: word_bits_simps)

definition UnitInfoCmd_wire :: "unit_info_cmd \<Rightarrow> u8 list" where
  "UnitInfoCmd_wire c = avc_header c @ ui_reserved c # subunit_byte (ui_unit_type c, ui_unit c) # company_bytes (ui_company_id c)"

definition UnitInfoCmd_reply :: "unit_info_cmd \<Rightarrow> unit_info_cmd \<Rightarrow> unit_info_cmd" where
  "UnitInfoCmd_reply c0 c =
     (with_header c0 c)\<lparr>ui_reserved := ui_reserved c, ui_unit_type := ui_unit_type c AND 0x1f, ui_unit := ui_unit c AND 0x7,
       ui_company_id := ui_company_id c AND 0xffffff\<rparr>"

definition VendorDependentCmd_wire :: "vendor_dependent_cmd \<Rightarrow> u8 list" where
  "VendorDependentCmd_wire c = avc_header c @ company_bytes (m_companyId c)"

definition VendorDependentCmd_reply :: "vendor_dependent_cmd \<Rightarrow> vendor_dependent_cmd \<Rightarrow> vendor_dependent_cmd" where
  "VendorDependentCmd_reply c0 c = (with_header c0 c)\<lparr>m_companyId := m_companyId c AND 0xffffff\<rparr>"

context byte_sink
begin

lemma emits_unit_info: "emits fits put (UnitInfoCmd_serialize se c) True (UnitInfoCmd_wire c)"
  unfolding UnitInfoCmd_serialize_def UnitInfoCmd_wire_def company_bytes_def subunit_byte_def Let_def drop_bit_0
    fst_conv snd_conv id_apply
  by (intro emits_header_bind emits_intros)

lemma emits_vendor_dependent: "emits fits put (VendorDependentCmd_serialize se c) True (VendorDependentCmd_wire c)"
  by (auto simp: VendorDependentCmd_serialize_def VendorDependentCmd_wire_def company_bytes_def
      intro!: emits_header_bind emits_intros)

end

context byte_source
begin

lemma takes_unit_info:
  "takes invar rest adv (UnitInfoCmd_deserialize ini de c0) (True, UnitInfoCmd_reply c0 c) (UnitInfoCmd_wire c)"
  unfolding UnitInfoCmd_reply_def subunit_unpack [of "ui_unit_type c" "ui_unit c", symmetric]
    company_join [of "ui_company_id c", symmetric]
  by (auto simp: UnitInfoCmd_deserialize_def UnitInfoCmd_wire_def company_bytes_def Let_def
      intro!: takes_header_bind takes_intros)

lemma takes_vendor_dependent:
  "takes invar rest adv (VendorDependentCmd_deserialize ini de c0) (True, VendorDependentCmd_reply c0 c) (VendorDependentCmd_wire c)"
  unfolding VendorDependentCmd_reply_def company_join [of "m_companyId c", symmetric]
  by (auto simp: VendorDependentCmd_deserialize_def VendorDependentCmd_wire_def company_bytes_def Let_def or.assoc
      intro!: takes_header_bind takes_intros)

end

interpretation unit_info: avc_codec
  "UnitInfoCmd_serialize (buffer_serializer be)" "UnitInfoCmd_deserialize ini (buffer_deserializer be)"
  UnitInfoCmd_wire "\<lambda>c. True" "\<lambda>c0 c. True" UnitInfoCmd_reply
  for be ini
  by unfold_locales
    (simp_all add: bser.emits_unit_info takes_reads [OF bdes.takes_unit_info], simp add: UnitInfoCmd_wire_def company_bytes_def)

interpretation vendor_dependent: avc_codec
  "VendorDependentCmd_serialize (buffer_serializer be)" "VendorDependentCmd_deserialize ini (buffer_deserializer be)"
  VendorDependentCmd_wire "\<lambda>c. True" "\<lambda>c0 c. True" VendorDependentCmd_reply
  for be ini
  by unfold_locales
    (simp_all add: bser.emits_vendor_dependent takes_reads [OF bdes.takes_vendor_dependent],
      simp add: VendorDependentCmd_wire_def company_bytes_def)

text \<open>Signal source: a missing address is sent as two bytes 0xff, which read as a unit address.\<close>

fun address_bytes :: "signal_address option \<Rightarrow> u8 list" where
  "address_bytes None = [0xff, 0xff]"
| "address_bytes (Some (SignalUnitAddress p)) = [0xff, p]"
| "address_bytes (Some (SignalSubunitAddress t i p)) = [subunit_byte (t, i), p]"

fun address_read :: "signal_address option \<Rightarrow> signal_address" where
  "address_read None = SignalUnitAddress 0xff"
| "address_read (Some (SignalUnitAddress p)) = SignalUnitAddress p"
| "address_read (Some (SignalSubunitAddress t i p)) =
     (if subunit_byte (t, i) = 0xff then SignalUnitAddress p else SignalSubunitAddress (t AND 0x1f) (i AND 0x7) p)"

definition ss_status :: "signal_source_cmd \<Rightarrow> u8" where
  "ss_status c = push_bit 5 (m_outputStatus c) OR push_bit 4 (m_conv c AND 0x1) OR (m_signalStatus c AND 0xf)"

definition SignalSourceCmd_good :: "signal_source_cmd \<Rightarrow> bool" where
  "SignalSourceCmd_good c \<longleftrightarrow> getCommandType c \<in> {eCT_Status, eCT_Control, eCT_SpecificInquiry}
     \<and> getSubunitType c \<in> {eST_Unit, eST_Audio, eST_Music}"

definition SignalSourceCmd_wire :: "signal_source_cmd \<Rightarrow> u8 list" where
  "SignalSourceCmd_wire c = avc_header c
     @ (if getCommandType c = eCT_Status then ss_status c else m_resultStatus c AND 0xf)
     # address_bytes (m_signalSource c) @ address_bytes (m_signalDestination c)"

definition SignalSourceCmd_reply :: "signal_source_cmd \<Rightarrow> signal_source_cmd \<Rightarrow> signal_source_cmd" where
  "SignalSourceCmd_reply c0 c =
     (let c1 = (with_header c0 c)\<lparr>m_signalSource := Some (address_read (m_signalSource c)),
                 m_signalDestination := Some (address_read (m_signalDestination c))\<rparr>
      in if getCommandType c = eCT_Status
         then c1\<lparr>m_outputStatus := m_outputStatus c AND 0x7, m_conv := m_conv c AND 0x1, m_signalStatus := m_signalStatus c AND 0xf\<rparr>
         else c1\<lparr>m_resultStatus := m_resultStatus c AND 0xf\<rparr>)"

lemma ss_unpack:
  "drop_bit 5 (ss_status c) = m_outputStatus c AND 0x7" "drop_bit 4 (ss_status c AND 0x10) = m_conv c AND 0x1"
  "ss_status c AND 0xf = m_signalStatus c AND 0xf"
  by (rule word_eq_bits, simp add: ss_status_def word_bits_simps)+

context byte_sink
begin

lemma emits_signal_address:
  "emits fits put (case a of Some a \<Rightarrow> SignalAddress_serialize se a
     | None \<Rightarrow> do { write_byte se 0xff; write_byte se 0xff }) True (address_bytes a)"
proof (cases a rule: address_bytes.cases)
  case 1
  then show ?thesis using emits_byte_bind [OF emits_byte] by simp
qed (auto simp: subunit_byte_def intro!: emits_intros)

lemma emits_signal_source:
  assumes "SignalSourceCmd_good c"
  shows "emits fits put (SignalSourceCmd_serialize se c) True (SignalSourceCmd_wire c)"
proof -
  have addr: "emits fits put
      (State_Monad.bind (case m_signalSource c of Some a \<Rightarrow> SignalAddress_serialize se a
         | None \<Rightarrow> do { write_byte se 0xff; write_byte se 0xff })
        (\<lambda>_. State_Monad.bind (case m_signalDestination c of Some a \<Rightarrow> SignalAddress_serialize se a
           | None \<Rightarrow> do { write_byte se 0xff; write_byte se 0xff }) (\<lambda>_. State_Monad.return True)))
      True (address_bytes (m_signalSource c) @ address_bytes (m_signalDestination c) @ [])"
    by (rule emits_bind [OF emits_signal_address])+ (rule emits_return)
  show ?thesis
    using assms addr unfolding SignalSourceCmd_serialize_def SignalSourceCmd_wire_def SignalSourceCmd_good_def
    by (auto simp: ss_status_def consts_defs intro!: emits_header_bind emits_byte_bind)
qed

end

context byte_source
begin

lemma takes_signal_address:
  "takes invar rest adv (read_signal_address ini de operand) (hd (address_bytes a), address_read a) (address_bytes a)"
proof -
  have R: "takes invar rest adv (read_signal_address ini de operand)
      (x, if x = 0xff then SignalUnitAddress y else SignalSubunitAddress (drop_bit 3 x) (x AND 0x7) y) [x, y]" for x y
    by (auto simp: read_signal_address_def SignalUnitAddress_new_def SignalSubunitAddress_new_def Let_def
        intro!: takes_intros)
  show ?thesis
  proof (cases a rule: address_bytes.cases)
    case 1
    then show ?thesis using R [of "0xff" "0xff"] by simp
  next
    case (2 p)
    then show ?thesis using R [of "0xff" p] by simp
  next
    case (3 t i p)
    then show ?thesis
      using R [of "subunit_byte (t, i)" p] by (cases "subunit_byte (t, i) = 0xff") (simp_all add: subunit_unpack)
  qed
qed

lemma takes_signal_source:
  assumes good: "SignalSourceCmd_good c" and type: "getCommandType c0 = getCommandType c"
  shows "takes invar rest adv (SignalSourceCmd_deserialize ini de c0) (True, SignalSourceCmd_reply c0 c) (SignalSourceCmd_wire c)"
proof -
  define tail where "tail c' = State_Monad.bind (read_signal_address ini de ini)
      (\<lambda>(operand, a). State_Monad.bind (read_signal_address ini de operand)
        (\<lambda>(operand, a'). State_Monad.return (True, c'\<lparr>m_signalSource := Some a, m_signalDestination := Some a'\<rparr>)))"
    for c' :: signal_source_cmd
  have addr: "takes invar rest adv (tail c')
      (True, c'\<lparr>m_signalSource := Some (address_read (m_signalSource c)), m_signalDestination := Some (address_read (m_signalDestination c))\<rparr>)
      (address_bytes (m_signalSource c) @ address_bytes (m_signalDestination c) @ [])" for c'
    unfolding tail_def by (rule takes_bind [OF takes_signal_address], unfold prod.case,
      rule takes_bind [OF takes_signal_address], unfold prod.case, rule takes_return)
  let ?c = "with_header (c0\<lparr>m_signalSource := None, m_signalDestination := None\<rparr>) c"
  have ty: "getCommandType ?c = getCommandType c" and st: "getSubunitType ?c = getSubunitType c"
    using type by (simp_all add: getCommandType_def with_header_def getSubunitType_def)
  show ?thesis
  proof (cases "getCommandType c = eCT_Status")
    case True
    have "SignalSourceCmd_reply c0 c = (?c\<lparr>m_outputStatus := drop_bit 5 (ss_status c),
        m_conv := drop_bit 4 (ss_status c AND 0x10), m_signalStatus := ss_status c AND 0xf\<rparr>)
        \<lparr>m_signalSource := Some (address_read (m_signalSource c)), m_signalDestination := Some (address_read (m_signalDestination c))\<rparr>"
      using True unfolding ss_unpack by (simp add: SignalSourceCmd_reply_def with_header_def)
    then show ?thesis
      using addr [of "?c\<lparr>m_outputStatus := drop_bit 5 (ss_status c), m_conv := drop_bit 4 (ss_status c AND 0x10),
          m_signalStatus := ss_status c AND 0xf\<rparr>"] good True ty st
      by (auto simp: SignalSourceCmd_deserialize_def SignalSourceCmd_wire_def SignalSourceCmd_good_def Let_def tail_def
          getSubunitType_def intro!: takes_header_bind takes_byte_bind)
  next
    case False
    have "SignalSourceCmd_reply c0 c = (?c\<lparr>m_resultStatus := (m_resultStatus c AND 0xf) AND 0xf\<rparr>)
        \<lparr>m_signalSource := Some (address_read (m_signalSource c)), m_signalDestination := Some (address_read (m_signalDestination c))\<rparr>"
      using False by (simp add: SignalSourceCmd_reply_def with_header_def)
    then show ?thesis
      using addr [of "?c\<lparr>m_resultStatus := (m_resultStatus c AND 0xf) AND 0xf\<rparr>"] good False ty st
      by (auto simp: SignalSourceCmd_deserialize_def SignalSourceCmd_wire_def SignalSourceCmd_good_def Let_def tail_def
          getSubunitType_def intro!: takes_header_bind takes_byte_bind)
  qed
qed

end

interpretation signal_source: avc_codec
  "SignalSourceCmd_serialize (buffer_serializer be)" "SignalSourceCmd_deserialize ini (buffer_deserializer be)"
  SignalSourceCmd_wire SignalSourceCmd_good "\<lambda>c0 c. SignalSourceCmd_good c \<and> getCommandType c0 = getCommandType c"
  SignalSourceCmd_reply
  for be ini
proof (unfold_locales, goal_cases)
  case (2 c)
  have "length (address_bytes a) = 2" for a by (cases a rule: address_bytes.cases) simp_all
  then show ?case by (simp add: SignalSourceCmd_wire_def)
qed (simp_all add: bser.emits_signal_source takes_reads [OF bdes.takes_signal_source])

text \<open>Extended subunit info: up to five pages, then bytes 0xff.\<close>

definition page_bytes :: "esi_page_data \<Rightarrow> u8 list" where
  "page_bytes p = [pd_functionBlockType p, pd_functionBlockId p, pd_functionBlockSpecialPupose p, pd_noOfInputPlugs p,
     pd_noOfOutputPlugs p]"

definition ExtendedSubunitInfoCmd_wire :: "ext_subunit_info_cmd \<Rightarrow> u8 list" where
  "ExtendedSubunitInfoCmd_wire c = avc_header c @ esi_page c # esi_fbType c
     # concat (map page_bytes (m_infoPageDatas c)) @ replicate (25 - length (m_infoPageDatas c) * 5) 0xff"

definition ExtendedSubunitInfoCmd_good :: "ext_subunit_info_cmd \<Rightarrow> bool" where
  "ExtendedSubunitInfoCmd_good c \<longleftrightarrow> length (m_infoPageDatas c) \<le> 5"

definition ExtendedSubunitInfoCmd_readable :: "ext_subunit_info_cmd \<Rightarrow> bool" where
  "ExtendedSubunitInfoCmd_readable c \<longleftrightarrow> length (m_infoPageDatas c) \<le> 5
     \<and> list_all (\<lambda>p. pd_functionBlockType p \<noteq> 0xff) (m_infoPageDatas c)"

definition ExtendedSubunitInfoCmd_reply ::
  "ext_subunit_info_cmd \<Rightarrow> ext_subunit_info_cmd \<Rightarrow> ext_subunit_info_cmd" where
  "ExtendedSubunitInfoCmd_reply c0 c =
     (with_header c0 c)\<lparr>esi_page := esi_page c, esi_fbType := esi_fbType c,
       m_infoPageDatas := m_infoPageDatas c0 @ m_infoPageDatas c\<rparr>"

lemma page_update:
  "p0\<lparr>pd_functionBlockType := pd_functionBlockType p, pd_functionBlockId := pd_functionBlockId p,
      pd_functionBlockSpecialPupose := pd_functionBlockSpecialPupose p, pd_noOfInputPlugs := pd_noOfInputPlugs p,
      pd_noOfOutputPlugs := pd_noOfOutputPlugs p\<rparr> = (p :: esi_page_data)"
  by simp

lemma length_page: "length (page_bytes p) = 5"
  by (simp add: page_bytes_def)

lemma length_pages: "length (concat (map page_bytes ps)) = length ps * 5"
  by (induction ps) (simp_all add: page_bytes_def)

context byte_sink
begin

lemma emits_page: "emits fits put (ExtendedSubunitInfoPageData_serialize se p) True (page_bytes p)"
  unfolding ExtendedSubunitInfoPageData_serialize_def page_bytes_def by (intro emits_intros)

lemma emits_pages: "emits fits put (write_info_pages se ps) True (concat (map page_bytes ps))"
proof (induction ps)
  case Nil
  then show ?case by (simp add: emits_return)
next
  case (Cons p ps)
  have "emits fits put (State_Monad.bind (write_info_pages se ps) (\<lambda>rs. State_Monad.return (True \<and> rs))) True
      (concat (map page_bytes ps) @ [])"
    by (rule emits_bind [OF Cons.IH]) (simp add: emits_return)
  then show ?case using emits_bind [OF emits_page] by fastforce
qed

lemma emits_fill: "emits fits put (write_space_fill se n) () (replicate n 0xff)"
  by (induction n) (simp_all add: emits_return emits_byte_bind)

lemma emits_ext_subunit_info:
  "emits fits put (ExtendedSubunitInfoCmd_serialize se c) True (ExtendedSubunitInfoCmd_wire c)"
proof -
  let ?n = "5 * 5 - length (m_infoPageDatas c) * 5"
  have "emits fits put (State_Monad.bind (write_info_pages se (m_infoPageDatas c))
      (\<lambda>r. State_Monad.bind (write_space_fill se ?n) (\<lambda>_. State_Monad.return r))) True
      (concat (map page_bytes (m_infoPageDatas c)) @ replicate ?n 0xff @ [])"
    by (rule emits_bind [OF emits_pages], rule emits_bind [OF emits_fill], rule emits_return)
  then show ?thesis
    by (auto simp: ExtendedSubunitInfoCmd_serialize_def ExtendedSubunitInfoCmd_wire_def
        intro!: emits_header_bind emits_byte_bind)
qed

end

context byte_source
begin

lemma takes_page:
  "takes invar rest adv (ExtendedSubunitInfoPageData_deserialize de p0) (True, p) (page_bytes p)"
proof -
  have "takes invar rest adv (ExtendedSubunitInfoPageData_deserialize de p0)
      (True, p0\<lparr>pd_functionBlockType := pd_functionBlockType p, pd_functionBlockId := pd_functionBlockId p,
        pd_functionBlockSpecialPupose := pd_functionBlockSpecialPupose p, pd_noOfInputPlugs := pd_noOfInputPlugs p,
        pd_noOfOutputPlugs := pd_noOfOutputPlugs p\<rparr>) (page_bytes p)"
    unfolding page_bytes_def ExtendedSubunitInfoPageData_deserialize_def Let_def
    by (rule takes_byte_bind, unfold prod.case)+ (rule takes_return)
  then show ?thesis unfolding page_update .
qed

lemma read_pages:
  assumes "invar d" and "rest d = concat (map page_bytes ps) @ tail" and "length ps \<le> n"
    and "list_all (\<lambda>p. pd_functionBlockType p \<noteq> 0xff) ps" and "length ps < n \<Longrightarrow> \<exists>t. tail = 0xff # t"
  shows "\<exists>d'. run_state (read_info_pages ini de n status qs) d = ((status, qs @ ps), d')"
  using assms
proof (induction ps arbitrary: d n qs)
  case Nil
  show ?case
  proof (cases n)
    case (Suc m)
    obtain t where "tail = 0xff # t" using Nil.prems(5) Suc by auto
    then show ?thesis using Nil.prems(1,2) Suc by (simp add: peek_byte_next)
  qed simp
next
  case (Cons p ps)
  obtain m where m: "n = Suc m" using Cons.prems(3) by (cases n) simp_all
  have r: "rest d = page_bytes p @ concat (map page_bytes ps) @ tail" using Cons.prems(2) by simp
  then have pk: "run_state (peek_byte de ini) d = ((True, pd_functionBlockType p), d)"
    using Cons.prems(1) by (simp add: peek_byte_next page_bytes_def)
  have pg: "run_state (ExtendedSubunitInfoPageData_deserialize de ExtendedSubunitInfoPageData_new) d = ((True, p), adv 5 d)"
    using takes_page [of ExtendedSubunitInfoPageData_new p] Cons.prems(1) r by (simp add: takes_def length_page)
  have "invar (adv 5 d)" "rest (adv 5 d) = concat (map page_bytes ps) @ tail"
    using Cons.prems(1) r by (simp_all add: inv_adv rest_adv length_page)
  then have "\<exists>d'. run_state (read_info_pages ini de m status (qs @ [p])) (adv 5 d) = ((status, (qs @ [p]) @ ps), d')"
    using Cons.prems(3-5) m by (intro Cons.IH) simp_all
  then show ?case using Cons.prems(4) m pk pg by simp
qed

end

lemma reads_ext_subunit_info:
  assumes "ExtendedSubunitInfoCmd_readable c"
  shows "reads (ExtendedSubunitInfoCmd_deserialize ini (buffer_deserializer be) c0)
     (True, ExtendedSubunitInfoCmd_reply c0 c) (ExtendedSubunitInfoCmd_wire c)"
  unfolding reads_def
proof (intro allI impI)
  fix d tail
  assume d: "bd_invar d" "bd_rest d = ExtendedSubunitInfoCmd_wire c @ tail"
  let ?de = "buffer_deserializer be"
  let ?h = "do { (status, c1) \<leftarrow> AVCCommand_deserialize ?de c0;
      (r, v) \<leftarrow> read_byte ?de (esi_page c1);
      (r', v') \<leftarrow> read_byte ?de (esi_fbType c1);
      State_Monad.return (status \<and> r \<and> r', c1\<lparr>esi_page := v, esi_fbType := v'\<rparr>) }"
  let ?bs = "avc_header c @ [esi_page c, esi_fbType c]"
  let ?c = "(with_header c0 c)\<lparr>esi_page := esi_page c, esi_fbType := esi_fbType c\<rparr>"
  have "takes bd_invar bd_rest bd_advance ?h (True, ?c) ?bs"
    by (auto intro!: bdes.takes_header_bind bdes.takes_intros)
  moreover have r: "bd_rest d = ?bs @ concat (map page_bytes (m_infoPageDatas c))
      @ replicate (25 - length (m_infoPageDatas c) * 5) 0xff @ tail"
    using d(2) by (simp add: ExtendedSubunitInfoCmd_wire_def)
  ultimately have h: "run_state ?h d = ((True, ?c), bd_advance (length ?bs) d)"
    using d(1) unfolding takes_def by blast
  let ?d = "bd_advance (length ?bs) d"
  have "bd_invar ?d" "bd_rest ?d = concat (map page_bytes (m_infoPageDatas c))
      @ replicate (25 - length (m_infoPageDatas c) * 5) 0xff @ tail"
    using bd_advance_rest [OF d(1), of "length ?bs"] r by simp_all
  moreover have "\<exists>t. replicate (25 - length (m_infoPageDatas c) * 5) 0xff @ tail = 0xff # t"
    if lt: "length (m_infoPageDatas c) < 5"
  proof -
    obtain k where "25 - length (m_infoPageDatas c) * 5 = Suc k"
      using lt by (cases "25 - length (m_infoPageDatas c) * 5") simp_all
    then show ?thesis by simp
  qed
  ultimately obtain d' where pages: "run_state (read_info_pages ini ?de 5 True (m_infoPageDatas c0)) ?d
      = ((True, m_infoPageDatas c0 @ m_infoPageDatas c), d')"
    using assms bdes.read_pages [of ?d "m_infoPageDatas c" _ 5 ini be True "m_infoPageDatas c0"]
    by (auto simp: ExtendedSubunitInfoCmd_readable_def)
  let ?k = "\<lambda>(status, c1). do { (status, ps) \<leftarrow> read_info_pages ini ?de 5 status (m_infoPageDatas c1);
      State_Monad.return (status, c1\<lparr>m_infoPageDatas := ps\<rparr>) }"
  have "ExtendedSubunitInfoCmd_deserialize ini ?de c0 = State_Monad.bind ?h ?k"
    by (simp add: ExtendedSubunitInfoCmd_deserialize_def Let_def split_def)
  then have "run_state (ExtendedSubunitInfoCmd_deserialize ini ?de c0) d = run_state (?k (True, ?c)) ?d"
    using run_bind [OF h, of ?k] by (simp only:)
  also have "\<dots> = ((True, ExtendedSubunitInfoCmd_reply c0 c), d')"
    using pages by (simp add: ExtendedSubunitInfoCmd_reply_def with_header_def)
  finally show "\<exists>d'. run_state (ExtendedSubunitInfoCmd_deserialize ini ?de c0) d
      = ((True, ExtendedSubunitInfoCmd_reply c0 c), d')" by blast
qed

interpretation ext_subunit_info: avc_codec
  "ExtendedSubunitInfoCmd_serialize (buffer_serializer be)"
  "ExtendedSubunitInfoCmd_deserialize ini (buffer_deserializer be)"
  ExtendedSubunitInfoCmd_wire ExtendedSubunitInfoCmd_good "\<lambda>c0. ExtendedSubunitInfoCmd_readable" ExtendedSubunitInfoCmd_reply
  for be ini
  by unfold_locales
    (simp_all add: bser.emits_ext_subunit_info reads_ext_subunit_info,
      simp add: ExtendedSubunitInfoCmd_wire_def ExtendedSubunitInfoCmd_good_def length_pages)

section \<open>Properties\<close>

lemma PlugInfoCmd_wire_length: "length (PlugInfoCmd_wire c) = 8"
  and SignalFormatCmd_wire_length: "length (SignalFormatCmd_wire c') = 8"
  and SubUnitInfoCmd_wire_length: "length (sui_table c'') = 4 \<Longrightarrow> length (SubUnitInfoCmd_wire c'') = 8"
  by (simp_all add: PlugInfoCmd_wire_def SignalFormatCmd_wire_def SubUnitInfoCmd_wire_def)

text \<open>
  Plug info: serializing succeeds exactly for the two subfunctions that a unit knows (and for
  every subfunction of a subunit); the frame then holds the header, the subfunction and the four
  counts that belong to it, and deserializing it copies the header, the subfunction and these
  counts and leaves all other members of the receiver alone.
\<close>

theorem plug_info_roundtrip:
  "(fst (run_state (PlugInfoCmd_serialize (buffer_serializer be) c) (BufferSerialize (replicate 512 0) 512)) \<longleftrightarrow> PlugInfoCmd_good c)
   \<and> (PlugInfoCmd_good c \<longrightarrow>
      (\<exists>s d. run_state (PlugInfoCmd_serialize (buffer_serializer be) c) (BufferSerialize (replicate 512 0) 512) = (True, s)
        \<and> \<not> bs_overrun s \<and> take 8 (bs_buffer s) = PlugInfoCmd_wire c
        \<and> run_state (PlugInfoCmd_deserialize ini (buffer_deserializer be) c0) (BufferDeserialize (bs_buffer s) 512)
          = ((True, PlugInfoCmd_reply c0 c), d)))"
proof (cases "PlugInfoCmd_good c")
  case True
  then show ?thesis
    using plug_info.codec_roundtrip [where be = be and ini = ini and c = c and recv = c0]
    by (auto simp: PlugInfoCmd_wire_length)
next
  case False
  then have "PlugInfoCmd_serialize (buffer_serializer be) c =
      do { AVCCommand_serialize (buffer_serializer be) c; write_byte (buffer_serializer be) (pi_subFunction c);
           State_Monad.return False }"
    by (simp add: PlugInfoCmd_serialize_def PlugInfoCmd_good_def)
  then show ?thesis using False by (simp add: split_def)
qed

theorem plug_info_roundtrip_witness:
  "fst (run_state (PlugInfoCmd_serialize (buffer_serializer False) (PlugInfoCmd_new [] 0 0)) (BufferSerialize (replicate 512 0) 512))
   \<and> \<not> fst (run_state (PlugInfoCmd_serialize (buffer_serializer False) (PlugInfoCmd_new [] 0 0x40)) (BufferSerialize (replicate 512 0) 512))"
proof -
  have "PlugInfoCmd_good (PlugInfoCmd_new [] 0 0)" "\<not> PlugInfoCmd_good (PlugInfoCmd_new [] 0 0x40)"
    by (simp_all add: PlugInfoCmd_good_def PlugInfoCmd_new_def avc_command.defs plug_info_cmd.defs AVCCommand_new_def
        getSubunitType_def consts_defs)
  then show ?thesis
    using plug_info_roundtrip [of False "PlugInfoCmd_new [] 0 0" 0 "PlugInfoCmd_new [] 0 0"]
      plug_info_roundtrip [of False "PlugInfoCmd_new [] 0 0x40" 0 "PlugInfoCmd_new [] 0 0"] by simp
qed

text \<open>
  Firing a plug info command sends exactly the bytes of the command, filled up with zeros to
  whole quadlets, to the command's node. Without a response it fails and keeps its members; with a
  response that is a plug info command of the device it takes over the device's counts and
  succeeds exactly for the responses accepted, implemented, rejected and not implemented.
\<close>

theorem plug_info_fire:
  assumes "PlugInfoCmd_good c" and "PlugInfoCmd_good c'" and "r # others = PlugInfoCmd_wire c' @ pad" and "length others < 512"
  shows "fire (PlugInfoCmd_serialize (buffer_serializer be)) (PlugInfoCmd_deserialize ini (buffer_deserializer be))
       (\<lambda>node req. if node = m_nodeId c \<and> req = fcp_request (PlugInfoCmd_wire c) then Some (r, others) else None) c
     = (final_response r, PlugInfoCmd_reply (c\<lparr>m_fcpFrame := fcp_frame (PlugInfoCmd_wire c), m_eResponse := r\<rparr>) c')
   \<and> fire (PlugInfoCmd_serialize (buffer_serializer be)) (PlugInfoCmd_deserialize ini (buffer_deserializer be))
       (\<lambda>node req. None) c
     = (False, c\<lparr>m_fcpFrame := fcp_frame (PlugInfoCmd_wire c)\<rparr>)"
  using plug_info.fire_response [OF assms(1) _ assms(3) _ assms(2)] plug_info.fire_no_response [OF assms(1)] assms(4)
  by simp

theorem plug_info_fire_witness:
  "\<exists>c. fire (PlugInfoCmd_serialize (buffer_serializer False)) (PlugInfoCmd_deserialize 0 (buffer_deserializer False))
     (\<lambda>node req. if node = 0 \<and> req = [0x01, 0xff, 0x02, 0x00, 0xff, 0xff, 0xff, 0xff] then Some (0x0C, [0xff, 0x02, 0x00, 2, 2, 8, 8]) else None)
     (snd (setCommandType eCT_Status (PlugInfoCmd_new [] 0 0))) = (True, c) \<and> m_externalInputPlugs c = 8"
proof -
  define c where "c = snd (setCommandType eCT_Status (PlugInfoCmd_new [] 0 0))"
  let ?d = "c\<lparr>m_ctype := 0x0C, m_serialBusIsochronousInputPlugs := 2, m_serialBusIsochronousOutputPlugs := 2,
    m_externalInputPlugs := 8, m_externalOutputPlugs := 8\<rparr>"
  have c: "c = \<lparr>m_nodeId = 0, m_fcpFrame = [], m_ctype = 1, m_subunit = 0xff, m_opcode = 2, m_eResponse = 0xff,
      m_commandType = 1, m_serialBusIsochronousInputPlugs = 0xff, m_serialBusIsochronousOutputPlugs = 0xff,
      m_externalInputPlugs = 0xff, m_externalOutputPlugs = 0xff, m_serialBusAsynchronousInputPlugs = 0xff,
      m_serialBusAsynchronousOuputPlugs = 0xff, m_destinationPlugs = 0xff, m_sourcePlugs = 0xff, pi_subFunction = 0\<rparr>"
    by (simp add: c_def setCommandType_def PlugInfoCmd_new_def avc_command.defs plug_info_cmd.defs AVCCommand_new_def consts_defs)
  have w: "PlugInfoCmd_wire c = [0x01, 0xff, 0x02, 0x00, 0xff, 0xff, 0xff, 0xff]"
    "PlugInfoCmd_wire ?d = [0x0C, 0xff, 0x02, 0x00, 2, 2, 8, 8]" "PlugInfoCmd_good c" "PlugInfoCmd_good ?d"
    by (simp_all add: c PlugInfoCmd_wire_def PlugInfoCmd_good_def avc_header_def getSubunitType_def consts_defs)
  have "0x0C # [0xff, 0x02, 0x00, 2, 2, 8, 8] = PlugInfoCmd_wire ?d @ []" using w(2) by simp
  then have "fire (PlugInfoCmd_serialize (buffer_serializer False)) (PlugInfoCmd_deserialize 0 (buffer_deserializer False))
     (\<lambda>node req. if node = 0 \<and> req = [0x01, 0xff, 0x02, 0x00, 0xff, 0xff, 0xff, 0xff] then Some (0x0C, [0xff, 0x02, 0x00, 2, 2, 8, 8]) else None)
     c = (True, PlugInfoCmd_reply (c\<lparr>m_fcpFrame := fcp_frame (PlugInfoCmd_wire c), m_eResponse := 0x0C\<rparr>) ?d)"
  proof -
    have q: "fcp_request (PlugInfoCmd_wire c) = [0x01, 0xff, 0x02, 0x00, 0xff, 0xff, 0xff, 0xff]"
      unfolding w(1) by (simp add: fcp_request_def)
    have n: "m_nodeId c = 0" and f: "final_response 0x0C = True"
      by (simp_all add: c final_response_def consts_defs)
    show ?thesis
      using plug_info_fire [OF w(3,4) \<open>0x0C # [0xff, 0x02, 0x00, 2, 2, 8, 8] = PlugInfoCmd_wire ?d @ []\<close>, of False 0]
      unfolding q n f by simp
  qed
  then show ?thesis
    unfolding c_def [symmetric] by (simp add: PlugInfoCmd_reply_def with_header_def c getSubunitType_def consts_defs)
qed

text \<open>
  Plug signal formats: serializing always succeeds; deserializing the frame copies the header, the
  plug and the three FDF bytes, and the flags EOH and form and the format cut to 1, 1 and 6 bits;
  so a command with fields in range is read back unchanged. The same holds for the output and the
  input plug command.
\<close>

theorem signal_format_roundtrip:
  "\<exists>s d d'. run_state (OutputPlugSignalFormatCmd_serialize (buffer_serializer be) c) (BufferSerialize (replicate 512 0) 512) = (True, s)
     \<and> run_state (InputPlugSignalFormatCmd_serialize (buffer_serializer be) c) (BufferSerialize (replicate 512 0) 512) = (True, s)
     \<and> \<not> bs_overrun s \<and> take 8 (bs_buffer s) = SignalFormatCmd_wire c
     \<and> run_state (OutputPlugSignalFormatCmd_deserialize ini (buffer_deserializer be) c0) (BufferDeserialize (bs_buffer s) 512)
       = ((True, SignalFormatCmd_reply c0 c), d)
     \<and> run_state (InputPlugSignalFormatCmd_deserialize ini (buffer_deserializer be) c0) (BufferDeserialize (bs_buffer s) 512)
       = ((True, SignalFormatCmd_reply c0 c), d')
     \<and> (unat (sf_eoh c) < 2 \<and> unat (sf_form c) < 2 \<and> unat (sf_fmt c) < 64 \<longrightarrow> SignalFormatCmd_reply c c = c)"
proof -
  have eq: "OutputPlugSignalFormatCmd_serialize (buffer_serializer be) c = InputPlugSignalFormatCmd_serialize (buffer_serializer be) c"
    by (simp add: OutputPlugSignalFormatCmd_serialize_def InputPlugSignalFormatCmd_serialize_def)
  have "SignalFormatCmd_reply c c = c" if "unat (sf_eoh c) < 2" "unat (sf_form c) < 2" "unat (sf_fmt c) < 64"
    unfolding SignalFormatCmd_reply_def mask_id_u8(1) [OF that(1)] mask_id_u8(1) [OF that(2)] mask_id_u8(5) [OF that(3)]
    by (simp add: with_header_def)
  then show ?thesis
    using output_format.codec_roundtrip [where be = be and ini = ini and c = c and recv = c0]
      input_format.codec_roundtrip [where be = be and ini = ini and c = c and recv = c0]
    unfolding eq by (auto simp: SignalFormatCmd_wire_length)
qed

theorem signal_format_roundtrip_witness:
  "SignalFormatCmd_reply (OutputPlugSignalFormatCmd_new [] 0) (OutputPlugSignalFormatCmd_new [] 0) = OutputPlugSignalFormatCmd_new [] 0"
proof -
  have "unat (sf_eoh (OutputPlugSignalFormatCmd_new [] 0)) < 2" "unat (sf_form (OutputPlugSignalFormatCmd_new [] 0)) < 2"
    "unat (sf_fmt (OutputPlugSignalFormatCmd_new [] 0)) < 64"
    by (simp_all add: OutputPlugSignalFormatCmd_new_def avc_command.defs signal_format_cmd.defs)
  then show ?thesis
    using signal_format_roundtrip [of False "OutputPlugSignalFormatCmd_new [] 0" 0 "OutputPlugSignalFormatCmd_new [] 0"]
    by blast
qed

text \<open>
  Subunit info: a page of four table entries survives the frame with the page and extension code
  cut to 3 bits and every entry cut to 5 bits of type and 3 bits of id; the number of valid entries
  is the number of entries whose byte is not 0xff.
\<close>

theorem subunit_info_roundtrip:
  assumes "length (sui_table c) = 4"
  shows "\<exists>s d. run_state (SubUnitInfoCmd_serialize (buffer_serializer be) c) (BufferSerialize (replicate 512 0) 512) = (True, s)
     \<and> \<not> bs_overrun s \<and> take 8 (bs_buffer s) = SubUnitInfoCmd_wire c
     \<and> run_state (SubUnitInfoCmd_deserialize ini (buffer_deserializer be) c0) (BufferDeserialize (bs_buffer s) 512)
       = ((True, SubUnitInfoCmd_reply c0 c), d)
     \<and> sui_nrOfValidEntries (SubUnitInfoCmd_reply c0 c)
       = of_nat (length (filter (\<lambda>(t, i). \<not> (t AND 0x1f = 0x1f \<and> i AND 0x7 = 0x7)) (sui_table c)))"
proof -
  have full: "subunit_byte (t, i) = 0xff \<longleftrightarrow> t AND 0x1f = 0x1f \<and> i AND 0x7 = 0x7" for t i
  proof
    assume "subunit_byte (t, i) = 0xff"
    then show "t AND 0x1f = 0x1f \<and> i AND 0x7 = 0x7" using subunit_unpack [of t i] by simp
  next
    assume a: "t AND 0x1f = 0x1f \<and> i AND 0x7 = 0x7"
    have "subunit_byte (t, i) = push_bit 3 (t AND 0x1f) OR (i AND 0x7)"
      by (rule word_eq_bits) (simp add: subunit_byte_def word_bits_simps)
    then show "subunit_byte (t, i) = 0xff" using a by simp
  qed
  have "length (filter (\<lambda>b. b \<noteq> 0xff) (map subunit_byte es))
      = length (filter (\<lambda>(t, i). \<not> (t AND 0x1f = 0x1f \<and> i AND 0x7 = 0x7)) es)" for es
    by (induction es) (auto simp: full)
  then have "sui_nrOfValidEntries (SubUnitInfoCmd_reply c0 c)
      = of_nat (length (filter (\<lambda>(t, i). \<not> (t AND 0x1f = 0x1f \<and> i AND 0x7 = 0x7)) (sui_table c)))"
    by (simp add: SubUnitInfoCmd_reply_def valid_entries_def)
  then show ?thesis
    using subunit_info.codec_roundtrip [where be = be and ini = ini and c = c and recv = c0] assms
    by (auto simp: SubUnitInfoCmd_wire_length)
qed

theorem subunit_info_roundtrip_witness:
  "sui_nrOfValidEntries (SubUnitInfoCmd_reply (SubUnitInfoCmd_new [] 0 0 [] 0)
     ((SubUnitInfoCmd_new [] 0 0 [] 0)\<lparr>sui_table := [(1, 0), (0x0C, 0), (0xff, 0xff), (0xff, 0xff)]\<rparr>)) = 2"
  using subunit_info_roundtrip [of "(SubUnitInfoCmd_new [] 0 0 [] 0)\<lparr>sui_table := [(1, 0), (0x0C, 0), (0xff, 0xff), (0xff, 0xff)]\<rparr>"
      False 0 "SubUnitInfoCmd_new [] 0 0 [] 0"] by auto

text \<open>
  Company ids: the unit info and the vendor dependent command carry the low 24 bits of the
  company id, most significant byte first; deserializing the frame gives the id cut to 24 bits, and
  for unit info the unit type and unit cut to 5 and 3 bits.
\<close>

theorem company_id_roundtrip:
  "\<exists>s d s' d'. run_state (UnitInfoCmd_serialize (buffer_serializer be) u) (BufferSerialize (replicate 512 0) 512) = (True, s)
     \<and> take 8 (bs_buffer s) = avc_header u @ [ui_reserved u, subunit_byte (ui_unit_type u, ui_unit u)] @ company_bytes (ui_company_id u)
     \<and> run_state (UnitInfoCmd_deserialize ini (buffer_deserializer be) u0) (BufferDeserialize (bs_buffer s) 512)
       = ((True, UnitInfoCmd_reply u0 u), d)
     \<and> ui_company_id (UnitInfoCmd_reply u0 u) = ui_company_id u AND 0xffffff
     \<and> run_state (VendorDependentCmd_serialize (buffer_serializer be) v) (BufferSerialize (replicate 512 0) 512) = (True, s')
     \<and> take 6 (bs_buffer s') = avc_header v @ company_bytes (m_companyId v)
     \<and> run_state (VendorDependentCmd_deserialize ini (buffer_deserializer be) v0) (BufferDeserialize (bs_buffer s') 512)
       = ((True, VendorDependentCmd_reply v0 v), d')
     \<and> m_companyId (VendorDependentCmd_reply v0 v) = m_companyId v AND 0xffffff"
proof -
  have "length (UnitInfoCmd_wire u) = 8" "length (VendorDependentCmd_wire v) = 6"
    by (simp_all add: UnitInfoCmd_wire_def VendorDependentCmd_wire_def company_bytes_def)
  then show ?thesis
    using unit_info.codec_roundtrip [where be = be and ini = ini and c = u and recv = u0]
      vendor_dependent.codec_roundtrip [where be = be and ini = ini and c = v and recv = v0]
    by (auto simp: UnitInfoCmd_reply_def VendorDependentCmd_reply_def UnitInfoCmd_wire_def VendorDependentCmd_wire_def)
qed

text \<open>
  Signal source: serializing succeeds exactly for the command types status, control and specific
  inquiry sent to a unit, an audio or a music subunit. Deserializing the frame with the same command
  type gives back the status fields, cut to their widths, and both addresses; an address that is
  missing is read as a unit address, and a subunit address comes back as the same address exactly
  when its type and id fit 5 and 3 bits and are not all ones.
\<close>

theorem signal_source_roundtrip:
  assumes "getCommandType c0 = getCommandType c"
  shows "(fst (run_state (SignalSourceCmd_serialize (buffer_serializer be) c) (BufferSerialize (replicate 512 0) 512)) \<longleftrightarrow> SignalSourceCmd_good c)
   \<and> (SignalSourceCmd_good c \<longrightarrow>
      (\<exists>s d. run_state (SignalSourceCmd_serialize (buffer_serializer be) c) (BufferSerialize (replicate 512 0) 512) = (True, s)
        \<and> run_state (SignalSourceCmd_deserialize ini (buffer_deserializer be) c0) (BufferDeserialize (bs_buffer s) 512)
          = ((True, SignalSourceCmd_reply c0 c), d)))
   \<and> m_signalSource (SignalSourceCmd_reply c0 c) = Some (address_read (m_signalSource c))
   \<and> (address_read (Some (SignalSubunitAddress t i p)) = SignalSubunitAddress t i p
      \<longleftrightarrow> unat t < 32 \<and> unat i < 8 \<and> \<not> (t = 0x1f \<and> i = 7))"
proof -
  have fails: "\<not> fst (run_state (SignalSourceCmd_serialize (buffer_serializer be) c) s)" if "\<not> SignalSourceCmd_good c" for s
    using that by (auto simp: SignalSourceCmd_serialize_def SignalSourceCmd_good_def split_def)
  have ok: "\<exists>s d. run_state (SignalSourceCmd_serialize (buffer_serializer be) c) (BufferSerialize (replicate 512 0) 512) = (True, s)
      \<and> run_state (SignalSourceCmd_deserialize ini (buffer_deserializer be) c0) (BufferDeserialize (bs_buffer s) 512)
        = ((True, SignalSourceCmd_reply c0 c), d)" if "SignalSourceCmd_good c"
    using signal_source.codec_roundtrip [where be = be and ini = ini and c = c and recv = c0] that assms by blast
  have mask: "x AND 0x1f = x \<longleftrightarrow> unat x < 32" "x AND 0x7 = x \<longleftrightarrow> unat x < 8" for x :: u8
    using unat_and_pred_power [of "0x20" 5 x] unat_and_pred_power [of 8 3 x] mask_id_u8(4) [of x] mask_id_u8(2) [of x]
    by (auto simp: word_unat_eq_iff)
  have "subunit_byte (t, i) = 0xff \<longleftrightarrow> t = 0x1f \<and> i = 7" if "unat t < 32" "unat i < 8"
  proof
    assume "subunit_byte (t, i) = 0xff"
    then show "t = 0x1f \<and> i = 7" using subunit_unpack [of t i] mask [of t] mask [of i] that by simp
  qed (simp add: subunit_byte_def)
  then have "address_read (Some (SignalSubunitAddress t i p)) = SignalSubunitAddress t i p
      \<longleftrightarrow> unat t < 32 \<and> unat i < 8 \<and> \<not> (t = 0x1f \<and> i = 7)"
    using mask [of t] mask [of i] by auto
  then show ?thesis using fails ok by (auto simp: SignalSourceCmd_reply_def Let_def)
qed

theorem signal_source_roundtrip_witness:
  "\<not> fst (run_state (SignalSourceCmd_serialize (buffer_serializer False) (SignalSourceCmd_new [] eCT_Notify)) (BufferSerialize (replicate 512 0) 512))
   \<and> address_read (Some (SignalSubunitAddress 1 0 2)) = SignalSubunitAddress 1 0 2"
proof -
  have "\<not> SignalSourceCmd_good (SignalSourceCmd_new [] eCT_Notify)"
    by (simp add: SignalSourceCmd_good_def SignalSourceCmd_new_def getCommandType_def avc_command.defs
        signal_source_cmd.defs AVCCommand_new_def consts_defs)
  then show ?thesis
    using signal_source_roundtrip [of "SignalSourceCmd_new [] eCT_Notify" "SignalSourceCmd_new [] eCT_Notify" False 0 1 0 2]
    by simp
qed

text \<open>
  Extended subunit info: up to five pages are sent, filled up to 25 bytes with 0xff, and read back
  in order if no page has the function block type 0xff; but the pages are added to those the receiver
  already holds, so a command that is fired twice holds every page twice.
\<close>

theorem ext_subunit_info_accumulates:
  assumes "ExtendedSubunitInfoCmd_readable c"
  shows "\<exists>s d d'. run_state (ExtendedSubunitInfoCmd_serialize (buffer_serializer be) c) (BufferSerialize (replicate 512 0) 512) = (True, s)
     \<and> length (ExtendedSubunitInfoCmd_wire c) = 30 \<and> take 30 (bs_buffer s) = ExtendedSubunitInfoCmd_wire c
     \<and> run_state (ExtendedSubunitInfoCmd_deserialize ini (buffer_deserializer be) c0) (BufferDeserialize (bs_buffer s) 512)
       = ((True, ExtendedSubunitInfoCmd_reply c0 c), d)
     \<and> m_infoPageDatas (ExtendedSubunitInfoCmd_reply c0 c) = m_infoPageDatas c0 @ m_infoPageDatas c
     \<and> run_state (ExtendedSubunitInfoCmd_deserialize ini (buffer_deserializer be) (ExtendedSubunitInfoCmd_reply c0 c)) (BufferDeserialize (bs_buffer s) 512)
       = ((True, ExtendedSubunitInfoCmd_reply (ExtendedSubunitInfoCmd_reply c0 c) c), d')"
proof -
  have good: "ExtendedSubunitInfoCmd_good c"
    using assms by (simp add: ExtendedSubunitInfoCmd_good_def ExtendedSubunitInfoCmd_readable_def)
  then have l: "length (ExtendedSubunitInfoCmd_wire c) = 30"
    by (simp add: ExtendedSubunitInfoCmd_good_def ExtendedSubunitInfoCmd_wire_def length_pages)
  have "m_infoPageDatas (ExtendedSubunitInfoCmd_reply c0 c) = m_infoPageDatas c0 @ m_infoPageDatas c"
    by (simp add: ExtendedSubunitInfoCmd_reply_def)
  then show ?thesis
    using ext_subunit_info.codec_roundtrip [where be = be and ini = ini and c = c and recv = c0]
      ext_subunit_info.codec_roundtrip [where be = be and ini = ini and c = c and recv = "ExtendedSubunitInfoCmd_reply c0 c"]
      good assms l by auto
qed

theorem ext_subunit_info_accumulates_witness:
  "m_infoPageDatas (ExtendedSubunitInfoCmd_reply (ExtendedSubunitInfoCmd_new [] 0)
     ((ExtendedSubunitInfoCmd_new [] 0)\<lparr>m_infoPageDatas := [\<lparr>pd_functionBlockType = 0x81, pd_functionBlockId = 1,
       pd_functionBlockSpecialPupose = 0xff, pd_noOfInputPlugs = 1, pd_noOfOutputPlugs = 1\<rparr>]\<rparr>))
   = [\<lparr>pd_functionBlockType = 0x81, pd_functionBlockId = 1, pd_functionBlockSpecialPupose = 0xff, pd_noOfInputPlugs = 1,
       pd_noOfOutputPlugs = 1\<rparr>]"
  using ext_subunit_info_accumulates [of "(ExtendedSubunitInfoCmd_new [] 0)\<lparr>m_infoPageDatas := [\<lparr>pd_functionBlockType = 0x81,
      pd_functionBlockId = 1, pd_functionBlockSpecialPupose = 0xff, pd_noOfInputPlugs = 1, pd_noOfOutputPlugs = 1\<rparr>]\<rparr>"
      False 0 "ExtendedSubunitInfoCmd_new [] 0"]
  by (auto simp: ExtendedSubunitInfoCmd_readable_def ExtendedSubunitInfoCmd_new_def avc_command.defs ext_subunit_info_cmd.defs)

end
