(* ===== verification/AvcPlugAddress.thy ===== *)
theory AvcPlugAddress
  imports AvcGeneric
begin

text \<open>
  Plug addresses of the AV/C commands (\<^verbatim>\<open>libavc/general/avc_extended_cmd_generic.cpp\<close>). The classes
  derived from \<^verbatim>\<open>PlugAddressData\<close> are records; a pointer to the base class is a datatype with one
  constructor per class, and a virtual call is a case distinction over it. The objects are copied as
  values: the methods \<^verbatim>\<open>clone\<close> and the copy constructors make deep copies, which need no operation here.
  \<open>*_bytes\<close> are the bytes of an address on the bus.
\<close>

unbundle bit_operations_syntax

section \<open>Address data\<close>

record unit_plug_address =
  upa_plugType :: u8
  upa_plugId :: u8
  upa_reserved :: u8

definition UnitPlugAddress_new :: "u8 \<Rightarrow> u8 \<Rightarrow> unit_plug_address" where
  "UnitPlugAddress_new plugType plugId =
     \<lparr>upa_plugType = plugType, upa_plugId = plugId, upa_reserved = 0xff\<rparr>"

definition UnitPlugAddress_serialize :: "'s oss \<Rightarrow> unit_plug_address \<Rightarrow> ('s, bool) state" where
  "UnitPlugAddress_serialize se a =
     do { write_byte se (upa_plugType a);
          write_byte se (upa_plugId a);
          write_byte se (upa_reserved a);
          State_Monad.return True }"

definition UnitPlugAddress_deserialize :: "'d iis \<Rightarrow> unit_plug_address \<Rightarrow> ('d, bool \<times> unit_plug_address) state" where
  "UnitPlugAddress_deserialize de a =
     do { (_, v) \<leftarrow> read_byte de (upa_plugType a);
          let a = a\<lparr>upa_plugType := v\<rparr>;
          (_, v) \<leftarrow> read_byte de (upa_plugId a);
          let a = a\<lparr>upa_plugId := v\<rparr>;
          (_, v) \<leftarrow> read_byte de (upa_reserved a);
          let a = a\<lparr>upa_reserved := v\<rparr>;
          State_Monad.return (True, a) }"

record subunit_plug_address =
  spa_plugId :: u8
  spa_reserved0 :: u8
  spa_reserved1 :: u8

definition SubunitPlugAddress_new :: "u8 \<Rightarrow> subunit_plug_address" where
  "SubunitPlugAddress_new plugId =
     \<lparr>spa_plugId = plugId, spa_reserved0 = 0xff, spa_reserved1 = 0xff\<rparr>"

definition SubunitPlugAddress_serialize :: "'s oss \<Rightarrow> subunit_plug_address \<Rightarrow> ('s, bool) state" where
  "SubunitPlugAddress_serialize se a =
     do { write_byte se (spa_plugId a);
          write_byte se (spa_reserved0 a);
          write_byte se (spa_reserved1 a);
          State_Monad.return True }"

definition SubunitPlugAddress_deserialize :: "'d iis \<Rightarrow> subunit_plug_address \<Rightarrow> ('d, bool \<times> subunit_plug_address) state" where
  "SubunitPlugAddress_deserialize de a =
     do { (_, v) \<leftarrow> read_byte de (spa_plugId a);
          let a = a\<lparr>spa_plugId := v\<rparr>;
          (_, v) \<leftarrow> read_byte de (spa_reserved0 a);
          let a = a\<lparr>spa_reserved0 := v\<rparr>;
          (_, v) \<leftarrow> read_byte de (spa_reserved1 a);
          let a = a\<lparr>spa_reserved1 := v\<rparr>;
          State_Monad.return (True, a) }"

record function_block_plug_address =
  fpa_functionBlockType :: u8
  fpa_functionBlockId :: u8
  fpa_plugId :: u8

definition FunctionBlockPlugAddress_new :: "u8 \<Rightarrow> u8 \<Rightarrow> u8 \<Rightarrow> function_block_plug_address" where
  "FunctionBlockPlugAddress_new functionBlockType functionBlockId plugId =
     \<lparr>fpa_functionBlockType = functionBlockType, fpa_functionBlockId = functionBlockId, fpa_plugId = plugId\<rparr>"

definition FunctionBlockPlugAddress_serialize :: "'s oss \<Rightarrow> function_block_plug_address \<Rightarrow> ('s, bool) state" where
  "FunctionBlockPlugAddress_serialize se a =
     do { write_byte se (fpa_functionBlockType a);
          write_byte se (fpa_functionBlockId a);
          write_byte se (fpa_plugId a);
          State_Monad.return True }"

definition FunctionBlockPlugAddress_deserialize :: "'d iis \<Rightarrow> function_block_plug_address \<Rightarrow> ('d, bool \<times> function_block_plug_address) state" where
  "FunctionBlockPlugAddress_deserialize de a =
     do { (_, v) \<leftarrow> read_byte de (fpa_functionBlockType a);
          let a = a\<lparr>fpa_functionBlockType := v\<rparr>;
          (_, v) \<leftarrow> read_byte de (fpa_functionBlockId a);
          let a = a\<lparr>fpa_functionBlockId := v\<rparr>;
          (_, v) \<leftarrow> read_byte de (fpa_plugId a);
          let a = a\<lparr>fpa_plugId := v\<rparr>;
          State_Monad.return (True, a) }"

record undefined_plug_address =
  npa_reserved0 :: u8
  npa_reserved1 :: u8
  npa_reserved2 :: u8

definition UndefinedPlugAddress_new :: "undefined_plug_address" where
  "UndefinedPlugAddress_new =
     \<lparr>npa_reserved0 = 0xff, npa_reserved1 = 0xff, npa_reserved2 = 0xff\<rparr>"

definition UndefinedPlugAddress_serialize :: "'s oss \<Rightarrow> undefined_plug_address \<Rightarrow> ('s, bool) state" where
  "UndefinedPlugAddress_serialize se a =
     do { write_byte se (npa_reserved0 a);
          write_byte se (npa_reserved1 a);
          write_byte se (npa_reserved2 a);
          State_Monad.return True }"

definition UndefinedPlugAddress_deserialize :: "'d iis \<Rightarrow> undefined_plug_address \<Rightarrow> ('d, bool \<times> undefined_plug_address) state" where
  "UndefinedPlugAddress_deserialize de a =
     do { (_, v) \<leftarrow> read_byte de (npa_reserved0 a);
          let a = a\<lparr>npa_reserved0 := v\<rparr>;
          (_, v) \<leftarrow> read_byte de (npa_reserved1 a);
          let a = a\<lparr>npa_reserved1 := v\<rparr>;
          (_, v) \<leftarrow> read_byte de (npa_reserved2 a);
          let a = a\<lparr>npa_reserved2 := v\<rparr>;
          State_Monad.return (True, a) }"

datatype plug_address_data =
  UnitPlugAddress unit_plug_address
| SubunitPlugAddress subunit_plug_address
| FunctionBlockPlugAddress function_block_plug_address
| UndefinedPlugAddress undefined_plug_address

fun PlugAddressData_serialize :: "'s oss \<Rightarrow> plug_address_data \<Rightarrow> ('s, bool) state" where
  "PlugAddressData_serialize se (UnitPlugAddress a) = UnitPlugAddress_serialize se a"
| "PlugAddressData_serialize se (SubunitPlugAddress a) = SubunitPlugAddress_serialize se a"
| "PlugAddressData_serialize se (FunctionBlockPlugAddress a) = FunctionBlockPlugAddress_serialize se a"
| "PlugAddressData_serialize se (UndefinedPlugAddress a) = UndefinedPlugAddress_serialize se a"

fun PlugAddressData_deserialize :: "'d iis \<Rightarrow> plug_address_data \<Rightarrow> ('d, bool \<times> plug_address_data) state" where
  "PlugAddressData_deserialize de (UnitPlugAddress a) =
     do { (r, a) \<leftarrow> UnitPlugAddress_deserialize de a; State_Monad.return (r, UnitPlugAddress a) }"
| "PlugAddressData_deserialize de (SubunitPlugAddress a) =
     do { (r, a) \<leftarrow> SubunitPlugAddress_deserialize de a; State_Monad.return (r, SubunitPlugAddress a) }"
| "PlugAddressData_deserialize de (FunctionBlockPlugAddress a) =
     do { (r, a) \<leftarrow> FunctionBlockPlugAddress_deserialize de a; State_Monad.return (r, FunctionBlockPlugAddress a) }"
| "PlugAddressData_deserialize de (UndefinedPlugAddress a) =
     do { (r, a) \<leftarrow> UndefinedPlugAddress_deserialize de a; State_Monad.return (r, UndefinedPlugAddress a) }"

section \<open>Address data of the specific data\<close>

record unit_plug_specific =
  ups_plugType :: u8
  ups_plugId :: u8
  ups_reserved0 :: u8
  ups_reserved1 :: u8
  ups_reserved2 :: u8

definition UnitPlugSpecificDataPlugAddress_new :: "u8 \<Rightarrow> u8 \<Rightarrow> unit_plug_specific" where
  "UnitPlugSpecificDataPlugAddress_new plugType plugId =
     \<lparr>ups_plugType = plugType, ups_plugId = plugId, ups_reserved0 = 0xff, ups_reserved1 = 0xff, ups_reserved2 = 0xff\<rparr>"

definition UnitPlugSpecificDataPlugAddress_serialize :: "'s oss \<Rightarrow> unit_plug_specific \<Rightarrow> ('s, bool) state" where
  "UnitPlugSpecificDataPlugAddress_serialize se a =
     do { write_byte se (ups_plugType a);
          write_byte se (ups_plugId a);
          write_byte se (ups_reserved0 a);
          write_byte se (ups_reserved1 a);
          write_byte se (ups_reserved2 a);
          State_Monad.return True }"

definition UnitPlugSpecificDataPlugAddress_deserialize :: "'d iis \<Rightarrow> unit_plug_specific \<Rightarrow> ('d, bool \<times> unit_plug_specific) state" where
  "UnitPlugSpecificDataPlugAddress_deserialize de a =
     do { (_, v) \<leftarrow> read_byte de (ups_plugType a);
          let a = a\<lparr>ups_plugType := v\<rparr>;
          (_, v) \<leftarrow> read_byte de (ups_plugId a);
          let a = a\<lparr>ups_plugId := v\<rparr>;
          (_, v) \<leftarrow> read_byte de (ups_reserved0 a);
          let a = a\<lparr>ups_reserved0 := v\<rparr>;
          (_, v) \<leftarrow> read_byte de (ups_reserved1 a);
          let a = a\<lparr>ups_reserved1 := v\<rparr>;
          (_, v) \<leftarrow> read_byte de (ups_reserved2 a);
          let a = a\<lparr>ups_reserved2 := v\<rparr>;
          State_Monad.return (True, a) }"

record subunit_plug_specific =
  sps_subunitType :: u8
  sps_subunitId :: u8
  sps_plugId :: u8
  sps_reserved0 :: u8
  sps_reserved1 :: u8

definition SubunitPlugSpecificDataPlugAddress_new :: "u8 \<Rightarrow> u8 \<Rightarrow> u8 \<Rightarrow> subunit_plug_specific" where
  "SubunitPlugSpecificDataPlugAddress_new subunitType subunitId plugId =
     \<lparr>sps_subunitType = subunitType, sps_subunitId = subunitId, sps_plugId = plugId, sps_reserved0 = 0xff, sps_reserved1 = 0xff\<rparr>"

definition SubunitPlugSpecificDataPlugAddress_serialize :: "'s oss \<Rightarrow> subunit_plug_specific \<Rightarrow> ('s, bool) state" where
  "SubunitPlugSpecificDataPlugAddress_serialize se a =
     do { write_byte se (sps_subunitType a);
          write_byte se (sps_subunitId a);
          write_byte se (sps_plugId a);
          write_byte se (sps_reserved0 a);
          write_byte se (sps_reserved1 a);
          State_Monad.return True }"

definition SubunitPlugSpecificDataPlugAddress_deserialize :: "'d iis \<Rightarrow> subunit_plug_specific \<Rightarrow> ('d, bool \<times> subunit_plug_specific) state" where
  "SubunitPlugSpecificDataPlugAddress_deserialize de a =
     do { (_, v) \<leftarrow> read_byte de (sps_subunitType a);
          let a = a\<lparr>sps_subunitType := v\<rparr>;
          (_, v) \<leftarrow> read_byte de (sps_subunitId a);
          let a = a\<lparr>sps_subunitId := v\<rparr>;
          (_, v) \<leftarrow> read_byte de (sps_plugId a);
          let a = a\<lparr>sps_plugId := v\<rparr>;
          (_, v) \<leftarrow> read_byte de (sps_reserved0 a);
          let a = a\<lparr>sps_reserved0 := v\<rparr>;
          (_, v) \<leftarrow> read_byte de (sps_reserved1 a);
          let a = a\<lparr>sps_reserved1 := v\<rparr>;
          State_Monad.return (True, a) }"

record function_block_plug_specific =
  fps_subunitType :: u8
  fps_subunitId :: u8
  fps_functionBlockType :: u8
  fps_functionBlockId :: u8
  fps_plugId :: u8

definition FunctionBlockPlugSpecificDataPlugAddress_new :: "u8 \<Rightarrow> u8 \<Rightarrow> u8 \<Rightarrow> u8 \<Rightarrow> u8 \<Rightarrow> function_block_plug_specific" where
  "FunctionBlockPlugSpecificDataPlugAddress_new subunitType subunitId functionBlockType functionBlockId plugId =
     \<lparr>fps_subunitType = subunitType, fps_subunitId = subunitId, fps_functionBlockType = functionBlockType, fps_functionBlockId = functionBlockId, fps_plugId = plugId\<rparr>"

definition FunctionBlockPlugSpecificDataPlugAddress_serialize :: "'s oss \<Rightarrow> function_block_plug_specific \<Rightarrow> ('s, bool) state" where
  "FunctionBlockPlugSpecificDataPlugAddress_serialize se a =
     do { write_byte se (fps_subunitType a);
          write_byte se (fps_subunitId a);
          write_byte se (fps_functionBlockType a);
          write_byte se (fps_functionBlockId a);
          write_byte se (fps_plugId a);
          State_Monad.return True }"

definition FunctionBlockPlugSpecificDataPlugAddress_deserialize :: "'d iis \<Rightarrow> function_block_plug_specific \<Rightarrow> ('d, bool \<times> function_block_plug_specific) state" where
  "FunctionBlockPlugSpecificDataPlugAddress_deserialize de a =
     do { (_, v) \<leftarrow> read_byte de (fps_subunitType a);
          let a = a\<lparr>fps_subunitType := v\<rparr>;
          (_, v) \<leftarrow> read_byte de (fps_subunitId a);
          let a = a\<lparr>fps_subunitId := v\<rparr>;
          (_, v) \<leftarrow> read_byte de (fps_functionBlockType a);
          let a = a\<lparr>fps_functionBlockType := v\<rparr>;
          (_, v) \<leftarrow> read_byte de (fps_functionBlockId a);
          let a = a\<lparr>fps_functionBlockId := v\<rparr>;
          (_, v) \<leftarrow> read_byte de (fps_plugId a);
          let a = a\<lparr>fps_plugId := v\<rparr>;
          State_Monad.return (True, a) }"

record undefined_plug_specific =
  nps_reserved0 :: u8
  nps_reserved1 :: u8
  nps_reserved2 :: u8
  nps_reserved3 :: u8
  nps_reserved4 :: u8

definition UndefinedPlugSpecificDataPlugAddress_new :: "undefined_plug_specific" where
  "UndefinedPlugSpecificDataPlugAddress_new =
     \<lparr>nps_reserved0 = 0xff, nps_reserved1 = 0xff, nps_reserved2 = 0xff, nps_reserved3 = 0xff, nps_reserved4 = 0xff\<rparr>"

definition UndefinedPlugSpecificDataPlugAddress_serialize :: "'s oss \<Rightarrow> undefined_plug_specific \<Rightarrow> ('s, bool) state" where
  "UndefinedPlugSpecificDataPlugAddress_serialize se a =
     do { write_byte se (nps_reserved0 a);
          write_byte se (nps_reserved1 a);
          write_byte se (nps_reserved2 a);
          write_byte se (nps_reserved3 a);
          write_byte se (nps_reserved4 a);
          State_Monad.return True }"

definition UndefinedPlugSpecificDataPlugAddress_deserialize :: "'d iis \<Rightarrow> undefined_plug_specific \<Rightarrow> ('d, bool \<times> undefined_plug_specific) state" where
  "UndefinedPlugSpecificDataPlugAddress_deserialize de a =
     do { (_, v) \<leftarrow> read_byte de (nps_reserved0 a);
          let a = a\<lparr>nps_reserved0 := v\<rparr>;
          (_, v) \<leftarrow> read_byte de (nps_reserved1 a);
          let a = a\<lparr>nps_reserved1 := v\<rparr>;
          (_, v) \<leftarrow> read_byte de (nps_reserved2 a);
          let a = a\<lparr>nps_reserved2 := v\<rparr>;
          (_, v) \<leftarrow> read_byte de (nps_reserved3 a);
          let a = a\<lparr>nps_reserved3 := v\<rparr>;
          (_, v) \<leftarrow> read_byte de (nps_reserved4 a);
          let a = a\<lparr>nps_reserved4 := v\<rparr>;
          State_Monad.return (True, a) }"

datatype specific_plug_address_data =
  UnitPlugSpecificDataPlugAddress unit_plug_specific
| SubunitPlugSpecificDataPlugAddress subunit_plug_specific
| FunctionBlockPlugSpecificDataPlugAddress function_block_plug_specific
| UndefinedPlugSpecificDataPlugAddress undefined_plug_specific

fun SpecificPlugAddressData_serialize :: "'s oss \<Rightarrow> specific_plug_address_data \<Rightarrow> ('s, bool) state" where
  "SpecificPlugAddressData_serialize se (UnitPlugSpecificDataPlugAddress a) =
     UnitPlugSpecificDataPlugAddress_serialize se a"
| "SpecificPlugAddressData_serialize se (SubunitPlugSpecificDataPlugAddress a) =
     SubunitPlugSpecificDataPlugAddress_serialize se a"
| "SpecificPlugAddressData_serialize se (FunctionBlockPlugSpecificDataPlugAddress a) =
     FunctionBlockPlugSpecificDataPlugAddress_serialize se a"
| "SpecificPlugAddressData_serialize se (UndefinedPlugSpecificDataPlugAddress a) =
     UndefinedPlugSpecificDataPlugAddress_serialize se a"

fun SpecificPlugAddressData_deserialize ::
  "'d iis \<Rightarrow> specific_plug_address_data \<Rightarrow> ('d, bool \<times> specific_plug_address_data) state" where
  "SpecificPlugAddressData_deserialize de (UnitPlugSpecificDataPlugAddress a) =
     do { (r, a) \<leftarrow> UnitPlugSpecificDataPlugAddress_deserialize de a;
          State_Monad.return (r, UnitPlugSpecificDataPlugAddress a) }"
| "SpecificPlugAddressData_deserialize de (SubunitPlugSpecificDataPlugAddress a) =
     do { (r, a) \<leftarrow> SubunitPlugSpecificDataPlugAddress_deserialize de a;
          State_Monad.return (r, SubunitPlugSpecificDataPlugAddress a) }"
| "SpecificPlugAddressData_deserialize de (FunctionBlockPlugSpecificDataPlugAddress a) =
     do { (r, a) \<leftarrow> FunctionBlockPlugSpecificDataPlugAddress_deserialize de a;
          State_Monad.return (r, FunctionBlockPlugSpecificDataPlugAddress a) }"
| "SpecificPlugAddressData_deserialize de (UndefinedPlugSpecificDataPlugAddress a) =
     do { (r, a) \<leftarrow> UndefinedPlugSpecificDataPlugAddress_deserialize de a;
          State_Monad.return (r, UndefinedPlugSpecificDataPlugAddress a) }"

section \<open>Plug addresses\<close>

definition ePD_Input :: u8 where [consts_defs]: "ePD_Input = 0x00"
definition ePD_Output :: u8 where [consts_defs]: "ePD_Output = 0x01"
definition ePD_Undefined :: u8 where [consts_defs]: "ePD_Undefined = 0xff"
definition ePAM_Unit :: u8 where [consts_defs]: "ePAM_Unit = 0x00"
definition ePAM_Subunit :: u8 where [consts_defs]: "ePAM_Subunit = 0x01"
definition ePAM_FunctionBlock :: u8 where [consts_defs]: "ePAM_FunctionBlock = 0x02"
definition ePAM_Undefined :: u8 where [consts_defs]: "ePAM_Undefined = 0xff"
definition ePT_PCR :: u8 where [consts_defs]: "ePT_PCR = 0x00"
definition ePT_ExternalPlug :: u8 where [consts_defs]: "ePT_ExternalPlug = 0x01"
definition ePT_AsynchronousPlug :: u8 where [consts_defs]: "ePT_AsynchronousPlug = 0x02"

record plug_address =
  pa_plugDirection :: u8
  pa_addressMode :: u8
  pa_plugAddressData :: plug_address_data

text \<open>The four constructors; those with an address take any address mode.\<close>

definition PlugAddress_unit :: "u8 \<Rightarrow> u8 \<Rightarrow> unit_plug_address \<Rightarrow> plug_address" where
  "PlugAddress_unit plugDirection plugAddressMode a =
     \<lparr>pa_plugDirection = plugDirection, pa_addressMode = plugAddressMode, pa_plugAddressData = UnitPlugAddress a\<rparr>"

definition PlugAddress_subunit :: "u8 \<Rightarrow> u8 \<Rightarrow> subunit_plug_address \<Rightarrow> plug_address" where
  "PlugAddress_subunit plugDirection plugAddressMode a =
     \<lparr>pa_plugDirection = plugDirection, pa_addressMode = plugAddressMode, pa_plugAddressData = SubunitPlugAddress a\<rparr>"

definition PlugAddress_function_block :: "u8 \<Rightarrow> u8 \<Rightarrow> function_block_plug_address \<Rightarrow> plug_address" where
  "PlugAddress_function_block plugDirection plugAddressMode a =
     \<lparr>pa_plugDirection = plugDirection, pa_addressMode = plugAddressMode, pa_plugAddressData = FunctionBlockPlugAddress a\<rparr>"

definition PlugAddress_undefined :: plug_address where
  "PlugAddress_undefined =
     \<lparr>pa_plugDirection = ePD_Undefined, pa_addressMode = ePAM_Undefined,
      pa_plugAddressData = UndefinedPlugAddress UndefinedPlugAddress_new\<rparr>"

definition PlugAddress_serialize :: "'s oss \<Rightarrow> plug_address \<Rightarrow> ('s, bool) state" where
  "PlugAddress_serialize se pa =
     do { write_byte se (pa_plugDirection pa);
          write_byte se (pa_addressMode pa);
          PlugAddressData_serialize se (pa_plugAddressData pa) }"

definition PlugAddress_deserialize :: "'d iis \<Rightarrow> plug_address \<Rightarrow> ('d, bool \<times> plug_address) state" where
  "PlugAddress_deserialize de pa =
     do { (_, v) \<leftarrow> read_byte de (pa_plugDirection pa);
          let pa = pa\<lparr>pa_plugDirection := v\<rparr>;
          (_, v) \<leftarrow> read_byte de (pa_addressMode pa);
          let pa = pa\<lparr>pa_addressMode := v\<rparr>;
          (r, a) \<leftarrow> PlugAddressData_deserialize de (pa_plugAddressData pa);
          State_Monad.return (r, pa\<lparr>pa_plugAddressData := a\<rparr>) }"

definition plugAddressDirectionStrings :: "string list" where
  "plugAddressDirectionStrings = [''Input'', ''Output'', ''Undefined'']"

definition plugAddressAddressModeStrings :: "string list" where
  "plugAddressAddressModeStrings = [''Unit'', ''Subunit'', ''FunctionBlock'', ''Undefined'']"

definition plugAddressPlugDirectionToString :: "u8 \<Rightarrow> string option" where
  "plugAddressPlugDirectionToString direction =
     (let direction = (if direction > ePD_Output then ePD_Undefined else direction)
      in table_at plugAddressDirectionStrings (unat direction))"

definition plugAddressAddressModeToString :: "u8 \<Rightarrow> string option" where
  "plugAddressAddressModeToString mode =
     (let mode = (if mode > ePAM_FunctionBlock then ePAM_FunctionBlock else mode)
      in table_at plugAddressAddressModeStrings (unat mode))"

section \<open>Plug addresses of the specific data\<close>

record plug_address_specific =
  pas_plugDirection :: u8
  pas_addressMode :: u8
  pas_plugAddressData :: specific_plug_address_data

definition PlugAddressSpecificData_unit :: "u8 \<Rightarrow> u8 \<Rightarrow> unit_plug_specific \<Rightarrow> plug_address_specific" where
  "PlugAddressSpecificData_unit plugDirection plugAddressMode a =
     \<lparr>pas_plugDirection = plugDirection, pas_addressMode = plugAddressMode,
      pas_plugAddressData = UnitPlugSpecificDataPlugAddress a\<rparr>"

definition PlugAddressSpecificData_subunit :: "u8 \<Rightarrow> u8 \<Rightarrow> subunit_plug_specific \<Rightarrow> plug_address_specific" where
  "PlugAddressSpecificData_subunit plugDirection plugAddressMode a =
     \<lparr>pas_plugDirection = plugDirection, pas_addressMode = plugAddressMode,
      pas_plugAddressData = SubunitPlugSpecificDataPlugAddress a\<rparr>"

definition PlugAddressSpecificData_function_block ::
  "u8 \<Rightarrow> u8 \<Rightarrow> function_block_plug_specific \<Rightarrow> plug_address_specific" where
  "PlugAddressSpecificData_function_block plugDirection plugAddressMode a =
     \<lparr>pas_plugDirection = plugDirection, pas_addressMode = plugAddressMode,
      pas_plugAddressData = FunctionBlockPlugSpecificDataPlugAddress a\<rparr>"

definition PlugAddressSpecificData_serialize :: "'s oss \<Rightarrow> plug_address_specific \<Rightarrow> ('s, bool) state" where
  "PlugAddressSpecificData_serialize se pa =
     do { write_byte se (pas_plugDirection pa);
          write_byte se (pas_addressMode pa);
          SpecificPlugAddressData_serialize se (pas_plugAddressData pa) }"

text \<open>The data object that is read is made new, of the class that the address mode asks for.\<close>

definition new_specific_data :: "u8 \<Rightarrow> specific_plug_address_data" where
  "new_specific_data mode =
     (if mode = ePAM_Unit then
        UnitPlugSpecificDataPlugAddress (UnitPlugSpecificDataPlugAddress_new ePT_PCR 0xff)
      else if mode = ePAM_Subunit then
        SubunitPlugSpecificDataPlugAddress (SubunitPlugSpecificDataPlugAddress_new eST_Reserved 0xff 0xff)
      else if mode = ePAM_FunctionBlock then
        FunctionBlockPlugSpecificDataPlugAddress
          (FunctionBlockPlugSpecificDataPlugAddress_new eST_Reserved 0xff 0xff 0xff 0xff)
      else UndefinedPlugSpecificDataPlugAddress UndefinedPlugSpecificDataPlugAddress_new)"

definition PlugAddressSpecificData_deserialize ::
  "'d iis \<Rightarrow> plug_address_specific \<Rightarrow> ('d, bool \<times> plug_address_specific) state" where
  "PlugAddressSpecificData_deserialize de pa =
     do { (_, v) \<leftarrow> read_byte de (pas_plugDirection pa);
          let pa = pa\<lparr>pas_plugDirection := v\<rparr>;
          (_, v) \<leftarrow> read_byte de (pas_addressMode pa);
          let pa = pa\<lparr>pas_addressMode := v\<rparr>;
          let pa = pa\<lparr>pas_plugAddressData := new_specific_data (pas_addressMode pa)\<rparr>;
          (r, a) \<leftarrow> SpecificPlugAddressData_deserialize de (pas_plugAddressData pa);
          State_Monad.return (r, pa\<lparr>pas_plugAddressData := a\<rparr>) }"

section \<open>Bytes of the addresses\<close>

fun address_data_bytes :: "plug_address_data \<Rightarrow> u8 list" where
  "address_data_bytes (UnitPlugAddress a) = [upa_plugType a, upa_plugId a, upa_reserved a]"
| "address_data_bytes (SubunitPlugAddress a) = [spa_plugId a, spa_reserved0 a, spa_reserved1 a]"
| "address_data_bytes (FunctionBlockPlugAddress a) = [fpa_functionBlockType a, fpa_functionBlockId a, fpa_plugId a]"
| "address_data_bytes (UndefinedPlugAddress a) = [npa_reserved0 a, npa_reserved1 a, npa_reserved2 a]"

fun specific_data_bytes :: "specific_plug_address_data \<Rightarrow> u8 list" where
  "specific_data_bytes (UnitPlugSpecificDataPlugAddress a) = [ups_plugType a, ups_plugId a, ups_reserved0 a, ups_reserved1 a, ups_reserved2 a]"
| "specific_data_bytes (SubunitPlugSpecificDataPlugAddress a) = [sps_subunitType a, sps_subunitId a, sps_plugId a, sps_reserved0 a, sps_reserved1 a]"
| "specific_data_bytes (FunctionBlockPlugSpecificDataPlugAddress a) = [fps_subunitType a, fps_subunitId a, fps_functionBlockType a, fps_functionBlockId a, fps_plugId a]"
| "specific_data_bytes (UndefinedPlugSpecificDataPlugAddress a) = [nps_reserved0 a, nps_reserved1 a, nps_reserved2 a, nps_reserved3 a, nps_reserved4 a]"

definition plug_address_bytes :: "plug_address \<Rightarrow> u8 list" where
  "plug_address_bytes pa = pa_plugDirection pa # pa_addressMode pa # address_data_bytes (pa_plugAddressData pa)"

definition specific_address_bytes :: "plug_address_specific \<Rightarrow> u8 list" where
  "specific_address_bytes pa = pas_plugDirection pa # pas_addressMode pa # specific_data_bytes (pas_plugAddressData pa)"

text \<open>
  What three bytes mean in an object of a given class, and an address read into another one: the class
  of the data is the receiver's.
\<close>

fun as_address_data :: "plug_address_data \<Rightarrow> u8 \<Rightarrow> u8 \<Rightarrow> u8 \<Rightarrow> plug_address_data" where
  "as_address_data (UnitPlugAddress _) x y z =
     UnitPlugAddress \<lparr>upa_plugType = x, upa_plugId = y, upa_reserved = z\<rparr>"
| "as_address_data (SubunitPlugAddress _) x y z =
     SubunitPlugAddress \<lparr>spa_plugId = x, spa_reserved0 = y, spa_reserved1 = z\<rparr>"
| "as_address_data (FunctionBlockPlugAddress _) x y z =
     FunctionBlockPlugAddress \<lparr>fpa_functionBlockType = x, fpa_functionBlockId = y, fpa_plugId = z\<rparr>"
| "as_address_data (UndefinedPlugAddress _) x y z =
     UndefinedPlugAddress \<lparr>npa_reserved0 = x, npa_reserved1 = y, npa_reserved2 = z\<rparr>"

definition address_into :: "plug_address \<Rightarrow> plug_address \<Rightarrow> plug_address" where
  "address_into pa0 pa =
     \<lparr>pa_plugDirection = pa_plugDirection pa, pa_addressMode = pa_addressMode pa,
      pa_plugAddressData = (let bs = address_data_bytes (pa_plugAddressData pa)
        in as_address_data (pa_plugAddressData pa0) (bs ! 0) (bs ! 1) (bs ! 2))\<rparr>"

definition same_class :: "plug_address_data \<Rightarrow> plug_address_data \<Rightarrow> bool" where
  "same_class a b \<longleftrightarrow>
     (case (a, b) of
        (UnitPlugAddress _, UnitPlugAddress _) \<Rightarrow> True
      | (SubunitPlugAddress _, SubunitPlugAddress _) \<Rightarrow> True
      | (FunctionBlockPlugAddress _, FunctionBlockPlugAddress _) \<Rightarrow> True
      | (UndefinedPlugAddress _, UndefinedPlugAddress _) \<Rightarrow> True
      | _ \<Rightarrow> False)"

definition mode_matches :: "plug_address_specific \<Rightarrow> bool" where
  "mode_matches pa \<longleftrightarrow>
     (case pas_plugAddressData pa of
        UnitPlugSpecificDataPlugAddress _ \<Rightarrow> pas_addressMode pa = ePAM_Unit
      | SubunitPlugSpecificDataPlugAddress _ \<Rightarrow> pas_addressMode pa = ePAM_Subunit
      | FunctionBlockPlugSpecificDataPlugAddress _ \<Rightarrow> pas_addressMode pa = ePAM_FunctionBlock
      | UndefinedPlugSpecificDataPlugAddress _ \<Rightarrow> pas_addressMode pa \<notin> {ePAM_Unit, ePAM_Subunit, ePAM_FunctionBlock})"

lemma length_address_data_bytes [simp]: "length (address_data_bytes a) = 3"
  by (cases a) simp_all

lemma length_specific_data_bytes [simp]: "length (specific_data_bytes a) = 5"
  by (cases a) simp_all

lemma length_plug_address_bytes [simp]: "length (plug_address_bytes pa) = 5"
  by (simp add: plug_address_bytes_def)

lemma length_specific_address_bytes [simp]: "length (specific_address_bytes pa) = 7"
  by (simp add: specific_address_bytes_def)

lemma address_into_same:
  assumes "same_class (pa_plugAddressData pa0) (pa_plugAddressData pa)"
  shows "address_into pa0 pa = pa"
proof -
  have "as_address_data a (address_data_bytes b ! 0) (address_data_bytes b ! 1) (address_data_bytes b ! 2) = b"
    if "same_class a b" for a b
    using that by (cases a; cases b) (simp_all add: same_class_def)
  then show ?thesis using assms by (simp add: address_into_def Let_def)
qed

lemmas address_data_serialize_defs = UnitPlugAddress_serialize_def SubunitPlugAddress_serialize_def
  FunctionBlockPlugAddress_serialize_def UndefinedPlugAddress_serialize_def
lemmas specific_data_serialize_defs = UnitPlugSpecificDataPlugAddress_serialize_def
  SubunitPlugSpecificDataPlugAddress_serialize_def FunctionBlockPlugSpecificDataPlugAddress_serialize_def
  UndefinedPlugSpecificDataPlugAddress_serialize_def
lemmas address_data_deserialize_defs = UnitPlugAddress_deserialize_def SubunitPlugAddress_deserialize_def
  FunctionBlockPlugAddress_deserialize_def UndefinedPlugAddress_deserialize_def
lemmas specific_data_deserialize_defs = UnitPlugSpecificDataPlugAddress_deserialize_def
  SubunitPlugSpecificDataPlugAddress_deserialize_def FunctionBlockPlugSpecificDataPlugAddress_deserialize_def
  UndefinedPlugSpecificDataPlugAddress_deserialize_def

context byte_sink
begin

lemma emits_address_data: "emits fits put (PlugAddressData_serialize se a) True (address_data_bytes a)"
  by (cases a) (auto simp: address_data_serialize_defs intro!: emits_intros)

lemma emits_specific_data: "emits fits put (SpecificPlugAddressData_serialize se a) True (specific_data_bytes a)"
  by (cases a) (auto simp: specific_data_serialize_defs intro!: emits_intros)

lemma emits_plug_address: "emits fits put (PlugAddress_serialize se pa) True (plug_address_bytes pa)"
  unfolding PlugAddress_serialize_def plug_address_bytes_def
  by (intro emits_byte_bind emits_address_data)

lemma emits_specific_address: "emits fits put (PlugAddressSpecificData_serialize se pa) True (specific_address_bytes pa)"
  unfolding PlugAddressSpecificData_serialize_def specific_address_bytes_def
  by (intro emits_byte_bind emits_specific_data)

end

context byte_source
begin

lemma takes_address_data:
  "takes invar rest adv (PlugAddressData_deserialize de a) (True, as_address_data a x y z) [x, y, z]"
proof -
  have "takes invar rest adv (UnitPlugAddress_deserialize de u) (True, \<lparr>upa_plugType = x, upa_plugId = y, upa_reserved = z\<rparr>) [x, y, z]"
    "takes invar rest adv (SubunitPlugAddress_deserialize de s) (True, \<lparr>spa_plugId = x, spa_reserved0 = y, spa_reserved1 = z\<rparr>) [x, y, z]"
    "takes invar rest adv (FunctionBlockPlugAddress_deserialize de f)
      (True, \<lparr>fpa_functionBlockType = x, fpa_functionBlockId = y, fpa_plugId = z\<rparr>) [x, y, z]"
    "takes invar rest adv (UndefinedPlugAddress_deserialize de n) (True, \<lparr>npa_reserved0 = x, npa_reserved1 = y, npa_reserved2 = z\<rparr>) [x, y, z]"
    for u s f n
    by (auto simp: address_data_deserialize_defs Let_def intro!: takes_byte_bind takes_return_eq)
  then show ?thesis by (cases a) (auto intro!: takes_bind_return)
qed

lemma takes_specific_data:
  "mode_matches pa \<Longrightarrow> takes invar rest adv (SpecificPlugAddressData_deserialize de (new_specific_data (pas_addressMode pa)))
     (True, pas_plugAddressData pa) (specific_data_bytes (pas_plugAddressData pa))"
proof -
  have read: "takes invar rest adv (UnitPlugSpecificDataPlugAddress_deserialize de u0)
      (True, u) [ups_plugType u, ups_plugId u, ups_reserved0 u, ups_reserved1 u, ups_reserved2 u]"
    "takes invar rest adv (SubunitPlugSpecificDataPlugAddress_deserialize de s0)
      (True, s) [sps_subunitType s, sps_subunitId s, sps_plugId s, sps_reserved0 s, sps_reserved1 s]"
    "takes invar rest adv (FunctionBlockPlugSpecificDataPlugAddress_deserialize de f0)
      (True, f) [fps_subunitType f, fps_subunitId f, fps_functionBlockType f, fps_functionBlockId f, fps_plugId f]"
    "takes invar rest adv (UndefinedPlugSpecificDataPlugAddress_deserialize de n0)
      (True, n) [nps_reserved0 n, nps_reserved1 n, nps_reserved2 n, nps_reserved3 n, nps_reserved4 n]"
    for u0 u s0 s f0 f n0 n
    by (auto simp: specific_data_deserialize_defs Let_def intro!: takes_byte_bind takes_return_eq)
  assume "mode_matches pa"
  then show ?thesis
    by (cases "pas_plugAddressData pa")
      (auto simp: mode_matches_def new_specific_data_def consts_defs intro!: takes_bind_return read)
qed

lemma takes_plug_address:
  "takes invar rest adv (PlugAddress_deserialize de pa0) (True, address_into pa0 pa) (plug_address_bytes pa)"
proof -
  obtain x y z where bs: "address_data_bytes (pa_plugAddressData pa) = [x, y, z]"
    by (cases "pa_plugAddressData pa") auto
  have "takes invar rest adv (PlugAddressData_deserialize de (pa_plugAddressData pa0))
      (True, as_address_data (pa_plugAddressData pa0) x y z) [x, y, z]"
    by (rule takes_address_data)
  then show ?thesis
    unfolding plug_address_bytes_def bs PlugAddress_deserialize_def
    by (auto simp: address_into_def bs intro!: takes_byte_bind takes_bind_return arg_cong [where f = State_Monad.return])
qed

lemma takes_specific_address:
  assumes "mode_matches pa"
  shows "takes invar rest adv (PlugAddressSpecificData_deserialize de pa0) (True, pa) (specific_address_bytes pa)"
  using takes_specific_data [OF assms]
  unfolding specific_address_bytes_def PlugAddressSpecificData_deserialize_def
  by (auto intro!: takes_byte_bind takes_bind_return arg_cong [where f = State_Monad.return])

end

section \<open>Properties\<close>

text \<open>
  Plug addresses: serializing writes the direction, the address mode and the bytes of the address
  data. Reading them back gives the same address if the receiver's data object has the class of the
  sent one; otherwise the bytes become members of the receiver's class, whatever the address mode
  says. An address of the specific data is read into a new object of the class that the mode asks for,
  so that it comes back whatever the receiver held before, if mode and class agree.
\<close>

theorem plug_address_roundtrip:
  "\<exists>s d. run_state (PlugAddress_serialize (buffer_serializer be) pa) (BufferSerialize (replicate 5 0) 5) = (True, s)
     \<and> run_state (PlugAddress_deserialize (buffer_deserializer be) pa0) (BufferDeserialize (bs_buffer s) 5)
       = ((True, address_into pa0 pa), d)
     \<and> (address_into pa0 pa = pa \<longleftrightarrow> same_class (pa_plugAddressData pa0) (pa_plugAddressData pa))
     \<and> (\<exists>s d. run_state (PlugAddressSpecificData_serialize (buffer_serializer be) ps) (BufferSerialize (replicate 7 0) 7) = (True, s)
         \<and> (mode_matches ps \<longrightarrow>
           run_state (PlugAddressSpecificData_deserialize (buffer_deserializer be) ps0) (BufferDeserialize (bs_buffer s) 7)
             = ((True, ps), d)))"
proof -
  let ?s = "BufferSerialize (replicate 5 0) 5" and ?t = "BufferSerialize (replicate 7 0) 7"
  have fits: "bs_fits ?s (length (plug_address_bytes pa))" "bs_fits ?t (length (specific_address_bytes ps))"
    by (simp_all add: bs_fits_def BufferSerialize_def)
  note w = bser.emits_run [OF bser.emits_plug_address fits(1)] bser.emits_run [OF bser.emits_specific_address fits(2)]
  let ?d = "BufferDeserialize (bs_buffer (bs_emit (plug_address_bytes pa) ?s)) 5"
    and ?e = "BufferDeserialize (bs_buffer (bs_emit (specific_address_bytes ps) ?t)) 7"
  have "bd_invar ?d" "bd_rest ?d = plug_address_bytes pa @ []" "bd_invar ?e" "bd_rest ?e = specific_address_bytes ps @ []"
    by (simp_all add: bd_invar_def bd_rest_def BufferDeserialize_def bs_emit_def BufferSerialize_def poke_def)
  then have "\<exists>d. run_state (PlugAddress_deserialize (buffer_deserializer be) pa0) ?d = ((True, address_into pa0 pa), d)"
    "mode_matches ps \<longrightarrow> (\<exists>d. run_state (PlugAddressSpecificData_deserialize (buffer_deserializer be) ps0) ?e = ((True, ps), d))"
    using bdes.takes_plug_address [of be pa0 pa] bdes.takes_specific_address [of ps be ps0] unfolding takes_def by blast+
  moreover have "same_class (pa_plugAddressData pa0) (pa_plugAddressData pa)" if "address_into pa0 pa = pa"
  proof -
    have "same_class a (as_address_data a x y z)" for a x y z by (cases a) (simp_all add: same_class_def)
    then show ?thesis using arg_cong [OF that, of pa_plugAddressData] by (simp add: address_into_def Let_def, metis)
  qed
  ultimately show ?thesis using w address_into_same by metis
qed

theorem plug_address_roundtrip_witness:
  "address_into (PlugAddress_unit ePD_Output ePAM_Unit (UnitPlugAddress_new ePT_PCR 0))
      (PlugAddress_subunit ePD_Input ePAM_Subunit (SubunitPlugAddress_new 3))
     \<noteq> PlugAddress_subunit ePD_Input ePAM_Subunit (SubunitPlugAddress_new 3)
   \<and> mode_matches (PlugAddressSpecificData_unit ePD_Input ePAM_Unit (UnitPlugSpecificDataPlugAddress_new ePT_PCR 2))"
  using plug_address_roundtrip [of False "PlugAddress_subunit ePD_Input ePAM_Subunit (SubunitPlugAddress_new 3)"
      "PlugAddress_unit ePD_Output ePAM_Unit (UnitPlugAddress_new ePT_PCR 0)"
      "PlugAddressSpecificData_unit ePD_Input ePAM_Unit (UnitPlugSpecificDataPlugAddress_new ePT_PCR 2)"
      "PlugAddressSpecificData_unit ePD_Input ePAM_Unit (UnitPlugSpecificDataPlugAddress_new ePT_PCR 0)"]
  by (auto simp: same_class_def PlugAddress_unit_def PlugAddress_subunit_def mode_matches_def PlugAddressSpecificData_unit_def)

end
