(* ===== verification/AvcPlugInfo.thy ===== *)
theory AvcPlugInfo
  imports AvcPlugAddress
begin

text \<open>
  The extended plug info command (\<^verbatim>\<open>libavc/general/avc_extended_plug_info.cpp\<close>): the eight classes of
  specific data, the class \<^verbatim>\<open>ExtendedPlugInfoInfoType\<close> that owns one of them, and the command. A pointer
  member that may be null is an \<open>option\<close>; following a null pointer is the result \<open>None\<close>. Objects that are
  owned through a pointer are values, as their copy constructors copy them deeply. Strings are lists of
  bytes without the final NUL.
\<close>

unbundle bit_operations_syntax

section \<open>Indeterminate values\<close>

text \<open>
  \<open>ini_byte\<close>: the value of an uninitialised byte; \<open>ini_chars\<close>: the memory at an uninitialised pointer;
  \<open>beyond\<close>: the memory after the buffer that is read.
\<close>

record indeterminate =
  ini_byte :: u8
  ini_chars :: "u8 list"
  beyond :: "u8 list"

definition c_string :: "u8 list \<Rightarrow> u8 list" where
  "c_string p = takeWhile (\<lambda>b. b \<noteq> 0) p"

definition strlen :: "u8 list \<Rightarrow> nat" where
  "strlen s = length (c_string s)"

section \<open>Plug type\<close>

definition eEPIPT_Unknown :: u8 where [consts_defs]: "eEPIPT_Unknown = 0xff"

record plug_type_data =
  ptd_plugType :: u8

definition ExtendedPlugInfoPlugTypeSpecificData_new :: "u8 \<Rightarrow> plug_type_data" where
  "ExtendedPlugInfoPlugTypeSpecificData_new ePlugType = \<lparr>ptd_plugType = ePlugType\<rparr>"

definition ExtendedPlugInfoPlugTypeSpecificData_serialize :: "'s oss \<Rightarrow> plug_type_data \<Rightarrow> ('s, bool) state" where
  "ExtendedPlugInfoPlugTypeSpecificData_serialize se x =
     do { write_byte se (ptd_plugType x);
          State_Monad.return True }"

definition ExtendedPlugInfoPlugTypeSpecificData_deserialize ::
  "'d iis \<Rightarrow> plug_type_data \<Rightarrow> ('d, bool \<times> plug_type_data) state" where
  "ExtendedPlugInfoPlugTypeSpecificData_deserialize de x =
     do { (_, v) \<leftarrow> read_byte de (ptd_plugType x);
          State_Monad.return (True, x\<lparr>ptd_plugType := v\<rparr>) }"

definition extendedPlugInfoPlugTypeStrings :: "string list" where
  "extendedPlugInfoPlugTypeStrings =
     [''IsoStream'', ''AsyncStream'', ''Midi'', ''Sync'', ''Analog'', ''Digital'', ''Unknown'']"

text \<open>\<^verbatim>\<open>sizeof\<close> of the table is its size in bytes, eight for each pointer.\<close>

definition extendedPlugInfoPlugTypeToString :: "u8 \<Rightarrow> string option" where
  "extendedPlugInfoPlugTypeToString plugType =
     (if unat plugType > 8 * length extendedPlugInfoPlugTypeStrings then Some ''Unknown''
      else table_at extendedPlugInfoPlugTypeStrings (unat plugType))"

section \<open>Plug name\<close>

record plug_name_data =
  pnd_name :: "u8 list"

definition ExtendedPlugInfoPlugNameSpecificData_new :: plug_name_data where
  "ExtendedPlugInfoPlugNameSpecificData_new = \<lparr>pnd_name = []\<rparr>"

fun write_bytes :: "'s oss \<Rightarrow> u8 list \<Rightarrow> ('s, unit) state" where
  "write_bytes se [] = State_Monad.return ()"
| "write_bytes se (b # bs) = do { write_byte se b; write_bytes se bs }"

definition ExtendedPlugInfoPlugNameSpecificData_serialize :: "'s oss \<Rightarrow> plug_name_data \<Rightarrow> ('s, bool) state" where
  "ExtendedPlugInfoPlugNameSpecificData_serialize se x =
     do { let len = (of_nat (strlen (pnd_name x)) :: u8);
          write_byte se len;
          write_bytes se (take (unat len) (pnd_name x));
          State_Monad.return True }"

definition ExtendedPlugInfoPlugNameSpecificData_deserialize ::
  "indeterminate \<Rightarrow> 'd iis \<Rightarrow> plug_name_data \<Rightarrow> ('d, bool \<times> plug_name_data) state" where
  "ExtendedPlugInfoPlugNameSpecificData_deserialize ini de x =
     do { (_, len) \<leftarrow> read_byte de (ini_byte ini);
          let x = x\<lparr>pnd_name := []\<rparr>;
          (_, name) \<leftarrow> read_chars de (ini_chars ini) (ucast len);
          State_Monad.return (True, x\<lparr>pnd_name := c_string (name @ beyond ini)\<rparr>) }"

section \<open>Number of channels\<close>

record plug_nr_of_channels_data =
  pcd_nrOfChannels :: u8

definition ExtendedPlugInfoPlugNumberOfChannelsSpecificData_new :: plug_nr_of_channels_data where
  "ExtendedPlugInfoPlugNumberOfChannelsSpecificData_new = \<lparr>pcd_nrOfChannels = 0\<rparr>"

definition ExtendedPlugInfoPlugNumberOfChannelsSpecificData_serialize ::
  "'s oss \<Rightarrow> plug_nr_of_channels_data \<Rightarrow> ('s, bool) state" where
  "ExtendedPlugInfoPlugNumberOfChannelsSpecificData_serialize se x =
     do { write_byte se (pcd_nrOfChannels x);
          State_Monad.return True }"

definition ExtendedPlugInfoPlugNumberOfChannelsSpecificData_deserialize ::
  "'d iis \<Rightarrow> plug_nr_of_channels_data \<Rightarrow> ('d, bool \<times> plug_nr_of_channels_data) state" where
  "ExtendedPlugInfoPlugNumberOfChannelsSpecificData_deserialize de x =
     do { (_, v) \<leftarrow> read_byte de (pcd_nrOfChannels x);
          State_Monad.return (True, x\<lparr>pcd_nrOfChannels := v\<rparr>) }"

section \<open>Channel positions\<close>

record channel_info =
  ci_streamPosition :: u8
  ci_location :: u8

record cluster_info =
  cl_nrOfChannels :: u8
  cl_channelInfos :: "channel_info list"

record plug_channel_position_data =
  cpd_nrOfClusters :: u8
  cpd_clusterInfos :: "cluster_info list"

definition ExtendedPlugInfoPlugChannelPositionSpecificData_new :: plug_channel_position_data where
  "ExtendedPlugInfoPlugChannelPositionSpecificData_new = \<lparr>cpd_nrOfClusters = 0, cpd_clusterInfos = []\<rparr>"

text \<open>The two nested loops over the clusters and their channels.\<close>

fun write_channel_infos :: "'s oss \<Rightarrow> channel_info list \<Rightarrow> ('s, unit) state" where
  "write_channel_infos se [] = State_Monad.return ()"
| "write_channel_infos se (i # is) =
     do { write_byte se (ci_streamPosition i);
          write_byte se (ci_location i);
          write_channel_infos se is }"

fun write_cluster_infos :: "'s oss \<Rightarrow> cluster_info list \<Rightarrow> ('s, unit) state" where
  "write_cluster_infos se [] = State_Monad.return ()"
| "write_cluster_infos se (k # ks) =
     do { write_byte se (cl_nrOfChannels k);
          write_channel_infos se (cl_channelInfos k);
          write_cluster_infos se ks }"

definition ExtendedPlugInfoPlugChannelPositionSpecificData_serialize ::
  "'s oss \<Rightarrow> plug_channel_position_data \<Rightarrow> ('s, bool) state" where
  "ExtendedPlugInfoPlugChannelPositionSpecificData_serialize se x =
     do { write_byte se (cpd_nrOfClusters x);
          write_cluster_infos se (cpd_clusterInfos x);
          State_Monad.return True }"

fun read_channel_infos :: "u8 \<Rightarrow> 'd iis \<Rightarrow> nat \<Rightarrow> ('d, channel_info list) state" where
  "read_channel_infos ini de 0 = State_Monad.return []"
| "read_channel_infos ini de (Suc n) =
     do { (_, p) \<leftarrow> read_byte de ini;
          (_, l) \<leftarrow> read_byte de ini;
          is \<leftarrow> read_channel_infos ini de n;
          State_Monad.return (\<lparr>ci_streamPosition = p, ci_location = l\<rparr> # is) }"

fun read_cluster_infos :: "u8 \<Rightarrow> 'd iis \<Rightarrow> nat \<Rightarrow> ('d, cluster_info list) state" where
  "read_cluster_infos ini de 0 = State_Monad.return []"
| "read_cluster_infos ini de (Suc n) =
     do { (_, m) \<leftarrow> read_byte de ini;
          is \<leftarrow> read_channel_infos ini de (unat m);
          ks \<leftarrow> read_cluster_infos ini de n;
          State_Monad.return (\<lparr>cl_nrOfChannels = m, cl_channelInfos = is\<rparr> # ks) }"

definition ExtendedPlugInfoPlugChannelPositionSpecificData_deserialize ::
  "indeterminate \<Rightarrow> 'd iis \<Rightarrow> plug_channel_position_data \<Rightarrow> ('d, bool \<times> plug_channel_position_data) state" where
  "ExtendedPlugInfoPlugChannelPositionSpecificData_deserialize ini de x =
     do { let x = x\<lparr>cpd_clusterInfos := []\<rparr>;
          (_, v) \<leftarrow> read_byte de (cpd_nrOfClusters x);
          let x = x\<lparr>cpd_nrOfClusters := v\<rparr>;
          ks \<leftarrow> read_cluster_infos (ini_byte ini) de (unat (cpd_nrOfClusters x));
          State_Monad.return (True, x\<lparr>cpd_clusterInfos := cpd_clusterInfos x @ ks\<rparr>) }"

section \<open>Channel name\<close>

record plug_channel_name_data =
  cnd_streamPosition :: u8
  cnd_stringLength :: u8
  cnd_plugChannelName :: "u8 list"

definition ExtendedPlugInfoPlugChannelNameSpecificData_new :: plug_channel_name_data where
  "ExtendedPlugInfoPlugChannelNameSpecificData_new =
     \<lparr>cnd_streamPosition = 0, cnd_stringLength = 0xff, cnd_plugChannelName = []\<rparr>"

definition ExtendedPlugInfoPlugChannelNameSpecificData_serialize ::
  "'s oss \<Rightarrow> plug_channel_name_data \<Rightarrow> ('s, bool) state" where
  "ExtendedPlugInfoPlugChannelNameSpecificData_serialize se x =
     do { write_byte se (cnd_streamPosition x);
          write_byte se (cnd_stringLength x);
          write_bytes se (cnd_plugChannelName x);
          State_Monad.return True }"

text \<open>The loop that reads a name; the character \<open>&\<close> becomes \<open>+\<close>.\<close>

fun read_name :: "u8 \<Rightarrow> 'd iis \<Rightarrow> nat \<Rightarrow> ('d, u8 list) state" where
  "read_name ini de 0 = State_Monad.return []"
| "read_name ini de (Suc n) =
     do { (_, c) \<leftarrow> read_byte de ini;
          let c = (if c = 0x26 then 0x2b else c);
          cs \<leftarrow> read_name ini de n;
          State_Monad.return (c # cs) }"

definition ExtendedPlugInfoPlugChannelNameSpecificData_deserialize ::
  "indeterminate \<Rightarrow> 'd iis \<Rightarrow> plug_channel_name_data \<Rightarrow> ('d, bool \<times> plug_channel_name_data) state" where
  "ExtendedPlugInfoPlugChannelNameSpecificData_deserialize ini de x =
     do { (_, v) \<leftarrow> read_byte de (cnd_streamPosition x);
          let x = x\<lparr>cnd_streamPosition := v\<rparr>;
          (_, v) \<leftarrow> read_byte de (cnd_stringLength x);
          let x = x\<lparr>cnd_stringLength := v\<rparr>;
          name \<leftarrow> read_name (ini_byte ini) de (unat (cnd_stringLength x));
          State_Monad.return (True, x\<lparr>cnd_plugChannelName := c_string (name @ [0])\<rparr>) }"

section \<open>Plug input\<close>

text \<open>The pointer to the address is set by every constructor and is null only after the destructor.\<close>

record plug_input_data =
  pid_plugAddress :: plug_address_specific

definition default_plug_address :: plug_address_specific where
  "default_plug_address =
     PlugAddressSpecificData_unit ePD_Output ePAM_Unit (UnitPlugSpecificDataPlugAddress_new ePT_PCR 0x00)"

definition ExtendedPlugInfoPlugInputSpecificData_new :: plug_input_data where
  "ExtendedPlugInfoPlugInputSpecificData_new = \<lparr>pid_plugAddress = default_plug_address\<rparr>"

definition ExtendedPlugInfoPlugInputSpecificData_serialize :: "'s oss \<Rightarrow> plug_input_data \<Rightarrow> ('s, bool) state" where
  "ExtendedPlugInfoPlugInputSpecificData_serialize se x = PlugAddressSpecificData_serialize se (pid_plugAddress x)"

definition ExtendedPlugInfoPlugInputSpecificData_deserialize ::
  "'d iis \<Rightarrow> plug_input_data \<Rightarrow> ('d, bool \<times> plug_input_data) state" where
  "ExtendedPlugInfoPlugInputSpecificData_deserialize de x =
     do { (r, a) \<leftarrow> PlugAddressSpecificData_deserialize de (pid_plugAddress x);
          State_Monad.return (r, x\<lparr>pid_plugAddress := a\<rparr>) }"

section \<open>Plug outputs\<close>

record plug_output_data =
  pod_nrOfOutputPlugs :: u8
  pod_outputPlugAddresses :: "plug_address_specific list"

definition ExtendedPlugInfoPlugOutputSpecificData_new :: plug_output_data where
  "ExtendedPlugInfoPlugOutputSpecificData_new = \<lparr>pod_nrOfOutputPlugs = 0, pod_outputPlugAddresses = []\<rparr>"

fun write_plug_addresses :: "'s oss \<Rightarrow> plug_address_specific list \<Rightarrow> ('s, unit) state" where
  "write_plug_addresses se [] = State_Monad.return ()"
| "write_plug_addresses se (a # as) =
     do { PlugAddressSpecificData_serialize se a;
          write_plug_addresses se as }"

definition ExtendedPlugInfoPlugOutputSpecificData_serialize :: "'s oss \<Rightarrow> plug_output_data \<Rightarrow> ('s, bool) state" where
  "ExtendedPlugInfoPlugOutputSpecificData_serialize se x =
     do { write_byte se (pod_nrOfOutputPlugs x);
          write_plug_addresses se (pod_outputPlugAddresses x);
          State_Monad.return True }"

fun read_plug_addresses ::
  "'d iis \<Rightarrow> nat \<Rightarrow> plug_address_specific list \<Rightarrow> ('d, bool \<times> plug_address_specific list) state" where
  "read_plug_addresses de 0 as = State_Monad.return (True, as)"
| "read_plug_addresses de (Suc n) as =
     do { (r, a) \<leftarrow> PlugAddressSpecificData_deserialize de default_plug_address;
          if \<not> r then State_Monad.return (False, as)
          else read_plug_addresses de n (as @ [a]) }"

definition ExtendedPlugInfoPlugOutputSpecificData_deserialize ::
  "'d iis \<Rightarrow> plug_output_data \<Rightarrow> ('d, bool \<times> plug_output_data) state" where
  "ExtendedPlugInfoPlugOutputSpecificData_deserialize de x =
     do { (_, v) \<leftarrow> read_byte de (pod_nrOfOutputPlugs x);
          let x = x\<lparr>pod_nrOfOutputPlugs := v\<rparr>;
          (r, as) \<leftarrow> read_plug_addresses de (unat (pod_nrOfOutputPlugs x)) (pod_outputPlugAddresses x);
          State_Monad.return (r, x\<lparr>pod_outputPlugAddresses := as\<rparr>) }"

section \<open>Cluster info\<close>

definition ePT_NoType :: u8 where [consts_defs]: "ePT_NoType = 0xff"

record cluster_info_data =
  cid_clusterIndex :: u8
  cid_portType :: u8
  cid_stringLength :: u8
  cid_clusterName :: "u8 list"

definition ExtendedPlugInfoClusterInfoSpecificData_new :: cluster_info_data where
  "ExtendedPlugInfoClusterInfoSpecificData_new =
     \<lparr>cid_clusterIndex = 0, cid_portType = ePT_NoType, cid_stringLength = 0xff, cid_clusterName = []\<rparr>"

definition ExtendedPlugInfoClusterInfoSpecificData_serialize :: "'s oss \<Rightarrow> cluster_info_data \<Rightarrow> ('s, bool) state" where
  "ExtendedPlugInfoClusterInfoSpecificData_serialize se x =
     do { write_byte se (cid_clusterIndex x);
          write_byte se (cid_portType x);
          write_byte se (cid_stringLength x);
          write_bytes se (cid_clusterName x);
          State_Monad.return True }"

definition ExtendedPlugInfoClusterInfoSpecificData_deserialize ::
  "indeterminate \<Rightarrow> 'd iis \<Rightarrow> cluster_info_data \<Rightarrow> ('d, bool \<times> cluster_info_data) state" where
  "ExtendedPlugInfoClusterInfoSpecificData_deserialize ini de x =
     do { (_, v) \<leftarrow> read_byte de (cid_clusterIndex x);
          let x = x\<lparr>cid_clusterIndex := v\<rparr>;
          (_, v) \<leftarrow> read_byte de (cid_portType x);
          let x = x\<lparr>cid_portType := v\<rparr>;
          (_, v) \<leftarrow> read_byte de (cid_stringLength x);
          let x = x\<lparr>cid_stringLength := v\<rparr>;
          name \<leftarrow> read_name (ini_byte ini) de (unat (cid_stringLength x));
          State_Monad.return (True, x\<lparr>cid_clusterName := c_string (name @ [0])\<rparr>) }"

definition extendedPlugInfoPortTypeStrings :: "string list" where
  "extendedPlugInfoPortTypeStrings =
     [''Speaker'', ''Headphone'', ''Microphone'', ''Line'', ''SPDIF'', ''ADAT'', ''TDIF'', ''MADI'',
      ''Analog'', ''Digital'', ''MIDI'']"

definition extendedPlugInfoClusterInfoPortTypeToString :: "u8 \<Rightarrow> string option" where
  "extendedPlugInfoClusterInfoPortTypeToString portType =
     (if unat portType > length extendedPlugInfoPortTypeStrings then Some ''Unknown''
      else table_at extendedPlugInfoPortTypeStrings (unat portType))"

section \<open>The info type\<close>

definition eIT_PlugType :: u8 where [consts_defs]: "eIT_PlugType = 0x00"
definition eIT_PlugName :: u8 where [consts_defs]: "eIT_PlugName = 0x01"
definition eIT_NoOfChannels :: u8 where [consts_defs]: "eIT_NoOfChannels = 0x02"
definition eIT_ChannelPosition :: u8 where [consts_defs]: "eIT_ChannelPosition = 0x03"
definition eIT_ChannelName :: u8 where [consts_defs]: "eIT_ChannelName = 0x04"
definition eIT_PlugInput :: u8 where [consts_defs]: "eIT_PlugInput = 0x05"
definition eIT_PlugOutput :: u8 where [consts_defs]: "eIT_PlugOutput = 0x06"
definition eIT_ClusterInfo :: u8 where [consts_defs]: "eIT_ClusterInfo = 0x07"

record info_type =
  m_infoType :: u8
  m_plugType :: "plug_type_data option"
  m_plugName :: "plug_name_data option"
  m_plugNrOfChns :: "plug_nr_of_channels_data option"
  m_plugChannelPosition :: "plug_channel_position_data option"
  m_plugChannelName :: "plug_channel_name_data option"
  m_plugInput :: "plug_input_data option"
  m_plugOutput :: "plug_output_data option"
  m_plugClusterInfo :: "cluster_info_data option"

definition ExtendedPlugInfoInfoType_new :: "u8 \<Rightarrow> info_type" where
  "ExtendedPlugInfoInfoType_new eInfoType =
     \<lparr>m_infoType = eInfoType, m_plugType = None, m_plugName = None, m_plugNrOfChns = None,
      m_plugChannelPosition = None, m_plugChannelName = None, m_plugInput = None, m_plugOutput = None,
      m_plugClusterInfo = None\<rparr>"

text \<open>The copy constructor follows the pointer of the info type, which must not be null.\<close>

definition ExtendedPlugInfoInfoType_copy :: "info_type \<Rightarrow> info_type option" where
  "ExtendedPlugInfoInfoType_copy rhs =
     (let i = ExtendedPlugInfoInfoType_new (m_infoType rhs)
      in if m_infoType i = eIT_PlugType then map_option (\<lambda>x. i\<lparr>m_plugType := Some x\<rparr>) (m_plugType rhs)
         else if m_infoType i = eIT_PlugName then map_option (\<lambda>x. i\<lparr>m_plugName := Some x\<rparr>) (m_plugName rhs)
         else if m_infoType i = eIT_NoOfChannels then
           map_option (\<lambda>x. i\<lparr>m_plugNrOfChns := Some x\<rparr>) (m_plugNrOfChns rhs)
         else if m_infoType i = eIT_ChannelPosition then
           map_option (\<lambda>x. i\<lparr>m_plugChannelPosition := Some x\<rparr>) (m_plugChannelPosition rhs)
         else if m_infoType i = eIT_ChannelName then
           map_option (\<lambda>x. i\<lparr>m_plugChannelName := Some x\<rparr>) (m_plugChannelName rhs)
         else if m_infoType i = eIT_PlugInput then map_option (\<lambda>x. i\<lparr>m_plugInput := Some x\<rparr>) (m_plugInput rhs)
         else if m_infoType i = eIT_PlugOutput then map_option (\<lambda>x. i\<lparr>m_plugOutput := Some x\<rparr>) (m_plugOutput rhs)
         else if m_infoType i = eIT_ClusterInfo then
           map_option (\<lambda>x. i\<lparr>m_plugClusterInfo := Some x\<rparr>) (m_plugClusterInfo rhs)
         else Some i)"

definition ExtendedPlugInfoInfoType_initialize :: "info_type \<Rightarrow> bool \<times> info_type" where
  "ExtendedPlugInfoInfoType_initialize i =
     (if m_infoType i = eIT_PlugType then
        (True, i\<lparr>m_plugType := Some (ExtendedPlugInfoPlugTypeSpecificData_new eEPIPT_Unknown)\<rparr>)
      else if m_infoType i = eIT_PlugName then
        (True, i\<lparr>m_plugName := Some ExtendedPlugInfoPlugNameSpecificData_new\<rparr>)
      else if m_infoType i = eIT_NoOfChannels then
        (True, i\<lparr>m_plugNrOfChns := Some ExtendedPlugInfoPlugNumberOfChannelsSpecificData_new\<rparr>)
      else if m_infoType i = eIT_ChannelPosition then
        (True, i\<lparr>m_plugChannelPosition := Some ExtendedPlugInfoPlugChannelPositionSpecificData_new\<rparr>)
      else if m_infoType i = eIT_ChannelName then
        (True, i\<lparr>m_plugChannelName := Some ExtendedPlugInfoPlugChannelNameSpecificData_new\<rparr>)
      else if m_infoType i = eIT_PlugInput then
        (True, i\<lparr>m_plugInput := Some ExtendedPlugInfoPlugInputSpecificData_new\<rparr>)
      else if m_infoType i = eIT_PlugOutput then
        (True, i\<lparr>m_plugOutput := Some ExtendedPlugInfoPlugOutputSpecificData_new\<rparr>)
      else if m_infoType i = eIT_ClusterInfo then
        (True, i\<lparr>m_plugClusterInfo := Some ExtendedPlugInfoClusterInfoSpecificData_new\<rparr>)
      else (False, i))"

text \<open>A call through a pointer that is skipped when it is null; the result of the call is not used.\<close>

fun if_present :: "('a \<Rightarrow> ('s, bool) state) \<Rightarrow> 'a option \<Rightarrow> ('s, bool) state" where
  "if_present ser None = State_Monad.return True"
| "if_present ser (Some x) = do { ser x; State_Monad.return True }"

definition ExtendedPlugInfoInfoType_serialize :: "'s oss \<Rightarrow> info_type \<Rightarrow> ('s, bool) state" where
  "ExtendedPlugInfoInfoType_serialize se i =
     do { write_byte se (m_infoType i);
          if m_infoType i = eIT_PlugType then
            if_present (ExtendedPlugInfoPlugTypeSpecificData_serialize se) (m_plugType i)
          else if m_infoType i = eIT_PlugName then
            if_present (ExtendedPlugInfoPlugNameSpecificData_serialize se) (m_plugName i)
          else if m_infoType i = eIT_NoOfChannels then
            if_present (ExtendedPlugInfoPlugNumberOfChannelsSpecificData_serialize se) (m_plugNrOfChns i)
          else if m_infoType i = eIT_ChannelPosition then
            if_present (ExtendedPlugInfoPlugChannelPositionSpecificData_serialize se) (m_plugChannelPosition i)
          else if m_infoType i = eIT_ChannelName then
            if_present (ExtendedPlugInfoPlugChannelNameSpecificData_serialize se) (m_plugChannelName i)
          else if m_infoType i = eIT_PlugInput then
            if_present (ExtendedPlugInfoPlugInputSpecificData_serialize se) (m_plugInput i)
          else if m_infoType i = eIT_PlugOutput then
            if_present (ExtendedPlugInfoPlugOutputSpecificData_serialize se) (m_plugOutput i)
          else if m_infoType i = eIT_ClusterInfo then
            if_present (ExtendedPlugInfoClusterInfoSpecificData_serialize se) (m_plugClusterInfo i)
          else State_Monad.return False }"

text \<open>The data object that is read: the present one, or a new one where the pointer is null.\<close>

fun or_new :: "'a \<Rightarrow> 'a option \<Rightarrow> 'a" where
  "or_new n None = n"
| "or_new n (Some x) = x"

definition ExtendedPlugInfoInfoType_deserialize ::
  "indeterminate \<Rightarrow> 'd iis \<Rightarrow> info_type \<Rightarrow> ('d, bool \<times> info_type) state" where
  "ExtendedPlugInfoInfoType_deserialize ini de i =
     do { (_, v) \<leftarrow> read_byte de (m_infoType i);
          let i = i\<lparr>m_infoType := v\<rparr>;
          if m_infoType i = eIT_PlugType then
            do { (status, x) \<leftarrow> ExtendedPlugInfoPlugTypeSpecificData_deserialize de
                   (or_new (ExtendedPlugInfoPlugTypeSpecificData_new eEPIPT_Unknown) (m_plugType i));
                 State_Monad.return (status, i\<lparr>m_plugType := Some x\<rparr>) }
          else if m_infoType i = eIT_PlugName then
            do { (status, x) \<leftarrow> ExtendedPlugInfoPlugNameSpecificData_deserialize ini de
                   (or_new ExtendedPlugInfoPlugNameSpecificData_new (m_plugName i));
                 State_Monad.return (status, i\<lparr>m_plugName := Some x\<rparr>) }
          else if m_infoType i = eIT_NoOfChannels then
            do { (status, x) \<leftarrow> ExtendedPlugInfoPlugNumberOfChannelsSpecificData_deserialize de
                   (or_new ExtendedPlugInfoPlugNumberOfChannelsSpecificData_new (m_plugNrOfChns i));
                 State_Monad.return (status, i\<lparr>m_plugNrOfChns := Some x\<rparr>) }
          else if m_infoType i = eIT_ChannelPosition then
            do { (status, x) \<leftarrow> ExtendedPlugInfoPlugChannelPositionSpecificData_deserialize ini de
                   (or_new ExtendedPlugInfoPlugChannelPositionSpecificData_new (m_plugChannelPosition i));
                 State_Monad.return (status, i\<lparr>m_plugChannelPosition := Some x\<rparr>) }
          else if m_infoType i = eIT_ChannelName then
            do { (status, x) \<leftarrow> ExtendedPlugInfoPlugChannelNameSpecificData_deserialize ini de
                   (or_new ExtendedPlugInfoPlugChannelNameSpecificData_new (m_plugChannelName i));
                 State_Monad.return (status, i\<lparr>m_plugChannelName := Some x\<rparr>) }
          else if m_infoType i = eIT_PlugInput then
            do { (status, x) \<leftarrow> ExtendedPlugInfoPlugInputSpecificData_deserialize de
                   (or_new ExtendedPlugInfoPlugInputSpecificData_new (m_plugInput i));
                 State_Monad.return (status, i\<lparr>m_plugInput := Some x\<rparr>) }
          else if m_infoType i = eIT_PlugOutput then
            do { (status, x) \<leftarrow> ExtendedPlugInfoPlugOutputSpecificData_deserialize de
                   (or_new ExtendedPlugInfoPlugOutputSpecificData_new (m_plugOutput i));
                 State_Monad.return (status, i\<lparr>m_plugOutput := Some x\<rparr>) }
          else if m_infoType i = eIT_ClusterInfo then
            do { (status, x) \<leftarrow> ExtendedPlugInfoClusterInfoSpecificData_deserialize ini de
                   (or_new ExtendedPlugInfoClusterInfoSpecificData_new (m_plugClusterInfo i));
                 State_Monad.return (status, i\<lparr>m_plugClusterInfo := Some x\<rparr>) }
          else State_Monad.return (False, i) }"

definition ExtendedPlugInfoInfoType_clone :: "info_type \<Rightarrow> info_type option" where
  "ExtendedPlugInfoInfoType_clone i =
     map_option (\<lambda>extPlugInfoInfoType. snd (ExtendedPlugInfoInfoType_initialize extPlugInfoInfoType))
       (ExtendedPlugInfoInfoType_copy i)"

definition extendedPlugInfoInfoTypeStrings :: "string list" where
  "extendedPlugInfoInfoTypeStrings =
     [''PlugType'', ''PlugName'', ''NoOfChannels'', ''ChannelPosition'', ''ChannelName'', ''PlugInput'',
      ''PlugOutput'', ''ClusterInfo'']"

definition extendedPlugInfoInfoTypeToString :: "u8 \<Rightarrow> string option" where
  "extendedPlugInfoInfoTypeToString infoType =
     (if unat infoType > length extendedPlugInfoInfoTypeStrings then Some ''Unknown''
      else table_at extendedPlugInfoInfoTypeStrings (unat infoType))"

section \<open>The command\<close>

definition eSF_ExtendedPlugInfoCmd :: u8 where [consts_defs]: "eSF_ExtendedPlugInfoCmd = 0xC0"

record ext_plug_info_cmd = avc_command +
  epi_subFunction :: u8
  epi_plugAddress :: plug_address
  epi_infoType :: info_type

definition ExtendedPlugInfoCmd_new :: "u8 list \<Rightarrow> u8 \<Rightarrow> u8 \<Rightarrow> ext_plug_info_cmd" where
  "ExtendedPlugInfoCmd_new ini_frame ini_type eSubFunction =
     avc_command.extend (AVCCommand_new ini_frame ini_type 0x02)
       (ext_plug_info_cmd.fields eSubFunction
         (PlugAddress_unit ePD_Output ePAM_Unit (UnitPlugAddress_new ePT_PCR 0x00))
         (snd (ExtendedPlugInfoInfoType_initialize (ExtendedPlugInfoInfoType_new eIT_PlugType))))"

definition ExtendedPlugInfoCmd_copy :: "ext_plug_info_cmd \<Rightarrow> ext_plug_info_cmd option" where
  "ExtendedPlugInfoCmd_copy rhs =
     map_option (\<lambda>i. rhs\<lparr>epi_infoType := i\<rparr>) (ExtendedPlugInfoInfoType_copy (epi_infoType rhs))"

definition ExtendedPlugInfoCmd_serialize :: "'s oss \<Rightarrow> ext_plug_info_cmd \<Rightarrow> ('s, bool) state" where
  "ExtendedPlugInfoCmd_serialize se c =
     do { AVCCommand_serialize se c;
          write_byte se (epi_subFunction c);
          status \<leftarrow> PlugAddress_serialize se (epi_plugAddress c);
          r \<leftarrow> ExtendedPlugInfoInfoType_serialize se (epi_infoType c);
          State_Monad.return (status \<and> r) }"

definition ExtendedPlugInfoCmd_deserialize ::
  "indeterminate \<Rightarrow> 'd iis \<Rightarrow> ext_plug_info_cmd \<Rightarrow> ('d, bool \<times> ext_plug_info_cmd) state" where
  "ExtendedPlugInfoCmd_deserialize ini de c =
     do { (_, c) \<leftarrow> AVCCommand_deserialize de c;
          (_, v) \<leftarrow> read_byte de (epi_subFunction c);
          let c = c\<lparr>epi_subFunction := v\<rparr>;
          (status, a) \<leftarrow> PlugAddress_deserialize de (epi_plugAddress c);
          let c = c\<lparr>epi_plugAddress := a\<rparr>;
          (r, i) \<leftarrow> ExtendedPlugInfoInfoType_deserialize ini de (epi_infoType c);
          State_Monad.return (status \<and> r, c\<lparr>epi_infoType := i\<rparr>) }"

definition ExtendedPlugInfoCmd_setPlugAddress :: "plug_address \<Rightarrow> ext_plug_info_cmd \<Rightarrow> bool \<times> ext_plug_info_cmd" where
  "ExtendedPlugInfoCmd_setPlugAddress plugAddress c = (True, c\<lparr>epi_plugAddress := plugAddress\<rparr>)"

definition ExtendedPlugInfoCmd_setSubFunction :: "u8 \<Rightarrow> ext_plug_info_cmd \<Rightarrow> bool \<times> ext_plug_info_cmd" where
  "ExtendedPlugInfoCmd_setSubFunction subFunction c = (True, c\<lparr>epi_subFunction := subFunction\<rparr>)"

definition ExtendedPlugInfoCmd_setInfoType ::
  "info_type \<Rightarrow> ext_plug_info_cmd \<Rightarrow> (bool \<times> ext_plug_info_cmd) option" where
  "ExtendedPlugInfoCmd_setInfoType infoType c =
     map_option (\<lambda>i. (True, c\<lparr>epi_infoType := i\<rparr>)) (ExtendedPlugInfoInfoType_clone infoType)"

section \<open>Bytes of the specific data\<close>

fun opt_bytes :: "('a \<Rightarrow> u8 list) \<Rightarrow> 'a option \<Rightarrow> u8 list" where
  "opt_bytes f None = []"
| "opt_bytes f (Some x) = f x"

definition name_bytes :: "plug_name_data \<Rightarrow> u8 list" where
  "name_bytes x = of_nat (strlen (pnd_name x)) # take (strlen (pnd_name x) mod 256) (pnd_name x)"

definition channel_bytes :: "channel_info \<Rightarrow> u8 list" where
  "channel_bytes i = [ci_streamPosition i, ci_location i]"

definition cluster_bytes :: "cluster_info \<Rightarrow> u8 list" where
  "cluster_bytes k = cl_nrOfChannels k # concat (map channel_bytes (cl_channelInfos k))"

definition position_bytes :: "plug_channel_position_data \<Rightarrow> u8 list" where
  "position_bytes x = cpd_nrOfClusters x # concat (map cluster_bytes (cpd_clusterInfos x))"

definition channel_name_bytes :: "plug_channel_name_data \<Rightarrow> u8 list" where
  "channel_name_bytes x = cnd_streamPosition x # cnd_stringLength x # cnd_plugChannelName x"

definition output_bytes :: "plug_output_data \<Rightarrow> u8 list" where
  "output_bytes x = pod_nrOfOutputPlugs x # concat (map specific_address_bytes (pod_outputPlugAddresses x))"

definition cluster_info_bytes :: "cluster_info_data \<Rightarrow> u8 list" where
  "cluster_info_bytes x = cid_clusterIndex x # cid_portType x # cid_stringLength x # cid_clusterName x"

definition info_bytes :: "info_type \<Rightarrow> u8 list" where
  "info_bytes i = m_infoType i #
     (if m_infoType i = eIT_PlugType then opt_bytes (\<lambda>x. [ptd_plugType x]) (m_plugType i)
      else if m_infoType i = eIT_PlugName then opt_bytes name_bytes (m_plugName i)
      else if m_infoType i = eIT_NoOfChannels then opt_bytes (\<lambda>x. [pcd_nrOfChannels x]) (m_plugNrOfChns i)
      else if m_infoType i = eIT_ChannelPosition then opt_bytes position_bytes (m_plugChannelPosition i)
      else if m_infoType i = eIT_ChannelName then opt_bytes channel_name_bytes (m_plugChannelName i)
      else if m_infoType i = eIT_PlugInput then
        opt_bytes (\<lambda>x. specific_address_bytes (pid_plugAddress x)) (m_plugInput i)
      else if m_infoType i = eIT_PlugOutput then opt_bytes output_bytes (m_plugOutput i)
      else if m_infoType i = eIT_ClusterInfo then opt_bytes cluster_info_bytes (m_plugClusterInfo i)
      else [])"

definition known_info :: "info_type \<Rightarrow> bool" where
  "known_info i \<longleftrightarrow> m_infoType i \<in> {eIT_PlugType, eIT_PlugName, eIT_NoOfChannels, eIT_ChannelPosition, eIT_ChannelName,
     eIT_PlugInput, eIT_PlugOutput, eIT_ClusterInfo}"

text \<open>
  The data whose counters agree with their lists, and what a receiver holds after reading them. The
  plug name is left out: what is read of it depends on the bytes that follow.
\<close>

definition position_ok :: "plug_channel_position_data \<Rightarrow> bool" where
  "position_ok x \<longleftrightarrow> unat (cpd_nrOfClusters x) = length (cpd_clusterInfos x)
     \<and> list_all (\<lambda>k. unat (cl_nrOfChannels k) = length (cl_channelInfos k)) (cpd_clusterInfos x)"

definition output_ok :: "plug_output_data \<Rightarrow> bool" where
  "output_ok x \<longleftrightarrow> unat (pod_nrOfOutputPlugs x) = length (pod_outputPlugAddresses x)
     \<and> list_all mode_matches (pod_outputPlugAddresses x)"

definition readable_info :: "info_type \<Rightarrow> bool" where
  "readable_info i \<longleftrightarrow>
     m_infoType i = eIT_PlugType \<and> m_plugType i \<noteq> None
   \<or> m_infoType i = eIT_NoOfChannels \<and> m_plugNrOfChns i \<noteq> None
   \<or> m_infoType i = eIT_ChannelPosition \<and> pred_option position_ok (m_plugChannelPosition i) \<and> m_plugChannelPosition i \<noteq> None
   \<or> m_infoType i = eIT_ChannelName \<and> m_plugChannelName i \<noteq> None
     \<and> pred_option (\<lambda>x. unat (cnd_stringLength x) = length (cnd_plugChannelName x)) (m_plugChannelName i)
   \<or> m_infoType i = eIT_PlugInput \<and> m_plugInput i \<noteq> None \<and> pred_option (\<lambda>x. mode_matches (pid_plugAddress x)) (m_plugInput i)
   \<or> m_infoType i = eIT_PlugOutput \<and> m_plugOutput i \<noteq> None \<and> pred_option output_ok (m_plugOutput i)
   \<or> m_infoType i = eIT_ClusterInfo \<and> m_plugClusterInfo i \<noteq> None
     \<and> pred_option (\<lambda>x. unat (cid_stringLength x) = length (cid_clusterName x)) (m_plugClusterInfo i)"

definition name_read :: "u8 list \<Rightarrow> u8 list" where
  "name_read cs = c_string (map (\<lambda>c. if c = 0x26 then 0x2b else c) cs)"

definition output_into :: "plug_output_data option \<Rightarrow> plug_output_data \<Rightarrow> plug_output_data" where
  "output_into x0 x = x\<lparr>pod_outputPlugAddresses :=
     (case x0 of None \<Rightarrow> [] | Some y \<Rightarrow> pod_outputPlugAddresses y) @ pod_outputPlugAddresses x\<rparr>"

definition info_into :: "info_type \<Rightarrow> info_type \<Rightarrow> info_type" where
  "info_into i0 i =
     (let i1 = i0\<lparr>m_infoType := m_infoType i\<rparr>
      in if m_infoType i = eIT_PlugType then i1\<lparr>m_plugType := m_plugType i\<rparr>
         else if m_infoType i = eIT_NoOfChannels then i1\<lparr>m_plugNrOfChns := m_plugNrOfChns i\<rparr>
         else if m_infoType i = eIT_ChannelPosition then i1\<lparr>m_plugChannelPosition := m_plugChannelPosition i\<rparr>
         else if m_infoType i = eIT_ChannelName then
           i1\<lparr>m_plugChannelName := map_option (\<lambda>x. x\<lparr>cnd_plugChannelName := name_read (cnd_plugChannelName x)\<rparr>) (m_plugChannelName i)\<rparr>
         else if m_infoType i = eIT_PlugInput then i1\<lparr>m_plugInput := m_plugInput i\<rparr>
         else if m_infoType i = eIT_PlugOutput then
           i1\<lparr>m_plugOutput := map_option (output_into (m_plugOutput i0)) (m_plugOutput i)\<rparr>
         else if m_infoType i = eIT_ClusterInfo then
           i1\<lparr>m_plugClusterInfo := map_option (\<lambda>x. x\<lparr>cid_clusterName := name_read (cid_clusterName x)\<rparr>) (m_plugClusterInfo i)\<rparr>
         else i1)"

definition ExtendedPlugInfoCmd_wire :: "ext_plug_info_cmd \<Rightarrow> u8 list" where
  "ExtendedPlugInfoCmd_wire c =
     avc_header c @ epi_subFunction c # plug_address_bytes (epi_plugAddress c) @ info_bytes (epi_infoType c)"

definition ExtendedPlugInfoCmd_good :: "ext_plug_info_cmd \<Rightarrow> bool" where
  "ExtendedPlugInfoCmd_good c \<longleftrightarrow> known_info (epi_infoType c) \<and> length (ExtendedPlugInfoCmd_wire c) \<le> 512"

definition ExtendedPlugInfoCmd_reply :: "ext_plug_info_cmd \<Rightarrow> ext_plug_info_cmd \<Rightarrow> ext_plug_info_cmd" where
  "ExtendedPlugInfoCmd_reply c0 c =
     (with_header c0 c)\<lparr>epi_subFunction := epi_subFunction c,
       epi_plugAddress := address_into (epi_plugAddress c0) (epi_plugAddress c),
       epi_infoType := info_into (epi_infoType c0) (epi_infoType c)\<rparr>"

lemma c_string_end [simp]: "c_string (map f cs @ [0]) = c_string (map f cs)"
  by (simp add: c_string_def takeWhile_tail)

lemma strlen_le: "strlen s \<le> length s"
  by (simp add: strlen_def c_string_def length_takeWhile_le)

lemma opt_bytes_Nil: "(\<And>y. f y \<noteq> []) \<Longrightarrow> opt_bytes f x = [] \<longleftrightarrow> x = None"
  by (cases x) simp_all

lemma copy_null:
  "ExtendedPlugInfoInfoType_copy i = None \<longleftrightarrow> known_info i \<and> info_bytes i = [m_infoType i]"
  by (simp add: ExtendedPlugInfoInfoType_copy_def known_info_def info_bytes_def Let_def ExtendedPlugInfoInfoType_new_def
      name_bytes_def position_bytes_def channel_name_bytes_def specific_address_bytes_def output_bytes_def
      cluster_info_bytes_def opt_bytes_Nil)

context byte_sink
begin

lemma emits_bytes: "emits fits put (write_bytes se bs) () bs"
  by (induction bs) (simp_all add: emits_return emits_byte_bind)

lemma emits_name: "emits fits put (ExtendedPlugInfoPlugNameSpecificData_serialize se x) True (name_bytes x)"
proof -
  have "emits fits put (State_Monad.bind (write_bytes se bs) (\<lambda>_. State_Monad.return True)) True bs" for bs
    by (rule emits_bind_return [OF emits_bytes]) simp
  then show ?thesis
    by (auto simp: ExtendedPlugInfoPlugNameSpecificData_serialize_def name_bytes_def Let_def unat_of_nat
        intro!: emits_byte_bind)
qed

lemma emits_channels: "emits fits put (write_channel_infos se is) () (concat (map channel_bytes is))"
  by (induction "is") (simp_all add: emits_return channel_bytes_def emits_byte_bind)

lemma emits_clusters: "emits fits put (write_cluster_infos se ks) () (concat (map cluster_bytes ks))"
proof (induction ks)
  case (Cons k ks)
  then show ?case by (auto simp: cluster_bytes_def intro!: emits_byte_bind emits_bind [OF emits_channels])
qed (simp add: emits_return)

lemma emits_addresses: "emits fits put (write_plug_addresses se as) () (concat (map specific_address_bytes as))"
proof (induction as)
  case (Cons a as)
  then show ?case by (auto intro!: emits_bind [OF emits_specific_address])
qed (simp add: emits_return)

lemma emits_info_data:
  "emits fits put (ExtendedPlugInfoPlugTypeSpecificData_serialize se t) True [ptd_plugType t]"
  "emits fits put (ExtendedPlugInfoPlugNumberOfChannelsSpecificData_serialize se n) True [pcd_nrOfChannels n]"
  "emits fits put (ExtendedPlugInfoPlugChannelPositionSpecificData_serialize se p) True (position_bytes p)"
  "emits fits put (ExtendedPlugInfoPlugChannelNameSpecificData_serialize se c) True (channel_name_bytes c)"
  "emits fits put (ExtendedPlugInfoPlugInputSpecificData_serialize se i) True (specific_address_bytes (pid_plugAddress i))"
  "emits fits put (ExtendedPlugInfoPlugOutputSpecificData_serialize se u) True (output_bytes u)"
  "emits fits put (ExtendedPlugInfoClusterInfoSpecificData_serialize se k) True (cluster_info_bytes k)"
proof -
  show "emits fits put (ExtendedPlugInfoPlugInputSpecificData_serialize se i) True (specific_address_bytes (pid_plugAddress i))"
    by (simp add: ExtendedPlugInfoPlugInputSpecificData_serialize_def emits_specific_address)
qed (auto simp: ExtendedPlugInfoPlugTypeSpecificData_serialize_def
    ExtendedPlugInfoPlugNumberOfChannelsSpecificData_serialize_def
    ExtendedPlugInfoPlugChannelPositionSpecificData_serialize_def position_bytes_def
    ExtendedPlugInfoPlugChannelNameSpecificData_serialize_def channel_name_bytes_def
    ExtendedPlugInfoPlugOutputSpecificData_serialize_def output_bytes_def
    ExtendedPlugInfoClusterInfoSpecificData_serialize_def cluster_info_bytes_def
    intro!: emits_intros emits_bind_return [OF emits_clusters] emits_bind_return [OF emits_bytes]
      emits_bind_return [OF emits_addresses])

lemma emits_if_present:
  "(\<And>x. emits fits put (ser x) True (f x)) \<Longrightarrow> emits fits put (if_present ser o') True (opt_bytes f o')"
  by (cases o') (auto intro: emits_return emits_bind_return)

lemma emits_info:
  assumes "known_info i"
  shows "emits fits put (ExtendedPlugInfoInfoType_serialize se i) True (info_bytes i)"
  using assms unfolding ExtendedPlugInfoInfoType_serialize_def info_bytes_def known_info_def
  by (auto intro!: emits_byte_bind emits_if_present emits_info_data emits_name)

lemma emits_ext_plug_info:
  assumes "ExtendedPlugInfoCmd_good c"
  shows "emits fits put (ExtendedPlugInfoCmd_serialize se c) True (ExtendedPlugInfoCmd_wire c)"
  using assms emits_info [of "epi_infoType c"]
  unfolding ExtendedPlugInfoCmd_serialize_def ExtendedPlugInfoCmd_wire_def ExtendedPlugInfoCmd_good_def
  by (intro emits_header_bind emits_byte_bind emits_bind [OF emits_plug_address] emits_bind_return) simp_all

end

context byte_source
begin

lemma takes_channels:
  "takes invar rest adv (read_channel_infos ini de (length is)) is (concat (map channel_bytes is))"
proof (induction "is")
  case (Cons i "is")
  then show ?case
    by (auto simp: channel_bytes_def intro!: takes_byte_bind takes_bind_return arg_cong [where f = State_Monad.return])
qed (simp add: takes_return)

lemma takes_clusters:
  "list_all (\<lambda>k. unat (cl_nrOfChannels k) = length (cl_channelInfos k)) ks \<Longrightarrow>
   takes invar rest adv (read_cluster_infos ini de (length ks)) ks (concat (map cluster_bytes ks))"
proof (induction ks)
  case (Cons k ks)
  have ch: "takes invar rest adv (read_channel_infos ini de (length (cl_channelInfos k))) (cl_channelInfos k)
      (concat (map channel_bytes (cl_channelInfos k)))"
    by (rule takes_channels)
  have ks: "takes invar rest adv (read_cluster_infos ini de (length ks)) ks (concat (map cluster_bytes ks))"
    using Cons by simp
  have k: "unat (cl_nrOfChannels k) = length (cl_channelInfos k)" using Cons.prems by simp
  have "cluster_bytes k = cl_nrOfChannels k # concat (map channel_bytes (cl_channelInfos k))"
    by (simp add: cluster_bytes_def)
  then show ?case
    by (auto simp: k intro!: takes_byte_bind takes_bind [OF ch] takes_bind_return [OF ks] arg_cong [where f = State_Monad.return])
qed (simp add: takes_return)

lemma takes_name:
  "takes invar rest adv (read_name ini de (length cs)) (map (\<lambda>c. if c = 0x26 then 0x2b else c) cs) cs"
proof (induction cs)
  case (Cons c cs)
  then show ?case by (auto simp: Let_def intro!: takes_byte_bind takes_bind_return)
qed (simp add: takes_return)

lemma takes_addresses:
  "list_all mode_matches as \<Longrightarrow>
   takes invar rest adv (read_plug_addresses de (length as) bs) (True, bs @ as) (concat (map specific_address_bytes as))"
proof (induction as arbitrary: bs)
  case (Cons a as)
  then have "list_all mode_matches as" by simp
  note as = Cons.IH [OF this, of "bs @ [a]"]
  have "takes invar rest adv (read_plug_addresses de (length as) (bs @ [a])) (True, bs @ a # as)
      (concat (map specific_address_bytes as))"
    using as by (simp only: append.assoc append_Cons append_Nil)
  with Cons.prems show ?case
    by (auto intro!: takes_bind [OF takes_specific_address])
qed (simp add: takes_return)

lemma takes_info_data:
  "takes invar rest adv (ExtendedPlugInfoPlugTypeSpecificData_deserialize de t0) (True, t) [ptd_plugType t]"
  "takes invar rest adv (ExtendedPlugInfoPlugNumberOfChannelsSpecificData_deserialize de n0) (True, n) [pcd_nrOfChannels n]"
  "mode_matches (pid_plugAddress i) \<Longrightarrow>
   takes invar rest adv (ExtendedPlugInfoPlugInputSpecificData_deserialize de i0) (True, i) (specific_address_bytes (pid_plugAddress i))"
  by (auto simp: ExtendedPlugInfoPlugTypeSpecificData_deserialize_def
      ExtendedPlugInfoPlugNumberOfChannelsSpecificData_deserialize_def
      ExtendedPlugInfoPlugInputSpecificData_deserialize_def
      intro!: takes_byte_bind takes_return_eq takes_bind_return [OF takes_specific_address]
        arg_cong [where f = State_Monad.return])

lemma takes_position:
  assumes "position_ok p"
  shows "takes invar rest adv (ExtendedPlugInfoPlugChannelPositionSpecificData_deserialize ini de p0) (True, p) (position_bytes p)"
  using assms takes_clusters [of "cpd_clusterInfos p" "ini_byte ini"]
  by (auto simp: ExtendedPlugInfoPlugChannelPositionSpecificData_deserialize_def position_bytes_def position_ok_def Let_def
      intro!: takes_byte_bind takes_bind_return arg_cong [where f = State_Monad.return])

lemma takes_channel_name:
  assumes "unat (cnd_stringLength x) = length (cnd_plugChannelName x)"
  shows "takes invar rest adv (ExtendedPlugInfoPlugChannelNameSpecificData_deserialize ini de x0)
    (True, x\<lparr>cnd_plugChannelName := name_read (cnd_plugChannelName x)\<rparr>) (channel_name_bytes x)"
  using assms takes_name [of "ini_byte ini" "cnd_plugChannelName x"]
  by (auto simp: ExtendedPlugInfoPlugChannelNameSpecificData_deserialize_def channel_name_bytes_def name_read_def Let_def
      intro!: takes_byte_bind takes_bind_return arg_cong [where f = State_Monad.return])

lemma takes_cluster_info:
  assumes "unat (cid_stringLength x) = length (cid_clusterName x)"
  shows "takes invar rest adv (ExtendedPlugInfoClusterInfoSpecificData_deserialize ini de x0)
    (True, x\<lparr>cid_clusterName := name_read (cid_clusterName x)\<rparr>) (cluster_info_bytes x)"
  using assms takes_name [of "ini_byte ini" "cid_clusterName x"]
  by (auto simp: ExtendedPlugInfoClusterInfoSpecificData_deserialize_def cluster_info_bytes_def name_read_def Let_def
      intro!: takes_byte_bind takes_bind_return arg_cong [where f = State_Monad.return])

lemma takes_output:
  assumes "output_ok x"
  shows "takes invar rest adv (ExtendedPlugInfoPlugOutputSpecificData_deserialize de
      (or_new ExtendedPlugInfoPlugOutputSpecificData_new x0)) (True, output_into x0 x) (output_bytes x)"
proof -
  let ?y = "or_new ExtendedPlugInfoPlugOutputSpecificData_new x0"
  have "output_into x0 x = x\<lparr>pod_outputPlugAddresses := pod_outputPlugAddresses ?y @ pod_outputPlugAddresses x\<rparr>"
    by (cases x0) (simp_all add: output_into_def ExtendedPlugInfoPlugOutputSpecificData_new_def)
  then show ?thesis
    using assms takes_addresses [of "pod_outputPlugAddresses x" "pod_outputPlugAddresses ?y"]
    by (auto simp: ExtendedPlugInfoPlugOutputSpecificData_deserialize_def output_bytes_def output_ok_def
        intro!: takes_byte_bind takes_bind_return arg_cong [where f = State_Monad.return])
qed

lemma takes_info:
  assumes "readable_info i"
  shows "takes invar rest adv (ExtendedPlugInfoInfoType_deserialize ini de i0) (True, info_into i0 i) (info_bytes i)"
  using assms unfolding ExtendedPlugInfoInfoType_deserialize_def info_bytes_def
  by (auto simp: readable_info_def info_into_def consts_defs
      intro!: takes_byte_bind takes_bind_return takes_info_data takes_position takes_channel_name takes_cluster_info
        takes_output)

lemma takes_ext_plug_info:
  assumes "readable_info (epi_infoType c)"
  shows "takes invar rest adv (ExtendedPlugInfoCmd_deserialize ini de c0) (True, ExtendedPlugInfoCmd_reply c0 c) (ExtendedPlugInfoCmd_wire c)"
  by (auto simp: ExtendedPlugInfoCmd_deserialize_def ExtendedPlugInfoCmd_wire_def ExtendedPlugInfoCmd_reply_def with_header_def
      intro!: takes_header_bind takes_byte_bind takes_bind [OF takes_plug_address] takes_bind_return [OF takes_info [OF assms]])

end

interpretation ext_plug_info: avc_codec
  "ExtendedPlugInfoCmd_serialize (buffer_serializer be)" "ExtendedPlugInfoCmd_deserialize ini (buffer_deserializer be)"
  ExtendedPlugInfoCmd_wire ExtendedPlugInfoCmd_good "\<lambda>c0 c. readable_info (epi_infoType c)" ExtendedPlugInfoCmd_reply
  for be ini
  by unfold_locales
    (simp_all add: bser.emits_ext_plug_info takes_reads [OF bdes.takes_ext_plug_info] ExtendedPlugInfoCmd_good_def)

section \<open>Properties\<close>



text \<open>
  A plug name that is read is not cut at its length: the name is the characters that were sent,
  followed by all the bytes after them up to the first NUL, beyond the frame if there is none in it. So it
  is the sent name exactly if the byte after it is NUL.
\<close>

theorem plug_name_reads_on:
  assumes d: "bd_invar d" "bd_rest d = of_nat (length cs) # cs @ tail" and cs: "0 < length cs" "length cs < 256" "0 \<notin> set cs"
  shows "\<exists>d'. run_state (ExtendedPlugInfoPlugNameSpecificData_deserialize ini (buffer_deserializer be) x) d
       = ((True, \<lparr>pnd_name = cs @ c_string (tail @ beyond ini)\<rparr>), d') \<and> bd_rest d' = tail
     \<and> (cs @ c_string (tail @ beyond ini) = cs \<longleftrightarrow> tail @ beyond ini = [] \<or> hd (tail @ beyond ini) = 0)"
proof -
  let ?n = "of_nat (length cs) :: u8"
  let ?d = "bd_advance 1 d"
  have one: "run_state (read_byte (buffer_deserializer be) (ini_byte ini)) d = ((True, ?n), ?d)"
    using d by (rule bdes.read_byte_next)
  have rest: "bd_invar ?d" "bd_rest ?d = cs @ tail"
    using d bd_advance_rest [of d 1] by simp_all
  have len: "(ucast ?n :: u64) = of_nat (length cs)"
    using cs(2) by (simp add: word_unat_eq_iff unat_of_nat_small unsigned_ucast_eq unsigned_of_nat take_bit_nat_eq_self)
  have two: "run_state (read_chars (buffer_deserializer be) (ini_chars ini) (of_nat (length cs))) ?d
      = ((True, cs @ tail), bd_advance (length cs) ?d)"
    using bdes.read_chars_next [OF rest(1), of "length cs" be "ini_chars ini"] rest(2) cs by simp
  have str: "c_string ((cs @ tail) @ beyond ini) = cs @ c_string (tail @ beyond ini)"
    using cs(3) by (induction cs) (auto simp: c_string_def)
  have "bd_rest (bd_advance (length cs) ?d) = tail"
    using bd_advance_rest(2) [OF rest(1), of "length cs"] rest(2) by simp
  moreover have "c_string t = [] \<longleftrightarrow> t = [] \<or> hd t = 0" for t by (cases t) (simp_all add: c_string_def)
  ultimately show ?thesis
    using one two str len by (simp add: ExtendedPlugInfoPlugNameSpecificData_deserialize_def)
qed

theorem plug_name_reads_on_witness:
  "\<exists>d'. run_state (ExtendedPlugInfoPlugNameSpecificData_deserialize \<lparr>ini_byte = 0, ini_chars = [], beyond = [7, 0]\<rparr>
       (buffer_deserializer False) \<lparr>pnd_name = []\<rparr>) (BufferDeserialize [2, 65, 66, 67] 4)
     = ((True, \<lparr>pnd_name = [65, 66, 67, 7]\<rparr>), d')"
proof -
  have d: "bd_invar (BufferDeserialize [2, 65, 66, 67] 4)" "bd_rest (BufferDeserialize [2, 65, 66, 67] 4) = of_nat (length [65, 66 :: u8]) # [65, 66] @ [67]"
    by (simp_all add: bd_invar_def bd_rest_def BufferDeserialize_def)
  show ?thesis
    using plug_name_reads_on [OF d, of "\<lparr>ini_byte = 0, ini_chars = [], beyond = [7, 0]\<rparr>" False "\<lparr>pnd_name = []\<rparr>"]
    by (auto simp: c_string_def)
qed

text \<open>
  Copies of an info type: the copy constructor follows a null pointer exactly if the info type is
  known and its data object is missing; otherwise the copy is serialized to the same bytes. \<^verbatim>\<open>clone\<close>
  initialises the copy again, so that \<^verbatim>\<open>setInfoType\<close> puts an info type with fresh default data into
  the command, whatever data it was given.
\<close>

theorem clone_resets_info_type:
  "(ExtendedPlugInfoInfoType_copy i = None \<longleftrightarrow> known_info i \<and> info_bytes i = [m_infoType i])
   \<and> (ExtendedPlugInfoInfoType_clone i = None \<longleftrightarrow> ExtendedPlugInfoInfoType_copy i = None)
   \<and> (case ExtendedPlugInfoInfoType_copy i of None \<Rightarrow> True | Some k \<Rightarrow> info_bytes k = info_bytes i
        \<and> ExtendedPlugInfoCmd_setInfoType i c
          = Some (True, c\<lparr>epi_infoType := snd (ExtendedPlugInfoInfoType_initialize (ExtendedPlugInfoInfoType_new (m_infoType i)))\<rparr>))"
proof -
  have none: "ExtendedPlugInfoInfoType_copy i = None \<longleftrightarrow> known_info i \<and> info_bytes i = [m_infoType i]"
    by (rule copy_null)
  have "info_bytes k = info_bytes i \<and> snd (ExtendedPlugInfoInfoType_initialize k)
      = snd (ExtendedPlugInfoInfoType_initialize (ExtendedPlugInfoInfoType_new (m_infoType i)))"
    if "ExtendedPlugInfoInfoType_copy i = Some k" for k
    using that
    by (auto simp: ExtendedPlugInfoInfoType_copy_def Let_def ExtendedPlugInfoInfoType_new_def info_bytes_def
        ExtendedPlugInfoInfoType_initialize_def consts_defs split: if_splits)
  then show ?thesis
    using none by (auto simp: ExtendedPlugInfoInfoType_clone_def ExtendedPlugInfoCmd_setInfoType_def split: option.splits)
qed

text \<open>
  Names for debug output: the table of plug types is read beyond its end for the 50 types from 7 to
  56, that of port types for 11, that of info types for 8 and that of plug directions for every
  direction but input and output; address modes never read beyond theirs, but an undefined mode is named
  as function block.
\<close>

theorem plug_names_out_of_bounds:
  "(extendedPlugInfoPlugTypeToString t = None \<longleftrightarrow> 7 \<le> unat t \<and> unat t \<le> 56)
   \<and> (extendedPlugInfoClusterInfoPortTypeToString t = None \<longleftrightarrow> t = 11)
   \<and> (extendedPlugInfoInfoTypeToString t = None \<longleftrightarrow> t = 8)
   \<and> (plugAddressPlugDirectionToString t = None \<longleftrightarrow> t \<notin> {ePD_Input, ePD_Output})
   \<and> plugAddressAddressModeToString t \<noteq> None \<and> plugAddressAddressModeToString ePAM_Undefined = Some ''FunctionBlock''"
proof -
  have "extendedPlugInfoPlugTypeToString t = None \<longleftrightarrow> 7 \<le> unat t \<and> unat t \<le> 56"
    by (auto simp: extendedPlugInfoPlugTypeToString_def extendedPlugInfoPlugTypeStrings_def table_at_def)
  moreover have "extendedPlugInfoClusterInfoPortTypeToString t = None \<longleftrightarrow> unat t = 11"
    by (auto simp: extendedPlugInfoClusterInfoPortTypeToString_def extendedPlugInfoPortTypeStrings_def table_at_def)
  moreover have "extendedPlugInfoInfoTypeToString t = None \<longleftrightarrow> unat t = 8"
    by (auto simp: extendedPlugInfoInfoTypeToString_def extendedPlugInfoInfoTypeStrings_def table_at_def)
  moreover have "plugAddressPlugDirectionToString t = None \<longleftrightarrow> 1 < unat t"
    by (auto simp: plugAddressPlugDirectionToString_def plugAddressDirectionStrings_def table_at_def consts_defs
        word_less_nat_alt)
  moreover have "1 < unat t \<longleftrightarrow> t \<notin> {ePD_Input, ePD_Output}"
    by (auto simp: consts_defs word_unat_eq_iff)
  moreover have "plugAddressAddressModeToString t \<noteq> None" "plugAddressAddressModeToString ePAM_Undefined = Some ''FunctionBlock''"
    by (auto simp: plugAddressAddressModeToString_def plugAddressAddressModeStrings_def table_at_def consts_defs
        word_less_nat_alt)
  moreover have "unat t = 11 \<longleftrightarrow> t = 11" "unat t = 8 \<longleftrightarrow> t = 8" by (simp_all add: word_unat_eq_iff)
  ultimately show ?thesis by simp
qed

end
