(* ===== verification/AvcStreamFormat.thy ===== *)
theory AvcStreamFormat
  imports AvcPlugAddress
begin

text \<open>
  The extended stream format command (\<^verbatim>\<open>libavc/streamformat/avc_extended_stream_format.cpp\<close>). The
  classes derived from \<^verbatim>\<open>FormatInformationStreams\<close> are the constructors of a datatype, a pointer to one
  is an \<open>option\<close>. The stream format infos of a compound stream, a vector of pointers to objects that
  only their owner changes, are a list of values. \<open>ini\<close> is the value of an uninitialised byte.
\<close>

unbundle bit_operations_syntax

section \<open>Constants\<close>

definition eRC_Supported :: u8 where [consts_defs]: "eRC_Supported = 0x00"
definition eRC_DontCare :: u8 where [consts_defs]: "eRC_DontCare = 0x01"
definition eFHR_DVCR :: u8 where [consts_defs]: "eFHR_DVCR = 0x80"
definition eFHR_AudioMusic :: u8 where [consts_defs]: "eFHR_AudioMusic = 0x90"
definition eFHR_Invalid :: u8 where [consts_defs]: "eFHR_Invalid = 0xff"
definition eFHL1_AUDIOMUSIC_AM824 :: u8 where [consts_defs]: "eFHL1_AUDIOMUSIC_AM824 = 0x00"
definition eFHL1_AUDIOMUSIC_AM824_COMPOUND :: u8 where [consts_defs]: "eFHL1_AUDIOMUSIC_AM824_COMPOUND = 0x40"
definition eFHL1_AUDIOMUSIC_DONT_CARE :: u8 where [consts_defs]: "eFHL1_AUDIOMUSIC_DONT_CARE = 0xff"
definition eFHL2_AM824_SYNC_STREAM :: u8 where [consts_defs]: "eFHL2_AM824_SYNC_STREAM = 0x40"
definition eFHL2_AM824_DONT_CARE :: u8 where [consts_defs]: "eFHL2_AM824_DONT_CARE = 0xff"
definition eSF_ExtendedStreamFormatInformationCommand :: u8 where
  [consts_defs]: "eSF_ExtendedStreamFormatInformationCommand = 0xC0"
definition eSF_ExtendedStreamFormatInformationCommandList :: u8 where
  [consts_defs]: "eSF_ExtendedStreamFormatInformationCommandList = 0xC1"
definition eS_NotUsed :: u8 where [consts_defs]: "eS_NotUsed = 0xff"

section \<open>Stream formats\<close>

record stream_format_info =
  sfi_numberOfChannels :: u8
  sfi_streamFormat :: u8

definition StreamFormatInfo_new :: "u8 \<Rightarrow> stream_format_info" where
  "StreamFormatInfo_new ini = \<lparr>sfi_numberOfChannels = ini, sfi_streamFormat = ini\<rparr>"

definition StreamFormatInfo_serialize :: "'s oss \<Rightarrow> stream_format_info \<Rightarrow> ('s, bool) state" where
  "StreamFormatInfo_serialize se x =
     do { write_byte se (sfi_numberOfChannels x);
          write_byte se (sfi_streamFormat x);
          State_Monad.return True }"

definition StreamFormatInfo_deserialize :: "'d iis \<Rightarrow> stream_format_info \<Rightarrow> ('d, bool \<times> stream_format_info) state" where
  "StreamFormatInfo_deserialize de x =
     do { (_, v) \<leftarrow> read_byte de (sfi_numberOfChannels x);
          let x = x\<lparr>sfi_numberOfChannels := v\<rparr>;
          (_, v) \<leftarrow> read_byte de (sfi_streamFormat x);
          State_Monad.return (True, x\<lparr>sfi_streamFormat := v\<rparr>) }"

section \<open>Sync streams\<close>

record streams_sync =
  fss_reserved0 :: u8
  fss_samplingFrequency :: u8
  fss_rateControl :: u8
  fss_reserved1 :: u8

definition FormatInformationStreamsSync_new :: streams_sync where
  "FormatInformationStreamsSync_new =
     \<lparr>fss_reserved0 = 0xff, fss_samplingFrequency = code_of_frequency eSF_DontCare, fss_rateControl = eRC_DontCare,
      fss_reserved1 = 0xff\<rparr>"

definition FormatInformationStreamsSync_serialize :: "'s oss \<Rightarrow> streams_sync \<Rightarrow> ('s, bool) state" where
  "FormatInformationStreamsSync_serialize se x =
     do { write_byte se (fss_reserved0 x);
          let operand = push_bit 4 (fss_samplingFrequency x) OR 0x0e;
          let operand = (if fss_rateControl x = eRC_DontCare then operand OR 0x1 else operand);
          write_byte se operand;
          write_byte se (fss_reserved1 x);
          State_Monad.return True }"

definition FormatInformationStreamsSync_deserialize ::
  "u8 \<Rightarrow> 'd iis \<Rightarrow> streams_sync \<Rightarrow> ('d, bool \<times> streams_sync) state" where
  "FormatInformationStreamsSync_deserialize ini de x =
     do { (_, v) \<leftarrow> read_byte de (fss_reserved0 x);
          let x = x\<lparr>fss_reserved0 := v\<rparr>;
          (_, operand) \<leftarrow> read_byte de ini;
          let x = x\<lparr>fss_samplingFrequency := drop_bit 4 operand\<rparr>;
          let x = x\<lparr>fss_rateControl := operand AND 0x01\<rparr>;
          (_, v) \<leftarrow> read_byte de (fss_reserved1 x);
          State_Monad.return (True, x\<lparr>fss_reserved1 := v\<rparr>) }"

section \<open>Compound streams\<close>

record streams_compound =
  fsc_samplingFrequency :: u8
  fsc_rateControl :: u8
  fsc_numberOfStreamFormatInfos :: u8
  fsc_streamFormatInfos :: "stream_format_info list"

definition FormatInformationStreamsCompound_new :: streams_compound where
  "FormatInformationStreamsCompound_new =
     \<lparr>fsc_samplingFrequency = code_of_frequency eSF_DontCare, fsc_rateControl = eRC_DontCare,
      fsc_numberOfStreamFormatInfos = 0, fsc_streamFormatInfos = []\<rparr>"

fun write_format_infos :: "'s oss \<Rightarrow> stream_format_info list \<Rightarrow> ('s, unit) state" where
  "write_format_infos se [] = State_Monad.return ()"
| "write_format_infos se (x # xs) =
     do { StreamFormatInfo_serialize se x;
          write_format_infos se xs }"

definition FormatInformationStreamsCompound_serialize :: "'s oss \<Rightarrow> streams_compound \<Rightarrow> ('s, bool) state" where
  "FormatInformationStreamsCompound_serialize se x =
     do { write_byte se (fsc_samplingFrequency x);
          write_byte se (fsc_rateControl x);
          write_byte se (fsc_numberOfStreamFormatInfos x);
          write_format_infos se (fsc_streamFormatInfos x);
          State_Monad.return True }"

fun read_format_infos ::
  "u8 \<Rightarrow> 'd iis \<Rightarrow> nat \<Rightarrow> stream_format_info list \<Rightarrow> ('d, bool \<times> stream_format_info list) state" where
  "read_format_infos ini de 0 xs = State_Monad.return (True, xs)"
| "read_format_infos ini de (Suc n) xs =
     do { (r, x) \<leftarrow> StreamFormatInfo_deserialize de (StreamFormatInfo_new ini);
          if \<not> r then State_Monad.return (False, xs)
          else read_format_infos ini de n (xs @ [x]) }"

definition FormatInformationStreamsCompound_deserialize ::
  "u8 \<Rightarrow> 'd iis \<Rightarrow> streams_compound \<Rightarrow> ('d, bool \<times> streams_compound) state" where
  "FormatInformationStreamsCompound_deserialize ini de x =
     do { (_, v) \<leftarrow> read_byte de (fsc_samplingFrequency x);
          let x = x\<lparr>fsc_samplingFrequency := v\<rparr>;
          (_, v) \<leftarrow> read_byte de (fsc_rateControl x);
          let x = x\<lparr>fsc_rateControl := v\<rparr>;
          (_, v) \<leftarrow> read_byte de (fsc_numberOfStreamFormatInfos x);
          let x = x\<lparr>fsc_numberOfStreamFormatInfos := v\<rparr>;
          (r, xs) \<leftarrow> read_format_infos ini de (unat (fsc_numberOfStreamFormatInfos x)) (fsc_streamFormatInfos x);
          State_Monad.return (r, x\<lparr>fsc_streamFormatInfos := xs\<rparr>) }"

section \<open>Format information\<close>

datatype format_information_streams =
  FormatInformationStreamsSync streams_sync
| FormatInformationStreamsCompound streams_compound

fun FormatInformationStreams_serialize :: "'s oss \<Rightarrow> format_information_streams \<Rightarrow> ('s, bool) state" where
  "FormatInformationStreams_serialize se (FormatInformationStreamsSync x) = FormatInformationStreamsSync_serialize se x"
| "FormatInformationStreams_serialize se (FormatInformationStreamsCompound x) = FormatInformationStreamsCompound_serialize se x"

record format_information =
  fi_root :: u8
  fi_level1 :: u8
  fi_level2 :: u8
  fi_streams :: "format_information_streams option"

definition FormatInformation_new :: format_information where
  "FormatInformation_new =
     \<lparr>fi_root = eFHR_Invalid, fi_level1 = eFHL1_AUDIOMUSIC_DONT_CARE, fi_level2 = eFHL2_AM824_DONT_CARE,
      fi_streams = None\<rparr>"

definition FormatInformation_serialize :: "'s oss \<Rightarrow> format_information \<Rightarrow> ('s, bool) state" where
  "FormatInformation_serialize se f =
     do { (if fi_root f \<noteq> eFHR_Invalid then
            do { write_byte se (fi_root f);
                 if fi_level1 f \<noteq> eFHL1_AUDIOMUSIC_DONT_CARE then
                   do { write_byte se (fi_level1 f);
                        if fi_level2 f \<noteq> eFHL2_AM824_DONT_CARE then
                          do { write_byte se (fi_level2 f); State_Monad.return () }
                        else State_Monad.return () }
                 else State_Monad.return () }
          else State_Monad.return ());
          (case fi_streams f of
             Some s \<Rightarrow> FormatInformationStreams_serialize se s
           | None \<Rightarrow> State_Monad.return True) }"

definition FormatInformation_deserialize ::
  "u8 \<Rightarrow> 'd iis \<Rightarrow> format_information \<Rightarrow> ('d, bool \<times> format_information) state" where
  "FormatInformation_deserialize ini de f =
     do { let f = f\<lparr>fi_streams := None\<rparr>;
          (_, v) \<leftarrow> read_byte de (fi_root f);
          let f = f\<lparr>fi_root := v\<rparr>;
          if fi_root f = eFHR_AudioMusic then
            do { (_, v) \<leftarrow> read_byte de (fi_level1 f);
                 let f = f\<lparr>fi_level1 := v\<rparr>;
                 if fi_level1 f = eFHL1_AUDIOMUSIC_AM824 then
                   do { (_, v) \<leftarrow> read_byte de (fi_level2 f);
                        let f = f\<lparr>fi_level2 := v\<rparr>;
                        if fi_level2 f = eFHL2_AM824_SYNC_STREAM then
                          do { (result, s) \<leftarrow> FormatInformationStreamsSync_deserialize ini de FormatInformationStreamsSync_new;
                               State_Monad.return (result, f\<lparr>fi_streams := Some (FormatInformationStreamsSync s)\<rparr>) }
                        else State_Monad.return (False, f) }
                 else if fi_level1 f = eFHL1_AUDIOMUSIC_AM824_COMPOUND then
                   do { (result, s) \<leftarrow> FormatInformationStreamsCompound_deserialize ini de FormatInformationStreamsCompound_new;
                        State_Monad.return (result, f\<lparr>fi_streams := Some (FormatInformationStreamsCompound s)\<rparr>) }
                 else State_Monad.return (False, f) }
          else State_Monad.return (False, f) }"

section \<open>The command\<close>

record ext_stream_format_cmd = avc_command +
  esf_subFunction :: u8
  esf_plugAddress :: plug_address
  esf_status :: u8
  esf_indexInStreamFormat :: u8
  esf_formatInformation :: format_information

definition ExtendedStreamFormatCmd_new :: "u8 list \<Rightarrow> u8 \<Rightarrow> u8 \<Rightarrow> ext_stream_format_cmd" where
  "ExtendedStreamFormatCmd_new ini_frame ini_type eSubFunction =
     avc_command.extend (AVCCommand_new ini_frame ini_type 0x2F)
       (ext_stream_format_cmd.fields eSubFunction
         (PlugAddress_unit ePD_Output ePAM_Unit (UnitPlugAddress_new ePT_PCR 0x00))
         eS_NotUsed 0 FormatInformation_new)"

text \<open>The copy constructor sets neither the status nor the index.\<close>

definition ExtendedStreamFormatCmd_copy :: "u8 \<Rightarrow> u8 \<Rightarrow> ext_stream_format_cmd \<Rightarrow> ext_stream_format_cmd" where
  "ExtendedStreamFormatCmd_copy ini_status ini_index rhs =
     rhs\<lparr>esf_status := ini_status, esf_indexInStreamFormat := ini_index\<rparr>"

definition ExtendedStreamFormatCmd_setPlugAddress ::
  "plug_address \<Rightarrow> ext_stream_format_cmd \<Rightarrow> bool \<times> ext_stream_format_cmd" where
  "ExtendedStreamFormatCmd_setPlugAddress plugAddress c = (True, c\<lparr>esf_plugAddress := plugAddress\<rparr>)"

definition setIndexInStreamFormat :: "i32 \<Rightarrow> ext_stream_format_cmd \<Rightarrow> bool \<times> ext_stream_format_cmd" where
  "setIndexInStreamFormat index c = (True, c\<lparr>esf_indexInStreamFormat := ucast index\<rparr>)"

definition ExtendedStreamFormatCmd_serialize :: "'s oss \<Rightarrow> ext_stream_format_cmd \<Rightarrow> ('s, bool) state" where
  "ExtendedStreamFormatCmd_serialize se c =
     do { AVCCommand_serialize se c;
          write_byte se (esf_subFunction c);
          PlugAddress_serialize se (esf_plugAddress c);
          write_byte se (esf_status c);
          (if esf_subFunction c = eSF_ExtendedStreamFormatInformationCommandList
           then write_byte se (esf_indexInStreamFormat c) else State_Monad.return True);
          FormatInformation_serialize se (esf_formatInformation c);
          State_Monad.return True }"

definition ExtendedStreamFormatCmd_deserialize ::
  "u8 \<Rightarrow> 'd iis \<Rightarrow> ext_stream_format_cmd \<Rightarrow> ('d, bool \<times> ext_stream_format_cmd) state" where
  "ExtendedStreamFormatCmd_deserialize ini de c =
     do { (_, c) \<leftarrow> AVCCommand_deserialize de c;
          (_, v) \<leftarrow> read_byte de (esf_subFunction c);
          let c = c\<lparr>esf_subFunction := v\<rparr>;
          (_, a) \<leftarrow> PlugAddress_deserialize de (esf_plugAddress c);
          let c = c\<lparr>esf_plugAddress := a\<rparr>;
          (_, v) \<leftarrow> read_byte de (esf_status c);
          let c = c\<lparr>esf_status := v\<rparr>;
          c \<leftarrow> (if esf_subFunction c = eSF_ExtendedStreamFormatInformationCommandList
               then do { (_, v) \<leftarrow> read_byte de (esf_indexInStreamFormat c);
                         State_Monad.return (c\<lparr>esf_indexInStreamFormat := v\<rparr>) }
               else State_Monad.return c);
          (_, f) \<leftarrow> FormatInformation_deserialize ini de (esf_formatInformation c);
          State_Monad.return (True, c\<lparr>esf_formatInformation := f\<rparr>) }"

definition getStatus :: "ext_stream_format_cmd \<Rightarrow> u8" where
  "getStatus c = esf_status c"

definition getFormatInformation :: "ext_stream_format_cmd \<Rightarrow> format_information" where
  "getFormatInformation c = esf_formatInformation c"

definition getIndex :: "ext_stream_format_cmd \<Rightarrow> u8" where
  "getIndex c = esf_indexInStreamFormat c"

definition ExtendedStreamFormatCmd_setSubFunction :: "u8 \<Rightarrow> ext_stream_format_cmd \<Rightarrow> bool \<times> ext_stream_format_cmd" where
  "ExtendedStreamFormatCmd_setSubFunction subFunction c = (True, c\<lparr>esf_subFunction := subFunction\<rparr>)"

section \<open>Bytes of the formats\<close>

definition sync_operand :: "streams_sync \<Rightarrow> u8" where
  "sync_operand x = push_bit 4 (fss_samplingFrequency x) OR (if fss_rateControl x = eRC_DontCare then 0x0f else 0x0e)"

definition format_info_bytes :: "stream_format_info \<Rightarrow> u8 list" where
  "format_info_bytes x = [sfi_numberOfChannels x, sfi_streamFormat x]"

fun streams_bytes :: "format_information_streams \<Rightarrow> u8 list" where
  "streams_bytes (FormatInformationStreamsSync x) = [fss_reserved0 x, sync_operand x, fss_reserved1 x]"
| "streams_bytes (FormatInformationStreamsCompound x) =
     fsc_samplingFrequency x # fsc_rateControl x # fsc_numberOfStreamFormatInfos x
     # concat (map format_info_bytes (fsc_streamFormatInfos x))"

definition hierarchy_bytes :: "format_information \<Rightarrow> u8 list" where
  "hierarchy_bytes f =
     (if fi_root f = eFHR_Invalid then []
      else fi_root f # (if fi_level1 f = eFHL1_AUDIOMUSIC_DONT_CARE then []
        else fi_level1 f # (if fi_level2 f = eFHL2_AM824_DONT_CARE then [] else [fi_level2 f])))"

definition format_bytes :: "format_information \<Rightarrow> u8 list" where
  "format_bytes f = hierarchy_bytes f @ (case fi_streams f of None \<Rightarrow> [] | Some s \<Rightarrow> streams_bytes s)"

definition ExtendedStreamFormatCmd_wire :: "ext_stream_format_cmd \<Rightarrow> u8 list" where
  "ExtendedStreamFormatCmd_wire c =
     avc_header c @ esf_subFunction c # plug_address_bytes (esf_plugAddress c) @ esf_status c
     # (if esf_subFunction c = eSF_ExtendedStreamFormatInformationCommandList then [esf_indexInStreamFormat c] else [])
     @ format_bytes (esf_formatInformation c)"

text \<open>The formats that the parser knows, and what it makes of them.\<close>

fun streams_ok :: "format_information \<Rightarrow> format_information_streams \<Rightarrow> bool" where
  "streams_ok f (FormatInformationStreamsSync x) \<longleftrightarrow>
     fi_level1 f = eFHL1_AUDIOMUSIC_AM824 \<and> fi_level2 f = eFHL2_AM824_SYNC_STREAM"
| "streams_ok f (FormatInformationStreamsCompound x) \<longleftrightarrow>
     fi_level1 f = eFHL1_AUDIOMUSIC_AM824_COMPOUND \<and> fi_level2 f = eFHL2_AM824_DONT_CARE
     \<and> unat (fsc_numberOfStreamFormatInfos x) = length (fsc_streamFormatInfos x)"

definition readable_format :: "format_information \<Rightarrow> bool" where
  "readable_format f \<longleftrightarrow> fi_root f = eFHR_AudioMusic \<and> (case fi_streams f of None \<Rightarrow> False | Some s \<Rightarrow> streams_ok f s)"

fun streams_read :: "format_information_streams \<Rightarrow> format_information_streams" where
  "streams_read (FormatInformationStreamsSync x) =
     FormatInformationStreamsSync (x\<lparr>fss_samplingFrequency := fss_samplingFrequency x AND 0xf,
       fss_rateControl := (if fss_rateControl x = eRC_DontCare then eRC_DontCare else eRC_Supported)\<rparr>)"
| "streams_read (FormatInformationStreamsCompound x) = FormatInformationStreamsCompound x"

definition format_into :: "format_information \<Rightarrow> format_information \<Rightarrow> format_information" where
  "format_into f0 f =
     \<lparr>fi_root = fi_root f, fi_level1 = fi_level1 f,
      fi_level2 = (if fi_level1 f = eFHL1_AUDIOMUSIC_AM824 then fi_level2 f else fi_level2 f0),
      fi_streams = map_option streams_read (fi_streams f)\<rparr>"

definition ExtendedStreamFormatCmd_reply ::
  "ext_stream_format_cmd \<Rightarrow> ext_stream_format_cmd \<Rightarrow> ext_stream_format_cmd" where
  "ExtendedStreamFormatCmd_reply c0 c =
     (with_header c0 c)\<lparr>esf_subFunction := esf_subFunction c,
       esf_plugAddress := address_into (esf_plugAddress c0) (esf_plugAddress c),
       esf_status := esf_status c,
       esf_indexInStreamFormat := (if esf_subFunction c = eSF_ExtendedStreamFormatInformationCommandList
         then esf_indexInStreamFormat c else esf_indexInStreamFormat c0),
       esf_formatInformation := format_into (esf_formatInformation c0) (esf_formatInformation c)\<rparr>"

lemma sync_unpack:
  "drop_bit 4 (sync_operand x) = fss_samplingFrequency x AND 0xf"
  "sync_operand x AND 0x01 = (if fss_rateControl x = eRC_DontCare then eRC_DontCare else eRC_Supported)"
  by (rule word_eq_bits, simp add: sync_operand_def consts_defs word_bits_simps)+

context byte_sink
begin

lemma emits_format_infos: "emits fits put (write_format_infos se xs) () (concat (map format_info_bytes xs))"
proof (induction xs)
  case (Cons x xs)
  have "emits fits put (StreamFormatInfo_serialize se x) True (format_info_bytes x)"
    unfolding StreamFormatInfo_serialize_def format_info_bytes_def by (intro emits_intros)
  from emits_bind [OF this] Cons show ?case by simp
qed (simp add: emits_return)

lemma emits_streams: "emits fits put (FormatInformationStreams_serialize se s) True (streams_bytes s)"
proof (cases s)
  case (FormatInformationStreamsSync x)
  have "(if fss_rateControl x = eRC_DontCare then (push_bit 4 (fss_samplingFrequency x) OR 0x0e) OR 0x1
      else push_bit 4 (fss_samplingFrequency x) OR 0x0e) = sync_operand x"
    by (auto simp: sync_operand_def or.assoc)
  with FormatInformationStreamsSync show ?thesis
    by (auto simp: FormatInformationStreamsSync_serialize_def Let_def simp del: if_split intro!: emits_intros)
qed (auto simp: FormatInformationStreamsCompound_serialize_def
    intro!: emits_byte_bind emits_bind_return [OF emits_format_infos])

lemma emits_format: "emits fits put (FormatInformation_serialize se f) True (format_bytes f)"
proof -
  have "emits fits put (case fi_streams f of Some s \<Rightarrow> FormatInformationStreams_serialize se s | None \<Rightarrow> State_Monad.return True)
      True (case fi_streams f of None \<Rightarrow> [] | Some s \<Rightarrow> streams_bytes s)"
    by (cases "fi_streams f") (simp_all add: emits_return emits_streams)
  moreover have "emits fits put (if fi_root f \<noteq> eFHR_Invalid then
      do { write_byte se (fi_root f);
           if fi_level1 f \<noteq> eFHL1_AUDIOMUSIC_DONT_CARE then
             do { write_byte se (fi_level1 f);
                  if fi_level2 f \<noteq> eFHL2_AM824_DONT_CARE then
                    do { write_byte se (fi_level2 f); State_Monad.return () }
                  else State_Monad.return () }
           else State_Monad.return () }
    else State_Monad.return ()) () (hierarchy_bytes f)"
    by (auto simp: hierarchy_bytes_def intro!: emits_intros)
  ultimately show ?thesis
    unfolding FormatInformation_serialize_def format_bytes_def by (intro emits_bind)
qed

lemma emits_ext_stream_format:
  "emits fits put (ExtendedStreamFormatCmd_serialize se c) True (ExtendedStreamFormatCmd_wire c)"
proof -
  have index: "emits fits put (if l then write_byte se x else State_Monad.return True) True (if l then [x] else [])" for l x
    by (simp add: emits_byte emits_return)
  show ?thesis
    unfolding ExtendedStreamFormatCmd_serialize_def ExtendedStreamFormatCmd_wire_def
    by (intro emits_header_bind emits_byte_bind emits_bind [OF emits_plug_address] emits_bind [OF index]
        emits_bind_return [OF emits_format] refl)
qed

end

context byte_source
begin

lemma takes_format_infos:
  "takes invar rest adv (read_format_infos ini de (length xs) ys) (True, ys @ xs) (concat (map format_info_bytes xs))"
proof (induction xs arbitrary: ys)
  case (Cons x xs)
  have "takes invar rest adv (StreamFormatInfo_deserialize de x0) (True, x) (format_info_bytes x)" for x0
    by (auto simp: StreamFormatInfo_deserialize_def format_info_bytes_def intro!: takes_byte_bind takes_return_eq)
  note x = takes_bind [OF this]
  have "takes invar rest adv (read_format_infos ini de (length xs) (ys @ [x])) (True, ys @ x # xs)
      (concat (map format_info_bytes xs))"
    using Cons.IH [of "ys @ [x]"] by (simp only: append.assoc append_Cons append_Nil)
  then show ?case by (auto intro!: x)
qed (simp add: takes_return)

lemma takes_sync:
  "takes invar rest adv (FormatInformationStreamsSync_deserialize ini de x0)
     (True, x\<lparr>fss_samplingFrequency := fss_samplingFrequency x AND 0xf,
       fss_rateControl := (if fss_rateControl x = eRC_DontCare then eRC_DontCare else eRC_Supported)\<rparr>)
     [fss_reserved0 x, sync_operand x, fss_reserved1 x]"
  unfolding sync_unpack [symmetric]
  by (auto simp: FormatInformationStreamsSync_deserialize_def Let_def intro!: takes_byte_bind takes_return_eq)

lemma takes_compound:
  assumes "unat (fsc_numberOfStreamFormatInfos x) = length (fsc_streamFormatInfos x)"
  shows "takes invar rest adv (FormatInformationStreamsCompound_deserialize ini de FormatInformationStreamsCompound_new) (True, x)
     (streams_bytes (FormatInformationStreamsCompound x))"
  by (auto simp: FormatInformationStreamsCompound_deserialize_def FormatInformationStreamsCompound_new_def assms
      intro!: takes_byte_bind takes_bind_return [OF takes_format_infos] arg_cong [where f = State_Monad.return])

lemma takes_format:
  assumes "readable_format f"
  shows "takes invar rest adv (FormatInformation_deserialize ini de f0) (True, format_into f0 f) (format_bytes f)"
proof -
  obtain s where s: "fi_streams f = Some s" "fi_root f = eFHR_AudioMusic" "streams_ok f s"
    using assms by (auto simp: readable_format_def split: option.splits)
  show ?thesis
  proof (cases s)
    case (FormatInformationStreamsSync x)
    then show ?thesis
      using s by (auto simp: FormatInformation_deserialize_def format_bytes_def hierarchy_bytes_def format_into_def consts_defs
          intro!: takes_byte_bind takes_bind_return [OF takes_sync] arg_cong [where f = State_Monad.return])
  next
    case (FormatInformationStreamsCompound x)
    then have "takes invar rest adv (FormatInformationStreamsCompound_deserialize ini de FormatInformationStreamsCompound_new) (True, x)
        (streams_bytes (FormatInformationStreamsCompound x))"
      using s by (intro takes_compound) simp
    note c = takes_bind_return [OF this]
    show ?thesis
      using s FormatInformationStreamsCompound
      by (auto simp: FormatInformation_deserialize_def format_bytes_def hierarchy_bytes_def format_into_def consts_defs
          simp del: streams_bytes.simps intro!: takes_byte_bind c arg_cong [where f = State_Monad.return])
  qed
qed

lemma takes_ext_stream_format:
  assumes "readable_format (esf_formatInformation c)"
  shows "takes invar rest adv (ExtendedStreamFormatCmd_deserialize ini de c0) (True, ExtendedStreamFormatCmd_reply c0 c)
    (ExtendedStreamFormatCmd_wire c)"
  by (auto simp: ExtendedStreamFormatCmd_deserialize_def ExtendedStreamFormatCmd_wire_def ExtendedStreamFormatCmd_reply_def
      with_header_def
      intro!: takes_header_bind takes_byte_bind takes_bind [OF takes_plug_address] takes_bind_return [OF takes_format [OF assms]])

end

interpretation ext_stream_format: avc_codec
  "ExtendedStreamFormatCmd_serialize (buffer_serializer be)" "ExtendedStreamFormatCmd_deserialize ini (buffer_deserializer be)"
  ExtendedStreamFormatCmd_wire "\<lambda>c. length (ExtendedStreamFormatCmd_wire c) \<le> 512"
  "\<lambda>c0 c. readable_format (esf_formatInformation c)" ExtendedStreamFormatCmd_reply
  for be ini
  by unfold_locales (simp_all add: bser.emits_ext_stream_format takes_reads [OF bdes.takes_ext_stream_format])

section \<open>Properties\<close>

lemma format_into_bytes:
  assumes "readable_format f"
  shows "format_bytes (format_into f0 f) = format_bytes f
    \<longleftrightarrow> fi_level1 f = eFHL1_AUDIOMUSIC_AM824 \<or> fi_level2 f0 = eFHL2_AM824_DONT_CARE"
proof -
  have op: "sync_operand (x\<lparr>fss_samplingFrequency := fss_samplingFrequency x AND 0xf, fss_rateControl := r\<rparr>) = sync_operand x"
    if "r = (if fss_rateControl x = eRC_DontCare then eRC_DontCare else eRC_Supported)" for x r
    by (rule word_eq_bits, simp add: sync_operand_def consts_defs word_bits_simps that)
  obtain s where s: "fi_streams f = Some s" "fi_root f = eFHR_AudioMusic" "streams_ok f s"
    using assms by (auto simp: readable_format_def split: option.splits)
  show ?thesis
    by (cases s) (use s op in \<open>auto simp: format_bytes_def format_into_def hierarchy_bytes_def consts_defs\<close>)
qed

lemma streams_deserialize_True:
  "fst (fst (run_state (FormatInformationStreamsSync_deserialize ini de x) d))"
  "fst (fst (run_state (FormatInformationStreamsCompound_deserialize ini de y) d))"
proof -
  have "fst (fst (run_state (read_format_infos ini de n xs) d))" for n xs d
  proof (induction n arbitrary: xs d)
    case (Suc n)
    have "fst (fst (run_state (StreamFormatInfo_deserialize de x) d))" for x
      by (simp add: StreamFormatInfo_deserialize_def split_def)
    then show ?case using Suc by (simp add: split_def)
  qed simp
  then show "fst (fst (run_state (FormatInformationStreamsSync_deserialize ini de x) d))"
    "fst (fst (run_state (FormatInformationStreamsCompound_deserialize ini de y) d))"
    by (simp_all add: FormatInformationStreamsSync_deserialize_def FormatInformationStreamsCompound_deserialize_def split_def Let_def)
qed

text \<open>
  C33. Extended stream format: a command that fits the frame is serialized to its bytes. A format that
  the parser knows (audio and music, and in it a sync stream, or a compound stream without a second
  hierarchy level whose counter agrees with its list) is read back, with the sampling frequency of a
  sync stream cut to 4 bits; a compound stream keeps the second level that the receiver had before, so
  that the format that was read is serialized to the same bytes exactly if the stream is a sync stream
  or the receiver had no second level.
\<close>

theorem stream_format_roundtrip:
  assumes "length (ExtendedStreamFormatCmd_wire c) \<le> 512" and "readable_format (esf_formatInformation c)"
  shows "\<exists>s d. run_state (ExtendedStreamFormatCmd_serialize (buffer_serializer be) c) (BufferSerialize (replicate 512 0) 512) = (True, s)
     \<and> take (length (ExtendedStreamFormatCmd_wire c)) (bs_buffer s) = ExtendedStreamFormatCmd_wire c
     \<and> run_state (ExtendedStreamFormatCmd_deserialize ini (buffer_deserializer be) c0) (BufferDeserialize (bs_buffer s) 512)
       = ((True, ExtendedStreamFormatCmd_reply c0 c), d)
     \<and> getFormatInformation (ExtendedStreamFormatCmd_reply c0 c) = format_into (getFormatInformation c0) (getFormatInformation c)
     \<and> (format_bytes (getFormatInformation (ExtendedStreamFormatCmd_reply c0 c)) = format_bytes (getFormatInformation c)
        \<longleftrightarrow> fi_level1 (getFormatInformation c) = eFHL1_AUDIOMUSIC_AM824
          \<or> fi_level2 (getFormatInformation c0) = eFHL2_AM824_DONT_CARE)"
  using ext_stream_format.codec_roundtrip [where be = be and ini = ini and c = c and recv = c0] assms
    format_into_bytes [OF assms(2), of "esf_formatInformation c0"]
  by (auto simp: ExtendedStreamFormatCmd_reply_def getFormatInformation_def)

theorem stream_format_roundtrip_witness:
  "\<exists>s d. run_state (ExtendedStreamFormatCmd_serialize (buffer_serializer False)
        ((ExtendedStreamFormatCmd_new [] 0 eSF_ExtendedStreamFormatInformationCommand)\<lparr>esf_formatInformation :=
          \<lparr>fi_root = 0x90, fi_level1 = 0x40, fi_level2 = 0xff, fi_streams = Some (FormatInformationStreamsCompound FormatInformationStreamsCompound_new)\<rparr>\<rparr>))
       (BufferSerialize (replicate 512 0) 512) = (True, s)
     \<and> fst (run_state (ExtendedStreamFormatCmd_deserialize 0 (buffer_deserializer False)
         (ExtendedStreamFormatCmd_new [] 0 0)) (BufferDeserialize (bs_buffer s) 512))
       = (True, ExtendedStreamFormatCmd_reply (ExtendedStreamFormatCmd_new [] 0 0)
          ((ExtendedStreamFormatCmd_new [] 0 eSF_ExtendedStreamFormatInformationCommand)\<lparr>esf_formatInformation :=
            \<lparr>fi_root = 0x90, fi_level1 = 0x40, fi_level2 = 0xff, fi_streams = Some (FormatInformationStreamsCompound FormatInformationStreamsCompound_new)\<rparr>\<rparr>))"
proof -
  define f where "f = \<lparr>fi_root = 0x90, fi_level1 = 0x40, fi_level2 = 0xff,
    fi_streams = Some (FormatInformationStreamsCompound FormatInformationStreamsCompound_new)\<rparr>"
  define c where "c = (ExtendedStreamFormatCmd_new [] 0 eSF_ExtendedStreamFormatInformationCommand)\<lparr>esf_formatInformation := f\<rparr>"
  have "readable_format (esf_formatInformation c)" "length (ExtendedStreamFormatCmd_wire c) \<le> 512"
    by (simp_all add: c_def f_def readable_format_def consts_defs FormatInformationStreamsCompound_new_def
        ExtendedStreamFormatCmd_wire_def format_bytes_def hierarchy_bytes_def)
  from stream_format_roundtrip [OF this(2,1), of False 0 "ExtendedStreamFormatCmd_new [] 0 0"]
  show ?thesis unfolding c_def f_def by auto
qed

text \<open>
  Parsing a format: the format information is accepted exactly for an audio and music root with
  either a sync stream of level AM824 or a compound stream, and a rejected one has no streams; but the
  command reports success for every frame, so that only a missing stream object shows the rejection.
\<close>

theorem stream_format_parser:
  assumes "bd_invar d" and "bd_rest d = root # level1 # level2 # tail"
  shows "(fst (fst (run_state (FormatInformation_deserialize ini (buffer_deserializer be) f0) d))
       \<longleftrightarrow> root = eFHR_AudioMusic \<and> (level1 = eFHL1_AUDIOMUSIC_AM824 \<and> level2 = eFHL2_AM824_SYNC_STREAM
         \<or> level1 = eFHL1_AUDIOMUSIC_AM824_COMPOUND))
     \<and> (fi_streams (snd (fst (run_state (FormatInformation_deserialize ini (buffer_deserializer be) f0) d))) \<noteq> None
       \<longleftrightarrow> fst (fst (run_state (FormatInformation_deserialize ini (buffer_deserializer be) f0) d)))
     \<and> fst (fst (run_state (ExtendedStreamFormatCmd_deserialize ini (buffer_deserializer be) c0) d'))"
proof -
  obtain d1 d2 d3 where b: "run_state (read_byte (buffer_deserializer be) v) d = ((True, root), d1)"
    "run_state (read_byte (buffer_deserializer be) v) d1 = ((True, level1), d2)"
    "run_state (read_byte (buffer_deserializer be) v) d2 = ((True, level2), d3)" for v
    using assms bd_advance_rest [of d 1] bd_advance_rest [of "bd_advance 1 d" 1] bdes.read_byte_next by fastforce
  have "fst (fst (run_state (ExtendedStreamFormatCmd_deserialize ini (buffer_deserializer be) c0) d'))"
    by (simp add: ExtendedStreamFormatCmd_deserialize_def split_def Let_def)
  then show ?thesis
    by (simp add: FormatInformation_deserialize_def b Let_def split_def streams_deserialize_True consts_defs)
qed

theorem stream_format_parser_witness:
  "\<not> fst (fst (run_state (FormatInformation_deserialize 0 (buffer_deserializer False) FormatInformation_new)
     (BufferDeserialize [0x90, 0, 6, 0] 4)))"
proof -
  have "bd_invar (BufferDeserialize [0x90, 0, 6, 0] 4)" "bd_rest (BufferDeserialize [0x90, 0, 6, 0] 4) = 0x90 # 0 # 6 # [0]"
    by (simp_all add: bd_invar_def bd_rest_def BufferDeserialize_def)
  from stream_format_parser [OF this, of 0 False FormatInformation_new] show ?thesis
    by (simp add: consts_defs)
qed

end
