(* ===== verification/CycleTimer.thy ===== *)
theory CycleTimer
  imports Prelude
begin

text \<open>
  The arithmetic of the IEEE 1394 cycle timer: \<^verbatim>\<open>libieee1394/cycletimer.h\<close>. Macros and inline
  functions keep their names; \<^verbatim>\<open>uint64_t\<close> and \<^verbatim>\<open>int64_t\<close> are 64-bit words,
  \<^verbatim>\<open>unsigned int\<close> and \<^verbatim>\<open>int\<close> 32-bit words, with \<^verbatim>\<open>long\<close> of 64 bits. The warnings that
  the code prints, which change no result, are left out.
\<close>

section \<open>Constants\<close>

definition CYCLES_PER_SECOND :: u32 where [consts_defs]: "CYCLES_PER_SECOND = 8000"
definition TICKS_PER_CYCLE :: u32 where [consts_defs]: "TICKS_PER_CYCLE = 3072"
definition TICKS_PER_SECOND :: u64 where [consts_defs]: "TICKS_PER_SECOND = 24576000"
definition INVALID_TIMESTAMP_TICKS :: u64 where [consts_defs]: "INVALID_TIMESTAMP_TICKS = 0xFFFFFFFFFFFFFFFF"

section \<open>The cycle timer register and its conversion to ticks\<close>

definition CYCLE_TIMER_GET_SECS :: "u64 \<Rightarrow> u64" where
  "CYCLE_TIMER_GET_SECS x = drop_bit 25 (x AND 0xFE000000)"

definition CYCLE_TIMER_GET_CYCLES :: "u64 \<Rightarrow> u64" where
  "CYCLE_TIMER_GET_CYCLES x = drop_bit 12 (x AND 0x01FFF000)"

definition CYCLE_TIMER_GET_OFFSET :: "u64 \<Rightarrow> u64" where
  "CYCLE_TIMER_GET_OFFSET x = x AND 0x00000FFF"

definition CYCLE_TIMER_SET_SECS :: "u64 \<Rightarrow> u64 \<Rightarrow> u64" where
  "CYCLE_TIMER_SET_SECS v x = (v AND NOT 0xFE000000) OR push_bit 25 (x AND 0x7F)"

definition CYCLE_TIMER_SET_CYCLES :: "u64 \<Rightarrow> u64 \<Rightarrow> u64" where
  "CYCLE_TIMER_SET_CYCLES v x = (v AND NOT 0x01FFF000) OR push_bit 12 (x AND 0x1FFF)"

definition CYCLE_TIMER_SET_OFFSET :: "u64 \<Rightarrow> u64 \<Rightarrow> u64" where
  "CYCLE_TIMER_SET_OFFSET v x = (v AND NOT 0x00000FFF) OR (x AND 0xFFF)"

definition CYCLE_TIMER_TO_TICKS :: "u64 \<Rightarrow> u64" where
  "CYCLE_TIMER_TO_TICKS x =
     CYCLE_TIMER_GET_SECS x * TICKS_PER_SECOND
     + CYCLE_TIMER_GET_CYCLES x * ucast TICKS_PER_CYCLE
     + CYCLE_TIMER_GET_OFFSET x"

definition TICKS_TO_SECS :: "u64 \<Rightarrow> u64" where
  "TICKS_TO_SECS x = x div TICKS_PER_SECOND"

definition TICKS_TO_CYCLES :: "u64 \<Rightarrow> u64" where
  "TICKS_TO_CYCLES x = (x div ucast TICKS_PER_CYCLE) mod ucast CYCLES_PER_SECOND"

definition TICKS_TO_OFFSET :: "u64 \<Rightarrow> u64" where
  "TICKS_TO_OFFSET x = x mod ucast TICKS_PER_CYCLE"

definition TICKS_TO_CYCLE_TIMER :: "u64 \<Rightarrow> u64" where
  "TICKS_TO_CYCLE_TIMER x =
     push_bit 25 (TICKS_TO_SECS x AND 0x7F)
     OR push_bit 12 (TICKS_TO_CYCLES x AND 0x1FFF)
     OR (TICKS_TO_OFFSET x AND 0xFFF)"

definition TICKS_TO_SYT :: "u64 \<Rightarrow> u64" where
  "TICKS_TO_SYT x =
     push_bit 12 (TICKS_TO_CYCLES x AND 0xF) OR (TICKS_TO_OFFSET x AND 0xFFF)"

section \<open>Wrapping arithmetic on ticks and cycles\<close>

definition wrapAtMaxTicks :: "u64 \<Rightarrow> u64" where
  "wrapAtMaxTicks x =
     (if x \<ge> TICKS_PER_SECOND * 128 then x - TICKS_PER_SECOND * 128 else x)"

definition wrapAtMinTicks :: "i64 \<Rightarrow> i64" where
  "wrapAtMinTicks x = (if x <s 0 then x + TICKS_PER_SECOND * 128 else x)"

definition wrapAtMinMaxTicks :: "i64 \<Rightarrow> i64" where
  "wrapAtMinMaxTicks x =
     (if x <s 0 then x + TICKS_PER_SECOND * 128
      else if TICKS_PER_SECOND * 128 \<le>s x then x - TICKS_PER_SECOND * 128
      else x)"

definition addCycles :: "u32 \<Rightarrow> u32 \<Rightarrow> u32" where
  "addCycles x y =
     (let sum = x + y
      in if sum > CYCLES_PER_SECOND then sum - CYCLES_PER_SECOND else sum)"

definition diffCycles :: "u32 \<Rightarrow> u32 \<Rightarrow> i32" where
  "diffCycles x y =
     (let diff = x - y;
          max = CYCLES_PER_SECOND div 2
      in if max <s diff then diff - CYCLES_PER_SECOND
         else if diff <s - max then diff + CYCLES_PER_SECOND
         else diff)"

definition diffTicks :: "i64 \<Rightarrow> i64 \<Rightarrow> i64" where
  "diffTicks x y =
     (let diff = x - y;
          wrapvalue = TICKS_PER_SECOND * 128;
          max = wrapvalue div 2
      in if max <s diff then diff - wrapvalue
         else if diff <s - max then diff + wrapvalue
         else diff)"

definition addTicks :: "u64 \<Rightarrow> u64 \<Rightarrow> u64" where
  "addTicks x y = (let sum = x + y in wrapAtMaxTicks sum)"

definition substractTicks :: "u64 \<Rightarrow> u64 \<Rightarrow> u64" where
  "substractTicks x y = (let subs = x - y in wrapAtMinTicks subs)"

section \<open>SYT timestamps\<close>

definition sytRecvToFullTicks :: "u64 \<Rightarrow> u32 \<Rightarrow> u64 \<Rightarrow> u64" where
  "sytRecvToFullTicks syt_timestamp rcv_cycle ctr_now =
     (let cc_cycles = CYCLE_TIMER_GET_CYCLES ctr_now;
          cc_seconds = CYCLE_TIMER_GET_SECS ctr_now;
          diff_cycles = diffCycles (ucast cc_cycles) rcv_cycle;
          cc_seconds =
            (if ucast rcv_cycle > cc_cycles \<and> 0 \<le>s diff_cycles
             then (if cc_seconds \<noteq> 0 then cc_seconds - 1 else 127)
             else cc_seconds);
          rcv_cycle_masked = ucast (rcv_cycle AND 0xF) :: u64;
          syt_cycle = CYCLE_TIMER_GET_CYCLES syt_timestamp;
          syt_cycle = (if syt_cycle < rcv_cycle_masked then syt_cycle + 0x10 else syt_cycle);
          delta_cycles = syt_cycle - rcv_cycle_masked;
          new_cycles = ucast rcv_cycle + delta_cycles;
          timestamp =
            (if new_cycles < 8000 then new_cycles * ucast TICKS_PER_CYCLE
             else (new_cycles - 8000) * ucast TICKS_PER_CYCLE + TICKS_PER_SECOND);
          timestamp = timestamp + CYCLE_TIMER_GET_OFFSET syt_timestamp
      in addTicks timestamp (cc_seconds * TICKS_PER_SECOND))"

definition sytRecvToFullTicks2 :: "u64 \<Rightarrow> u32 \<Rightarrow> u64" where
  "sytRecvToFullTicks2 syt_timestamp rcv_ctr =
     (let rcv_cycle = ucast (CYCLE_TIMER_GET_CYCLES (ucast rcv_ctr)) :: u32;
          rcv_cycle_masked = rcv_cycle AND 0xF;
          syt_cycle = ucast (CYCLE_TIMER_GET_CYCLES syt_timestamp) :: u32;
          syt_cycle = (if syt_cycle < rcv_cycle_masked then syt_cycle + 0x10 else syt_cycle);
          delta_cycles = syt_cycle - rcv_cycle_masked;
          rcv_cycle = rcv_cycle + delta_cycles;
          timestamp =
            (if rcv_cycle < 8000 then ucast (rcv_cycle * TICKS_PER_CYCLE)
             else ucast ((rcv_cycle - 8000) * TICKS_PER_CYCLE) + TICKS_PER_SECOND) :: u64;
          timestamp = timestamp + CYCLE_TIMER_GET_OFFSET syt_timestamp
      in addTicks timestamp (CYCLE_TIMER_GET_SECS (ucast rcv_ctr) * TICKS_PER_SECOND))"

definition sytXmitToFullTicks :: "u64 \<Rightarrow> u32 \<Rightarrow> u64 \<Rightarrow> u64" where
  "sytXmitToFullTicks syt_timestamp xmt_cycle ctr_now =
     (let cc_cycles = CYCLE_TIMER_GET_CYCLES ctr_now;
          cc_seconds = CYCLE_TIMER_GET_SECS ctr_now;
          diff_cycles = diffCycles xmt_cycle (ucast cc_cycles);
          cc_seconds =
            (if cc_cycles > ucast xmt_cycle \<and> 0 \<le>s diff_cycles
             then (if cc_seconds \<noteq> 0 then cc_seconds - 1 else 127)
             else cc_seconds);
          xmt_cycle_masked = ucast (xmt_cycle AND 0xF) :: u64;
          syt_cycle = CYCLE_TIMER_GET_CYCLES syt_timestamp;
          syt_cycle = (if syt_cycle < xmt_cycle_masked then syt_cycle + 0x10 else syt_cycle);
          delta_cycles = syt_cycle - xmt_cycle_masked;
          new_cycles = ucast xmt_cycle + delta_cycles;
          timestamp =
            (if new_cycles < 8000 then new_cycles * ucast TICKS_PER_CYCLE
             else (new_cycles - 8000) * ucast TICKS_PER_CYCLE + TICKS_PER_SECOND);
          timestamp = timestamp + CYCLE_TIMER_GET_OFFSET syt_timestamp
      in addTicks timestamp (cc_seconds * TICKS_PER_SECOND))"

section \<open>Wrapping arithmetic agrees with arithmetic modulo the timer's range\<close>

text \<open>The timer counts 128 seconds of ticks and a second counts 8000 cycles.\<close>

abbreviation MAX_TICKS :: int where "MAX_TICKS \<equiv> 3145728000"

lemma TICKS_PER_SECOND_128: "TICKS_PER_SECOND * 128 = 3145728000"
  by (simp add: consts_defs)

lemma uint_wrapAtMaxTicks:
  assumes "uint x < 2 * MAX_TICKS"
  shows "uint (wrapAtMaxTicks x) = uint x mod MAX_TICKS"
proof (cases "MAX_TICKS \<le> uint x")
  case True
  then have "uint (wrapAtMaxTicks x) = uint x - MAX_TICKS"
    by (simp add: wrapAtMaxTicks_def TICKS_PER_SECOND_128 word_le_def uint_minus_no_underflow)
  also have "\<dots> = uint x mod MAX_TICKS"
    using True assms by (simp add: mod_one_down)
  finally show ?thesis .
next
  case False
  then show ?thesis
    by (simp add: wrapAtMaxTicks_def TICKS_PER_SECOND_128 word_le_def)
qed

lemma uint_addTicks:
  assumes "uint x + uint y < 2 * MAX_TICKS"
  shows "uint (addTicks x y) = (uint x + uint y) mod MAX_TICKS"
proof -
  have "uint (x + y) = uint x + uint y"
    using assms by (intro uint_plus_no_overflow) simp
  then show ?thesis
    using assms by (simp add: addTicks_def uint_wrapAtMaxTicks)
qed

lemma sint_wrapAtMinTicks:
  assumes "- MAX_TICKS \<le> sint x" and "sint x < MAX_TICKS"
  shows "sint (wrapAtMinTicks x) = sint x mod MAX_TICKS"
proof (cases "sint x < 0")
  case True
  have "x + 3145728000 = of_int (sint x + 3145728000)" by simp
  then have "sint (x + 3145728000) = sint x + 3145728000"
    using True assms by (simp only:) (rule sint_of_int_in_range, simp_all)
  moreover have "sint x mod 3145728000 = sint x + 3145728000"
    using True assms by (simp add: mod_one_up)
  ultimately show ?thesis
    using True by (simp add: wrapAtMinTicks_def TICKS_PER_SECOND_128 word_sless_alt)
next
  case False
  then show ?thesis
    using assms by (simp add: wrapAtMinTicks_def word_sless_alt)
qed

lemma sint_wrapAtMinMaxTicks:
  assumes "- MAX_TICKS \<le> sint x" and "sint x < 2 * MAX_TICKS"
  shows "sint (wrapAtMinMaxTicks x) = sint x mod MAX_TICKS"
proof (cases "sint x < MAX_TICKS")
  case True
  then have "wrapAtMinMaxTicks x = wrapAtMinTicks x"
    by (simp add: wrapAtMinMaxTicks_def wrapAtMinTicks_def TICKS_PER_SECOND_128
        word_sless_alt word_sle_eq sint_of_uint [of 3145728000])
  then show ?thesis
    using True assms by (simp add: sint_wrapAtMinTicks)
next
  case False
  have "x - 3145728000 = of_int (sint x - 3145728000)" by simp
  then have "sint (x - 3145728000) = sint x - 3145728000"
    using False assms by (simp only:) (rule sint_of_int_in_range, simp_all)
  moreover have "sint x mod 3145728000 = sint x - 3145728000"
    using False assms by (simp add: mod_one_down)
  ultimately show ?thesis
    using False by (simp add: wrapAtMinMaxTicks_def TICKS_PER_SECOND_128 word_sless_alt
        word_sle_eq sint_of_uint [of 3145728000])
qed

lemma uint_substractTicks:
  assumes "uint x < MAX_TICKS" and "uint y < MAX_TICKS"
  shows "uint (substractTicks x y) = (uint x - uint y) mod MAX_TICKS"
proof -
  have d: "sint (x - y) = uint x - uint y"
    using assms by (intro sint_diff_small) simp_all
  have "- MAX_TICKS \<le> uint x - uint y" "uint x - uint y < MAX_TICKS"
    using assms uint_ge_0 [of x] uint_ge_0 [of y] by linarith+
  then have "sint (substractTicks x y) = (uint x - uint y) mod MAX_TICKS"
    unfolding substractTicks_def Let_def by (subst sint_wrapAtMinTicks) (simp_all add: d)
  then show ?thesis
    using uint_of_sint [of "substractTicks x y"] by simp
qed

lemma sint_diffTicks:
  assumes "uint x < MAX_TICKS" and "uint y < MAX_TICKS"
  shows "sint (diffTicks x y) =
     (let d = uint x - uint y
      in if 1572864000 < d then d - MAX_TICKS
         else if d < -1572864000 then d + MAX_TICKS else d)"
proof -
  let ?d = "uint x - uint y"
  have b: "- MAX_TICKS < ?d" "?d < MAX_TICKS"
    using assms uint_ge_0 [of x] uint_ge_0 [of y] by linarith+
  have d: "sint (x - y) = ?d"
    using assms by (intro sint_diff_small) simp_all
  have max: "(3145728000 :: u64) div 2 = 1572864000" by simp
  have shift: "sint (x - y + of_int k) = ?d + k" if "\<bar>k\<bar> \<le> MAX_TICKS" for k
  proof -
    have "x - y + of_int k = of_int (?d + k)" by simp
    then show ?thesis
      using that b by (simp only:) (rule sint_of_int_in_range, simp_all)
  qed
  show ?thesis
    unfolding diffTicks_def Let_def TICKS_PER_SECOND_128 max word_sless_alt d
    using d shift [of "-3145728000"] shift [of 3145728000] by simp
qed

lemma uint_addCycles:
  assumes "uint x < 8000" and "uint y < 8000"
  shows "uint (addCycles x y) =
     (if 8000 < uint x + uint y then uint x + uint y - 8000 else uint x + uint y)"
proof -
  have "uint (x + y) = uint x + uint y"
    using assms by (intro uint_plus_no_overflow) simp
  then show ?thesis
    by (simp add: addCycles_def consts_defs Let_def word_less_def uint_minus_no_underflow)
qed

lemma sint_diffCycles:
  assumes "uint x < 8192" and "uint y < 8192"
  shows "sint (diffCycles x y) =
     (let d = uint x - uint y
      in if 4000 < d then d - 8000 else if d < - 4000 then d + 8000 else d)"
proof -
  let ?d = "uint x - uint y"
  have b: "- 8192 < ?d" "?d < 8192"
    using assms uint_ge_0 [of x] uint_ge_0 [of y] by linarith+
  have d: "sint (x - y) = ?d"
    using assms by (intro sint_diff_small) simp_all
  have max: "CYCLES_PER_SECOND div 2 = 4000" by (simp add: consts_defs)
  have shift: "sint (x - y + of_int k) = ?d + k" if "\<bar>k\<bar> \<le> 8000" for k
  proof -
    have "x - y + of_int k = of_int (?d + k)" by simp
    then show ?thesis
      using that b by (simp only:) (rule sint_of_int_in_range, simp_all)
  qed
  show ?thesis
    unfolding diffCycles_def Let_def max word_sless_alt d
    using d shift [of "-8000"] shift [of 8000] by (simp add: consts_defs)
qed

section \<open>Fields of the cycle timer register\<close>

lemma masks_as_take_bit:
  fixes x :: u64
  shows "x AND 0x7F = take_bit 7 x" and "x AND 0x1FFF = take_bit 13 x"
    and "x AND 0xFFF = take_bit 12 x" and "x AND 0xF = take_bit 4 x"
  by (simp_all add: take_bit_eq_mask mask_eq_exp_minus_1)

lemma CYCLE_TIMER_GET_SECS_field: "CYCLE_TIMER_GET_SECS x = take_bit 7 (drop_bit 25 x)"
proof -
  have "(0xFE000000 :: u64) = push_bit 25 (mask 7)" by (simp add: mask_eq_exp_minus_1)
  then show ?thesis by (simp only: CYCLE_TIMER_GET_SECS_def and_mask_field)
qed

lemma CYCLE_TIMER_GET_CYCLES_field: "CYCLE_TIMER_GET_CYCLES x = take_bit 13 (drop_bit 12 x)"
proof -
  have "(0x01FFF000 :: u64) = push_bit 12 (mask 13)" by (simp add: mask_eq_exp_minus_1)
  then show ?thesis by (simp only: CYCLE_TIMER_GET_CYCLES_def and_mask_field)
qed

lemma CYCLE_TIMER_GET_OFFSET_field: "CYCLE_TIMER_GET_OFFSET x = take_bit 12 x"
  by (simp add: CYCLE_TIMER_GET_OFFSET_def masks_as_take_bit)

lemmas timer_fields =
  CYCLE_TIMER_GET_SECS_field CYCLE_TIMER_GET_CYCLES_field CYCLE_TIMER_GET_OFFSET_field

lemma fields_of_packed:
  fixes a b c :: u64
  defines "r \<equiv> push_bit 25 (take_bit 7 a) OR push_bit 12 (take_bit 13 b) OR take_bit 12 c"
  shows "take_bit 7 (drop_bit 25 r) = take_bit 7 a"
    and "take_bit 13 (drop_bit 12 r) = take_bit 13 b"
    and "take_bit 12 r = take_bit 12 c"
  by (rule bit_word_eqI; auto simp: r_def bit_simps)+

lemma fields_of_syt:
  fixes b c :: u64
  defines "r \<equiv> push_bit 12 (take_bit 4 b) OR take_bit 12 c"
  shows "take_bit 13 (drop_bit 12 r) = take_bit 4 b" and "take_bit 12 r = take_bit 12 c"
  by (rule bit_word_eqI; auto simp: r_def bit_simps)+

lemma uint_ticks_parts:
  "uint (TICKS_TO_SECS t) = uint t div 24576000"
  "uint (TICKS_TO_CYCLES t) = (uint t div 3072) mod 8000"
  "uint (TICKS_TO_OFFSET t) = uint t mod 3072"
  by (simp_all add: TICKS_TO_SECS_def TICKS_TO_CYCLES_def TICKS_TO_OFFSET_def consts_defs
      uint_div uint_mod)

lemma timer_of_ticks:
  "uint (CYCLE_TIMER_GET_SECS (TICKS_TO_CYCLE_TIMER t)) = (uint t div 24576000) mod 128"
  "uint (CYCLE_TIMER_GET_CYCLES (TICKS_TO_CYCLE_TIMER t)) = (uint t div 3072) mod 8000"
  "uint (CYCLE_TIMER_GET_OFFSET (TICKS_TO_CYCLE_TIMER t)) = uint t mod 3072"
  unfolding timer_fields TICKS_TO_CYCLE_TIMER_def masks_as_take_bit fields_of_packed
  by (simp_all add: uint_take_bit_mod uint_ticks_parts)

lemma syt_of_ticks:
  "uint (CYCLE_TIMER_GET_CYCLES (TICKS_TO_SYT t)) = (uint t div 3072) mod 16"
  "uint (CYCLE_TIMER_GET_OFFSET (TICKS_TO_SYT t)) = uint t mod 3072"
  unfolding timer_fields TICKS_TO_SYT_def masks_as_take_bit fields_of_syt
  by (simp_all add: uint_take_bit_mod uint_ticks_parts mod_mod_cancel)

section \<open>Reconstruction of SYT timestamps\<close>

text \<open>
  The three conversions share their last part: unfold the cycle field of the SYT timestamp to
  the first cycle not before the packet's, and add the seconds.
\<close>

definition syt_ticks :: "u64 \<Rightarrow> u64 \<Rightarrow> u64 \<Rightarrow> u64" where
  "syt_ticks cycle syt secs =
     (let masked = cycle AND 0xF;
          syt_cycle = CYCLE_TIMER_GET_CYCLES syt;
          syt_cycle = (if syt_cycle < masked then syt_cycle + 0x10 else syt_cycle);
          new_cycles = cycle + (syt_cycle - masked);
          timestamp =
            (if new_cycles < 8000 then new_cycles * ucast TICKS_PER_CYCLE
             else (new_cycles - 8000) * ucast TICKS_PER_CYCLE + TICKS_PER_SECOND)
      in addTicks (timestamp + CYCLE_TIMER_GET_OFFSET syt) (secs * TICKS_PER_SECOND))"

lemma ucast_and_15: "ucast (x AND 0xF :: u32) = (ucast x AND 0xF :: u64)"
  by (simp add: unsigned_and_eq)

lemma sytRecvToFullTicks_tail:
  "sytRecvToFullTicks syt c ctr =
     syt_ticks (ucast c) syt
       (if ucast c > CYCLE_TIMER_GET_CYCLES ctr
           \<and> 0 \<le>s diffCycles (ucast (CYCLE_TIMER_GET_CYCLES ctr)) c
        then (if CYCLE_TIMER_GET_SECS ctr \<noteq> 0 then CYCLE_TIMER_GET_SECS ctr - 1 else 127)
        else CYCLE_TIMER_GET_SECS ctr)"
  unfolding sytRecvToFullTicks_def syt_ticks_def Let_def ucast_and_15 ..

lemma sytXmitToFullTicks_tail:
  "sytXmitToFullTicks syt c ctr =
     syt_ticks (ucast c) syt
       (if CYCLE_TIMER_GET_CYCLES ctr > ucast c
           \<and> 0 \<le>s diffCycles c (ucast (CYCLE_TIMER_GET_CYCLES ctr))
        then (if CYCLE_TIMER_GET_SECS ctr \<noteq> 0 then CYCLE_TIMER_GET_SECS ctr - 1 else 127)
        else CYCLE_TIMER_GET_SECS ctr)"
  unfolding sytXmitToFullTicks_def syt_ticks_def Let_def ucast_and_15 ..

lemma mod_16_unfold:
  fixes c d :: int
  assumes "0 \<le> d" and "d < 16"
  shows "(if (c + d) mod 16 < c mod 16 then (c + d) mod 16 + 16 else (c + d) mod 16) = c mod 16 + d"
proof -
  have "(c + d) mod 16 = (c mod 16 + d) mod 16" by (simp add: mod_simps)
  moreover have "0 \<le> c mod 16" "c mod 16 < 16" by simp_all
  ultimately show ?thesis
    using assms by (cases "c mod 16 + d < 16") (simp_all add: mod_one_down)
qed

lemma uint_unfold_cycle:
  fixes c y m k :: "'a::len word" and d :: int
  assumes big: "(16384 :: int) \<le> 2 ^ LENGTH('a)"
    and c: "uint c < 8000" and d: "0 \<le> d" "d < 16"
    and m: "uint m = uint c mod 16" and k: "uint k = 16"
    and y: "uint y = (uint c + d) mod 16"
  shows "uint (c + ((if y < m then y + k else y) - m)) = uint c + d"
proof -
  let ?y = "if y < m then y + k else y"
  have "uint y < 16" by (simp add: y)
  then have "uint (y + k) = uint y + 16"
    using big k by (subst uint_plus_no_overflow) simp_all
  then have "uint ?y = uint c mod 16 + d"
    using mod_16_unfold [OF d, of "uint c"] by (auto simp: word_less_def m y split: if_splits)
  then have "uint (?y - m) = d"
    using d m by (simp add: uint_minus_no_underflow)
  then show ?thesis
    using c d big by (simp add: uint_plus_no_overflow)
qed

lemma uint_cycles_to_ticks:
  fixes n :: u64
  assumes "uint n < 16000"
  shows "uint (if n < 8000 then n * ucast TICKS_PER_CYCLE
               else (n - 8000) * ucast TICKS_PER_CYCLE + TICKS_PER_SECOND) = uint n * 3072"
proof (cases "uint n < 8000")
  case True
  then have "uint (n * ucast TICKS_PER_CYCLE) = uint n * 3072"
    by (subst uint_times_no_overflow) (simp_all add: consts_defs)
  then show ?thesis using True by (simp add: word_less_def)
next
  case False
  then have "uint (n - 8000) = uint n - 8000"
    by (simp add: uint_minus_no_underflow)
  moreover from this have "uint ((n - 8000) * ucast TICKS_PER_CYCLE) = (uint n - 8000) * 3072"
    using assms by (subst uint_times_no_overflow) (simp_all add: consts_defs)
  ultimately have "uint ((n - 8000) * ucast TICKS_PER_CYCLE + TICKS_PER_SECOND) = uint n * 3072"
    using assms by (subst uint_plus_no_overflow) (simp_all add: consts_defs)
  then show ?thesis using False by (simp add: word_less_def)
qed

lemma uint_syt_ticks:
  fixes d :: int
  assumes c: "uint c < 8000" and s: "uint secs < 128"
    and d: "0 \<le> d" "d < 16"
    and cyc: "uint (CYCLE_TIMER_GET_CYCLES syt) = (uint c + d) mod 16"
    and off: "uint (CYCLE_TIMER_GET_OFFSET syt) < 3072"
  shows "uint (syt_ticks c syt secs) =
     ((uint secs * 8000 + uint c + d) * 3072 + uint (CYCLE_TIMER_GET_OFFSET syt)) mod MAX_TICKS"
proof -
  let ?m = "c AND 0xF" and ?y = "CYCLE_TIMER_GET_CYCLES syt" and ?o = "CYCLE_TIMER_GET_OFFSET syt"
  let ?n = "c + ((if ?y < ?m then ?y + 0x10 else ?y) - ?m)"
  let ?t = "if ?n < 8000 then ?n * ucast TICKS_PER_CYCLE
            else (?n - 8000) * ucast TICKS_PER_CYCLE + TICKS_PER_SECOND"
  have "uint ?m = uint c mod 16"
    by (simp add: masks_as_take_bit uint_take_bit_mod)
  then have "uint ?n = uint c + d"
    using c d cyc by (intro uint_unfold_cycle) simp_all
  then have t: "uint ?t = (uint c + d) * 3072"
    using c d by (simp add: uint_cycles_to_ticks)
  have to: "uint (?t + ?o) = (uint c + d) * 3072 + uint ?o"
    using c d off by (subst uint_plus_no_overflow) (simp_all only: t, simp_all)
  have st: "uint (secs * TICKS_PER_SECOND) = uint secs * 24576000"
    using s by (subst uint_times_no_overflow) (simp_all add: consts_defs)
  have "uint (syt_ticks c syt secs) = ((uint c + d) * 3072 + uint ?o + uint secs * 24576000) mod MAX_TICKS"
    unfolding syt_ticks_def Let_def using c d s off
    by (subst uint_addTicks) (simp_all only: to st, simp_all)
  then show ?thesis by (simp add: algebra_simps)
qed

lemma ticks_mod_cycles:
  fixes k off :: int
  assumes "0 \<le> off" and "off < 3072"
  shows "(k * 3072 + off) mod MAX_TICKS = (k mod 1024000) * 3072 + off"
proof -
  have "(k * 3072 + off) mod (3072 * 1024000) =
      3072 * ((k * 3072 + off) div 3072 mod 1024000) + (k * 3072 + off) mod 3072"
    by (rule zmod_zmult2_eq) simp
  then show ?thesis using assms by simp
qed

lemma uint_ticks_word:
  fixes t :: int
  shows "uint (of_int (t mod MAX_TICKS) :: u64) = t mod MAX_TICKS"
  by (simp add: uint_word_of_int_eq take_bit_int_eq_self order.strict_trans [OF pos_mod_bound])

lemma uint_cycle_word:
  fixes c :: int
  shows "uint (of_int (c mod 8000) :: u32) = c mod 8000"
  by (simp add: uint_word_of_int_eq take_bit_int_eq_self order.strict_trans [OF pos_mod_bound])

text \<open>The register and the SYT field of a wrapped point in time, given in cycles.\<close>

lemma timer_of_cycles:
  fixes k off :: int
  assumes "0 \<le> off" and "off < 3072"
  defines "ctr \<equiv> TICKS_TO_CYCLE_TIMER (of_int ((k * 3072 + off) mod MAX_TICKS))"
  shows "uint (CYCLE_TIMER_GET_CYCLES ctr) = k mod 8000"
    and "uint (CYCLE_TIMER_GET_SECS ctr) = k div 8000 mod 128"
proof -
  let ?t = "(k mod 1024000) * 3072 + off"
  have t: "uint (of_int ((k * 3072 + off) mod MAX_TICKS) :: u64) = ?t"
    unfolding uint_ticks_word using assms(1,2) by (rule ticks_mod_cycles)
  have c: "?t div 3072 = k mod 1024000"
    using assms(1,2) by simp
  have "?t div 24576000 = ?t div 3072 div 8000"
    by (simp flip: zdiv_zmult2_eq)
  also have "\<dots> = (k mod 1024000) div 8000" by (simp only: c)
  also have "\<dots> = k div 8000 mod 128"
    using zmod_zmult2_eq [of 128 k 8000] by simp
  finally show "uint (CYCLE_TIMER_GET_SECS ctr) = k div 8000 mod 128"
    unfolding ctr_def timer_of_ticks t by simp
  show "uint (CYCLE_TIMER_GET_CYCLES ctr) = k mod 8000"
    unfolding ctr_def timer_of_ticks t c by (simp add: mod_mod_cancel)
qed

lemma syt_of_cycles:
  fixes k off :: int
  assumes "0 \<le> off" and "off < 3072"
  defines "syt \<equiv> TICKS_TO_SYT (of_int ((k * 3072 + off) mod MAX_TICKS))"
  shows "uint (CYCLE_TIMER_GET_CYCLES syt) = k mod 16"
    and "uint (CYCLE_TIMER_GET_OFFSET syt) = off"
proof -
  have t: "uint (of_int ((k * 3072 + off) mod MAX_TICKS) :: u64) = (k mod 1024000) * 3072 + off"
    unfolding uint_ticks_word using assms(1,2) by (rule ticks_mod_cycles)
  then show "uint (CYCLE_TIMER_GET_CYCLES syt) = k mod 16"
    unfolding syt_def syt_of_ticks t using assms(1,2) by (simp add: mod_mod_cancel)
  from t show "uint (CYCLE_TIMER_GET_OFFSET syt) = off"
    unfolding syt_def syt_of_ticks t using assms(1,2) by simp
qed

text \<open>
  The seconds the receive conversion uses: those of the packet's cycle, when the register is
  read less than half a second after the packet arrived.
\<close>

lemma rcv_seconds:
  fixes s c e :: int and cyc secs :: u64 and cw :: u32
  assumes s: "0 \<le> s" "s < 128" and c: "0 \<le> c" "c < 8000" and e: "0 \<le> e" "e < 4000"
    and cw: "uint cw = c"
    and cyc: "uint cyc = (s * 8000 + c + e) mod 8000"
    and secs: "uint secs = (s * 8000 + c + e) div 8000 mod 128"
  shows "uint (if ucast cw > cyc \<and> 0 \<le>s diffCycles (ucast cyc) cw
               then (if secs \<noteq> 0 then secs - 1 else 127) else secs) = s"
proof (cases "c + e < 8000")
  case True
  then have "uint cyc = c + e"
    using c e cyc by (simp add: add.assoc)
  moreover have "uint secs = s"
    using True c e s secs by (simp add: add.assoc)
  ultimately show ?thesis
    using e cw by (simp add: word_less_def uint_ucast_up)
next
  case False
  have "(c + e) div 8000 = 1" "(c + e) mod 8000 = c + e - 8000"
    using False c e by (simp_all add: mod_one_down)
  then have cyc': "uint cyc = c + e - 8000" and secs': "uint secs = (s + 1) mod 128"
    using cyc secs by (simp_all add: add.assoc)
  have "uint (ucast cyc :: u32) = c + e - 8000"
    using cyc' False c e by (simp add: unsigned_ucast_eq take_bit_int_eq_self)
  then have "sint (diffCycles (ucast cyc) cw) = e"
    using cw False c e by (subst sint_diffCycles) (simp_all add: Let_def)
  then have "ucast cw > cyc \<and> 0 \<le>s diffCycles (ucast cyc) cw"
    using e cyc' cw by (simp add: word_less_def uint_ucast_up word_sle_eq)
  moreover have "uint (if secs \<noteq> 0 then secs - 1 else 127) = s"
  proof (cases "s = 127")
    case True
    then have "secs = 0" using secs' by (simp add: word_uint_eq_iff)
    then show ?thesis using True by simp
  next
    case False
    then have "uint secs = s + 1" using s secs' by simp
    moreover from this have "secs \<noteq> 0" using s by auto
    ultimately show ?thesis using s by (simp add: uint_minus_no_underflow)
  qed
  ultimately show ?thesis by simp
qed

lemma xmit_seconds:
  fixes s c e :: int and cyc secs :: u64 and cw :: u32
  assumes s: "0 \<le> s" "s < 128" and c: "0 \<le> c" "c < 8000" and e: "0 \<le> e" "e < 4000"
    and cw: "uint cw = (c + e) mod 8000"
    and cyc: "uint cyc = c" and secs: "uint secs = s"
  shows "uint (if cyc > ucast cw \<and> 0 \<le>s diffCycles cw (ucast cyc)
               then (if secs \<noteq> 0 then secs - 1 else 127) else secs)
         = (if c + e < 8000 then s else (s - 1) mod 128)"
proof (cases "c + e < 8000")
  case True
  then have "uint cw = c + e" using c e cw by simp
  then show ?thesis
    using True e cyc secs by (simp add: word_less_def uint_ucast_up)
next
  case False
  then have cw': "uint cw = c + e - 8000" using c e cw by (simp add: mod_one_down)
  have "uint (ucast cyc :: u32) = c"
    using cyc c by (simp add: unsigned_ucast_eq take_bit_int_eq_self)
  then have "sint (diffCycles cw (ucast cyc)) = e"
    using cw' False c e by (subst sint_diffCycles) (simp_all add: Let_def)
  then have "cyc > ucast cw \<and> 0 \<le>s diffCycles cw (ucast cyc)"
    using e cyc cw' by (simp add: word_less_def uint_ucast_up word_sle_eq)
  moreover have "uint (if secs \<noteq> 0 then secs - 1 else 127) = (s - 1) mod 128"
  proof (cases "s = 0")
    case True
    then show ?thesis using secs by (simp add: word_uint_eq_iff)
  next
    case False
    then have "secs \<noteq> 0" using secs by auto
    then show ?thesis using False s secs by (simp add: uint_minus_no_underflow)
  qed
  ultimately show ?thesis using False by simp
qed

lemma uint_cycles_to_ticks_32:
  fixes n :: u32
  assumes "uint n < 16000"
  shows "uint (if n < 8000 then ucast (n * TICKS_PER_CYCLE)
               else ucast ((n - 8000) * TICKS_PER_CYCLE) + TICKS_PER_SECOND :: u64) = uint n * 3072"
proof (cases "uint n < 8000")
  case True
  then have "uint (n * TICKS_PER_CYCLE) = uint n * 3072"
    by (subst uint_times_no_overflow) (simp_all add: consts_defs)
  then show ?thesis using True by (simp add: word_less_def uint_ucast_up)
next
  case False
  then have "uint (n - 8000) = uint n - 8000"
    by (simp add: uint_minus_no_underflow)
  moreover from this have "uint ((n - 8000) * TICKS_PER_CYCLE) = (uint n - 8000) * 3072"
    using assms by (subst uint_times_no_overflow) (simp_all add: consts_defs)
  ultimately have "uint (ucast ((n - 8000) * TICKS_PER_CYCLE) + TICKS_PER_SECOND :: u64) = uint n * 3072"
    using assms by (subst uint_plus_no_overflow) (simp_all add: consts_defs uint_ucast_up)
  then show ?thesis using False by (simp add: word_less_def)
qed

lemma uint_sytRecvToFullTicks2:
  fixes d :: int and ctr :: u32
  assumes c: "uint (CYCLE_TIMER_GET_CYCLES (ucast ctr)) < 8000"
    and s: "uint (CYCLE_TIMER_GET_SECS (ucast ctr)) < 128"
    and d: "0 \<le> d" "d < 16"
    and cyc: "uint (CYCLE_TIMER_GET_CYCLES syt) = (uint (CYCLE_TIMER_GET_CYCLES (ucast ctr)) + d) mod 16"
    and off: "uint (CYCLE_TIMER_GET_OFFSET syt) < 3072"
  shows "uint (sytRecvToFullTicks2 syt ctr) =
     ((uint (CYCLE_TIMER_GET_SECS (ucast ctr)) * 8000 + uint (CYCLE_TIMER_GET_CYCLES (ucast ctr)) + d) * 3072
      + uint (CYCLE_TIMER_GET_OFFSET syt)) mod MAX_TICKS"
proof -
  let ?C = "CYCLE_TIMER_GET_CYCLES (ucast ctr)" and ?S = "CYCLE_TIMER_GET_SECS (ucast ctr)"
  let ?c = "ucast ?C :: u32" and ?y = "ucast (CYCLE_TIMER_GET_CYCLES syt) :: u32"
  let ?o = "CYCLE_TIMER_GET_OFFSET syt" and ?m = "?c AND 0xF"
  let ?n = "?c + ((if ?y < ?m then ?y + 0x10 else ?y) - ?m)"
  let ?t = "if ?n < 8000 then ucast (?n * TICKS_PER_CYCLE)
            else ucast ((?n - 8000) * TICKS_PER_CYCLE) + TICKS_PER_SECOND :: u64"
  have c': "uint ?c = uint ?C"
    using c by (simp add: unsigned_ucast_eq take_bit_int_eq_self)
  have y': "uint ?y = (uint ?c + d) mod 16"
    using cyc c' by (simp add: unsigned_ucast_eq take_bit_int_eq_self order.strict_trans [OF pos_mod_bound])
  have "?m = take_bit 4 ?c"
    by (simp add: take_bit_eq_mask mask_eq_exp_minus_1)
  then have "uint ?m = uint ?c mod 16"
    by (simp only: uint_take_bit_mod) simp
  then have "uint ?n = uint ?c + d"
    using c c' d y' by (intro uint_unfold_cycle) simp_all
  then have t: "uint ?t = (uint ?C + d) * 3072"
    using c c' d by (simp add: uint_cycles_to_ticks_32)
  have to: "uint (?t + ?o) = (uint ?C + d) * 3072 + uint ?o"
    using c d off by (subst uint_plus_no_overflow) (simp_all only: t, simp_all)
  have st: "uint (?S * TICKS_PER_SECOND) = uint ?S * 24576000"
    using s by (subst uint_times_no_overflow) (simp_all add: consts_defs)
  have "uint (sytRecvToFullTicks2 syt ctr) = ((uint ?C + d) * 3072 + uint ?o + uint ?S * 24576000) mod MAX_TICKS"
    unfolding sytRecvToFullTicks2_def Let_def using c d s off
    by (subst uint_addTicks) (simp_all only: to st, simp_all)
  then show ?thesis by (simp add: algebra_simps)
qed

lemma syt_cycle_field:
  fixes s c d off :: int
  assumes "0 \<le> off" and "off < 3072"
  shows "uint (CYCLE_TIMER_GET_CYCLES
           (TICKS_TO_SYT (of_int (((s * 8000 + c + d) * 3072 + off) mod MAX_TICKS)))) = (c + d) mod 16"
proof -
  have "s * 8000 + c + d = (c + d) + (s * 500) * 16" by (simp add: algebra_simps)
  then have "(s * 8000 + c + d) mod 16 = (c + d) mod 16" by (simp only: mod_mult_self1)
  then show ?thesis using assms by (simp only: syt_of_cycles(1))
qed

text \<open>The field of a time in second \<open>s\<close>, unfolded with the seconds \<open>s'\<close>.\<close>

lemma syt_ticks_of_cycles:
  fixes s s' c d off :: int and C S :: u64
  assumes C: "uint C = c" and S: "uint S = s'" and c: "c < 8000" and s': "s' < 128"
    and d: "0 \<le> d" "d < 16" and off: "0 \<le> off" "off < 3072"
  shows "syt_ticks C (TICKS_TO_SYT (of_int (((s * 8000 + c + d) * 3072 + off) mod MAX_TICKS))) S
         = of_int (((s' * 8000 + c + d) * 3072 + off) mod MAX_TICKS)"
proof -
  let ?syt = "TICKS_TO_SYT (of_int (((s * 8000 + c + d) * 3072 + off) mod MAX_TICKS))"
  have o: "uint (CYCLE_TIMER_GET_OFFSET ?syt) = off"
    by (rule syt_of_cycles(2) [OF off])
  have "uint (syt_ticks C ?syt S) =
      ((uint S * 8000 + uint C + d) * 3072 + uint (CYCLE_TIMER_GET_OFFSET ?syt)) mod MAX_TICKS"
  proof (rule uint_syt_ticks [OF _ _ d])
    show "uint C < 8000" "uint S < 128" using C S c s' by simp_all
    show "uint (CYCLE_TIMER_GET_CYCLES ?syt) = (uint C + d) mod 16"
      unfolding C by (rule syt_cycle_field [OF off])
    show "uint (CYCLE_TIMER_GET_OFFSET ?syt) < 3072" unfolding o by (rule off)
  qed
  then show ?thesis
    unfolding word_uint_eq_iff uint_ticks_word o C S .
qed

lemma sytRecvToFullTicks2_of_cycles:
  fixes s c d off :: int and ctr :: u32
  assumes c: "uint (CYCLE_TIMER_GET_CYCLES (ucast ctr)) = c" "c < 8000"
    and s: "uint (CYCLE_TIMER_GET_SECS (ucast ctr)) = s" "s < 128"
    and d: "0 \<le> d" "d < 16" and off: "0 \<le> off" "off < 3072"
  shows "sytRecvToFullTicks2 (TICKS_TO_SYT (of_int (((s * 8000 + c + d) * 3072 + off) mod MAX_TICKS))) ctr
         = of_int (((s * 8000 + c + d) * 3072 + off) mod MAX_TICKS)"
proof -
  let ?syt = "TICKS_TO_SYT (of_int (((s * 8000 + c + d) * 3072 + off) mod MAX_TICKS))"
  have o: "uint (CYCLE_TIMER_GET_OFFSET ?syt) = off"
    by (rule syt_of_cycles(2) [OF off])
  have "uint (sytRecvToFullTicks2 ?syt ctr) =
      ((uint (CYCLE_TIMER_GET_SECS (ucast ctr)) * 8000 + uint (CYCLE_TIMER_GET_CYCLES (ucast ctr)) + d) * 3072
       + uint (CYCLE_TIMER_GET_OFFSET ?syt)) mod MAX_TICKS"
  proof (rule uint_sytRecvToFullTicks2 [OF _ _ d])
    show "uint (CYCLE_TIMER_GET_CYCLES (ucast ctr)) < 8000" unfolding c(1) by (rule c(2))
    show "uint (CYCLE_TIMER_GET_SECS (ucast ctr)) < 128" unfolding s(1) by (rule s(2))
    show "uint (CYCLE_TIMER_GET_CYCLES ?syt) = (uint (CYCLE_TIMER_GET_CYCLES (ucast ctr)) + d) mod 16"
      unfolding c(1) by (rule syt_cycle_field [OF off])
    show "uint (CYCLE_TIMER_GET_OFFSET ?syt) < 3072" unfolding o by (rule off)
  qed
  then show ?thesis
    unfolding word_uint_eq_iff uint_ticks_word o c(1) s(1) .
qed

lemma uint_of_cycle:
  assumes "0 \<le> c" and "c < 8000"
  shows "uint (of_int c :: u32) = c" and "uint (ucast (of_int c :: u32) :: u64) = c"
  using assms uint_cycle_word [of c] by (simp_all add: uint_ucast_up)

lemma seconds_mod_ticks:
  fixes k r :: int
  shows "((k mod 128) * 24576000 + r) mod MAX_TICKS = (k * 24576000 + r) mod MAX_TICKS"
proof -
  have "k * 24576000 + r = (k mod 128) * 24576000 + r + (k div 128) * MAX_TICKS"
    using div_mult_mod_eq [of k 128] by linarith
  then show ?thesis by (simp only: mod_mult_self1)
qed

lemma xmit_seconds_shift:
  fixes s c d off :: int
  shows "(((if same then s else (s - 1) mod 128) * 8000 + c + d) * 3072 + off) mod MAX_TICKS =
    (((if same then s else s + 1) * 8000 + c + d) * 3072 + off - (if same then 0 else 2 * 24576000)) mod MAX_TICKS"
proof (cases same)
  case False
  let ?r = "(c + d) * 3072 + off"
  have "(((s - 1) mod 128 * 8000 + c + d) * 3072 + off) mod MAX_TICKS = ((s - 1) mod 128 * 24576000 + ?r) mod MAX_TICKS"
    by (rule arg_cong [where f = "\<lambda>x. x mod MAX_TICKS"]) (simp add: distrib_right)
  also have "\<dots> = ((s - 1) * 24576000 + ?r) mod MAX_TICKS" by (rule seconds_mod_ticks)
  also have "\<dots> = (((s + 1) * 8000 + c + d) * 3072 + off - 2 * 24576000) mod MAX_TICKS"
    by (rule arg_cong [where f = "\<lambda>x. x mod MAX_TICKS"]) (simp add: left_diff_distrib distrib_right)
  finally show ?thesis using False by simp
qed simp

lemma diffTicks_distance:
  assumes "uint x < MAX_TICKS" and "uint y < MAX_TICKS"
  shows "\<bar>sint (diffTicks x y)\<bar> \<le> 1572864000"
    and "- MAX_TICKS \<le> uint y + sint (diffTicks x y)" "uint y + sint (diffTicks x y) < 2 * MAX_TICKS"
    and "(uint y + sint (diffTicks x y)) mod MAX_TICKS = uint x"
proof -
  have least: "\<bar>d'\<bar> \<le> 1572864000 \<and> - MAX_TICKS \<le> b + d' \<and> b + d' < 2 * MAX_TICKS
      \<and> (b + d' = a \<or> b + d' = a - MAX_TICKS \<or> b + d' = a + MAX_TICKS)"
    if "0 \<le> a" "a < MAX_TICKS" "0 \<le> b" "b < MAX_TICKS"
      "d' = (if 1572864000 < a - b then a - b - MAX_TICKS
             else if a - b < -1572864000 then a - b + MAX_TICKS else a - b)" for a b d' :: int
    using that by (auto split: if_splits)
  note L = least [OF uint_ge_0 assms(1) uint_ge_0 assms(2) sint_diffTicks [OF assms, unfolded Let_def]]
  then show "\<bar>sint (diffTicks x y)\<bar> \<le> 1572864000"
    "- MAX_TICKS \<le> uint y + sint (diffTicks x y)" "uint y + sint (diffTicks x y) < 2 * MAX_TICKS"
    by simp_all
  from L show "(uint y + sint (diffTicks x y)) mod MAX_TICKS = uint x"
    using assms(1) by auto
qed

lemma wrapAtMinMaxTicks_diff:
  assumes x: "uint x < MAX_TICKS" and y: "uint y < MAX_TICKS"
  shows "wrapAtMinMaxTicks (y + diffTicks x y) = x"
proof -
  let ?d = "sint (diffTicks x y)"
  note b = diffTicks_distance [OF assms]
  have "y + diffTicks x y = of_int (uint y + ?d)" by simp
  then have s: "sint (y + diffTicks x y) = uint y + ?d"
    using b(2,3) by (simp only:) (rule sint_of_int_in_range, simp_all)
  have "sint (wrapAtMinMaxTicks (y + diffTicks x y)) = (uint y + ?d) mod MAX_TICKS"
    using b(2,3) by (subst sint_wrapAtMinMaxTicks) (simp_all only: s)
  also have "\<dots> = sint x"
    using x b(4) by (simp add: sint_of_uint)
  finally show ?thesis by (rule signed_word_eqI)
qed

lemma uint_CYCLE_TIMER_TO_TICKS:
  "uint (CYCLE_TIMER_TO_TICKS x) =
     uint (CYCLE_TIMER_GET_SECS x) * 24576000 + uint (CYCLE_TIMER_GET_CYCLES x) * 3072
     + uint (CYCLE_TIMER_GET_OFFSET x)"
proof -
  have b: "uint (CYCLE_TIMER_GET_SECS x) < 128" "uint (CYCLE_TIMER_GET_CYCLES x) < 8192"
    "uint (CYCLE_TIMER_GET_OFFSET x) < 4096"
    by (simp_all add: timer_fields uint_take_bit_mod)
  have s: "uint (CYCLE_TIMER_GET_SECS x * TICKS_PER_SECOND) = uint (CYCLE_TIMER_GET_SECS x) * 24576000"
    using b by (subst uint_times_no_overflow) (simp_all add: consts_defs)
  have c: "uint (CYCLE_TIMER_GET_CYCLES x * ucast TICKS_PER_CYCLE) = uint (CYCLE_TIMER_GET_CYCLES x) * 3072"
    using b by (subst uint_times_no_overflow) (simp_all add: consts_defs)
  have "uint (CYCLE_TIMER_GET_SECS x * TICKS_PER_SECOND + CYCLE_TIMER_GET_CYCLES x * ucast TICKS_PER_CYCLE)
      = uint (CYCLE_TIMER_GET_SECS x) * 24576000 + uint (CYCLE_TIMER_GET_CYCLES x) * 3072"
    using b by (subst uint_plus_no_overflow) (simp_all add: s c)
  then show ?thesis
    unfolding CYCLE_TIMER_TO_TICKS_def using b by (subst uint_plus_no_overflow) simp_all
qed

lemma ticks_parts_sum:
  fixes t :: int
  shows "t div 24576000 * 24576000 + (t div 3072) mod 8000 * 3072 + t mod 3072 = t"
proof -
  have "t div 24576000 = t div 3072 div 8000" by (simp flip: zdiv_zmult2_eq)
  then show ?thesis
    using div_mult_mod_eq [of t 3072] div_mult_mod_eq [of "t div 3072" 8000] by linarith
qed

lemma ticks_parts_of_timer:
  assumes "uint (CYCLE_TIMER_GET_CYCLES r) < 8000" and "uint (CYCLE_TIMER_GET_OFFSET r) < 3072"
  shows "TICKS_TO_SECS (CYCLE_TIMER_TO_TICKS r) = CYCLE_TIMER_GET_SECS r"
    and "TICKS_TO_CYCLES (CYCLE_TIMER_TO_TICKS r) = CYCLE_TIMER_GET_CYCLES r"
    and "TICKS_TO_OFFSET (CYCLE_TIMER_TO_TICKS r) = CYCLE_TIMER_GET_OFFSET r"
proof -
  have parts: "(a * 24576000 + b * 3072 + o') div 24576000 = a"
    "(a * 24576000 + b * 3072 + o') div 3072 mod 8000 = b"
    "(a * 24576000 + b * 3072 + o') mod 3072 = o'"
    if "0 \<le> b" "b < 8000" "0 \<le> o'" "o' < 3072" for a b o' :: int
  proof -
    have k: "a * 24576000 + b * 3072 + o' = (a * 8000 + b) * 3072 + o'" by simp
    then have d: "(a * 24576000 + b * 3072 + o') div 3072 = a * 8000 + b"
      using that by simp
    then show "(a * 24576000 + b * 3072 + o') div 3072 mod 8000 = b" using that by simp
    have "((a * 8000 + b) * 3072 + o') mod 3072 = o' mod 3072" by (rule mod_mult_self3)
    then show "(a * 24576000 + b * 3072 + o') mod 3072 = o'" unfolding k using that by simp
    have "(a * 24576000 + b * 3072 + o') div 24576000 = (a * 24576000 + b * 3072 + o') div 3072 div 8000"
      by (simp flip: zdiv_zmult2_eq)
    then show "(a * 24576000 + b * 3072 + o') div 24576000 = a" using that by (simp add: d)
  qed
  note p = parts [OF uint_ge_0 assms(1) uint_ge_0 assms(2)]
  show "TICKS_TO_SECS (CYCLE_TIMER_TO_TICKS r) = CYCLE_TIMER_GET_SECS r"
    "TICKS_TO_CYCLES (CYCLE_TIMER_TO_TICKS r) = CYCLE_TIMER_GET_CYCLES r"
    "TICKS_TO_OFFSET (CYCLE_TIMER_TO_TICKS r) = CYCLE_TIMER_GET_OFFSET r"
    by (simp_all only: word_uint_eq_iff uint_ticks_parts uint_CYCLE_TIMER_TO_TICKS p)
qed

lemma register_fields:
  fixes r :: u64
  shows "push_bit 25 (take_bit 7 (take_bit 7 (drop_bit 25 r)))
         OR push_bit 12 (take_bit 13 (take_bit 13 (drop_bit 12 r)))
         OR take_bit 12 (take_bit 12 r) = take_bit 32 r"
proof (rule bit_word_eqI)
  fix n :: nat
  assume "n < LENGTH(64)"
  consider "n < 12" | "12 \<le> n" "n < 25" | "25 \<le> n" by linarith
  then show "bit (push_bit 25 (take_bit 7 (take_bit 7 (drop_bit 25 r)))
         OR push_bit 12 (take_bit 13 (take_bit 13 (drop_bit 12 r)))
         OR take_bit 12 (take_bit 12 r)) n = bit (take_bit 32 r) n"
    using \<open>n < LENGTH(64)\<close> by cases (auto simp: bit_simps)
qed

lemma ticks_timer_ticks:
  assumes "uint t < MAX_TICKS"
  shows "CYCLE_TIMER_TO_TICKS (TICKS_TO_CYCLE_TIMER t) = t"
proof -
  have "uint t div 24576000 < 128" using assms by simp
  then have "uint (CYCLE_TIMER_TO_TICKS (TICKS_TO_CYCLE_TIMER t)) =
      uint t div 24576000 * 24576000 + (uint t div 3072) mod 8000 * 3072 + uint t mod 3072"
    unfolding uint_CYCLE_TIMER_TO_TICKS timer_of_ticks
    by (simp add: pos_imp_zdiv_nonneg_iff)
  then show ?thesis by (simp only: ticks_parts_sum word_uint_eq_iff)
qed

lemma timer_ticks_timer:
  assumes "uint r < 2 ^ 32"
    and "uint (CYCLE_TIMER_GET_CYCLES r) < 8000" and "uint (CYCLE_TIMER_GET_OFFSET r) < 3072"
  shows "TICKS_TO_CYCLE_TIMER (CYCLE_TIMER_TO_TICKS r) = r"
proof -
  have "TICKS_TO_CYCLE_TIMER (CYCLE_TIMER_TO_TICKS r) = take_bit 32 r"
    unfolding TICKS_TO_CYCLE_TIMER_def ticks_parts_of_timer [OF assms(2,3)] masks_as_take_bit
      timer_fields register_fields by simp
  also have "\<dots> = r"
    using assms(1) by (simp add: word_uint_eq_iff uint_take_bit_mod)
  finally show ?thesis .
qed

text \<open>The distance of two cycles, and the cycle of a tick count as 32 bits.\<close>

lemma diffCycles_near:
  assumes "uint x = (uint y + z) mod 8000" and "uint y < 8000" and "- 4000 < z" and "z < 4000"
  shows "sint (diffCycles x y) = z"
proof -
  have y: "0 \<le> uint y" by simp
  consider "uint y + z < 0" | "0 \<le> uint y + z" "uint y + z < 8000" | "8000 \<le> uint y + z" by linarith
  then have x: "uint x = uint y + z + (if uint y + z < 0 then 8000 else if uint y + z < 8000 then 0 else - 8000)"
  proof cases
    case 1
    have "(uint y + z) mod 8000 = (uint y + z + 8000) mod 8000" by simp
    also have "\<dots> = uint y + z + 8000" using 1 y assms(3) by (intro mod_pos_pos_trivial) linarith+
    finally show ?thesis using 1 assms(1) by simp
  next
    case 2
    then show ?thesis using assms(1) by (simp add: mod_pos_pos_trivial)
  next
    case 3
    have "(uint y + z) mod 8000 = (uint y + z - 8000) mod 8000" by simp
    also have "\<dots> = uint y + z - 8000" using 3 assms(2,4) by (intro mod_pos_pos_trivial) linarith+
    finally show ?thesis using 3 assms(1) by simp
  qed
  have b: "uint x < 8192" "uint y < 8192" using x assms(2-4) y by (simp_all split: if_splits)
  show ?thesis unfolding sint_diffCycles [OF b] Let_def using x assms(2-4) y by (simp split: if_splits)
qed

lemma uint_cycle_ucast: "uint (ucast (TICKS_TO_CYCLES t) :: u32) = uint t div 3072 mod 8000"
proof -
  have "uint (TICKS_TO_CYCLES t) < 8000" by (simp add: uint_ticks_parts)
  then show ?thesis by (simp add: unsigned_ucast_eq uint_ticks_parts take_bit_int_eq_self)
qed

section \<open>Properties of the cycle timer\<close>

text \<open>
  C14. Reconstruction of a received SYT timestamp. A packet arrives in second \<open>s\<close>, cycle \<open>c\<close>
  and carries the SYT field of a presentation time that lies \<open>d < 16\<close> cycles later; the
  register is read \<open>e < 4000\<close> cycles (half a second) after the arrival. Then
  \<^verbatim>\<open>sytRecvToFullTicks\<close> returns exactly the presentation time, across every wrap of the SYT
  field, of the cycle count and of the seconds.
\<close>

theorem sytRecvToFullTicks_correct:
  fixes s c d e off n :: int
  assumes s: "0 \<le> s" "s < 128" and c: "0 \<le> c" "c < 8000"
    and d: "0 \<le> d" "d < 16" and e: "0 \<le> e" "e < 4000"
    and off: "0 \<le> off" "off < 3072" and n: "0 \<le> n" "n < 3072"
  shows "sytRecvToFullTicks
           (TICKS_TO_SYT (of_int (((s * 8000 + c + d) * 3072 + off) mod MAX_TICKS)))
           (of_int c)
           (TICKS_TO_CYCLE_TIMER (of_int (((s * 8000 + c + e) * 3072 + n) mod MAX_TICKS)))
         = of_int (((s * 8000 + c + d) * 3072 + off) mod MAX_TICKS)"
proof -
  note cw = uint_of_cycle [OF c]
  show ?thesis
    unfolding sytRecvToFullTicks_tail
    by (rule syt_ticks_of_cycles [OF cw(2) rcv_seconds [OF s c e cw(1) timer_of_cycles [OF n]]])
      (fact c s d off)+
qed

theorem sytRecvToFullTicks_correct_witness:
  "sytRecvToFullTicks
     (TICKS_TO_SYT (of_int (((127 * 8000 + 7995 + 10) * 3072 + 500) mod MAX_TICKS)))
     (of_int 7995)
     (TICKS_TO_CYCLE_TIMER (of_int (((127 * 8000 + 7995 + 20) * 3072 + 7) mod MAX_TICKS)))
   = of_int (((127 * 8000 + 7995 + 10) * 3072 + 500) mod MAX_TICKS)"
  by (rule sytRecvToFullTicks_correct [of 127 7995 10 20 500 7]) simp_all

text \<open>
  The register-based variant \<^verbatim>\<open>sytRecvToFullTicks2\<close> returns the presentation time when the
  register value belongs to the packet's cycle and the presentation lies less than 16 cycles
  later; its 32-bit intermediate results never wrap.
\<close>

theorem sytRecvToFullTicks2_correct:
  fixes s c d off :: int and ctr :: u32
  assumes "uint (CYCLE_TIMER_GET_CYCLES (ucast ctr)) = c" and "c < 8000"
    and "uint (CYCLE_TIMER_GET_SECS (ucast ctr)) = s"
    and "0 \<le> d" and "d < 16" and "0 \<le> off" and "off < 3072"
  shows "sytRecvToFullTicks2 (TICKS_TO_SYT (of_int (((s * 8000 + c + d) * 3072 + off) mod MAX_TICKS))) ctr
         = of_int (((s * 8000 + c + d) * 3072 + off) mod MAX_TICKS)"
proof (rule sytRecvToFullTicks2_of_cycles)
  have "uint (CYCLE_TIMER_GET_SECS (ucast ctr)) < 128"
    by (simp add: timer_fields uint_take_bit_mod)
  then show "s < 128" using assms by simp
qed (fact assms)+

theorem sytRecvToFullTicks2_correct_witness:
  "sytRecvToFullTicks2 (TICKS_TO_SYT (of_int (((3 * 8000 + 7999 + 4) * 3072 + 100) mod MAX_TICKS))) 0x7F3F000
   = of_int (((3 * 8000 + 7999 + 4) * 3072 + 100) mod MAX_TICKS)"
  by (rule sytRecvToFullTicks2_correct) (simp_all add: timer_fields uint_take_bit_mod uint_drop_bit_div)

text \<open>
  The transmit variant \<^verbatim>\<open>sytXmitToFullTicks\<close>, for a packet due \<open>e < 4000\<close> cycles after the
  register was read in second \<open>s\<close>, cycle \<open>c\<close>: it returns the presentation time as long as the
  transmit cycle falls in the same second. When the transmit cycle lies past the end of the
  second, the code subtracts one from the seconds where the transmit second is one more, so
  the result is two seconds early (the time of second \<open>s - 1\<close> in place of \<open>s + 1\<close>).
\<close>

theorem sytXmitToFullTicks_seconds:
  fixes s c d e off n :: int
  assumes s: "0 \<le> s" "s < 128" and c: "0 \<le> c" "c < 8000"
    and d: "0 \<le> d" "d < 16" and e: "0 \<le> e" "e < 4000"
    and off: "0 \<le> off" "off < 3072" and n: "0 \<le> n" "n < 3072"
  shows "sytXmitToFullTicks
           (TICKS_TO_SYT (of_int (((s * 8000 + c + e + d) * 3072 + off) mod MAX_TICKS)))
           (of_int ((c + e) mod 8000))
           (TICKS_TO_CYCLE_TIMER (of_int (((s * 8000 + c) * 3072 + n) mod MAX_TICKS)))
         = of_int (((s * 8000 + c + e + d) * 3072 + off
                    - (if c + e < 8000 then 0 else 2 * 24576000)) mod MAX_TICKS)"
proof -
  let ?ctr = "TICKS_TO_CYCLE_TIMER (of_int (((s * 8000 + c) * 3072 + n) mod MAX_TICKS))"
  let ?s' = "if c + e < 8000 then s else (s - 1) mod 128"
  let ?c' = "(c + e) mod 8000"
  let ?s0 = "if c + e < 8000 then s else s + 1"
  have cyc: "uint (CYCLE_TIMER_GET_CYCLES ?ctr) = c" and sec: "uint (CYCLE_TIMER_GET_SECS ?ctr) = s"
  proof -
    have "(s * 8000 + c) mod 8000 = c" "(s * 8000 + c) div 8000 mod 128 = s"
      using c s by simp_all
    then show "uint (CYCLE_TIMER_GET_CYCLES ?ctr) = c" "uint (CYCLE_TIMER_GET_SECS ?ctr) = s"
      by (simp_all only: timer_of_cycles [OF n])
  qed
  have c': "0 \<le> ?c'" "?c' < 8000" by simp_all
  have k: "s * 8000 + c + e + d = ?s0 * 8000 + ?c' + d"
    using c e by (simp add: mod_one_down)
  note cw = uint_of_cycle [OF c']
  have "sytXmitToFullTicks (TICKS_TO_SYT (of_int (((?s0 * 8000 + ?c' + d) * 3072 + off) mod MAX_TICKS)))
          (of_int ?c') ?ctr = of_int (((?s' * 8000 + ?c' + d) * 3072 + off) mod MAX_TICKS)"
    unfolding sytXmitToFullTicks_tail
    by (rule syt_ticks_of_cycles [OF cw(2) xmit_seconds [OF s c e cw(1) cyc sec] c'(2) _ d off])
      (use s in simp)
  also have "((?s' * 8000 + ?c' + d) * 3072 + off) mod MAX_TICKS =
      ((?s0 * 8000 + ?c' + d) * 3072 + off - (if c + e < 8000 then 0 else 2 * 24576000)) mod MAX_TICKS"
    by (rule xmit_seconds_shift)
  finally show ?thesis unfolding k .
qed

theorem sytXmitToFullTicks_seconds_witness:
  "sytXmitToFullTicks
     (TICKS_TO_SYT (of_int (((5 * 8000 + 7990 + 20 + 3) * 3072 + 100) mod MAX_TICKS)))
     (of_int ((7990 + 20) mod 8000))
     (TICKS_TO_CYCLE_TIMER (of_int (((5 * 8000 + 7990) * 3072 + 0) mod MAX_TICKS)))
   = of_int (((5 * 8000 + 7990 + 20 + 3) * 3072 + 100
              - (if 7990 + 20 < (8000 :: int) then 0 else 2 * 24576000)) mod MAX_TICKS)"
  by (rule sytXmitToFullTicks_seconds [of 5 7990 3 20 100 0]) simp_all

text \<open>
  C31. Tick arithmetic is arithmetic modulo the 128 seconds of the timer: for wrapped operands
  \<^verbatim>\<open>addTicks\<close> and \<^verbatim>\<open>substractTicks\<close> are the sum and the difference modulo the range and undo
  each other, and \<^verbatim>\<open>diffTicks\<close> is the signed distance of least magnitude (at most 64
  seconds), which leads back from the second operand to the first.
\<close>

theorem ticks_arithmetic:
  assumes x: "uint x < MAX_TICKS" and y: "uint y < MAX_TICKS"
  shows "uint (addTicks x y) = (uint x + uint y) mod MAX_TICKS
    \<and> uint (substractTicks x y) = (uint x - uint y) mod MAX_TICKS
    \<and> addTicks (substractTicks x y) y = x
    \<and> \<bar>sint (diffTicks x y)\<bar> \<le> MAX_TICKS div 2
    \<and> wrapAtMinMaxTicks (y + diffTicks x y) = x"
proof -
  have add: "uint (addTicks x y) = (uint x + uint y) mod MAX_TICKS"
    using assms by (intro uint_addTicks) simp
  have sub: "uint (substractTicks x y) = (uint x - uint y) mod MAX_TICKS"
    using assms by (rule uint_substractTicks)
  have "uint (addTicks (substractTicks x y) y) = ((uint x - uint y) mod MAX_TICKS + uint y) mod MAX_TICKS"
    using y by (subst uint_addTicks) (simp_all add: sub add_strict_mono)
  also have "\<dots> = uint x" using x by (simp add: mod_simps)
  finally have "addTicks (substractTicks x y) y = x" by (simp add: word_uint_eq_iff)
  with add sub diffTicks_distance(1) [OF assms] wrapAtMinMaxTicks_diff [OF assms]
  show ?thesis by simp
qed

theorem ticks_arithmetic_witness:
  "uint (addTicks 3145727999 2) = (uint (3145727999 :: u64) + uint (2 :: u64)) mod MAX_TICKS
   \<and> uint (substractTicks 2 3145727999) = (uint (2 :: u64) - uint (3145727999 :: u64)) mod MAX_TICKS
   \<and> addTicks (substractTicks 2 3145727999) 3145727999 = 2
   \<and> \<bar>sint (diffTicks 2 3145727999)\<bar> \<le> MAX_TICKS div 2
   \<and> wrapAtMinMaxTicks (3145727999 + diffTicks 2 3145727999) = 2"
  using ticks_arithmetic [of 3145727999 2] ticks_arithmetic [of 2 3145727999] by simp

text \<open>
  The register layout and the tick count are two encodings of one time: converting a
  wrapped tick count to the register and back gives the same count, and a register value of
  32 bits with a valid cycle count (below 8000) and offset (below 3072) survives the trip
  through ticks.
\<close>

theorem cycle_timer_roundtrip:
  "(uint t < MAX_TICKS \<longrightarrow> CYCLE_TIMER_TO_TICKS (TICKS_TO_CYCLE_TIMER t) = t)
   \<and> (uint r < 2 ^ 32 \<and> uint (CYCLE_TIMER_GET_CYCLES r) < 8000 \<and> uint (CYCLE_TIMER_GET_OFFSET r) < 3072
      \<longrightarrow> TICKS_TO_CYCLE_TIMER (CYCLE_TIMER_TO_TICKS r) = r)"
  by (simp add: ticks_timer_ticks timer_ticks_timer)

theorem cycle_timer_roundtrip_witness:
  "CYCLE_TIMER_TO_TICKS (TICKS_TO_CYCLE_TIMER 3145727999) = 3145727999
   \<and> TICKS_TO_CYCLE_TIMER (CYCLE_TIMER_TO_TICKS 0xFFF3FBFF) = 0xFFF3FBFF"
  using cycle_timer_roundtrip [of 3145727999 "0xFFF3FBFF"]
  by (simp add: timer_fields uint_take_bit_mod uint_drop_bit_div)

text \<open>
  \<^verbatim>\<open>addCycles\<close> on two wrapped cycle counts is the sum modulo 8000 except when the sum is
  exactly 8000: its comparison is strict, so it then returns 8000, which is no valid cycle
  number, where 0 is meant.
\<close>

theorem addCycles_wraps:
  assumes "uint x < 8000" and "uint y < 8000"
  shows "uint (addCycles x y) =
     (if uint x + uint y = 8000 then 8000 else (uint x + uint y) mod 8000)"
  using assms uint_addCycles [OF assms] by (auto simp: mod_one_down)

theorem addCycles_wraps_witness:
  "uint (addCycles 7999 1) =
     (if uint (7999 :: u32) + uint (1 :: u32) = 8000 then 8000
      else (uint (7999 :: u32) + uint (1 :: u32)) mod 8000)
   \<and> uint (addCycles 7999 1) = 8000 \<and> uint (addCycles 7999 2) = 1"
  using addCycles_wraps [of 7999 1] addCycles_wraps [of 7999 2] by simp

end
