(* ===== verification/RingBuffer.thy ===== *)
theory RingBuffer
  imports Prelude
begin

text \<open>
  The byte ring buffer of \<^verbatim>\<open>libutil/ringbuffer.c\<close>: a power-of-two sized array with a read and a
  write pointer of type \<^verbatim>\<open>size_t\<close> (64-bit words), one byte of which always stays free. The
  memory behind \<^verbatim>\<open>buf\<close> is a list of bytes; a \<^verbatim>\<open>memcpy\<close> replaces or reads a segment of it. The
  theory ends with the contract of a bounded queue and its proof for these functions.
\<close>

section \<open>Data and operations\<close>

record ringbuffer =
  buf :: "u8 list"
  write_ptr :: u64
  read_ptr :: u64
  size_rb :: u64
  size_mask :: u64
  mlocked :: bool

text \<open>\<^verbatim>\<open>memcpy\<close> into and out of the buffer's memory.\<close>

definition memcpy_in :: "u8 list \<Rightarrow> u64 \<Rightarrow> u8 list \<Rightarrow> u8 list" where
  "memcpy_in b pos xs = take (unat pos) b @ xs @ drop (unat pos + length xs) b"

definition memcpy_out :: "u8 list \<Rightarrow> u64 \<Rightarrow> u64 \<Rightarrow> u8 list" where
  "memcpy_out b pos n = take (unat n) (drop (unat pos) b)"

text \<open>
  The loop of \<^verbatim>\<open>ffado_ringbuffer_create\<close> that looks for the power of two. \<^verbatim>\<open>1 << power_of_two\<close>
  is an \<^verbatim>\<open>int\<close>; a shift to bit 31 or beyond has no defined value, which is \<open>None\<close>.
\<close>

function find_power_of_two :: "nat \<Rightarrow> u64 \<Rightarrow> nat option" where
  "find_power_of_two power_of_two sz =
     (if 31 \<le> power_of_two then None
      else if 2 ^ power_of_two < sz then find_power_of_two (power_of_two + 1) sz
      else Some power_of_two)"
  by pat_completeness auto
termination
  by (relation "measure (\<lambda>(p, sz). 31 - p)") auto

text \<open>The bytes that \<^verbatim>\<open>malloc\<close> returns are arbitrary: \<open>junk i\<close> is the byte at offset \<open>i\<close>.\<close>

definition ffado_ringbuffer_create :: "(nat \<Rightarrow> u8) \<Rightarrow> u64 \<Rightarrow> ringbuffer option" where
  "ffado_ringbuffer_create junk sz =
     (case find_power_of_two 1 sz of
        None \<Rightarrow> None
      | Some power_of_two \<Rightarrow>
          (let s = 2 ^ power_of_two
           in Some \<lparr>buf = map junk [0..<unat s], write_ptr = 0, read_ptr = 0,
                    size_rb = s, size_mask = s - 1, mlocked = False\<rparr>))"

definition ffado_ringbuffer_mlock :: "ringbuffer \<Rightarrow> ringbuffer" where
  "ffado_ringbuffer_mlock rb = rb\<lparr>mlocked := True\<rparr>"

definition ffado_ringbuffer_reset :: "ringbuffer \<Rightarrow> ringbuffer" where
  "ffado_ringbuffer_reset rb = rb\<lparr>read_ptr := 0, write_ptr := 0\<rparr>"

definition ffado_ringbuffer_read_space :: "ringbuffer \<Rightarrow> u64" where
  "ffado_ringbuffer_read_space rb =
     (let w = write_ptr rb; r = read_ptr rb
      in if w > r then w - r else (w - r + size_rb rb) AND size_mask rb)"

definition ffado_ringbuffer_write_space :: "ringbuffer \<Rightarrow> u64" where
  "ffado_ringbuffer_write_space rb =
     (let w = write_ptr rb; r = read_ptr rb
      in if w > r then ((r - w + size_rb rb) AND size_mask rb) - 1
         else if w < r then (r - w) - 1
         else size_rb rb - 1)"

text \<open>Reading returns the bytes copied to \<^verbatim>\<open>dest\<close>; their number is the C function's result.\<close>

definition ffado_ringbuffer_read :: "ringbuffer \<Rightarrow> u64 \<Rightarrow> u8 list \<times> ringbuffer" where
  "ffado_ringbuffer_read rb cnt =
     (let free_cnt = ffado_ringbuffer_read_space rb
      in if free_cnt = 0 then ([], rb)
         else
           let to_read = (if cnt > free_cnt then free_cnt else cnt);
               cnt2 = read_ptr rb + to_read;
               (n1, n2) = (if cnt2 > size_rb rb
                           then (size_rb rb - read_ptr rb, cnt2 AND size_mask rb)
                           else (to_read, 0));
               d1 = memcpy_out (buf rb) (read_ptr rb) n1;
               rb1 = rb\<lparr>read_ptr := (read_ptr rb + n1) AND size_mask rb\<rparr>
           in if n2 \<noteq> 0
              then (d1 @ memcpy_out (buf rb1) (read_ptr rb1) n2,
                    rb1\<lparr>read_ptr := (read_ptr rb1 + n2) AND size_mask rb\<rparr>)
              else (d1, rb1))"

definition ffado_ringbuffer_peek :: "ringbuffer \<Rightarrow> u64 \<Rightarrow> u8 list" where
  "ffado_ringbuffer_peek rb cnt =
     (let tmp_read_ptr = read_ptr rb;
          free_cnt = ffado_ringbuffer_read_space rb
      in if free_cnt = 0 then []
         else
           let to_read = (if cnt > free_cnt then free_cnt else cnt);
               cnt2 = tmp_read_ptr + to_read;
               (n1, n2) = (if cnt2 > size_rb rb
                           then (size_rb rb - tmp_read_ptr, cnt2 AND size_mask rb)
                           else (to_read, 0));
               d1 = memcpy_out (buf rb) tmp_read_ptr n1;
               tmp_read_ptr = (tmp_read_ptr + n1) AND size_mask rb
           in if n2 \<noteq> 0 then d1 @ memcpy_out (buf rb) tmp_read_ptr n2 else d1)"

text \<open>
  Writing takes the source bytes and \<^verbatim>\<open>cnt\<close> (at most their number) and returns the number of
  bytes copied.
\<close>

definition ffado_ringbuffer_write :: "ringbuffer \<Rightarrow> u8 list \<Rightarrow> u64 \<Rightarrow> u64 \<times> ringbuffer" where
  "ffado_ringbuffer_write rb src cnt =
     (let free_cnt = ffado_ringbuffer_write_space rb
      in if free_cnt = 0 then (0, rb)
         else
           let to_write = (if cnt > free_cnt then free_cnt else cnt);
               cnt2 = write_ptr rb + to_write;
               (n1, n2) = (if cnt2 > size_rb rb
                           then (size_rb rb - write_ptr rb, cnt2 AND size_mask rb)
                           else (to_write, 0));
               rb1 = rb\<lparr>buf := memcpy_in (buf rb) (write_ptr rb) (take (unat n1) src),
                        write_ptr := (write_ptr rb + n1) AND size_mask rb\<rparr>
           in if n2 \<noteq> 0
              then (to_write,
                    rb1\<lparr>buf := memcpy_in (buf rb1) (write_ptr rb1)
                                  (take (unat n2) (drop (unat n1) src)),
                        write_ptr := (write_ptr rb1 + n2) AND size_mask rb\<rparr>)
              else (to_write, rb1))"

definition ffado_ringbuffer_read_advance :: "ringbuffer \<Rightarrow> u64 \<Rightarrow> ringbuffer" where
  "ffado_ringbuffer_read_advance rb cnt = rb\<lparr>read_ptr := (read_ptr rb + cnt) AND size_mask rb\<rparr>"

definition ffado_ringbuffer_write_advance :: "ringbuffer \<Rightarrow> u64 \<Rightarrow> ringbuffer" where
  "ffado_ringbuffer_write_advance rb cnt = rb\<lparr>write_ptr := (write_ptr rb + cnt) AND size_mask rb\<rparr>"

text \<open>
  An entry of a vector: an offset into \<^verbatim>\<open>rb->buf\<close> and a length. The code leaves the second
  pointer unset when the second length is 0; the model has offset 0 there.
\<close>

record ringbuffer_data =
  data_buf :: u64
  data_len :: u64

definition ffado_ringbuffer_get_read_vector :: "ringbuffer \<Rightarrow> ringbuffer_data \<times> ringbuffer_data" where
  "ffado_ringbuffer_get_read_vector rb =
     (let w = write_ptr rb; r = read_ptr rb;
          free_cnt = (if w > r then w - r else (w - r + size_rb rb) AND size_mask rb);
          cnt2 = r + free_cnt
      in if cnt2 > size_rb rb
         then (\<lparr>data_buf = r, data_len = size_rb rb - r\<rparr>,
               \<lparr>data_buf = 0, data_len = cnt2 AND size_mask rb\<rparr>)
         else (\<lparr>data_buf = r, data_len = free_cnt\<rparr>, \<lparr>data_buf = 0, data_len = 0\<rparr>))"

definition ffado_ringbuffer_get_write_vector :: "ringbuffer \<Rightarrow> ringbuffer_data \<times> ringbuffer_data" where
  "ffado_ringbuffer_get_write_vector rb =
     (let w = write_ptr rb; r = read_ptr rb;
          free_cnt = (if w > r then ((r - w + size_rb rb) AND size_mask rb) - 1
                      else if w < r then (r - w) - 1
                      else size_rb rb - 1);
          cnt2 = w + free_cnt
      in if cnt2 > size_rb rb
         then (\<lparr>data_buf = w, data_len = size_rb rb - w\<rparr>,
               \<lparr>data_buf = 0, data_len = cnt2 AND size_mask rb\<rparr>)
         else (\<lparr>data_buf = w, data_len = free_cnt\<rparr>, \<lparr>data_buf = 0, data_len = 0\<rparr>))"

section \<open>Well-formed buffers and their contents\<close>

definition rb_wf :: "ringbuffer \<Rightarrow> bool" where
  "rb_wf rb \<longleftrightarrow>
     (\<exists>k \<in> {1..62}. unat (size_rb rb) = 2 ^ k)
     \<and> size_mask rb = size_rb rb - 1
     \<and> unat (write_ptr rb) < unat (size_rb rb)
     \<and> unat (read_ptr rb) < unat (size_rb rb)
     \<and> length (buf rb) = unat (size_rb rb)"

text \<open>Pointers, size and fill as natural numbers; the bytes waiting to be read, in order.\<close>

abbreviation wp :: "ringbuffer \<Rightarrow> nat" where "wp rb \<equiv> unat (write_ptr rb)"
abbreviation rp :: "ringbuffer \<Rightarrow> nat" where "rp rb \<equiv> unat (read_ptr rb)"
abbreviation sz :: "ringbuffer \<Rightarrow> nat" where "sz rb \<equiv> unat (size_rb rb)"

definition rb_fill :: "ringbuffer \<Rightarrow> nat" where
  "rb_fill rb = (wp rb + sz rb - rp rb) mod sz rb"

definition rb_contents :: "ringbuffer \<Rightarrow> u8 list" where
  "rb_contents rb = map (\<lambda>i. buf rb ! ((rp rb + i) mod sz rb)) [0..<rb_fill rb]"

definition rb_capacity :: "ringbuffer \<Rightarrow> nat" where
  "rb_capacity rb = sz rb - 1"

lemma length_rb_contents [simp]: "length (rb_contents rb) = rb_fill rb"
  by (simp add: rb_contents_def)

lemma nth_rb_contents:
  "i < rb_fill rb \<Longrightarrow> rb_contents rb ! i = buf rb ! ((rp rb + i) mod sz rb)"
  by (simp add: rb_contents_def)

lemma rb_wfD:
  assumes "rb_wf rb"
  shows "2 \<le> sz rb" and "sz rb \<le> 2 ^ 62" and "wp rb < sz rb" and "rp rb < sz rb"
    and "length (buf rb) = sz rb" and "size_mask rb = size_rb rb - 1"
proof -
  obtain k where k: "k \<in> {1..62}" "sz rb = 2 ^ k"
    using assms by (auto simp: rb_wf_def)
  have "(2 :: nat) ^ 1 \<le> 2 ^ k" "(2 :: nat) ^ k \<le> 2 ^ 62"
    using k(1) by (intro power_increasing; simp)+
  then show "2 \<le> sz rb" "sz rb \<le> 2 ^ 62" using k(2) by simp_all
qed (use assms in \<open>simp_all add: rb_wf_def\<close>)

lemma unat_and_mask:
  assumes "rb_wf rb"
  shows "unat (x AND size_mask rb) = unat x mod sz rb"
proof -
  obtain k where k: "k \<in> {1..62}" "sz rb = 2 ^ k"
    using assms by (auto simp: rb_wf_def)
  then show ?thesis
    using assms unat_and_pred_power [of "size_rb rb" k x] by (simp add: rb_wf_def)
qed

lemma rb_fill_less:
  assumes "rb_wf rb"
  shows "rb_fill rb < sz rb"
  using rb_wfD(1) [OF assms] by (simp add: rb_fill_def)

lemma rb_fill_cases:
  assumes "rb_wf rb"
  shows "rb_fill rb = (if rp rb \<le> wp rb then wp rb - rp rb else wp rb + sz rb - rp rb)"
proof (cases "rp rb \<le> wp rb")
  case True
  then have "wp rb + sz rb - rp rb = (wp rb - rp rb) + sz rb" by simp
  then have "rb_fill rb = (wp rb - rp rb) mod sz rb" by (simp only: rb_fill_def mod_add_self2)
  then show ?thesis using True rb_wfD(3) [OF assms] by simp
next
  case False
  then show ?thesis using rb_wfD(3,4) [OF assms] by (simp add: rb_fill_def)
qed

lemma unat_cyclic_diff:
  fixes x y s :: "'a::len word"
  assumes "unat x \<le> unat y" and "unat y - unat x \<le> unat s"
  shows "unat (x - y + s) = unat s - (unat y - unat x)"
proof -
  have d: "unat (y - x) = unat y - unat x" using assms(1) by (simp add: unat_sub word_le_nat_alt)
  have "x - y + s = s - (y - x)" by simp
  also have "unat (s - (y - x)) = unat s - (unat y - unat x)"
    using d assms(2) by (subst unat_sub) (simp_all add: word_le_nat_alt)
  finally show ?thesis .
qed

lemma unat_read_space:
  assumes "rb_wf rb"
  shows "unat (ffado_ringbuffer_read_space rb) = rb_fill rb"
proof (cases "rp rb < wp rb")
  case True
  then show ?thesis
    using assms by (simp add: ffado_ringbuffer_read_space_def Let_def word_less_nat_alt
        word_le_nat_alt unat_sub rb_fill_cases)
next
  case False
  have "unat (write_ptr rb - read_ptr rb + size_rb rb) = sz rb - (rp rb - wp rb)"
    using False rb_wfD(4) [OF assms] by (intro unat_cyclic_diff) simp_all
  then have "unat (ffado_ringbuffer_read_space rb) = (sz rb - (rp rb - wp rb)) mod sz rb"
    using False assms by (simp add: ffado_ringbuffer_read_space_def Let_def word_less_nat_alt unat_and_mask)
  then show ?thesis
    using False rb_wfD(4) [OF assms] by (simp add: rb_fill_def add.commute)
qed

lemma unat_write_space:
  assumes "rb_wf rb"
  shows "unat (ffado_ringbuffer_write_space rb) = rb_capacity rb - rb_fill rb"
proof -
  note wf = rb_wfD [OF assms]
  consider "rp rb < wp rb" | "wp rb < rp rb" | "wp rb = rp rb" by linarith
  then show ?thesis
  proof cases
    case 1
    have "unat (read_ptr rb - write_ptr rb + size_rb rb) = sz rb - (wp rb - rp rb)"
      using 1 wf(3) by (intro unat_cyclic_diff) simp_all
    then have "unat ((read_ptr rb - write_ptr rb + size_rb rb) AND size_mask rb) = sz rb - (wp rb - rp rb)"
      using 1 wf(3) assms by (simp add: unat_and_mask)
    then have "unat (((read_ptr rb - write_ptr rb + size_rb rb) AND size_mask rb) - 1) = sz rb - (wp rb - rp rb) - 1"
      using 1 wf(3) by (subst unat_sub) (simp_all add: word_le_nat_alt)
    then show ?thesis
      using 1 assms by (simp add: ffado_ringbuffer_write_space_def Let_def word_less_nat_alt
          rb_capacity_def rb_fill_cases)
  next
    case 2
    have d: "unat (read_ptr rb - write_ptr rb) = rp rb - wp rb" using 2 by (simp add: unat_sub word_le_nat_alt)
    have "unat ((read_ptr rb - write_ptr rb) - 1) = rp rb - wp rb - 1"
      using 2 d by (subst unat_sub) (simp_all add: word_le_nat_alt)
    then show ?thesis
      using 2 assms wf(4) by (simp add: ffado_ringbuffer_write_space_def Let_def word_less_nat_alt
          rb_capacity_def rb_fill_cases)
  next
    case 3
    have "unat (size_rb rb - 1) = sz rb - 1"
      using wf(1) by (subst unat_sub) (simp_all add: word_le_nat_alt)
    then show ?thesis
      using 3 assms by (simp add: ffado_ringbuffer_write_space_def Let_def word_less_nat_alt
          rb_capacity_def rb_fill_cases)
  qed
qed

section \<open>Effect of the operations on the contents\<close>

lemma rb_wf_read_ptr:
  assumes "rb_wf rb"
  shows "rb_wf (rb\<lparr>read_ptr := x AND size_mask rb\<rparr>)"
  using assms rb_wfD(1) [OF assms] unat_and_mask [OF assms, of x] by (simp add: rb_wf_def)

lemma rb_wf_write_ptr:
  assumes "rb_wf rb" and "length b = sz rb"
  shows "rb_wf (rb\<lparr>buf := b, write_ptr := x AND size_mask rb\<rparr>)"
  using assms rb_wfD(1) [OF assms(1)] unat_and_mask [OF assms(1), of x] by (simp add: rb_wf_def)

text \<open>Advancing the read pointer by at most the fill drops that many bytes.\<close>

lemma unat_advance:
  assumes "rb_wf rb" and "unat x < sz rb" and "unat n \<le> sz rb"
  shows "unat ((x + n) AND size_mask rb) = (unat x + unat n) mod sz rb"
proof -
  have "unat x + unat n < 2 ^ 64"
    using assms rb_wfD(2) [OF assms(1)] by simp
  then show ?thesis
    using assms(1) by (simp add: unat_and_mask unat_plus_no_overflow)
qed

lemma rb_fill_read_ptr:
  assumes wf: "rb_wf rb" and n: "unat n \<le> rb_fill rb"
  shows "rb_fill (rb\<lparr>read_ptr := (read_ptr rb + n) AND size_mask rb\<rparr>) = rb_fill rb - unat n"
proof -
  let ?rb = "rb\<lparr>read_ptr := (read_ptr rb + n) AND size_mask rb\<rparr>"
  note D = rb_wfD [OF wf]
  have r: "rp ?rb = (rp rb + unat n) mod sz rb"
    using unat_advance [OF wf D(4)] n rb_fill_less [OF wf] by simp
  show ?thesis
    unfolding rb_fill_cases [OF rb_wf_read_ptr [OF wf]]
    using n D(3,4) r rb_fill_cases [OF wf]
    by (cases "rp rb + unat n < sz rb") (auto simp: le_mod_geq split: if_splits)
qed

lemma read_advance_contents:
  assumes wf: "rb_wf rb" and n: "unat n \<le> rb_fill rb"
  shows "rb_contents (ffado_ringbuffer_read_advance rb n) = drop (unat n) (rb_contents rb)"
    and "rb_wf (ffado_ringbuffer_read_advance rb n)"
proof -
  show "rb_wf (ffado_ringbuffer_read_advance rb n)"
    unfolding ffado_ringbuffer_read_advance_def by (rule rb_wf_read_ptr [OF wf])
  have r: "unat ((read_ptr rb + n) AND size_mask rb) = (rp rb + unat n) mod sz rb"
    using unat_advance [OF wf rb_wfD(4) [OF wf]] n rb_fill_less [OF wf] by simp
  show "rb_contents (ffado_ringbuffer_read_advance rb n) = drop (unat n) (rb_contents rb)"
  proof (rule nth_equalityI)
    show "length (rb_contents (ffado_ringbuffer_read_advance rb n)) = length (drop (unat n) (rb_contents rb))"
      using rb_fill_read_ptr [OF wf n] by (simp add: ffado_ringbuffer_read_advance_def)
  next
    fix i assume "i < length (rb_contents (ffado_ringbuffer_read_advance rb n))"
    then have "i < rb_fill rb - unat n"
      using rb_fill_read_ptr [OF wf n] by (simp add: ffado_ringbuffer_read_advance_def)
    then show "rb_contents (ffado_ringbuffer_read_advance rb n) ! i = drop (unat n) (rb_contents rb) ! i"
      using n rb_fill_read_ptr [OF wf n]
      by (simp add: nth_rb_contents ffado_ringbuffer_read_advance_def r mod_simps add.assoc)
  qed
qed

text \<open>
  Both copy functions split \<open>n\<close> bytes at pointer \<open>p\<close> in the part up to the end of the memory
  and the part from its start.
\<close>

lemma wrapped_split:
  assumes wf: "rb_wf rb" and p: "unat p < sz rb" and n: "unat n < sz rb" and wrap: "p + n > size_rb rb"
  shows "unat (size_rb rb - p) = sz rb - unat p"
    and "(p + (size_rb rb - p)) AND size_mask rb = 0"
    and "unat ((p + n) AND size_mask rb) = unat p + unat n - sz rb"
    and "(p + n) AND size_mask rb \<noteq> 0"
    and "sz rb < unat p + unat n"
proof -
  have pn: "unat (p + n) = unat p + unat n"
    using p n rb_wfD(2) [OF wf] by (intro unat_plus_no_overflow) simp
  show less: "sz rb < unat p + unat n"
    using wrap pn by (simp add: word_less_nat_alt)
  show u: "unat ((p + n) AND size_mask rb) = unat p + unat n - sz rb"
    using less p n by (simp add: unat_and_mask [OF wf] pn mod_add_cases)
  show "(p + n) AND size_mask rb \<noteq> 0"
    using u less by (metis unsigned_0 zero_less_diff less_irrefl)
  show "unat (size_rb rb - p) = sz rb - unat p"
    using p by (simp add: unat_sub word_le_nat_alt)
  show "(p + (size_rb rb - p)) AND size_mask rb = 0"
    using unat_and_mask [OF wf, of "size_rb rb"] by (simp add: unat_eq_0)
qed

lemma unwrapped_split:
  assumes wf: "rb_wf rb" and p: "unat p < sz rb" and n: "unat n < sz rb" and wrap: "\<not> p + n > size_rb rb"
  shows "unat p + unat n \<le> sz rb"
proof -
  have "unat (p + n) = unat p + unat n"
    using p n rb_wfD(2) [OF wf] by (intro unat_plus_no_overflow) simp
  then show ?thesis using wrap by (simp add: word_less_nat_alt)
qed

text \<open>Reading removes the oldest bytes.\<close>

lemma read_splits:
  assumes wf: "rb_wf rb" and n: "unat n \<le> rb_fill rb"
  shows "(let (n1, n2) = (if read_ptr rb + n > size_rb rb
                          then (size_rb rb - read_ptr rb, (read_ptr rb + n) AND size_mask rb)
                          else (n, 0));
              d1 = memcpy_out (buf rb) (read_ptr rb) n1;
              p1 = (read_ptr rb + n1) AND size_mask rb
          in if n2 \<noteq> 0 then (d1 @ memcpy_out (buf rb) p1 n2, (p1 + n2) AND size_mask rb) else (d1, p1))
         = (take (unat n) (rb_contents rb), (read_ptr rb + n) AND size_mask rb)"
proof -
  note D = rb_wfD [OF wf]
  have nlt: "unat n < sz rb" using n rb_fill_less [OF wf] by simp
  have t: "take (unat n) (rb_contents rb) =
      (if rp rb + unat n \<le> sz rb then take (unat n) (drop (rp rb) (buf rb))
       else drop (rp rb) (buf rb) @ take (rp rb + unat n - sz rb) (buf rb))"
    using n nlt D(4,5) cyclic_read [of "buf rb" "sz rb" "rp rb" "unat n"]
    by (simp add: rb_contents_def take_map)
  show ?thesis
  proof (cases "read_ptr rb + n > size_rb rb")
    case True
    note W = wrapped_split [OF wf D(4) nlt True]
    show ?thesis
      using True W D(5) unfolding t by (simp add: memcpy_out_def Let_def)
  next
    case False
    have "rp rb + unat n \<le> sz rb" by (rule unwrapped_split [OF wf D(4) nlt False])
    then show ?thesis
      using False unfolding t by (simp add: memcpy_out_def Let_def)
  qed
qed

lemma ffado_ringbuffer_read_eq:
  fixes cnt :: u64
  assumes wf: "rb_wf rb"
  defines "n \<equiv> min cnt (ffado_ringbuffer_read_space rb)"
  shows "ffado_ringbuffer_read rb cnt = (take (unat n) (rb_contents rb), ffado_ringbuffer_read_advance rb n)"
proof (cases "ffado_ringbuffer_read_space rb = 0")
  case True
  then have "n = 0" "rb_contents rb = []"
    using unat_read_space [OF wf] by (simp_all add: n_def flip: length_0_conv)
  moreover have "read_ptr rb AND size_mask rb = read_ptr rb"
    using unat_and_mask [OF wf] rb_wfD(4) [OF wf] by (simp add: word_unat_eq_iff)
  ultimately show ?thesis
    using True by (simp add: ffado_ringbuffer_read_def ffado_ringbuffer_read_advance_def)
next
  case False
  have n: "(if cnt > ffado_ringbuffer_read_space rb then ffado_ringbuffer_read_space rb else cnt) = n"
    by (auto simp: n_def min_def not_less)
  have "unat n \<le> rb_fill rb"
    unfolding unat_read_space [OF wf, symmetric] n_def by (simp add: word_le_nat_alt [symmetric])
  from read_splits [OF wf this] show ?thesis
    using False unfolding ffado_ringbuffer_read_def Let_def n
    by (simp add: ffado_ringbuffer_read_advance_def split: prod.split if_split_asm)
qed

lemma ffado_ringbuffer_peek_eq:
  assumes "rb_wf rb"
  shows "ffado_ringbuffer_peek rb cnt = fst (ffado_ringbuffer_read rb cnt)"
  by (auto simp: ffado_ringbuffer_peek_def ffado_ringbuffer_read_def Let_def)

text \<open>Writing appends bytes, as many as fit.\<close>

definition rb_put :: "ringbuffer \<Rightarrow> u8 list \<Rightarrow> u64 \<Rightarrow> ringbuffer" where
  "rb_put rb xs n = rb\<lparr>buf := cyclic_put (buf rb) (wp rb) xs,
                       write_ptr := (write_ptr rb + n) AND size_mask rb\<rparr>"

lemma write_splits:
  assumes wf: "rb_wf rb" and n: "unat n < sz rb" and src: "unat n \<le> length src"
  shows "(let (n1, n2) = (if write_ptr rb + n > size_rb rb
                          then (size_rb rb - write_ptr rb, (write_ptr rb + n) AND size_mask rb)
                          else (n, 0));
              b1 = memcpy_in (buf rb) (write_ptr rb) (take (unat n1) src);
              p1 = (write_ptr rb + n1) AND size_mask rb
          in if n2 \<noteq> 0
             then (memcpy_in b1 p1 (take (unat n2) (drop (unat n1) src)), (p1 + n2) AND size_mask rb)
             else (b1, p1))
         = (cyclic_put (buf rb) (wp rb) (take (unat n) src), (write_ptr rb + n) AND size_mask rb)"
proof -
  note D = rb_wfD [OF wf]
  show ?thesis
  proof (cases "write_ptr rb + n > size_rb rb")
    case True
    note W = wrapped_split [OF wf D(3) n True]
    let ?h = "sz rb - wp rb" and ?t = "wp rb + unat n - sz rb"
    have "memcpy_in (buf rb) (write_ptr rb) (take ?h src) = take (wp rb) (buf rb) @ take ?h src"
      using W(5) D(3,5) src by (simp add: memcpy_in_def min_absorb2)
    moreover have "?t \<le> wp rb" "unat n - ?h = ?t" "min ?h (unat n) = ?h"
      using W(5) n D(3) by simp_all
    ultimately show ?thesis
      using True W D(3,5) src
      by (simp add: memcpy_in_def cyclic_put_def Let_def min_absorb2 drop_take)
  next
    case False
    have "wp rb + unat n \<le> sz rb" by (rule unwrapped_split [OF wf D(3) n False])
    then show ?thesis
      using False D(5) src by (simp add: memcpy_in_def cyclic_put_def Let_def min_absorb2)
  qed
qed

lemma rb_put_contents:
  assumes wf: "rb_wf rb" and len: "length xs = unat n" and n: "unat n \<le> rb_capacity rb - rb_fill rb"
  shows "rb_wf (rb_put rb xs n)" and "rb_fill (rb_put rb xs n) = rb_fill rb + unat n"
    and "rb_contents (rb_put rb xs n) = rb_contents rb @ xs"
proof -
  note D = rb_wfD [OF wf]
  let ?rb = "rb_put rb xs n"
  have nf: "rb_fill rb + unat n < sz rb"
    using n rb_fill_less [OF wf] D(1) by (simp add: rb_capacity_def)
  have put: "length (cyclic_put (buf rb) (wp rb) xs) = sz rb"
    "\<And>k. k < unat n \<Longrightarrow> cyclic_put (buf rb) (wp rb) xs ! ((wp rb + k) mod sz rb) = xs ! k"
    "\<And>j. j < sz rb \<Longrightarrow> (\<And>k. k < unat n \<Longrightarrow> (wp rb + k) mod sz rb \<noteq> j) \<Longrightarrow>
       cyclic_put (buf rb) (wp rb) xs ! j = buf rb ! j"
    using cyclic_put [of "wp rb" "buf rb" xs] D(3,5) nf len by simp_all
  show wf': "rb_wf ?rb"
    unfolding rb_put_def by (rule rb_wf_write_ptr [OF wf put(1)])
  have w': "wp ?rb = (wp rb + unat n) mod sz rb"
    using unat_advance [OF wf D(3)] nf by (simp add: rb_put_def)
  show fill: "rb_fill ?rb = rb_fill rb + unat n"
    using rb_fill_cases [OF wf] rb_fill_cases [OF wf'] w' nf D(3,4)
    by (auto simp: rb_put_def mod_add_cases split: if_splits)
  have w: "wp rb = (rp rb + rb_fill rb) mod sz rb"
    using rb_fill_cases [OF wf] D(3,4) by (auto simp: mod_add_cases)
  show "rb_contents ?rb = rb_contents rb @ xs"
  proof (rule nth_equalityI)
    show "length (rb_contents ?rb) = length (rb_contents rb @ xs)"
      by (simp add: fill len)
    fix i assume "i < length (rb_contents ?rb)"
    then have i: "i < rb_fill rb + unat n" by (simp add: fill)
    have "rb_contents ?rb ! i = cyclic_put (buf rb) (wp rb) xs ! ((rp rb + i) mod sz rb)"
      using i fill by (simp add: nth_rb_contents) (simp add: rb_put_def)
    also have "\<dots> = (rb_contents rb @ xs) ! i"
    proof (cases "i < rb_fill rb")
      case True
      have "(wp rb + k) mod sz rb \<noteq> (rp rb + i) mod sz rb" if "k < unat n" for k
        using mod_add_inject [of "rp rb" "rb_fill rb + k" "sz rb" i] that True nf D(4)
        by (auto simp: w mod_simps add.assoc)
      then show ?thesis
        using True D(1) by (simp add: put(3) nth_append nth_rb_contents)
    next
      case False
      then obtain k where k: "i = rb_fill rb + k" by (metis le_add_diff_inverse not_less)
      then have "(rp rb + i) mod sz rb = (wp rb + k) mod sz rb"
        by (simp add: w mod_simps add.assoc)
      then show ?thesis
        using k i put(2) [of k] by (simp add: nth_append)
    qed
    finally show "rb_contents ?rb ! i = (rb_contents rb @ xs) ! i" .
  qed
qed

lemma ffado_ringbuffer_write_eq:
  fixes cnt :: u64
  assumes wf: "rb_wf rb" and src: "unat cnt \<le> length src"
  defines "n \<equiv> min cnt (ffado_ringbuffer_write_space rb)"
  shows "ffado_ringbuffer_write rb src cnt = (n, rb_put rb (take (unat n) src) n)"
proof (cases "ffado_ringbuffer_write_space rb = 0")
  case True
  then have "n = 0" by (simp add: n_def)
  moreover have "write_ptr rb AND size_mask rb = write_ptr rb"
    using unat_and_mask [OF wf] rb_wfD(3) [OF wf] by (simp add: word_unat_eq_iff)
  moreover have "cyclic_put (buf rb) (wp rb) [] = buf rb"
    using rb_wfD(3,5) [OF wf] by (simp add: cyclic_put_def)
  ultimately show ?thesis
    using True by (simp add: ffado_ringbuffer_write_def rb_put_def)
next
  case False
  have n: "(if cnt > ffado_ringbuffer_write_space rb then ffado_ringbuffer_write_space rb else cnt) = n"
    by (auto simp: n_def min_def not_less)
  have "n \<le> ffado_ringbuffer_write_space rb" "n \<le> cnt" by (simp_all add: n_def)
  then have "unat n < sz rb" "unat n \<le> length src"
    using unat_write_space [OF wf] rb_wfD(1) [OF wf] src
    by (simp_all add: word_le_nat_alt rb_capacity_def)
  from write_splits [OF wf this] show ?thesis
    using False unfolding ffado_ringbuffer_write_def Let_def n
    by (simp add: rb_put_def split: prod.split if_split_asm)
qed

section \<open>Creation, reset and vectors\<close>

declare find_power_of_two.simps [simp del]

lemma two_power_u64:
  assumes "k < 64"
  shows "unat (2 ^ k :: u64) = 2 ^ k"
proof -
  have "(2 :: nat) ^ k < 2 ^ 64" using assms by (rule power_strict_increasing) simp
  then show ?thesis using unat_of_nat_small [where 'a = 64, of "2 ^ k"] by simp
qed

lemma find_power_of_two_Some:
  assumes "unat s \<le> 2 ^ 30" and "p \<le> 30"
  shows "\<exists>k. find_power_of_two p s = Some k \<and> p \<le> k \<and> k \<le> 30 \<and> unat s \<le> 2 ^ k
             \<and> (k = p \<or> 2 ^ (k - 1) < unat s)"
  using assms
proof (induction p s rule: find_power_of_two.induct)
  case (1 p s)
  show ?case
  proof (cases "2 ^ p < unat s")
    case True
    then have "p \<noteq> 30" using "1.prems" by auto
    with True 1 have "\<exists>k. find_power_of_two (p + 1) s = Some k \<and> p + 1 \<le> k \<and> k \<le> 30 \<and> unat s \<le> 2 ^ k
        \<and> (k = p + 1 \<or> 2 ^ (k - 1) < unat s)"
      by (simp add: word_less_nat_alt two_power_u64)
    with True 1 \<open>p \<noteq> 30\<close> show ?thesis
      by (auto simp: find_power_of_two.simps [of p s] word_less_nat_alt two_power_u64)
  next
    case False
    with 1 show ?thesis
      by (simp add: find_power_of_two.simps [of p s] word_less_nat_alt two_power_u64)
  qed
qed

lemma ffado_ringbuffer_create_wf:
  assumes "unat s \<le> 2 ^ 30"
  shows "\<exists>rb k. ffado_ringbuffer_create junk s = Some rb \<and> rb_wf rb \<and> rb_contents rb = []
     \<and> sz rb = 2 ^ k \<and> 1 \<le> k \<and> unat s \<le> 2 ^ k \<and> (k = 1 \<or> 2 ^ (k - 1) < unat s)"
proof -
  obtain k where k: "find_power_of_two 1 s = Some k" "1 \<le> k" "k \<le> 30" "unat s \<le> 2 ^ k"
    "k = 1 \<or> 2 ^ (k - 1) < unat s"
    using find_power_of_two_Some [OF assms, of 1] by auto
  have u: "unat (2 ^ k :: u64) = 2 ^ k" using k(3) by (simp add: two_power_u64)
  let ?rb = "\<lparr>buf = map junk [0..<unat (2 ^ k :: u64)], write_ptr = 0, read_ptr = 0,
              size_rb = 2 ^ k, size_mask = 2 ^ k - 1, mlocked = False\<rparr>"
  have "ffado_ringbuffer_create junk s = Some ?rb"
    using k(1) by (simp add: ffado_ringbuffer_create_def Let_def)
  moreover have "rb_wf ?rb" using k(2,3) u by (auto simp: rb_wf_def intro!: bexI [of _ k])
  moreover have "rb_contents ?rb = []" by (simp add: rb_contents_def rb_fill_def u)
  moreover have "sz ?rb = 2 ^ k" by (simp add: u)
  ultimately show ?thesis using k by blast
qed

lemma ffado_ringbuffer_reset_contents:
  assumes "rb_wf rb"
  shows "rb_wf (ffado_ringbuffer_reset rb)" and "rb_contents (ffado_ringbuffer_reset rb) = []"
  using assms rb_wfD(1) [OF assms]
  by (simp_all add: rb_wf_def ffado_ringbuffer_reset_def rb_contents_def rb_fill_def)

lemma get_write_vector_lens:
  assumes wf: "rb_wf rb"
  shows "data_buf (fst (ffado_ringbuffer_get_write_vector rb)) = write_ptr rb"
    and "unat (data_len (fst (ffado_ringbuffer_get_write_vector rb)))
         = min (rb_capacity rb - rb_fill rb) (sz rb - wp rb)"
    and "unat (data_len (fst (ffado_ringbuffer_get_write_vector rb)))
         + unat (data_len (snd (ffado_ringbuffer_get_write_vector rb))) = rb_capacity rb - rb_fill rb"
proof -
  let ?f = "ffado_ringbuffer_write_space rb"
  note D = rb_wfD [OF wf]
  have v: "ffado_ringbuffer_get_write_vector rb =
      (if write_ptr rb + ?f > size_rb rb
       then (\<lparr>data_buf = write_ptr rb, data_len = size_rb rb - write_ptr rb\<rparr>,
             \<lparr>data_buf = 0, data_len = (write_ptr rb + ?f) AND size_mask rb\<rparr>)
       else (\<lparr>data_buf = write_ptr rb, data_len = ?f\<rparr>, \<lparr>data_buf = 0, data_len = 0\<rparr>))"
    by (simp add: ffado_ringbuffer_get_write_vector_def ffado_ringbuffer_write_space_def Let_def)
  have f: "unat ?f < sz rb" using unat_write_space [OF wf] D(1) by (simp add: rb_capacity_def)
  show "data_buf (fst (ffado_ringbuffer_get_write_vector rb)) = write_ptr rb"
    by (simp add: v)
  show "unat (data_len (fst (ffado_ringbuffer_get_write_vector rb)))
         = min (rb_capacity rb - rb_fill rb) (sz rb - wp rb)"
    "unat (data_len (fst (ffado_ringbuffer_get_write_vector rb)))
         + unat (data_len (snd (ffado_ringbuffer_get_write_vector rb))) = rb_capacity rb - rb_fill rb"
    using wrapped_split [OF wf D(3) f] unwrapped_split [OF wf D(3) f] unat_write_space [OF wf] D(3)
    unfolding v by (cases "write_ptr rb + ?f > size_rb rb"; simp)+
qed

lemma get_read_vector_lens:
  assumes wf: "rb_wf rb"
  shows "data_buf (fst (ffado_ringbuffer_get_read_vector rb)) = read_ptr rb"
    and "unat (data_len (fst (ffado_ringbuffer_get_read_vector rb))) = min (rb_fill rb) (sz rb - rp rb)"
    and "unat (data_len (fst (ffado_ringbuffer_get_read_vector rb)))
         + unat (data_len (snd (ffado_ringbuffer_get_read_vector rb))) = rb_fill rb"
proof -
  let ?f = "ffado_ringbuffer_read_space rb"
  note D = rb_wfD [OF wf]
  have v: "ffado_ringbuffer_get_read_vector rb =
      (if read_ptr rb + ?f > size_rb rb
       then (\<lparr>data_buf = read_ptr rb, data_len = size_rb rb - read_ptr rb\<rparr>,
             \<lparr>data_buf = 0, data_len = (read_ptr rb + ?f) AND size_mask rb\<rparr>)
       else (\<lparr>data_buf = read_ptr rb, data_len = ?f\<rparr>, \<lparr>data_buf = 0, data_len = 0\<rparr>))"
    by (simp add: ffado_ringbuffer_get_read_vector_def ffado_ringbuffer_read_space_def Let_def)
  have f: "unat ?f < sz rb" using unat_read_space [OF wf] rb_fill_less [OF wf] by simp
  show "data_buf (fst (ffado_ringbuffer_get_read_vector rb)) = read_ptr rb"
    by (simp add: v)
  show "unat (data_len (fst (ffado_ringbuffer_get_read_vector rb))) = min (rb_fill rb) (sz rb - rp rb)"
    "unat (data_len (fst (ffado_ringbuffer_get_read_vector rb)))
         + unat (data_len (snd (ffado_ringbuffer_get_read_vector rb))) = rb_fill rb"
    using wrapped_split [OF wf D(4) f] unwrapped_split [OF wf D(4) f] unat_read_space [OF wf] D(4)
    unfolding v by (cases "read_ptr rb + ?f > size_rb rb"; simp)+
qed

text \<open>Zero-copy access: bytes placed in or taken from the first part of a vector.\<close>

lemma direct_write_put:
  assumes "rb_wf rb" and "length xs = unat n" and "wp rb + unat n \<le> sz rb"
  shows "ffado_ringbuffer_write_advance (rb\<lparr>buf := memcpy_in (buf rb) (write_ptr rb) xs\<rparr>) n = rb_put rb xs n"
  using assms rb_wfD(5) [OF assms(1)]
  by (simp add: ffado_ringbuffer_write_advance_def rb_put_def cyclic_put_def memcpy_in_def)

lemma direct_read_contents:
  assumes wf: "rb_wf rb" and n: "unat n \<le> rb_fill rb" and "rp rb + unat n \<le> sz rb"
  shows "memcpy_out (buf rb) (read_ptr rb) n = take (unat n) (rb_contents rb)"
proof -
  have "map (\<lambda>i. buf rb ! ((rp rb + i) mod sz rb)) [0..<unat n] = take (unat n) (drop (rp rb) (buf rb))"
    using assms rb_wfD(4,5) [OF wf] by (subst cyclic_read) simp_all
  then show ?thesis
    using n by (simp add: memcpy_out_def rb_contents_def take_map)
qed

section \<open>The contract of a bounded queue\<close>

text \<open>A history of writes and reads, with the bytes accepted and the bytes delivered.\<close>

datatype 'a fifo_op = Put "'a list" | Get nat

fun fifo_run ::
  "('q \<Rightarrow> 'a list \<Rightarrow> nat \<times> 'q) \<Rightarrow> ('q \<Rightarrow> nat \<Rightarrow> 'a list \<times> 'q) \<Rightarrow> 'q \<Rightarrow> 'a fifo_op list
   \<Rightarrow> 'a list \<times> 'a list \<times> 'q" where
  "fifo_run put get q [] = ([], [], q)"
| "fifo_run put get q (Put xs # ops) =
     (let (n, q1) = put q xs; (acc, del, q2) = fifo_run put get q1 ops
      in (take n xs @ acc, del, q2))"
| "fifo_run put get q (Get n # ops) =
     (let (xs, q1) = get q n; (acc, del, q2) = fifo_run put get q1 ops
      in (acc, xs @ del, q2))"

definition op_ok :: "nat \<Rightarrow> 'a fifo_op \<Rightarrow> bool" where
  "op_ok lim x = (case x of Put xs \<Rightarrow> length xs < lim | Get n \<Rightarrow> n < lim)"

locale bounded_fifo =
  fixes invar :: "'q \<Rightarrow> bool"
    and contents :: "'q \<Rightarrow> 'a list"
    and cap :: "'q \<Rightarrow> nat"
    and put :: "'q \<Rightarrow> 'a list \<Rightarrow> nat \<times> 'q"
    and get :: "'q \<Rightarrow> nat \<Rightarrow> 'a list \<times> 'q"
    and lim :: nat
  assumes put_count: "invar q \<Longrightarrow> length xs < lim \<Longrightarrow>
      fst (put q xs) = min (length xs) (cap q - length (contents q))"
    and put_contents: "invar q \<Longrightarrow> length xs < lim \<Longrightarrow>
      contents (snd (put q xs)) = contents q @ take (fst (put q xs)) xs"
    and put_invar: "invar q \<Longrightarrow> length xs < lim \<Longrightarrow> invar (snd (put q xs)) \<and> cap (snd (put q xs)) = cap q"
    and get_bytes: "invar q \<Longrightarrow> n < lim \<Longrightarrow> fst (get q n) = take n (contents q)"
    and get_contents: "invar q \<Longrightarrow> n < lim \<Longrightarrow> contents (snd (get q n)) = drop n (contents q)"
    and get_invar: "invar q \<Longrightarrow> n < lim \<Longrightarrow> invar (snd (get q n)) \<and> cap (snd (get q n)) = cap q"
    and fill_cap: "invar q \<Longrightarrow> length (contents q) \<le> cap q"
begin

text \<open>Nothing is lost, duplicated or reordered, whatever the history.\<close>

lemma run_fifo:
  assumes "invar q" and "list_all (op_ok lim) ops" and "fifo_run put get q ops = (acc, del, q')"
  shows "contents q @ acc = del @ contents q' \<and> invar q' \<and> cap q' = cap q"
  using assms
proof (induction ops arbitrary: q acc del)
  case Nil
  then show ?case by simp
next
  case (Cons op ops)
  show ?case
  proof (cases op)
    case (Put xs)
    obtain n q1 where p: "put q xs = (n, q1)" by force
    obtain acc1 where r: "fifo_run put get q1 ops = (acc1, del, q')" "acc = take n xs @ acc1"
      using Cons.prems(3) by (auto simp: Put p split: prod.splits)
    have l: "length xs < lim" using Cons.prems(2) by (simp add: Put op_ok_def)
    have "invar q1" "cap q1 = cap q" "contents q1 = contents q @ take n xs"
      using put_invar [OF Cons.prems(1) l] put_contents [OF Cons.prems(1) l] p by simp_all
    with Cons.IH [of q1 acc1 del] Cons.prems(2) r show ?thesis by simp
  next
    case (Get n)
    obtain xs q1 where g: "get q n = (xs, q1)" by force
    obtain del1 where r: "fifo_run put get q1 ops = (acc, del1, q')" "del = xs @ del1"
      using Cons.prems(3) by (auto simp: Get g split: prod.splits)
    have l: "n < lim" using Cons.prems(2) by (simp add: Get op_ok_def)
    have "invar q1" "cap q1 = cap q" "contents q = xs @ contents q1"
      using get_invar [OF Cons.prems(1) l] get_contents [OF Cons.prems(1) l] get_bytes [OF Cons.prems(1) l] g
      by simp_all
    with Cons.IH [of q1 acc del1] Cons.prems(2) r show ?thesis by simp
  qed
qed

lemma put_all:
  assumes "invar q" and "length xs < lim" and "length (contents q) + length xs \<le> cap q"
  shows "fst (put q xs) = length xs" and "contents (snd (put q xs)) = contents q @ xs"
  using assms put_count [of q xs] put_contents [of q xs] by simp_all

end

text \<open>The C functions on whole lists, with the counts as natural numbers.\<close>

definition rb_write_list :: "ringbuffer \<Rightarrow> u8 list \<Rightarrow> nat \<times> ringbuffer" where
  "rb_write_list rb xs = map_prod unat id (ffado_ringbuffer_write rb xs (of_nat (length xs)))"

definition rb_read_list :: "ringbuffer \<Rightarrow> nat \<Rightarrow> u8 list \<times> ringbuffer" where
  "rb_read_list rb n = ffado_ringbuffer_read rb (of_nat n)"

lemma unat_min: "unat (min a b) = min (unat a) (unat b)"
  by (simp add: min_def word_le_nat_alt)

lemma rb_min_fill:
  "take (min n (rb_fill rb)) (rb_contents rb) = take n (rb_contents rb)"
  "drop (min n (rb_fill rb)) (rb_contents rb) = drop n (rb_contents rb)"
  by (simp_all add: min_def)

lemma rb_capacity_put [simp]: "rb_capacity (rb_put rb xs n) = rb_capacity rb"
  and rb_capacity_advance [simp]: "rb_capacity (ffado_ringbuffer_read_advance rb m) = rb_capacity rb"
  by (simp_all add: rb_capacity_def rb_put_def ffado_ringbuffer_read_advance_def)

lemma rb_fill_le_capacity: "rb_wf rb \<Longrightarrow> rb_fill rb \<le> rb_capacity rb"
  using rb_fill_less [of rb] by (simp add: rb_capacity_def)

interpretation rbq: bounded_fifo rb_wf rb_contents rb_capacity rb_write_list rb_read_list "2 ^ 64"
proof (unfold_locales, goal_cases)
  case (1 q xs)
  then show ?case
    by (simp add: rb_write_list_def ffado_ringbuffer_write_eq unat_min unat_write_space unat_of_nat_small)
next
  case (2 q xs)
  then show ?case
    by (simp add: rb_write_list_def ffado_ringbuffer_write_eq unat_min unat_write_space unat_of_nat_small
        rb_put_contents)
next
  case (3 q xs)
  then show ?case
    by (simp add: rb_write_list_def ffado_ringbuffer_write_eq unat_min unat_write_space unat_of_nat_small
        rb_put_contents)
next
  case (4 q n)
  then show ?case
    by (simp add: rb_read_list_def ffado_ringbuffer_read_eq unat_min unat_read_space unat_of_nat_small
        rb_min_fill)
next
  case (5 q n)
  then show ?case
    by (simp add: rb_read_list_def ffado_ringbuffer_read_eq unat_min unat_read_space unat_of_nat_small
        read_advance_contents rb_min_fill)
next
  case (6 q n)
  then show ?case
    by (simp add: rb_read_list_def ffado_ringbuffer_read_eq unat_min unat_read_space unat_of_nat_small
        read_advance_contents)
next
  case (7 q)
  then show ?case by (simp add: rb_fill_le_capacity)
qed

text \<open>
  C13. The ring buffer is a queue: after \<^verbatim>\<open>ffado_ringbuffer_create\<close> and any sequence of
  \<^verbatim>\<open>ffado_ringbuffer_write\<close> and \<^verbatim>\<open>ffado_ringbuffer_read\<close> calls, the bytes accepted by the writes
  are the bytes delivered by the reads followed by the bytes still stored, in order, and no
  more bytes are stored than the capacity (the size less one).
\<close>

theorem ringbuffer_fifo:
  assumes "ffado_ringbuffer_create junk s = Some rb" and "unat s \<le> 2 ^ 30"
    and "list_all (op_ok (2 ^ 64)) ops"
    and "fifo_run rb_write_list rb_read_list rb ops = (acc, del, rb')"
  shows "acc = del @ rb_contents rb' \<and> length (rb_contents rb') < unat (size_rb rb)"
proof -
  have wf: "rb_wf rb" "rb_contents rb = []"
    using ffado_ringbuffer_create_wf [OF assms(2), of junk] assms(1) by auto
  from rbq.run_fifo [OF wf(1) assms(3,4)] wf(2)
  have "acc = del @ rb_contents rb'" "rb_wf rb'" "rb_capacity rb' = rb_capacity rb"
    by simp_all
  then show ?thesis
    using rb_fill_le_capacity [of rb'] rb_wfD(1) [OF wf(1)] by (simp add: rb_capacity_def)
qed

theorem ringbuffer_fifo_witness:
  "\<exists>rb acc del rb'. ffado_ringbuffer_create (\<lambda>_. 0) 3 = Some rb
     \<and> fifo_run rb_write_list rb_read_list rb [Put [1, 2, 3], Get 2, Put [4, 5]] = (acc, del, rb')
     \<and> del = [1, 2] \<and> acc = del @ rb_contents rb' \<and> length (rb_contents rb') < unat (size_rb rb)"
proof -
  let ?ops = "[Put [1, 2, 3], Get 2, Put [4, 5 :: u8]]"
  obtain rb where rb: "ffado_ringbuffer_create (\<lambda>_. 0) 3 = Some rb"
    using ffado_ringbuffer_create_wf [of 3 "\<lambda>_. 0"] by auto
  obtain acc del rb' where run: "fifo_run rb_write_list rb_read_list rb ?ops = (acc, del, rb')"
    by (metis prod_cases3)
  have ops: "list_all (op_ok (2 ^ 64)) ?ops" by (simp add: op_ok_def)
  have "map_option (\<lambda>rb. fst (snd (fifo_run rb_write_list rb_read_list rb ?ops)))
      (ffado_ringbuffer_create (\<lambda>_. 0) 3) = Some [1, 2]"
    by code_simp
  then have "del = [1, 2]" using rb run by simp
  moreover have "acc = del @ rb_contents rb' \<and> length (rb_contents rb') < unat (size_rb rb)"
    by (rule ringbuffer_fifo [OF rb _ ops run]) simp
  ultimately show ?thesis using rb run by blast
qed

end
