(* ===== verification/TimestampedBuffer.thy ===== *)
theory TimestampedBuffer
  imports RingBuffer "HOL-Library.Monad_Syntax" Complex_Main
begin

text \<open>
  The time-aware frame buffer \<^verbatim>\<open>Util::TimestampedBuffer\<close> of \<^verbatim>\<open>libutil/TimestampedBuffer.cpp\<close>.
  Its state is a record with the members of the class. Values of type \<^verbatim>\<open>double\<close> and
  \<^verbatim>\<open>float\<close> are rational numbers; the rounding of every floating point operation is a parameter
  (\<open>rdbl\<close> and \<open>rflt\<close> of \<open>fparith\<close>), infinities and NaN are outside the model. An operation
  returns \<open>None\<close> where the program would abort: a failed assertion, a null pointer, a division
  by zero. Locking and debug output change no result and are left out.
\<close>

section \<open>Floating point\<close>

record fparith =
  rdbl :: "rat \<Rightarrow> rat"
  rflt :: "rat \<Rightarrow> rat"

definition exact :: fparith where
  "exact = \<lparr>rdbl = (\<lambda>x. x), rflt = (\<lambda>x. x)\<rparr>"

definition of_u32 :: "u32 \<Rightarrow> rat" where "of_u32 n = of_int (uint n)"
definition of_i32 :: "i32 \<Rightarrow> rat" where "of_i32 n = of_int (sint n)"

definition TIMESTAMP_MAX :: rat where "TIMESTAMP_MAX = 3145728000"
definition FRAMES_PER_PROCESS_BLOCK :: u32 where [consts_defs]: "FRAMES_PER_PROCESS_BLOCK = 8"

definition DLL_SQRT2 :: "fparith \<Rightarrow> rat" where
  "DLL_SQRT2 fp = rdbl fp (1414213562373095049 / 10 ^ 18)"

definition DLL_2PI :: "fparith \<Rightarrow> rat" where
  "DLL_2PI fp = rdbl fp (2 * rdbl fp (3141592653589793238 / 10 ^ 18))"

definition DLL_OMEGA :: "fparith \<Rightarrow> rat" where
  "DLL_OMEGA fp = rdbl fp (DLL_2PI fp * rdbl fp (1 / 100))"

definition DLL_COEFF_B :: "fparith \<Rightarrow> rat" where
  "DLL_COEFF_B fp = rdbl fp (DLL_SQRT2 fp * DLL_OMEGA fp)"

definition DLL_COEFF_C :: "fparith \<Rightarrow> rat" where
  "DLL_COEFF_C fp = rdbl fp (DLL_OMEGA fp * DLL_OMEGA fp)"

section \<open>State\<close>

record tsbuffer =
  m_event_buffer :: "ringbuffer option"
  m_process_buffer :: "u8 list option"
  m_cluster_size :: u32
  m_process_block_size :: u32
  m_event_size :: u32
  m_events_per_frame :: u32
  m_buffer_size :: u32
  m_bytes_per_frame :: u32
  m_bytes_per_buffer :: u32
  m_enabled :: bool
  m_transparent :: bool
  m_wrap_at :: rat
  m_framecounter :: i32
  m_buffer_tail_timestamp :: rat
  m_buffer_next_tail_timestamp :: rat
  m_dll_e2 :: rat
  m_dll_b :: rat
  m_dll_c :: rat
  m_nominal_rate :: rat
  m_current_rate :: rat
  m_update_period :: u32
  m_max_abs_diff :: u32

definition TimestampedBuffer_new :: "fparith \<Rightarrow> tsbuffer" where
  "TimestampedBuffer_new fp =
     \<lparr>m_event_buffer = None, m_process_buffer = None, m_cluster_size = 0,
      m_process_block_size = 0, m_event_size = 0, m_events_per_frame = 0, m_buffer_size = 0,
      m_bytes_per_frame = 0, m_bytes_per_buffer = 0, m_enabled = False, m_transparent = True,
      m_wrap_at = rdbl fp 0xFFFFFFFFFFFFFFFF, m_framecounter = 0,
      m_buffer_tail_timestamp = rdbl fp (TIMESTAMP_MAX + 1),
      m_buffer_next_tail_timestamp = rdbl fp (TIMESTAMP_MAX + 1),
      m_dll_e2 = 0, m_dll_b = rflt fp (DLL_COEFF_B fp), m_dll_c = rflt fp (DLL_COEFF_C fp),
      m_nominal_rate = 0, m_current_rate = 0, m_update_period = 0,
      m_max_abs_diff = 3072 div 2\<rparr>"

section \<open>Parameters and the delay-locked loop\<close>

definition getBandwidth :: "fparith \<Rightarrow> tsbuffer \<Rightarrow> rat option" where
  "getBandwidth fp b =
     (let tupdate = rflt fp (m_nominal_rate b * rflt fp (of_u32 (m_update_period b)));
          d = rdbl fp (rdbl fp (DLL_SQRT2 fp * DLL_2PI fp) * tupdate)
      in if d = 0 then None else Some (rdbl fp (m_dll_b b / d)))"

definition setBandwidth :: "fparith \<Rightarrow> tsbuffer \<Rightarrow> rat \<Rightarrow> bool \<times> tsbuffer" where
  "setBandwidth fp b bw =
     (let tupdate = rflt fp (m_nominal_rate b * rflt fp (of_u32 (m_update_period b)));
          bw_rel = rdbl fp (bw * tupdate)
      in if bw_rel \<ge> 1 / 2 then (False, b)
         else (True, b\<lparr>m_dll_b := rflt fp (rdbl fp (bw_rel * rdbl fp (DLL_SQRT2 fp * DLL_2PI fp))),
                       m_dll_c := rflt fp (rdbl fp (rdbl fp (rdbl fp (bw_rel * bw_rel) * DLL_2PI fp) * DLL_2PI fp))\<rparr>))"

definition setNominalRate :: "tsbuffer \<Rightarrow> rat \<Rightarrow> bool \<times> tsbuffer" where
  "setNominalRate b r = (True, b\<lparr>m_nominal_rate := r\<rparr>)"

definition setUpdatePeriod :: "tsbuffer \<Rightarrow> u32 \<Rightarrow> bool \<times> tsbuffer" where
  "setUpdatePeriod b n = (True, b\<lparr>m_update_period := n\<rparr>)"

definition setWrapValue :: "tsbuffer \<Rightarrow> rat \<Rightarrow> bool \<times> tsbuffer" where
  "setWrapValue b w = (True, b\<lparr>m_wrap_at := w\<rparr>)"

definition setRate :: "fparith \<Rightarrow> tsbuffer \<Rightarrow> rat \<Rightarrow> tsbuffer" where
  "setRate fp b rate =
     (let e2 = rflt fp (rflt fp (of_u32 (m_update_period b)) * rate)
      in b\<lparr>m_current_rate := rate, m_dll_e2 := e2,
           m_buffer_next_tail_timestamp := rdbl fp (m_buffer_tail_timestamp b + e2)\<rparr>)"

definition calculateRate :: "fparith \<Rightarrow> tsbuffer \<Rightarrow> rat option" where
  "calculateRate fp b =
     (if m_update_period b = 0 then None
      else
        let diff = rdbl fp (m_buffer_next_tail_timestamp b - m_buffer_tail_timestamp b);
            max = rdbl fp (m_wrap_at b / 2);
            diff = (if diff > max then rdbl fp (diff - m_wrap_at b)
                    else if diff < - max then rdbl fp (diff + m_wrap_at b)
                    else diff);
            rate = rflt fp (rflt fp diff / rflt fp (of_u32 (m_update_period b)))
        in if \<bar>rflt fp (m_nominal_rate b - rate)\<bar> > rdbl fp (m_nominal_rate b * rdbl fp (1 / 10))
           then Some (m_nominal_rate b) else Some rate)"

definition setEventSize :: "tsbuffer \<Rightarrow> u32 \<Rightarrow> bool \<times> tsbuffer" where
  "setEventSize b s =
     (True, b\<lparr>m_event_size := s,
              m_bytes_per_frame := s * m_events_per_frame b,
              m_bytes_per_buffer := s * m_events_per_frame b * m_buffer_size b\<rparr>)"

definition setEventsPerFrame :: "tsbuffer \<Rightarrow> u32 \<Rightarrow> bool \<times> tsbuffer" where
  "setEventsPerFrame b n =
     (True, b\<lparr>m_events_per_frame := n,
              m_bytes_per_frame := m_event_size b * n,
              m_bytes_per_buffer := m_event_size b * n * m_buffer_size b\<rparr>)"

definition setBufferSize :: "tsbuffer \<Rightarrow> u32 \<Rightarrow> bool \<times> tsbuffer" where
  "setBufferSize b n =
     (True, b\<lparr>m_buffer_size := n,
              m_bytes_per_frame := m_event_size b * m_events_per_frame b,
              m_bytes_per_buffer := m_event_size b * m_events_per_frame b * n\<rparr>)"

definition getBufferFill :: "tsbuffer \<Rightarrow> u32" where
  "getBufferFill b = m_framecounter b"

text \<open>
  The assertion compares an unsigned difference with 0, so it always holds and the difference
  wraps around when the counter exceeds the size.
\<close>

definition getBufferSpace :: "tsbuffer \<Rightarrow> u32 option" where
  "getBufferSpace b =
     (if m_buffer_size b - m_framecounter b \<ge> 0 then Some (m_buffer_size b - m_framecounter b)
      else None)"

section \<open>Timestamps\<close>

definition wrap_timestamp :: "fparith \<Rightarrow> tsbuffer \<Rightarrow> rat \<Rightarrow> rat" where
  "wrap_timestamp fp b ts =
     (if ts \<ge> m_wrap_at b then rdbl fp (ts - m_wrap_at b)
      else if ts < 0 then rdbl fp (ts + m_wrap_at b)
      else ts)"

definition setBufferTailTimestamp :: "fparith \<Rightarrow> tsbuffer \<Rightarrow> rat \<Rightarrow> tsbuffer" where
  "setBufferTailTimestamp fp b new_timestamp =
     (let ts = wrap_timestamp fp b new_timestamp;
          e2 = rdbl fp (of_u32 (m_update_period b) * m_current_rate b)
      in b\<lparr>m_buffer_tail_timestamp := ts, m_dll_e2 := e2,
           m_buffer_next_tail_timestamp := rdbl fp (ts + e2)\<rparr>)"

definition setBufferHeadTimestamp :: "fparith \<Rightarrow> tsbuffer \<Rightarrow> rat \<Rightarrow> tsbuffer" where
  "setBufferHeadTimestamp fp b new_timestamp =
     (let ts = rdbl fp (new_timestamp + rflt fp (m_current_rate b * rflt fp (of_i32 (m_framecounter b))));
          ts = wrap_timestamp fp b ts;
          e2 = rdbl fp (of_u32 (m_update_period b) * m_current_rate b)
      in b\<lparr>m_buffer_tail_timestamp := ts, m_dll_e2 := e2,
           m_buffer_next_tail_timestamp := rdbl fp (ts + e2)\<rparr>)"

definition getTimestampFromTail :: "fparith \<Rightarrow> tsbuffer \<Rightarrow> i32 \<Rightarrow> rat" where
  "getTimestampFromTail fp b nframes =
     wrap_timestamp fp b
       (rdbl fp (m_buffer_tail_timestamp b - rflt fp (rflt fp (of_i32 nframes) * m_current_rate b)))"

definition getBufferHeadTimestamp :: "fparith \<Rightarrow> tsbuffer \<Rightarrow> rat \<times> i32" where
  "getBufferHeadTimestamp fp b = (getTimestampFromTail fp b (m_framecounter b), m_framecounter b)"

definition getBufferTailTimestamp :: "fparith \<Rightarrow> tsbuffer \<Rightarrow> rat \<times> i32" where
  "getBufferTailTimestamp fp b = (getTimestampFromTail fp b 0, m_framecounter b)"

definition getTimestampFromHead :: "fparith \<Rightarrow> tsbuffer \<Rightarrow> i32 \<Rightarrow> rat" where
  "getTimestampFromHead fp b nframes = getTimestampFromTail fp b (m_framecounter b - nframes)"

definition resetFrameCounter :: "tsbuffer \<Rightarrow> tsbuffer" where
  "resetFrameCounter b = b\<lparr>m_framecounter := 0\<rparr>"

definition decrementFrameCounter :: "tsbuffer \<Rightarrow> u32 \<Rightarrow> tsbuffer" where
  "decrementFrameCounter b nbframes = b\<lparr>m_framecounter := m_framecounter b - nbframes\<rparr>"

text \<open>The error term of the loop: the distance of a new timestamp from the predicted one.\<close>

definition dll_error :: "fparith \<Rightarrow> tsbuffer \<Rightarrow> rat \<Rightarrow> rat" where
  "dll_error fp b new_timestamp =
     (let diff = rdbl fp (new_timestamp - m_buffer_next_tail_timestamp b)
      in if diff > rdbl fp (m_wrap_at b / 2) then rdbl fp (m_wrap_at b - diff)
         else if diff < rdbl fp (- m_wrap_at b / 2) then rdbl fp (m_wrap_at b + diff)
         else diff)"

definition incrementFrameCounter :: "fparith \<Rightarrow> tsbuffer \<Rightarrow> u32 \<Rightarrow> rat \<Rightarrow> tsbuffer option" where
  "incrementFrameCounter fp b nbframes new_timestamp =
     (if \<not> new_timestamp < m_wrap_at b then None
      else if \<not> 0 \<le> new_timestamp then None
      else if nbframes \<noteq> m_update_period b then None
      else
        let err = dll_error fp b new_timestamp;
            tail = m_buffer_next_tail_timestamp b;
            next = rdbl fp (m_buffer_next_tail_timestamp b
                            + rdbl fp (rdbl fp (m_dll_b b * err) + m_dll_e2 b));
            e2 = rdbl fp (m_dll_e2 b + rdbl fp (m_dll_c b * err));
            next = (if next \<ge> m_wrap_at b then rdbl fp (next - m_wrap_at b) else next);
            b1 = b\<lparr>m_framecounter := m_framecounter b + nbframes,
                   m_buffer_tail_timestamp := tail,
                   m_buffer_next_tail_timestamp := next,
                   m_dll_e2 := e2\<rparr>
        in (case calculateRate fp b1 of
              None \<Rightarrow> None
            | Some r \<Rightarrow> Some (b1\<lparr>m_current_rate := r\<rparr>)))"

section \<open>Allocation\<close>

definition clearBuffer :: "fparith \<Rightarrow> tsbuffer \<Rightarrow> (bool \<times> tsbuffer) option" where
  "clearBuffer fp b =
     (case m_event_buffer b of
        None \<Rightarrow> None
      | Some rb \<Rightarrow>
          let b1 = resetFrameCounter (b\<lparr>m_event_buffer := Some (ffado_ringbuffer_reset rb)\<rparr>)
          in Some (True, b1\<lparr>m_current_rate := m_nominal_rate b,
                           m_dll_e2 := rflt fp (m_nominal_rate b * rflt fp (of_u32 (m_update_period b)))\<rparr>))"

text \<open>\<open>junk\<close> are the bytes of newly allocated memory.\<close>

definition resizeBuffer :: "fparith \<Rightarrow> (nat \<Rightarrow> u8) \<Rightarrow> tsbuffer \<Rightarrow> u32 \<Rightarrow> (bool \<times> tsbuffer) option" where
  "resizeBuffer fp junk b new_size =
     (if new_size = 0 \<or> m_events_per_frame b = 0 \<or> m_event_size b = 0 then None
      else
        case ffado_ringbuffer_create junk (ucast ((m_events_per_frame b * new_size) * m_event_size b)) of
          None \<Rightarrow> None
        | Some rb \<Rightarrow>
            let b1 = resetFrameCounter (b\<lparr>m_event_buffer := Some rb\<rparr>)
            in Some (True, b1\<lparr>m_current_rate := m_nominal_rate b,
                             m_dll_e2 := rflt fp (m_nominal_rate b * rflt fp (of_u32 (m_update_period b))),
                             m_buffer_size := new_size\<rparr>))"

definition prepare :: "fparith \<Rightarrow> (nat \<Rightarrow> u8) \<Rightarrow> tsbuffer \<Rightarrow> (bool \<times> tsbuffer) option" where
  "prepare fp junk b =
     (if m_buffer_size b = 0 \<or> m_events_per_frame b = 0 \<or> m_event_size b = 0
         \<or> m_nominal_rate b = 0 \<or> m_update_period b = 0 then None
      else
        do {
          (ok, b1) \<leftarrow> resizeBuffer fp junk (b\<lparr>m_current_rate := m_nominal_rate b\<rparr>) (m_buffer_size b);
          if \<not> ok then Some (False, b1)
          else
            let cluster = m_events_per_frame b1 * m_event_size b1;
                block = cluster * FRAMES_PER_PROCESS_BLOCK
            in Some (True, b1\<lparr>m_cluster_size := cluster,
                             m_process_block_size := block,
                             m_process_buffer := Some (replicate (unat block) 0),
                             m_dll_e2 := rflt fp (m_nominal_rate b1 * rflt fp (of_u32 (m_update_period b1))),
                             m_buffer_tail_timestamp := rdbl fp (TIMESTAMP_MAX + 1),
                             m_buffer_next_tail_timestamp := rdbl fp (TIMESTAMP_MAX + 1)\<rparr>)
        })"

section \<open>Frames\<close>

definition writeDummyFrame :: "tsbuffer \<Rightarrow> (bool \<times> tsbuffer) option" where
  "writeDummyFrame b =
     (case m_event_buffer b of
        None \<Rightarrow> None
      | Some rb \<Rightarrow>
          let write_size = m_event_size b * m_events_per_frame b;
              dummy = replicate (unat write_size) 0;
              (written, rb') = ffado_ringbuffer_write rb dummy (ucast write_size);
              b1 = b\<lparr>m_event_buffer := Some rb'\<rparr>
          in if written < ucast write_size then Some (False, b1)
             else Some (True, b1\<lparr>m_framecounter := m_framecounter b1 + 1\<rparr>))"

definition writeFrames :: "fparith \<Rightarrow> tsbuffer \<Rightarrow> u32 \<Rightarrow> u8 list \<Rightarrow> rat \<Rightarrow> (bool \<times> tsbuffer) option" where
  "writeFrames fp b nframes data ts =
     (let write_size = nframes * m_event_size b * m_events_per_frame b
      in if m_transparent b then
           do {
             b1 \<leftarrow> (if m_buffer_tail_timestamp b < TIMESTAMP_MAX
                       \<and> m_buffer_next_tail_timestamp b < TIMESTAMP_MAX
                    then map_option (\<lambda>b1. decrementFrameCounter b1 nframes)
                           (incrementFrameCounter fp b nframes ts)
                    else Some b);
             Some (True, setBufferTailTimestamp fp b1 ts)
           }
         else
           case m_event_buffer b of
             None \<Rightarrow> None
           | Some rb \<Rightarrow>
               let (written, rb') = ffado_ringbuffer_write rb data (ucast write_size);
                   b1 = b\<lparr>m_event_buffer := Some rb'\<rparr>
               in if written < ucast write_size then Some (False, b1)
                  else map_option (Pair True) (incrementFrameCounter fp b1 nframes ts))"

definition preloadFrames :: "fparith \<Rightarrow> tsbuffer \<Rightarrow> u32 \<Rightarrow> u8 list \<Rightarrow> bool \<Rightarrow> (bool \<times> tsbuffer) option" where
  "preloadFrames fp b nframes data keep_head_ts =
     (case m_event_buffer b of
        None \<Rightarrow> None
      | Some rb \<Rightarrow>
          let write_size = nframes * m_event_size b * m_events_per_frame b;
              (written, rb') = ffado_ringbuffer_write rb data (ucast write_size);
              b1 = b\<lparr>m_event_buffer := Some rb'\<rparr>
          in if written < ucast write_size then Some (False, b1)
             else
               let ts = (if keep_head_ts then fst (getBufferHeadTimestamp fp b1)
                         else fst (getBufferTailTimestamp fp b1));
                   b2 = b1\<lparr>m_framecounter := m_framecounter b1 + nframes\<rparr>
               in Some (True, if keep_head_ts then setBufferHeadTimestamp fp b2 ts
                              else setBufferTailTimestamp fp b2 ts))"

definition dropFrames :: "tsbuffer \<Rightarrow> u32 \<Rightarrow> (bool \<times> tsbuffer) option" where
  "dropFrames b nframes =
     (case m_event_buffer b of
        None \<Rightarrow> None
      | Some rb \<Rightarrow>
          let read_size = nframes * m_event_size b * m_events_per_frame b
          in Some (True, decrementFrameCounter
               (b\<lparr>m_event_buffer := Some (ffado_ringbuffer_read_advance rb (ucast read_size))\<rparr>) nframes))"

text \<open>\<open>readFrames\<close> returns the bytes written to the caller's buffer beside the result.\<close>

definition readFrames :: "tsbuffer \<Rightarrow> u32 \<Rightarrow> (bool \<times> u8 list \<times> tsbuffer) option" where
  "readFrames b nframes =
     (let read_size = nframes * m_event_size b * m_events_per_frame b
      in if m_transparent b then Some (True, [], b)
         else
           case m_event_buffer b of
             None \<Rightarrow> None
           | Some rb \<Rightarrow>
               let (data, rb') = ffado_ringbuffer_read rb (ucast read_size);
                   b1 = b\<lparr>m_event_buffer := Some rb'\<rparr>
               in if of_nat (length data) < (ucast read_size :: u64) then Some (False, data, b1)
                  else Some (True, data, decrementFrameCounter b1 nframes))"

section \<open>Block processing\<close>

text \<open>
  The client's callbacks are parameters: \<open>processWriteBlock\<close> gets the number of frames and
  their offset and returns its \<^verbatim>\<open>bool\<close> result and the bytes it wrote; \<open>processReadBlock\<close> gets the
  bytes. Both act on a client state. The code stores the \<^verbatim>\<open>bool\<close> in the \<^verbatim>\<open>int\<close> \<^verbatim>\<open>xrun\<close> and
  takes a negative value for an error.
\<close>

type_synonym 'c write_block = "'c \<Rightarrow> u32 \<Rightarrow> u32 \<Rightarrow> bool \<times> u8 list \<times> 'c"
type_synonym 'c read_block = "'c \<Rightarrow> u8 list \<Rightarrow> u32 \<Rightarrow> u32 \<Rightarrow> bool \<times> 'c"

definition xrun_of :: "bool \<Rightarrow> i32" where
  "xrun_of r = (if r then 1 else 0)"

partial_function (option) write_blocks ::
  "'c write_block \<Rightarrow> u32 \<Rightarrow> u32 \<Rightarrow> u32 \<Rightarrow> u32 \<Rightarrow> ringbuffer \<Rightarrow> 'c \<Rightarrow> (bool \<times> ringbuffer \<times> 'c) option" where
  "write_blocks processWriteBlock nbframes cluster block bytes2write rb c =
     (if bytes2write = 0 then Some (True, rb, c)
      else if cluster = 0 \<or> block = 0 then None
      else
        let frameswritten = (nbframes * cluster - bytes2write) div cluster;
            offset = frameswritten;
            vec = ffado_ringbuffer_get_write_vector rb
        in if data_len (fst vec) + data_len (snd vec) < ucast block then Some (False, rb, c)
           else if data_len (fst vec) < ucast block then
             let r = processWriteBlock c FRAMES_PER_PROCESS_BLOCK offset
             in if xrun_of (fst r) <s 0 then Some (False, rb, snd (snd r))
                else
                  let rb1 = snd (ffado_ringbuffer_write rb (fst (snd r)) (ucast block));
                      bytes2write = bytes2write - block
                  in if bytes2write mod block = 0
                     then write_blocks processWriteBlock nbframes cluster block bytes2write rb1 (snd (snd r))
                     else None
           else
             let byteswritten = (if ucast bytes2write > data_len (fst vec)
                                 then ucast (data_len (fst vec) - data_len (fst vec) mod ucast block)
                                 else bytes2write) :: i32;
                 r = processWriteBlock c (byteswritten div cluster) offset;
                 rb1 = rb\<lparr>buf := memcpy_in (buf rb) (data_buf (fst vec)) (fst (snd r))\<rparr>
             in if xrun_of (fst r) <s 0 then Some (False, rb1, snd (snd r))
                else
                  let rb2 = ffado_ringbuffer_write_advance rb1 (scast byteswritten);
                      bytes2write = bytes2write - byteswritten
                  in if bytes2write mod block = 0
                     then write_blocks processWriteBlock nbframes cluster block bytes2write rb2 (snd (snd r))
                     else None)"

definition blockProcessWriteFrames ::
  "fparith \<Rightarrow> 'c write_block \<Rightarrow> tsbuffer \<Rightarrow> 'c \<Rightarrow> u32 \<Rightarrow> rat \<Rightarrow> (bool \<times> tsbuffer \<times> 'c) option" where
  "blockProcessWriteFrames fp processWriteBlock b c nbframes ts =
     (case m_event_buffer b of
        None \<Rightarrow> None
      | Some rb \<Rightarrow>
          let events2write = nbframes * m_events_per_frame b;
              bytes2write = events2write * m_event_size b
          in do {
               (ok, rb', c') \<leftarrow> write_blocks processWriteBlock nbframes (m_cluster_size b)
                                 (m_process_block_size b) bytes2write rb c;
               let b1 = b\<lparr>m_event_buffer := Some rb'\<rparr>
               in if \<not> ok then Some (False, b1, c')
                  else do {
                    b2 \<leftarrow> incrementFrameCounter fp b1 nbframes ts;
                    Some (True, b2, c')
                  }
             })"

partial_function (option) read_blocks ::
  "'c read_block \<Rightarrow> u32 \<Rightarrow> u32 \<Rightarrow> u32 \<Rightarrow> u32 \<Rightarrow> ringbuffer \<Rightarrow> 'c \<Rightarrow> (bool \<times> ringbuffer \<times> 'c) option" where
  "read_blocks processReadBlock nbframes cluster block bytes2read rb c =
     (if bytes2read = 0 then Some (True, rb, c)
      else if cluster = 0 \<or> block = 0 then None
      else
        let framesread = (nbframes * cluster - bytes2read) div cluster;
            offset = framesread;
            vec = ffado_ringbuffer_get_read_vector rb
        in if data_len (fst vec) + data_len (snd vec) < ucast block then Some (False, rb, c)
           else if data_len (fst vec) < ucast block then
             let d = ffado_ringbuffer_read rb (ucast block);
                 r = processReadBlock c (fst d) FRAMES_PER_PROCESS_BLOCK offset
             in if xrun_of (fst r) <s 0 then Some (False, snd d, snd r)
                else
                  let bytes2read = bytes2read - block
                  in if bytes2read mod block = 0
                     then read_blocks processReadBlock nbframes cluster block bytes2read (snd d) (snd r)
                     else None
           else
             let bytesread = (if ucast bytes2read > data_len (fst vec)
                              then ucast (data_len (fst vec) - data_len (fst vec) mod ucast block)
                              else bytes2read) :: i32;
                 r = processReadBlock c (memcpy_out (buf rb) (data_buf (fst vec)) (ucast bytesread))
                       (bytesread div cluster) offset
             in if xrun_of (fst r) <s 0 then Some (False, rb, snd r)
                else
                  let rb1 = ffado_ringbuffer_read_advance rb (scast bytesread);
                      bytes2read = bytes2read - bytesread
                  in if bytes2read mod block = 0
                     then read_blocks processReadBlock nbframes cluster block bytes2read rb1 (snd r)
                     else None)"

definition blockProcessReadFrames ::
  "'c read_block \<Rightarrow> tsbuffer \<Rightarrow> 'c \<Rightarrow> u32 \<Rightarrow> (bool \<times> tsbuffer \<times> 'c) option" where
  "blockProcessReadFrames processReadBlock b c nbframes =
     (case m_event_buffer b of
        None \<Rightarrow> None
      | Some rb \<Rightarrow>
          let events2read = nbframes * m_events_per_frame b;
              bytes2read = events2read * m_event_size b
          in do {
               (ok, rb', c') \<leftarrow> read_blocks processReadBlock nbframes (m_cluster_size b)
                                 (m_process_block_size b) bytes2read rb c;
               let b1 = b\<lparr>m_event_buffer := Some rb'\<rparr>
               in if \<not> ok then Some (False, b1, c')
                  else Some (True, decrementFrameCounter b1 nbframes, c')
             })"

section \<open>Block processing delivers whole frames\<close>

lemma xrun_never_negative [simp]: "\<not> xrun_of r <s 0"
  by (simp add: xrun_of_def word_sless_alt)

text \<open>
  A client that serves frame \<open>f i\<close> of \<open>cl\<close> bytes at offset \<open>i\<close>; its \<^verbatim>\<open>bool\<close> result and state
  are arbitrary.
\<close>

definition serves :: "nat \<Rightarrow> (nat \<Rightarrow> u8 list) \<Rightarrow> 'c write_block \<Rightarrow> bool" where
  "serves cl f processWriteBlock \<longleftrightarrow>
     (\<forall>i. length (f i) = cl)
     \<and> (\<forall>c n off. fst (snd (processWriteBlock c n off)) = concat (map f [unat off..<unat off + unat n]))"

lemma length_frames:
  assumes "\<And>i. length (f i) = cl"
  shows "length (concat (map f [a..<a + n])) = n * cl"
  using assms by (simp add: length_concat comp_def sum_list_triv)

text \<open>
  The sizes of a call, as words and as numbers: \<open>k\<close> of \<open>K\<close> blocks of eight clusters of \<open>cl\<close>
  bytes are left.
\<close>

definition block_sizes :: "nat \<Rightarrow> nat \<Rightarrow> nat \<Rightarrow> u32 \<Rightarrow> u32 \<Rightarrow> u32 \<Rightarrow> u32 \<Rightarrow> bool" where
  "block_sizes K k cl nb cw bw rem \<longleftrightarrow>
     0 < cl \<and> k \<le> K \<and> K * (8 * cl) < 2 ^ 30 \<and> unat nb = 8 * K \<and> unat cw = cl
     \<and> unat bw = 8 * cl \<and> unat rem = k * (8 * cl)"

lemma block_sizes_offset:
  assumes "block_sizes K k cl nb cw bw rem"
  shows "unat ((nb * cw - rem) div cw) = 8 * (K - k)"
proof -
  have a: "0 < cl" "k \<le> K" "K * (8 * cl) < 2 ^ 30" "unat nb = 8 * K" "unat cw = cl" "unat rem = k * (8 * cl)"
    using assms by (simp_all add: block_sizes_def)
  have "unat nb * unat cw < 2 ^ LENGTH(32)" using a by simp
  then have m: "unat (nb * cw) = K * (8 * cl)"
    using a(4,5) by (simp add: unat_word_ariths)
  have "rem \<le> nb * cw" using a(2,6) m by (simp add: word_le_nat_alt)
  then have "unat (nb * cw - rem) = (8 * (K - k)) * cl"
    using m a(6) by (simp add: unat_sub diff_mult_distrib mult.assoc mult.left_commute)
  then show ?thesis using a(1,5) by (simp add: unat_div)
qed

lemma block_sizes_rest:
  assumes "block_sizes K k cl nb cw bw rem" and "m \<le> k" and "unat x = m * (8 * cl)"
  shows "block_sizes K (k - m) cl nb cw bw (rem - x)" and "(rem - x) mod bw = 0"
proof -
  have "x \<le> rem" using assms by (simp add: block_sizes_def word_le_nat_alt)
  then have u: "unat (rem - x) = (k - m) * (8 * cl)"
    using assms by (simp add: block_sizes_def unat_sub diff_mult_distrib)
  moreover have "k - m \<le> K" using assms(1) by (auto simp: block_sizes_def)
  ultimately show "block_sizes K (k - m) cl nb cw bw (rem - x)"
    using assms(1) by (simp add: block_sizes_def)
  show "(rem - x) mod bw = 0"
    using u assms(1) by (simp add: word_unat_eq_iff unat_mod block_sizes_def)
qed

lemma block_sizes_nonzero:
  assumes "block_sizes K k cl nb cw bw rem"
  shows "cw \<noteq> 0" and "bw \<noteq> 0" and "rem = 0 \<longleftrightarrow> k = 0" and "k * (8 * cl) < 2 ^ 30"
proof -
  have "k * (8 * cl) \<le> K * (8 * cl)" "K * (8 * cl) < 2 ^ 30"
    using assms by (simp_all add: block_sizes_def)
  then show "k * (8 * cl) < 2 ^ 30" by (rule order.strict_trans1)
qed (use assms in \<open>auto simp: block_sizes_def word_unat_eq_iff\<close>)

text \<open>One iteration, through the temporary buffer or directly into the ring buffer's memory.\<close>

lemma write_blocks_temp:
  assumes "bytes \<noteq> 0" and "cw \<noteq> 0" and "bw \<noteq> 0"
    and "v = ffado_ringbuffer_get_write_vector rb"
    and "\<not> data_len (fst v) + data_len (snd v) < ucast bw" and "data_len (fst v) < ucast bw"
    and "r = pwb c FRAMES_PER_PROCESS_BLOCK ((nb * cw - bytes) div cw)"
    and "(bytes - bw) mod bw = 0"
  shows "write_blocks pwb nb cw bw bytes rb c =
     write_blocks pwb nb cw bw (bytes - bw)
       (snd (ffado_ringbuffer_write rb (fst (snd r)) (ucast bw))) (snd (snd r))"
  using assms by (subst write_blocks.simps) (simp add: Let_def)

lemma write_blocks_direct:
  assumes "bytes \<noteq> 0" and "cw \<noteq> 0" and "bw \<noteq> 0"
    and "v = ffado_ringbuffer_get_write_vector rb"
    and "\<not> data_len (fst v) + data_len (snd v) < ucast bw" and "\<not> data_len (fst v) < ucast bw"
    and "x = (if ucast bytes > data_len (fst v)
              then ucast (data_len (fst v) - data_len (fst v) mod ucast bw) else bytes)"
    and "r = pwb c (x div cw) ((nb * cw - bytes) div cw)"
    and "(bytes - x) mod bw = 0"
  shows "write_blocks pwb nb cw bw bytes rb c =
     write_blocks pwb nb cw bw (bytes - x)
       (ffado_ringbuffer_write_advance (rb\<lparr>buf := memcpy_in (buf rb) (data_buf (fst v)) (fst (snd r))\<rparr>) (scast x))
       (snd (snd r))"
  using assms
  by (subst write_blocks.simps) (cases "ucast bytes > data_len (fst v)"; simp add: Let_def)


text \<open>Words that hold a multiple of the block size keep their value when they are widened.\<close>

lemma unat_ucast_u64 [simp]: "unat (ucast (x :: u32) :: u64) = unat x"
  by (simp add: unsigned_ucast_eq take_bit_nat_eq_self order.strict_trans [OF unsigned_less])

lemma scast_u64_small: "unat (x :: u32) < 2 ^ 31 \<Longrightarrow> (scast x :: u64) = ucast x"
  using scast_of_nat_u32 [of "unat x"] ucast_of_nat_u32 [of "unat x"] by simp

text \<open>
  The number of bytes moved directly: whole blocks, at least one and at most the rest, within the
  first part of the vector.
\<close>

lemma direct_size:
  assumes sizes: "block_sizes K k cl nb cw bw rem" and k: "0 < k"
    and ge: "8 * cl \<le> unat (len :: u64)"
    and x: "x = (if ucast rem > len then ucast (len - len mod ucast bw) else rem)"
  shows "\<exists>m. 0 < m \<and> m \<le> k \<and> unat x = m * (8 * cl) \<and> m * (8 * cl) \<le> unat len \<and> unat (x div cw) = 8 * m"
proof -
  have B: "0 < cl" "unat cw = cl" "unat bw = 8 * cl" "unat rem = k * (8 * cl)"
    using sizes by (simp_all add: block_sizes_def)
  note small = block_sizes_nonzero(4) [OF sizes]
  have "\<exists>m. 0 < m \<and> m \<le> k \<and> unat x = m * (8 * cl) \<and> m * (8 * cl) \<le> unat len"
  proof (cases "ucast rem > len")
    case True
    then have lt: "unat len < k * (8 * cl)" using B(4) by (simp add: word_less_nat_alt)
    have "len mod ucast bw \<le> len" by (simp add: word_le_nat_alt unat_mod)
    then have "unat (len - len mod ucast bw) = unat len - unat len mod (8 * cl)"
      using B(3) by (simp only: unat_sub unat_mod unat_ucast_u64)
    then have "unat (len - len mod ucast bw) = unat len div (8 * cl) * (8 * cl)"
      by (simp only: minus_mod_eq_div_mult)
    moreover have le: "unat len div (8 * cl) * (8 * cl) \<le> unat len" by simp
    moreover have "unat len div (8 * cl) * (8 * cl) < 2 ^ 32"
      using order.strict_trans1 [OF le order.strict_trans [OF lt small]] by (rule order.strict_trans) simp
    ultimately have "unat x = unat len div (8 * cl) * (8 * cl)"
      using True x by (simp only: unsigned_ucast_eq take_bit_nat_eq_self if_True) (simp add: take_bit_nat_eq_self)
    moreover have "0 < unat len div (8 * cl)" using ge B(1) by (simp add: div_greater_zero_iff)
    moreover have "unat len div (8 * cl) \<le> k" using lt by (simp add: div_le_mono less_imp_le_nat div_le_dividend less_mult_imp_div_less)
    ultimately show ?thesis using le by blast
  next
    case False
    then have "unat x = k * (8 * cl)" "k * (8 * cl) \<le> unat len"
      using x B(4) by (simp_all add: word_less_nat_alt)
    then show ?thesis using k by blast
  qed
  then obtain m where m: "0 < m" "m \<le> k" "unat x = m * (8 * cl)" "m * (8 * cl) \<le> unat len" by blast
  then have "unat (x div cw) = 8 * m" using B(1,2) by (simp add: unat_div)
  then show ?thesis using m by blast
qed

text \<open>Every iteration stores a positive number \<open>m\<close> of blocks of the client's frames.\<close>

lemma write_blocks_step:
  assumes serves: "serves cl f pwb" and wf: "rb_wf rb"
    and sizes: "block_sizes K k cl nb cw bw rem" and k: "0 < k"
    and space: "rb_fill rb + k * (8 * cl) \<le> rb_capacity rb"
  shows "\<exists>m x n c'. 0 < m \<and> m \<le> k \<and> unat x = m * (8 * cl) \<and> unat n = m * (8 * cl)
     \<and> write_blocks pwb nb cw bw rem rb c =
         write_blocks pwb nb cw bw (rem - x)
           (rb_put rb (concat (map f [8 * (K - k)..<8 * (K - k) + 8 * m])) n) c'"
proof -
  let ?v = "ffado_ringbuffer_get_write_vector rb" and ?off = "(nb * cw - rem) div cw"
  note nz = block_sizes_nonzero [OF sizes] and off = block_sizes_offset [OF sizes]
  note V = get_write_vector_lens [OF wf] and D = rb_wfD [OF wf]
  have sz: "unat cw = cl" "unat bw = 8 * cl" "unat rem = k * (8 * cl)" "0 < cl"
    using sizes by (simp_all add: block_sizes_def)
  have rem: "rem \<noteq> 0" using nz(3) k by simp
  have B: "8 * cl \<le> k * (8 * cl)" using k by simp
  have cap: "k * (8 * cl) \<le> rb_capacity rb - rb_fill rb" using space by simp
  have tot: "\<not> data_len (fst ?v) + data_len (snd ?v) < ucast bw"
    using V(3) order.trans [OF B cap] sz(2) D(2)
    by (simp add: word_less_nat_alt unat_plus_no_overflow rb_capacity_def)
  have frames: "fst (snd (pwb c n ?off)) = concat (map f [8 * (K - k)..<8 * (K - k) + unat n])"
    and len: "length (concat (map f [8 * (K - k)..<8 * (K - k) + i])) = i * cl" for n i c
    using serves off by (simp_all add: serves_def length_frames)
  show ?thesis
  proof (cases "data_len (fst ?v) < ucast bw")
    case True
    let ?r = "pwb c FRAMES_PER_PROCESS_BLOCK ?off"
    have r: "fst (snd ?r) = concat (map f [8 * (K - k)..<8 * (K - k) + 8 * 1])"
      using frames [of c FRAMES_PER_PROCESS_BLOCK] by (simp add: FRAMES_PER_PROCESS_BLOCK_def)
    have "ucast bw \<le> ffado_ringbuffer_write_space rb"
      using order.trans [OF B cap] sz(2) by (simp add: word_le_nat_alt unat_write_space [OF wf])
    then have w: "snd (ffado_ringbuffer_write rb (fst (snd ?r)) (ucast bw))
        = rb_put rb (concat (map f [8 * (K - k)..<8 * (K - k) + 8 * 1])) (ucast bw)"
      using r len [of 8] sz(2) by (subst ffado_ringbuffer_write_eq [OF wf]) (simp_all add: min_def)
    have bw1: "unat bw = 1 * (8 * cl)" "unat (ucast bw :: u64) = 1 * (8 * cl)" using sz(2) by simp_all
    have "(rem - bw) mod bw = 0"
      using k by (intro block_sizes_rest(2) [OF sizes _ bw1(1)]) simp
    then have "write_blocks pwb nb cw bw rem rb c = write_blocks pwb nb cw bw (rem - bw)
        (rb_put rb (concat (map f [8 * (K - k)..<8 * (K - k) + 8 * 1])) (ucast bw)) (snd (snd ?r))"
      using write_blocks_temp [where pwb = pwb and nb = nb and c = c, OF rem nz(1,2) refl tot True refl] unfolding w by simp
    moreover have "0 < (1 :: nat)" "1 \<le> k" using k by simp_all
    ultimately show ?thesis using bw1 by blast
  next
    case False
    define x where "x = (if ucast rem > data_len (fst ?v)
      then ucast (data_len (fst ?v) - data_len (fst ?v) mod ucast bw) else rem)"
    have "8 * cl \<le> unat (data_len (fst ?v))" using False sz(2) by (simp add: word_less_nat_alt)
    then obtain m where m: "0 < m" "m \<le> k" "unat x = m * (8 * cl)"
      "m * (8 * cl) \<le> unat (data_len (fst ?v))" "unat (x div cw) = 8 * m"
      using direct_size [OF sizes k _ x_def] by blast
    let ?r = "pwb c (x div cw) ?off" and ?xs = "concat (map f [8 * (K - k)..<8 * (K - k) + 8 * m])"
    have r: "fst (snd ?r) = ?xs" using frames [of c "x div cw"] m(5) by simp
    have "m * (8 * cl) \<le> k * (8 * cl)" using m(2) by (rule mult_le_mono1)
    then have "m * (8 * cl) < 2 ^ 30" using nz(4) by (rule order.strict_trans1)
    then have x: "scast x = (ucast x :: u64)" using m(3) by (intro scast_u64_small) simp
    have u: "unat (ucast x :: u64) = m * (8 * cl)" using m(3) by simp
    have "m * (8 * cl) \<le> sz rb - wp rb" using m(4) V(2) by simp
    then have "wp rb + m * (8 * cl) \<le> sz rb" using D(3) by linarith
    then have "ffado_ringbuffer_write_advance
        (rb\<lparr>buf := memcpy_in (buf rb) (data_buf (fst ?v)) (fst (snd ?r))\<rparr>) (scast x)
        = rb_put rb ?xs (ucast x)"
      using V(1) u len [of "8 * m"] unfolding r x by (simp add: direct_write_put [OF wf])
    moreover have "(rem - x) mod bw = 0" by (rule block_sizes_rest(2) [OF sizes m(2,3)])
    ultimately have "write_blocks pwb nb cw bw rem rb c =
        write_blocks pwb nb cw bw (rem - x) (rb_put rb ?xs (ucast x)) (snd (snd ?r))"
      using write_blocks_direct [where pwb = pwb and nb = nb and c = c, OF rem nz(1,2) refl tot False x_def refl] by simp
    then show ?thesis using m(1-3) u by blast
  qed
qed

lemma upt_join: "a \<le> b \<Longrightarrow> b \<le> c \<Longrightarrow> [a..<b] @ [b..<c] = [a..<c]"
  using upt_add_eq_append [of a b "c - b"] by simp

text \<open>The loop ends and stores all frames, whatever the client's callback returns.\<close>

lemma write_blocks_all:
  assumes serves: "serves cl f pwb"
    and "rb_wf rb" and "block_sizes K k cl nb cw bw rem"
    and "rb_fill rb + k * (8 * cl) \<le> rb_capacity rb"
  shows "\<exists>rb' c'. write_blocks pwb nb cw bw rem rb c = Some (True, rb', c') \<and> rb_wf rb'
     \<and> size_rb rb' = size_rb rb
     \<and> rb_contents rb' = rb_contents rb @ concat (map f [8 * (K - k)..<8 * K])"
  using assms(2-)
proof (induction k arbitrary: rem rb c rule: less_induct)
  case (less k)
  note wf = less.prems(1) and sizes = less.prems(2) and space = less.prems(3)
  show ?case
  proof (cases "k = 0")
    case True
    then have "rem = 0" using block_sizes_nonzero(3) [OF sizes] by simp
    then have "write_blocks pwb nb cw bw rem rb c = Some (True, rb, c)"
      by (subst write_blocks.simps) simp
    then show ?thesis using True wf by simp
  next
    case False
    let ?xs = "\<lambda>m. concat (map f [8 * (K - k)..<8 * (K - k) + 8 * m])"
    obtain m x n c' where m: "0 < m" "m \<le> k" "unat x = m * (8 * cl)" "unat n = m * (8 * cl)"
      "write_blocks pwb nb cw bw rem rb c = write_blocks pwb nb cw bw (rem - x) (rb_put rb (?xs m) n) c'"
      using write_blocks_step [OF serves wf sizes _ space] False by blast
    have le: "m * (8 * cl) \<le> k * (8 * cl)" using m(2) by (rule mult_le_mono1)
    then have n: "unat n \<le> rb_capacity rb - rb_fill rb" "rb_fill rb + unat n + (k - m) * (8 * cl) \<le> rb_capacity rb"
      using m(4) space by (simp_all only: diff_mult_distrib)
    have "length (?xs m) = unat n"
      using serves m(4) by (simp add: serves_def length_frames)
    note put = rb_put_contents [OF wf this n(1)]
    have "rb_fill (rb_put rb (?xs m) n) + (k - m) * (8 * cl) \<le> rb_capacity (rb_put rb (?xs m) n)"
      using put(2) n(2) by (simp add: rb_capacity_def rb_put_def)
    then obtain rb' c'' where R: "write_blocks pwb nb cw bw (rem - x) (rb_put rb (?xs m) n) c' = Some (True, rb', c'')"
      "rb_wf rb'" "size_rb rb' = size_rb (rb_put rb (?xs m) n)"
      "rb_contents rb' = rb_contents (rb_put rb (?xs m) n) @ concat (map f [8 * (K - (k - m))..<8 * K])"
      using less.IH [OF _ put(1) block_sizes_rest(1) [OF sizes m(2,3)]] m(1,2) False by fastforce
    have "k \<le> K" using sizes by (simp add: block_sizes_def)
    then have "8 * (K - k) + 8 * m = 8 * (K - (k - m))" "8 * (K - (k - m)) \<le> 8 * K"
      using m(2) by simp_all
    then have "[8 * (K - k)..<8 * (K - k) + 8 * m] @ [8 * (K - (k - m))..<8 * K] = [8 * (K - k)..<8 * K]"
      using upt_join [of "8 * (K - k)" "8 * (K - (k - m))" "8 * K"] by simp
    then have "?xs m @ concat (map f [8 * (K - (k - m))..<8 * K]) = concat (map f [8 * (K - k)..<8 * K])"
      by (metis concat_append map_append)
    then show ?thesis using R m(5) put(3) by (simp add: rb_put_def)
  qed
qed

text \<open>
  A client that receives: \<open>got\<close> is the list of bytes it has been given, and a call with \<open>n\<close> whole
  frames at the offset that follows the frames already given appends them.
\<close>

definition receives :: "nat \<Rightarrow> nat \<Rightarrow> ('c \<Rightarrow> u8 list) \<Rightarrow> 'c read_block \<Rightarrow> bool" where
  "receives cl start got processReadBlock \<longleftrightarrow>
     (\<forall>c data n off. length data = unat n * cl \<and> length (got c) = start + unat off * cl \<longrightarrow>
        got (snd (processReadBlock c data n off)) = got c @ data)"

lemma read_blocks_temp:
  assumes "bytes \<noteq> 0" and "cw \<noteq> 0" and "bw \<noteq> 0"
    and "v = ffado_ringbuffer_get_read_vector rb"
    and "\<not> data_len (fst v) + data_len (snd v) < ucast bw" and "data_len (fst v) < ucast bw"
    and "d = ffado_ringbuffer_read rb (ucast bw)"
    and "(bytes - bw) mod bw = 0"
  shows "read_blocks prb nb cw bw bytes rb c =
     read_blocks prb nb cw bw (bytes - bw) (snd d)
       (snd (prb c (fst d) FRAMES_PER_PROCESS_BLOCK ((nb * cw - bytes) div cw)))"
  using assms by (subst read_blocks.simps) (simp add: Let_def)

lemma read_blocks_direct:
  assumes "bytes \<noteq> 0" and "cw \<noteq> 0" and "bw \<noteq> 0"
    and "v = ffado_ringbuffer_get_read_vector rb"
    and "\<not> data_len (fst v) + data_len (snd v) < ucast bw" and "\<not> data_len (fst v) < ucast bw"
    and "x = (if ucast bytes > data_len (fst v)
              then ucast (data_len (fst v) - data_len (fst v) mod ucast bw) else bytes)"
    and "(bytes - x) mod bw = 0"
  shows "read_blocks prb nb cw bw bytes rb c =
     read_blocks prb nb cw bw (bytes - x) (ffado_ringbuffer_read_advance rb (scast x))
       (snd (prb c (memcpy_out (buf rb) (data_buf (fst v)) (ucast x)) (x div cw) ((nb * cw - bytes) div cw)))"
  using assms
  by (subst read_blocks.simps) (cases "ucast bytes > data_len (fst v)"; simp add: Let_def)

text \<open>Every iteration takes a positive number \<open>m\<close> of blocks from the ring buffer in one call.\<close>

lemma read_blocks_step:
  assumes wf: "rb_wf rb"
    and sizes: "block_sizes K k cl nb cw bw rem" and k: "0 < k"
    and fill: "k * (8 * cl) \<le> rb_fill rb"
  shows "\<exists>m x n w off. 0 < m \<and> m \<le> k \<and> unat x = m * (8 * cl) \<and> unat n = m * (8 * cl)
     \<and> unat w = 8 * m \<and> unat off = 8 * (K - k)
     \<and> read_blocks prb nb cw bw rem rb c =
         read_blocks prb nb cw bw (rem - x) (ffado_ringbuffer_read_advance rb n)
           (snd (prb c (take (m * (8 * cl)) (rb_contents rb)) w off))"
proof -
  let ?v = "ffado_ringbuffer_get_read_vector rb" and ?off = "(nb * cw - rem) div cw"
  note nz = block_sizes_nonzero [OF sizes] and off = block_sizes_offset [OF sizes]
  note V = get_read_vector_lens [OF wf] and D = rb_wfD [OF wf]
  have sz: "unat cw = cl" "unat bw = 8 * cl" "unat rem = k * (8 * cl)" "0 < cl"
    using sizes by (simp_all add: block_sizes_def)
  have rem: "rem \<noteq> 0" using nz(3) k by simp
  have B: "8 * cl \<le> rb_fill rb"
    using k fill by (metis Suc_leI One_nat_def mult_le_mono1 nat_mult_1 order.trans)
  have tot: "\<not> data_len (fst ?v) + data_len (snd ?v) < ucast bw"
    using V(3) B sz(2) D(2) rb_fill_less [OF wf]
    by (simp add: word_less_nat_alt unat_plus_no_overflow)
  show ?thesis
  proof (cases "data_len (fst ?v) < ucast bw")
    case True
    have "ucast bw \<le> ffado_ringbuffer_read_space rb"
      using B sz(2) by (simp add: word_le_nat_alt unat_read_space [OF wf])
    then have d: "ffado_ringbuffer_read rb (ucast bw)
        = (take (1 * (8 * cl)) (rb_contents rb), ffado_ringbuffer_read_advance rb (ucast bw))"
      using sz(2) by (simp add: ffado_ringbuffer_read_eq [OF wf] min_def)
    have bw1: "unat bw = 1 * (8 * cl)" "unat (ucast bw :: u64) = 1 * (8 * cl)" using sz(2) by simp_all
    have "(rem - bw) mod bw = 0"
      using k by (intro block_sizes_rest(2) [OF sizes _ bw1(1)]) simp
    then have "read_blocks prb nb cw bw rem rb c = read_blocks prb nb cw bw (rem - bw)
        (ffado_ringbuffer_read_advance rb (ucast bw))
        (snd (prb c (take (1 * (8 * cl)) (rb_contents rb)) FRAMES_PER_PROCESS_BLOCK ?off))"
      using read_blocks_temp [where prb = prb and nb = nb and c = c, OF rem nz(1,2) refl tot True refl]
      unfolding d by simp
    moreover have "0 < (1 :: nat)" "1 \<le> k" "unat FRAMES_PER_PROCESS_BLOCK = 8 * 1"
      using k by (simp_all add: FRAMES_PER_PROCESS_BLOCK_def)
    ultimately show ?thesis using bw1 off by blast
  next
    case False
    define x where "x = (if ucast rem > data_len (fst ?v)
      then ucast (data_len (fst ?v) - data_len (fst ?v) mod ucast bw) else rem)"
    have "8 * cl \<le> unat (data_len (fst ?v))" using False sz(2) by (simp add: word_less_nat_alt)
    then obtain m where m: "0 < m" "m \<le> k" "unat x = m * (8 * cl)"
      "m * (8 * cl) \<le> unat (data_len (fst ?v))" "unat (x div cw) = 8 * m"
      using direct_size [OF sizes k _ x_def] by blast
    have "m * (8 * cl) \<le> k * (8 * cl)" using m(2) by (rule mult_le_mono1)
    then have "m * (8 * cl) < 2 ^ 30" using nz(4) by (rule order.strict_trans1)
    then have x: "scast x = (ucast x :: u64)" using m(3) by (intro scast_u64_small) simp
    have u: "unat (ucast x :: u64) = m * (8 * cl)" using m(3) by simp
    have "m * (8 * cl) \<le> sz rb - rp rb" and f: "m * (8 * cl) \<le> rb_fill rb" using m(4) V(2) by simp_all
    then have "rp rb + m * (8 * cl) \<le> sz rb" using D(4) by linarith
    then have d: "memcpy_out (buf rb) (data_buf (fst ?v)) (ucast x) = take (m * (8 * cl)) (rb_contents rb)"
      using V(1) u f by (simp add: direct_read_contents [OF wf])
    have "(rem - x) mod bw = 0" by (rule block_sizes_rest(2) [OF sizes m(2,3)])
    then have "read_blocks prb nb cw bw rem rb c = read_blocks prb nb cw bw (rem - x)
        (ffado_ringbuffer_read_advance rb (ucast x))
        (snd (prb c (take (m * (8 * cl)) (rb_contents rb)) (x div cw) ?off))"
      using read_blocks_direct [where prb = prb and nb = nb and c = c, OF rem nz(1,2) refl tot False x_def]
      unfolding d x by simp
    then show ?thesis using m(1,2,3,5) u off by blast
  qed
qed

lemma read_blocks_all:
  assumes recv: "receives cl start got prb"
    and "rb_wf rb" and "block_sizes K k cl nb cw bw rem"
    and "k * (8 * cl) \<le> rb_fill rb" and "length (got c) = start + 8 * (K - k) * cl"
  shows "\<exists>rb' c'. read_blocks prb nb cw bw rem rb c = Some (True, rb', c') \<and> rb_wf rb'
     \<and> size_rb rb' = size_rb rb \<and> rb_contents rb' = drop (k * (8 * cl)) (rb_contents rb)
     \<and> got c' = got c @ take (k * (8 * cl)) (rb_contents rb)"
  using assms(2-)
proof (induction k arbitrary: rem rb c rule: less_induct)
  case (less k)
  note wf = less.prems(1) and sizes = less.prems(2) and fill = less.prems(3) and got = less.prems(4)
  show ?case
  proof (cases "k = 0")
    case True
    then have "rem = 0" using block_sizes_nonzero(3) [OF sizes] by simp
    then have "read_blocks prb nb cw bw rem rb c = Some (True, rb, c)"
      by (subst read_blocks.simps) simp
    then show ?thesis using True wf by simp
  next
    case False
    obtain m x n w off where m: "0 < m" "m \<le> k" "unat x = m * (8 * cl)" "unat n = m * (8 * cl)"
        "unat w = 8 * m" "unat off = 8 * (K - k)"
      and eq: "read_blocks prb nb cw bw rem rb c =
         read_blocks prb nb cw bw (rem - x) (ffado_ringbuffer_read_advance rb n)
           (snd (prb c (take (m * (8 * cl)) (rb_contents rb)) w off))"
      using read_blocks_step [where prb = prb and c = c, OF wf sizes _ fill] False by auto
    let ?c = "snd (prb c (take (m * (8 * cl)) (rb_contents rb)) w off)"
    have le: "m * (8 * cl) \<le> k * (8 * cl)" using m(2) by (rule mult_le_mono1)
    have le': "m * (8 * cl) \<le> rb_fill rb" using le fill by (rule order.trans)
    have km: "k * (8 * cl) = m * (8 * cl) + (k - m) * (8 * cl)"
      using m(2) by (simp flip: add_mult_distrib)
    have "unat n \<le> rb_fill rb" using m(4) le' by simp
    note adv = read_advance_contents [OF wf this]
    have fill': "(k - m) * (8 * cl) \<le> rb_fill (ffado_ringbuffer_read_advance rb n)"
    proof -
      have "rb_fill (ffado_ringbuffer_read_advance rb n) = rb_fill rb - unat n"
        using adv(1) by (metis length_drop length_rb_contents)
      then show ?thesis using fill km m(4) by linarith
    qed
    have "length (take (m * (8 * cl)) (rb_contents rb)) = unat w * cl" using le' m(5) by simp
    then have got': "got ?c = got c @ take (m * (8 * cl)) (rb_contents rb)"
      using recv got m(6) by (simp add: receives_def)
    have "k \<le> K" using sizes by (simp add: block_sizes_def)
    then have "8 * (K - (k - m)) = 8 * (K - k) + 8 * m" using m(2) by simp
    then have "8 * (K - (k - m)) * cl = 8 * (K - k) * cl + m * (8 * cl)"
      by (simp only: add_mult_distrib mult.assoc mult.left_commute)
    then have len': "length (got ?c) = start + 8 * (K - (k - m)) * cl"
      using got' got le' by simp
    obtain rb' c' where R: "read_blocks prb nb cw bw (rem - x) (ffado_ringbuffer_read_advance rb n) ?c = Some (True, rb', c')"
      "rb_wf rb'" "size_rb rb' = size_rb (ffado_ringbuffer_read_advance rb n)"
      "rb_contents rb' = drop ((k - m) * (8 * cl)) (rb_contents (ffado_ringbuffer_read_advance rb n))"
      "got c' = got ?c @ take ((k - m) * (8 * cl)) (rb_contents (ffado_ringbuffer_read_advance rb n))"
      using less.IH [OF _ adv(2) block_sizes_rest(1) [OF sizes m(2,3)] fill' len'] m(1,2) False
      by fastforce
    then show ?thesis
      using eq adv(1) m(4) got' unfolding km
      by (simp add: ffado_ringbuffer_read_advance_def take_add add.commute)
  qed
qed

section \<open>The invariant of the buffer\<close>

text \<open>
  Bytes per frame, the ring buffer and its bytes; the invariant of a prepared buffer: the ring
  buffer holds exactly the frames the frame counter counts.
\<close>

definition ts_bpf :: "tsbuffer \<Rightarrow> nat" where
  "ts_bpf b = unat (m_event_size b) * unat (m_events_per_frame b)"

definition ts_rb :: "tsbuffer \<Rightarrow> ringbuffer" where
  "ts_rb b = the (m_event_buffer b)"

definition ts_bytes :: "tsbuffer \<Rightarrow> u8 list" where
  "ts_bytes b = rb_contents (ts_rb b)"

definition ts_space :: "tsbuffer \<Rightarrow> nat" where
  "ts_space b = rb_capacity (ts_rb b) - rb_fill (ts_rb b)"

definition ts_wf :: "tsbuffer \<Rightarrow> bool" where
  "ts_wf b \<longleftrightarrow> m_event_buffer b \<noteq> None \<and> rb_wf (ts_rb b) \<and> sz (ts_rb b) \<le> 2 ^ 30
     \<and> 0 < ts_bpf b \<and> unat (m_cluster_size b) = ts_bpf b \<and> unat (m_process_block_size b) = 8 * ts_bpf b
     \<and> rb_fill (ts_rb b) = unat (m_framecounter b) * ts_bpf b"

lemma ts_wfD:
  assumes "ts_wf b"
  shows "m_event_buffer b = Some (ts_rb b)" and "rb_wf (ts_rb b)" and "sz (ts_rb b) \<le> 2 ^ 30"
    and "0 < ts_bpf b" and "rb_fill (ts_rb b) = unat (m_framecounter b) * ts_bpf b"
    and "unat (m_framecounter b) * ts_bpf b + ts_space b < 2 ^ 30" and "rb_fill (ts_rb b) < 2 ^ 32"
proof -
  have "rb_fill (ts_rb b) = unat (m_framecounter b) * ts_bpf b" "sz (ts_rb b) \<le> 2 ^ 30" "rb_wf (ts_rb b)"
    using assms by (simp_all add: ts_wf_def)
  then show "unat (m_framecounter b) * ts_bpf b + ts_space b < 2 ^ 30"
    and "rb_fill (ts_rb b) < 2 ^ 32"
    using rb_fill_less [of "ts_rb b"] by (simp_all add: ts_space_def rb_capacity_def)
qed (use assms in \<open>auto simp: ts_wf_def ts_rb_def\<close>)

lemma unat_mult3:
  "unat ((x :: u32) * y * z) = unat x * unat y * unat z mod 2 ^ 32"
  by (simp add: unat_word_ariths mod_mult_left_eq)

lemma frame_bytes:
  assumes "unat n * ts_bpf b < 2 ^ 32"
  shows "unat (n * m_event_size b * m_events_per_frame b) = unat n * ts_bpf b"
    and "unat (n * m_events_per_frame b * m_event_size b) = unat n * ts_bpf b"
  using assms unfolding unat_mult3 ts_bpf_def by (simp_all add: ac_simps)

lemma length_ts_bytes: "ts_wf b \<Longrightarrow> length (ts_bytes b) = unat (m_framecounter b) * ts_bpf b"
  by (simp add: ts_wf_def ts_bytes_def)

text \<open>The frame counter does not wrap around while the ring buffer holds the frames.\<close>

lemma framecounter_add:
  assumes wf: "ts_wf b" and n: "unat n * ts_bpf b \<le> ts_space b"
  shows "unat (m_framecounter b + n) = unat (m_framecounter b) + unat n"
proof -
  have "unat (m_framecounter b) * ts_bpf b + unat n * ts_bpf b < 2 ^ 30"
    using ts_wfD(6) [OF wf] n by linarith
  then have "(unat (m_framecounter b) + unat n) * ts_bpf b < 2 ^ 30"
    by (simp only: add_mult_distrib)
  moreover have "unat (m_framecounter b) + unat n \<le> (unat (m_framecounter b) + unat n) * ts_bpf b"
    using ts_wfD(4) [OF wf] by simp
  ultimately have "unat (m_framecounter b) + unat n < 2 ^ 30"
    by (rule order.strict_trans1 [rotated])
  then show ?thesis by (intro unat_plus_no_overflow) simp
qed

text \<open>
  The loop's update needs a timestamp in range and the nominal number of frames, and leaves
  everything but the timestamps, the rate and the frame counter alone.
\<close>

lemma incrementFrameCounter_Some:
  assumes "0 \<le> ts" and "ts < m_wrap_at b" and "n = m_update_period b" and "n \<noteq> 0"
  shows "\<exists>tail next e2 r. incrementFrameCounter fp b n ts =
     Some (b\<lparr>m_framecounter := m_framecounter b + n, m_buffer_tail_timestamp := tail,
             m_buffer_next_tail_timestamp := next, m_dll_e2 := e2, m_current_rate := r\<rparr>)"
proof -
  have C: "calculateRate fp b' \<noteq> None" if "m_update_period b' = n" for b'
    using that assms(4) by (simp add: calculateRate_def Let_def)
  have R: "(case c of None \<Rightarrow> None | Some r \<Rightarrow> Some (X r)) = Some (X (the c))" if "c \<noteq> None" for c :: "rat option" and X
    using that by auto
  show ?thesis
    unfolding incrementFrameCounter_def Let_def
    using assms(1-3) by (simp add: R C split del: if_split) (intro exI, rule refl)
qed

text \<open>The effect of adding and taking bytes on the invariant.\<close>

definition same_layout :: "tsbuffer \<Rightarrow> tsbuffer \<Rightarrow> bool" where
  "same_layout b b' \<longleftrightarrow> m_event_size b' = m_event_size b \<and> m_events_per_frame b' = m_events_per_frame b
     \<and> m_cluster_size b' = m_cluster_size b \<and> m_process_block_size b' = m_process_block_size b"

lemma same_layout_bpf: "same_layout b b' \<Longrightarrow> ts_bpf b' = ts_bpf b"
  by (simp add: same_layout_def ts_bpf_def)

lemma ts_wf_add:
  assumes wf: "ts_wf b" and n: "unat n * ts_bpf b \<le> ts_space b" and lay: "same_layout b b'"
    and rb: "m_event_buffer b' = Some rb" "rb_wf rb" "size_rb rb = size_rb (ts_rb b)"
      "rb_contents rb = ts_bytes b @ xs" "length xs = unat n * ts_bpf b"
    and fc: "m_framecounter b' = m_framecounter b + n"
  shows "ts_wf b'"
proof -
  have "rb_fill rb = (unat (m_framecounter b) + unat n) * ts_bpf b"
    using rb(4,5) length_ts_bytes [OF wf] length_rb_contents [of rb] by (simp add: add_mult_distrib)
  then have "rb_fill rb = unat (m_framecounter b') * ts_bpf b"
    using framecounter_add [OF wf n] fc by simp
  then show ?thesis
    using wf lay rb(1-3) same_layout_bpf [OF lay] by (simp add: ts_wf_def ts_rb_def same_layout_def)
qed

lemma ts_wf_take:
  assumes wf: "ts_wf b" and n: "n \<le> m_framecounter b" and lay: "same_layout b b'"
    and rb: "m_event_buffer b' = Some rb" "rb_wf rb" "size_rb rb = size_rb (ts_rb b)"
      "rb_contents rb = drop (unat n * ts_bpf b) (ts_bytes b)"
    and fc: "m_framecounter b' = m_framecounter b - n"
  shows "ts_wf b'"
proof -
  have "rb_fill rb = (unat (m_framecounter b) - unat n) * ts_bpf b"
    using rb(4) length_ts_bytes [OF wf] length_rb_contents [of rb] by (simp add: diff_mult_distrib)
  then have "rb_fill rb = unat (m_framecounter b') * ts_bpf b"
    using n fc by (simp add: unat_sub)
  then show ?thesis
    using wf lay rb(1-3) same_layout_bpf [OF lay] by (simp add: ts_wf_def ts_rb_def same_layout_def)
qed

section \<open>Frame operations\<close>

lemma frames_fit:
  assumes "ts_wf b" and "unat n * ts_bpf b \<le> ts_space b"
  shows "unat n * ts_bpf b < 2 ^ 32" and "unat (n * m_event_size b * m_events_per_frame b) = unat n * ts_bpf b"
proof -
  show "unat n * ts_bpf b < 2 ^ 32" using ts_wfD(6) [OF assms(1)] assms(2) by simp
  then show "unat (n * m_event_size b * m_events_per_frame b) = unat n * ts_bpf b" by (rule frame_bytes)
qed

text \<open>The write all frame writers share: it stores every byte when there is room.\<close>

lemma ring_write_frames:
  assumes wf: "ts_wf b" and fit: "unat n * ts_bpf b \<le> ts_space b" and len: "unat n * ts_bpf b \<le> length data"
    and w: "w = n * m_event_size b * m_events_per_frame b"
  shows "\<exists>rb. ffado_ringbuffer_write (ts_rb b) data (ucast w) = (ucast w, rb) \<and> rb_wf rb
     \<and> size_rb rb = size_rb (ts_rb b) \<and> rb_contents rb = ts_bytes b @ take (unat n * ts_bpf b) data"
proof -
  have u: "unat (ucast w :: u64) = unat n * ts_bpf b" using frames_fit(2) [OF wf fit] w by simp
  then have "ucast w \<le> ffado_ringbuffer_write_space (ts_rb b)"
    using fit ts_wfD(2) [OF wf] by (simp add: word_le_nat_alt unat_write_space ts_space_def)
  then have "ffado_ringbuffer_write (ts_rb b) data (ucast w)
      = (ucast w, rb_put (ts_rb b) (take (unat n * ts_bpf b) data) (ucast w))"
    using u len by (simp add: ffado_ringbuffer_write_eq [OF ts_wfD(2) [OF wf]] min_def)
  moreover have "length (take (unat n * ts_bpf b) data) = unat (ucast w :: u64)" "unat (ucast w :: u64) \<le> rb_capacity (ts_rb b) - rb_fill (ts_rb b)"
    using u len fit by (simp_all add: ts_space_def)
  note rb_put_contents [OF ts_wfD(2) [OF wf] this]
  ultimately show ?thesis by (simp add: ts_bytes_def rb_put_def)
qed

lemma writeFrames_stores:
  assumes wf: "ts_wf b" and "\<not> m_transparent b"
    and fit: "unat n * ts_bpf b \<le> ts_space b" and len: "unat n * ts_bpf b \<le> length data"
    and ts: "0 \<le> ts" "ts < m_wrap_at b" "n = m_update_period b" "n \<noteq> 0"
  shows "\<exists>b'. writeFrames fp b n data ts = Some (True, b') \<and> ts_wf b' \<and> same_layout b b'
     \<and> m_transparent b' = m_transparent b \<and> m_wrap_at b' = m_wrap_at b \<and> m_update_period b' = m_update_period b
     \<and> ts_bytes b' = ts_bytes b @ take (unat n * ts_bpf b) data
     \<and> unat (m_framecounter b') = unat (m_framecounter b) + unat n"
proof -
  obtain rb where rb: "ffado_ringbuffer_write (ts_rb b) data (ucast (n * m_event_size b * m_events_per_frame b))
      = (ucast (n * m_event_size b * m_events_per_frame b), rb)"
    "rb_wf rb" "size_rb rb = size_rb (ts_rb b)" "rb_contents rb = ts_bytes b @ take (unat n * ts_bpf b) data"
    using ring_write_frames [OF wf fit len refl] by blast
  let ?b = "b\<lparr>m_event_buffer := Some rb\<rparr>"
  obtain tail nxt e2 r where inc: "incrementFrameCounter fp ?b n ts =
     Some (?b\<lparr>m_framecounter := m_framecounter ?b + n, m_buffer_tail_timestamp := tail,
             m_buffer_next_tail_timestamp := nxt, m_dll_e2 := e2, m_current_rate := r\<rparr>)" (is "_ = Some ?b'")
    using incrementFrameCounter_Some [of ts ?b n fp] ts by auto
  have "writeFrames fp b n data ts = Some (True, ?b')"
    using assms(2) ts_wfD(1) [OF wf] rb(1) inc by (simp add: writeFrames_def Let_def)
  moreover have lay: "same_layout b ?b'" by (simp add: same_layout_def)
  moreover have "ts_wf ?b'"
    using rb len by (intro ts_wf_add [OF wf fit lay, of rb "take (unat n * ts_bpf b) data"]) simp_all
  ultimately show ?thesis
    using framecounter_add [OF wf fit] rb(4) by (simp add: ts_bytes_def ts_rb_def)
qed

lemma readFrames_delivers:
  assumes wf: "ts_wf b" and "\<not> m_transparent b" and n: "n \<le> m_framecounter b"
  shows "\<exists>b'. readFrames b n = Some (True, take (unat n * ts_bpf b) (ts_bytes b), b') \<and> ts_wf b'
     \<and> same_layout b b' \<and> ts_bytes b' = drop (unat n * ts_bpf b) (ts_bytes b)
     \<and> m_framecounter b' = m_framecounter b - n"
proof -
  let ?w = "n * m_event_size b * m_events_per_frame b"
  have le: "unat n * ts_bpf b \<le> rb_fill (ts_rb b)"
    using n ts_wfD(5) [OF wf] by (simp add: word_le_nat_alt)
  then have "unat n * ts_bpf b < 2 ^ 32" using ts_wfD(7) [OF wf] by (rule order.strict_trans1)
  then have u: "unat (ucast ?w :: u64) = unat n * ts_bpf b" by (simp add: frame_bytes)
  then have "ucast ?w \<le> ffado_ringbuffer_read_space (ts_rb b)"
    using le ts_wfD(2) [OF wf] by (simp add: word_le_nat_alt unat_read_space)
  then have rd: "ffado_ringbuffer_read (ts_rb b) (ucast ?w)
      = (take (unat n * ts_bpf b) (ts_bytes b), ffado_ringbuffer_read_advance (ts_rb b) (ucast ?w))"
    using u by (simp add: ffado_ringbuffer_read_eq [OF ts_wfD(2) [OF wf]] min_def ts_bytes_def)
  have "unat (ucast ?w :: u64) \<le> rb_fill (ts_rb b)" using u le by simp
  note adv = read_advance_contents [OF ts_wfD(2) [OF wf] this]
  let ?b' = "b\<lparr>m_event_buffer := Some (ffado_ringbuffer_read_advance (ts_rb b) (ucast ?w)), m_framecounter := m_framecounter b - n\<rparr>"
  have "length (take (unat n * ts_bpf b) (ts_bytes b)) = unat (ucast ?w :: u64)"
    using u le by (simp add: ts_bytes_def)
  then have "of_nat (length (take (unat n * ts_bpf b) (ts_bytes b))) = (ucast ?w :: u64)" by simp
  then have "readFrames b n = Some (True, take (unat n * ts_bpf b) (ts_bytes b), ?b')"
    using assms(2) ts_wfD(1) [OF wf] rd by (simp add: readFrames_def Let_def decrementFrameCounter_def)
  moreover have lay: "same_layout b ?b'" by (simp add: same_layout_def)
  moreover have "ts_wf ?b'"
    using adv u by (intro ts_wf_take [OF wf n lay, of "ffado_ringbuffer_read_advance (ts_rb b) (ucast ?w)"])
      (simp_all add: ts_bytes_def ffado_ringbuffer_read_advance_def)
  ultimately show ?thesis
    using adv(1) u by (simp add: ts_bytes_def ts_rb_def)
qed

section \<open>Allocation yields the invariant\<close>

definition configured :: "tsbuffer \<Rightarrow> bool" where
  "configured b \<longleftrightarrow> 0 < unat (m_buffer_size b) \<and> 0 < ts_bpf b \<and> m_nominal_rate b \<noteq> 0 \<and> m_update_period b \<noteq> 0
     \<and> unat (m_buffer_size b) * ts_bpf b \<le> 2 ^ 30 \<and> 8 * ts_bpf b < 2 ^ 30"

lemma prepare_allocates:
  assumes "configured b"
  shows "\<exists>b' k. prepare fp junk b = Some (True, b') \<and> ts_wf b' \<and> same_layout (b\<lparr>m_cluster_size := m_cluster_size b',
         m_process_block_size := m_process_block_size b'\<rparr>) b'
     \<and> m_framecounter b' = 0 \<and> ts_bytes b' = [] \<and> m_transparent b' = m_transparent b \<and> m_wrap_at b' = m_wrap_at b
     \<and> m_update_period b' = m_update_period b \<and> m_buffer_size b' = m_buffer_size b
     \<and> sz (ts_rb b') = 2 ^ k \<and> 1 \<le> k \<and> unat (m_buffer_size b) * ts_bpf b \<le> 2 ^ k
     \<and> (k = 1 \<or> 2 ^ (k - 1) < unat (m_buffer_size b) * ts_bpf b)"
proof -
  let ?w = "m_events_per_frame b * m_buffer_size b * m_event_size b"
  have c: "0 < unat (m_buffer_size b)" "0 < unat (m_event_size b)" "0 < unat (m_events_per_frame b)"
    "unat (m_buffer_size b) * ts_bpf b \<le> 2 ^ 30" "8 * ts_bpf b < 2 ^ 30"
    using assms by (auto simp: configured_def ts_bpf_def)
  have "unat ?w = unat (m_buffer_size b) * ts_bpf b"
    using c(4) unfolding unat_mult3 ts_bpf_def by (simp add: ac_simps)
  then have "unat (ucast ?w :: u64) = unat (m_buffer_size b) * ts_bpf b" by simp
  then obtain rb k where rb: "ffado_ringbuffer_create junk (ucast ?w) = Some rb" "rb_wf rb" "rb_contents rb = []"
    "sz rb = 2 ^ k" "1 \<le> k" "unat (m_buffer_size b) * ts_bpf b \<le> 2 ^ k"
    "k = 1 \<or> 2 ^ (k - 1) < unat (m_buffer_size b) * ts_bpf b"
    using ffado_ringbuffer_create_wf [of "ucast ?w" junk] c(4) by auto
  have "k \<le> 30"
  proof (rule ccontr)
    assume "\<not> k \<le> 30"
    then have "2 ^ 30 \<le> (2 :: nat) ^ (k - 1)" "k \<noteq> 1" by (auto intro!: power_increasing simp del: power_numeral)
    then show False using rb(7) c(4) by linarith
  qed
  then have k30: "sz rb \<le> 2 ^ 30" unfolding rb(4) by (rule power_increasing) simp
  have cl: "unat (m_events_per_frame b * m_event_size b) = ts_bpf b"
    using c(5) by (simp add: unat_word_ariths ts_bpf_def mult.commute)
  have bl: "unat (m_events_per_frame b * m_event_size b * FRAMES_PER_PROCESS_BLOCK) = 8 * ts_bpf b"
    using c(5) cl by (simp add: unat_word_ariths(2) FRAMES_PER_PROCESS_BLOCK_def)
  have nz: "m_buffer_size b \<noteq> 0" "m_events_per_frame b \<noteq> 0" "m_event_size b \<noteq> 0"
    using c(1-3) by (simp_all add: word_unat_eq_iff)
  have "rb_fill rb = 0" using rb(3) length_rb_contents [of rb] by simp
  moreover have "m_nominal_rate b \<noteq> 0" "m_update_period b \<noteq> 0" "0 < ts_bpf b"
    using assms by (simp_all add: configured_def)
  ultimately show ?thesis
    using nz rb k30 cl bl
    by (simp add: prepare_def resizeBuffer_def resetFrameCounter_def Let_def ts_wf_def ts_rb_def ts_bpf_def
        ts_bytes_def same_layout_def)
qed

text \<open>A configuration: 2 events of 4 bytes per frame, 100 frames, 8 frames per update.\<close>

definition stereo_config :: tsbuffer where
  "stereo_config = (TimestampedBuffer_new exact)
     \<lparr>m_event_size := 4, m_events_per_frame := 2, m_buffer_size := 100, m_nominal_rate := 512,
      m_update_period := 8, m_transparent := False, m_wrap_at := 3145728000\<rparr>"

lemma stereo_configured: "configured stereo_config"
  by (simp add: configured_def stereo_config_def ts_bpf_def)

lemma stereo_prepared:
  obtains b where "prepare exact (\<lambda>_. 0) stereo_config = Some (True, b)" and "ts_wf b" and "ts_bpf b = 8"
    and "m_framecounter b = 0" and "ts_bytes b = []" and "ts_space b = 1023" and "\<not> m_transparent b"
    and "m_wrap_at b = 3145728000" and "m_update_period b = 8"
proof -
  obtain b k where b: "prepare exact (\<lambda>_. 0) stereo_config = Some (True, b)" "ts_wf b"
    "same_layout (stereo_config\<lparr>m_cluster_size := m_cluster_size b, m_process_block_size := m_process_block_size b\<rparr>) b"
    "m_framecounter b = 0" "ts_bytes b = []" "m_transparent b = m_transparent stereo_config"
    "m_wrap_at b = m_wrap_at stereo_config" "m_update_period b = m_update_period stereo_config"
    "sz (ts_rb b) = 2 ^ k" "1 \<le> k" "unat (m_buffer_size stereo_config) * ts_bpf stereo_config \<le> 2 ^ k"
    "k = 1 \<or> 2 ^ (k - 1) < unat (m_buffer_size stereo_config) * ts_bpf stereo_config"
    using prepare_allocates [OF stereo_configured, of exact "\<lambda>_. 0"] by blast
  have bpf: "ts_bpf b = 8" using b(3) by (simp add: same_layout_def stereo_config_def ts_bpf_def)
  have k: "800 \<le> (2 :: nat) ^ k" "k = 1 \<or> (2 :: nat) ^ (k - 1) < 800"
    using b(11,12) by (simp_all add: stereo_config_def ts_bpf_def)
  have "k = 10"
  proof (rule ccontr)
    assume "k \<noteq> 10"
    then consider "k \<le> 9" | "11 \<le> k" by linarith
    then show False
    proof cases
      case 1
      then have "(2 :: nat) ^ k \<le> 2 ^ 9" by (intro power_increasing) simp_all
      then show False using k(1) by simp
    next
      case 2
      then have "(2 :: nat) ^ 10 \<le> 2 ^ (k - 1)" by (intro power_increasing) simp_all
      then show False using k(2) 2 by simp
    qed
  qed
  then have "ts_space b = 1023"
    using b(4,9) ts_wfD(5) [OF b(2)] by (simp add: ts_space_def rb_capacity_def)
  then show thesis using that b bpf by (simp add: stereo_config_def)
qed

text \<open>
  \<^verbatim>\<open>prepare\<close> of a configured buffer allocates a ring buffer for which the invariant holds, with
  no frame in it; it has room for all \<^verbatim>\<open>m_buffer_size\<close> frames except when their size in bytes is a
  power of two (from 2 on): then only for one frame less, although \<^verbatim>\<open>getBufferSpace\<close> reports \<^verbatim>\<open>m_buffer_size\<close>.
\<close>

theorem prepare_capacity:
  assumes "configured b"
  shows "\<exists>b'. prepare fp junk b = Some (True, b') \<and> ts_wf b' \<and> ts_bytes b' = []
     \<and> getBufferFill b' = 0 \<and> getBufferSpace b' = Some (m_buffer_size b)
     \<and> ts_space b' div ts_bpf b' \<ge> unat (m_buffer_size b) - 1
     \<and> ((\<exists>k\<ge>1. unat (m_buffer_size b) * ts_bpf b = 2 ^ k) \<longleftrightarrow> ts_space b' div ts_bpf b' < unat (m_buffer_size b))"
proof -
  obtain b' k where b: "prepare fp junk b = Some (True, b')" "ts_wf b'"
    "same_layout (b\<lparr>m_cluster_size := m_cluster_size b', m_process_block_size := m_process_block_size b'\<rparr>) b'"
    "m_framecounter b' = 0" "ts_bytes b' = []" "m_buffer_size b' = m_buffer_size b"
    "sz (ts_rb b') = 2 ^ k" "1 \<le> k" "unat (m_buffer_size b) * ts_bpf b \<le> 2 ^ k"
    "k = 1 \<or> 2 ^ (k - 1) < unat (m_buffer_size b) * ts_bpf b"
    using prepare_allocates [OF assms, of fp junk] by blast
  have bpf: "ts_bpf b' = ts_bpf b" using b(3) by (simp add: same_layout_def ts_bpf_def)
  have sp: "ts_space b' = 2 ^ k - 1"
    using b(4,7) ts_wfD(5) [OF b(2)] by (simp add: ts_space_def rb_capacity_def)
  have pos: "0 < ts_bpf b" "0 < unat (m_buffer_size b)" using assms by (simp_all add: configured_def)
  let ?N = "unat (m_buffer_size b)"
  have lt: "(2 ^ k - 1) div ts_bpf b < ?N \<longleftrightarrow> 2 ^ k - 1 < ?N * ts_bpf b"
    using pos(1) by (simp add: div_less_iff_less_mult)
  also have "\<dots> \<longleftrightarrow> ?N * ts_bpf b = 2 ^ k"
    using b(9) by (auto simp: less_eq_Suc_le)
  also have "\<dots> \<longleftrightarrow> (\<exists>j\<ge>1. ?N * ts_bpf b = 2 ^ j)"
  proof
    assume "\<exists>j\<ge>1. ?N * ts_bpf b = 2 ^ j"
    then obtain j where j: "1 \<le> j" "?N * ts_bpf b = 2 ^ j" by blast
    then have "j \<le> k" "k = 1 \<or> k - 1 < j" using b(9,10) by auto
    then have "j = k" using j(1) by auto
    then show "?N * ts_bpf b = 2 ^ k" using j(2) by simp
  qed (use b(8) in blast)
  finally have iff: "(2 ^ k - 1) div ts_bpf b < ?N \<longleftrightarrow> (\<exists>j\<ge>1. ?N * ts_bpf b = 2 ^ j)" .
  have "(?N - 1) * ts_bpf b \<le> ?N * ts_bpf b - 1" using pos by (simp add: diff_mult_distrib)
  also have "\<dots> \<le> 2 ^ k - 1" using b(9) by (rule diff_le_mono)
  finally have "?N - 1 \<le> (2 ^ k - 1) div ts_bpf b" using pos(1) by (simp add: less_eq_div_iff_mult_less_eq)
  then show ?thesis
    using b sp bpf iff by (simp add: getBufferFill_def getBufferSpace_def)
qed

theorem prepare_capacity_witness:
  "\<exists>b'. prepare exact (\<lambda>_. 0) (stereo_config\<lparr>m_buffer_size := 128\<rparr>) = Some (True, b')
     \<and> getBufferSpace b' = Some 128 \<and> ts_space b' div ts_bpf b' = 127"
proof -
  have c: "configured (stereo_config\<lparr>m_buffer_size := 128\<rparr>)"
    by (simp add: configured_def stereo_config_def ts_bpf_def)
  have "unat (m_buffer_size (stereo_config\<lparr>m_buffer_size := 128\<rparr>)) * ts_bpf (stereo_config\<lparr>m_buffer_size := 128\<rparr>) = 2 ^ 10"
    by (simp add: stereo_config_def ts_bpf_def)
  then have "\<exists>k\<ge>1. unat (m_buffer_size (stereo_config\<lparr>m_buffer_size := 128\<rparr>)) * ts_bpf (stereo_config\<lparr>m_buffer_size := 128\<rparr>) = 2 ^ k"
    by (intro exI [of _ 10]) simp
  with prepare_capacity [OF c, of exact "\<lambda>_. 0"] show ?thesis by force
qed

section \<open>Properties of the frame operations\<close>

text \<open>
  C29. Frames come out as they went in: when the buffer has room, \<^verbatim>\<open>writeFrames\<close> with the nominal
  number of frames and a timestamp in range succeeds and appends exactly the caller's bytes, and a
  following \<^verbatim>\<open>readFrames\<close> of all frames in the buffer delivers the earlier bytes followed by them and
  leaves the buffer empty. The invariant (the ring buffer holds as many frames as the frame counter
  says) holds after each call.
\<close>

theorem write_read_frames:
  assumes "ts_wf b" and "\<not> m_transparent b"
    and "unat n * ts_bpf b \<le> ts_space b" and "length data = unat n * ts_bpf b"
    and "0 \<le> ts" and "ts < m_wrap_at b" and "n = m_update_period b" and "n \<noteq> 0"
  shows "\<exists>b1 b2. writeFrames fp b n data ts = Some (True, b1) \<and> ts_wf b1
     \<and> ts_bytes b1 = ts_bytes b @ data
     \<and> unat (getBufferFill b1) = unat (getBufferFill b) + unat n
     \<and> readFrames b1 (getBufferFill b1) = Some (True, ts_bytes b @ data, b2)
     \<and> ts_wf b2 \<and> ts_bytes b2 = [] \<and> getBufferFill b2 = 0"
proof -
  obtain b1 where b1: "writeFrames fp b n data ts = Some (True, b1)" "ts_wf b1" "m_transparent b1 = m_transparent b"
    "ts_bytes b1 = ts_bytes b @ take (unat n * ts_bpf b) data"
    "unat (m_framecounter b1) = unat (m_framecounter b) + unat n"
    using writeFrames_stores [OF assms(1-3) _ assms(5-8), of data fp] assms(4) by auto
  obtain b2 where b2: "readFrames b1 (m_framecounter b1) =
      Some (True, take (unat (m_framecounter b1) * ts_bpf b1) (ts_bytes b1), b2)" "ts_wf b2"
    "ts_bytes b2 = drop (unat (m_framecounter b1) * ts_bpf b1) (ts_bytes b1)"
    "m_framecounter b2 = m_framecounter b1 - m_framecounter b1"
    using readFrames_delivers [OF b1(2), of "m_framecounter b1"] b1(3) assms(2) by auto
  show ?thesis
    using b1 b2 length_ts_bytes [OF b1(2)] assms(4) by (auto simp: getBufferFill_def)
qed

theorem write_read_frames_witness:
  "\<exists>b b1 b2. prepare exact (\<lambda>_. 0) stereo_config = Some (True, b)
     \<and> writeFrames exact b 8 (replicate 64 7) 5 = Some (True, b1)
     \<and> readFrames b1 8 = Some (True, replicate 64 7, b2)"
proof -
  obtain b where b: "prepare exact (\<lambda>_. 0) stereo_config = Some (True, b)" "ts_wf b" "ts_bpf b = 8"
    "m_framecounter b = 0" "ts_bytes b = []" "ts_space b = 1023" "\<not> m_transparent b"
    "m_wrap_at b = 3145728000" "m_update_period b = 8"
    by (rule stereo_prepared)
  have "unat (8 :: u32) * ts_bpf b \<le> ts_space b" "length (replicate 64 (7 :: u8)) = unat (8 :: u32) * ts_bpf b"
    "0 \<le> (5 :: rat)" "5 < m_wrap_at b" "8 = m_update_period b" "(8 :: u32) \<noteq> 0"
    using b by simp_all
  from write_read_frames [OF b(2,7) this, of exact] obtain b1 b2
    where "writeFrames exact b 8 (replicate 64 7) 5 = Some (True, b1)"
      "unat (getBufferFill b1) = unat (getBufferFill b) + unat (8 :: u32)"
      "readFrames b1 (getBufferFill b1) = Some (True, ts_bytes b @ replicate 64 7, b2)"
    by blast
  moreover from this(2) have "getBufferFill b1 = 8" using b(4) by (simp add: word_unat_eq_iff getBufferFill_def)
  ultimately show ?thesis using b(1,5) by simp
qed

text \<open>
  Overrun and underrun: \<^verbatim>\<open>writeFrames\<close> without enough room returns false, but the bytes that fit
  have been stored, and \<^verbatim>\<open>readFrames\<close> of more frames than the buffer holds returns false, but all its
  bytes have been consumed; in both cases the frame counter keeps its old value, so that unless
  nothing was moved the buffer is left without its invariant.
\<close>

theorem xrun_breaks_invariant:
  assumes wf: "ts_wf b" and "\<not> m_transparent b" and n: "unat n * ts_bpf b < 2 ^ 32"
  shows "(ts_space b < unat n * ts_bpf b \<and> unat n * ts_bpf b \<le> length data \<longrightarrow>
       (\<exists>b'. writeFrames fp b n data ts = Some (False, b') \<and> getBufferFill b' = getBufferFill b
          \<and> ts_bytes b' = ts_bytes b @ take (ts_space b) data \<and> (ts_wf b' \<longleftrightarrow> ts_space b = 0)))
     \<and> (length (ts_bytes b) < unat n * ts_bpf b \<longrightarrow>
       (\<exists>b'. readFrames b n = Some (False, ts_bytes b, b') \<and> getBufferFill b' = getBufferFill b
          \<and> ts_bytes b' = [] \<and> (ts_wf b' \<longleftrightarrow> getBufferFill b = 0)))"
proof (intro conjI impI; (elim conjE)?)
  let ?w = "n * m_event_size b * m_events_per_frame b"
  have u: "unat (ucast ?w :: u64) = unat n * ts_bpf b" using n by (simp add: frame_bytes)
  note W = ts_wfD [OF wf]
  {
    assume over: "ts_space b < unat n * ts_bpf b" and len: "unat n * ts_bpf b \<le> length data"
    let ?s = "ffado_ringbuffer_write_space (ts_rb b)"
    have s: "unat ?s = ts_space b" using W(2) by (simp add: unat_write_space ts_space_def)
    then have lt: "?s < ucast ?w" using over u by (simp add: word_less_nat_alt)
    then have wr: "ffado_ringbuffer_write (ts_rb b) data (ucast ?w) = (?s, rb_put (ts_rb b) (take (ts_space b) data) ?s)"
      using len u s by (simp add: ffado_ringbuffer_write_eq [OF W(2)] min.absorb4)
    have "length (take (ts_space b) data) = unat ?s" "unat ?s \<le> rb_capacity (ts_rb b) - rb_fill (ts_rb b)"
      using s over len by (simp_all add: ts_space_def)
    note put = rb_put_contents [OF W(2) this]
    let ?b = "b\<lparr>m_event_buffer := Some (rb_put (ts_rb b) (take (ts_space b) data) ?s)\<rparr>"
    have "writeFrames fp b n data ts = Some (False, ?b)"
      using assms(2) W(1) wr lt by (simp add: writeFrames_def Let_def)
    moreover have "ts_wf ?b \<longleftrightarrow> ts_space b = 0"
      using wf put(1,2) s by (simp add: ts_wf_def ts_rb_def ts_bpf_def rb_put_def)
    ultimately show "\<exists>b'. writeFrames fp b n data ts = Some (False, b') \<and> getBufferFill b' = getBufferFill b
          \<and> ts_bytes b' = ts_bytes b @ take (ts_space b) data \<and> (ts_wf b' \<longleftrightarrow> ts_space b = 0)"
      using put(3) by (simp add: getBufferFill_def ts_bytes_def ts_rb_def)
  next
    assume under: "length (ts_bytes b) < unat n * ts_bpf b"
    let ?s = "ffado_ringbuffer_read_space (ts_rb b)"
    have s: "unat ?s = length (ts_bytes b)" using W(2) by (simp add: unat_read_space ts_bytes_def)
    then have lt: "?s < ucast ?w" using under u by (simp add: word_less_nat_alt)
    then have rd: "ffado_ringbuffer_read (ts_rb b) (ucast ?w) = (ts_bytes b, ffado_ringbuffer_read_advance (ts_rb b) ?s)"
      using s by (simp add: ffado_ringbuffer_read_eq [OF W(2)] min.absorb4 ts_bytes_def)
    have "unat ?s \<le> rb_fill (ts_rb b)" using s by (simp add: ts_bytes_def)
    note adv = read_advance_contents [OF W(2) this]
    then have z: "rb_contents (ffado_ringbuffer_read_advance (ts_rb b) ?s) = []" using s by (simp add: ts_bytes_def)
    then have f: "rb_fill (ffado_ringbuffer_read_advance (ts_rb b) ?s) = 0"
      by (metis length_rb_contents list.size(3))
    let ?b = "b\<lparr>m_event_buffer := Some (ffado_ringbuffer_read_advance (ts_rb b) ?s)\<rparr>"
    have "of_nat (length (ts_bytes b)) = ?s" by (simp flip: s)
    then have "readFrames b n = Some (False, ts_bytes b, ?b)"
      using assms(2) W(1) rd lt by (simp add: readFrames_def Let_def)
    moreover have "ts_wf ?b \<longleftrightarrow> m_framecounter b = 0"
      using wf adv(2) f by (auto simp: ts_wf_def ts_rb_def ts_bpf_def ffado_ringbuffer_read_advance_def word_unat_eq_iff)
    ultimately show "\<exists>b'. readFrames b n = Some (False, ts_bytes b, b') \<and> getBufferFill b' = getBufferFill b
          \<and> ts_bytes b' = [] \<and> (ts_wf b' \<longleftrightarrow> getBufferFill b = 0)"
      using z by (simp add: getBufferFill_def ts_bytes_def ts_rb_def)
  }
qed

theorem xrun_breaks_invariant_witness:
  "\<exists>b b'. prepare exact (\<lambda>_. 0) stereo_config = Some (True, b)
     \<and> writeFrames exact b 200 (replicate 1600 7) 5 = Some (False, b')
     \<and> getBufferFill b' = 0 \<and> ts_bytes b' = replicate 1023 7 \<and> \<not> ts_wf b'"
proof -
  obtain b where b: "prepare exact (\<lambda>_. 0) stereo_config = Some (True, b)" "ts_wf b" "ts_bpf b = 8"
    "m_framecounter b = 0" "ts_bytes b = []" "ts_space b = 1023" "\<not> m_transparent b"
    by (rule stereo_prepared)
  have "unat (200 :: u32) * ts_bpf b < 2 ^ 32" using b by simp
  from xrun_breaks_invariant [OF b(2,7) this, of "replicate 1600 7" exact 5] b show ?thesis
    by (auto simp: getBufferFill_def)
qed

section \<open>Properties of block processing\<close>

lemma ts_block_sizes:
  assumes wf: "ts_wf b" and K: "unat n = 8 * K" and n: "unat n * ts_bpf b < 2 ^ 30"
  shows "block_sizes K K (ts_bpf b) n (m_cluster_size b) (m_process_block_size b)
           (n * m_events_per_frame b * m_event_size b)"
    and "unat n * ts_bpf b = K * (8 * ts_bpf b)"
proof -
  show eq: "unat n * ts_bpf b = K * (8 * ts_bpf b)" using K by simp
  have "unat (n * m_events_per_frame b * m_event_size b) = K * (8 * ts_bpf b)"
    using frame_bytes(2) [of n b] n eq by simp
  then show "block_sizes K K (ts_bpf b) n (m_cluster_size b) (m_process_block_size b)
           (n * m_events_per_frame b * m_event_size b)"
    using wf K n eq by (simp add: block_sizes_def ts_wf_def)
qed

text \<open>
  C27. \<^verbatim>\<open>blockProcessWriteFrames\<close> terminates and, given a whole number of blocks of 8 frames and room for
  them, stores exactly the client's frames, in order, however the free space is split at the end of
  the ring buffer's memory and whatever the client's callback returns: its \<^verbatim>\<open>bool\<close> result is
  ignored, since it is compared with 0 as a signed error code.
\<close>

theorem blockProcessWriteFrames_stores:
  assumes wf: "ts_wf b" and client: "serves (ts_bpf b) f processWriteBlock"
    and K: "unat n = 8 * K" and fit: "unat n * ts_bpf b \<le> ts_space b"
    and ts: "0 \<le> ts" "ts < m_wrap_at b" "n = m_update_period b" "n \<noteq> 0"
  shows "\<exists>b' c'. blockProcessWriteFrames fp processWriteBlock b c n ts = Some (True, b', c') \<and> ts_wf b'
     \<and> ts_bytes b' = ts_bytes b @ concat (map f [0..<unat n])
     \<and> unat (getBufferFill b') = unat (getBufferFill b) + unat n"
proof -
  note W = ts_wfD [OF wf]
  have small: "unat n * ts_bpf b < 2 ^ 30" using fit W(6) by linarith
  note S = ts_block_sizes [OF wf K small]
  have "rb_fill (ts_rb b) + K * (8 * ts_bpf b) \<le> rb_capacity (ts_rb b)"
    using fit S(2) rb_fill_le_capacity [OF W(2)] unfolding ts_space_def by linarith
  then obtain rb c' where rb: "write_blocks processWriteBlock n (m_cluster_size b) (m_process_block_size b)
      (n * m_events_per_frame b * m_event_size b) (ts_rb b) c = Some (True, rb, c')" "rb_wf rb"
    "size_rb rb = size_rb (ts_rb b)" "rb_contents rb = ts_bytes b @ concat (map f [0..<unat n])"
    using write_blocks_all [OF client W(2) S(1), of c] K by (auto simp: ts_bytes_def)
  let ?b = "b\<lparr>m_event_buffer := Some rb\<rparr>"
  obtain tail nxt e2 r where inc: "incrementFrameCounter fp ?b n ts =
     Some (?b\<lparr>m_framecounter := m_framecounter ?b + n, m_buffer_tail_timestamp := tail,
             m_buffer_next_tail_timestamp := nxt, m_dll_e2 := e2, m_current_rate := r\<rparr>)" (is "_ = Some ?b'")
    using incrementFrameCounter_Some [of ts ?b n fp] ts by auto
  have "blockProcessWriteFrames fp processWriteBlock b c n ts = Some (True, ?b', c')"
    using W(1) rb(1) inc by (simp add: blockProcessWriteFrames_def Let_def)
  moreover have lay: "same_layout b ?b'" by (simp add: same_layout_def)
  moreover have "length (concat (map f [0..<unat n])) = unat n * ts_bpf b"
    using client length_frames [of f "ts_bpf b" 0 "unat n"] by (simp add: serves_def)
  then have "ts_wf ?b'"
    using rb by (intro ts_wf_add [OF wf fit lay, of rb]) simp_all
  ultimately show ?thesis
    using framecounter_add [OF wf fit] rb(4) by (simp add: ts_bytes_def ts_rb_def getBufferFill_def)
qed

theorem blockProcessWriteFrames_stores_witness:
  "\<exists>b b'. prepare exact (\<lambda>_. 0) stereo_config = Some (True, b)
     \<and> blockProcessWriteFrames exact (\<lambda>c n off. (False, replicate (unat n * 8) 9, c)) b () 8 5 = Some (True, b', ())
     \<and> ts_bytes b' = replicate 64 9"
proof -
  obtain b where b: "prepare exact (\<lambda>_. 0) stereo_config = Some (True, b)" "ts_wf b" "ts_bpf b = 8"
    "m_framecounter b = 0" "ts_bytes b = []" "ts_space b = 1023" "\<not> m_transparent b"
    "m_wrap_at b = 3145728000" "m_update_period b = 8"
    by (rule stereo_prepared)
  have rep: "concat (map (\<lambda>_. replicate 8 (9 :: u8)) [a..<a + n]) = replicate (n * 8) 9" for a n
    by (induction n) (simp_all add: add.commute flip: replicate_add)
  have s: "serves (ts_bpf b) (\<lambda>_. replicate 8 9) (\<lambda>c n off. (False, replicate (unat n * 8) 9, c :: unit))"
    using b(3) by (simp add: serves_def rep)
  have "unat (8 :: u32) = 8 * 1" "unat (8 :: u32) * ts_bpf b \<le> ts_space b"
    "0 \<le> (5 :: rat)" "5 < m_wrap_at b" "8 = m_update_period b" "(8 :: u32) \<noteq> 0"
    using b by simp_all
  from blockProcessWriteFrames_stores [OF b(2) s this, of exact "()"] obtain b' where
    "blockProcessWriteFrames exact (\<lambda>c n off. (False, replicate (unat n * 8) 9, c)) b () 8 5 = Some (True, b', ())"
    "ts_bytes b' = ts_bytes b @ concat (map (\<lambda>_. replicate 8 9) [0..<unat (8 :: u32)])"
    by auto
  then show ?thesis using b(1,5) rep [of 0 8] by auto
qed

text \<open>
  C28. \<^verbatim>\<open>blockProcessReadFrames\<close> terminates and, given a whole number of blocks of 8 frames that are in
  the buffer, hands the client exactly the oldest frames, in order and at the right offsets, and
  removes them.
\<close>

theorem blockProcessReadFrames_delivers:
  assumes wf: "ts_wf b" and client: "receives (ts_bpf b) (length (got c)) got processReadBlock"
    and K: "unat n = 8 * K" and le: "n \<le> getBufferFill b"
  shows "\<exists>b' c'. blockProcessReadFrames processReadBlock b c n = Some (True, b', c') \<and> ts_wf b'
     \<and> got c' = got c @ take (unat n * ts_bpf b) (ts_bytes b)
     \<and> ts_bytes b' = drop (unat n * ts_bpf b) (ts_bytes b)
     \<and> getBufferFill b' = getBufferFill b - n"
proof -
  note W = ts_wfD [OF wf]
  have le': "n \<le> m_framecounter b" using le by (simp add: getBufferFill_def)
  then have fill: "unat n * ts_bpf b \<le> rb_fill (ts_rb b)"
    using W(5) by (simp add: word_le_nat_alt)
  then have small: "unat n * ts_bpf b < 2 ^ 30" using W(5,6) by linarith
  note S = ts_block_sizes [OF wf K small]
  obtain rb c' where rb: "read_blocks processReadBlock n (m_cluster_size b) (m_process_block_size b)
      (n * m_events_per_frame b * m_event_size b) (ts_rb b) c = Some (True, rb, c')" "rb_wf rb"
    "size_rb rb = size_rb (ts_rb b)" "rb_contents rb = drop (unat n * ts_bpf b) (ts_bytes b)"
    "got c' = got c @ take (unat n * ts_bpf b) (ts_bytes b)"
    using read_blocks_all [OF client W(2) S(1), of c] fill unfolding S(2) by (auto simp: ts_bytes_def)
  let ?b' = "b\<lparr>m_event_buffer := Some rb, m_framecounter := m_framecounter b - n\<rparr>"
  have "blockProcessReadFrames processReadBlock b c n = Some (True, ?b', c')"
    using W(1) rb(1) by (simp add: blockProcessReadFrames_def Let_def decrementFrameCounter_def)
  moreover have lay: "same_layout b ?b'" by (simp add: same_layout_def)
  moreover have "ts_wf ?b'" using rb by (intro ts_wf_take [OF wf le' lay, of rb]) simp_all
  ultimately show ?thesis
    using rb(4,5) by (simp add: ts_bytes_def ts_rb_def getBufferFill_def)
qed

theorem blockProcessReadFrames_delivers_witness:
  "\<exists>b b1 b2. prepare exact (\<lambda>_. 0) stereo_config = Some (True, b)
     \<and> writeFrames exact b 8 (replicate 64 7) 5 = Some (True, b1)
     \<and> blockProcessReadFrames (\<lambda>c data n off. (True, c @ data)) b1 [] 8 = Some (True, b2, replicate 64 7)"
proof -
  obtain b where b: "prepare exact (\<lambda>_. 0) stereo_config = Some (True, b)" "ts_wf b" "ts_bpf b = 8"
    "m_framecounter b = 0" "ts_bytes b = []" "ts_space b = 1023" "\<not> m_transparent b"
    "m_wrap_at b = 3145728000" "m_update_period b = 8"
    by (rule stereo_prepared)
  have "unat (8 :: u32) * ts_bpf b \<le> ts_space b" "unat (8 :: u32) * ts_bpf b \<le> length (replicate 64 (7 :: u8))"
    "0 \<le> (5 :: rat)" "5 < m_wrap_at b" "8 = m_update_period b" "(8 :: u32) \<noteq> 0"
    using b by simp_all
  from writeFrames_stores [OF b(2,7) this, of exact] obtain b1 where b1:
    "writeFrames exact b 8 (replicate 64 7) 5 = Some (True, b1)" "ts_wf b1" "same_layout b b1"
    "ts_bytes b1 = replicate 64 7" "unat (m_framecounter b1) = 8"
    using b by auto
  have "receives (ts_bpf b1) (length ([] :: u8 list)) (\<lambda>c. c) (\<lambda>c data n off. (True, c @ data))"
    by (simp add: receives_def)
  from blockProcessReadFrames_delivers [OF b1(2) this, of 8 1]
  show ?thesis using b(1,3) b1 same_layout_bpf [OF b1(3)]
    by (auto simp: getBufferFill_def word_le_nat_alt)
qed

section \<open>Properties of the timestamps\<close>

lemma exact_simps [simp]: "rdbl exact x = x" "rflt exact x = x"
  by (simp_all add: exact_def)

lemma of_i32_counter: "unat n < 2 ^ 31 \<Longrightarrow> of_i32 n = of_nat (unat n)"
proof -
  assume "unat n < 2 ^ 31"
  then have "int (unat n) < 2 ^ 31" by (simp only: of_nat_less_numeral_power_cancel_iff)
  then have "sint n = int (unat n)" by (subst sint_of_uint) simp_all
  then show "of_i32 n = of_nat (unat n)" unfolding of_i32_def by (simp only: of_int_of_nat_eq)
qed

lemma wrap_timestamp_id: "0 \<le> ts \<Longrightarrow> ts < m_wrap_at b \<Longrightarrow> wrap_timestamp exact b ts = ts"
  by (simp add: wrap_timestamp_def)

lemma wrap_timestamp_cong: "m_wrap_at b' = m_wrap_at b \<Longrightarrow> wrap_timestamp fp b' ts = wrap_timestamp fp b ts"
  by (simp add: wrap_timestamp_def)

lemma wrap_timestamp_range:
  assumes "- m_wrap_at b \<le> ts" and "ts < 2 * m_wrap_at b" and "0 < m_wrap_at b"
  shows "0 \<le> wrap_timestamp exact b ts" and "wrap_timestamp exact b ts < m_wrap_at b"
  using assms by (simp_all add: wrap_timestamp_def)

text \<open>Moving a timestamp forward and back by less than the wrap value gives it back.\<close>

lemma wrap_forward_back:
  assumes "0 \<le> ts" and "ts < m_wrap_at b" and "0 \<le> d" and "d < m_wrap_at b"
  shows "wrap_timestamp exact b (wrap_timestamp exact b (ts + d) - d) = ts"
  using assms by (simp add: wrap_timestamp_def)

text \<open>
  Setting the timestamp of the buffer's head and reading it back gives the timestamp, for any
  timestamp in range, when the frames in the buffer last less than the wrap value (in exact
  arithmetic, with a non-negative rate).
\<close>

theorem head_timestamp_roundtrip:
  assumes "0 \<le> ts" and "ts < m_wrap_at b" and "unat (m_framecounter b) < 2 ^ 31"
    and "0 \<le> m_current_rate b" and "m_current_rate b * of_nat (unat (m_framecounter b)) < m_wrap_at b"
  shows "getBufferHeadTimestamp exact (setBufferHeadTimestamp exact b ts) = (ts, m_framecounter b)"
proof -
  let ?d = "m_current_rate b * of_nat (unat (m_framecounter b))"
  let ?b = "setBufferHeadTimestamp exact b ts"
  have w: "m_wrap_at ?b = m_wrap_at b" and fc: "m_framecounter ?b = m_framecounter b"
    and r: "m_current_rate ?b = m_current_rate b"
    by (simp_all add: setBufferHeadTimestamp_def Let_def)
  have t: "m_buffer_tail_timestamp ?b = wrap_timestamp exact b (ts + ?d)"
    unfolding setBufferHeadTimestamp_def Let_def of_i32_counter [OF assms(3)] by simp
  have "0 \<le> ?d" by (intro mult_nonneg_nonneg assms(4) of_nat_0_le_iff)
  then have "wrap_timestamp exact b (wrap_timestamp exact b (ts + ?d) - ?d) = ts"
    using assms(1,2,5) by (intro wrap_forward_back)
  then show ?thesis
    unfolding getBufferHeadTimestamp_def getTimestampFromTail_def fc r t of_i32_counter [OF assms(3)]
      wrap_timestamp_cong [OF w] by (simp add: mult.commute)
qed

theorem head_timestamp_roundtrip_witness:
  "getBufferHeadTimestamp exact (setBufferHeadTimestamp exact (stereo_config\<lparr>m_framecounter := 10, m_current_rate := 512\<rparr>) 3145727000)
   = (3145727000, 10)"
  using head_timestamp_roundtrip [of 3145727000 "stereo_config\<lparr>m_framecounter := 10, m_current_rate := 512\<rparr>"]
  by (simp add: stereo_config_def)

text \<open>
  The error term of the delay-locked loop, in exact arithmetic, for a timestamp and a prediction
  in range: it is at most half the wrap value in size, and it is the signed distance from the
  prediction modulo the wrap value exactly when the timestamp is ahead of the prediction by no more
  than half the wrap value. When the prediction has wrapped around and the timestamp has not
  (it is a little early), the loop gets the distance with the wrong sign.
\<close>

theorem dll_error_wrap:
  assumes "0 \<le> ts" and "ts < m_wrap_at b"
    and "0 \<le> m_buffer_next_tail_timestamp b" and "m_buffer_next_tail_timestamp b < m_wrap_at b"
  defines "d \<equiv> ts - m_buffer_next_tail_timestamp b"
  shows "\<bar>dll_error exact b ts\<bar> \<le> m_wrap_at b / 2
     \<and> ((\<exists>j :: int. dll_error exact b ts = d + of_int j * m_wrap_at b) \<longleftrightarrow> d \<le> m_wrap_at b / 2)
     \<and> (m_wrap_at b / 2 < d \<longrightarrow> dll_error exact b ts = - (d - m_wrap_at b))"
proof -
  let ?W = "m_wrap_at b"
  have W: "0 < ?W" "- ?W < d" "d < ?W" using assms by simp_all
  have e: "dll_error exact b ts = (if d > ?W / 2 then ?W - d else if d < - ?W / 2 then ?W + d else d)"
    by (simp add: dll_error_def d_def)
  have "\<not> (\<exists>j :: int. dll_error exact b ts = d + of_int j * ?W)" if "?W / 2 < d"
  proof
    assume "\<exists>j :: int. dll_error exact b ts = d + of_int j * ?W"
    then obtain j :: int where "dll_error exact b ts = d + of_int j * ?W" by blast
    then have "?W - d = d + of_int j * ?W" unfolding e by (simp only: that if_True)
    then have j: "2 * d = of_int (1 - j) * ?W" by (simp add: algebra_simps)
    then have "1 * ?W < of_int (1 - j) * ?W" "of_int (1 - j) * ?W < 2 * ?W"
      using that W(3) by linarith+
    then have "1 < (of_int (1 - j) :: rat)" "(of_int (1 - j) :: rat) < 2"
      using W(1) by (simp_all only: mult_less_cancel_right_pos)
    then have "1 < 1 - j" "1 - j < 2" by (simp_all only: of_int_1_less_iff of_int_less_numeral_iff)
    then show False by linarith
  qed
  moreover have "\<exists>j :: int. dll_error exact b ts = d + of_int j * ?W" if "d \<le> ?W / 2"
    using that e by (cases "d < - ?W / 2") (auto intro: exI [of _ 1] exI [of _ 0])
  ultimately have "(\<exists>j :: int. dll_error exact b ts = d + of_int j * ?W) \<longleftrightarrow> d \<le> ?W / 2"
    by (metis not_le)
  then show ?thesis using e W by auto
qed

theorem dll_error_wrap_witness:
  "dll_error exact (stereo_config\<lparr>m_buffer_next_tail_timestamp := 1\<rparr>) 3145727999 = 2"
  using dll_error_wrap [of 3145727999 "stereo_config\<lparr>m_buffer_next_tail_timestamp := 1\<rparr>"]
  by (simp add: stereo_config_def)

text \<open>
  The loop fed with a list of timestamps, one update of \<open>n\<close> frames each, and the timestamps of a
  stream whose period is \<open>e2\<close>.
\<close>

fun dll_feed :: "fparith \<Rightarrow> tsbuffer \<Rightarrow> u32 \<Rightarrow> rat list \<Rightarrow> tsbuffer option" where
  "dll_feed fp b n [] = Some b"
| "dll_feed fp b n (t # ts) =
     (case incrementFrameCounter fp b n t of None \<Rightarrow> None | Some b' \<Rightarrow> dll_feed fp b' n ts)"

definition next_period :: "rat \<Rightarrow> rat \<Rightarrow> rat \<Rightarrow> rat" where
  "next_period w e2 t = (if t + e2 \<ge> w then t + e2 - w else t + e2)"

fun regular :: "rat \<Rightarrow> rat \<Rightarrow> rat \<Rightarrow> nat \<Rightarrow> rat list" where
  "regular w e2 t 0 = []"
| "regular w e2 t (Suc k) = t # regular w e2 (next_period w e2 t) k"

text \<open>The conditions under which the loop is locked to a prediction \<open>p\<close> with period \<open>e2\<close>.\<close>

definition dll_locked :: "tsbuffer \<Rightarrow> u32 \<Rightarrow> rat \<Rightarrow> rat \<Rightarrow> bool" where
  "dll_locked b n e2 p \<longleftrightarrow> 0 \<le> p \<and> p < m_wrap_at b \<and> 0 \<le> e2 \<and> 2 * e2 < m_wrap_at b
     \<and> m_update_period b = n \<and> n \<noteq> 0 \<and> m_buffer_next_tail_timestamp b = p \<and> m_dll_e2 b = e2
     \<and> \<bar>m_nominal_rate b - e2 / of_u32 n\<bar> \<le> m_nominal_rate b / 10"

lemma dll_locked_step:
  assumes "dll_locked b n e2 p"
  shows "\<exists>b'. incrementFrameCounter exact b n p = Some b' \<and> dll_locked b' n e2 (next_period (m_wrap_at b) e2 p)
     \<and> m_wrap_at b' = m_wrap_at b \<and> m_framecounter b' = m_framecounter b + n
     \<and> m_buffer_tail_timestamp b' = p \<and> m_current_rate b' = e2 / of_u32 n"
proof -
  let ?W = "m_wrap_at b" and ?p = "next_period (m_wrap_at b) e2 p"
  have L: "0 \<le> p" "p < ?W" "0 \<le> e2" "2 * e2 < ?W" "m_update_period b = n" "n \<noteq> 0"
    "m_buffer_next_tail_timestamp b = p" "m_dll_e2 b = e2"
    "\<bar>m_nominal_rate b - e2 / of_u32 n\<bar> \<le> m_nominal_rate b / 10"
    using assms by (simp_all add: dll_locked_def)
  have err: "dll_error exact b p = 0" using L(1,2,7) by (simp add: dll_error_def)
  define b1 where "b1 = b\<lparr>m_framecounter := m_framecounter b + n, m_buffer_tail_timestamp := p,
    m_buffer_next_tail_timestamp := ?p, m_dll_e2 := e2\<rparr>"
  have "calculateRate exact b1 = Some (e2 / of_u32 n)"
    using L(1-6,9) by (simp add: calculateRate_def b1_def next_period_def)
  then have "incrementFrameCounter exact b n p = Some (b1\<lparr>m_current_rate := e2 / of_u32 n\<rparr>)"
    using L(1,2,5-8) err
    by (cases "?W \<le> p + e2") (simp_all add: incrementFrameCounter_def Let_def next_period_def b1_def)
  moreover have "0 \<le> ?p" "?p < ?W" using L(1-4) by (simp_all add: next_period_def)
  ultimately show ?thesis using L by (simp add: dll_locked_def b1_def)
qed



end
