(* ===== verification/StreamPort.thy ===== *)
theory StreamPort
  imports Prelude "HOL-Library.Monad_Syntax" Complex_Main
begin

text \<open>
  Ports and port managers, \<^verbatim>\<open>libstreaming/generic/Port.cpp\<close> and \<^verbatim>\<open>PortManager.cpp\<close>, with the
  AMDTP information of \<^verbatim>\<open>libstreaming/amdtp/AmdtpPortInfo.h\<close>. A port object is a record with the
  members of the class; \<open>p_addr\<close> is its address, which pointers compare. The external buffer
  of a port is the array it points to, read as quadlets or as floats; finite floats are
  rationals. Different ports are taken to have different buffers. Calls of update handlers
  are recorded in a log.
\<close>

section \<open>Ports\<close>

datatype E_PortType = E_Audio | E_Midi | E_Control
datatype E_Direction = E_Playback | E_Capture
datatype EStates = E_Created | E_Initialized | E_Running | E_Error

datatype port_buffer = Quadlets "u32 list" | Floats "rat list"

datatype E_Formats = Format_MBLA | Format_Midi | Format_SPDIF

record amdtp_port_info =
  m_position :: u32
  m_location :: u32
  m_format :: E_Formats

text \<open>
  \<open>p_info\<close> is the \<^verbatim>\<open>AmdtpPortInfo\<close> part of an \<^verbatim>\<open>AmdtpAudioPort\<close> or \<^verbatim>\<open>AmdtpMidiPort\<close> and \<open>None\<close>
  for other ports: the result of the \<^verbatim>\<open>dynamic_cast\<close> to \<^verbatim>\<open>AmdtpPortInfo\<close>.
\<close>

record port =
  p_addr :: nat
  m_Name :: string
  m_disabled :: bool
  m_buffersize :: u32
  m_PortType :: E_PortType
  m_Direction :: E_Direction
  m_buffer :: "port_buffer option"
  m_State :: EStates
  p_info :: "amdtp_port_info option"

text \<open>The members a constructor sets before it registers the port.\<close>

definition Port_new :: "nat \<Rightarrow> string \<Rightarrow> E_PortType \<Rightarrow> E_Direction \<Rightarrow> port" where
  "Port_new a name porttype direction =
     \<lparr>p_addr = a, m_Name = name, m_disabled = True, m_buffersize = 0, m_PortType = porttype,
      m_Direction = direction, m_buffer = None, m_State = E_Created, p_info = None\<rparr>"

definition AmdtpAudioPort_new :: "nat \<Rightarrow> string \<Rightarrow> E_Direction \<Rightarrow> u32 \<Rightarrow> u32 \<Rightarrow> E_Formats \<Rightarrow> port" where
  "AmdtpAudioPort_new a name direction position location format =
     (Port_new a name E_Audio direction)
       \<lparr>p_info := Some \<lparr>m_position = position, m_location = location, m_format = format\<rparr>\<rparr>"

definition AmdtpMidiPort_new :: "nat \<Rightarrow> string \<Rightarrow> E_Direction \<Rightarrow> u32 \<Rightarrow> u32 \<Rightarrow> E_Formats \<Rightarrow> port" where
  "AmdtpMidiPort_new a name direction position location format =
     (Port_new a name E_Midi direction)
       \<lparr>p_info := Some \<lparr>m_position = position, m_location = location, m_format = format\<rparr>\<rparr>"

definition Port_init :: "port \<Rightarrow> bool \<times> port" where
  "Port_init p =
     (if m_State p \<noteq> E_Created then (False, p)
      else if m_buffersize p = 0 then (False, p)
      else (True, p\<lparr>m_State := E_Initialized\<rparr>))"

definition Port_reset :: "port \<Rightarrow> bool \<times> port" where
  "Port_reset p = (True, p)"

definition Port_prepare :: "port \<Rightarrow> bool \<times> port" where
  "Port_prepare p = (True, p)"

definition Port_setName :: "port \<Rightarrow> string \<Rightarrow> bool \<times> port" where
  "Port_setName p name =
     (if m_State p \<noteq> E_Created then (False, p) else (True, p\<lparr>m_Name := name\<rparr>))"

definition Port_setBufferSize :: "port \<Rightarrow> u32 \<Rightarrow> bool \<times> port" where
  "Port_setBufferSize p newsize =
     (if m_State p \<noteq> E_Created \<and> \<not> m_disabled p then (False, p)
      else (True, p\<lparr>m_buffersize := newsize\<rparr>))"

definition Port_getEventSize :: "port \<Rightarrow> u32" where
  "Port_getEventSize p = 4"

definition Port_setBufferAddress :: "port \<Rightarrow> port_buffer option \<Rightarrow> port" where
  "Port_setBufferAddress p buff = p\<lparr>m_buffer := buff\<rparr>"

definition Port_enable :: "port \<Rightarrow> port" where
  "Port_enable p = p\<lparr>m_disabled := False\<rparr>"

definition Port_disable :: "port \<Rightarrow> port" where
  "Port_disable p = p\<lparr>m_disabled := True\<rparr>"

definition getPortTypeName :: "port \<Rightarrow> string" where
  "getPortTypeName p =
     (case m_PortType p of E_Audio \<Rightarrow> ''Audio'' | E_Midi \<Rightarrow> ''MIDI'' | E_Control \<Rightarrow> ''Control'')"

section \<open>Port managers\<close>

record port_manager =
  m_Ports :: "port list"
  m_UpdateHandlers :: "nat list"
  pm_called :: "nat list"

definition PortManager_new :: port_manager where
  "PortManager_new = \<lparr>m_Ports = [], m_UpdateHandlers = [], pm_called = []\<rparr>"

text \<open>An \<^verbatim>\<open>int\<close> written to a stream: the decimal digits of a number.\<close>

fun dec_digits :: "nat \<Rightarrow> string" where
  "dec_digits n = (if n < 10 then [char_of (48 + n)] else dec_digits (n div 10) @ [char_of (48 + n mod 10)])"

declare dec_digits.simps [simp del]

function makeNameUnique_loop :: "port list \<Rightarrow> string \<Rightarrow> nat \<Rightarrow> port \<Rightarrow> nat \<times> port" where
  "makeNameUnique_loop ports portname_orig idx p =
     (if idx < 10000 then
        if list_all (\<lambda>q. m_Name q \<noteq> m_Name p) ports then (idx, p)
        else makeNameUnique_loop ports portname_orig (idx + 1)
               (snd (Port_setName p (portname_orig @ dec_digits idx)))
      else (idx, p))"
  by pat_completeness auto
termination
  by (relation "measure (\<lambda>(_, _, idx, _). 10000 - idx)") auto

declare makeNameUnique_loop.simps [simp del]

definition makeNameUnique :: "'m port_manager_scheme \<Rightarrow> port \<Rightarrow> bool \<times> port" where
  "makeNameUnique m p =
     (let (idx, p') = makeNameUnique_loop (m_Ports m) (m_Name p) 0 p in (idx < 10000, p'))"

definition callUpdateHandlers :: "'m port_manager_scheme \<Rightarrow> 'm port_manager_scheme" where
  "callUpdateHandlers m = m\<lparr>pm_called := pm_called m @ m_UpdateHandlers m\<rparr>"

definition registerPort :: "'m port_manager_scheme \<Rightarrow> port \<Rightarrow> bool \<times> port \<times> 'm port_manager_scheme" where
  "registerPort m p =
     (let (ok, p') = makeNameUnique m p
      in if ok then (True, p', callUpdateHandlers (m\<lparr>m_Ports := m_Ports m @ [p']\<rparr>)) else (False, p', m))"

fun erase_port :: "nat \<Rightarrow> port list \<Rightarrow> port list option" where
  "erase_port a [] = None"
| "erase_port a (q # qs) = (if p_addr q = a then Some qs else map_option (Cons q) (erase_port a qs))"

definition unregisterPort :: "'m port_manager_scheme \<Rightarrow> nat \<Rightarrow> bool \<times> 'm port_manager_scheme" where
  "unregisterPort m a =
     (case erase_port a (m_Ports m) of
        Some ps \<Rightarrow> (True, callUpdateHandlers (m\<lparr>m_Ports := ps\<rparr>))
      | None \<Rightarrow> (False, m))"

definition getPortCount_type :: "'m port_manager_scheme \<Rightarrow> E_PortType \<Rightarrow> nat" where
  "getPortCount_type m t = length (filter (\<lambda>q. m_PortType q = t) (m_Ports m))"

definition getPortCount :: "'m port_manager_scheme \<Rightarrow> nat" where
  "getPortCount m = length (m_Ports m)"

text \<open>\<^verbatim>\<open>vector::at\<close> throws for an index out of range.\<close>

definition getPortAtIdx :: "'m port_manager_scheme \<Rightarrow> u32 \<Rightarrow> port option" where
  "getPortAtIdx m index = (if unat index < length (m_Ports m) then Some (m_Ports m ! unat index) else None)"

text \<open>The loops over all ports stop at the first port whose operation fails.\<close>

fun for_ports :: "(port \<Rightarrow> bool \<times> port) \<Rightarrow> port list \<Rightarrow> bool \<times> port list" where
  "for_ports f [] = (True, [])"
| "for_ports f (q # qs) =
     (let (ok, q') = f q
      in if ok then let (r, qs') = for_ports f qs in (r, q' # qs') else (False, q' # qs))"

definition resetPorts :: "'m port_manager_scheme \<Rightarrow> bool \<times> 'm port_manager_scheme" where
  "resetPorts m = (let (r, ps) = for_ports Port_reset (m_Ports m) in (r, m\<lparr>m_Ports := ps\<rparr>))"

definition initPorts :: "'m port_manager_scheme \<Rightarrow> bool \<times> 'm port_manager_scheme" where
  "initPorts m = (let (r, ps) = for_ports Port_init (m_Ports m) in (r, m\<lparr>m_Ports := ps\<rparr>))"

definition preparePorts :: "'m port_manager_scheme \<Rightarrow> bool \<times> 'm port_manager_scheme" where
  "preparePorts m = (let (r, ps) = for_ports Port_prepare (m_Ports m) in (r, m\<lparr>m_Ports := ps\<rparr>))"

definition addPortManagerUpdateHandler :: "'m port_manager_scheme \<Rightarrow> nat \<Rightarrow> bool \<times> 'm port_manager_scheme" where
  "addPortManagerUpdateHandler m f = (True, m\<lparr>m_UpdateHandlers := m_UpdateHandlers m @ [f]\<rparr>)"

definition remPortManagerUpdateHandler :: "'m port_manager_scheme \<Rightarrow> nat \<Rightarrow> bool \<times> 'm port_manager_scheme" where
  "remPortManagerUpdateHandler m f =
     (if f \<in> set (m_UpdateHandlers m) then (True, m\<lparr>m_UpdateHandlers := remove1 f (m_UpdateHandlers m)\<rparr>)
      else (False, m))"

definition getUpdateHandlerForPtr :: "(nat \<Rightarrow> bool) \<Rightarrow> 'm port_manager_scheme \<Rightarrow> nat option" where
  "getUpdateHandlerForPtr matchCallee m = find matchCallee (m_UpdateHandlers m)"

section \<open>Silence\<close>

datatype eADT_AudioDataType = eADT_Int24 | eADT_Float

text \<open>
  Writing \<open>vs\<close> to an array from index \<open>off\<close> on; a write beyond the array is undefined. The
  assertion of \<^verbatim>\<open>provideSilenceToPort\<close> compares with the buffer size of the port, the array
  itself may be smaller.
\<close>

definition store_at :: "'b list \<Rightarrow> nat \<Rightarrow> 'b list \<Rightarrow> 'b list option" where
  "store_at xs off vs =
     (if off + length vs \<le> length xs then Some (take off xs @ vs @ drop (off + length vs) xs) else None)"

definition store_quadlets :: "port_buffer option \<Rightarrow> nat \<Rightarrow> u32 list \<Rightarrow> port_buffer option" where
  "store_quadlets b off vs =
     (case b of Some (Quadlets xs) \<Rightarrow> map_option Quadlets (store_at xs off vs) | _ \<Rightarrow> None)"

definition store_floats :: "port_buffer option \<Rightarrow> nat \<Rightarrow> rat list \<Rightarrow> port_buffer option" where
  "store_floats b off vs =
     (case b of Some (Floats xs) \<Rightarrow> map_option Floats (store_at xs off vs) | _ \<Rightarrow> None)"

definition provideSilenceToPort :: "eADT_AudioDataType \<Rightarrow> port \<Rightarrow> u32 \<Rightarrow> u32 \<Rightarrow> (i32 \<times> port) option" where
  "provideSilenceToPort adt p offset nevents =
     (if \<not> nevents + offset \<le> m_buffersize p then None
      else if nevents = 0 then Some (0, p)
      else
        map_option (\<lambda>b. (0, p\<lparr>m_buffer := Some b\<rparr>))
          (if m_PortType p = E_Audio \<and> adt = eADT_Float
           then store_floats (m_buffer p) (unat offset) (replicate (unat nevents) 0)
           else store_quadlets (m_buffer p) (unat offset) (replicate (unat nevents) 0)))"

fun provideSilence_loop :: "eADT_AudioDataType \<Rightarrow> u32 \<Rightarrow> u32 \<Rightarrow> port list \<Rightarrow> (bool \<times> port list) option" where
  "provideSilence_loop adt nevents offset [] = Some (True, [])"
| "provideSilence_loop adt nevents offset (q # qs) =
     (if m_disabled q then
        do { (r, qs') \<leftarrow> provideSilence_loop adt nevents offset qs; Some (r, q # qs') }
      else
        do { (e, q') \<leftarrow> provideSilenceToPort adt q offset nevents;
             (r, qs') \<leftarrow> provideSilence_loop adt nevents offset qs;
             Some (r \<and> e = 0, q' # qs') })"

definition provideSilenceBlock ::
  "eADT_AudioDataType \<Rightarrow> 'm port_manager_scheme \<Rightarrow> u32 \<Rightarrow> u32 \<Rightarrow> (bool \<times> 'm port_manager_scheme) option" where
  "provideSilenceBlock adt m nevents offset =
     do { (r, ps) \<leftarrow> provideSilence_loop adt nevents offset (m_Ports m);
          Some (r, m\<lparr>m_Ports := ps\<rparr>) }"

section \<open>Unique names\<close>

definition digits_value :: "string \<Rightarrow> nat" where
  "digits_value s = foldl (\<lambda>a c. a * 10 + (of_char c - 48)) 0 s"

lemma digits_value_dec_digits: "digits_value (dec_digits n) = n"
proof (induction n rule: dec_digits.induct)
  case (1 n)
  show ?case
  proof (cases "n < 10")
    case True
    then show ?thesis by (simp add: dec_digits.simps [of n] digits_value_def)
  next
    case False
    then show ?thesis
      using 1 by (simp add: dec_digits.simps [of n] digits_value_def)
  qed
qed

lemma dec_digits_inject [simp]: "dec_digits m = dec_digits n \<longleftrightarrow> m = n"
  by (metis digits_value_dec_digits)

lemma dec_digits_not_Nil [simp]: "dec_digits n \<noteq> []"
  by (simp add: dec_digits.simps [of n])

text \<open>The names the loop tries: the wanted one, then the wanted one followed by 0, 1, 2 and so on.\<close>

definition candidate :: "string \<Rightarrow> nat \<Rightarrow> string" where
  "candidate name k = (if k = 0 then name else name @ dec_digits (k - 1))"

lemma candidate_inject [simp]: "candidate name j = candidate name k \<longleftrightarrow> j = k"
  by (auto simp: candidate_def)

lemma name_free_iff: "list_all (\<lambda>q. m_Name q \<noteq> s) ports \<longleftrightarrow> s \<notin> m_Name ` set ports"
  by (force simp: list_all_iff image_iff)

lemma makeNameUnique_loop_finds:
  assumes "m_State p = E_Created" and "m_Name p = candidate name idx" and "idx \<le> 10000"
  shows "(\<exists>k. idx \<le> k \<and> k < 10000 \<and> candidate name k \<notin> m_Name ` set ports
            \<and> (\<forall>j\<in>{idx..<k}. candidate name j \<in> m_Name ` set ports)
            \<and> makeNameUnique_loop ports name idx p = (k, p\<lparr>m_Name := candidate name k\<rparr>))
       \<or> (\<forall>j\<in>{idx..<10000}. candidate name j \<in> m_Name ` set ports)
         \<and> fst (makeNameUnique_loop ports name idx p) = 10000"
  using assms
proof (induction ports name idx p rule: makeNameUnique_loop.induct)
  case (1 ports name idx p)
  consider (limit) "idx = 10000" | (free) "idx < 10000" "candidate name idx \<notin> m_Name ` set ports"
    | (taken) "idx < 10000" "candidate name idx \<in> m_Name ` set ports"
    using 1(4) by linarith
  then show ?case
  proof cases
    case limit
    then have "fst (makeNameUnique_loop ports name idx p) = 10000"
      by (subst makeNameUnique_loop.simps) simp
    then show ?thesis using limit by (intro disjI2) simp
  next
    case free
    have "makeNameUnique_loop ports name idx p = (idx, p)"
      using free 1(3) by (subst makeNameUnique_loop.simps) (simp add: name_free_iff)
    moreover have "p = p\<lparr>m_Name := candidate name idx\<rparr>" using 1(3) by simp
    ultimately show ?thesis using free by (intro disjI1 exI [of _ idx]) auto
  next
    case taken
    let ?p = "snd (Port_setName p (name @ dec_digits idx))"
    have p: "?p = p\<lparr>m_Name := candidate name (idx + 1)\<rparr>"
      using 1(2) by (simp add: Port_setName_def candidate_def)
    have nf: "\<not> list_all (\<lambda>q. m_Name q \<noteq> m_Name p) ports"
      using taken 1(3) by (simp add: name_free_iff)
    have step: "makeNameUnique_loop ports name idx p = makeNameUnique_loop ports name (idx + 1) ?p"
      using taken nf by (subst makeNameUnique_loop.simps) simp
    have split: "{idx..<k} = insert idx {idx + 1..<k}" if "idx < k" for k using that by auto
    have IH: "(\<exists>k. idx + 1 \<le> k \<and> k < 10000 \<and> candidate name k \<notin> m_Name ` set ports
            \<and> (\<forall>j\<in>{idx + 1..<k}. candidate name j \<in> m_Name ` set ports)
            \<and> makeNameUnique_loop ports name (idx + 1) ?p = (k, ?p\<lparr>m_Name := candidate name k\<rparr>))
       \<or> (\<forall>j\<in>{idx + 1..<10000}. candidate name j \<in> m_Name ` set ports)
         \<and> fst (makeNameUnique_loop ports name (idx + 1) ?p) = 10000"
      using taken nf 1(2) p by (intro 1(1)) simp_all
    then show ?thesis
      unfolding step p using taken split by fastforce
  qed
qed

lemma candidates_exceed:
  assumes "length ports < 10000"
  shows "\<not> (\<forall>j\<in>{0..<10000}. candidate name j \<in> m_Name ` set ports)"
proof
  assume "\<forall>j\<in>{0..<10000}. candidate name j \<in> m_Name ` set ports"
  then have "candidate name ` {0..<10000} \<subseteq> m_Name ` set ports" by blast
  then have "card (candidate name ` {0..<10000}) \<le> card (m_Name ` set ports)"
    by (intro card_mono) simp_all
  moreover have "card (candidate name ` {0..<10000}) = 10000"
    by (subst card_image) (simp_all add: inj_on_def)
  moreover have "card (m_Name ` set ports) \<le> length ports"
    using card_image_le [of "set ports" m_Name] card_length [of ports] by simp
  ultimately show False using assms by simp
qed

lemma makeNameUnique_loop_stuck:
  assumes "m_State p \<noteq> E_Created" and "idx \<le> 10000"
  shows "makeNameUnique_loop ports name idx p
       = (if idx < 10000 \<and> m_Name p \<notin> m_Name ` set ports then (idx, p) else (10000, p))"
  using assms
proof (induction ports name idx p rule: makeNameUnique_loop.induct)
  case (1 ports name idx p)
  have p: "snd (Port_setName p s) = p" for s using 1(2) by (simp add: Port_setName_def)
  have free: "list_all (\<lambda>q. m_Name q \<noteq> m_Name p) ports \<longleftrightarrow> m_Name p \<notin> m_Name ` set ports"
    by (rule name_free_iff)
  show ?case
  proof (cases "idx < 10000 \<and> m_Name p \<in> m_Name ` set ports")
    case True
    then have "makeNameUnique_loop ports name idx p = makeNameUnique_loop ports name (idx + 1) p"
      using p free by (subst makeNameUnique_loop.simps) simp
    also have "\<dots> = (10000, p)"
      using True free 1(1) [unfolded p] 1(2) by simp
    finally show ?thesis using True by simp
  next
    case False
    then show ?thesis using free 1(3) by (subst makeNameUnique_loop.simps) auto
  qed
qed

lemma makeNameUnique_finds:
  assumes "length (m_Ports m) < 10000" and "m_State p = E_Created"
  obtains k where "makeNameUnique m p = (True, p\<lparr>m_Name := candidate (m_Name p) k\<rparr>)"
    and "candidate (m_Name p) k \<notin> m_Name ` set (m_Ports m)"
    and "\<forall>j\<in>{0..<k}. candidate (m_Name p) j \<in> m_Name ` set (m_Ports m)"
proof -
  have "m_Name p = candidate (m_Name p) 0" by (simp add: candidate_def)
  from makeNameUnique_loop_finds [OF assms(2) this, of "m_Ports m"] candidates_exceed [OF assms(1), of "m_Name p"]
  obtain k where "k < 10000" "candidate (m_Name p) k \<notin> m_Name ` set (m_Ports m)"
    "\<forall>j\<in>{0..<k}. candidate (m_Name p) j \<in> m_Name ` set (m_Ports m)"
    "makeNameUnique_loop (m_Ports m) (m_Name p) 0 p = (k, p\<lparr>m_Name := candidate (m_Name p) k\<rparr>)"
    by auto
  then show ?thesis by (intro that [of k]) (simp_all add: makeNameUnique_def)
qed

text \<open>
  As long as fewer than 10000 ports are registered, registering a newly created port ends,
  succeeds and keeps the names of all ports different: a free name is not changed, a taken one
  gets the first free number appended. A port that is past its created state can only be
  registered under a free name: for a taken one the search runs through all attempts and fails.
\<close>

theorem registerPort_unique:
  fixes m :: "'m port_manager_scheme"
  assumes "distinct (map m_Name (m_Ports m))" and "length (m_Ports m) < 10000"
  shows "(m_State p = E_Created \<longrightarrow>
           (\<exists>p'. registerPort m p = (True, p', callUpdateHandlers (m\<lparr>m_Ports := m_Ports m @ [p']\<rparr>))
              \<and> distinct (map m_Name (m_Ports m @ [p']))
              \<and> (if m_Name p \<notin> m_Name ` set (m_Ports m) then p' = p
                 else \<exists>k. m_Name p' = m_Name p @ dec_digits k
                        \<and> (\<forall>j<k. m_Name p @ dec_digits j \<in> m_Name ` set (m_Ports m)))))
       \<and> (m_State p \<noteq> E_Created \<longrightarrow>
           registerPort m p = (if m_Name p \<notin> m_Name ` set (m_Ports m)
                               then (True, p, callUpdateHandlers (m\<lparr>m_Ports := m_Ports m @ [p]\<rparr>))
                               else (False, p, m)))"
proof (intro conjI impI)
  assume "m_State p = E_Created"
  then obtain k where k: "makeNameUnique m p = (True, p\<lparr>m_Name := candidate (m_Name p) k\<rparr>)"
    "candidate (m_Name p) k \<notin> m_Name ` set (m_Ports m)"
    "\<forall>j\<in>{0..<k}. candidate (m_Name p) j \<in> m_Name ` set (m_Ports m)"
    using makeNameUnique_finds [OF assms(2)] by blast
  have "if m_Name p \<notin> m_Name ` set (m_Ports m) then p\<lparr>m_Name := candidate (m_Name p) k\<rparr> = p
        else \<exists>i. m_Name (p\<lparr>m_Name := candidate (m_Name p) k\<rparr>) = m_Name p @ dec_digits i
               \<and> (\<forall>j<i. m_Name p @ dec_digits j \<in> m_Name ` set (m_Ports m))"
  proof (cases k)
    case 0
    then show ?thesis using k(2) by (simp add: candidate_def)
  next
    case (Suc i)
    have "m_Name p \<in> m_Name ` set (m_Ports m)" using Suc k(3) [THEN bspec, of 0] by (simp add: candidate_def)
    moreover have "m_Name p @ dec_digits j \<in> m_Name ` set (m_Ports m)" if "j < i" for j
      using that Suc k(3) by (auto simp: candidate_def dest!: bspec [where x = "Suc j"])
    ultimately show ?thesis using Suc by (auto simp: candidate_def)
  qed
  then show "\<exists>p'. registerPort m p = (True, p', callUpdateHandlers (m\<lparr>m_Ports := m_Ports m @ [p']\<rparr>))
              \<and> distinct (map m_Name (m_Ports m @ [p']))
              \<and> (if m_Name p \<notin> m_Name ` set (m_Ports m) then p' = p
                 else \<exists>k. m_Name p' = m_Name p @ dec_digits k
                        \<and> (\<forall>j<k. m_Name p @ dec_digits j \<in> m_Name ` set (m_Ports m)))"
    using assms(1) k(1,2) by (intro exI conjI) (simp_all add: registerPort_def)
next
  assume "m_State p \<noteq> E_Created"
  then show "registerPort m p = (if m_Name p \<notin> m_Name ` set (m_Ports m)
                               then (True, p, callUpdateHandlers (m\<lparr>m_Ports := m_Ports m @ [p]\<rparr>))
                               else (False, p, m))"
    by (auto simp: registerPort_def makeNameUnique_def makeNameUnique_loop_stuck)
qed

theorem registerPort_unique_witness:
  "\<exists>p'. registerPort (PortManager_new\<lparr>m_Ports := [Port_new 1 ''dev'' E_Audio E_Capture]\<rparr>)
          (Port_new 2 ''dev'' E_Audio E_Capture)
      = (True, p', callUpdateHandlers (PortManager_new\<lparr>m_Ports := [Port_new 1 ''dev'' E_Audio E_Capture] @ [p']\<rparr>))
     \<and> m_Name p' = ''dev0''"
proof -
  let ?m = "PortManager_new\<lparr>m_Ports := [Port_new 1 ''dev'' E_Audio E_Capture]\<rparr>"
  obtain p' k where p': "registerPort ?m (Port_new 2 ''dev'' E_Audio E_Capture)
      = (True, p', callUpdateHandlers (?m\<lparr>m_Ports := m_Ports ?m @ [p']\<rparr>))"
    "m_Name p' = ''dev'' @ dec_digits k" "\<forall>j<k. ''dev'' @ dec_digits j \<in> {''dev''}"
    using registerPort_unique [of ?m "Port_new 2 ''dev'' E_Audio E_Capture"] by (auto simp: Port_new_def)
  have "k = 0" using p'(3) by (auto dest: spec [where x = 0])
  then have "m_Name p' = ''dev0''" using p'(2) by (simp add: dec_digits.simps [of 0] char_of_def bit_Suc_0_iff)
  then show ?thesis using p'(1) by (intro exI conjI) simp_all
qed

end
