(* ===== verification/StreamProcessor.thy ===== *)
theory StreamProcessor
  imports CycleTimer TimestampedBuffer StreamPort
begin

text \<open>
  The base class of all stream processors, \<^verbatim>\<open>libstreaming/generic/StreamProcessor.cpp\<close>: the state
  machine that synchronizes a stream with the bus, the packet handlers that drive it, and the
  frame transfers of the client side. The state is a record with the members of the class; it
  extends the port manager the class inherits from. A subclass extends the record further, and
  its virtual methods are the fields of \<open>sp_child\<close>. What the class asks of the stream processor
  manager, the bus service and the handler manager is the environment \<open>sp_env\<close>. An operation
  returns \<open>None\<close> where the program would abort or leave its arrays. Wake-up signals and debug
  output change no result and are left out.
\<close>

section \<open>Data\<close>

datatype eProcessorType = ePT_Receive | ePT_Transmit

datatype eProcessorState =
    ePS_Invalid | ePS_Created | ePS_Stopped | ePS_WaitingForStream | ePS_DryRunning
  | ePS_WaitingForStreamEnable | ePS_Running | ePS_WaitingForStreamDisable | ePS_Error

datatype eChildReturnValue =
    eCRV_OK | eCRV_Invalid | eCRV_Packet | eCRV_EmptyPacket | eCRV_XRun | eCRV_Again | eCRV_Defer
  | eCRV_Error

datatype raw1394_iso_disposition = RAW1394_ISO_OK | RAW1394_ISO_DEFER | RAW1394_ISO_ERROR

record stream_processor = port_manager +
  m_processor_type :: eProcessorType
  m_state :: eProcessorState
  m_next_state :: eProcessorState
  m_cycle_to_switch_state :: u32
  m_local_node_id :: u32
  m_channel :: i32
  m_last_timestamp :: u64
  m_last_timestamp2 :: u64
  m_correct_last_timestamp :: bool
  m_data_buffer :: tsbuffer
  m_scratch_buffer :: "u8 list option"
  m_scratch_buffer_size_bytes :: u64
  m_ticks_per_frame :: rat
  m_dll_bandwidth_hz :: rat
  m_extra_buffer_frames :: u32
  m_max_diff_ticks :: i32
  m_in_xrun :: bool

text \<open>The settings of the stream processor manager, and the rate of its sync source.\<close>

record sp_manager =
  m_nb_buffers :: u32
  m_period :: u32
  m_audio_datatype :: eADT_AudioDataType
  m_nominal_framerate :: u32
  sync_ticks_per_frame :: rat

text \<open>
  The environment of a call: floating point, the contents of fresh memory, whether the code is
  compiled with \<^verbatim>\<open>DEBUG\<close> and with \<^verbatim>\<open>DEBUG_MESSAGES\<close> (the default), the manager, the node id and the time the bus service reports, and
  whether the handler manager starts (at a cycle) or stops the handler of the stream.
\<close>

record sp_env =
  fpa :: fparith
  fresh :: "nat \<Rightarrow> u8"
  debug_build :: bool
  debug_messages :: bool
  spm :: sp_manager
  getLocalNodeId :: u32
  getCycleTimerTicks :: u64
  startHandlerForStream :: "u64 \<Rightarrow> bool"
  stopHandlerForStream :: bool

text \<open>An environment for examples: exact arithmetic, two buffers of eight frames at 48 kHz.\<close>

definition example_env :: sp_env where
  "example_env =
     \<lparr>fpa = exact, fresh = (\<lambda>_. 0), debug_build = False, debug_messages = True,
      spm = \<lparr>m_nb_buffers = 2, m_period = 8, m_audio_datatype = eADT_Int24, m_nominal_framerate = 48000,
             sync_ticks_per_frame = 512\<rparr>,
      getLocalNodeId = 0, getCycleTimerTicks = 0, startHandlerForStream = (\<lambda>_. True), stopHandlerForStream = True\<rparr>"

text \<open>A packet to be filled by a transmit processor.\<close>

record xmit_packet =
  x_data :: "u8 list"
  x_length :: u32
  x_tag :: u8
  x_sy :: u8

record 'a sp_child =
  processPacketHeader :: "u8 list \<Rightarrow> u32 \<Rightarrow> u8 \<Rightarrow> u8 \<Rightarrow> u32 \<Rightarrow> 'a \<Rightarrow> (eChildReturnValue \<times> 'a) option"
  processPacketData :: "u8 list \<Rightarrow> u32 \<Rightarrow> 'a \<Rightarrow> (eChildReturnValue \<times> 'a) option"
  processReadBlock :: "u8 list \<Rightarrow> u32 \<Rightarrow> u32 \<Rightarrow> 'a \<Rightarrow> (bool \<times> 'a) option"
  generatePacketHeader :: "xmit_packet \<Rightarrow> u32 \<Rightarrow> 'a \<Rightarrow> (eChildReturnValue \<times> xmit_packet \<times> 'a) option"
  generatePacketData :: "xmit_packet \<Rightarrow> 'a \<Rightarrow> (eChildReturnValue \<times> xmit_packet \<times> 'a) option"
  generateEmptyPacketHeader :: "xmit_packet \<Rightarrow> u32 \<Rightarrow> 'a \<Rightarrow> (eChildReturnValue \<times> xmit_packet \<times> 'a) option"
  generateEmptyPacketData :: "xmit_packet \<Rightarrow> 'a \<Rightarrow> (eChildReturnValue \<times> xmit_packet \<times> 'a) option"
  generateSilentPacketHeader :: "xmit_packet \<Rightarrow> u32 \<Rightarrow> 'a \<Rightarrow> (eChildReturnValue \<times> xmit_packet \<times> 'a) option"
  generateSilentPacketData :: "xmit_packet \<Rightarrow> 'a \<Rightarrow> (eChildReturnValue \<times> xmit_packet \<times> 'a) option"
  processWriteBlock :: "u32 \<Rightarrow> u32 \<Rightarrow> 'a \<Rightarrow> (bool \<times> u8 list \<times> 'a) option"
  transmitSilenceBlock :: "u8 list \<Rightarrow> u32 \<Rightarrow> u32 \<Rightarrow> 'a \<Rightarrow> (bool \<times> u8 list \<times> 'a) option"
  prepareChild :: "'a \<Rightarrow> (bool \<times> 'a) option"
  getEventsPerFrame :: "'a \<Rightarrow> u32"
  getEventSize :: "'a \<Rightarrow> u32"
  getNominalFramesPerPacket :: "'a \<Rightarrow> u32"

text \<open>
  The base class implements the virtual methods by a warning and a failure, except for the four
  pure virtual ones, which are arguments here.
\<close>

definition sp_child_defaults ::
  "('a \<Rightarrow> (bool \<times> 'a) option) \<Rightarrow> ('a \<Rightarrow> u32) \<Rightarrow> ('a \<Rightarrow> u32) \<Rightarrow> ('a \<Rightarrow> u32) \<Rightarrow> 'a sp_child" where
  "sp_child_defaults prep epf es fpp =
     \<lparr>processPacketHeader = (\<lambda>_ _ _ _ _ s. Some (eCRV_Invalid, s)),
      processPacketData = (\<lambda>_ _ s. Some (eCRV_Invalid, s)),
      processReadBlock = (\<lambda>_ _ _ s. Some (False, s)),
      generatePacketHeader = (\<lambda>x _ s. Some (eCRV_Invalid, x, s)),
      generatePacketData = (\<lambda>x s. Some (eCRV_Invalid, x, s)),
      generateEmptyPacketHeader = (\<lambda>x _ s. Some (eCRV_Invalid, x, s)),
      generateEmptyPacketData = (\<lambda>x s. Some (eCRV_Invalid, x, s)),
      generateSilentPacketHeader = (\<lambda>x _ s. Some (eCRV_Invalid, x, s)),
      generateSilentPacketData = (\<lambda>x s. Some (eCRV_Invalid, x, s)),
      processWriteBlock = (\<lambda>_ _ s. Some (False, [], s)),
      transmitSilenceBlock = (\<lambda>d _ _ s. Some (False, d, s)),
      prepareChild = prep, getEventsPerFrame = epf, getEventSize = es,
      getNominalFramesPerPacket = fpp\<rparr>"

section \<open>Numbers\<close>

definition of_u64 :: "u64 \<Rightarrow> rat" where "of_u64 n = of_int (uint n)"

text \<open>A conversion from floating point to an integer cuts the fraction off.\<close>

definition trunc_rat :: "rat \<Rightarrow> int" where
  "trunc_rat r = (if 0 \<le> r then \<lfloor>r\<rfloor> else \<lceil>r\<rceil>)"

definition pkt_cycles :: "u32 \<Rightarrow> u32" where
  "pkt_cycles pkt_ctr = ucast (CYCLE_TIMER_GET_CYCLES (ucast pkt_ctr))"

section \<open>Construction and parameters\<close>

definition StreamProcessor_new :: "fparith \<Rightarrow> eProcessorType \<Rightarrow> stream_processor" where
  "StreamProcessor_new fp type =
     \<lparr>m_Ports = [], m_UpdateHandlers = [], pm_called = [],
      m_processor_type = type, m_state = ePS_Created, m_next_state = ePS_Invalid,
      m_cycle_to_switch_state = 0, m_local_node_id = 0, m_channel = - 1,
      m_last_timestamp = 0, m_last_timestamp2 = 0, m_correct_last_timestamp = False,
      m_data_buffer = TimestampedBuffer_new fp,
      m_scratch_buffer = None, m_scratch_buffer_size_bytes = 0, m_ticks_per_frame = 0,
      m_dll_bandwidth_hz = rflt fp (rdbl fp (1 / 10)), m_extra_buffer_frames = 0,
      m_max_diff_ticks = 50, m_in_xrun = False\<rparr>"

text \<open>An operation of the data buffer, with its result.\<close>

definition on_buffer ::
  "('r \<times> tsbuffer) option \<Rightarrow> 'm stream_processor_scheme \<Rightarrow> ('r \<times> 'm stream_processor_scheme) option" where
  "on_buffer r s = map_option (\<lambda>(x, b). (x, s\<lparr>m_data_buffer := b\<rparr>)) r"

definition sp_setBufferTailTimestamp ::
  "sp_env \<Rightarrow> rat \<Rightarrow> 'm stream_processor_scheme \<Rightarrow> 'm stream_processor_scheme" where
  "sp_setBufferTailTimestamp e ts s = s\<lparr>m_data_buffer := setBufferTailTimestamp (fpa e) (m_data_buffer s) ts\<rparr>"

definition sp_setBufferHeadTimestamp ::
  "sp_env \<Rightarrow> rat \<Rightarrow> 'm stream_processor_scheme \<Rightarrow> 'm stream_processor_scheme" where
  "sp_setBufferHeadTimestamp e ts s = s\<lparr>m_data_buffer := setBufferHeadTimestamp (fpa e) (m_data_buffer s) ts\<rparr>"

definition setExtraBufferFrames :: "u32 \<Rightarrow> 'm stream_processor_scheme \<Rightarrow> 'm stream_processor_scheme" where
  "setExtraBufferFrames frames s = s\<lparr>m_extra_buffer_frames := frames\<rparr>"

definition getTicksPerFrame :: "'m stream_processor_scheme \<Rightarrow> rat" where
  "getTicksPerFrame s = m_current_rate (m_data_buffer s)"

definition setTicksPerFrame :: "sp_env \<Rightarrow> rat \<Rightarrow> 'm stream_processor_scheme \<Rightarrow> 'm stream_processor_scheme" where
  "setTicksPerFrame e tpf s = s\<lparr>m_data_buffer := setRate (fpa e) (m_data_buffer s) tpf\<rparr>"

definition setDllBandwidth :: "rat \<Rightarrow> 'm stream_processor_scheme \<Rightarrow> bool \<times> 'm stream_processor_scheme" where
  "setDllBandwidth bw s = (True, s\<lparr>m_dll_bandwidth_hz := bw\<rparr>)"

definition setChannel :: "i32 \<Rightarrow> 'm stream_processor_scheme \<Rightarrow> bool \<times> 'm stream_processor_scheme" where
  "setChannel c s = (True, s\<lparr>m_channel := c\<rparr>)"

text \<open>The number of packets for a number of frames; a nominal rate of 0 divides by zero.\<close>

definition getNominalPacketsNeeded :: "sp_env \<Rightarrow> u32 \<Rightarrow> u32 option" where
  "getNominalPacketsNeeded e nframes =
     (let nominal_frames_per_second = m_nominal_framerate (spm e)
      in if nominal_frames_per_second = 0 then None
         else
           let nominal_ticks_per_frame = TICKS_PER_SECOND div ucast nominal_frames_per_second;
               nominal_ticks = nominal_ticks_per_frame * ucast nframes;
               nominal_packets = (nominal_ticks + ucast TICKS_PER_CYCLE - 1) div ucast TICKS_PER_CYCLE
           in Some (ucast nominal_packets))"

definition getPacketsPerPeriod :: "sp_env \<Rightarrow> u32 option" where
  "getPacketsPerPeriod e = getNominalPacketsNeeded e (m_period (spm e))"

definition getNbPacketsIsoXmitBuffer :: "sp_env \<Rightarrow> u32 option" where
  "getNbPacketsIsoXmitBuffer e = map_option (\<lambda>n. n * m_nb_buffers (spm e) + 10) (getPacketsPerPeriod e)"

definition getTimeAtPeriod :: "sp_env \<Rightarrow> 'm stream_processor_scheme \<Rightarrow> u64" where
  "getTimeAtPeriod e s =
     (if m_processor_type s = ePT_Receive
      then of_int (trunc_rat (getTimestampFromHead (fpa e) (m_data_buffer s) (m_period (spm e))))
      else of_int (trunc_rat (getTimestampFromTail (fpa e) (m_data_buffer s)
                                ((m_nb_buffers (spm e) - 1) * m_period (spm e)))))"

definition canClientTransferFrames :: "u32 \<Rightarrow> 'm stream_processor_scheme \<Rightarrow> bool" where
  "canClientTransferFrames nbframes s =
     (let fc = m_framecounter (m_data_buffer s)
      in if m_processor_type s = ePT_Receive then fc \<ge> nbframes
         else m_buffer_size (m_data_buffer s) - fc > nbframes \<or> m_transparent (m_data_buffer s))"

section \<open>The data buffer\<close>

definition setupDataBuffer ::
  "sp_env \<Rightarrow> 'm stream_processor_scheme sp_child \<Rightarrow> 'm stream_processor_scheme
   \<Rightarrow> (bool \<times> 'm stream_processor_scheme) option" where
  "setupDataBuffer e ch s =
     (let fp = fpa e;
          ringbuffer_size_frames = m_nb_buffers (spm e) * m_period (spm e) + m_extra_buffer_frames s + 1;
          s = s\<lparr>m_correct_last_timestamp := False\<rparr>;
          (r1, b) = setBufferSize (m_data_buffer s) ringbuffer_size_frames;
          (r2, b) = setEventSize b (getEventSize ch s);
          (r3, b) = setEventsPerFrame b (getEventsPerFrame ch s);
          (r4, b) = setUpdatePeriod b (if m_processor_type s = ePT_Receive
                                       then getNominalFramesPerPacket ch s else m_period (spm e));
          result = (r1 \<and> r2 \<and> r3 \<and> r4)
      in if m_ticks_per_frame s > 0 then
           let (r5, b) = setNominalRate b (m_ticks_per_frame s);
               (r6, b) = setWrapValue b (rdbl fp 3145728000);
               (r7, b) = setBandwidth fp b (rdbl fp (5 / 24576000))
           in do { (r8, b) \<leftarrow> prepare fp (fresh e) b;
                   Some (result \<and> r5 \<and> r6 \<and> r7 \<and> r8, s\<lparr>m_data_buffer := b\<rparr>) }
         else Some (result, s\<lparr>m_data_buffer := b\<rparr>))"

text \<open>The silence a transmit stream is filled with before it starts.\<close>

definition sp_transferSilence ::
  "sp_env \<Rightarrow> 'm stream_processor_scheme sp_child \<Rightarrow> u32 \<Rightarrow> 'm stream_processor_scheme
   \<Rightarrow> (bool \<times> 'm stream_processor_scheme) option" where
  "sp_transferSilence e ch nframes s =
     (let size = unat (getEventSize ch s) * unat (nframes * getEventsPerFrame ch s)
      in do {
        (_, dummybuffer, s) \<leftarrow> transmitSilenceBlock ch (replicate size 0) nframes 0 s;
        on_buffer (preloadFrames (fpa e) (m_data_buffer s) nframes dummybuffer True) s
      })"

section \<open>State transitions\<close>

text \<open>
  The \<^verbatim>\<open>switch\<close> of \<^verbatim>\<open>doStop\<close>: whether to go on, the result so far. A nominal rate of 0 would make the
  ticks per frame infinite, which is no rational number; the model stops there.
\<close>

definition doStop_entry ::
  "sp_env \<Rightarrow> 'm stream_processor_scheme sp_child \<Rightarrow> 'm stream_processor_scheme
   \<Rightarrow> (bool \<times> bool \<times> 'm stream_processor_scheme) option" where
  "doStop_entry e ch s =
     (case m_state s of
        ePS_Created \<Rightarrow>
          if m_nominal_framerate (spm e) = 0 then None
          else
            let ticks_per_frame = rflt (fpa e) (rdbl (fpa e)
                  (24576000 / rflt (fpa e) (of_u32 (m_nominal_framerate (spm e)))));
                s = s\<lparr>m_ticks_per_frame := ticks_per_frame,
                      m_local_node_id := getLocalNodeId e AND 0x3f,
                      m_correct_last_timestamp := False\<rparr>
            in map_option (\<lambda>(r, s). (True, r, s)) (setupDataBuffer e ch s)
      | ePS_DryRunning \<Rightarrow> Some (stopHandlerForStream e, True, s)
      | _ \<Rightarrow> Some (False, False, s))"

definition doStop ::
  "sp_env \<Rightarrow> 'm stream_processor_scheme sp_child \<Rightarrow> 'm stream_processor_scheme
   \<Rightarrow> (bool \<times> 'm stream_processor_scheme) option" where
  "doStop e ch s =
     do {
       (go, result, s) \<leftarrow> doStop_entry e ch s;
       if \<not> go then Some (False, s)
       else do {
         (r1, s) \<leftarrow> on_buffer (clearBuffer (fpa e) (m_data_buffer s)) s;
         let s = s\<lparr>m_data_buffer := (m_data_buffer s)\<lparr>m_transparent := True\<rparr>\<rparr>;
         let (r2, s) = preparePorts s;
         Some (result \<and> r1 \<and> r2, s\<lparr>m_state := ePS_Stopped\<rparr>)
       }
     }"

definition doWaitForRunningStream :: "'m stream_processor_scheme \<Rightarrow> (bool \<times> 'm stream_processor_scheme) option" where
  "doWaitForRunningStream s =
     (case m_state s of
        ePS_Stopped \<Rightarrow> Some (True, s\<lparr>m_state := ePS_WaitingForStream\<rparr>)
      | _ \<Rightarrow> Some (False, s))"

definition doDryRunning :: "sp_env \<Rightarrow> 'm stream_processor_scheme \<Rightarrow> (bool \<times> 'm stream_processor_scheme) option" where
  "doDryRunning e s =
     (case m_state s of
        ePS_WaitingForStream \<Rightarrow>
          let s = s\<lparr>m_local_node_id := getLocalNodeId e AND 0x3f\<rparr>;
              s = (if m_processor_type s = ePT_Receive
                   then sp_setBufferTailTimestamp e (rdbl (fpa e) (of_u64 (m_last_timestamp s))) s else s)
          in Some (True, s\<lparr>m_state := ePS_DryRunning\<rparr>)
      | ePS_WaitingForStreamEnable \<Rightarrow>
          do { (r, s) \<leftarrow> on_buffer (clearBuffer (fpa e) (m_data_buffer s)) s;
               let s = s\<lparr>m_data_buffer := (m_data_buffer s)\<lparr>m_transparent := True\<rparr>\<rparr>;
               Some (r, s\<lparr>m_state := ePS_DryRunning\<rparr>) }
      | ePS_WaitingForStreamDisable \<Rightarrow>
          do { (r, s) \<leftarrow> on_buffer (clearBuffer (fpa e) (m_data_buffer s)) s;
               let s = s\<lparr>m_data_buffer := (m_data_buffer s)\<lparr>m_transparent := True\<rparr>\<rparr>;
               Some (r, s\<lparr>m_last_timestamp := 0, m_last_timestamp2 := 0, m_state := ePS_DryRunning\<rparr>) }
      | _ \<Rightarrow> Some (False, s))"

definition doWaitForStreamEnable ::
  "sp_env \<Rightarrow> 'm stream_processor_scheme sp_child \<Rightarrow> 'm stream_processor_scheme
   \<Rightarrow> (bool \<times> 'm stream_processor_scheme) option" where
  "doWaitForStreamEnable e ch s =
     (let frames = m_nb_buffers (spm e) * m_period (spm e) + m_extra_buffer_frames s
      in case m_state s of
           ePS_DryRunning \<Rightarrow>
             do {
               (r, s) \<leftarrow> on_buffer (resizeBuffer (fpa e) (fresh e) (m_data_buffer s) (frames + 1)) s;
               if \<not> r then Some (False, s)
               else if m_processor_type s = ePT_Transmit then
                 do {
                   (r, s) \<leftarrow> sp_transferSilence e ch frames s;
                   if \<not> r then Some (False, s)
                   else Some (True, s\<lparr>m_state := ePS_WaitingForStreamEnable\<rparr>)
                 }
               else Some (True, s\<lparr>m_state := ePS_WaitingForStreamEnable\<rparr>)
             }
         | _ \<Rightarrow> Some (False, s))"

definition doRunning :: "sp_env \<Rightarrow> 'm stream_processor_scheme \<Rightarrow> (bool \<times> 'm stream_processor_scheme) option" where
  "doRunning e s =
     (case m_state s of
        ePS_WaitingForStreamEnable \<Rightarrow>
          let s = s\<lparr>m_in_xrun := False, m_local_node_id := getLocalNodeId e AND 0x3f\<rparr>;
              (r, b) = setBandwidth (fpa e) (m_data_buffer s) (rdbl (fpa e) (m_dll_bandwidth_hz s / 24576000));
              s = s\<lparr>m_data_buffer := b\<lparr>m_transparent := False\<rparr>, m_last_timestamp2 := 0\<rparr>
          in Some (r, s\<lparr>m_state := ePS_Running\<rparr>)
      | _ \<Rightarrow> Some (False, s))"

definition doWaitForStreamDisable :: "'m stream_processor_scheme \<Rightarrow> (bool \<times> 'm stream_processor_scheme) option" where
  "doWaitForStreamDisable s =
     (case m_state s of
        ePS_Running \<Rightarrow> Some (True, s\<lparr>m_state := ePS_WaitingForStreamDisable\<rparr>)
      | _ \<Rightarrow> Some (False, s))"

definition updateState ::
  "sp_env \<Rightarrow> 'm stream_processor_scheme sp_child \<Rightarrow> 'm stream_processor_scheme
   \<Rightarrow> (bool \<times> 'm stream_processor_scheme) option" where
  "updateState e ch s =
     (let next_state = m_next_state s
      in if m_state s = next_state then Some (True, s)
         else if m_state s = ePS_Created then
           (if next_state \<noteq> ePS_Stopped then Some (False, s) else doStop e ch s)
         else if m_state s = ePS_Stopped then
           (if next_state \<noteq> ePS_WaitingForStream then Some (False, s) else doWaitForRunningStream s)
         else if m_state s = ePS_WaitingForStream then
           (if next_state \<noteq> ePS_DryRunning then Some (False, s) else doDryRunning e s)
         else if m_state s = ePS_DryRunning then
           (if next_state \<noteq> ePS_Stopped \<and> next_state \<noteq> ePS_WaitingForStreamEnable then Some (False, s)
            else if next_state = ePS_Stopped then doStop e ch s
            else doWaitForStreamEnable e ch s)
         else if m_state s = ePS_WaitingForStreamEnable then
           (if next_state \<noteq> ePS_DryRunning \<and> next_state \<noteq> ePS_Running then Some (False, s)
            else if next_state = ePS_DryRunning then doDryRunning e s
            else doRunning e s)
         else if m_state s = ePS_Running then
           (if next_state \<noteq> ePS_WaitingForStreamDisable then Some (False, s) else doWaitForStreamDisable s)
         else if m_state s = ePS_WaitingForStreamDisable then
           (if next_state \<noteq> ePS_DryRunning then Some (False, s) else doDryRunning e s)
         else Some (False, s))"

section \<open>Packets\<close>

text \<open>\<open>try_update\<close> is the recurring ``update the state or report an error''.\<close>

definition try_update ::
  "sp_env \<Rightarrow> 'm stream_processor_scheme sp_child \<Rightarrow> 'm stream_processor_scheme
   \<Rightarrow> ('m stream_processor_scheme \<Rightarrow> (raw1394_iso_disposition \<times> 'r \<times> 'm stream_processor_scheme) option)
   \<Rightarrow> 'r \<Rightarrow> (raw1394_iso_disposition \<times> 'r \<times> 'm stream_processor_scheme) option" where
  "try_update e ch s k x =
     do { (ok, s) \<leftarrow> updateState e ch s; if \<not> ok then Some (RAW1394_ISO_ERROR, x, s) else k s }"

definition cycle_due :: "u32 \<Rightarrow> 'm stream_processor_scheme \<Rightarrow> bool" where
  "cycle_due pkt_ctr s = (0 \<le>s diffCycles (pkt_cycles pkt_ctr) (m_cycle_to_switch_state s))"

text \<open>
  The block compiled with \<^verbatim>\<open>DEBUG\<close> that repairs a timestamp one second off. Its warnings on the
  instantaneous rate are debug output.
\<close>

definition fix_last_timestamp ::
  "sp_env \<Rightarrow> 'm stream_processor_scheme sp_child \<Rightarrow> 'm stream_processor_scheme \<Rightarrow> 'm stream_processor_scheme" where
  "fix_last_timestamp e ch s =
     (if m_last_timestamp s > 0 \<and> m_last_timestamp2 s > 0 then
        let ticks_per_packet = (of_int (trunc_rat (rflt (fpa e) (getTicksPerFrame s
              * rflt (fpa e) (of_u32 (getNominalFramesPerPacket ch s))))) :: i32);
            diff = (ucast (diffTicks (m_last_timestamp s) (m_last_timestamp2 s)) :: i32)
        in if m_max_diff_ticks s <s diff - ticks_per_packet \<or> diff - ticks_per_packet <s - m_max_diff_ticks s then
             let last_timestamp_fixed = addTicks (m_last_timestamp s) TICKS_PER_SECOND;
                 diff = (ucast (diffTicks last_timestamp_fixed (m_last_timestamp2 s)) :: i32)
             in if diff - ticks_per_packet <s 50 \<and> - 50 <s diff - ticks_per_packet
                then s\<lparr>m_last_timestamp := last_timestamp_fixed\<rparr>
                else
                  let last_timestamp_fixed = substractTicks (m_last_timestamp s) TICKS_PER_SECOND;
                      diff = (ucast (diffTicks last_timestamp_fixed (m_last_timestamp2 s)) :: i32)
                  in if diff - ticks_per_packet <s 50 \<and> - 50 <s diff - ticks_per_packet
                     then s\<lparr>m_last_timestamp := last_timestamp_fixed\<rparr>
                     else s
           else s
      else s)"

text \<open>The part of \<^verbatim>\<open>putPacket\<close> that receives the data.\<close>

definition putPacket_data ::
  "sp_env \<Rightarrow> 'm stream_processor_scheme sp_child \<Rightarrow> u8 list \<Rightarrow> u32 \<Rightarrow> u32 \<Rightarrow> 'm stream_processor_scheme
   \<Rightarrow> (raw1394_iso_disposition \<times> unit \<times> 'm stream_processor_scheme) option" where
  "putPacket_data e ch data len pkt_ctr s =
     do {
       (result2, s) \<leftarrow> processPacketData ch data len s;
       if result2 = eCRV_XRun then
         try_update e ch (s\<lparr>m_in_xrun := True, m_cycle_to_switch_state := pkt_cycles pkt_ctr + 1,
                           m_next_state := ePS_WaitingForStreamDisable\<rparr>)
           (\<lambda>s. Some (RAW1394_ISO_DEFER, (), s)) ()
       else if result2 = eCRV_OK then Some (RAW1394_ISO_OK, (), s)
       else Some (RAW1394_ISO_ERROR, (), s)
     }"

text \<open>The part of \<^verbatim>\<open>putPacket\<close> for a packet with a good header.\<close>

definition putPacket_ok ::
  "sp_env \<Rightarrow> 'm stream_processor_scheme sp_child \<Rightarrow> u8 list \<Rightarrow> u32 \<Rightarrow> u32 \<Rightarrow> 'm stream_processor_scheme
   \<Rightarrow> (raw1394_iso_disposition \<times> unit \<times> 'm stream_processor_scheme) option" where
  "putPacket_ok e ch data len pkt_ctr s =
     (let s = (if debug_build e then fix_last_timestamp e ch s else s);
          s = (if m_correct_last_timestamp s then
                 (sp_setBufferTailTimestamp e
                    (rdbl (fpa e) (of_u64 (substractTicks (m_last_timestamp s)
                       (of_int (trunc_rat (rflt (fpa e) (rflt (fpa e) (of_u32 (getNominalFramesPerPacket ch s))
                                                        * getTicksPerFrame s))))))) s)
                   \<lparr>m_correct_last_timestamp := False\<rparr>
               else s)
      in if m_state s = ePS_WaitingForStream then
           if cycle_due pkt_ctr s
           then try_update e ch (s\<lparr>m_next_state := ePS_DryRunning\<rparr>) (\<lambda>s. Some (RAW1394_ISO_OK, (), s)) ()
           else Some (RAW1394_ISO_OK, (), s)
         else if m_state s \<noteq> m_next_state s then
           try_update e ch s
             (\<lambda>s. if m_state s = ePS_WaitingForStream then Some (RAW1394_ISO_OK, (), s)
                  else putPacket_data e ch data len pkt_ctr s) ()
         else putPacket_data e ch data len pkt_ctr s)"

text \<open>The part of \<^verbatim>\<open>putPacket\<close> from the check of the header on.\<close>

definition putPacket_header ::
  "sp_env \<Rightarrow> 'm stream_processor_scheme sp_child \<Rightarrow> u8 list \<Rightarrow> u32 \<Rightarrow> u8 \<Rightarrow> u8 \<Rightarrow> u32 \<Rightarrow> u32
   \<Rightarrow> 'm stream_processor_scheme \<Rightarrow> (raw1394_iso_disposition \<times> unit \<times> 'm stream_processor_scheme) option" where
  "putPacket_header e ch data len tag sy pkt_ctr dropped_cycles s =
     do {
       (result, s) \<leftarrow> processPacketHeader ch data len tag sy pkt_ctr s;
       let rest = (\<lambda>s. if result = eCRV_OK then putPacket_ok e ch data len pkt_ctr s
                      else if result = eCRV_Invalid then Some (RAW1394_ISO_OK, (), s)
                      else Some (RAW1394_ISO_ERROR, (), s));
       if dropped_cycles \<noteq> 0 then
         let s = s\<lparr>m_correct_last_timestamp := True\<rparr>
         in if m_state s = ePS_Running
            then try_update e ch (s\<lparr>m_in_xrun := True, m_cycle_to_switch_state := pkt_cycles pkt_ctr + 1,
                                   m_next_state := ePS_WaitingForStreamDisable\<rparr>) rest ()
            else rest s
       else rest s
     }"

definition putPacket ::
  "sp_env \<Rightarrow> 'm stream_processor_scheme sp_child \<Rightarrow> u8 list \<Rightarrow> u32 \<Rightarrow> u8 \<Rightarrow> u8 \<Rightarrow> u8 \<Rightarrow> u32 \<Rightarrow> u32
   \<Rightarrow> 'm stream_processor_scheme \<Rightarrow> (raw1394_iso_disposition \<times> unit \<times> 'm stream_processor_scheme) option" where
  "putPacket e ch data len channel tag sy pkt_ctr dropped_cycles s =
     (if debug_build e \<and> m_state s = ePS_Invalid then Some (RAW1394_ISO_ERROR, (), s)
      else if m_state s = ePS_Created then Some (RAW1394_ISO_DEFER, (), s)
      else if m_state s = ePS_Error then Some (RAW1394_ISO_OK, (), s)
      else
        let s = s\<lparr>m_last_timestamp2 := m_last_timestamp s\<rparr>
        in if m_state s = ePS_WaitingForStreamDisable then
             if cycle_due pkt_ctr s
             then try_update e ch (s\<lparr>m_next_state := ePS_DryRunning\<rparr>) (\<lambda>s. Some (RAW1394_ISO_OK, (), s)) ()
             else Some (RAW1394_ISO_OK, (), s)
           else if m_state s = ePS_WaitingForStreamEnable \<and> m_next_state s = ePS_WaitingForStreamEnable
                   \<and> cycle_due pkt_ctr s
           then try_update e ch (s\<lparr>m_next_state := ePS_Running\<rparr>)
                  (putPacket_header e ch data len tag sy pkt_ctr dropped_cycles) ()
           else putPacket_header e ch data len tag sy pkt_ctr dropped_cycles s)"

definition send_empty_packet ::
  "sp_env \<Rightarrow> 'm stream_processor_scheme sp_child \<Rightarrow> xmit_packet \<Rightarrow> u32 \<Rightarrow> 'm stream_processor_scheme
   \<Rightarrow> (raw1394_iso_disposition \<times> xmit_packet \<times> 'm stream_processor_scheme) option" where
  "send_empty_packet e ch x pkt_ctr s =
     (let fill = (\<lambda>s. do { (_, x, s) \<leftarrow> generateEmptyPacketHeader ch x pkt_ctr s;
                          (_, x, s) \<leftarrow> generateEmptyPacketData ch x s;
                          Some (RAW1394_ISO_OK, x, s) })
      in if m_state s \<noteq> m_next_state s then try_update e ch s fill x else fill s)"

text \<open>The part of \<^verbatim>\<open>getPacket\<close> for a stream that waits to be disabled.\<close>

definition getPacket_silent ::
  "sp_env \<Rightarrow> 'm stream_processor_scheme sp_child \<Rightarrow> xmit_packet \<Rightarrow> u32 \<Rightarrow> 'm stream_processor_scheme
   \<Rightarrow> (raw1394_iso_disposition \<times> xmit_packet \<times> 'm stream_processor_scheme) option" where
  "getPacket_silent e ch x pkt_ctr s =
     do {
       (result, x, s) \<leftarrow> generateSilentPacketHeader ch x pkt_ctr s;
       if result = eCRV_Packet then
         do { (_, x, s) \<leftarrow> generateSilentPacketData ch x s; Some (RAW1394_ISO_OK, x, s) }
       else if result = eCRV_EmptyPacket then send_empty_packet e ch x pkt_ctr s
       else Some (RAW1394_ISO_ERROR, x, s)
     }"

definition xmit_xrun ::
  "sp_env \<Rightarrow> 'm stream_processor_scheme sp_child \<Rightarrow> xmit_packet \<Rightarrow> u32 \<Rightarrow> 'm stream_processor_scheme
   \<Rightarrow> (raw1394_iso_disposition \<times> xmit_packet \<times> 'm stream_processor_scheme) option" where
  "xmit_xrun e ch x pkt_ctr s =
     try_update e ch (s\<lparr>m_in_xrun := True, m_cycle_to_switch_state := pkt_cycles pkt_ctr + 1,
                       m_next_state := ePS_WaitingForStreamDisable\<rparr>)
       (send_empty_packet e ch x pkt_ctr) x"

text \<open>The data of a packet with a good header.\<close>

definition getPacket_data ::
  "sp_env \<Rightarrow> 'm stream_processor_scheme sp_child \<Rightarrow> eChildReturnValue \<Rightarrow> xmit_packet \<Rightarrow> u32
   \<Rightarrow> 'm stream_processor_scheme \<Rightarrow> (raw1394_iso_disposition \<times> xmit_packet \<times> 'm stream_processor_scheme) option" where
  "getPacket_data e ch result x pkt_ctr s =
     do {
       (result2, x, s) \<leftarrow> generatePacketData ch x s;
       if result2 = eCRV_XRun then xmit_xrun e ch x pkt_ctr s
       else if result2 = eCRV_Defer \<or> result = eCRV_Defer then Some (RAW1394_ISO_DEFER, x, s)
       else Some (RAW1394_ISO_OK, x, s)
     }"

text \<open>The part of \<^verbatim>\<open>getPacket\<close> for a running stream.\<close>

definition getPacket_running ::
  "sp_env \<Rightarrow> 'm stream_processor_scheme sp_child \<Rightarrow> xmit_packet \<Rightarrow> u32 \<Rightarrow> 'm stream_processor_scheme
   \<Rightarrow> (raw1394_iso_disposition \<times> xmit_packet \<times> 'm stream_processor_scheme) option" where
  "getPacket_running e ch x pkt_ctr s =
     (let prev_timestamp = m_last_timestamp s
      in do {
       (result, x, s) \<leftarrow> generatePacketHeader ch x pkt_ctr s;
       let update = (\<lambda>k s. if m_state s \<noteq> m_next_state s then try_update e ch s k x else k s);
       if result = eCRV_Packet \<or> result = eCRV_Defer then
         update (getPacket_data e ch result x pkt_ctr) (s\<lparr>m_last_timestamp2 := prev_timestamp\<rparr>)
       else if result = eCRV_XRun then xmit_xrun e ch x pkt_ctr s
       else if result = eCRV_EmptyPacket then update (send_empty_packet e ch x pkt_ctr) s
       else if result = eCRV_Again then
         update (\<lambda>s. do { (_, x, s) \<leftarrow> generateEmptyPacketHeader ch x pkt_ctr s;
                         (_, x, s) \<leftarrow> generateEmptyPacketData ch x s;
                         Some (RAW1394_ISO_DEFER, x, s) }) s
       else Some (RAW1394_ISO_ERROR, x, s)
     })"

definition getPacket ::
  "sp_env \<Rightarrow> 'm stream_processor_scheme sp_child \<Rightarrow> xmit_packet \<Rightarrow> u32 \<Rightarrow> u32 \<Rightarrow> 'm stream_processor_scheme
   \<Rightarrow> (raw1394_iso_disposition \<times> xmit_packet \<times> 'm stream_processor_scheme) option" where
  "getPacket e ch x pkt_ctr dropped_cycles s =
     (if pkt_ctr = 0xFFFFFFFF then Some (RAW1394_ISO_OK, x\<lparr>x_tag := 0, x_sy := 0, x_length := 0\<rparr>, s)
      else if m_state s = ePS_Error then Some (RAW1394_ISO_OK, x, s)
      else
        let s = (if dropped_cycles > 0 then s\<lparr>m_in_xrun := True\<rparr> else s)
        in if dropped_cycles > 0 \<and> m_state s = ePS_Running then xmit_xrun e ch x pkt_ctr s
           else if debug_build e \<and> m_state s = ePS_Invalid then Some (RAW1394_ISO_ERROR, x, s)
           else if m_state s = ePS_Created then
             Some (RAW1394_ISO_DEFER, x\<lparr>x_tag := 0, x_sy := 0, x_length := 0\<rparr>, s)
           else if m_state s = ePS_WaitingForStreamDisable then
             if cycle_due pkt_ctr s
             then try_update e ch (s\<lparr>m_next_state := ePS_DryRunning\<rparr>) (getPacket_silent e ch x pkt_ctr) x
             else getPacket_silent e ch x pkt_ctr s
           else if m_state s = ePS_WaitingForStreamEnable \<and> m_next_state s = ePS_WaitingForStreamEnable then
             if cycle_due pkt_ctr s
             then try_update e ch (s\<lparr>m_next_state := ePS_Running\<rparr>) (send_empty_packet e ch x pkt_ctr) x
             else send_empty_packet e ch x pkt_ctr s
           else if m_state s = ePS_WaitingForStream then
             if cycle_due pkt_ctr s
             then try_update e ch (s\<lparr>m_next_state := ePS_DryRunning\<rparr>) (send_empty_packet e ch x pkt_ctr) x
             else send_empty_packet e ch x pkt_ctr s
           else if m_state s = ePS_Running then getPacket_running e ch x pkt_ctr s
           else send_empty_packet e ch x pkt_ctr s)"

definition packetsStopped :: "'m stream_processor_scheme \<Rightarrow> 'm stream_processor_scheme" where
  "packetsStopped s = s\<lparr>m_state := ePS_Stopped, m_next_state := ePS_Stopped\<rparr>"

definition handleBusResetDo :: "'m stream_processor_scheme \<Rightarrow> bool \<times> 'm stream_processor_scheme" where
  "handleBusResetDo s = (True, s\<lparr>m_state := ePS_Error, m_in_xrun := True\<rparr>)"

text \<open>\<^verbatim>\<open>handleBusReset\<close> only holds a lock of the manager around the handler of the subclass.\<close>

definition handleBusReset ::
  "('m stream_processor_scheme \<Rightarrow> bool \<times> 'm stream_processor_scheme) \<Rightarrow> 'm stream_processor_scheme
   \<Rightarrow> bool \<times> 'm stream_processor_scheme" where
  "handleBusReset do_reset s = do_reset s"

definition handlerDied :: "'m stream_processor_scheme \<Rightarrow> 'm stream_processor_scheme" where
  "handlerDied s = s\<lparr>m_state := ePS_Stopped, m_in_xrun := True\<rparr>"

section \<open>Frames\<close>

text \<open>
  The callbacks of the data buffer. They act on the processor; an aborted callback leaves no
  processor behind.
\<close>

definition read_client :: "'a sp_child \<Rightarrow> 'a option read_block" where
  "read_client ch c data nevents offset =
     (case c of
        None \<Rightarrow> (False, None)
      | Some s \<Rightarrow> (case processReadBlock ch data nevents offset s of
                    None \<Rightarrow> (False, None)
                  | Some (r, s) \<Rightarrow> (r, Some s)))"

definition write_client :: "'a sp_child \<Rightarrow> 'a option write_block" where
  "write_client ch c nevents offset =
     (case c of
        None \<Rightarrow> (False, [], None)
      | Some s \<Rightarrow> (case processWriteBlock ch nevents offset s of
                    None \<Rightarrow> (False, [], None)
                  | Some (r, d, s) \<Rightarrow> (r, d, Some s)))"

text \<open>With \<^verbatim>\<open>DEBUG\<close> the rate of the sync source must not be 0.\<close>

definition getFramesWet ::
  "sp_env \<Rightarrow> 'm stream_processor_scheme sp_child \<Rightarrow> u32 \<Rightarrow> i64 \<Rightarrow> 'm stream_processor_scheme
   \<Rightarrow> (bool \<times> 'm stream_processor_scheme) option" where
  "getFramesWet e ch nbframes ts s =
     (if debug_build e \<and> sync_ticks_per_frame (spm e) = 0 then None
      else do {
        (_, b, c) \<leftarrow> blockProcessReadFrames (read_client ch) (m_data_buffer s) (Some s) nbframes;
        s \<leftarrow> c;
        Some (True, s\<lparr>m_data_buffer := b\<rparr>)
      })"

definition getFramesDry ::
  "sp_env \<Rightarrow> u32 \<Rightarrow> i64 \<Rightarrow> 'm stream_processor_scheme \<Rightarrow> (bool \<times> 'm stream_processor_scheme) option" where
  "getFramesDry e nbframes ts s = provideSilenceBlock (m_audio_datatype (spm e)) s nbframes 0"

definition getFrames ::
  "sp_env \<Rightarrow> 'm stream_processor_scheme sp_child \<Rightarrow> u32 \<Rightarrow> i64 \<Rightarrow> 'm stream_processor_scheme
   \<Rightarrow> (bool \<times> 'm stream_processor_scheme) option" where
  "getFrames e ch nbframes ts s =
     (if m_processor_type s \<noteq> ePT_Receive then None
      else if m_state s = ePS_DryRunning then getFramesDry e nbframes ts s
      else getFramesWet e ch nbframes ts s)"

definition sp_dropFrames ::
  "u32 \<Rightarrow> i64 \<Rightarrow> 'm stream_processor_scheme \<Rightarrow> (bool \<times> 'm stream_processor_scheme) option" where
  "sp_dropFrames nbframes ts s = on_buffer (dropFrames (m_data_buffer s) nbframes) s"

definition putFramesWet ::
  "sp_env \<Rightarrow> 'm stream_processor_scheme sp_child \<Rightarrow> u32 \<Rightarrow> i64 \<Rightarrow> 'm stream_processor_scheme
   \<Rightarrow> (bool \<times> 'm stream_processor_scheme) option" where
  "putFramesWet e ch nbframes ts s =
     do {
       (_, b, c) \<leftarrow> blockProcessWriteFrames (fpa e) (write_client ch) (m_data_buffer s) (Some s) nbframes
                     (rdbl (fpa e) (of_int (sint ts)));
       s \<leftarrow> c;
       Some (True, s\<lparr>m_data_buffer := b\<rparr>)
     }"

definition putFramesDry :: "u32 \<Rightarrow> i64 \<Rightarrow> 'm stream_processor_scheme \<Rightarrow> (bool \<times> 'm stream_processor_scheme) option" where
  "putFramesDry nbframes ts s = Some (True, s)"

definition putFrames ::
  "sp_env \<Rightarrow> 'm stream_processor_scheme sp_child \<Rightarrow> u32 \<Rightarrow> i64 \<Rightarrow> 'm stream_processor_scheme
   \<Rightarrow> (bool \<times> 'm stream_processor_scheme) option" where
  "putFrames e ch nbframes ts s =
     (if m_processor_type s \<noteq> ePT_Transmit then None
      else if m_state s = ePS_DryRunning then putFramesDry nbframes ts s
      else putFramesWet e ch nbframes ts s)"

text \<open>
  A request for more frames than the scratch buffer holds is only reported: the silence is
  then written beyond the buffer.
\<close>

definition putSilenceFrames ::
  "sp_env \<Rightarrow> 'm stream_processor_scheme sp_child \<Rightarrow> u32 \<Rightarrow> i64 \<Rightarrow> 'm stream_processor_scheme
   \<Rightarrow> (bool \<times> 'm stream_processor_scheme) option" where
  "putSilenceFrames e ch nbframes ts s =
     (let bytes_per_frame = (ucast (getEventSize ch s * getEventsPerFrame ch s) :: u64)
      in if bytes_per_frame = 0 then None
         else if nbframes > ucast (m_scratch_buffer_size_bytes s div bytes_per_frame) then None
         else do {
           scratch \<leftarrow> m_scratch_buffer s;
           (ok, scratch, s) \<leftarrow> transmitSilenceBlock ch scratch nbframes 0 s;
           let s = s\<lparr>m_scratch_buffer := Some scratch\<rparr>;
           if \<not> ok then Some (False, s)
           else on_buffer (writeFrames (fpa e) (m_data_buffer s) nbframes scratch
                             (rdbl (fpa e) (of_int (sint ts)))) s
         })"

text \<open>A negative shift fails; the code behind its \<^verbatim>\<open>return\<close> is never reached.\<close>

definition shiftStream :: "i32 \<Rightarrow> 'm stream_processor_scheme \<Rightarrow> (bool \<times> 'm stream_processor_scheme) option" where
  "shiftStream nbframes s =
     (if nbframes = 0 then Some (True, s)
      else if 0 <s nbframes then on_buffer (dropFrames (m_data_buffer s) nbframes) s
      else Some (False, s))"

definition canProduce :: "u32 \<Rightarrow> 'm stream_processor_scheme \<Rightarrow> bool option" where
  "canProduce nframes s =
     (if m_in_xrun s then Some True
      else if m_state s = ePS_Running \<and> m_next_state s = ePS_Running then
        map_option (\<lambda>bufferspace. bufferspace \<ge> nframes) (getBufferSpace (m_data_buffer s))
      else if m_processor_type s = ePT_Transmit then Some False
      else Some True)"

definition canConsume :: "u32 \<Rightarrow> 'm stream_processor_scheme \<Rightarrow> bool" where
  "canConsume nframes s =
     (if m_in_xrun s then True
      else if m_state s = ePS_Running \<and> m_next_state s = ePS_Running then
        getBufferFill (m_data_buffer s) \<ge> nframes
      else if m_processor_type s = ePT_Transmit then True
      else False)"

definition canProducePacket :: "'m stream_processor_scheme sp_child \<Rightarrow> 'm stream_processor_scheme \<Rightarrow> bool option" where
  "canProducePacket ch s = canProduce (getNominalFramesPerPacket ch s) s"

definition canProducePeriod :: "sp_env \<Rightarrow> 'm stream_processor_scheme \<Rightarrow> bool option" where
  "canProducePeriod e s = canProduce (m_period (spm e)) s"

definition canConsumePacket :: "'m stream_processor_scheme sp_child \<Rightarrow> 'm stream_processor_scheme \<Rightarrow> bool" where
  "canConsumePacket ch s = canConsume (getNominalFramesPerPacket ch s) s"

definition canConsumePeriod :: "sp_env \<Rightarrow> 'm stream_processor_scheme \<Rightarrow> bool" where
  "canConsumePeriod e s = canConsume (m_period (spm e)) s"

section \<open>Control of the state machine\<close>

definition periodSizeChanged ::
  "sp_env \<Rightarrow> 'm stream_processor_scheme sp_child \<Rightarrow> u32 \<Rightarrow> 'm stream_processor_scheme
   \<Rightarrow> (bool \<times> 'm stream_processor_scheme) option" where
  "periodSizeChanged e ch new_periodsize s =
     (if m_state s \<noteq> ePS_Stopped \<and> m_state s \<noteq> ePS_Created then Some (False, s)
      else
        let size = new_periodsize * getEventsPerFrame ch s * getEventSize ch s;
            s = s\<lparr>m_scratch_buffer_size_bytes := ucast size,
                  m_scratch_buffer := Some (map (fresh e) [0..<unat size])\<rparr>;
            (ok, ps) = for_ports (\<lambda>p. Port_setBufferSize p (m_period (spm e))) (m_Ports s);
            s = s\<lparr>m_Ports := ps\<rparr>
        in if \<not> ok then Some (False, s)
           else do {
             (ok, s) \<leftarrow> setupDataBuffer e ch s;
             if \<not> ok then Some (False, s) else updateState e ch s
           })"

text \<open>\<open>registered\<close>: both managers accept the processor.\<close>

definition sp_init :: "bool \<Rightarrow> 'm stream_processor_scheme \<Rightarrow> bool \<times> 'm stream_processor_scheme" where
  "sp_init registered s = (if registered then (True, s\<lparr>m_next_state := ePS_Created\<rparr>) else (False, s))"

definition sp_prepare ::
  "sp_env \<Rightarrow> 'm stream_processor_scheme sp_child \<Rightarrow> 'm stream_processor_scheme
   \<Rightarrow> (bool \<times> 'm stream_processor_scheme) option" where
  "sp_prepare e ch s =
     do {
       (ok, s) \<leftarrow> periodSizeChanged e ch (m_period (spm e)) s;
       if \<not> ok then Some (False, s)
       else
         let (ok, s) = initPorts s
         in if \<not> ok then Some (False, s)
            else do {
              (ok, s) \<leftarrow> prepareChild ch s;
              if \<not> ok then Some (False, s)
              else updateState e ch (s\<lparr>m_next_state := ePS_Stopped\<rparr>)
            }
     }"

definition scheduleStateTransition ::
  "eProcessorState \<Rightarrow> u64 \<Rightarrow> 'm stream_processor_scheme \<Rightarrow> bool \<times> 'm stream_processor_scheme" where
  "scheduleStateTransition state time_instant s =
     (True, s\<lparr>m_cycle_to_switch_state := ucast (TICKS_TO_CYCLES time_instant), m_next_state := state\<rparr>)"

definition switch_time :: "sp_env \<Rightarrow> u32 \<Rightarrow> i64 \<Rightarrow> u64" where
  "switch_time e cycles t =
     (if t <s 0 then addTicks (getCycleTimerTicks e) (ucast (cycles * TICKS_PER_CYCLE)) else t)"

definition scheduleStartDryRunning ::
  "sp_env \<Rightarrow> i64 \<Rightarrow> 'm stream_processor_scheme \<Rightarrow> bool \<times> 'm stream_processor_scheme" where
  "scheduleStartDryRunning e t s =
     (let tx = switch_time e 200 t;
          start_handler_ticks = substractTicks tx (ucast (100 * TICKS_PER_CYCLE))
      in if m_state s = ePS_Stopped then
           if \<not> startHandlerForStream e (TICKS_TO_CYCLES start_handler_ticks) then (False, s)
           else scheduleStateTransition ePS_WaitingForStream tx s
         else if m_state s = ePS_Running then scheduleStateTransition ePS_WaitingForStreamDisable tx s
         else if m_state s = ePS_DryRunning then (True, s)
         else if m_state s = ePS_WaitingForStreamEnable then scheduleStateTransition ePS_DryRunning tx s
         else if m_state s = ePS_WaitingForStreamDisable then (True, s)
         else (False, s))"

definition scheduleStartRunning ::
  "sp_env \<Rightarrow> i64 \<Rightarrow> 'm stream_processor_scheme \<Rightarrow> bool \<times> 'm stream_processor_scheme" where
  "scheduleStartRunning e t s = scheduleStateTransition ePS_WaitingForStreamEnable (switch_time e 200 t) s"

definition scheduleStopDryRunning ::
  "sp_env \<Rightarrow> i64 \<Rightarrow> 'm stream_processor_scheme \<Rightarrow> bool \<times> 'm stream_processor_scheme" where
  "scheduleStopDryRunning e t s = scheduleStateTransition ePS_Stopped (switch_time e 2000 t) s"

definition scheduleStopRunning ::
  "sp_env \<Rightarrow> i64 \<Rightarrow> 'm stream_processor_scheme \<Rightarrow> bool \<times> 'm stream_processor_scheme" where
  "scheduleStopRunning e t s = scheduleStateTransition ePS_WaitingForStreamDisable (switch_time e 2000 t) s"

text \<open>
  Waiting for another thread to change the state: \<open>seen k\<close> is the state the \<open>k\<close>-th look at
  \<^verbatim>\<open>m_state\<close> finds, one millisecond after the one before.
\<close>

function waitForState_loop :: "(nat \<Rightarrow> eProcessorState) \<Rightarrow> eProcessorState \<Rightarrow> nat \<Rightarrow> i32 \<Rightarrow> i32" where
  "waitForState_loop seen state k cnt =
     (if seen k \<noteq> state \<and> cnt \<noteq> 0 then waitForState_loop seen state (Suc k) (cnt - 1) else cnt)"
  by pat_completeness auto
termination
  by (relation "measure (\<lambda>(_, _, _, cnt). unat cnt)") (auto simp: unat_minus_one unat_gt_0)

declare waitForState_loop.simps [simp del]

definition waitForState :: "(nat \<Rightarrow> eProcessorState) \<Rightarrow> eProcessorState \<Rightarrow> u32 \<Rightarrow> bool" where
  "waitForState seen state timeout_ms = (let cnt = waitForState_loop seen state 0 timeout_ms in \<not> cnt = 0)"

definition schedule_and_wait ::
  "eProcessorState \<Rightarrow> ('m stream_processor_scheme \<Rightarrow> bool \<times> 'm stream_processor_scheme)
   \<Rightarrow> (nat \<Rightarrow> eProcessorState) \<Rightarrow> 'm stream_processor_scheme \<Rightarrow> bool \<times> 'm stream_processor_scheme" where
  "schedule_and_wait state schedule seen s =
     (if m_state s = state then (True, s)
      else let (ok, s) = schedule s
           in if \<not> ok then (False, s)
              else if \<not> waitForState seen state 2000 then (False, s)
              else (True, s))"

definition startDryRunning ::
  "sp_env \<Rightarrow> (nat \<Rightarrow> eProcessorState) \<Rightarrow> i64 \<Rightarrow> 'm stream_processor_scheme \<Rightarrow> bool \<times> 'm stream_processor_scheme" where
  "startDryRunning e seen t = schedule_and_wait ePS_DryRunning (scheduleStartDryRunning e t) seen"

definition startRunning ::
  "sp_env \<Rightarrow> (nat \<Rightarrow> eProcessorState) \<Rightarrow> i64 \<Rightarrow> 'm stream_processor_scheme \<Rightarrow> bool \<times> 'm stream_processor_scheme" where
  "startRunning e seen t = schedule_and_wait ePS_Running (scheduleStartRunning e t) seen"

definition stopDryRunning ::
  "sp_env \<Rightarrow> (nat \<Rightarrow> eProcessorState) \<Rightarrow> i64 \<Rightarrow> 'm stream_processor_scheme \<Rightarrow> bool \<times> 'm stream_processor_scheme" where
  "stopDryRunning e seen t = schedule_and_wait ePS_Stopped (scheduleStopDryRunning e t) seen"

definition stopRunning ::
  "sp_env \<Rightarrow> (nat \<Rightarrow> eProcessorState) \<Rightarrow> i64 \<Rightarrow> 'm stream_processor_scheme \<Rightarrow> bool \<times> 'm stream_processor_scheme" where
  "stopRunning e seen t = schedule_and_wait ePS_DryRunning (scheduleStopRunning e t) seen"

definition ePSToString :: "eProcessorState \<Rightarrow> string" where
  "ePSToString s =
     (case s of
        ePS_Invalid \<Rightarrow> ''ePS_Invalid'' | ePS_Created \<Rightarrow> ''ePS_Created'' | ePS_Stopped \<Rightarrow> ''ePS_Stopped''
      | ePS_WaitingForStream \<Rightarrow> ''ePS_WaitingForStream'' | ePS_DryRunning \<Rightarrow> ''ePS_DryRunning''
      | ePS_WaitingForStreamEnable \<Rightarrow> ''ePS_WaitingForStreamEnable'' | ePS_Running \<Rightarrow> ''ePS_Running''
      | ePS_WaitingForStreamDisable \<Rightarrow> ''ePS_WaitingForStreamDisable'' | ePS_Error \<Rightarrow> ''ePS_Error'')"

end
