(* ===== verification/StreamStates.thy ===== *)
theory StreamStates
  imports StreamProcessor
begin

text \<open>
  The state machine of the stream processors. \<open>sp_child_laws\<close> is the contract of a subclass:
  its methods leave the private members of the base class alone. Inside it the effect of
  \<^verbatim>\<open>updateState\<close> and of the packet handlers on the state is worked out once; the invariants of
  all reachable states follow by induction over the steps of a processor.
\<close>

section \<open>The cycle of a packet\<close>

lemma uint_pkt_cycles: "uint (pkt_cycles ctr) = uint (CYCLE_TIMER_GET_CYCLES (ucast ctr))"
proof -
  have "uint (CYCLE_TIMER_GET_CYCLES (ucast ctr)) < 8192" by (simp add: timer_fields uint_take_bit_mod)
  then show ?thesis by (simp add: pkt_cycles_def unsigned_ucast_eq take_bit_int_eq_self)
qed

section \<open>The contract of a subclass\<close>

definition same_private :: "'m stream_processor_scheme \<Rightarrow> 'm stream_processor_scheme \<Rightarrow> bool" where
  "same_private s s' \<longleftrightarrow>
     m_processor_type s' = m_processor_type s \<and> m_state s' = m_state s \<and> m_next_state s' = m_next_state s
     \<and> m_cycle_to_switch_state s' = m_cycle_to_switch_state s \<and> m_in_xrun s' = m_in_xrun s
     \<and> m_transparent (m_data_buffer s') = m_transparent (m_data_buffer s)"

lemma same_private_refl [simp, intro!]: "same_private s s"
  by (simp add: same_private_def)

lemma same_private_trans: "same_private s t \<Longrightarrow> same_private t u \<Longrightarrow> same_private s u"
  by (simp add: same_private_def)

lemma same_privateD:
  assumes "same_private s s'"
  shows "m_processor_type s' = m_processor_type s" and "m_state s' = m_state s"
    and "m_next_state s' = m_next_state s" and "m_cycle_to_switch_state s' = m_cycle_to_switch_state s"
    and "m_in_xrun s' = m_in_xrun s" and "m_transparent (m_data_buffer s') = m_transparent (m_data_buffer s)"
  using assms by (simp_all add: same_private_def)

text \<open>A method that may return a value and a packet beside the processor.\<close>

definition keeps_private :: "('m stream_processor_scheme \<Rightarrow> ('r \<times> 'm stream_processor_scheme) option) \<Rightarrow> bool" where
  "keeps_private f \<longleftrightarrow> (\<forall>s r s'. f s = Some (r, s') \<longrightarrow> same_private s s')"

definition keeps_private3 ::
  "('m stream_processor_scheme \<Rightarrow> ('r \<times> 'x \<times> 'm stream_processor_scheme) option) \<Rightarrow> bool" where
  "keeps_private3 f \<longleftrightarrow> (\<forall>s r x s'. f s = Some (r, x, s') \<longrightarrow> same_private s s')"

lemma keeps_privateD: "keeps_private f \<Longrightarrow> f s = Some (r, s') \<Longrightarrow> same_private s s'"
  by (simp add: keeps_private_def)

lemma keeps_private3D: "keeps_private3 f \<Longrightarrow> f s = Some (r, x, s') \<Longrightarrow> same_private s s'"
  by (simp add: keeps_private3_def)

locale sp_child_laws =
  fixes ch :: "'m stream_processor_scheme sp_child"
  assumes header: "keeps_private (processPacketHeader ch d n t y c)"
    and data: "keeps_private (processPacketData ch d n)"
    and read_block: "keeps_private (processReadBlock ch d nev off)"
    and xmit_header: "keeps_private3 (generatePacketHeader ch x c)"
    and xmit_data: "keeps_private3 (generatePacketData ch x)"
    and empty_header: "keeps_private3 (generateEmptyPacketHeader ch x c)"
    and empty_data: "keeps_private3 (generateEmptyPacketData ch x)"
    and silent_header: "keeps_private3 (generateSilentPacketHeader ch x c)"
    and silent_data: "keeps_private3 (generateSilentPacketData ch x)"
    and write_block: "keeps_private3 (processWriteBlock ch nev off)"
    and silence_block: "keeps_private3 (transmitSilenceBlock ch d nev off)"
    and prepare_child: "keeps_private (prepareChild ch)"

section \<open>Transparency of the data buffer\<close>

text \<open>Only \<^verbatim>\<open>setTransparent\<close> changes the flag; the other operations of the buffer keep it.\<close>

named_theorems transparency

lemma incrementFrameCounter_transparent [transparency]:
  "incrementFrameCounter fp b n ts = Some b' \<Longrightarrow> m_transparent b' = m_transparent b"
  by (auto simp: incrementFrameCounter_def Let_def split: if_splits option.splits)

lemma set_timestamp_transparent [simp]:
  "m_transparent (setBufferTailTimestamp fp b ts) = m_transparent b"
  "m_transparent (setBufferHeadTimestamp fp b ts) = m_transparent b"
  "m_transparent (decrementFrameCounter b n) = m_transparent b"
  "m_transparent (resetFrameCounter b) = m_transparent b"
  "m_transparent (setRate fp b r) = m_transparent b"
  by (simp_all add: setBufferTailTimestamp_def setBufferHeadTimestamp_def decrementFrameCounter_def
      resetFrameCounter_def setRate_def Let_def)

lemma clearBuffer_transparent [transparency]:
  "clearBuffer fp b = Some (r, b') \<Longrightarrow> m_transparent b' = m_transparent b"
  by (auto simp: clearBuffer_def Let_def split: option.splits)

lemma resizeBuffer_transparent [transparency]:
  "resizeBuffer fp j b n = Some (r, b') \<Longrightarrow> m_transparent b' = m_transparent b"
  by (auto simp: resizeBuffer_def Let_def split: option.splits if_splits)

lemma prepare_transparent [transparency]:
  "prepare fp j b = Some (r, b') \<Longrightarrow> m_transparent b' = m_transparent b"
  by (auto simp: prepare_def Let_def dest!: resizeBuffer_transparent split: if_splits bind_splits prod.splits)

lemma writeFrames_transparent [transparency]:
  "writeFrames fp b n d ts = Some (r, b') \<Longrightarrow> m_transparent b' = m_transparent b"
  by (auto simp: writeFrames_def Let_def dest!: incrementFrameCounter_transparent
      split: if_splits option.splits bind_splits prod.splits)

lemma preloadFrames_transparent [transparency]:
  "preloadFrames fp b n d k = Some (r, b') \<Longrightarrow> m_transparent b' = m_transparent b"
  by (auto simp: preloadFrames_def Let_def split: if_splits option.splits prod.splits)

lemma dropFrames_transparent [transparency]:
  "dropFrames b n = Some (r, b') \<Longrightarrow> m_transparent b' = m_transparent b"
  by (auto simp: dropFrames_def Let_def split: option.splits)

lemma readFrames_transparent [transparency]:
  "readFrames b n = Some (r, d, b') \<Longrightarrow> m_transparent b' = m_transparent b"
  by (auto simp: readFrames_def Let_def split: if_splits option.splits prod.splits)

lemma blockProcess_transparent [transparency]:
  "blockProcessWriteFrames fp w b c n ts = Some (r, b', c') \<Longrightarrow> m_transparent b' = m_transparent b"
  "blockProcessReadFrames rd b c n = Some (r, b', c') \<Longrightarrow> m_transparent b' = m_transparent b"
  by (auto simp: blockProcessWriteFrames_def blockProcessReadFrames_def Let_def
      dest!: incrementFrameCounter_transparent split: if_splits option.splits bind_splits prod.splits)

lemma setters_transparent [simp]:
  "m_transparent (snd (setBufferSize b n)) = m_transparent b"
  "m_transparent (snd (setEventSize b n)) = m_transparent b"
  "m_transparent (snd (setEventsPerFrame b n)) = m_transparent b"
  "m_transparent (snd (setUpdatePeriod b n)) = m_transparent b"
  "m_transparent (snd (setNominalRate b q)) = m_transparent b"
  "m_transparent (snd (setWrapValue b q)) = m_transparent b"
  "m_transparent (snd (setBandwidth fp b q)) = m_transparent b"
  by (simp_all add: setBufferSize_def setEventSize_def setEventsPerFrame_def setUpdatePeriod_def
      setNominalRate_def setWrapValue_def setBandwidth_def Let_def)

lemma on_buffer_SomeD:
  assumes "on_buffer r s = Some (x, s')"
  obtains b where "r = Some (x, b)" and "s' = s\<lparr>m_data_buffer := b\<rparr>"
  using assms by (auto simp: on_buffer_def)

section \<open>The documented transitions\<close>

text \<open>The comments of \<^verbatim>\<open>updateState\<close> allow these transitions.\<close>

fun documented :: "eProcessorState \<Rightarrow> eProcessorState \<Rightarrow> bool" where
  "documented ePS_Created t = (t = ePS_Stopped)"
| "documented ePS_Stopped t = (t = ePS_WaitingForStream)"
| "documented ePS_WaitingForStream t = (t = ePS_DryRunning)"
| "documented ePS_DryRunning t = (t = ePS_Stopped \<or> t = ePS_WaitingForStreamEnable)"
| "documented ePS_WaitingForStreamEnable t = (t = ePS_DryRunning \<or> t = ePS_Running)"
| "documented ePS_Running t = (t = ePS_WaitingForStreamDisable)"
| "documented ePS_WaitingForStreamDisable t = (t = ePS_DryRunning)"
| "documented _ t = False"

text \<open>
  What an update of the state may do: it leaves the state alone or takes the documented
  transition to the requested state. Entering \<open>ePS_Running\<close> ends an xrun and makes the data buffer
  opaque, entering \<open>ePS_Stopped\<close> and leaving \<open>ePS_WaitingForStreamEnable\<close> or
  \<open>ePS_WaitingForStreamDisable\<close> for \<open>ePS_DryRunning\<close> makes it transparent.
\<close>

definition updates :: "'m stream_processor_scheme \<Rightarrow> 'm stream_processor_scheme \<Rightarrow> bool" where
  "updates s s' \<longleftrightarrow>
     m_processor_type s' = m_processor_type s \<and> m_next_state s' = m_next_state s
     \<and> m_cycle_to_switch_state s' = m_cycle_to_switch_state s
     \<and> (m_state s' = m_state s \<and> m_in_xrun s' = m_in_xrun s
          \<and> m_transparent (m_data_buffer s') = m_transparent (m_data_buffer s)
        \<or> m_state s \<noteq> m_next_state s \<and> m_state s' = m_next_state s \<and> documented (m_state s) (m_state s')
          \<and> m_in_xrun s' = (m_in_xrun s \<and> m_state s' \<noteq> ePS_Running)
          \<and> m_transparent (m_data_buffer s') =
              (if m_state s' = ePS_Running then False
               else if m_state s' = ePS_Stopped \<or> m_state s' = ePS_DryRunning \<and> m_state s \<noteq> ePS_WaitingForStream
               then True
               else m_transparent (m_data_buffer s)))"

lemma preparePorts_private [simp]:
  "m_processor_type (snd (preparePorts s)) = m_processor_type s"
  "m_state (snd (preparePorts s)) = m_state s"
  "m_next_state (snd (preparePorts s)) = m_next_state s"
  "m_cycle_to_switch_state (snd (preparePorts s)) = m_cycle_to_switch_state s"
  "m_in_xrun (snd (preparePorts s)) = m_in_xrun s"
  "m_data_buffer (snd (preparePorts s)) = m_data_buffer s"
  by (simp_all add: preparePorts_def split_beta)

lemma initPorts_private [simp]: "same_private s (snd (initPorts s))"
  by (simp add: initPorts_def split_beta same_private_def)

lemma setBandwidth_transparent [transparency]:
  "setBandwidth fp b q = (r, b') \<Longrightarrow> m_transparent b' = m_transparent b"
  using setters_transparent(7) [of fp b q] by simp

lemma setupDataBuffer_private:
  assumes "setupDataBuffer e ch s = Some (r, s')"
  shows "same_private s s'"
  using assms
  unfolding setupDataBuffer_def setBufferSize_def setEventSize_def setEventsPerFrame_def setUpdatePeriod_def
    setNominalRate_def setWrapValue_def Let_def
  by (auto simp: same_private_def bind_eq_Some_conv dest!: prepare_transparent setBandwidth_transparent
      split: if_splits prod.splits)

lemma doStop_entry_private:
  assumes "doStop_entry e ch s = Some (go, res, t)"
  shows "same_private s t"
  using assms
  by (auto simp: doStop_entry_def same_private_def Let_def dest!: setupDataBuffer_private
      split: eProcessorState.splits if_splits)

lemma doStop_fields:
  assumes "doStop e ch s = Some (ok, s')"
  shows "m_processor_type s' = m_processor_type s \<and> m_next_state s' = m_next_state s
    \<and> m_cycle_to_switch_state s' = m_cycle_to_switch_state s \<and> m_in_xrun s' = m_in_xrun s
    \<and> (m_state s' = ePS_Stopped \<and> m_transparent (m_data_buffer s')
       \<or> \<not> ok \<and> m_state s' = m_state s \<and> m_transparent (m_data_buffer s') = m_transparent (m_data_buffer s))"
proof -
  obtain go res t where t: "doStop_entry e ch s = Some (go, res, t)"
    using assms by (cases "doStop_entry e ch s") (auto simp: doStop_def)
  note p = same_privateD [OF doStop_entry_private [OF t]]
  show ?thesis
  proof (cases go)
    case False
    then show ?thesis using assms t p by (auto simp: doStop_def)
  next
    case True
    then obtain r1 b where b: "clearBuffer (fpa e) (m_data_buffer t) = Some (r1, b)"
      using assms t by (cases "clearBuffer (fpa e) (m_data_buffer t)") (auto simp: doStop_def on_buffer_def)
    have "s' = (snd (preparePorts (t\<lparr>m_data_buffer := b\<lparr>m_transparent := True\<rparr>\<rparr>)))\<lparr>m_state := ePS_Stopped\<rparr>"
      using assms t True b by (simp add: doStop_def Let_def on_buffer_def split_beta)
    then show ?thesis using p by simp
  qed
qed

lemma doStop_updates:
  assumes "doStop e ch s = Some (ok, s')" and "m_next_state s = ePS_Stopped"
    and "m_state s = ePS_Created \<or> m_state s = ePS_DryRunning"
  shows "updates s s' \<and> (ok \<longrightarrow> m_state s' = ePS_Stopped)"
  using assms(2,3) doStop_fields [OF assms(1)] unfolding updates_def by auto

lemma doWaitForRunningStream_updates:
  assumes "doWaitForRunningStream s = Some (ok, s')" and "m_next_state s = ePS_WaitingForStream"
    and "m_state s = ePS_Stopped"
  shows "updates s s' \<and> (ok \<longrightarrow> m_state s' = ePS_WaitingForStream)"
  using assms by (auto simp: doWaitForRunningStream_def updates_def)

lemma doDryRunning_fields:
  assumes "doDryRunning e s = Some (ok, s')"
    and "m_state s = ePS_WaitingForStream \<or> m_state s = ePS_WaitingForStreamEnable
         \<or> m_state s = ePS_WaitingForStreamDisable"
  shows "m_processor_type s' = m_processor_type s" and "m_next_state s' = m_next_state s"
    and "m_cycle_to_switch_state s' = m_cycle_to_switch_state s" and "m_in_xrun s' = m_in_xrun s"
    and "m_state s' = ePS_DryRunning"
    and "m_transparent (m_data_buffer s')
         = (if m_state s = ePS_WaitingForStream then m_transparent (m_data_buffer s) else True)"
  using assms
  by (auto simp: doDryRunning_def Let_def on_buffer_def bind_eq_Some_conv sp_setBufferTailTimestamp_def
      split: if_splits)

lemma doDryRunning_updates:
  assumes "doDryRunning e s = Some (ok, s')" and "m_next_state s = ePS_DryRunning"
    and "m_state s = ePS_WaitingForStream \<or> m_state s = ePS_WaitingForStreamEnable
         \<or> m_state s = ePS_WaitingForStreamDisable"
  shows "updates s s' \<and> (ok \<longrightarrow> m_state s' = ePS_DryRunning)"
  using assms(2,3) doDryRunning_fields [OF assms(1,3)] by (auto simp: updates_def)

lemma doRunning_updates:
  assumes "doRunning e s = Some (ok, s')" and "m_next_state s = ePS_Running"
    and "m_state s = ePS_WaitingForStreamEnable"
  shows "updates s s' \<and> (ok \<longrightarrow> m_state s' = ePS_Running)"
  using assms by (auto simp: doRunning_def updates_def Let_def split_beta)

lemma doWaitForStreamDisable_updates:
  assumes "doWaitForStreamDisable s = Some (ok, s')" and "m_next_state s = ePS_WaitingForStreamDisable"
    and "m_state s = ePS_Running"
  shows "updates s s' \<and> (ok \<longrightarrow> m_state s' = ePS_WaitingForStreamDisable)"
  using assms by (auto simp: doWaitForStreamDisable_def updates_def)

context sp_child_laws
begin

lemma sp_transferSilence_private:
  assumes "sp_transferSilence e ch n s = Some (r, s')"
  shows "same_private s s'"
  using assms
  by (auto simp: sp_transferSilence_def Let_def same_private_def split: bind_splits
      elim!: on_buffer_SomeD dest!: preloadFrames_transparent keeps_private3D [OF silence_block])

lemma doWaitForStreamEnable_updates:
  assumes "doWaitForStreamEnable e ch s = Some (ok, s')" and "m_next_state s = ePS_WaitingForStreamEnable"
    and "m_state s = ePS_DryRunning"
  shows "updates s s' \<and> (ok \<longrightarrow> m_state s' = ePS_WaitingForStreamEnable)"
  using assms
  by (auto simp: doWaitForStreamEnable_def updates_def Let_def same_private_def
      split: if_splits bind_splits prod.splits elim!: on_buffer_SomeD
      dest!: resizeBuffer_transparent sp_transferSilence_private)

lemma updateState_updates:
  assumes "updateState e ch s = Some (ok, s')"
  shows "updates s s'" and "ok \<Longrightarrow> m_state s' = m_next_state s"
proof -
  have "updates s s' \<and> (ok \<longrightarrow> m_state s' = m_next_state s)"
  proof (cases "s' = s \<and> (ok \<longrightarrow> m_state s' = m_next_state s)")
    case True
    then show ?thesis by (auto simp: updates_def)
  next
    case False
    then show ?thesis
      using assms doStop_updates [of e ch s ok s'] doWaitForRunningStream_updates [of s ok s']
        doDryRunning_updates [of e s ok s'] doWaitForStreamEnable_updates [of e s ok s']
        doRunning_updates [of e s ok s'] doWaitForStreamDisable_updates [of s ok s']
      unfolding updateState_def Let_def by (auto split: if_splits)
  qed
  then show "updates s s'" and "ok \<Longrightarrow> m_state s' = m_next_state s" by auto
qed

end

section \<open>The effect of a packet on the state\<close>

definition ensures :: "('d \<times> 'x \<times> 's) option \<Rightarrow> ('s \<Rightarrow> bool) \<Rightarrow> bool" where
  "ensures r P \<longleftrightarrow> (\<forall>d x s. r = Some (d, x, s) \<longrightarrow> P s)"

lemma ensures_Some [simp]: "ensures (Some (d, x, s)) P \<longleftrightarrow> P s"
  by (simp add: ensures_def)

lemma ensures_None [simp]: "ensures None P"
  by (simp add: ensures_def)

lemma ensuresD: "ensures r P \<Longrightarrow> r = Some (d, x, s) \<Longrightarrow> P s"
  by (simp add: ensures_def)

lemma ensures_mono: "ensures r P \<Longrightarrow> (\<And>s. P s \<Longrightarrow> Q s) \<Longrightarrow> ensures r Q"
  by (auto simp: ensures_def)

lemma ensures_bind:
  assumes "\<And>x s. f = Some (x, s) \<Longrightarrow> ensures (k (x, s)) P"
  shows "ensures (f \<bind> k) P"
  using assms by (cases f) auto

lemma ensures_bind3:
  assumes "\<And>r x s. f = Some (r, x, s) \<Longrightarrow> ensures (k (r, x, s)) P"
  shows "ensures (f \<bind> k) P"
  using assms by (cases f) auto

lemma ensures_if: "(b \<Longrightarrow> ensures r P) \<Longrightarrow> (\<not> b \<Longrightarrow> ensures r' P) \<Longrightarrow> ensures (if b then r else r') P"
  by simp

lemma updates_refl [simp, intro!]: "updates s s"
  by (simp add: updates_def)

lemma same_private_updates: "same_private s t \<Longrightarrow> updates s t"
  by (simp add: same_private_def updates_def)

lemma updates_private:
  assumes "same_private s t" and "updates t u"
  shows "updates s u"
  using assms(2) unfolding updates_def same_privateD [OF assms(1)] .

lemma same_private_next: "same_private s t \<Longrightarrow> same_private (s\<lparr>m_next_state := n\<rparr>) (t\<lparr>m_next_state := n\<rparr>)"
  by (simp add: same_private_def)

lemma cycle_due_private: "same_private s t \<Longrightarrow> cycle_due ctr t = cycle_due ctr s"
  by (simp add: cycle_due_def same_private_def)

lemma updateState_disable [simp]:
  "m_state s = ePS_Running \<Longrightarrow> m_next_state s = ePS_WaitingForStreamDisable
   \<Longrightarrow> updateState e ch s = Some (True, s\<lparr>m_state := ePS_WaitingForStreamDisable\<rparr>)"
  by (simp add: updateState_def doWaitForStreamDisable_def)

lemma updateState_cannot_disable:
  assumes "m_next_state s = ePS_WaitingForStreamDisable" and "m_state s \<noteq> ePS_Running"
    and "updateState e ch s = Some (ok, s')"
  shows "s' = s"
  using assms by (auto simp: updateState_def Let_def split: if_splits)

lemma fix_last_timestamp_private [simp]: "same_private s (fix_last_timestamp e ch s)"
  by (simp add: fix_last_timestamp_def same_private_def Let_def)

text \<open>An update that does reach the requested state.\<close>

definition switches :: "'m stream_processor_scheme \<Rightarrow> 'm stream_processor_scheme \<Rightarrow> bool" where
  "switches s s' \<longleftrightarrow> updates s s' \<and> m_state s' = m_next_state s"

lemma switches_private: "same_private s t \<Longrightarrow> switches t u \<Longrightarrow> switches s u"
  unfolding switches_def using updates_private [of s t u] same_privateD(3) [of s t] by auto

lemma updateState_reaches:
  assumes "updateState e ch s = Some (ok, s')"
    and "m_next_state s = ePS_DryRunning \<and> (m_state s = ePS_WaitingForStream \<or> m_state s = ePS_WaitingForStreamDisable)
         \<or> m_next_state s = ePS_Running \<and> m_state s = ePS_WaitingForStreamEnable"
  shows "m_state s' = m_next_state s"
proof (cases "m_next_state s = ePS_DryRunning")
  case True
  then have "doDryRunning e s = Some (ok, s')" using assms by (auto simp: updateState_def)
  then show ?thesis using doDryRunning_fields(5) [of e s ok s'] True assms(2) by auto
next
  case False
  then have "doRunning e s = Some (ok, s')" using assms by (auto simp: updateState_def)
  then show ?thesis using False assms(2) by (auto simp: doRunning_def Let_def split_beta)
qed

text \<open>
  The relations between the states before and after the parts of the packet handlers: an xrun of
  the data, the part for a good header, and the part after the synchronized switches.
\<close>

definition data_rel :: "'m stream_processor_scheme \<Rightarrow> 'm stream_processor_scheme \<Rightarrow> bool" where
  "data_rel s s' \<longleftrightarrow> same_private s s' \<or>
     m_processor_type s' = m_processor_type s \<and> m_in_xrun s' \<and> m_next_state s' = ePS_WaitingForStreamDisable
     \<and> m_transparent (m_data_buffer s') = m_transparent (m_data_buffer s)
     \<and> m_state s' = (if m_state s = ePS_Running then ePS_WaitingForStreamDisable else m_state s)"

definition ok_rel :: "u32 \<Rightarrow> 'm stream_processor_scheme \<Rightarrow> 'm stream_processor_scheme \<Rightarrow> bool" where
  "ok_rel ctr s s' \<longleftrightarrow>
     m_state s = ePS_WaitingForStream \<and> cycle_due ctr s \<and> switches (s\<lparr>m_next_state := ePS_DryRunning\<rparr>) s'
     \<or> (\<exists>t. (if m_state s = ePS_WaitingForStream then same_private s t else updates s t) \<and> data_rel t s')"

definition header_rel :: "u32 \<Rightarrow> 'm stream_processor_scheme \<Rightarrow> 'm stream_processor_scheme \<Rightarrow> bool" where
  "header_rel ctr s s' \<longleftrightarrow> (\<exists>t. data_rel s t \<and> (m_state s \<noteq> ePS_Running \<longrightarrow> same_private s t) \<and> ok_rel ctr t s')"

lemma data_rel_refl [simp, intro!]: "data_rel s s"
  by (simp add: data_rel_def)

lemma data_rel_private: "same_private s t \<Longrightarrow> data_rel t u \<Longrightarrow> data_rel s u"
  by (auto simp: data_rel_def same_private_def)

lemma ok_rel_refl [simp, intro!]: "ok_rel ctr s s"
  unfolding ok_rel_def by (intro disjI2 exI [of _ s]) simp

lemma xrun_data_rel:
  assumes "same_private s t"
    and "updateState e ch (t\<lparr>m_in_xrun := True, m_cycle_to_switch_state := c,
                             m_next_state := ePS_WaitingForStreamDisable\<rparr>) = Some (ok, s')"
  shows "data_rel s s'"
proof (cases "m_state t = ePS_Running")
  case True
  then show ?thesis using assms by (auto simp: data_rel_def same_private_def)
next
  case False
  then have "s' = t\<lparr>m_in_xrun := True, m_cycle_to_switch_state := c, m_next_state := ePS_WaitingForStreamDisable\<rparr>"
    using updateState_cannot_disable [OF _ _ assms(2)] by simp
  then show ?thesis using False assms(1) by (auto simp: data_rel_def same_private_def)
qed

text \<open>What a packet with a good header does to the state, once its timestamp is settled.\<close>

definition putPacket_rest ::
  "sp_env \<Rightarrow> 'm stream_processor_scheme sp_child \<Rightarrow> u8 list \<Rightarrow> u32 \<Rightarrow> u32 \<Rightarrow> 'm stream_processor_scheme
   \<Rightarrow> (raw1394_iso_disposition \<times> unit \<times> 'm stream_processor_scheme) option" where
  "putPacket_rest e ch d n ctr t =
      (if m_state t = ePS_WaitingForStream then
         if cycle_due ctr t
         then try_update e ch (t\<lparr>m_next_state := ePS_DryRunning\<rparr>) (\<lambda>s. Some (RAW1394_ISO_OK, (), s)) ()
         else Some (RAW1394_ISO_OK, (), t)
       else if m_state t \<noteq> m_next_state t then
         try_update e ch t (\<lambda>s. if m_state s = ePS_WaitingForStream then Some (RAW1394_ISO_OK, (), s)
                else putPacket_data e ch d n ctr s) ()
       else putPacket_data e ch d n ctr t)"

text \<open>The timestamp a good header brings may be repaired first, which leaves the private members alone.\<close>

lemma putPacket_ok_adjusted:
  obtains t where "same_private s t"
    and "putPacket_ok e ch d n ctr s = putPacket_rest e ch d n ctr t"
proof -
  let ?f = "if debug_build e then fix_last_timestamp e ch s else s"
  let ?t = "if m_correct_last_timestamp ?f then
      (sp_setBufferTailTimestamp e (rdbl (fpa e) (of_u64 (substractTicks (m_last_timestamp ?f)
         (of_int (trunc_rat (rflt (fpa e) (rflt (fpa e) (of_u32 (getNominalFramesPerPacket ch ?f))
            * getTicksPerFrame ?f))))))) ?f)\<lparr>m_correct_last_timestamp := False\<rparr> else ?f"
  have "same_private s ?f" by simp
  then have "same_private s ?t"
    by (rule same_private_trans) (simp add: same_private_def sp_setBufferTailTimestamp_def)
  then show ?thesis by (rule that) (unfold putPacket_ok_def putPacket_rest_def Let_def, rule refl)
qed

context sp_child_laws
begin

lemma putPacket_data_rel: "ensures (putPacket_data e ch d n ctr s) (data_rel s)"
  unfolding putPacket_data_def
proof (rule ensures_bind, simp only: prod.case)
  fix r t
  assume "processPacketData ch d n s = Some (r, t)"
  then have t: "same_private s t" by (rule keeps_privateD [OF data])
  show "ensures (if r = eCRV_XRun then try_update e ch (t\<lparr>m_in_xrun := True,
            m_cycle_to_switch_state := pkt_cycles ctr + 1, m_next_state := ePS_WaitingForStreamDisable\<rparr>)
            (\<lambda>s. Some (RAW1394_ISO_DEFER, (), s)) ()
          else if r = eCRV_OK then Some (RAW1394_ISO_OK, (), t) else Some (RAW1394_ISO_ERROR, (), t)) (data_rel s)"
    using t xrun_data_rel [OF t]
    by (auto simp: try_update_def data_rel_def intro!: ensures_bind)
qed

lemma putPacket_ok_rel: "ensures (putPacket_ok e ch d n ctr s) (ok_rel ctr s)"
proof -
  obtain t where t: "same_private s t" and ok: "putPacket_ok e ch d n ctr s = putPacket_rest e ch d n ctr t"
    by (rule putPacket_ok_adjusted)
  have data: "ensures (putPacket_data e ch d n ctr u) (ok_rel ctr s)"
    if "if m_state s = ePS_WaitingForStream then same_private s u else updates s u" for u
    using that by (intro ensures_mono [OF putPacket_data_rel]) (auto simp: ok_rel_def)
  have upd: "updates (s\<lparr>m_next_state := n\<rparr>) u" if "updateState e ch (t\<lparr>m_next_state := n\<rparr>) = Some (ok, u)" for n ok u
    by (rule updates_private [OF same_private_next [OF t] updateState_updates(1) [OF that]])
  have upd': "updates s u" if "updateState e ch t = Some (ok, u)" for ok u
    by (rule updates_private [OF t updateState_updates(1) [OF that]])
  show ?thesis
  proof (cases "m_state s = ePS_WaitingForStream")
    case True
    then have "m_state t = ePS_WaitingForStream" using same_privateD [OF t] by simp
    moreover have "switches (s\<lparr>m_next_state := ePS_DryRunning\<rparr>) u"
      if "updateState e ch (t\<lparr>m_next_state := ePS_DryRunning\<rparr>) = Some (ok, u)" for ok u
      using upd [OF that] updateState_reaches [OF that] True same_privateD [OF t] by (simp add: switches_def)
    ultimately show ?thesis
      unfolding ok putPacket_rest_def
      using True t by (auto simp: try_update_def ok_rel_def cycle_due_private [OF t] intro!: ensures_bind)
  next
    case False
    then show ?thesis
      unfolding ok putPacket_rest_def
      using t data upd' same_private_updates [OF t] same_privateD [OF t]
      by (auto simp: try_update_def ok_rel_def intro!: ensures_bind)
  qed
qed

lemma putPacket_header_rel: "ensures (putPacket_header e ch d n tag sy ctr dr s) (header_rel ctr s)"
  unfolding putPacket_header_def
proof (rule ensures_bind, simp only: prod.case Let_def)
  fix r t
  assume "processPacketHeader ch d n tag sy ctr s = Some (r, t)"
  then have t: "same_private s t" by (rule keeps_privateD [OF header])
  let ?rest = "\<lambda>s. if r = eCRV_OK then putPacket_ok e ch d n ctr s
                   else if r = eCRV_Invalid then Some (RAW1394_ISO_OK, (), s)
                   else Some (RAW1394_ISO_ERROR, (), s)"
  let ?x = "t\<lparr>m_correct_last_timestamp := True, m_in_xrun := True, m_cycle_to_switch_state := pkt_cycles ctr + 1,
             m_next_state := ePS_WaitingForStreamDisable\<rparr>"
  have rest: "ensures (?rest u) (header_rel ctr s)"
    if "data_rel s u" and "m_state s \<noteq> ePS_Running \<longrightarrow> same_private s u" for u
    using that by (auto simp: header_rel_def intro!: ensures_mono [OF putPacket_ok_rel])
  have corr: "same_private s (t\<lparr>m_correct_last_timestamp := True\<rparr>)" using t by (simp add: same_private_def)
  have xrun: "data_rel s (?x\<lparr>m_state := ePS_WaitingForStreamDisable\<rparr>)" if "m_state t = ePS_Running"
    using that t by (simp add: data_rel_def same_private_def)
  show "ensures (if dr \<noteq> 0 then
         if m_state (t\<lparr>m_correct_last_timestamp := True\<rparr>) = ePS_Running
         then try_update e ch ?x ?rest ()
         else ?rest (t\<lparr>m_correct_last_timestamp := True\<rparr>)
       else ?rest t) (header_rel ctr s)"
  proof (cases "dr \<noteq> 0 \<and> m_state t = ePS_Running")
    case True
    then have "updateState e ch ?x = Some (True, ?x\<lparr>m_state := ePS_WaitingForStreamDisable\<rparr>)" by simp
    then have "try_update e ch ?x ?rest () = ?rest (?x\<lparr>m_state := ePS_WaitingForStreamDisable\<rparr>)"
      by (simp add: try_update_def)
    then show ?thesis
      using True xrun same_privateD(2) [OF t] rest [of "?x\<lparr>m_state := ePS_WaitingForStreamDisable\<rparr>"] by simp
  next
    case False
    have "data_rel s t" and "data_rel s (t\<lparr>m_correct_last_timestamp := True\<rparr>)"
      using t corr by (simp_all add: data_rel_def)
    then show ?thesis using False t corr rest [of t] rest [of "t\<lparr>m_correct_last_timestamp := True\<rparr>"] by auto
  qed
qed

end

section \<open>Invariants of the state machine\<close>

text \<open>
  A running stream is free of xruns and has an opaque data buffer; a stream that waits to be
  disabled still has one; a stream in error has an xrun. Nobody but the packet handlers asks for \<open>ePS_Running\<close>, or for
  \<open>ePS_DryRunning\<close> in a state that waits for a cycle.
\<close>

definition sp_inv :: "'m stream_processor_scheme \<Rightarrow> bool" where
  "sp_inv s \<longleftrightarrow>
     m_state s \<noteq> ePS_Invalid
     \<and> (m_state s = ePS_Running \<longrightarrow> \<not> m_in_xrun s \<and> \<not> m_transparent (m_data_buffer s))
     \<and> (m_state s = ePS_WaitingForStreamDisable \<longrightarrow> \<not> m_transparent (m_data_buffer s))
     \<and> (m_state s = ePS_WaitingForStreamEnable \<longrightarrow> m_next_state s \<noteq> ePS_Running)
     \<and> (m_state s = ePS_WaitingForStream \<or> m_state s = ePS_WaitingForStreamDisable
          \<longrightarrow> m_next_state s \<noteq> ePS_DryRunning)
     \<and> (m_state s = ePS_Error \<longrightarrow> m_in_xrun s)"

text \<open>As long as the handler of the stream does not fail, a stream that does not run is transparent.\<close>

definition sp_clean :: "'m stream_processor_scheme \<Rightarrow> bool" where
  "sp_clean s \<longleftrightarrow>
     (m_state s \<in> {ePS_Created, ePS_Stopped, ePS_WaitingForStream, ePS_DryRunning, ePS_WaitingForStreamEnable}
      \<longrightarrow> m_transparent (m_data_buffer s))"

lemma sp_inv_private: "same_private s s' \<Longrightarrow> sp_inv s \<Longrightarrow> sp_inv s'"
  by (simp add: sp_inv_def same_private_def)

lemma sp_clean_private: "same_private s s' \<Longrightarrow> sp_clean s \<Longrightarrow> sp_clean s'"
  by (simp add: sp_clean_def same_private_def)

lemma updates_documented: "updates s s' \<Longrightarrow> m_state s' = m_state s \<or> documented (m_state s) (m_state s')"
  by (auto simp: updates_def)

lemma updates_running:
  "updates s s' \<Longrightarrow> m_state s' = ePS_Running \<Longrightarrow> m_state s \<noteq> ePS_Running
   \<Longrightarrow> \<not> m_in_xrun s' \<and> \<not> m_transparent (m_data_buffer s')"
  by (auto simp: updates_def)

lemma updates_cases:
  assumes "updates s s'"
  obtains (stay) "same_private s s'"
  | (switch) "documented (m_state s) (m_state s')" and "m_state s' = m_next_state s" and "m_next_state s' = m_next_state s"
      and "m_transparent (m_data_buffer s') = (if m_state s' = ePS_Running then False
             else if m_state s' = ePS_Stopped \<or> m_state s' = ePS_DryRunning \<and> m_state s \<noteq> ePS_WaitingForStream
             then True else m_transparent (m_data_buffer s))"
      and "m_in_xrun s' = (m_in_xrun s \<and> m_state s' \<noteq> ePS_Running)"
proof (cases "same_private s s'")
  case False
  have *: "(P \<or> Q) \<Longrightarrow> \<not> P \<Longrightarrow> Q" for P Q by blast
  from assms have u: "m_processor_type s' = m_processor_type s" "m_next_state s' = m_next_state s"
    "m_cycle_to_switch_state s' = m_cycle_to_switch_state s"
    by (simp_all add: updates_def)
  note d = * [OF assms [unfolded updates_def, THEN conjunct2, THEN conjunct2, THEN conjunct2]]
  have "\<not> (m_state s' = m_state s \<and> m_in_xrun s' = m_in_xrun s
          \<and> m_transparent (m_data_buffer s') = m_transparent (m_data_buffer s))"
    using False u by (simp add: same_private_def)
  from d [OF this] show thesis using u(2) by (elim conjE) (rule switch)
qed (rule stay)

lemma updates_inv:
  assumes "updates s s'" and "sp_inv s"
  shows "sp_inv s'"
  using assms(1)
proof (cases rule: updates_cases)
  case stay
  then show ?thesis using assms(2) by (rule sp_inv_private)
next
  case switch
  then show ?thesis using assms(2) by (cases "m_state s") (auto simp: sp_inv_def)
qed

lemma updates_clean:
  assumes "updates s s'" and "sp_clean s"
  shows "sp_clean s'"
  using assms(1)
proof (cases rule: updates_cases)
  case stay
  then show ?thesis using assms(2) by (rule sp_clean_private)
next
  case switch
  then show ?thesis using assms(2) by (cases "m_state s") (auto simp: sp_clean_def)
qed

lemma updates_not_running: "updates s s' \<Longrightarrow> sp_inv s \<Longrightarrow> m_state s' = ePS_Running \<Longrightarrow> m_state s = ePS_Running"
  unfolding updates_def sp_inv_def by (cases "m_state s") auto

lemma data_rel_inv: "data_rel s s' \<Longrightarrow> sp_inv s \<Longrightarrow> sp_inv s'"
proof (cases "same_private s s'")
  case False
  assume "data_rel s s'" and inv: "sp_inv s"
  then have d: "m_next_state s' = ePS_WaitingForStreamDisable" "m_in_xrun s'"
    "m_transparent (m_data_buffer s') = m_transparent (m_data_buffer s)"
    "m_state s' = (if m_state s = ePS_Running then ePS_WaitingForStreamDisable else m_state s)"
    using False by (simp_all add: data_rel_def)
  show "sp_inv s'" using inv d by (cases "m_state s") (simp_all add: sp_inv_def)
qed (rule sp_inv_private)

lemma data_rel_xrun: "data_rel s s' \<Longrightarrow> m_in_xrun s \<Longrightarrow> m_in_xrun s'"
  by (auto simp: data_rel_def same_private_def)

lemma data_rel_clean: "data_rel s s' \<Longrightarrow> sp_clean s \<Longrightarrow> sp_clean s'"
  unfolding data_rel_def by (cases "m_state s = ePS_Running") (auto dest: sp_clean_private simp: sp_clean_def)

lemma data_rel_cases:
  assumes "data_rel s s'"
  obtains "m_state s' = m_state s"
  | "m_state s = ePS_Running" and "m_state s' = ePS_WaitingForStreamDisable" and "m_in_xrun s'"
  using assms same_privateD(2) [of s s'] unfolding data_rel_def by (auto split: if_splits)

text \<open>The switches the packet handlers ask for when the cycle is due.\<close>

lemma switches_inv:
  assumes "switches (s\<lparr>m_next_state := n\<rparr>) s'" and "sp_inv s"
    and "n = ePS_DryRunning \<and> (m_state s = ePS_WaitingForStream \<or> m_state s = ePS_WaitingForStreamDisable)
         \<or> n = ePS_Running \<and> m_state s = ePS_WaitingForStreamEnable"
  shows "sp_inv s'"
  using assms(3)
proof
  assume "n = ePS_DryRunning \<and> (m_state s = ePS_WaitingForStream \<or> m_state s = ePS_WaitingForStreamDisable)"
  then have "m_state s' = ePS_DryRunning" using assms(1) by (simp add: switches_def)
  then show ?thesis by (simp add: sp_inv_def)
next
  assume "n = ePS_Running \<and> m_state s = ePS_WaitingForStreamEnable"
  then have "m_state s' = ePS_Running" "\<not> m_in_xrun s'" "\<not> m_transparent (m_data_buffer s')"
    using assms(1) updates_running [of "s\<lparr>m_next_state := n\<rparr>" s'] by (simp_all add: switches_def)
  then show ?thesis by (simp add: sp_inv_def)
qed

lemma sp_clean_next [simp]: "sp_clean (s\<lparr>m_next_state := n\<rparr>) = sp_clean s"
  by (simp add: sp_clean_def)

lemma ok_rel_inv: "ok_rel ctr s s' \<Longrightarrow> sp_inv s \<Longrightarrow> sp_inv s'"
  unfolding ok_rel_def
  by (auto intro: updates_inv switches_inv data_rel_inv sp_inv_private split: if_splits)

lemma ok_rel_clean: "ok_rel ctr s s' \<Longrightarrow> sp_clean s \<Longrightarrow> sp_clean s'"
  unfolding ok_rel_def
  by (auto simp: switches_def dest: updates_clean [of "s\<lparr>m_next_state := ePS_DryRunning\<rparr>"]
      intro: updates_clean data_rel_clean sp_clean_private split: if_splits)

lemma header_rel_inv: "header_rel ctr s s' \<Longrightarrow> sp_inv s \<Longrightarrow> sp_inv s'"
  unfolding header_rel_def by (blast intro: ok_rel_inv data_rel_inv)

lemma header_rel_clean: "header_rel ctr s s' \<Longrightarrow> sp_clean s \<Longrightarrow> sp_clean s'"
  unfolding header_rel_def by (blast intro: ok_rel_clean data_rel_clean)

text \<open>The moves of the state, with the conditions on entering and leaving it.\<close>

definition moves :: "u32 \<Rightarrow> 'm stream_processor_scheme \<Rightarrow> 'm stream_processor_scheme \<Rightarrow> bool" where
  "moves ctr s s' \<longleftrightarrow>
     (m_state s' = m_state s \<or> documented (m_state s) (m_state s')
      \<or> m_state s = ePS_WaitingForStreamEnable \<and> m_state s' = ePS_WaitingForStreamDisable \<and> m_in_xrun s')
     \<and> (m_state s' = ePS_Running \<and> m_state s \<noteq> ePS_Running \<longrightarrow>
          m_state s = ePS_WaitingForStreamEnable \<and> m_next_state s = ePS_WaitingForStreamEnable \<and> cycle_due ctr s)
     \<and> (m_state s = ePS_Running \<and> m_state s' \<noteq> ePS_Running \<longrightarrow>
          m_next_state s = ePS_WaitingForStreamDisable \<or> m_in_xrun s')
     \<and> (m_state s' \<noteq> m_state s \<and> (m_state s = ePS_WaitingForStream \<or> m_state s = ePS_WaitingForStreamDisable)
          \<longrightarrow> cycle_due ctr s)"

lemma moves_same: "m_state s' = m_state s \<Longrightarrow> moves ctr s s'"
  by (simp add: moves_def)

lemma ok_rel_moves:
  assumes "ok_rel ctr s s'" and "sp_inv s" and "m_state s \<noteq> ePS_WaitingForStreamDisable"
  shows "moves ctr s s'"
proof (cases "m_state s = ePS_WaitingForStream")
  case True
  then consider "cycle_due ctr s" "switches (s\<lparr>m_next_state := ePS_DryRunning\<rparr>) s'"
    | t where "same_private s t" "data_rel t s'"
    using assms(1) by (auto simp: ok_rel_def)
  then show ?thesis
  proof cases
    case 1
    then show ?thesis using True by (auto simp: moves_def switches_def)
  next
    case (2 t)
    then have "m_state s' = m_state s" using True same_privateD(2) [OF 2(1)] by (auto elim: data_rel_cases)
    then show ?thesis by (rule moves_same)
  qed
next
  case False
  then obtain t where t: "updates s t" "data_rel t s'" using assms(1) by (auto simp: ok_rel_def)
  have "moves ctr s t" using t(1) assms(2,3) False by (cases "m_state s") (auto simp: updates_def moves_def sp_inv_def)
  with t(2) show ?thesis
    using updates_not_running [OF t(1) assms(2)] data_rel_xrun [OF t(2)] False assms(3)
    by (elim data_rel_cases) (auto simp: moves_def)
qed

lemma header_rel_moves:
  assumes "header_rel ctr s s'" and "sp_inv s" and "m_state s \<noteq> ePS_WaitingForStreamDisable"
  shows "moves ctr s s'"
proof -
  obtain t where t: "data_rel s t" "m_state s \<noteq> ePS_Running \<longrightarrow> same_private s t" "ok_rel ctr t s'"
    using assms(1) by (auto simp: header_rel_def)
  show ?thesis
  proof (cases "same_private s t")
    case True
    have "moves ctr t s'"
      using ok_rel_moves [OF t(3) sp_inv_private [OF True assms(2)]] assms(3) same_privateD [OF True] by simp
    then show ?thesis
      unfolding moves_def same_privateD [OF True] cycle_due_private [OF True] .
  next
    case False
    then have w: "m_state s = ePS_Running" "m_state t = ePS_WaitingForStreamDisable"
      "m_next_state t = ePS_WaitingForStreamDisable" "m_in_xrun t"
      using t(1,2) by (auto simp: data_rel_def)
    obtain u where u: "updates t u" "data_rel u s'" using t(3) w by (auto simp: ok_rel_def)
    have "m_state u = ePS_WaitingForStreamDisable" "m_in_xrun u" using u(1) w by (auto simp: updates_def)
    then have "m_state s' = ePS_WaitingForStreamDisable" "m_in_xrun s'"
      using u(2) data_rel_xrun [OF u(2)] by (auto elim: data_rel_cases)
    then show ?thesis using w by (simp add: moves_def)
  qed
qed

text \<open>All that the packet handlers guarantee for a processor that satisfies the invariant.\<close>

definition handled :: "u32 \<Rightarrow> 'm stream_processor_scheme \<Rightarrow> 'm stream_processor_scheme \<Rightarrow> bool" where
  "handled ctr s s' \<longleftrightarrow> sp_inv s' \<and> (sp_clean s \<longrightarrow> sp_clean s') \<and> moves ctr s s'
     \<and> m_processor_type s' = m_processor_type s"

lemma updates_type: "updates s s' \<Longrightarrow> m_processor_type s' = m_processor_type s"
  by (simp add: updates_def)

lemma data_rel_type: "data_rel s s' \<Longrightarrow> m_processor_type s' = m_processor_type s"
  by (auto simp: data_rel_def same_private_def)

lemma ok_rel_type: "ok_rel ctr s s' \<Longrightarrow> m_processor_type s' = m_processor_type s"
  unfolding ok_rel_def switches_def
  by (auto split: if_splits dest!: updates_type data_rel_type same_privateD(1))

lemma same_private_handled: "same_private s s' \<Longrightarrow> sp_inv s \<Longrightarrow> handled ctr s s'"
  by (simp add: handled_def sp_inv_private sp_clean_private moves_same same_privateD(1,2))

lemma ok_rel_handled:
  "ok_rel ctr s s' \<Longrightarrow> sp_inv s \<Longrightarrow> m_state s \<noteq> ePS_WaitingForStreamDisable \<Longrightarrow> handled ctr s s'"
  by (simp add: handled_def ok_rel_inv ok_rel_clean ok_rel_moves ok_rel_type)

lemma header_rel_handled:
  assumes "header_rel ctr s s'" and "sp_inv s" and "m_state s \<noteq> ePS_WaitingForStreamDisable"
  shows "handled ctr s s'"
  using header_rel_inv [OF assms(1,2)] header_rel_clean [OF assms(1)] header_rel_moves [OF assms] assms(1)
  by (auto simp: handled_def header_rel_def dest!: ok_rel_type data_rel_type)

lemma switches_handled:
  assumes "switches (s\<lparr>m_next_state := n\<rparr>) s'" and "sp_inv s" and "cycle_due ctr s"
    and "n = ePS_DryRunning \<and> (m_state s = ePS_WaitingForStream \<or> m_state s = ePS_WaitingForStreamDisable)
         \<or> n = ePS_Running \<and> m_state s = ePS_WaitingForStreamEnable \<and> m_next_state s = ePS_WaitingForStreamEnable"
  shows "handled ctr s s'"
proof -
  have "sp_clean s \<longrightarrow> sp_clean s'"
    using assms(1) updates_clean [of "s\<lparr>m_next_state := n\<rparr>" s'] by (simp add: switches_def)
  moreover have "moves ctr s s'" using assms(1,3,4) by (auto simp: moves_def switches_def)
  ultimately show ?thesis
    using assms switches_inv [OF assms(1,2)] updates_type [of "s\<lparr>m_next_state := n\<rparr>" s']
    by (auto simp: handled_def switches_def)
qed

text \<open>Two handled steps in a row where the first one enters \<open>ePS_Running\<close>.\<close>

lemma handled_running:
  assumes "switches (s\<lparr>m_next_state := ePS_Running\<rparr>) t" and "sp_inv s" and "cycle_due ctr s"
    and "m_state s = ePS_WaitingForStreamEnable" and "m_next_state s = ePS_WaitingForStreamEnable"
    and "header_rel ctr t s'"
  shows "handled ctr s s'"
proof -
  have t: "handled ctr s t" by (rule switches_handled [OF assms(1-3)]) (simp add: assms)
  have run: "m_state t = ePS_Running" "m_next_state t = ePS_Running"
    using assms(1) by (simp_all add: switches_def updates_def)
  have u: "handled ctr t s'" using header_rel_handled [OF assms(6)] t run by (simp add: handled_def)
  have "m_state s' = ePS_Running \<or> m_state s' = ePS_WaitingForStreamDisable \<and> m_in_xrun s'"
    using u run by (auto simp: handled_def moves_def)
  then have "moves ctr s s'" using assms by (auto simp: moves_def)
  then show ?thesis using t u by (simp add: handled_def)
qed

context sp_child_laws
begin

lemma updateState_switches:
  assumes "updateState e ch s = Some (ok, s')"
    and "m_next_state s = ePS_DryRunning \<and> (m_state s = ePS_WaitingForStream \<or> m_state s = ePS_WaitingForStreamDisable)
         \<or> m_next_state s = ePS_Running \<and> m_state s = ePS_WaitingForStreamEnable"
  shows "switches s s'"
  using updateState_updates(1) [OF assms(1)] updateState_reaches [OF assms] by (simp add: switches_def)

lemma putPacket_handled:
  assumes "sp_inv s"
  shows "ensures (putPacket e ch d n c tag sy ctr dr s) (handled ctr s)"
proof -
  let ?t = "s\<lparr>m_last_timestamp2 := m_last_timestamp s\<rparr>"
  have p: "same_private s ?t" by (simp add: same_private_def)
  have inv: "sp_inv ?t" by (rule sp_inv_private [OF p assms])
  have due: "cycle_due ctr ?t = cycle_due ctr s" by (rule cycle_due_private [OF p])
  have ret: "handled ctr s u" if "handled ctr ?t u" for u
    using that p by (simp add: handled_def moves_def sp_clean_def due)
  have sw: "switches (?t\<lparr>m_next_state := nx\<rparr>) u"
    if "updateState e ch (?t\<lparr>m_next_state := nx\<rparr>) = Some (ok, u)"
      and "nx = ePS_DryRunning \<and> m_state s = ePS_WaitingForStreamDisable
           \<or> nx = ePS_Running \<and> m_state s = ePS_WaitingForStreamEnable" for nx ok u
    using that(2) by (intro updateState_switches [OF that(1)]) auto
  have hdr: "ensures (putPacket_header e ch d n tag sy ctr dr u) (\<lambda>v. header_rel ctr u v)" for u
    by (rule putPacket_header_rel)
  consider (out) "m_state s = ePS_Created \<or> m_state s = ePS_Error \<or> m_state s = ePS_Invalid"
    | (disable) "m_state s = ePS_WaitingForStreamDisable"
    | (enable) "m_state s = ePS_WaitingForStreamEnable" "m_next_state s = ePS_WaitingForStreamEnable" "cycle_due ctr s"
    | (other) "m_state s \<notin> {ePS_Created, ePS_Error, ePS_Invalid, ePS_WaitingForStreamDisable}"
        "\<not> (m_state s = ePS_WaitingForStreamEnable \<and> m_next_state s = ePS_WaitingForStreamEnable \<and> cycle_due ctr s)"
    by auto
  then show ?thesis
  proof cases
    case out
    then show ?thesis using assms by (auto simp: putPacket_def sp_inv_def intro!: same_private_handled)
  next
    case disable
    have "handled ctr s u" if "updateState e ch (?t\<lparr>m_next_state := ePS_DryRunning\<rparr>) = Some (ok, u)" "cycle_due ctr s" for ok u
      using sw [OF that(1)] disable that(2) by (intro ret switches_handled [OF _ inv]) (auto simp: due)
    then show ?thesis
      using disable due ret same_private_handled [OF same_private_refl inv]
      by (auto simp: putPacket_def try_update_def Let_def intro!: ensures_bind)
  next
    case enable
    have "ensures (putPacket_header e ch d n tag sy ctr dr u) (handled ctr s)" and "handled ctr s u"
      if "updateState e ch (?t\<lparr>m_next_state := ePS_Running\<rparr>) = Some (ok, u)" for ok u
    proof -
      have u: "switches (?t\<lparr>m_next_state := ePS_Running\<rparr>) u" using sw [OF that] enable by simp
      show "ensures (putPacket_header e ch d n tag sy ctr dr u) (handled ctr s)"
        using enable by (intro ensures_mono [OF hdr] ret handled_running [OF u inv]) (simp_all add: due)
      show "handled ctr s u" using enable by (intro ret switches_handled [OF u inv]) (simp_all add: due)
    qed
    then show ?thesis using enable due by (auto simp: putPacket_def try_update_def Let_def intro!: ensures_bind)
  next
    case other
    have "ensures (putPacket_header e ch d n tag sy ctr dr ?t) (handled ctr s)"
      using other by (intro ensures_mono [OF hdr] ret header_rel_handled [OF _ inv]) auto
    then show ?thesis using other due by (auto simp: putPacket_def Let_def)
  qed
qed

end

lemma documented_irrefl: "\<not> documented s s"
  by (cases s) simp_all

lemma updates_private_right:
  assumes "updates s t" and "same_private t u"
  shows "updates s u"
  using assms(1) unfolding updates_def same_privateD [OF assms(2)] .

lemma data_rel_private_right:
  assumes "data_rel s t" and "same_private t u"
  shows "data_rel s u"
  using assms(1) same_private_trans [OF _ assms(2), of s] unfolding data_rel_def same_privateD [OF assms(2)] by blast

context sp_child_laws
begin

lemma fill_empty_private:
  "ensures (do { (_, x, s) \<leftarrow> generateEmptyPacketHeader ch x ctr s; (_, x, s) \<leftarrow> generateEmptyPacketData ch x s;
                 Some (d, x, s) }) (same_private s)"
  by (auto intro!: ensures_bind3 dest!: keeps_private3D [OF empty_header] keeps_private3D [OF empty_data]
      intro: same_private_trans)

text \<open>An empty packet carries out a pending request; without one it changes nothing.\<close>

lemma send_empty_updates: "ensures (send_empty_packet e ch x ctr s) (updates s)"
proof (cases "m_state s = m_next_state s")
  case True
  then show ?thesis
    by (simp add: send_empty_packet_def ensures_mono [OF fill_empty_private] same_private_updates)
next
  case False
  have "ensures (do { (_, x, s) \<leftarrow> generateEmptyPacketHeader ch x ctr t; (_, x, s) \<leftarrow> generateEmptyPacketData ch x s;
                 Some (RAW1394_ISO_OK, x, s) }) (updates s)" if "updates s t" for t
    by (rule ensures_mono [OF fill_empty_private]) (rule updates_private_right [OF that])
  then show ?thesis
    using False updateState_updates(1) [of e s]
    by (auto simp: send_empty_packet_def try_update_def intro!: ensures_bind)
qed

lemma send_empty_private: "m_state s = m_next_state s \<Longrightarrow> ensures (send_empty_packet e ch x ctr s) (same_private s)"
  using fill_empty_private by (simp add: send_empty_packet_def)

lemma getPacket_silent_updates: "ensures (getPacket_silent e ch x ctr s) (updates s)"
  unfolding getPacket_silent_def
proof (rule ensures_bind3, simp only: prod.case)
  fix r y t
  assume "generateSilentPacketHeader ch x ctr s = Some (r, y, t)"
  then have t: "same_private s t" by (rule keeps_private3D [OF silent_header])
  have "ensures (do { (_, x, s) \<leftarrow> generateSilentPacketData ch y t; Some (RAW1394_ISO_OK, x, s) }) (updates s)"
    using t by (auto intro!: ensures_bind3 same_private_updates dest!: keeps_private3D [OF silent_data]
        intro: same_private_trans)
  moreover have "ensures (send_empty_packet e ch y ctr t) (updates s)"
    by (rule ensures_mono [OF send_empty_updates]) (rule updates_private [OF t])
  ultimately show "ensures (if r = eCRV_Packet then
         do { (_, x, s) \<leftarrow> generateSilentPacketData ch y t; Some (RAW1394_ISO_OK, x, s) }
       else if r = eCRV_EmptyPacket then send_empty_packet e ch y ctr t
       else Some (RAW1394_ISO_ERROR, y, t)) (updates s)"
    using same_private_updates [OF t] by simp
qed

lemma getPacket_silent_private:
  assumes "m_state s = m_next_state s"
  shows "ensures (getPacket_silent e ch x ctr s) (same_private s)"
  using getPacket_silent_updates
  by (rule ensures_mono) (use assms in \<open>auto elim!: updates_cases simp: documented_irrefl\<close>)

end

context sp_child_laws
begin

lemma xmit_xrun_data_rel:
  assumes "same_private s t"
  shows "ensures (xmit_xrun e ch x ctr t) (data_rel s)"
proof -
  let ?t = "t\<lparr>m_in_xrun := True, m_cycle_to_switch_state := pkt_cycles ctr + 1,
              m_next_state := ePS_WaitingForStreamDisable\<rparr>"
  have "ensures (send_empty_packet e ch x ctr u) (data_rel s)" if "updateState e ch ?t = Some (True, u)" for u
  proof -
    have "m_state u = m_next_state ?t" "m_next_state u = m_next_state ?t"
      using updateState_updates [OF that] by (simp_all add: updates_def)
    then have "ensures (send_empty_packet e ch x ctr u) (same_private u)" by (intro send_empty_private) simp
    then show ?thesis by (rule ensures_mono) (rule data_rel_private_right [OF xrun_data_rel [OF assms that]])
  qed
  then show ?thesis
    using xrun_data_rel [OF assms] by (auto simp: xmit_xrun_def try_update_def intro!: ensures_bind)
qed

lemma getPacket_data_rel: "ensures (getPacket_data e ch r x ctr s) (data_rel s)"
  unfolding getPacket_data_def
  by (rule ensures_bind3)
    (auto simp: data_rel_def intro!: ensures_mono [OF xmit_xrun_data_rel] dest!: keeps_private3D [OF xmit_data])

lemma getPacket_running_rel:
  assumes "m_state s = ePS_Running"
  shows "ensures (getPacket_running e ch x ctr s) (ok_rel ctr s)"
  unfolding getPacket_running_def Let_def
proof (rule ensures_bind3, simp only: prod.case)
  fix r y t
  assume "generatePacketHeader ch x ctr s = Some (r, y, t)"
  then have t: "same_private s t" by (rule keeps_private3D [OF xmit_header])
  let ?t = "t\<lparr>m_last_timestamp2 := m_last_timestamp s\<rparr>"
  have t2: "same_private s ?t" using t by (simp add: same_private_def)
  have ok: "ok_rel ctr s v" if "updates s u" "data_rel u v" for u v
    using that assms by (auto simp: ok_rel_def)
  have upd: "ensures (if m_state w \<noteq> m_next_state w then try_update e ch w k y else k w) (ok_rel ctr s)"
    if "same_private s w" and "\<And>u. updates s u \<Longrightarrow> m_state u = m_next_state u \<Longrightarrow> ensures (k u) (\<lambda>v. ok_rel ctr s v)" for w k
  proof (cases "m_state w = m_next_state w")
    case True
    then show ?thesis using that same_private_updates [OF that(1)] by simp
  next
    case False
    have "updates s u \<and> (okk \<longrightarrow> m_state u = m_next_state u)" if "updateState e ch w = Some (okk, u)" for okk u
    proof -
      have "updates w u" and "okk \<Longrightarrow> m_state u = m_next_state w" by (rule updateState_updates [OF that])+
      moreover from \<open>updates w u\<close> have "m_next_state u = m_next_state w" by (simp add: updates_def)
      ultimately show ?thesis using updates_private [OF \<open>same_private s w\<close>, of u] by simp
    qed
    then show ?thesis
      using False that ok [OF _ data_rel_refl] by (auto simp: try_update_def intro!: ensures_bind)
  qed
  have data: "ensures (getPacket_data e ch r y ctr u) (ok_rel ctr s)"
    if "updates s u" "m_state u = m_next_state u" for u
    by (rule ensures_mono [OF getPacket_data_rel]) (rule ok [OF that(1)])
  have priv: "ok_rel ctr s v" if "updates s u" "same_private u v" for u v
    by (rule ok [OF updates_private_right [OF that] data_rel_refl])
  have empty: "ensures (send_empty_packet e ch y ctr u) (ok_rel ctr s)"
    if "updates s u" "m_state u = m_next_state u" for u
    by (rule ensures_mono [OF send_empty_private [OF that(2)]]) (rule priv [OF that(1)])
  have again: "ensures (do { (_, x, s) \<leftarrow> generateEmptyPacketHeader ch y ctr u;
                             (_, x, s) \<leftarrow> generateEmptyPacketData ch x s;
                             Some (RAW1394_ISO_DEFER, x, s) }) (ok_rel ctr s)"
    if "updates s u" "m_state u = m_next_state u" for u
    by (rule ensures_mono [OF fill_empty_private]) (rule priv [OF that(1)])
  have xrun: "ensures (xmit_xrun e ch y ctr t) (ok_rel ctr s)"
    by (rule ensures_mono [OF xmit_xrun_data_rel [OF t]]) (rule ok [OF updates_refl])
  show "ensures (if r = eCRV_Packet \<or> r = eCRV_Defer then
         (if m_state ?t \<noteq> m_next_state ?t then try_update e ch ?t (getPacket_data e ch r y ctr) y
          else getPacket_data e ch r y ctr ?t)
       else if r = eCRV_XRun then xmit_xrun e ch y ctr t
       else if r = eCRV_EmptyPacket then
         (if m_state t \<noteq> m_next_state t then try_update e ch t (send_empty_packet e ch y ctr) y
          else send_empty_packet e ch y ctr t)
       else if r = eCRV_Again then
         (if m_state t \<noteq> m_next_state t then try_update e ch t
            (\<lambda>s. do { (_, x, s) \<leftarrow> generateEmptyPacketHeader ch y ctr s;
                      (_, x, s) \<leftarrow> generateEmptyPacketData ch x s; Some (RAW1394_ISO_DEFER, x, s) }) y
          else do { (_, x, s) \<leftarrow> generateEmptyPacketHeader ch y ctr t;
                    (_, x, s) \<leftarrow> generateEmptyPacketData ch x s; Some (RAW1394_ISO_DEFER, x, s) })
       else Some (RAW1394_ISO_ERROR, y, t)) (ok_rel ctr s)"
    by (rule ensures_if, rule upd [OF t2 data], assumption, assumption, rule ensures_if, rule xrun,
        rule ensures_if, rule upd [OF t empty], assumption, assumption, rule ensures_if,
        rule upd [OF t again], assumption, assumption, simp add: priv [OF updates_refl t])
qed

end

lemma updates_handled:
  assumes "updates s s'" and "sp_inv s" and "m_state s \<noteq> ePS_WaitingForStream"
  shows "handled ctr s s'"
  using assms(1)
proof (cases rule: updates_cases)
  case stay
  then show ?thesis using assms(2) by (rule same_private_handled)
next
  case switch
  then have "moves ctr s s'" using assms(2) by (cases "m_state s") (auto simp: moves_def sp_inv_def)
  then show ?thesis using assms by (simp add: handled_def updates_inv updates_clean updates_type)
qed

lemma updates_handled_waiting:
  assumes "updates s s'" and "sp_inv s" and "m_state s = ePS_WaitingForStream"
  shows "handled ctr s s'"
  using assms(1)
proof (cases rule: updates_cases)
  case stay
  then show ?thesis using assms(2) by (rule same_private_handled)
next
  case switch
  then show ?thesis using assms(2,3) by (simp add: sp_inv_def)
qed

lemma handled_xrun:
  assumes "handled ctr (s\<lparr>m_in_xrun := x\<rparr>) s'"
  shows "handled ctr s s'"
  using assms by (simp add: handled_def moves_def sp_clean_def cycle_due_def)

context sp_child_laws
begin

text \<open>A synchronized switch of the transmit side, followed by a part that changes nothing more.\<close>

lemma xmit_switch_handled:
  assumes "sp_inv s" and "cycle_due ctr s"
    and "n = ePS_DryRunning \<and> (m_state s = ePS_WaitingForStream \<or> m_state s = ePS_WaitingForStreamDisable)
         \<or> n = ePS_Running \<and> m_state s = ePS_WaitingForStreamEnable \<and> m_next_state s = ePS_WaitingForStreamEnable"
    and k: "\<And>u. m_state u = m_next_state u \<Longrightarrow> ensures (k u) (same_private u)"
  shows "ensures (try_update e ch (s\<lparr>m_next_state := n\<rparr>) k x) (handled ctr s)"
  unfolding try_update_def
proof (rule ensures_bind, simp only: prod.case, rule ensures_if)
  fix ok u
  assume u: "updateState e ch (s\<lparr>m_next_state := n\<rparr>) = Some (ok, u)"
  have sw: "switches (s\<lparr>m_next_state := n\<rparr>) u" using assms(3) by (intro updateState_switches [OF u]) auto
  then have h: "handled ctr s u" by (rule switches_handled [OF _ assms(1-3)])
  show "ensures (Some (RAW1394_ISO_ERROR, x, u)) (handled ctr s)" using h by simp
  have "m_state u = m_next_state u" using sw by (simp add: switches_def updates_def)
  from k [OF this] show "ensures (k u) (handled ctr s)"
  proof (rule ensures_mono)
    fix v
    assume v: "same_private u v"
    then show "handled ctr s v"
      using h sp_inv_private [OF v] sp_clean_private [OF v] same_privateD [OF v] by (simp add: handled_def moves_def)
  qed
qed

lemma getPacket_handled:
  assumes "sp_inv s"
  shows "ensures (getPacket e ch x ctr dr s) (handled ctr s)"
proof -
  define t where "t = (if dr > 0 then s\<lparr>m_in_xrun := True\<rparr> else s)"
  have st: "m_state t = m_state s" "m_next_state t = m_next_state s" by (simp_all add: t_def)
  show ?thesis
  proof (cases "m_state s = ePS_Running")
    case True
    have ok: "handled ctr s u" if "ok_rel ctr s u" for u using ok_rel_handled [OF that assms] True by simp
    have "ensures (xmit_xrun e ch x ctr s) (handled ctr s)"
      by (rule ensures_mono [OF xmit_xrun_data_rel [OF same_private_refl]])
        (rule ok, use True in \<open>auto simp: ok_rel_def\<close>)
    moreover have "xmit_xrun e ch x ctr (s\<lparr>m_in_xrun := True\<rparr>) = xmit_xrun e ch x ctr s"
      by (simp add: xmit_xrun_def)
    moreover have "ensures (getPacket_running e ch x ctr s) (handled ctr s)"
      by (rule ensures_mono [OF getPacket_running_rel [OF True]]) (rule ok)
    ultimately show ?thesis
      using True same_private_handled [OF same_private_refl assms] by (auto simp: getPacket_def Let_def)
  next
    case False
    have inv: "sp_inv t" using assms False by (simp add: t_def sp_inv_def)
    have ret: "handled ctr s u" if "handled ctr t u" for u
      using that handled_xrun [where s = s and x = True] by (simp add: t_def split: if_splits)
    have keep: "handled ctr s t" by (rule ret [OF same_private_handled [OF same_private_refl inv]])
    have keep_s: "handled ctr s s" by (rule same_private_handled [OF same_private_refl assms])
    have upd: "handled ctr s u" if "updates t u" for u
      using updates_handled [OF that inv] updates_handled_waiting [OF that inv] ret by blast
    have empty: "ensures (send_empty_packet e ch x ctr t) (handled ctr s)"
      by (rule ensures_mono [OF send_empty_updates]) (rule upd)
    have silent: "ensures (getPacket_silent e ch x ctr t) (handled ctr s)"
      by (rule ensures_mono [OF getPacket_silent_updates]) (rule upd)
    have sw: "ensures (try_update e ch (t\<lparr>m_next_state := n\<rparr>) k x) (handled ctr s)"
      if "cycle_due ctr t" and "n = ePS_DryRunning \<and> (m_state t = ePS_WaitingForStream \<or> m_state t = ePS_WaitingForStreamDisable)
         \<or> n = ePS_Running \<and> m_state t = ePS_WaitingForStreamEnable \<and> m_next_state t = ePS_WaitingForStreamEnable"
        and "\<And>u. m_state u = m_next_state u \<Longrightarrow> ensures (k u) (same_private u)" for n k
      by (rule ensures_mono [OF xmit_switch_handled [OF inv that]]) (assumption | rule ret)+
    have "getPacket e ch x ctr dr s =
      (if ctr = 0xFFFFFFFF then Some (RAW1394_ISO_OK, x\<lparr>x_tag := 0, x_sy := 0, x_length := 0\<rparr>, s)
       else if m_state s = ePS_Error then Some (RAW1394_ISO_OK, x, s)
       else if debug_build e \<and> m_state t = ePS_Invalid then Some (RAW1394_ISO_ERROR, x, t)
       else if m_state t = ePS_Created then Some (RAW1394_ISO_DEFER, x\<lparr>x_tag := 0, x_sy := 0, x_length := 0\<rparr>, t)
       else if m_state t = ePS_WaitingForStreamDisable then
         if cycle_due ctr t
         then try_update e ch (t\<lparr>m_next_state := ePS_DryRunning\<rparr>) (getPacket_silent e ch x ctr) x
         else getPacket_silent e ch x ctr t
       else if m_state t = ePS_WaitingForStreamEnable \<and> m_next_state t = ePS_WaitingForStreamEnable then
         if cycle_due ctr t
         then try_update e ch (t\<lparr>m_next_state := ePS_Running\<rparr>) (send_empty_packet e ch x ctr) x
         else send_empty_packet e ch x ctr t
       else if m_state t = ePS_WaitingForStream then
         if cycle_due ctr t
         then try_update e ch (t\<lparr>m_next_state := ePS_DryRunning\<rparr>) (send_empty_packet e ch x ctr) x
         else send_empty_packet e ch x ctr t
       else send_empty_packet e ch x ctr t)"
      using False st unfolding getPacket_def Let_def t_def by simp
    then show ?thesis
      using keep keep_s empty silent sw [OF _ _ getPacket_silent_private] sw [OF _ _ send_empty_private]
      by (simp split del: if_split) (intro ensures_if; simp)
  qed
qed

end

section \<open>The other operations\<close>

text \<open>What the callbacks of the data buffer preserve, block processing preserves.\<close>

lemma read_blocks_preserves:
  assumes "read_blocks f nb cl bl bytes rb c = Some y" and "\<And>c d n off. I c \<Longrightarrow> I (snd (f c d n off))" and "I c"
  shows "I (snd (snd y))"
proof -
  have "(\<forall>c d n off. I c \<longrightarrow> I (snd (f c d n off))) \<longrightarrow> I c \<longrightarrow> I (snd (snd y))"
    using assms(1)
    by (rule read_blocks.raw_induct [where P = "\<lambda>f nb cl bl bytes rb c y.
          (\<forall>c d n off. I c \<longrightarrow> I (snd (f c d n off))) \<longrightarrow> I c \<longrightarrow> I (snd (snd y))", rotated])
      (auto simp: Let_def split: if_splits)
  then show ?thesis using assms(2,3) by blast
qed

lemma write_blocks_preserves:
  assumes "write_blocks f nb cl bl bytes rb c = Some y" and "\<And>c n off. I c \<Longrightarrow> I (snd (snd (f c n off)))" and "I c"
  shows "I (snd (snd y))"
proof -
  have "(\<forall>c n off. I c \<longrightarrow> I (snd (snd (f c n off)))) \<longrightarrow> I c \<longrightarrow> I (snd (snd y))"
    using assms(1)
    by (rule write_blocks.raw_induct [where P = "\<lambda>f nb cl bl bytes rb c y.
          (\<forall>c n off. I c \<longrightarrow> I (snd (snd (f c n off)))) \<longrightarrow> I c \<longrightarrow> I (snd (snd y))", rotated])
      (auto simp: Let_def split: if_splits)
  then show ?thesis using assms(2,3) by blast
qed

definition client_inv :: "'m stream_processor_scheme \<Rightarrow> 'm stream_processor_scheme option \<Rightarrow> bool" where
  "client_inv s c \<longleftrightarrow> (case c of None \<Rightarrow> True | Some t \<Rightarrow> same_private s t)"

context sp_child_laws
begin

lemma client_inv_read: "client_inv s c \<Longrightarrow> client_inv s (snd (read_client ch c d n off))"
  by (auto simp: client_inv_def read_client_def split: option.splits prod.splits
      dest!: keeps_privateD [OF read_block] intro: same_private_trans)

lemma client_inv_write: "client_inv s c \<Longrightarrow> client_inv s (snd (snd (write_client ch c n off)))"
  by (auto simp: client_inv_def write_client_def split: option.splits prod.splits
      dest!: keeps_private3D [OF write_block] intro: same_private_trans)

lemma getFramesWet_private:
  assumes "getFramesWet e ch n ts s = Some (r, s')"
  shows "same_private s s'"
proof -
  obtain ok b t where b: "blockProcessReadFrames (read_client ch) (m_data_buffer s) (Some s) n = Some (ok, b, Some t)"
    and s': "s' = t\<lparr>m_data_buffer := b\<rparr>"
    using assms by (auto simp: getFramesWet_def bind_eq_Some_conv split: if_splits)
  have "client_inv s (Some t)"
    using b client_inv_read read_blocks_preserves [where I = "client_inv s" and c = "Some s"]
    by (fastforce simp: blockProcessReadFrames_def bind_eq_Some_conv Let_def client_inv_def [of s "Some s"]
        split: option.splits if_splits)
  then show ?thesis
    using s' blockProcess_transparent(2) [OF b] by (simp add: client_inv_def same_private_def)
qed

lemma putFramesWet_private:
  assumes "putFramesWet e ch n ts s = Some (r, s')"
  shows "same_private s s'"
proof -
  obtain ok b t q where b: "blockProcessWriteFrames (fpa e) (write_client ch) (m_data_buffer s) (Some s) n q = Some (ok, b, Some t)"
    and s': "s' = t\<lparr>m_data_buffer := b\<rparr>"
    using assms by (auto simp: putFramesWet_def bind_eq_Some_conv)
  have "client_inv s (Some t)"
    using b client_inv_write write_blocks_preserves [where I = "client_inv s" and c = "Some s"]
    by (fastforce simp: blockProcessWriteFrames_def bind_eq_Some_conv Let_def client_inv_def [of s "Some s"]
        split: option.splits if_splits)
  then show ?thesis
    using s' blockProcess_transparent(1) [OF b] by (simp add: client_inv_def same_private_def)
qed

lemma getFrames_private:
  assumes "getFrames e ch n ts s = Some (r, s')"
  shows "same_private s s'"
  using assms getFramesWet_private [of e n ts s r s']
  by (auto simp: getFrames_def getFramesDry_def provideSilenceBlock_def bind_eq_Some_conv same_private_def split: if_splits)

lemma putFrames_private:
  assumes "putFrames e ch n ts s = Some (r, s')"
  shows "same_private s s'"
  using assms putFramesWet_private [of e n ts s r s'] by (auto simp: putFrames_def putFramesDry_def split: if_splits)

lemma putSilenceFrames_private:
  assumes "putSilenceFrames e ch n ts s = Some (r, s')"
  shows "same_private s s'"
proof -
  obtain sc ok sc' t where t: "transmitSilenceBlock ch sc n 0 s = Some (ok, sc', t)"
    and rest: "s' = t\<lparr>m_scratch_buffer := Some sc'\<rparr>
       \<or> (\<exists>b q. writeFrames (fpa e) (m_data_buffer t) n sc' q = Some (r, b)
                \<and> s' = t\<lparr>m_scratch_buffer := Some sc', m_data_buffer := b\<rparr>)"
    using assms
    by (simp add: putSilenceFrames_def Let_def bind_eq_Some_conv on_buffer_def split: if_splits) blast+
  have "same_private t s'"
    using rest by (auto simp: same_private_def dest!: writeFrames_transparent)
  then show ?thesis by (rule same_private_trans [OF keeps_private3D [OF silence_block t]])
qed

end

lemma sp_dropFrames_private: "sp_dropFrames n ts s = Some (r, s') \<Longrightarrow> same_private s s'"
  by (auto simp: sp_dropFrames_def on_buffer_def same_private_def dest!: dropFrames_transparent)

lemma shiftStream_private: "shiftStream n s = Some (r, s') \<Longrightarrow> same_private s s'"
  by (auto simp: shiftStream_def on_buffer_def same_private_def dest!: dropFrames_transparent split: if_splits)

lemma setters_private [simp]:
  "same_private s (sp_setBufferTailTimestamp e ts s)"
  "same_private s (sp_setBufferHeadTimestamp e ts s)"
  "same_private s (setExtraBufferFrames k s)"
  "same_private s (setTicksPerFrame e q s)"
  "same_private s (snd (setDllBandwidth q s))"
  "same_private s (snd (setChannel i s))"
  "same_private s (s\<lparr>m_Ports := ps\<rparr>)"
  "same_private s (s\<lparr>m_UpdateHandlers := hs\<rparr>)"
  by (simp_all add: same_private_def sp_setBufferTailTimestamp_def sp_setBufferHeadTimestamp_def
      setExtraBufferFrames_def setTicksPerFrame_def setDllBandwidth_def setChannel_def)

context sp_child_laws
begin

lemma periodSizeChanged_updates:
  assumes "periodSizeChanged e ch n s = Some (r, s')"
  shows "updates s s'"
proof -
  define size where "size = n * getEventsPerFrame ch s * getEventSize ch s"
  define ps where "ps = for_ports (\<lambda>p. Port_setBufferSize p (m_period (spm e))) (m_Ports s)"
  define t where "t = s\<lparr>m_scratch_buffer_size_bytes := ucast size,
                        m_scratch_buffer := Some (map (fresh e) [0..<unat size]), m_Ports := snd ps\<rparr>"
  have t: "same_private s t" by (simp add: t_def same_private_def)
  have "s' = s \<or> s' = t \<or> (\<exists>q u. setupDataBuffer e ch t = Some (q, u)
          \<and> (if \<not> q then Some (False, u) else updateState e ch u) = Some (r, s'))"
    using assms unfolding periodSizeChanged_def Let_def size_def [symmetric]
    by (auto simp: split_beta bind_eq_Some_conv t_def ps_def split: if_splits)
  moreover have "updates s s'" if "setupDataBuffer e ch t = Some (q, u)"
    "(if \<not> q then Some (False, u) else updateState e ch u) = Some (r, s')" for q u
  proof -
    note su = same_private_trans [OF t setupDataBuffer_private [OF that(1)]]
    have "s' = u \<or> updates u s'" using that(2) updateState_updates(1) [of e u r s'] by (auto split: if_splits)
    then show ?thesis using same_private_updates [OF su] updates_private [OF su] by blast
  qed
  ultimately show ?thesis using same_private_updates [OF t] by blast
qed

lemma sp_prepare_inv:
  assumes "sp_prepare e ch s = Some (r, s')" and "sp_inv s"
  shows "sp_inv s'" and "sp_clean s \<Longrightarrow> sp_clean s'"
proof -
  obtain ok t where t: "periodSizeChanged e ch (m_period (spm e)) s = Some (ok, t)"
    using assms(1) by (auto simp: sp_prepare_def bind_eq_Some_conv)
  note u = periodSizeChanged_updates [OF t]
  let ?i = "snd (initPorts t)"
  have "sp_inv s' \<and> (sp_clean s \<longrightarrow> sp_clean s')"
  proof (cases "ok \<and> fst (initPorts t)")
    case False
    then have "s' = t \<or> s' = ?i" using assms(1) t by (auto simp: sp_prepare_def split: prod.splits if_splits)
    then show ?thesis
      using updates_inv [OF u assms(2)] updates_clean [OF u] sp_inv_private [OF initPorts_private]
        sp_clean_private [OF initPorts_private] by blast
  next
    case True
    then obtain ok2 w where w: "prepareChild ch ?i = Some (ok2, w)"
      and rest: "(if \<not> ok2 then Some (False, w) else updateState e ch (w\<lparr>m_next_state := ePS_Stopped\<rparr>)) = Some (r, s')"
      using assms(1) t by (auto simp: sp_prepare_def bind_eq_Some_conv split: prod.splits if_splits)
    have tw: "same_private t w"
      by (rule same_private_trans [OF initPorts_private keeps_privateD [OF prepare_child w]])
    have inv: "sp_inv w" by (rule sp_inv_private [OF tw updates_inv [OF u assms(2)]])
    have clean: "sp_clean s \<Longrightarrow> sp_clean w" by (rule sp_clean_private [OF tw updates_clean [OF u]])
    have "sp_inv (w\<lparr>m_next_state := ePS_Stopped\<rparr>)" using inv by (simp add: sp_inv_def)
    then show ?thesis
      using rest inv clean updateState_updates(1) [of e "w\<lparr>m_next_state := ePS_Stopped\<rparr>" r s']
        updates_inv [of "w\<lparr>m_next_state := ePS_Stopped\<rparr>" s'] updates_clean [of "w\<lparr>m_next_state := ePS_Stopped\<rparr>" s']
      by (auto split: if_splits)
  qed
  then show "sp_inv s'" and "sp_clean s \<Longrightarrow> sp_clean s'" by blast+
qed

end

section \<open>Reachable states\<close>

text \<open>
  The steps of a processor: calls of its methods by the packet threads, the client and the
  manager, in any order and with any arguments. The environment may change from step to step; the
  methods of the subclass depend on it.
\<close>

inductive sp_step ::
  "(sp_env \<Rightarrow> 'm stream_processor_scheme sp_child) \<Rightarrow> 'm stream_processor_scheme \<Rightarrow> 'm stream_processor_scheme \<Rightarrow> bool"
  for ch where
  put: "putPacket e (ch e) d n c tag sy ctr dr s = Some (r, u, s') \<Longrightarrow> sp_step ch s s'"
| get: "getPacket e (ch e) x ctr dr s = Some (r, x', s') \<Longrightarrow> sp_step ch s s'"
| init: "sp_step ch s (snd (sp_init reg s))"
| prepare: "sp_prepare e (ch e) s = Some (r, s') \<Longrightarrow> sp_step ch s s'"
| period: "periodSizeChanged e (ch e) n s = Some (r, s') \<Longrightarrow> sp_step ch s s'"
| start_dry: "sp_step ch s (snd (scheduleStartDryRunning e t s))"
| start: "sp_step ch s (snd (scheduleStartRunning e t s))"
| stop_dry: "sp_step ch s (snd (scheduleStopDryRunning e t s))"
| stop: "sp_step ch s (snd (scheduleStopRunning e t s))"
| get_frames: "getFrames e (ch e) n ts s = Some (r, s') \<Longrightarrow> sp_step ch s s'"
| put_frames: "putFrames e (ch e) n ts s = Some (r, s') \<Longrightarrow> sp_step ch s s'"
| drop_frames: "sp_dropFrames n ts s = Some (r, s') \<Longrightarrow> sp_step ch s s'"
| silence: "putSilenceFrames e (ch e) n ts s = Some (r, s') \<Longrightarrow> sp_step ch s s'"
| shift: "shiftStream i s = Some (r, s') \<Longrightarrow> sp_step ch s s'"
| tail: "sp_step ch s (sp_setBufferTailTimestamp e q s)"
| head: "sp_step ch s (sp_setBufferHeadTimestamp e q s)"
| extra: "sp_step ch s (setExtraBufferFrames k s)"
| rate: "sp_step ch s (setTicksPerFrame e q s)"
| bandwidth: "sp_step ch s (snd (setDllBandwidth q s))"
| channel: "sp_step ch s (snd (setChannel i s))"
| ports: "sp_step ch s (s\<lparr>m_Ports := ps\<rparr>)"
| handlers: "sp_step ch s (s\<lparr>m_UpdateHandlers := hs\<rparr>)"

text \<open>The failures the handler manager reports.\<close>

inductive sp_fail :: "'m stream_processor_scheme \<Rightarrow> 'm stream_processor_scheme \<Rightarrow> bool" where
  died: "sp_fail s (handlerDied s)"
| stopped: "sp_fail s (packetsStopped s)"
| bus_reset: "sp_fail s (snd (handleBusReset handleBusResetDo s))"

inductive_cases sp_failE: "sp_fail s s'"

definition sp_initial :: "'m stream_processor_scheme \<Rightarrow> bool" where
  "sp_initial s \<longleftrightarrow> m_state s = ePS_Created \<and> m_next_state s = ePS_Invalid \<and> \<not> m_in_xrun s
     \<and> m_transparent (m_data_buffer s)"

lemma sp_initial_new: "sp_initial (StreamProcessor_new fp type)"
  by (simp add: sp_initial_def StreamProcessor_new_def TimestampedBuffer_new_def)

inductive sp_reach :: "(sp_env \<Rightarrow> 'm stream_processor_scheme sp_child) \<Rightarrow> bool \<Rightarrow> 'm stream_processor_scheme \<Rightarrow> bool"
  for ch and failures where
  initial: "sp_initial s \<Longrightarrow> sp_reach ch failures s"
| step: "sp_reach ch failures s \<Longrightarrow> sp_step ch s s' \<Longrightarrow> sp_reach ch failures s'"
| fail: "failures \<Longrightarrow> sp_reach ch failures s \<Longrightarrow> sp_fail s s' \<Longrightarrow> sp_reach ch failures s'"

lemma schedule_inv:
  assumes "sp_inv s"
  shows "sp_inv (snd (scheduleStartDryRunning e t s))" and "sp_inv (snd (scheduleStartRunning e t s))"
    and "sp_inv (snd (scheduleStopDryRunning e t s))" and "sp_inv (snd (scheduleStopRunning e t s))"
    and "sp_inv (snd (sp_init reg s))"
  using assms
  by (auto simp: scheduleStartDryRunning_def scheduleStartRunning_def scheduleStopDryRunning_def scheduleStopRunning_def
      scheduleStateTransition_def sp_init_def sp_inv_def Let_def)

lemma schedule_clean:
  assumes "sp_clean s"
  shows "sp_clean (snd (scheduleStartDryRunning e t s))" and "sp_clean (snd (scheduleStartRunning e t s))"
    and "sp_clean (snd (scheduleStopDryRunning e t s))" and "sp_clean (snd (scheduleStopRunning e t s))"
    and "sp_clean (snd (sp_init reg s))"
  using assms
  by (auto simp: scheduleStartDryRunning_def scheduleStartRunning_def scheduleStopDryRunning_def scheduleStopRunning_def
      scheduleStateTransition_def sp_init_def sp_clean_def Let_def)

text \<open>The contract of a subclass in every environment.\<close>

locale sp_child_family =
  fixes ch :: "sp_env \<Rightarrow> 'm stream_processor_scheme sp_child"
  assumes child: "sp_child_laws (ch e)"
begin

lemma step_inv:
  assumes "sp_step ch s s'" and "sp_inv s"
  shows "sp_inv s' \<and> (sp_clean s \<longrightarrow> sp_clean s')"
  using assms(1)
proof cases
  case (put e d n c tag sy ctr dr r u)
  then show ?thesis using ensuresD [OF sp_child_laws.putPacket_handled [OF child assms(2)]] by (simp add: handled_def)
next
  case (get e x ctr dr r x')
  then show ?thesis using ensuresD [OF sp_child_laws.getPacket_handled [OF child assms(2)]] by (simp add: handled_def)
next
  case (prepare e r)
  then show ?thesis using sp_child_laws.sp_prepare_inv [OF child prepare assms(2)] by blast
next
  case (period e n r)
  then show ?thesis
    using updates_inv [OF _ assms(2)] updates_clean sp_child_laws.periodSizeChanged_updates [OF child] by blast
qed (use assms(2) schedule_inv [OF assms(2)] schedule_clean [of s]
    in \<open>auto dest!: sp_child_laws.getFrames_private [OF child] sp_child_laws.putFrames_private [OF child]
         sp_dropFrames_private sp_child_laws.putSilenceFrames_private [OF child]
         shiftStream_private intro: sp_inv_private [OF _ assms(2)] sp_clean_private [of s]\<close>)

lemma reach_inv:
  assumes "sp_reach ch failures s"
  shows "sp_inv s \<and> (\<not> failures \<longrightarrow> sp_clean s)"
  using assms
proof induction
  case (initial s)
  then show ?case by (simp add: sp_initial_def sp_inv_def sp_clean_def)
next
  case (step s s')
  then show ?case using step_inv [OF step(2)] by blast
next
  case (fail s s')
  from fail(3) have "sp_inv s'"
    by cases (simp_all add: handlerDied_def packetsStopped_def handleBusReset_def handleBusResetDo_def sp_inv_def)
  then show ?case using fail(1) by simp
qed

end

section \<open>Waiting for a state\<close>

lemma waitForState_loop_seen:
  "waitForState_loop seen st k cnt \<noteq> 0 \<longleftrightarrow> (\<exists>j<unat cnt. seen (k + j) = st)"
proof (induction seen st k cnt rule: waitForState_loop.induct)
  case (1 seen st k cnt)
  show ?case
  proof (cases "seen k \<noteq> st \<and> cnt \<noteq> 0")
    case False
    have "cnt \<noteq> 0 \<longleftrightarrow> (\<exists>j<unat cnt. seen (k + j) = st)"
    proof (cases "cnt = 0")
      case nz: False
      then have "0 < unat cnt" "seen (k + 0) = st" using False by (simp_all add: unat_gt_0)
      then show ?thesis using nz by blast
    qed simp
    moreover have "waitForState_loop seen st k cnt = cnt" using False by (subst waitForState_loop.simps) auto
    ultimately show ?thesis by simp
  next
    case True
    then have u: "unat cnt = Suc (unat (cnt - 1))" by (simp add: unat_minus_one unat_gt_0)
    have "waitForState_loop seen st k cnt = waitForState_loop seen st (Suc k) (cnt - 1)"
      using True by (subst waitForState_loop.simps) simp
    moreover have "(\<exists>j<unat cnt. seen (k + j) = st) \<longleftrightarrow> (\<exists>j<unat (cnt - 1). seen (Suc k + j) = st)"
      using True unfolding u by (auto simp: less_Suc_eq_0_disj)
    ultimately show ?thesis using 1 True by simp
  qed
qed

text \<open>
  C38. Waiting for a state ends: \<^verbatim>\<open>waitForState\<close> returns true when one of its first
  \<^verbatim>\<open>timeout_ms\<close> looks finds the state, and false otherwise, even if the look at the end of the last
  millisecond would find it. Starting or stopping a stream therefore succeeds when the processor is in
  the wanted state already, or is seen in it within 2000 looks.
\<close>

theorem waiting_ends:
  "(waitForState seen st n \<longleftrightarrow> (\<exists>k<unat n. seen k = st))
   \<and> (fst (startRunning e seen t s) \<longleftrightarrow> m_state s = ePS_Running \<or> (\<exists>k<2000. seen k = ePS_Running))
   \<and> (fst (stopRunning e seen t s) \<longleftrightarrow> m_state s = ePS_DryRunning \<or> (\<exists>k<2000. seen k = ePS_DryRunning))
   \<and> (fst (stopDryRunning e seen t s) \<longleftrightarrow> m_state s = ePS_Stopped \<or> (\<exists>k<2000. seen k = ePS_Stopped))"
proof -
  have w: "waitForState seen st n \<longleftrightarrow> (\<exists>k<unat n. seen k = st)" for st n
    using waitForState_loop_seen [of seen st 0 n] by (simp add: waitForState_def)
  show ?thesis
    by (simp add: w startRunning_def stopRunning_def stopDryRunning_def schedule_and_wait_def scheduleStartRunning_def
        scheduleStopRunning_def scheduleStopDryRunning_def scheduleStateTransition_def)
qed

section \<open>Nominal packets\<close>

lemma ceiling_le_iff_mult:
  fixes a b p :: int
  assumes "0 < b"
  shows "(a + b - 1) div b \<le> p \<longleftrightarrow> a \<le> p * b"
proof -
  define q where "q = (a + b - 1) div b"
  have q: "q * b \<le> a + b - 1" "a + b - 1 < q * b + b"
    using div_mult_mod_eq [of "a + b - 1" b] pos_mod_sign [OF assms, of "a + b - 1"] pos_mod_bound [OF assms, of "a + b - 1"]
    unfolding q_def by linarith+
  have "a \<le> p * b" if "q \<le> p"
  proof -
    have "q * b \<le> p * b" using that assms by (intro mult_right_mono) simp_all
    then show ?thesis using q(2) by linarith
  qed
  moreover have "q \<le> p" if "a \<le> p * b"
  proof (rule ccontr)
    assume "\<not> q \<le> p"
    then have "(p + 1) * b \<le> q * b" using assms by (intro mult_right_mono) simp_all
    then show False using that q(1) by (simp add: distrib_right)
  qed
  ultimately show ?thesis unfolding q_def by blast
qed

lemma packets_ceiling:
  fixes rate n :: int
  assumes "0 < rate" and "0 \<le> n"
  shows "(24576000 div rate * n + 3072 - 1) div 3072 \<le> (8000 * n + rate - 1) div rate"
    and "rate dvd 24576000 \<Longrightarrow> (24576000 div rate * n + 3072 - 1) div 3072 = (8000 * n + rate - 1) div rate"
proof -
  define t p z where "t = 24576000 div rate" and "p = (8000 * n + rate - 1) div rate" and "z = (t * n + 3072 - 1) div 3072"
  have le: "t * rate \<le> 24576000"
    using div_mult_mod_eq [of 24576000 rate] pos_mod_sign [OF assms(1), of 24576000]
    unfolding t_def by linarith
  have p: "8000 * n \<le> p * rate" using ceiling_le_iff_mult [OF assms(1), of "8000 * n" p] by (simp add: p_def)
  have z: "t * n \<le> z * 3072" using ceiling_le_iff_mult [of 3072 "t * n" z] by (simp add: z_def)
  have "t * n * rate \<le> 24576000 * n" using mult_right_mono [OF le assms(2)] by (simp add: mult.commute mult.left_commute)
  also have "\<dots> \<le> p * 3072 * rate" using p by simp
  finally have "t * n \<le> p * 3072" using assms(1) by (simp add: mult_le_cancel_right)
  then show l: "z \<le> p" using ceiling_le_iff_mult [of 3072 "t * n" p] by (simp add: z_def)
  show "z = p" if "rate dvd 24576000"
  proof -
    have "t * rate = 24576000" using that by (simp add: t_def)
    moreover have "t * n * rate \<le> z * 3072 * rate" using z assms(1) by (intro mult_right_mono) simp_all
    ultimately have "24576000 * n \<le> z * 3072 * rate" by (simp add: mult.commute mult.left_commute)
    then have "8000 * n \<le> z * rate" by (simp add: mult.commute [of z rate])
    then have "p \<le> z" using ceiling_le_iff_mult [OF assms(1), of "8000 * n" z] by (simp add: p_def)
    then show ?thesis using l by simp
  qed
qed

lemma uint_u64_of_u32: "uint (ucast (x :: u32) :: u64) = uint x"
  by (rule uint_ucast_up) simp

lemma uint_getNominalPacketsNeeded:
  assumes "0 < m_nominal_framerate (spm e)" and "uint nframes \<le> 500000"
  obtains p where "getNominalPacketsNeeded e nframes = Some p"
    and "uint p = (24576000 div uint (m_nominal_framerate (spm e)) * uint nframes + 3072 - 1) div 3072"
proof -
  let ?r = "m_nominal_framerate (spm e)"
  let ?t = "TICKS_PER_SECOND div ucast ?r :: u64"
  define n t where "n = uint nframes" and "t = 24576000 div uint ?r"
  have r: "0 < uint ?r" using assms(1) by (simp add: word_less_def)
  have t: "uint ?t = t" by (simp add: t_def uint_div_distrib uint_u64_of_u32 consts_defs)
  have b: "0 \<le> t" "t \<le> 24576000" "0 \<le> n" "n \<le> 500000"
    using r assms(2) zdiv_mono2 [of 24576000 1 "uint ?r"] by (simp_all add: t_def n_def pos_imp_zdiv_nonneg_iff)
  then have prod: "0 \<le> t * n" "t * n \<le> 24576000 * 500000" using mult_mono [OF b(2,4)] by simp_all
  have m: "uint (?t * ucast nframes) = t * n"
    using prod t by (subst uint_times_no_overflow) (simp_all add: uint_u64_of_u32 n_def)
  let ?x = "?t * ucast nframes + ucast TICKS_PER_CYCLE - 1"
  have "?t * ucast nframes = (of_int (t * n) :: u64)" using m by (metis word_of_int_uint)
  then have "?x = of_int (t * n + 3071)" by (simp add: consts_defs)
  then have "uint ?x = take_bit 64 (t * n + 3071)" by (simp only: unsigned_of_int) simp
  then have x: "uint ?x = t * n + 3071" using prod by (simp add: take_bit_int_eq_self)
  have q: "uint (?x div ucast TICKS_PER_CYCLE) = (t * n + 3071) div 3072"
    unfolding uint_div_distrib x by (simp add: consts_defs)
  have "(t * n + 3071) div 3072 < 4294967296" "0 \<le> (t * n + 3071) div 3072"
    using prod by (simp_all add: pos_imp_zdiv_nonneg_iff)
  then have u: "uint (ucast (?x div ucast TICKS_PER_CYCLE) :: u32) = (t * n + 3071) div 3072"
    by (simp add: unsigned_ucast_eq q take_bit_int_eq_self)
  have "?r \<noteq> 0" using assms(1) by (simp add: word_gt_0)
  then have "getNominalPacketsNeeded e nframes = Some (ucast (?x div ucast TICKS_PER_CYCLE))"
    by (simp add: getNominalPacketsNeeded_def Let_def)
  then show ?thesis by (rule that) (use u in \<open>simp add: t_def n_def\<close>)
qed

text \<open>
  The number of packets that carry a given number of frames: for a nominal rate that divides the
  24576000 ticks of a second \<^verbatim>\<open>getNominalPacketsNeeded\<close> is the exact ceiling of
  \<^verbatim>\<open>nframes * 8000 / rate\<close>. For other rates, such as 44100 Hz, the ticks per frame are rounded down first,
  so that the result is never above the ceiling but may be below it. A rate of 0 divides by zero.
\<close>

theorem nominal_packets:
  "(m_nominal_framerate (spm e) = 0 \<longrightarrow> getNominalPacketsNeeded e nframes = None)
   \<and> (0 < m_nominal_framerate (spm e) \<and> uint nframes \<le> 500000 \<longrightarrow>
      (\<exists>p. getNominalPacketsNeeded e nframes = Some p
         \<and> uint p \<le> (8000 * uint nframes + uint (m_nominal_framerate (spm e)) - 1)
                    div uint (m_nominal_framerate (spm e))
         \<and> (uint (m_nominal_framerate (spm e)) dvd 24576000 \<longrightarrow>
             uint p = (8000 * uint nframes + uint (m_nominal_framerate (spm e)) - 1)
                    div uint (m_nominal_framerate (spm e)))))"
proof (intro conjI impI)
  show "getNominalPacketsNeeded e nframes = None" if "m_nominal_framerate (spm e) = 0"
    using that by (simp add: getNominalPacketsNeeded_def)
  assume h: "0 < m_nominal_framerate (spm e) \<and> uint nframes \<le> 500000"
  then have r: "0 < uint (m_nominal_framerate (spm e))" by (simp add: word_less_def)
  from h obtain p where p: "getNominalPacketsNeeded e nframes = Some p"
    "uint p = (24576000 div uint (m_nominal_framerate (spm e)) * uint nframes + 3072 - 1) div 3072"
    using uint_getNominalPacketsNeeded [of e nframes] by blast
  show "\<exists>p. getNominalPacketsNeeded e nframes = Some p
         \<and> uint p \<le> (8000 * uint nframes + uint (m_nominal_framerate (spm e)) - 1)
                    div uint (m_nominal_framerate (spm e))
         \<and> (uint (m_nominal_framerate (spm e)) dvd 24576000 \<longrightarrow>
             uint p = (8000 * uint nframes + uint (m_nominal_framerate (spm e)) - 1)
                    div uint (m_nominal_framerate (spm e)))"
    using p packets_ceiling [OF r uint_ge_0, of nframes] by auto
qed

theorem nominal_packets_witness:
  "getNominalPacketsNeeded (example_env \<lparr> spm := (spm example_env) \<lparr> m_nominal_framerate := 48000 \<rparr> \<rparr>) 1024
     = Some 171
   \<and> getNominalPacketsNeeded (example_env \<lparr> spm := (spm example_env) \<lparr> m_nominal_framerate := 44100 \<rparr> \<rparr>) 44100
     = Some 7996"
  using nominal_packets [of "example_env \<lparr> spm := (spm example_env) \<lparr> m_nominal_framerate := 48000 \<rparr> \<rparr>" 1024]
  by (simp add: getNominalPacketsNeeded_def Let_def consts_defs example_env_def)

end
