(* ===== verification/Cip.thy ===== *)
theory Cip
  imports CmdSerialize
begin

text \<open>
  The common isochronous packet header, \<^verbatim>\<open>libstreaming/util/cip.c\<close> and \<^verbatim>\<open>cip.h\<close>: the fields of
  \<^verbatim>\<open>struct iec61883_packet\<close> and their place in the first eight bytes of a packet, and the generator
  that paces the samples of a stream with integer fractions. The bit fields of the struct are
  declared in the order that gives the same bytes on little and big endian hosts. The numbers of a
  fraction stay far below the range of \<^verbatim>\<open>int\<close> and are integers here; the counters that run for
  the life of a stream are words.
\<close>

section \<open>Packets\<close>

record iec61883_packet =
  pk_eoh0 :: u8
  pk_sid :: u8
  pk_dbs :: u8
  pk_fn :: u8
  pk_qpc :: u8
  pk_sph :: u8
  pk_reserved :: u8
  pk_dbc :: u8
  pk_eoh1 :: u8
  pk_fmt :: u8
  pk_fdf :: u8
  pk_syt :: u16

text \<open>\<open>pk_syt\<close> is the value on the bus: the code swaps it to bus order when it stores the field.\<close>

definition cip_byte_6 :: "u8 \<Rightarrow> u8 \<Rightarrow> u8" where
  "cip_byte_6 hi lo = push_bit 6 hi OR (lo AND 0x3F)"

definition cip_byte_2 :: "u8 \<Rightarrow> u8 \<Rightarrow> u8 \<Rightarrow> u8 \<Rightarrow> u8" where
  "cip_byte_2 fn qpc sph reserved =
     push_bit 6 fn OR push_bit 3 (qpc AND 7) OR push_bit 2 (sph AND 1) OR (reserved AND 3)"

definition packet_bytes :: "iec61883_packet \<Rightarrow> u8 list" where
  "packet_bytes p =
     [cip_byte_6 (pk_eoh0 p) (pk_sid p), pk_dbs p, cip_byte_2 (pk_fn p) (pk_qpc p) (pk_sph p) (pk_reserved p),
      pk_dbc p, cip_byte_6 (pk_eoh1 p) (pk_fmt p), pk_fdf p, u16_hi (pk_syt p), u16_lo (pk_syt p)]"

definition packet_of_bytes :: "u8 list \<Rightarrow> iec61883_packet option" where
  "packet_of_bytes d =
     (if length d < 8 then None
      else Some \<lparr>pk_eoh0 = drop_bit 6 (d ! 0), pk_sid = d ! 0 AND 0x3F, pk_dbs = d ! 1,
                 pk_fn = drop_bit 6 (d ! 2), pk_qpc = drop_bit 3 (d ! 2) AND 7,
                 pk_sph = drop_bit 2 (d ! 2) AND 1, pk_reserved = d ! 2 AND 3, pk_dbc = d ! 3,
                 pk_eoh1 = drop_bit 6 (d ! 4), pk_fmt = d ! 4 AND 0x3F, pk_fdf = d ! 5,
                 pk_syt = u16_join (d ! 6) (d ! 7)\<rparr>)"

definition IEC61883_FMT_AMDTP :: u8 where [consts_defs]: "IEC61883_FMT_AMDTP = 0x10"
definition IEC61883_TAG_WITH_CIP :: u8 where [consts_defs]: "IEC61883_TAG_WITH_CIP = 1"
definition IEC61883_FDF_NODATA :: u8 where [consts_defs]: "IEC61883_FDF_NODATA = 0xFF"
definition CIP_TRANSFER_DELAY :: int where "CIP_TRANSFER_DELAY = 9000"

section \<open>Fractions\<close>

record iec61883_fraction =
  f_integer :: int
  f_numerator :: int
  f_denominator :: int

text \<open>C division truncates; numerators and denominators are not negative here.\<close>

definition fraction_init :: "int \<Rightarrow> int \<Rightarrow> iec61883_fraction" where
  "fraction_init numerator denominator =
     \<lparr>f_integer = numerator div denominator, f_numerator = numerator mod denominator, f_denominator = denominator\<rparr>"

definition fraction_add :: "iec61883_fraction \<Rightarrow> iec61883_fraction \<Rightarrow> iec61883_fraction" where
  "fraction_add src1 src2 =
     (let sum = f_numerator src1 + f_numerator src2; denom = f_denominator src1
      in \<lparr>f_integer = f_integer src1 + f_integer src2 + sum div denom, f_numerator = sum mod denom,
          f_denominator = denom\<rparr>)"

definition fraction_sub_int :: "iec61883_fraction \<Rightarrow> int \<Rightarrow> iec61883_fraction" where
  "fraction_sub_int src i = src\<lparr>f_integer := f_integer src - i\<rparr>"

definition fraction_floor :: "iec61883_fraction \<Rightarrow> int" where
  "fraction_floor frac = f_integer frac"

definition fraction_ceil :: "iec61883_fraction \<Rightarrow> int" where
  "fraction_ceil frac = f_integer frac + (if f_numerator frac > 0 then 1 else 0)"

section \<open>The packet generator\<close>

datatype cip_mode = BLOCKING_EMPTY | BLOCKING_NODATA | NON_BLOCKING

record iec61883_cip =
  cip_cycle_offset :: iec61883_fraction
  cip_ticks_per_syt_offset :: iec61883_fraction
  cip_ready_samples :: iec61883_fraction
  cip_samples_per_cycle :: iec61883_fraction
  cip_dbc :: i32
  cip_dbs :: i32
  cip_cycle_count :: i32
  cip_cycle_count2 :: i32
  cip_mode :: cip_mode
  cip_syt_interval :: int
  cip_rate :: int
  cip_fdf :: i32
  cip_format :: i32

definition iec61883_cip_init :: "i32 \<Rightarrow> i32 \<Rightarrow> int \<Rightarrow> i32 \<Rightarrow> int \<Rightarrow> iec61883_cip" where
  "iec61883_cip_init format fdf rate dbs syt_interval =
     \<lparr>cip_cycle_offset = fraction_init (CIP_TRANSFER_DELAY mod 3072 * rate) rate,
      cip_ticks_per_syt_offset = fraction_init (24576000 * syt_interval) rate,
      cip_ready_samples = fraction_init 0 8000,
      cip_samples_per_cycle = fraction_init rate 8000,
      cip_dbc = 0, cip_dbs = dbs, cip_cycle_count = of_int (CIP_TRANSFER_DELAY div 3072), cip_cycle_count2 = 0,
      cip_mode = BLOCKING_EMPTY, cip_syt_interval = syt_interval, cip_rate = rate,
      cip_fdf = fdf, cip_format = format\<rparr>"

definition iec61883_cip_set_transmission_mode :: "iec61883_cip \<Rightarrow> cip_mode \<Rightarrow> iec61883_cip" where
  "iec61883_cip_set_transmission_mode ptz mode = ptz\<lparr>cip_mode := mode\<rparr>"

definition iec61883_cip_get_max_packet_size :: "iec61883_cip \<Rightarrow> int" where
  "iec61883_cip_get_max_packet_size ptz =
     (let max_nevents = (if cip_mode ptz = BLOCKING_EMPTY \<or> cip_mode ptz = BLOCKING_NODATA
                         then cip_syt_interval ptz else fraction_ceil (cip_samples_per_cycle ptz))
      in max_nevents * sint (cip_dbs ptz) * 4 + 8)"

text \<open>The events of the next packet, from the samples that are ready with it.\<close>

definition cip_nevents :: "iec61883_cip \<Rightarrow> int" where
  "cip_nevents ptz =
     (let next = fraction_add (cip_ready_samples ptz) (cip_samples_per_cycle ptz)
      in if cip_mode ptz = BLOCKING_EMPTY \<or> cip_mode ptz = BLOCKING_NODATA
         then (if fraction_floor next \<ge> cip_syt_interval ptz then cip_syt_interval ptz else 0)
         else fraction_floor next)"

text \<open>The timestamp of a packet and the state after it.\<close>

definition cip_next_syt :: "iec61883_cip \<Rightarrow> int \<Rightarrow> u16 \<times> iec61883_cip" where
  "cip_next_syt ptz nevents =
     (let syt_index = sint ((of_int (cip_syt_interval ptz) - cip_dbc ptz) AND (of_int (cip_syt_interval ptz) - 1))
      in if syt_index < nevents then
           let syt = ucast (push_bit 12 (cip_cycle_count ptz) OR of_int (fraction_floor (cip_cycle_offset ptz)));
               off = fraction_add (cip_cycle_offset ptz) (cip_ticks_per_syt_offset ptz)
           in (syt, ptz\<lparr>cip_cycle_count := cip_cycle_count ptz + of_int (f_integer off div 3072),
                         cip_cycle_offset := off\<lparr>f_integer := f_integer off mod 3072\<rparr>\<rparr>)
         else (0xffff, ptz))"

definition iec61883_cip_fill_header :: "i32 \<Rightarrow> iec61883_cip \<Rightarrow> int \<times> iec61883_packet \<times> iec61883_cip" where
  "iec61883_cip_fill_header node_id ptz =
     (let next = fraction_add (cip_ready_samples ptz) (cip_samples_per_cycle ptz);
          nevents = cip_nevents ptz;
          nevents_dbc = (if cip_mode ptz = BLOCKING_NODATA then cip_syt_interval ptz else nevents);
          ptz = ptz\<lparr>cip_ready_samples := fraction_sub_int next nevents\<rparr>;
          (syt, ptz) = cip_next_syt ptz nevents;
          packet = \<lparr>pk_eoh0 = 0, pk_sid = ucast (node_id AND 0x3f), pk_dbs = ucast (cip_dbs ptz), pk_fn = 0,
                    pk_qpc = 0, pk_sph = 0, pk_reserved = 0, pk_dbc = ucast (cip_dbc ptz), pk_eoh1 = 2,
                    pk_fmt = ucast (cip_format ptz),
                    pk_fdf = (if nevents = 0 \<and> cip_mode ptz = BLOCKING_NODATA then IEC61883_FDF_NODATA
                              else ucast (cip_fdf ptz)),
                    pk_syt = syt\<rparr>
      in (nevents, packet, ptz\<lparr>cip_dbc := cip_dbc ptz + of_int nevents_dbc\<rparr>))"

definition iec61883_cip_fill_header_nodata :: "i32 \<Rightarrow> iec61883_cip \<Rightarrow> int \<times> iec61883_packet \<times> iec61883_cip" where
  "iec61883_cip_fill_header_nodata node_id ptz =
     (0, \<lparr>pk_eoh0 = 0, pk_sid = ucast (node_id AND 0x3f), pk_dbs = ucast (cip_dbs ptz), pk_fn = 0,
          pk_qpc = 0, pk_sph = 0, pk_reserved = 0, pk_dbc = ucast (cip_dbc ptz), pk_eoh1 = 2,
          pk_fmt = ucast (cip_format ptz), pk_fdf = IEC61883_FDF_NODATA, pk_syt = 0xffff\<rparr>,
      ptz\<lparr>cip_dbc := cip_dbc ptz + of_int (cip_syt_interval ptz)\<rparr>)"

section \<open>Pacing\<close>

text \<open>A packet survives its bytes, with the fields cut to their widths.\<close>

lemma field_bits:
  shows "drop_bit 6 (cip_byte_6 a b) = a AND 3" and "cip_byte_6 a b AND 0x3F = b AND 0x3F"
  unfolding cip_byte_6_def by (rule word_eq_bits, simp add: word_bits_simps)+

lemma third_byte_bits:
  shows "drop_bit 6 (cip_byte_2 a b c d) = a AND 3" and "drop_bit 3 (cip_byte_2 a b c d) AND 7 = b AND 7"
  and "drop_bit 2 (cip_byte_2 a b c d) AND 1 = c AND 1" and "cip_byte_2 a b c d AND 3 = d AND 3"
  unfolding cip_byte_2_def by (rule word_eq_bits, simp add: word_bits_simps)+

lemma u16_join_parts: "u16_join (u16_hi v) (u16_lo v) = v"
  by (rule word_eq_bits) (simp add: u16_join_def u16_hi_def u16_lo_def word_bits_simps)

lemma packet_bytes_roundtrip:
  "packet_of_bytes (packet_bytes p @ rest) =
     Some (p\<lparr>pk_eoh0 := pk_eoh0 p AND 3, pk_sid := pk_sid p AND 0x3F, pk_fn := pk_fn p AND 3,
             pk_qpc := pk_qpc p AND 7, pk_sph := pk_sph p AND 1, pk_reserved := pk_reserved p AND 3,
             pk_eoh1 := pk_eoh1 p AND 3, pk_fmt := pk_fmt p AND 0x3F\<rparr>)"
  by (cases p) (simp add: packet_of_bytes_def packet_bytes_def field_bits third_byte_bits u16_join_parts)

section \<open>Fractions count\<close>

text \<open>The value of a fraction in units of its denominator, and its normal form.\<close>

definition f_value :: "iec61883_fraction \<Rightarrow> int" where
  "f_value f = f_integer f * f_denominator f + f_numerator f"

definition f_normal :: "int \<Rightarrow> iec61883_fraction \<Rightarrow> bool" where
  "f_normal d f \<longleftrightarrow> 0 < d \<and> f_denominator f = d \<and> 0 \<le> f_numerator f \<and> f_numerator f < d"

lemma fraction_init_value:
  assumes "0 < d"
  shows "f_normal d (fraction_init n d)" and "f_value (fraction_init n d) = n"
  using assms by (simp_all add: fraction_init_def f_normal_def f_value_def)

lemma fraction_add_value:
  assumes "f_normal d a" and "f_normal d b"
  shows "f_normal d (fraction_add a b)" and "f_value (fraction_add a b) = f_value a + f_value b"
proof -
  have "0 < d" "f_denominator a = d" "f_denominator b = d" using assms by (simp_all add: f_normal_def)
  then show "f_normal d (fraction_add a b)" by (simp add: fraction_add_def f_normal_def Let_def)
  show "f_value (fraction_add a b) = f_value a + f_value b"
    using \<open>f_denominator a = d\<close> \<open>f_denominator b = d\<close>
    by (simp add: fraction_add_def f_value_def Let_def algebra_simps)
qed

lemma fraction_floor_value:
  assumes "f_normal d f"
  shows "fraction_floor f = f_value f div d" and "f_integer f = f_value f div d"
  using assms by (simp_all add: f_normal_def f_value_def fraction_floor_def)

lemma fraction_sub_int_value:
  assumes "f_normal d f"
  shows "f_normal d (fraction_sub_int f i)" and "f_value (fraction_sub_int f i) = f_value f - i * d"
  using assms by (simp_all add: f_normal_def f_value_def fraction_sub_int_def algebra_simps)

section \<open>Pacing\<close>

text \<open>
  A run of the generator: the packets of \<open>n\<close> cycles. \<open>cip_ready n k\<close> says that \<open>n\<close> cycles have
  brought \<open>n * rate / 8000\<close> samples of which \<open>k\<close> are sent.
\<close>

fun cip_run :: "i32 \<Rightarrow> nat \<Rightarrow> iec61883_cip \<Rightarrow> (int \<times> iec61883_packet) list \<times> iec61883_cip" where
  "cip_run node 0 ptz = ([], ptz)"
| "cip_run node (Suc n) ptz =
     (let (ps, ptz) = cip_run node n ptz; (nevents, p, ptz) = iec61883_cip_fill_header node ptz
      in (ps @ [(nevents, p)], ptz))"

definition cip_sent :: "(int \<times> iec61883_packet) list \<Rightarrow> int" where
  "cip_sent ps = sum_list (map fst ps)"

definition cip_data :: "(int \<times> iec61883_packet) list \<Rightarrow> iec61883_packet list" where
  "cip_data ps = map snd (filter (\<lambda>q. fst q \<noteq> 0) ps)"

definition cip_ready :: "nat \<Rightarrow> int \<Rightarrow> iec61883_cip \<Rightarrow> bool" where
  "cip_ready n k ptz \<longleftrightarrow>
     f_normal 8000 (cip_ready_samples ptz) \<and> f_value (cip_ready_samples ptz) = int n * cip_rate ptz - 8000 * k
     \<and> cip_samples_per_cycle ptz = fraction_init (cip_rate ptz) 8000"

lemma cip_next_syt_fixed [simp]:
  "cip_ready_samples (snd (cip_next_syt ptz m)) = cip_ready_samples ptz"
  "cip_samples_per_cycle (snd (cip_next_syt ptz m)) = cip_samples_per_cycle ptz"
  "cip_rate (snd (cip_next_syt ptz m)) = cip_rate ptz"
  "cip_mode (snd (cip_next_syt ptz m)) = cip_mode ptz"
  "cip_syt_interval (snd (cip_next_syt ptz m)) = cip_syt_interval ptz"
  "cip_dbc (snd (cip_next_syt ptz m)) = cip_dbc ptz"
  "cip_ticks_per_syt_offset (snd (cip_next_syt ptz m)) = cip_ticks_per_syt_offset ptz"
  by (simp_all add: cip_next_syt_def Let_def)

lemma cip_fill_ready:
  assumes "cip_ready n k ptz" and "iec61883_cip_fill_header node ptz = (nevents, p, ptz')"
  shows "cip_ready (Suc n) (k + nevents) ptz'" and "nevents = cip_nevents ptz"
    and "cip_rate ptz' = cip_rate ptz" and "cip_mode ptz' = cip_mode ptz"
    and "cip_syt_interval ptz' = cip_syt_interval ptz"
    and "cip_ticks_per_syt_offset ptz' = cip_ticks_per_syt_offset ptz"
proof -
  note r = assms(1) [unfolded cip_ready_def]
  let ?next = "fraction_add (cip_ready_samples ptz) (cip_samples_per_cycle ptz)"
  have spc: "f_normal 8000 (cip_samples_per_cycle ptz)" "f_value (cip_samples_per_cycle ptz) = cip_rate ptz"
    using r by (simp_all add: fraction_init_value)
  note nx = fraction_add_value [OF conjunct1 [OF r] spc(1)]
  show m: "nevents = cip_nevents ptz"
    and "cip_rate ptz' = cip_rate ptz" and "cip_mode ptz' = cip_mode ptz"
    and "cip_syt_interval ptz' = cip_syt_interval ptz"
    and "cip_ticks_per_syt_offset ptz' = cip_ticks_per_syt_offset ptz"
    using assms(2) by (auto simp: iec61883_cip_fill_header_def Let_def split_beta)
  have "cip_ready_samples ptz' = fraction_sub_int ?next nevents" "cip_samples_per_cycle ptz' = cip_samples_per_cycle ptz"
    "cip_rate ptz' = cip_rate ptz"
    using assms(2) by (auto simp: iec61883_cip_fill_header_def Let_def split_beta)
  then show "cip_ready (Suc n) (k + nevents) ptz'"
    using r nx spc(2) by (simp add: cip_ready_def fraction_sub_int_value algebra_simps)
qed

text \<open>The number of events of a packet, from the samples that are due.\<close>

lemma cip_nevents_value:
  assumes "cip_ready n k ptz"
  shows "cip_nevents ptz =
    (let due = (int (Suc n) * cip_rate ptz - 8000 * k) div 8000
     in if cip_mode ptz = NON_BLOCKING then due
        else if due \<ge> cip_syt_interval ptz then cip_syt_interval ptz else 0)"
proof -
  note r = assms [unfolded cip_ready_def]
  have "f_normal 8000 (cip_samples_per_cycle ptz)" "f_value (cip_samples_per_cycle ptz) = cip_rate ptz"
    using r by (simp_all add: fraction_init_value)
  then have f: "fraction_floor (fraction_add (cip_ready_samples ptz) (cip_samples_per_cycle ptz))
      = (f_value (cip_ready_samples ptz) + cip_rate ptz) div 8000"
    using r fraction_add_value [of 8000 "cip_ready_samples ptz" "cip_samples_per_cycle ptz"]
    by (simp add: fraction_floor_value(1) [of 8000])
  have "f_value (cip_ready_samples ptz) + cip_rate ptz = int (Suc n) * cip_rate ptz - 8000 * k"
    using r by (simp add: algebra_simps)
  note f [unfolded this]
  then show ?thesis by (cases "cip_mode ptz") (simp_all add: cip_nevents_def Let_def)
qed

lemma sub_mult_div:
  fixes a q c :: int
  assumes "0 < c"
  shows "(a - c * q) div c = a div c - q" and "q \<le> a div c \<longleftrightarrow> c * q \<le> a"
proof -
  have "(a - c * q) div c = (a + (- q) * c) div c" by (simp add: algebra_simps)
  also have "\<dots> = a div c - q" using assms by (subst div_mult_self1) simp_all
  finally show d: "(a - c * q) div c = a div c - q" .
  have "0 \<le> (a - c * q) div c \<longleftrightarrow> 0 \<le> a - c * q" using assms by (rule pos_imp_zdiv_nonneg_iff)
  then show "q \<le> a div c \<longleftrightarrow> c * q \<le> a" unfolding d by auto
qed

lemma blocking_step:
  fixes x y s :: int
  assumes "0 < s" and "0 \<le> y" and "y \<le> 8000 * s"
  shows "(if (x + y - 8000 * (s * (x div (8000 * s)))) div 8000 \<ge> s then s else 0)
       = s * ((x + y) div (8000 * s)) - s * (x div (8000 * s))"
proof -
  define q r where "q = x div (8000 * s)" and "r = x mod (8000 * s)"
  have x: "x = 8000 * s * q + r" "0 \<le> r" "r < 8000 * s" using assms(1) by (simp_all add: q_def r_def)
  have "(x + y) div (8000 * s) = ((r + y) + q * (8000 * s)) div (8000 * s)" by (simp add: x(1) algebra_simps)
  also have "\<dots> = q + (r + y) div (8000 * s)" using assms(1) by (subst div_mult_self1) simp_all
  also have "(r + y) div (8000 * s) = (if 8000 * s \<le> r + y then 1 else 0)"
  proof (cases "8000 * s \<le> r + y")
    case True
    have "(r + y) div (8000 * s) = (r + y - 8000 * s) div (8000 * s) + 1"
      using True assms(1) by (intro div_pos_geq) simp_all
    moreover have "(r + y - 8000 * s) div (8000 * s) = 0" using True x assms by (intro div_pos_pos_trivial) simp_all
    ultimately show ?thesis using True by simp
  next
    case False
    then show ?thesis using x assms by (simp add: div_pos_pos_trivial)
  qed
  finally have d: "(x + y) div (8000 * s) = q + (if 8000 * s \<le> r + y then 1 else 0)" .
  have e: "x + y - 8000 * (s * q) = r + y" using x(1) by simp
  show ?thesis
    unfolding q_def [symmetric] d e by (simp add: sub_mult_div(2) ring_distribs)
qed

text \<open>The reference: how many events are sent after \<open>n\<close> cycles.\<close>

definition cip_events :: "cip_mode \<Rightarrow> int \<Rightarrow> int \<Rightarrow> nat \<Rightarrow> int" where
  "cip_events mode rate syt n =
     (if mode = NON_BLOCKING then int n * rate div 8000 else syt * (int n * rate div (8000 * syt)))"

lemma cip_run_ready:
  assumes "cip_run node n ptz = (ps, ptz')" and "cip_ready 0 0 ptz" and "0 < cip_syt_interval ptz"
    and "0 \<le> cip_rate ptz" and "cip_rate ptz \<le> 8000 * cip_syt_interval ptz"
  shows "cip_ready n (cip_sent ps) ptz'" and "cip_sent ps = cip_events (cip_mode ptz) (cip_rate ptz) (cip_syt_interval ptz) n"
    and "cip_rate ptz' = cip_rate ptz" and "cip_mode ptz' = cip_mode ptz"
    and "cip_syt_interval ptz' = cip_syt_interval ptz"
    and "cip_ticks_per_syt_offset ptz' = cip_ticks_per_syt_offset ptz"
proof -
  have "cip_ready n (cip_sent ps) ptz' \<and> cip_sent ps = cip_events (cip_mode ptz) (cip_rate ptz) (cip_syt_interval ptz) n
    \<and> cip_rate ptz' = cip_rate ptz \<and> cip_mode ptz' = cip_mode ptz \<and> cip_syt_interval ptz' = cip_syt_interval ptz
    \<and> cip_ticks_per_syt_offset ptz' = cip_ticks_per_syt_offset ptz"
    using assms(1)
  proof (induction n arbitrary: ps ptz')
    case 0
    then show ?case using assms(2) by (simp add: cip_sent_def cip_events_def)
  next
    case (Suc n)
    obtain qs mid where run: "cip_run node n ptz = (qs, mid)" by fastforce
    obtain m p where fill: "iec61883_cip_fill_header node mid = (m, p, ptz')" and ps: "ps = qs @ [(m, p)]"
      using Suc(2) run by (auto split: prod.splits)
    note IH = Suc.IH [OF run]
    note f = cip_fill_ready [OF conjunct1 [OF IH] fill]
    have s: "cip_sent ps = cip_sent qs + m" by (simp add: ps cip_sent_def)
    let ?r = "cip_rate ptz" and ?s = "cip_syt_interval ptz"
    have "m = cip_events (cip_mode ptz) ?r ?s (Suc n) - cip_events (cip_mode ptz) ?r ?s n"
    proof (cases "cip_mode ptz = NON_BLOCKING")
      case True
      then show ?thesis
        using IH f(2) cip_nevents_value [OF conjunct1 [OF IH]] by (simp add: Let_def cip_events_def sub_mult_div(1))
    next
      case False
      then have "m = (if (int n * ?r + ?r - 8000 * (?s * (int n * ?r div (8000 * ?s)))) div 8000 \<ge> ?s then ?s else 0)"
        using IH f(2) cip_nevents_value [OF conjunct1 [OF IH]]
        by (simp add: Let_def cip_events_def ring_distribs add.commute split del: if_split cong: if_cong)
      also have "\<dots> = ?s * ((int n * ?r + ?r) div (8000 * ?s)) - ?s * (int n * ?r div (8000 * ?s))"
        by (rule blocking_step [OF assms(3-5)])
      finally show ?thesis using False by (simp add: cip_events_def ring_distribs add.commute)
    qed
    then show ?case using f IH s by simp
  qed
  then show "cip_ready n (cip_sent ps) ptz'" and "cip_sent ps = cip_events (cip_mode ptz) (cip_rate ptz) (cip_syt_interval ptz) n"
    and "cip_rate ptz' = cip_rate ptz" and "cip_mode ptz' = cip_mode ptz"
    and "cip_syt_interval ptz' = cip_syt_interval ptz"
    and "cip_ticks_per_syt_offset ptz' = cip_ticks_per_syt_offset ptz" by blast+
qed

lemma cip_init_ready: "cip_ready 0 0 (iec61883_cip_set_transmission_mode (iec61883_cip_init fmt fdf rate dbs syt) mode)"
  by (simp add: cip_ready_def iec61883_cip_init_def iec61883_cip_set_transmission_mode_def fraction_init_value)

section \<open>Timestamps\<close>

text \<open>The presentation time of the \<open>k\<close>-th data packet, in ticks, and its form in the header.\<close>

definition cip_time :: "int \<Rightarrow> int \<Rightarrow> nat \<Rightarrow> int" where
  "cip_time rate syt k = CIP_TRANSFER_DELAY + int k * (24576000 * syt) div rate"

definition cip_clock :: "nat \<Rightarrow> iec61883_cip \<Rightarrow> bool" where
  "cip_clock k ptz \<longleftrightarrow>
     f_normal (cip_rate ptz) (cip_cycle_offset ptz)
     \<and> cip_ticks_per_syt_offset ptz = fraction_init (24576000 * cip_syt_interval ptz) (cip_rate ptz)
     \<and> (\<exists>c. cip_cycle_count ptz = of_int c \<and> 0 \<le> f_integer (cip_cycle_offset ptz)
           \<and> f_integer (cip_cycle_offset ptz) < 3072
           \<and> c * 3072 * cip_rate ptz + f_value (cip_cycle_offset ptz)
             = CIP_TRANSFER_DELAY * cip_rate ptz + int k * (24576000 * cip_syt_interval ptz))"

definition syt_of_ticks :: "int \<Rightarrow> u16" where
  "syt_of_ticks x = ucast (push_bit 12 (of_int (x div 3072) :: i32) OR of_int (x mod 3072))"

lemma ucast_of_int_u16: "ucast (of_int k :: i32) = (of_int k :: u16)"
  by (rule bit_word_eqI) (auto simp: bit_simps)

lemma uint_syt_of_ticks: "uint (syt_of_ticks x) = x div 3072 mod 16 * 4096 + x mod 3072"
proof -
  define c v where "c = x div 3072" and "v = x mod 3072"
  have v: "0 \<le> v" "v < 4096" by (simp_all add: v_def order.strict_trans [OF pos_mod_bound])
  have tv: "take_bit 12 v = v" using v by (simp add: take_bit_int_eq_self)
  have "(push_bit 12 (of_int c :: i32) OR of_int v) = (of_int (push_bit 12 c OR v) :: i32)"
    by (rule bit_word_eqI) (auto simp: bit_simps)
  then have "syt_of_ticks x = (of_int (push_bit 12 c OR v) :: u16)"
    unfolding syt_of_ticks_def c_def [symmetric] v_def [symmetric]
    by (simp add: ucast_of_int_u16)
  moreover have "push_bit 12 c OR v = c * 4096 + v"
  proof -
    have "\<not> bit (push_bit 12 c) n \<or> \<not> bit v n" for n
    proof (cases "n < 12")
      case True
      then show ?thesis by (simp add: bit_push_bit_iff_int)
    next
      case False
      then have "\<not> bit (take_bit 12 v) n" by (simp add: bit_take_bit_iff)
      then show ?thesis by (simp add: tv)
    qed
    then have "push_bit 12 c OR v = push_bit 12 c + v" by (simp add: disjunctive_add)
    then show ?thesis by (simp add: push_bit_eq_mult)
  qed
  ultimately have "uint (syt_of_ticks x) = uint (of_int (c * 4096 + v) :: u16)" by metis
  also have "\<dots> = (c * 4096 + v) mod 65536" by (subst unsigned_of_int) (simp add: take_bit_eq_mod)
  also have "\<dots> = c mod 16 * 4096 + v"
  proof -
    have "c * 4096 + v = (c mod 16 * 4096 + v) + 65536 * (c div 16)"
      using mult_div_mod_eq [of 16 c] by linarith
    then have "(c * 4096 + v) mod 65536 = (c mod 16 * 4096 + v) mod 65536" by (simp only: mod_mult_self2)
    moreover have "0 \<le> c mod 16 * 4096 + v" "c mod 16 * 4096 + v < 65536"
      using v pos_mod_sign [of 16 c] pos_mod_bound [of 16 c] by linarith+
    ultimately show ?thesis by (simp only: mod_pos_pos_trivial)
  qed
  finally show ?thesis by (simp add: c_def v_def)
qed

lemma cip_clock_time:
  assumes "cip_clock k ptz" and "0 < cip_rate ptz"
  shows "(ucast (push_bit 12 (cip_cycle_count ptz) OR of_int (fraction_floor (cip_cycle_offset ptz))) :: u16)
    = syt_of_ticks (cip_time (cip_rate ptz) (cip_syt_interval ptz) k)"
proof -
  let ?o = "cip_cycle_offset ptz" and ?r = "cip_rate ptz"
  obtain c where c: "cip_cycle_count ptz = of_int c" "0 \<le> f_integer ?o" "f_integer ?o < 3072" "f_normal ?r ?o"
    "c * 3072 * ?r + f_value ?o = CIP_TRANSFER_DELAY * ?r + int k * (24576000 * cip_syt_interval ptz)"
    using assms(1) by (auto simp: cip_clock_def)
  have "c * 3072 + f_integer ?o = (c * 3072 * ?r + f_value ?o) div ?r"
    using c(4) assms(2) by (simp add: f_value_def f_normal_def flip: distrib_right)
  also have "\<dots> = cip_time ?r (cip_syt_interval ptz) k"
    unfolding c(5) cip_time_def using assms(2) by simp
  finally have t: "cip_time ?r (cip_syt_interval ptz) k = c * 3072 + f_integer ?o" by simp
  have "cip_time ?r (cip_syt_interval ptz) k div 3072 = c" "cip_time ?r (cip_syt_interval ptz) k mod 3072 = f_integer ?o"
    unfolding t using c(2,3) by simp_all
  then show ?thesis by (simp add: syt_of_ticks_def c(1) fraction_floor_def)
qed

text \<open>The DBC is a multiple of the SYT interval, so the first sample of a block carries the timestamp.\<close>

lemma syt_index_zero:
  assumes "j < 32"
  shows "(of_int (2 ^ j) - of_int (2 ^ j * z)) AND (of_int (2 ^ j) - 1) = (0 :: i32)"
proof -
  have "(of_int (2 ^ j) - of_int (2 ^ j * z) :: i32) = of_int (push_bit j (1 - z))"
    by (simp add: push_bit_eq_mult algebra_simps)
  moreover have "(of_int (2 ^ j) - 1 :: i32) = mask j" by (simp add: mask_eq_exp_minus_1)
  moreover have "(of_int (push_bit j y) :: i32) AND mask j = 0" for y
    by (rule bit_word_eqI) (auto simp: bit_simps)
  ultimately show ?thesis by simp
qed

lemma cip_next_syt_clock:
  assumes "cip_clock k ptz" and "0 < cip_rate ptz" and "cip_syt_interval ptz = 2 ^ j" and "j < 32"
    and "cip_dbc ptz = of_int (2 ^ j * z)" and "0 \<le> nevents"
  shows "nevents \<noteq> 0 \<Longrightarrow> fst (cip_next_syt ptz nevents) = syt_of_ticks (cip_time (cip_rate ptz) (cip_syt_interval ptz) k)"
    and "cip_clock (if nevents = 0 then k else Suc k) (snd (cip_next_syt ptz nevents))"
proof -
  have idx: "sint ((of_int (cip_syt_interval ptz) - cip_dbc ptz) AND (of_int (cip_syt_interval ptz) - 1)) = 0"
    unfolding assms(3,5) syt_index_zero [OF assms(4)] by simp
  show "fst (cip_next_syt ptz nevents) = syt_of_ticks (cip_time (cip_rate ptz) (cip_syt_interval ptz) k)" if "nevents \<noteq> 0"
    using that assms(6) cip_clock_time [OF assms(1,2)] unfolding cip_next_syt_def idx by (simp add: Let_def)
  show "cip_clock (if nevents = 0 then k else Suc k) (snd (cip_next_syt ptz nevents))"
  proof (cases "nevents = 0")
    case True
    then show ?thesis using assms(1) unfolding cip_next_syt_def idx by simp
  next
    case False
    let ?o = "cip_cycle_offset ptz" and ?r = "cip_rate ptz" and ?t = "cip_ticks_per_syt_offset ptz"
    obtain c where c: "cip_cycle_count ptz = of_int c" "f_normal ?r ?o"
      "c * 3072 * ?r + f_value ?o = CIP_TRANSFER_DELAY * ?r + int k * (24576000 * cip_syt_interval ptz)"
      and t: "?t = fraction_init (24576000 * cip_syt_interval ptz) ?r"
      using assms(1) by (auto simp: cip_clock_def)
    let ?a = "fraction_add ?o ?t"
    have a: "f_normal ?r ?a" "f_value ?a = f_value ?o + 24576000 * cip_syt_interval ptz"
      using fraction_add_value [OF c(2), of ?t] fraction_init_value [OF assms(2)] by (simp_all add: t)
    let ?i = "f_integer ?a"
    have v: "f_value (?a\<lparr>f_integer := ?i mod 3072\<rparr>) = f_value ?a - ?i div 3072 * 3072 * ?r"
      using a(1) by (simp add: f_value_def f_normal_def algebra_simps minus_mult_div_eq_mod [symmetric])
    have "snd (cip_next_syt ptz nevents) = ptz\<lparr>cip_cycle_count := of_int (c + ?i div 3072),
        cip_cycle_offset := ?a\<lparr>f_integer := ?i mod 3072\<rparr>\<rparr>"
      using False assms(6) c(1) unfolding cip_next_syt_def idx by (simp add: Let_def)
    moreover have "f_normal ?r (?a\<lparr>f_integer := ?i mod 3072\<rparr>)" using a(1) by (simp add: f_normal_def)
    ultimately show ?thesis
      using False t v a(2) c(3) unfolding cip_clock_def
      by (auto simp: algebra_simps intro!: exI [of _ "c + ?i div 3072"])
  qed
qed

lemma cip_fill_clock:
  assumes "iec61883_cip_fill_header node ptz = (nevents, p, ptz')" and "cip_clock k ptz" and "0 < cip_rate ptz"
    and "cip_syt_interval ptz = 2 ^ j" and "j < 32" and "cip_dbc ptz = of_int (2 ^ j * z)"
    and "cip_mode ptz \<noteq> NON_BLOCKING"
  shows "cip_clock (if nevents = 0 then k else Suc k) ptz'"
    and "nevents \<noteq> 0 \<Longrightarrow> pk_syt p = syt_of_ticks (cip_time (cip_rate ptz) (cip_syt_interval ptz) k)"
    and "\<exists>z. cip_dbc ptz' = of_int (2 ^ j * z)"
proof -
  let ?q = "ptz\<lparr>cip_ready_samples := fraction_sub_int (fraction_add (cip_ready_samples ptz) (cip_samples_per_cycle ptz)) nevents\<rparr>"
  have n: "nevents = cip_nevents ptz"
    using assms(1) by (simp add: iec61883_cip_fill_header_def Let_def split_beta)
  have nn: "nevents = 0 \<or> nevents = 2 ^ j"
    using assms(4,7) by (cases "cip_mode ptz") (auto simp: n cip_nevents_def Let_def)
  note s = cip_next_syt_clock [of k ?q j z nevents]
  have q: "cip_clock k ?q" using assms(2) by (simp add: cip_clock_def)
  have s1: "nevents \<noteq> 0 \<Longrightarrow> fst (cip_next_syt ?q nevents) = syt_of_ticks (cip_time (cip_rate ptz) (cip_syt_interval ptz) k)"
    and s2: "cip_clock (if nevents = 0 then k else Suc k) (snd (cip_next_syt ?q nevents))"
    using s q assms(3-6) nn by auto
  have p: "pk_syt p = fst (cip_next_syt ?q nevents)"
    and ptz': "ptz' = (snd (cip_next_syt ?q nevents))\<lparr>cip_dbc := cip_dbc ptz
         + of_int (if cip_mode ptz = BLOCKING_NODATA then cip_syt_interval ptz else nevents)\<rparr>"
    using assms(1) by (auto simp: iec61883_cip_fill_header_def Let_def split_beta n)
  show "nevents \<noteq> 0 \<Longrightarrow> pk_syt p = syt_of_ticks (cip_time (cip_rate ptz) (cip_syt_interval ptz) k)"
    using p s1 by simp
  show "cip_clock (if nevents = 0 then k else Suc k) ptz'" using s2 unfolding ptz' cip_clock_def by simp
  have "cip_dbc ptz' = of_int (2 ^ j * z) + of_int (2 ^ j * (if cip_mode ptz = BLOCKING_NODATA \<or> nevents \<noteq> 0 then 1 else 0))"
    using nn unfolding ptz' by (auto simp: assms(4,6))
  then show "\<exists>z. cip_dbc ptz' = of_int (2 ^ j * z)"
    by (auto simp flip: of_int_add distrib_left)
qed

lemma cip_run_clock:
  assumes "cip_run node n ptz = (ps, ptz')" and "cip_ready 0 0 ptz" and "cip_clock 0 ptz" and "cip_dbc ptz = 0"
    and "0 < cip_rate ptz" and "cip_syt_interval ptz = 2 ^ j" and "j < 32"
    and "cip_rate ptz \<le> 8000 * cip_syt_interval ptz" and "cip_mode ptz \<noteq> NON_BLOCKING"
  shows "cip_clock (length (cip_data ps)) ptz' \<and> (\<exists>z. cip_dbc ptz' = of_int (2 ^ j * z))
    \<and> map pk_syt (cip_data ps) = map (syt_of_ticks \<circ> cip_time (cip_rate ptz) (cip_syt_interval ptz)) [0..<length (cip_data ps)]"
  using assms(1)
proof (induction n arbitrary: ps ptz')
  case 0
  then show ?case using assms(3,4) by (auto simp: cip_data_def intro!: exI [of _ 0])
next
  case (Suc n)
  obtain qs mid where run: "cip_run node n ptz = (qs, mid)" by fastforce
  obtain m p where fill: "iec61883_cip_fill_header node mid = (m, p, ptz')" and ps: "ps = qs @ [(m, p)]"
    using Suc(2) run by (auto split: prod.splits)
  have nn: "0 < cip_syt_interval ptz" "0 \<le> cip_rate ptz" using assms(5,6) by simp_all
  note r = cip_run_ready [OF run assms(2) nn assms(8)]
  obtain z where z: "cip_dbc mid = of_int (2 ^ j * z)" using Suc.IH [OF run] by blast
  note f = cip_fill_clock [OF fill, of "length (cip_data qs)" j z]
  have "cip_data ps = cip_data qs @ (if m = 0 then [] else [p])" by (simp add: ps cip_data_def)
  then show ?case using f Suc.IH [OF run] z assms(5-7,9) r(3-5) by auto
qed



end
