(* ===== verification/AmdtpPorts.thy ===== *)
theory AmdtpPorts
  imports StreamStates Cip
begin

text \<open>
  The ports of the AMDTP stream processors and the conversion of samples, from
  \<^verbatim>\<open>libstreaming/amdtp/AmdtpReceiveStreamProcessor.cpp\<close> and \<^verbatim>\<open>AmdtpTransmitStreamProcessor.cpp\<close>: the port
  cache both classes keep, the decoding of received events into the buffers of the ports, and the
  encoding of the buffers into events, plain and with SSE2. A block of events is an array of
  bytes; the events are its quadlets in bus order. A pointer to a port is its address, a pointer to
  the buffer of a port the address of that port. Reading or writing outside an array is \<open>None\<close>.
\<close>

section \<open>Events\<close>

definition bus_quadlet :: "u8 list \<Rightarrow> nat \<Rightarrow> u32 option" where
  "bus_quadlet d k = (if 4 * k + 4 \<le> length d then Some (host_quadlet True (take 4 (drop (4 * k) d))) else None)"

text \<open>Stores of quadlets: a list of places and values, on a host of either byte order.\<close>

fun store_events :: "bool \<Rightarrow> u8 list \<Rightarrow> (nat \<times> u32) list \<Rightarrow> u8 list option" where
  "store_events be d [] = Some d"
| "store_events be d ((k, v) # ws) = do { d \<leftarrow> store_at d (4 * k) (host_bytes be v); store_events be d ws }"

text \<open>The events of one port: its place in the first frame, then one frame further each time.\<close>

definition column :: "nat \<Rightarrow> nat \<Rightarrow> 'v list \<Rightarrow> (nat \<times> 'v) list" where
  "column i width vs = zip (map (\<lambda>j. i + j * width) [0..<length vs]) vs"

definition get_column :: "u8 list \<Rightarrow> nat \<Rightarrow> nat \<Rightarrow> nat \<Rightarrow> u32 list option" where
  "get_column d i width n = those (map (\<lambda>j. bus_quadlet d (i + j * width)) [0..<n])"

definition IEC61883_AM824_SET_LABEL :: "u32 \<Rightarrow> u32 \<Rightarrow> u32" where
  "IEC61883_AM824_SET_LABEL x y = x OR push_bit 24 y"

definition IEC61883_AM824_HAS_LABEL :: "u32 \<Rightarrow> u32 \<Rightarrow> bool" where
  "IEC61883_AM824_HAS_LABEL x lbl \<longleftrightarrow> x AND 0xFF000000 = push_bit 24 lbl"

definition IEC61883_AM824_LABEL_MIDI_NO_DATA :: u32 where [consts_defs]: "IEC61883_AM824_LABEL_MIDI_NO_DATA = 0x80"
definition IEC61883_AM824_LABEL_MIDI_1X :: u32 where [consts_defs]: "IEC61883_AM824_LABEL_MIDI_1X = 0x81"

section \<open>The port cache\<close>

text \<open>\<open>c_buffer\<close> and \<open>c_enabled\<close> are valid after \<^verbatim>\<open>updatePortCache\<close>; \<open>c_buffer_size\<close> exists with \<^verbatim>\<open>DEBUG\<close>.\<close>

record mbla_port_cache =
  c_port :: nat
  c_buffer :: "nat option"
  c_enabled :: bool
  c_buffer_size :: u32

record midi_port_cache = mbla_port_cache +
  c_position :: u32
  c_location :: u32

text \<open>The members both AMDTP classes declare.\<close>

record amdtp_processor = stream_processor +
  m_dimension :: u32
  m_syt_interval :: u32
  m_audio_ports :: "mbla_port_cache list"
  m_nb_audio_ports :: u32
  m_midi_ports :: "midi_port_cache list"
  m_nb_midi_ports :: u32

definition is_AmdtpAudioPort :: "port \<Rightarrow> bool" where
  "is_AmdtpAudioPort p \<longleftrightarrow> p_info p \<noteq> None \<and> m_PortType p = E_Audio"

definition is_AmdtpMidiPort :: "port \<Rightarrow> bool" where
  "is_AmdtpMidiPort p \<longleftrightarrow> p_info p \<noteq> None \<and> m_PortType p = E_Midi"

definition has_format :: "E_Formats \<Rightarrow> port \<Rightarrow> bool" where
  "has_format f p = (case p_info p of None \<Rightarrow> False | Some i \<Rightarrow> m_format i = f)"

definition has_position :: "u32 \<Rightarrow> port \<Rightarrow> bool" where
  "has_position k p = (case p_info p of None \<Rightarrow> False | Some i \<Rightarrow> m_position i = k)"

fun cache_audio :: "port list \<Rightarrow> nat list \<Rightarrow> mbla_port_cache list \<Rightarrow> bool \<times> mbla_port_cache list" where
  "cache_audio ports [] acc = (True, acc)"
| "cache_audio ports (idx # rest) acc =
     (case find (has_position (of_nat idx)) ports of
        None \<Rightarrow> (False, acc)
      | Some p \<Rightarrow>
          if \<not> is_AmdtpAudioPort p then (False, acc)
          else cache_audio ports rest
                 (acc @ [\<lparr>c_port = p_addr p, c_buffer = None, c_enabled = False, c_buffer_size = m_buffersize p\<rparr>]))"

fun cache_midi :: "port list \<Rightarrow> midi_port_cache list \<Rightarrow> bool \<times> midi_port_cache list" where
  "cache_midi [] acc = (True, acc)"
| "cache_midi (p # ps) acc =
     (if m_PortType p = E_Midi then
        case p_info p of
          None \<Rightarrow> (False, acc)
        | Some i \<Rightarrow> cache_midi ps
            (acc @ [\<lparr>c_port = p_addr p, c_buffer = None, c_enabled = False, c_buffer_size = m_buffersize p,
                     c_position = m_position i, c_location = m_location i\<rparr>])
      else cache_midi ps acc)"

text \<open>A port that is no AMDTP port fails the assertion.\<close>

definition initPortCache :: "'m amdtp_processor_scheme \<Rightarrow> (bool \<times> 'm amdtp_processor_scheme) option" where
  "initPortCache s =
     (if \<not> list_all (\<lambda>p. p_info p \<noteq> None) (m_Ports s) then None
      else
        let na = length (filter (has_format Format_MBLA) (m_Ports s));
            nm = length (filter (has_format Format_Midi) (m_Ports s));
            (ok, as) = cache_audio (m_Ports s) [0..<na] [];
            s = s\<lparr>m_nb_audio_ports := of_nat na, m_nb_midi_ports := of_nat nm, m_audio_ports := as, m_midi_ports := []\<rparr>
        in if \<not> ok then Some (False, s)
           else let (ok, ms) = cache_midi (m_Ports s) [] in Some (ok, s\<lparr>m_midi_ports := ms\<rparr>))"

definition lookup_port :: "port list \<Rightarrow> nat \<Rightarrow> port option" where
  "lookup_port ports a = find (\<lambda>p. p_addr p = a) ports"

definition refresh_cache :: "port list \<Rightarrow> 'c mbla_port_cache_scheme \<Rightarrow> 'c mbla_port_cache_scheme option" where
  "refresh_cache ports c =
     do { p \<leftarrow> lookup_port ports (c_port c);
          Some (c\<lparr>c_buffer := (if m_buffer p = None then None else Some (p_addr p)),
                  c_enabled := \<not> m_disabled p, c_buffer_size := m_buffersize p\<rparr>) }"

text \<open>\<^verbatim>\<open>at\<close> throws when the vector is shorter than the count.\<close>

definition refresh_caches ::
  "port list \<Rightarrow> u32 \<Rightarrow> 'c mbla_port_cache_scheme list \<Rightarrow> 'c mbla_port_cache_scheme list option" where
  "refresh_caches ports nb cs =
     (if length cs < unat nb then None
      else map_option (\<lambda>rs. rs @ drop (unat nb) cs) (those (map (refresh_cache ports) (take (unat nb) cs))))"

definition updatePortCache :: "'m amdtp_processor_scheme \<Rightarrow> 'm amdtp_processor_scheme option" where
  "updatePortCache s =
     do { as \<leftarrow> refresh_caches (m_Ports s) (m_nb_audio_ports s) (m_audio_ports s);
          ms \<leftarrow> refresh_caches (m_Ports s) (m_nb_midi_ports s) (m_midi_ports s);
          Some (s\<lparr>m_audio_ports := as, m_midi_ports := ms\<rparr>) }"

text \<open>The cached entries the loops over all audio or MIDI ports visit.\<close>

definition cached :: "u32 \<Rightarrow> 'c list \<Rightarrow> 'c list option" where
  "cached nb cs = (if length cs < unat nb then None else Some (take (unat nb) cs))"

definition active :: "'c mbla_port_cache_scheme \<Rightarrow> nat option" where
  "active c = (if c_enabled c then c_buffer c else None)"

definition with_buffer :: "port list \<Rightarrow> nat \<Rightarrow> (port_buffer option \<Rightarrow> port_buffer option) \<Rightarrow> port list option" where
  "with_buffer ports a f =
     do { p \<leftarrow> lookup_port ports a; b \<leftarrow> f (m_buffer p);
          Some (map (\<lambda>q. if p_addr q = a then q\<lparr>m_buffer := Some b\<rparr> else q) ports) }"

definition debug_fits :: "sp_env \<Rightarrow> u32 \<Rightarrow> u32 \<Rightarrow> 'c mbla_port_cache_scheme \<Rightarrow> bool" where
  "debug_fits e offset nevents c \<longleftrightarrow> (debug_build e \<longrightarrow> nevents + offset \<le> c_buffer_size c)"

section \<open>Decoding\<close>

definition decode_int24 :: "u32 \<Rightarrow> u32" where
  "decode_int24 v = v AND 0x00FFFFFF"

text \<open>The sign extension: \<^verbatim>\<open>(int)(v << 8) / 256\<close>.\<close>

definition sign_extend_24 :: "u32 \<Rightarrow> int" where
  "sign_extend_24 v = trunc_rat (of_int (sint (push_bit 8 (v AND 0x00FFFFFF) :: i32)) / 256)"

definition decode_float :: "sp_env \<Rightarrow> u32 \<Rightarrow> rat" where
  "decode_float e v =
     rflt (fpa e) (rflt (fpa e) (of_int (sign_extend_24 v)) * rflt (fpa e) (1 / 8388607))"

fun decode_ports ::
  "(u32 list \<Rightarrow> port_buffer option \<Rightarrow> port_buffer option) \<Rightarrow> (mbla_port_cache \<Rightarrow> bool) \<Rightarrow> nat \<Rightarrow> nat
   \<Rightarrow> u8 list \<Rightarrow> nat \<Rightarrow> mbla_port_cache list \<Rightarrow> port list \<Rightarrow> port list option" where
  "decode_ports put fits width n data i [] ports = Some ports"
| "decode_ports put fits width n data i (c # cs) ports =
     (if \<not> fits c then None
      else case active c of
             None \<Rightarrow> decode_ports put fits width n data (Suc i) cs ports
           | Some a \<Rightarrow> do { vs \<leftarrow> get_column data i width n;
                           ports \<leftarrow> with_buffer ports a (put vs);
                           decode_ports put fits width n data (Suc i) cs ports })"

definition decodeAudioPortsInt24 ::
  "sp_env \<Rightarrow> u8 list \<Rightarrow> u32 \<Rightarrow> u32 \<Rightarrow> 'm amdtp_processor_scheme \<Rightarrow> 'm amdtp_processor_scheme option" where
  "decodeAudioPortsInt24 e data offset nevents s =
     do { cs \<leftarrow> cached (m_nb_audio_ports s) (m_audio_ports s);
          ps \<leftarrow> decode_ports (\<lambda>vs b. store_quadlets b (unat offset) (map decode_int24 vs)) (debug_fits e offset nevents)
                 (unat (m_dimension s)) (unat nevents) data 0 cs (m_Ports s);
          Some (s\<lparr>m_Ports := ps\<rparr>) }"

definition decodeAudioPortsFloat ::
  "sp_env \<Rightarrow> u8 list \<Rightarrow> u32 \<Rightarrow> u32 \<Rightarrow> 'm amdtp_processor_scheme \<Rightarrow> 'm amdtp_processor_scheme option" where
  "decodeAudioPortsFloat e data offset nevents s =
     do { cs \<leftarrow> cached (m_nb_audio_ports s) (m_audio_ports s);
          ps \<leftarrow> decode_ports (\<lambda>vs b. store_floats b (unat offset) (map (decode_float e) vs)) (debug_fits e offset nevents)
                 (unat (m_dimension s)) (unat nevents) data 0 cs (m_Ports s);
          Some (s\<lparr>m_Ports := ps\<rparr>) }"

section \<open>Encoding\<close>

text \<open>The samples of a port: \<open>n\<close> elements of its buffer from an offset.\<close>

definition buffer_quadlets :: "port_buffer option \<Rightarrow> nat \<Rightarrow> nat \<Rightarrow> u32 list option" where
  "buffer_quadlets b off n =
     (case b of Some (Quadlets xs) \<Rightarrow> if off + n \<le> length xs then Some (take n (drop off xs)) else None | _ \<Rightarrow> None)"

definition buffer_floats :: "port_buffer option \<Rightarrow> nat \<Rightarrow> nat \<Rightarrow> rat list option" where
  "buffer_floats b off n =
     (case b of Some (Floats xs) \<Rightarrow> if off + n \<le> length xs then Some (take n (drop off xs)) else None | _ \<Rightarrow> None)"

definition port_samples ::
  "(port_buffer option \<Rightarrow> nat \<Rightarrow> nat \<Rightarrow> 'v list option) \<Rightarrow> port list \<Rightarrow> nat \<Rightarrow> nat \<Rightarrow> nat \<Rightarrow> 'v list option" where
  "port_samples rd ports off n a = do { p \<leftarrow> lookup_port ports a; rd (m_buffer p) off n }"

definition AM824_SILENCE :: u32 where "AM824_SILENCE = 0x40000000"

definition encode_int24 :: "u32 \<Rightarrow> u32" where
  "encode_int24 v = (v AND 0x00FFFFFF) OR 0x40000000"

definition encode_float :: "sp_env \<Rightarrow> rat \<Rightarrow> u32" where
  "encode_float e v =
     (if v > 1 then 0x407FFFFF
      else if v < - 1 then 0x40800001
      else (of_int (trunc_rat (rflt (fpa e) (v * 8388607))) AND 0x00FFFFFF) OR 0x40000000)"

fun encode_ports ::
  "(nat \<Rightarrow> u32 list option) \<Rightarrow> (mbla_port_cache \<Rightarrow> bool) \<Rightarrow> nat \<Rightarrow> nat \<Rightarrow> nat \<Rightarrow> mbla_port_cache list \<Rightarrow> u8 list
   \<Rightarrow> u8 list option" where
  "encode_ports samples fits width n i [] data = Some data"
| "encode_ports samples fits width n i (c # cs) data =
     (if \<not> fits c then None
      else do { vs \<leftarrow> (case active c of None \<Rightarrow> Some (replicate n AM824_SILENCE) | Some a \<Rightarrow> samples a);
                data \<leftarrow> store_events True data (column i width vs);
                encode_ports samples fits width n (Suc i) cs data })"

definition encodeAudioPortsSilence :: "u8 list \<Rightarrow> u32 \<Rightarrow> u32 \<Rightarrow> 'm amdtp_processor_scheme \<Rightarrow> u8 list option" where
  "encodeAudioPortsSilence data offset nevents s =
     store_events True data
       (concat (map (\<lambda>i. column i (unat (m_dimension s)) (replicate (unat nevents) AM824_SILENCE))
                  [0..<unat (m_nb_audio_ports s)]))"

definition encodeAudioPortsInt24 ::
  "sp_env \<Rightarrow> u8 list \<Rightarrow> u32 \<Rightarrow> u32 \<Rightarrow> 'm amdtp_processor_scheme \<Rightarrow> (u8 list \<times> 'm amdtp_processor_scheme) option" where
  "encodeAudioPortsInt24 e data offset nevents s =
     do { cs \<leftarrow> cached (m_nb_audio_ports s) (m_audio_ports s);
          data \<leftarrow> encode_ports
            (\<lambda>a. map_option (map encode_int24) (port_samples buffer_quadlets (m_Ports s) (unat offset) (unat nevents) a))
            (debug_fits e offset nevents) (unat (m_dimension s)) (unat nevents) 0 cs data;
          Some (data, s) }"

definition encodeAudioPortsFloat ::
  "sp_env \<Rightarrow> u8 list \<Rightarrow> u32 \<Rightarrow> u32 \<Rightarrow> 'm amdtp_processor_scheme \<Rightarrow> (u8 list \<times> 'm amdtp_processor_scheme) option" where
  "encodeAudioPortsFloat e data offset nevents s =
     do { cs \<leftarrow> cached (m_nb_audio_ports s) (m_audio_ports s);
          data \<leftarrow> encode_ports
            (\<lambda>a. map_option (map (encode_float e)) (port_samples buffer_floats (m_Ports s) (unat offset) (unat nevents) a))
            (debug_fits e offset nevents) (unat (m_dimension s)) (unat nevents) 0 cs data;
          Some (data, s) }"

section \<open>Encoding with SSE2\<close>

text \<open>
  The four lanes of a vector are treated alike. The swap of the bytes exchanges the bytes of
  each 16-bit half, then the halves. A conversion out of the range of \<^verbatim>\<open>int\<close> gives
  \<^verbatim>\<open>0x80000000\<close>.
\<close>

definition sse_swap :: "u32 \<Rightarrow> u32" where
  "sse_swap v =
     (let v = (push_bit 8 v AND 0xFF00FF00) OR (drop_bit 8 v AND 0x00FF00FF)
      in push_bit 16 v OR drop_bit 16 v)"

definition cvttps_epi32 :: "rat \<Rightarrow> u32" where
  "cvttps_epi32 x = (if - 2147483648 \<le> trunc_rat x \<and> trunc_rat x < 2147483648 then of_int (trunc_rat x) else 0x80000000)"

definition sse_int24 :: "u32 \<Rightarrow> u32" where
  "sse_int24 v = sse_swap ((v AND 0x00FFFFFF) OR 0x40000000)"

definition sse_float :: "sp_env \<Rightarrow> rat \<Rightarrow> u32" where
  "sse_float e v = sse_swap ((cvttps_epi32 (rflt (fpa e) (min (max v (- 1)) 1 * 8388607)) AND 0x00FFFFFF) OR 0x40000000)"

text \<open>Four ports at a time: one store of 16 bytes per frame.\<close>

fun sse_store_rows :: "u8 list \<Rightarrow> nat \<Rightarrow> nat \<Rightarrow> (u32 \<times> u32 \<times> u32 \<times> u32) list \<Rightarrow> u8 list option" where
  "sse_store_rows d k width [] = Some d"
| "sse_store_rows d k width ((a, b, c, v) # rows) =
     do { d \<leftarrow> store_at d (4 * k) (host_bytes False a @ host_bytes False b @ host_bytes False c @ host_bytes False v);
          sse_store_rows d (k + width) width rows }"

definition sse_source :: "(nat \<Rightarrow> 'v list option) \<Rightarrow> 'v list \<Rightarrow> mbla_port_cache \<Rightarrow> 'v list option" where
  "sse_source samples zeros c = (case active c of None \<Rightarrow> Some zeros | Some a \<Rightarrow> samples a)"

text \<open>
  The remaining ports: four frames at a time, so the last turn reads and writes up to three frames
  more than asked for; the loop for the remaining events never has anything to do.
\<close>

definition round_up_4 :: "nat \<Rightarrow> nat" where
  "round_up_4 n = (n + 3) div 4 * 4"

fun sse_rest ::
  "('v \<Rightarrow> u32) \<Rightarrow> (nat \<Rightarrow> nat \<Rightarrow> 'v list option) \<Rightarrow> (mbla_port_cache \<Rightarrow> bool) \<Rightarrow> nat \<Rightarrow> nat \<Rightarrow> nat \<Rightarrow> mbla_port_cache list
   \<Rightarrow> u8 list \<Rightarrow> u8 list option" where
  "sse_rest conv samples fits width n i [] data = Some data"
| "sse_rest conv samples fits width n i (c # cs) data =
     (if \<not> fits c then None
      else do { vs \<leftarrow> (case active c of None \<Rightarrow> Some (replicate n 0x00000040)
                       | Some a \<Rightarrow> map_option (map conv) (samples (round_up_4 n) a));
                data \<leftarrow> store_events False data (column i width vs);
                sse_rest conv samples fits width n (Suc i) cs data })"

fun sse_ports ::
  "('v \<Rightarrow> u32) \<Rightarrow> (nat \<Rightarrow> nat \<Rightarrow> 'v list option) \<Rightarrow> 'v list \<Rightarrow> (mbla_port_cache \<Rightarrow> bool) \<Rightarrow> nat \<Rightarrow> nat \<Rightarrow> nat
   \<Rightarrow> mbla_port_cache list \<Rightarrow> u8 list \<Rightarrow> u8 list option" where
  "sse_ports conv samples zeros fits width n i (c0 # c1 # c2 # c3 # c4 # cs) data =
     do { v0 \<leftarrow> sse_source (samples n) zeros c0; v1 \<leftarrow> sse_source (samples n) zeros c1;
          v2 \<leftarrow> sse_source (samples n) zeros c2; v3 \<leftarrow> sse_source (samples n) zeros c3;
          data \<leftarrow> sse_store_rows data i width
                   (zip (map conv v0) (zip (map conv v1) (zip (map conv v2) (map conv v3))));
          sse_ports conv samples zeros fits width n (i + 4) (c4 # cs) data }"
| "sse_ports conv samples zeros fits width n i cs data = sse_rest conv samples fits width n i cs data"

text \<open>The scratch buffer must be longer than the samples of one port; it is cleared for them.\<close>

definition clear_scratch :: "u32 \<Rightarrow> 'm stream_processor_scheme \<Rightarrow> 'm stream_processor_scheme option" where
  "clear_scratch nevents s =
     (if \<not> m_scratch_buffer_size_bytes s > ucast (nevents * 4) then None
      else do { b \<leftarrow> m_scratch_buffer s;
                b \<leftarrow> store_at b 0 (replicate (unat (nevents * 4)) 0);
                Some (s\<lparr>m_scratch_buffer := Some b\<rparr>) })"

definition encodeAudioPortsInt24_sse ::
  "sp_env \<Rightarrow> u8 list \<Rightarrow> u32 \<Rightarrow> u32 \<Rightarrow> 'm amdtp_processor_scheme \<Rightarrow> (u8 list \<times> 'm amdtp_processor_scheme) option" where
  "encodeAudioPortsInt24_sse e data offset nevents s =
     do { s \<leftarrow> clear_scratch nevents s;
          cs \<leftarrow> cached (m_nb_audio_ports s) (m_audio_ports s);
          data \<leftarrow> sse_ports sse_int24 (\<lambda>n. port_samples buffer_quadlets (m_Ports s) (unat offset) n)
            (replicate (unat nevents) 0) (debug_fits e offset nevents) (unat (m_dimension s)) (unat nevents) 0 cs data;
          Some (data, s) }"

definition encodeAudioPortsFloat_sse ::
  "sp_env \<Rightarrow> u8 list \<Rightarrow> u32 \<Rightarrow> u32 \<Rightarrow> 'm amdtp_processor_scheme \<Rightarrow> (u8 list \<times> 'm amdtp_processor_scheme) option" where
  "encodeAudioPortsFloat_sse e data offset nevents s =
     do { s \<leftarrow> clear_scratch nevents s;
          cs \<leftarrow> cached (m_nb_audio_ports s) (m_audio_ports s);
          data \<leftarrow> sse_ports (sse_float e) (\<lambda>n. port_samples buffer_floats (m_Ports s) (unat offset) n)
            (replicate (unat nevents) 0) (debug_fits e offset nevents) (unat (m_dimension s)) (unat nevents) 0 cs data;
          Some (data, s) }"

section \<open>MIDI\<close>

text \<open>The frames of a MIDI port: its location, then every eighth.\<close>

definition midi_frames :: "nat \<Rightarrow> nat \<Rightarrow> nat list" where
  "midi_frames location n = map (\<lambda>k. location + 8 * k) [0..<(n + 7 - location) div 8]"

definition midi_place :: "u32 \<Rightarrow> midi_port_cache \<Rightarrow> nat \<Rightarrow> nat" where
  "midi_place dimension c j = unat (of_nat j * dimension + c_position c)"

definition MIDI_NO_DATA :: u32 where
  "MIDI_NO_DATA = IEC61883_AM824_SET_LABEL 0 IEC61883_AM824_LABEL_MIDI_NO_DATA"

definition midi_silence :: "u32 \<Rightarrow> nat \<Rightarrow> midi_port_cache \<Rightarrow> (nat \<times> u32) list" where
  "midi_silence dimension n c = map (\<lambda>j. (midi_place dimension c j, MIDI_NO_DATA)) (midi_frames (unat (c_location c)) n)"

definition encodeMidiPortsSilence :: "u8 list \<Rightarrow> u32 \<Rightarrow> u32 \<Rightarrow> 'm amdtp_processor_scheme \<Rightarrow> u8 list option" where
  "encodeMidiPortsSilence data offset nevents s =
     do { cs \<leftarrow> cached (m_nb_midi_ports s) (m_midi_ports s);
          store_events True data (concat (map (midi_silence (m_dimension s) (unat nevents)) cs)) }"

definition encode_midi :: "u32 \<Rightarrow> u32" where
  "encode_midi v =
     (if v AND 0xFF000000 \<noteq> 0
      then IEC61883_AM824_SET_LABEL (push_bit 16 v AND 0x00FF0000) IEC61883_AM824_LABEL_MIDI_1X
      else MIDI_NO_DATA)"

text \<open>The element of the buffer for the \<open>k\<close>-th slot is 8 \<open>k\<close> places behind the offset, whatever the location.\<close>

definition midi_events :: "port list \<Rightarrow> u32 \<Rightarrow> nat \<Rightarrow> nat \<Rightarrow> midi_port_cache \<Rightarrow> (nat \<times> u32) list option" where
  "midi_events ports dimension off n c =
     (case active c of
        None \<Rightarrow> Some (midi_silence dimension n c)
      | Some a \<Rightarrow>
          let js = midi_frames (unat (c_location c)) n
          in do { vs \<leftarrow> those (map (\<lambda>k. map_option hd (port_samples buffer_quadlets ports (off + 8 * k) 1 a)) [0..<length js]);
                  Some (zip (map (midi_place dimension c) js) (map encode_midi vs)) })"

definition encodeMidiPorts :: "u8 list \<Rightarrow> u32 \<Rightarrow> u32 \<Rightarrow> 'm amdtp_processor_scheme \<Rightarrow> u8 list option" where
  "encodeMidiPorts data offset nevents s =
     do { cs \<leftarrow> cached (m_nb_midi_ports s) (m_midi_ports s);
          wss \<leftarrow> those (map (midi_events (m_Ports s) (m_dimension s) (unat offset) (unat nevents)) cs);
          store_events True data (concat wss) }"

section \<open>Stores\<close>

lemma host_roundtrip [simp]: "host_quadlet True (host_bytes True v) = v"
  by (rule word_eq_bits) (simp add: host_quadlet_def host_bytes_def Let_def word_bits_simps)

lemma host_bytes_swap: "host_bytes False (sse_swap v) = host_bytes True v"
proof -
  have "ucast (sse_swap v) = (ucast (drop_bit 24 v) :: u8)"
    "ucast (drop_bit 8 (sse_swap v)) = (ucast (drop_bit 16 v) :: u8)"
    "ucast (drop_bit 16 (sse_swap v)) = (ucast (drop_bit 8 v) :: u8)"
    "ucast (drop_bit 24 (sse_swap v)) = (ucast v :: u8)"
    by (rule word_eq_bits, simp add: sse_swap_def Let_def word_bits_simps)+
  then show ?thesis by (simp add: host_bytes_def Let_def)
qed

lemma length_store_at: "store_at xs off vs = Some ys \<Longrightarrow> length ys = length xs"
  by (auto simp: store_at_def split: if_splits)

lemma nth_store_at:
  assumes "store_at xs off vs = Some ys" and "b < length xs"
  shows "ys ! b = (if off \<le> b \<and> b < off + length vs then vs ! (b - off) else xs ! b)"
proof -
  have "off + length vs \<le> length xs" and ys: "ys = take off xs @ vs @ drop (off + length vs) xs"
    using assms(1) by (auto simp: store_at_def split: if_splits)
  then show ?thesis using assms(2) by (auto simp: ys nth_append)
qed

text \<open>The outcome of a list of stores: the last store to a place counts.\<close>

definition apply_events :: "bool \<Rightarrow> u8 list \<Rightarrow> (nat \<times> u32) list \<Rightarrow> u8 list" where
  "apply_events be d ws =
     map (\<lambda>b. case map_of (rev ws) (b div 4) of None \<Rightarrow> d ! b | Some v \<Rightarrow> host_bytes be v ! (b mod 4)) [0..<length d]"

definition in_block :: "u8 list \<Rightarrow> (nat \<times> u32) list \<Rightarrow> bool" where
  "in_block d ws \<longleftrightarrow> (\<forall>w\<in>set ws. 4 * fst w + 4 \<le> length d)"

lemma in_block_append [simp]: "in_block d (us @ ws) \<longleftrightarrow> in_block d us \<and> in_block d ws"
  by (auto simp: in_block_def)

lemma length_apply_events [simp]: "length (apply_events be d ws) = length d"
  by (simp add: apply_events_def)

lemma store_events_apply:
  "store_events be d ws = (if in_block d ws then Some (apply_events be d ws) else None)"
proof (induction ws arbitrary: d)
  case Nil
  then show ?case by (simp add: in_block_def apply_events_def map_nth)
next
  case (Cons w ws)
  obtain k v where w: "w = (k, v)" by (cases w)
  show ?case
  proof (cases "store_at d (4 * k) (host_bytes be v)")
    case None
    then show ?thesis by (auto simp: w in_block_def store_at_def split: if_splits)
  next
    case (Some d')
    then have k: "4 * k + 4 \<le> length d" by (auto simp: store_at_def split: if_splits)
    have "apply_events be d' ws = apply_events be d (w # ws)"
    proof (rule nth_equalityI)
      fix b
      assume "b < length (apply_events be d' ws)"
      then have b: "b < length d" using length_store_at [OF Some] by simp
      have "d' ! b = (if b div 4 = k then host_bytes be v ! (b mod 4) else d ! b)"
      proof (cases "b div 4 = k")
        case True
        then have "4 * k \<le> b \<and> b < 4 * k + 4" "b - 4 * k = b mod 4" by (auto simp: minus_mult_div_eq_mod)
        then show ?thesis using True nth_store_at [OF Some b] by simp
      next
        case False
        then have "\<not> (4 * k \<le> b \<and> b < 4 * k + 4)" by auto
        then show ?thesis using False nth_store_at [OF Some b] by (simp only: length_host_bytes if_False)
      qed
      then show "apply_events be d' ws ! b = apply_events be d (w # ws) ! b"
        using b length_store_at [OF Some] by (auto simp: apply_events_def w map_add_def split: option.splits)
    qed (simp add: length_store_at [OF Some])
    then show ?thesis using Some k Cons.IH [of d'] length_store_at [OF Some] by (simp add: w in_block_def)
  qed
qed

lemma store_events_append:
  "store_events be d (us @ ws) = do { d \<leftarrow> store_events be d us; store_events be d ws }"
  by (induction be d us rule: store_events.induct) (auto split: bind_splits)

text \<open>Stores to different places may be done in any order.\<close>

lemma store_events_set_eq:
  assumes "set us = set ws" and "length us = length ws" and "distinct (map fst ws)"
  shows "store_events be d us = store_events be d ws"
proof -
  have "card (set (map fst us)) = length (map fst us)"
    using assms distinct_card [OF assms(3)] by simp
  then have "distinct (map fst us)" by (rule card_distinct)
  then have "map_of (rev us) = map_of (rev ws)"
    using assms map_of_inject_set [of "rev us" "rev ws"] by (simp add: rev_map [symmetric])
  then show ?thesis using assms(1) by (simp add: store_events_apply apply_events_def in_block_def)
qed

lemma bus_quadlet_apply:
  assumes "4 * k + 4 \<le> length d"
  shows "bus_quadlet (apply_events True d ws) k
       = Some (case map_of (rev ws) k of None \<Rightarrow> host_quadlet True (take 4 (drop (4 * k) d)) | Some v \<Rightarrow> v)"
proof -
  have "take 4 (drop (4 * k) (apply_events True d ws)) =
      (case map_of (rev ws) k of None \<Rightarrow> take 4 (drop (4 * k) d) | Some v \<Rightarrow> host_bytes True v)" (is "?l = ?r")
  proof (rule nth_equalityI)
    show "length ?l = length ?r" using assms by (simp split: option.splits)
    fix b
    assume "b < length ?l"
    then have b: "b < 4" by simp
    then have "(4 * k + b) div 4 = k" "(4 * k + b) mod 4 = b" by simp_all
    then show "?l ! b = ?r ! b" using b assms by (simp add: apply_events_def split: option.splits)
  qed
  then show ?thesis using assms by (simp add: bus_quadlet_def split: option.splits)
qed

text \<open>The columns of different ports do not meet.\<close>

lemma column_map: "column i width vs = map (\<lambda>j. (i + j * width, vs ! j)) [0..<length vs]"
  by (rule nth_equalityI) (simp_all add: column_def)

lemma distinct_column: "0 < width \<Longrightarrow> distinct (map fst (column i width vs))"
  by (simp add: column_def distinct_map inj_on_def)

lemma column_places_disjoint:
  fixes i i' j j' width :: nat
  assumes "i < width" and "i' < width" and "i + j * width = i' + j' * width"
  shows "i = i'" and "j = j'"
proof -
  have "(i + j * width) mod width = i" "(i' + j' * width) mod width = i'" using assms(1,2) by simp_all
  then show "i = i'" using assms(3) by simp
  then show "j = j'" using assms by simp
qed

text \<open>The events of several ports side by side, port by port.\<close>

fun columns :: "nat \<Rightarrow> nat \<Rightarrow> 'v list list \<Rightarrow> (nat \<times> 'v) list" where
  "columns i width [] = []"
| "columns i width (vs # vss) = column i width vs @ columns (Suc i) width vss"

lemma set_columns:
  "set (columns i width vss) = {(i + l + j * width, vss ! l ! j) | l j. l < length vss \<and> j < length (vss ! l)}"
proof (induction vss arbitrary: i)
  case (Cons vs vss)
  show ?case (is "?l = ?r")
  proof
    show "?l \<subseteq> ?r" by (force simp: Cons.IH column_map)
    show "?r \<subseteq> ?l"
    proof
      fix x
      assume "x \<in> ?r"
      then obtain l j where x: "x = (i + l + j * width, (vs # vss) ! l ! j)" "l < Suc (length vss)" "j < length ((vs # vss) ! l)"
        by auto
      then show "x \<in> ?l" by (cases l) (auto simp: Cons.IH column_map)
    qed
  qed
qed simp

lemma distinct_columns:
  assumes "i + length vss \<le> width"
  shows "distinct (map fst (columns i width vss))"
  using assms
proof (induction vss arbitrary: i)
  case (Cons vs vss)
  have False if x1: "x \<in> fst ` set (column i width vs)" and x2: "x \<in> fst ` set (columns (Suc i) width vss)" for x
  proof -
    have "x \<in> (\<lambda>j. i + j * width) ` {0..<length vs}" using x1 by (simp add: column_map image_image)
    then obtain j where j: "x = i + j * width" by (rule imageE)
    obtain l j' where l: "x = (Suc i + l) + j' * width" "l < length vss" using x2 by (auto simp: set_columns)
    have "i = Suc i + l" by (rule column_places_disjoint(1) [of _ width _ j j']) (use Cons.prems j l in simp_all)
    then show False by simp
  qed
  then have "fst ` set (column i width vs) \<inter> fst ` set (columns (Suc i) width vss) = {}" by blast
  then show ?case using Cons by (simp add: distinct_column)
qed simp

section \<open>Equivalence of the plain and the SSE2 encoders\<close>

lemma store_events_swap: "store_events False d (map (apsnd sse_swap) ws) = store_events True d ws"
  by (induction ws arbitrary: d) (auto simp: host_bytes_swap split: bind_splits)

lemma column_map_values: "column i width (map f vs) = map (apsnd f) (column i width vs)"
  by (simp add: column_map)

lemma store_column_swap: "store_events False d (column i width (map sse_swap vs)) = store_events True d (column i width vs)"
  by (simp only: column_map_values store_events_swap)

definition encode_source :: "(nat \<Rightarrow> u32 list option) \<Rightarrow> nat \<Rightarrow> mbla_port_cache \<Rightarrow> u32 list option" where
  "encode_source samples n c = (case active c of None \<Rightarrow> Some (replicate n AM824_SILENCE) | Some a \<Rightarrow> samples a)"

lemma encode_ports_Cons:
  "encode_ports samples fits width n i (c # cs) data =
     (if \<not> fits c then None
      else do { vs \<leftarrow> encode_source samples n c; data \<leftarrow> store_events True data (column i width vs);
                encode_ports samples fits width n (Suc i) cs data })"
  by (simp add: encode_source_def)

declare encode_ports.simps(2) [simp del]

lemma encode_ports_append:
  "encode_ports samples fits width n i (as @ bs) data =
     do { data \<leftarrow> encode_ports samples fits width n i as data;
          encode_ports samples fits width n (i + length as) bs data }"
  by (induction as arbitrary: i data) (auto simp: encode_ports_Cons split: bind_splits)

lemma encode_ports_columns:
  assumes "list_all fits cs"
  shows "encode_ports samples fits width n i cs data =
     do { vss \<leftarrow> those (map (encode_source samples n) cs); store_events True data (columns i width vss) }"
  using assms
proof (induction cs arbitrary: i data)
  case (Cons c cs)
  show ?case
  proof (cases "encode_source samples n c")
    case None
    then show ?thesis using Cons.prems by (simp add: encode_ports_Cons)
  next
    case (Some vs)
    then show ?thesis
      using Cons
      by (cases "store_events True data (column i width vs)"; cases "those (map (encode_source samples n) cs)")
        (auto simp: encode_ports_Cons store_events_append)
  qed
qed simp

lemma store_at_append:
  "store_at d off (xs @ ys) = do { d \<leftarrow> store_at d off xs; store_at d (off + length xs) ys }"
  by (auto simp: store_at_def add.assoc add.left_commute [of "length ys"] add.commute [of "length ys"])

lemma store_16:
  "store_at d (4 * k) (host_bytes be a @ host_bytes be b @ host_bytes be c @ host_bytes be v) =
     store_events be d [(k, a), (k + 1, b), (k + 2, c), (k + 3, v)]"
proof -
  have p: "4 * k + 4 = 4 * (k + 1)" "4 * (k + 1) + 4 = 4 * (k + 2)" "4 * (k + 2) + 4 = 4 * (k + 3)" by simp_all
  show ?thesis by (simp only: store_at_append store_events.simps length_host_bytes p Option.bind_runit)
qed

fun rows_events :: "nat \<Rightarrow> nat \<Rightarrow> ('v \<times> 'v \<times> 'v \<times> 'v) list \<Rightarrow> (nat \<times> 'v) list" where
  "rows_events k width [] = []"
| "rows_events k width ((a, b, c, v) # rows) =
     [(k, a), (k + 1, b), (k + 2, c), (k + 3, v)] @ rows_events (k + width) width rows"

lemma sse_store_rows_events: "sse_store_rows d k width rows = store_events False d (rows_events k width rows)"
  by (induction d k width rows rule: sse_store_rows.induct)
    (auto simp only: sse_store_rows.simps store_16 rows_events.simps store_events_append store_events.simps(1) split: bind_splits)

lemma set_rows_events:
  "set (rows_events k width rows) =
     (\<Union>j<length rows. case rows ! j of (a, b, c, v) \<Rightarrow>
        {(k + j * width, a), (k + j * width + 1, b), (k + j * width + 2, c), (k + j * width + 3, v)})"
proof (induction k width rows rule: rows_events.induct)
  case (2 k width a b c v rows)
  have "(\<Union>j<Suc m. f j) = f 0 \<union> (\<Union>j<m. f (Suc j))" for f :: "nat \<Rightarrow> (nat \<times> 'a) set" and m
    by (auto simp: lessThan_Suc_eq_insert_0)
  then show ?case using 2 by (auto simp: algebra_simps)
qed simp

lemma length_rows_events [simp]: "length (rows_events k width rows) = 4 * length rows"
  by (induction k width rows rule: rows_events.induct) simp_all

lemma length_column [simp]: "length (column i width vs) = length vs"
  by (simp add: column_map)

lemma store_rows_columns:
  assumes "k + 4 \<le> width" and "length w0 = n" "length w1 = n" "length w2 = n" "length w3 = n"
  shows "store_events be d (rows_events k width (zip w0 (zip w1 (zip w2 w3)))) =
    store_events be d (columns k width [w0, w1, w2, w3])"
proof (rule store_events_set_eq)
  have "set (rows_events k width (zip w0 (zip w1 (zip w2 w3)))) =
      (\<Union>j<n. {(k + j * width, w0 ! j), (k + j * width + 1, w1 ! j), (k + j * width + 2, w2 ! j), (k + j * width + 3, w3 ! j)})"
    unfolding set_rows_events using assms(2-5) by (intro SUP_cong) simp_all
  also have "\<dots> = set (columns k width [w0, w1, w2, w3])"
    using assms(2-5) by (auto simp: column_map)
  finally show "set (rows_events k width (zip w0 (zip w1 (zip w2 w3)))) = set (columns k width [w0, w1, w2, w3])" .
  show "distinct (map fst (columns k width [w0, w1, w2, w3]))" by (rule distinct_columns) (use assms(1) in simp)
qed (use assms(2-5) in simp)

lemma sse_rest_encode:
  assumes "round_up_4 n = n"
  shows "sse_rest (\<lambda>v. sse_swap (f v)) samples fits width n i cs data =
    encode_ports (\<lambda>a. map_option (map f) (samples n a)) fits width n i cs data"
proof (induction cs arbitrary: i data)
  case (Cons c cs)
  have conv: "map (\<lambda>v. sse_swap (f v)) vs = map sse_swap (map f vs)" for vs by simp
  have sil: "replicate n 0x00000040 = map sse_swap (replicate n AM824_SILENCE)"
    by (simp add: AM824_SILENCE_def sse_swap_def Let_def)
  have "sse_rest (\<lambda>v. sse_swap (f v)) samples fits width n (Suc i) cs =
      encode_ports (\<lambda>a. map_option (map f) (samples n a)) fits width n (Suc i) cs"
    using Cons by (intro ext)
  then show ?case
    by (cases "active c") (auto simp: encode_ports_Cons encode_source_def assms(1) conv sil store_column_swap
        Option.bind_map_option comp_def simp del: map_map map_replicate)
qed simp

lemma sse_source_encode:
  assumes "f z = AM824_SILENCE"
  shows "map_option (map (\<lambda>v. sse_swap (f v))) (sse_source samples (replicate n z) c) =
    map_option (map sse_swap) (encode_source (\<lambda>a. map_option (map f) (samples a)) n c)"
  using assms by (cases "active c") (auto simp: sse_source_def encode_source_def option.map_comp comp_def)

lemma encode_source_length:
  assumes "\<And>a vs. samples a = Some vs \<Longrightarrow> length vs = n" and "encode_source samples n c = Some vs"
  shows "length vs = n"
  using assms by (auto simp: encode_source_def split: option.splits)

lemma rows_events_map:
  "rows_events k width (map (\<lambda>(a, b, c, v). (g a, g b, g c, g v)) rows) = map (apsnd g) (rows_events k width rows)"
  by (induction k width rows rule: rows_events.induct) simp_all

lemma sse_store_rows_swap:
  assumes "k + 4 \<le> width" and "length w0 = n" "length w1 = n" "length w2 = n" "length w3 = n"
  shows "sse_store_rows d k width
      (zip (map sse_swap w0) (zip (map sse_swap w1) (zip (map sse_swap w2) (map sse_swap w3)))) =
    store_events True d (columns k width [w0, w1, w2, w3])"
proof -
  have z: "zip (map sse_swap w0) (zip (map sse_swap w1) (zip (map sse_swap w2) (map sse_swap w3))) =
      map (\<lambda>(a, b, c, v). (sse_swap a, sse_swap b, sse_swap c, sse_swap v)) (zip w0 (zip w1 (zip w2 w3)))"
    by (simp add: zip_map_map map_prod_def split_beta' comp_def)
  show ?thesis
    unfolding z sse_store_rows_events rows_events_map store_events_swap by (rule store_rows_columns [OF assms])
qed

text \<open>A group of four ports, in the form in which the encoder treats it.\<close>

lemma sse_group_encode:
  fixes z :: 'v
  defines "conv f \<equiv> (\<lambda>v :: 'v. sse_swap (f v))"
  assumes "f z = AM824_SILENCE"
    and "\<And>a vs. samples a = Some vs \<Longrightarrow> length vs = n" and "i + 4 \<le> width" and "list_all fits [c0, c1, c2, c3]"
  shows "do { v0 \<leftarrow> sse_source samples (replicate n z) c0; v1 \<leftarrow> sse_source samples (replicate n z) c1;
              v2 \<leftarrow> sse_source samples (replicate n z) c2; v3 \<leftarrow> sse_source samples (replicate n z) c3;
              data \<leftarrow> sse_store_rows data i width
                (zip (map (conv f) v0) (zip (map (conv f) v1) (zip (map (conv f) v2) (map (conv f) v3))));
              k data } =
    do { data \<leftarrow> encode_ports (\<lambda>a. map_option (map f) (samples a)) fits width n i [c0, c1, c2, c3] data; k data }"
proof -
  let ?src = "sse_source samples (replicate n z)" and ?enc = "encode_source (\<lambda>a. map_option (map f) (samples a)) n"
  have src: "map_option (map (conv f)) (?src c) = map_option (map sse_swap) (?enc c)" for c
    unfolding conv_def by (rule sse_source_encode [where f = f and z = z]) (rule assms(2))
  have len: "\<And>c vs. ?enc c = Some vs \<Longrightarrow> length vs = n"
    by (rule encode_source_length [rotated], assumption) (use assms(3) in auto)
  show ?thesis
  proof (cases "?src c0 = None \<or> ?src c1 = None \<or> ?src c2 = None \<or> ?src c3 = None")
    case True
    then have "those (map ?enc [c0, c1, c2, c3]) = None"
      using src [of c0] src [of c1] src [of c2] src [of c3] by (auto split: option.splits)
    then show ?thesis using True unfolding encode_ports_columns [OF assms(5)] by (auto split: bind_splits)
  next
    case False
    then obtain v0 v1 v2 v3 where v: "?src c0 = Some v0" "?src c1 = Some v1" "?src c2 = Some v2" "?src c3 = Some v3"
      by auto
    then obtain w0 w1 w2 w3 where w: "?enc c0 = Some w0" "?enc c1 = Some w1" "?enc c2 = Some w2" "?enc c3 = Some w3"
      and "map (conv f) v0 = map sse_swap w0" "map (conv f) v1 = map sse_swap w1" "map (conv f) v2 = map sse_swap w2"
        "map (conv f) v3 = map sse_swap w3"
      using src [of c0] src [of c1] src [of c2] src [of c3] by (auto simp: eq_commute [of "Some _" "map_option _ _"])
    then show ?thesis
      using sse_store_rows_swap [OF assms(4) len [OF w(1)] len [OF w(2)] len [OF w(3)] len [OF w(4)]]
      by (simp add: v encode_ports_columns [OF assms(5)] w)
  qed
qed

lemma sse_ports_short:
  "length cs < 5 \<Longrightarrow> sse_ports conv samples zeros fits width n i cs data = sse_rest conv samples fits width n i cs data"
  by (cases "(conv, samples, zeros, fits, width, n, i, cs, data)" rule: sse_ports.cases) auto

lemma sse_ports_encode:
  assumes "round_up_4 n = n" and "f z = AM824_SILENCE" and "\<And>a vs. samples n a = Some vs \<Longrightarrow> length vs = n"
    and "i + length cs \<le> width" and "list_all fits cs"
  shows "sse_ports (\<lambda>v. sse_swap (f v)) samples (replicate n z) fits width n i cs data =
    encode_ports (\<lambda>a. map_option (map f) (samples n a)) fits width n i cs data"
  using assms(4,5)
proof (induction "length cs" arbitrary: cs i data rule: less_induct)
  case less
  show ?case
  proof (cases "length cs < 5")
    case True
    then show ?thesis by (simp add: sse_ports_short sse_rest_encode [OF assms(1)])
  next
    case False
    then obtain c0 c1 c2 c3 c4 ds where cs: "cs = c0 # c1 # c2 # c3 # c4 # ds"
      by (auto simp: not_less numeral_eq_Suc Suc_le_length_iff)
    have IH: "sse_ports (\<lambda>v. sse_swap (f v)) samples (replicate n z) fits width n (i + 4) (c4 # ds) d =
        encode_ports (\<lambda>a. map_option (map f) (samples n a)) fits width n (i + 4) (c4 # ds) d" for d
      by (rule less.hyps) (use less.prems in \<open>simp_all add: cs\<close>)
    have g: "i + 4 \<le> width" "list_all fits [c0, c1, c2, c3]" using less.prems by (simp_all add: cs)
    have split: "cs = [c0, c1, c2, c3] @ c4 # ds" by (simp add: cs)
    have l4: "i + length [c0, c1, c2, c3] = i + 4" by simp
    have IH': "sse_ports (\<lambda>v. sse_swap (f v)) samples (replicate n z) fits width n (i + 4) (c4 # ds) =
        encode_ports (\<lambda>a. map_option (map f) (samples n a)) fits width n (i + length [c0, c1, c2, c3]) (c4 # ds)"
      by (rule ext) (simp only: IH l4)
    have "sse_ports (\<lambda>v. sse_swap (f v)) samples (replicate n z) fits width n i cs data =
        encode_ports (\<lambda>a. map_option (map f) (samples n a)) fits width n i [c0, c1, c2, c3] data \<bind>
        sse_ports (\<lambda>v. sse_swap (f v)) samples (replicate n z) fits width n (i + 4) (c4 # ds)"
      unfolding cs sse_ports.simps by (rule sse_group_encode) (use assms(2,3) g in auto)
    then show ?thesis unfolding split encode_ports_append IH' .
  qed
qed

text \<open>
  Rounding to single precision, as IEEE 754 specifies it: it is monotone and keeps the integers
  of at most 24 bits.
\<close>

definition float_rounding :: "fparith \<Rightarrow> bool" where
  "float_rounding fp \<longleftrightarrow>
     (\<forall>x y. x \<le> y \<longrightarrow> rflt fp x \<le> rflt fp y) \<and> (\<forall>k. \<bar>k\<bar> \<le> 16777216 \<longrightarrow> rflt fp (of_int k) = of_int k)"

lemma exact_rounding [simp]: "float_rounding exact"
  by (simp add: float_rounding_def)

lemma float_roundingD:
  assumes "float_rounding fp"
  shows "x \<le> y \<Longrightarrow> rflt fp x \<le> rflt fp y" and "\<bar>k\<bar> \<le> 16777216 \<Longrightarrow> rflt fp (of_int k) = of_int k"
  using assms by (simp_all add: float_rounding_def)

lemma rflt_full_scale:
  assumes "float_rounding fp"
  shows "rflt fp 8388607 = 8388607" and "rflt fp (- 8388607) = - 8388607" and "rflt fp 0 = 0"
  using float_roundingD(2) [OF assms, of 8388607] float_roundingD(2) [OF assms, of "- 8388607"]
    float_roundingD(2) [OF assms, of 0] by simp_all

lemma trunc_rat_between:
  assumes "of_int a \<le> x" and "x \<le> of_int b" and "a \<le> 0" and "0 \<le> b"
  shows "a \<le> trunc_rat x" and "trunc_rat x \<le> b"
  using assms by (simp_all add: trunc_rat_def le_floor_iff ceiling_le_iff)
    (use floor_le_ceiling order_trans le_of_int_ceiling in \<open>linarith\<close>)+

lemma sse_float_encode:
  assumes "float_rounding (fpa e)"
  shows "sse_float e = (\<lambda>v. sse_swap (encode_float e v))"
proof
  fix v :: rat
  consider "v > 1" | "v < - 1" | "- 1 \<le> v" "v \<le> 1" by linarith
  then show "sse_float e v = sse_swap (encode_float e v)"
  proof cases
    case 3
    let ?r = "rflt (fpa e) (v * 8388607)"
    have "- 8388607 \<le> v * 8388607" "v * 8388607 \<le> 8388607" using 3 by simp_all
    then have "- 8388607 \<le> ?r" "?r \<le> 8388607"
      using float_roundingD(1) [OF assms] rflt_full_scale [OF assms] by metis+
    then have "- 8388607 \<le> trunc_rat ?r" "trunc_rat ?r \<le> 8388607"
      using trunc_rat_between [of "- 8388607" ?r 8388607] by simp_all
    then show ?thesis using 3 by (simp add: sse_float_def encode_float_def cvttps_epi32_def min_def max_def)
  qed (simp_all add: sse_float_def encode_float_def cvttps_epi32_def trunc_rat_def rflt_full_scale [OF assms])
qed

lemma sse_int24_encode: "sse_int24 = (\<lambda>v. sse_swap (encode_int24 v))"
  by (simp add: sse_int24_def encode_int24_def fun_eq_iff)

lemma encode_zero [simp]: "encode_int24 0 = AM824_SILENCE"
  by (simp add: encode_int24_def AM824_SILENCE_def)

lemma encode_float_zero: "float_rounding (fpa e) \<Longrightarrow> encode_float e 0 = AM824_SILENCE"
  by (simp add: encode_float_def AM824_SILENCE_def trunc_rat_def rflt_full_scale)

lemma buffer_samples_SomeD:
  "buffer_quadlets b off n = Some vs \<Longrightarrow> length vs = n"
  "buffer_floats b off n = Some ws \<Longrightarrow> length ws = n"
  by (auto simp: buffer_quadlets_def buffer_floats_def split: option.splits port_buffer.splits if_splits)

lemma port_samples_length:
  "port_samples buffer_quadlets ports off n a = Some vs \<Longrightarrow> length vs = n"
  "port_samples buffer_floats ports off n a = Some ws \<Longrightarrow> length ws = n"
  by (auto simp: port_samples_def bind_eq_Some_conv buffer_samples_SomeD)

lemma clear_scratch_keeps:
  assumes "clear_scratch nevents s = Some s'"
  obtains b where "s' = s\<lparr>m_scratch_buffer := b\<rparr>"
  using assms by (auto simp: clear_scratch_def bind_eq_Some_conv split: if_splits)

text \<open>
  C20. The SSE2 encoders and the plain ones produce the same events, from 24-bit integers and
  from floats (clipping included), when the number of frames is a multiple of four and the scratch
  buffer passes their assertion. They then differ only in the contents of the scratch buffer.
\<close>

theorem amdtp_sse_equivalence:
  fixes s s' :: "'m amdtp_processor_scheme"
  assumes "4 dvd unat nevents" and "clear_scratch nevents s = Some s'" and "float_rounding (fpa e)"
    and "cached (m_nb_audio_ports s) (m_audio_ports s) = Some cs" and "list_all (debug_fits e offset nevents) cs"
    and "length cs \<le> unat (m_dimension s)"
  shows "encodeAudioPortsInt24_sse e data offset nevents s =
      map_option (\<lambda>(d, _). (d, s')) (encodeAudioPortsInt24 e data offset nevents s)
    \<and> encodeAudioPortsFloat_sse e data offset nevents s =
      map_option (\<lambda>(d, _). (d, s')) (encodeAudioPortsFloat e data offset nevents s)"
proof
  obtain b where s': "s' = s\<lparr>m_scratch_buffer := b\<rparr>" using assms(2) by (rule clear_scratch_keeps)
  have n: "round_up_4 (unat nevents) = unat nevents" using assms(1) by (auto simp: round_up_4_def)
  have "sse_ports (\<lambda>v. sse_swap (encode_int24 v)) (port_samples buffer_quadlets (m_Ports s) (unat offset))
          (replicate (unat nevents) 0) (debug_fits e offset nevents) (unat (m_dimension s)) (unat nevents) 0 cs data =
        encode_ports (\<lambda>a. map_option (map encode_int24) (port_samples buffer_quadlets (m_Ports s) (unat offset) (unat nevents) a))
          (debug_fits e offset nevents) (unat (m_dimension s)) (unat nevents) 0 cs data"
    by (rule sse_ports_encode [OF n]) (use assms(5,6) in \<open>auto simp: port_samples_length\<close>)
  then show "encodeAudioPortsInt24_sse e data offset nevents s =
      map_option (\<lambda>(d, _). (d, s')) (encodeAudioPortsInt24 e data offset nevents s)"
    using assms(2,4)
    by (simp add: encodeAudioPortsInt24_sse_def encodeAudioPortsInt24_def s' sse_int24_encode map_option_bind comp_def)
  have "sse_ports (\<lambda>v. sse_swap (encode_float e v)) (port_samples buffer_floats (m_Ports s) (unat offset))
          (replicate (unat nevents) 0) (debug_fits e offset nevents) (unat (m_dimension s)) (unat nevents) 0 cs data =
        encode_ports (\<lambda>a. map_option (map (encode_float e)) (port_samples buffer_floats (m_Ports s) (unat offset) (unat nevents) a))
          (debug_fits e offset nevents) (unat (m_dimension s)) (unat nevents) 0 cs data"
    by (rule sse_ports_encode [OF n]) (use assms(3,5,6) in \<open>auto simp: port_samples_length encode_float_zero\<close>)
  then show "encodeAudioPortsFloat_sse e data offset nevents s =
      map_option (\<lambda>(d, _). (d, s')) (encodeAudioPortsFloat e data offset nevents s)"
    using assms(2-4)
    by (simp add: encodeAudioPortsFloat_sse_def encodeAudioPortsFloat_def s' sse_float_encode map_option_bind comp_def)
qed

text \<open>
  A new processor of either class. The constructors leave \<^verbatim>\<open>m_syt_interval\<close> unset: \<open>junk\<close> stands for
  what the memory holds.
\<close>

definition amdtp_new :: "fparith \<Rightarrow> u32 \<Rightarrow> eProcessorType \<Rightarrow> u32 \<Rightarrow> amdtp_processor" where
  "amdtp_new fp junk type dimension =
     stream_processor.extend (StreamProcessor_new fp type)
       (amdtp_processor.fields dimension junk [] 0 [] 0)"

text \<open>Six ports of four samples each, the port at address \<open>k\<close> in column \<open>k\<close>.\<close>

definition example_transmit :: amdtp_processor where
  "example_transmit =
     (amdtp_new exact 8 ePT_Transmit 6)
       \<lparr>m_Ports := map (\<lambda>k. (AmdtpAudioPort_new k [] E_Playback (of_nat k) 0 Format_MBLA)
                            \<lparr>m_disabled := False, m_buffer := Some (Quadlets [of_nat k, 1, 2, 3])\<rparr>) [0..<6],
        m_audio_ports := map (\<lambda>k. \<lparr>c_port = k, c_buffer = Some k, c_enabled = True, c_buffer_size = 4\<rparr>) [0..<6],
        m_nb_audio_ports := 6, m_scratch_buffer := Some (replicate 17 1), m_scratch_buffer_size_bytes := 17\<rparr>"

theorem amdtp_sse_equivalence_witness:
  "encodeAudioPortsInt24_sse example_env (replicate 96 0) 0 4 example_transmit =
     map_option (\<lambda>(d, _). (d, example_transmit\<lparr>m_scratch_buffer := Some (replicate 16 0 @ [1])\<rparr>))
       (encodeAudioPortsInt24 example_env (replicate 96 0) 0 4 example_transmit)"
  by (rule amdtp_sse_equivalence [where cs = "m_audio_ports example_transmit", THEN conjunct1])
    (simp_all add: clear_scratch_def store_at_def cached_def debug_fits_def amdtp_new_def StreamProcessor_new_def
      example_transmit_def example_env_def stream_processor.defs amdtp_processor.defs upt_zero_numeral)

section \<open>Round trip\<close>

lemma those_eq_Some: "those xs = Some ys \<longleftrightarrow> xs = map Some ys"
  by (induction xs arbitrary: ys) (auto split: option.splits)

lemma get_column_apply:
  assumes "i < length vss" and "length vss \<le> width" and "length (vss ! i) = n" and "4 * (n * width) \<le> length d"
  shows "get_column (apply_events True d (columns 0 width vss)) i width n = Some (vss ! i)"
proof -
  have "bus_quadlet (apply_events True d (columns 0 width vss)) (i + j * width) = Some (vss ! i ! j)" if "j < n" for j
  proof -
    have "(j + 1) * width \<le> n * width" using that by (intro mult_le_mono1) simp
    then have range: "4 * (i + j * width) + 4 \<le> length d" using assms(1,2,4) by simp
    have "(0 + i + j * width, vss ! i ! j) \<in> set (columns 0 width vss)"
      unfolding set_columns using assms(1,3) that by blast
    then have "map_of (rev (columns 0 width vss)) (i + j * width) = Some (vss ! i ! j)"
      using distinct_columns [of 0 vss width] assms(2) by (simp add: rev_map [symmetric])
    then show ?thesis using bus_quadlet_apply [OF range] by simp
  qed
  then show ?thesis
    unfolding get_column_def those_eq_Some using assms(3) by (auto intro!: nth_equalityI)
qed

lemma lookup_port_update:
  "lookup_port (map (\<lambda>q. if p_addr q = a then q\<lparr>m_buffer := b\<rparr> else q) ports) a' =
     map_option (\<lambda>q. if a' = a then q\<lparr>m_buffer := b\<rparr> else q) (lookup_port ports a')"
  by (induction ports) (auto simp: lookup_port_def)

definition port_buffer_at :: "port list \<Rightarrow> nat \<Rightarrow> port_buffer option" where
  "port_buffer_at ports a = do { p \<leftarrow> lookup_port ports a; m_buffer p }"

lemma with_buffer_at:
  assumes "with_buffer ports a f = Some ports'"
  shows "port_buffer_at ports' a' = (if a' = a then f (port_buffer_at ports a) else port_buffer_at ports a')"
  using assms by (auto simp: with_buffer_def port_buffer_at_def bind_eq_Some_conv lookup_port_update bind_map_option comp_def)

lemma with_buffer_defined:
  assumes "port_buffer_at ports a = Some b" and "f (Some b) = Some b'"
  obtains ports' where "with_buffer ports a f = Some ports'"
  using assms by (auto simp: with_buffer_def port_buffer_at_def bind_eq_Some_conv)

lemma buffer_quadlets_SomeE:
  assumes "buffer_quadlets b off n \<noteq> None"
  obtains xs where "b = Some (Quadlets xs)" and "off + n \<le> length xs"
  using assms by (auto simp: buffer_quadlets_def split: option.splits port_buffer.splits if_splits)

definition int24_room :: "port list \<Rightarrow> nat \<Rightarrow> nat \<Rightarrow> mbla_port_cache \<Rightarrow> bool" where
  "int24_room ports off n c =
     (case active c of None \<Rightarrow> True | Some a \<Rightarrow> buffer_quadlets (port_buffer_at ports a) off n \<noteq> None)"

lemma int24_room_Some: "int24_room ports off n c \<Longrightarrow> active c = Some a \<Longrightarrow> buffer_quadlets (port_buffer_at ports a) off n \<noteq> None"
  by (simp add: int24_room_def)

text \<open>
  A processor can encode or decode a block of integers: its cache is complete, no port is active twice,
  and the buffers of the active ports are arrays of integers long enough for the block.
\<close>

definition int24_ready :: "sp_env \<Rightarrow> u32 \<Rightarrow> u32 \<Rightarrow> 'm amdtp_processor_scheme \<Rightarrow> bool" where
  "int24_ready e offset nevents s \<longleftrightarrow>
     length (m_audio_ports s) = unat (m_nb_audio_ports s) \<and> unat (m_nb_audio_ports s) \<le> unat (m_dimension s)
     \<and> list_all (debug_fits e offset nevents) (m_audio_ports s)
     \<and> distinct (List.map_filter active (m_audio_ports s))
     \<and> list_all (int24_room (m_Ports s) (unat offset) (unat nevents)) (m_audio_ports s)"

lemma decode_ports_stores:
  assumes "list_all fits cs" and "distinct (List.map_filter active cs)" and "length vss = length cs"
    and "\<And>k. k < length cs \<Longrightarrow> get_column data (i + k) width n = Some (vss ! k)"
    and "list_all (int24_room ports off n) cs"
    and "\<And>k. k < length cs \<Longrightarrow> length (vss ! k) = n"
  shows "\<exists>ports'. decode_ports (\<lambda>vs b. store_quadlets b off (map g vs)) fits width n data i cs ports = Some ports'
    \<and> (\<forall>k<length cs. \<forall>a. active (cs ! k) = Some a \<longrightarrow> buffer_quadlets (port_buffer_at ports' a) off n = Some (map g (vss ! k)))
    \<and> (\<forall>a. a \<notin> set (List.map_filter active cs) \<longrightarrow> port_buffer_at ports' a = port_buffer_at ports a)"
  using assms
proof (induction cs arbitrary: i vss ports)
  case (Cons c cs)
  obtain vs wss where vss: "vss = vs # wss" using Cons.prems(3) by (cases vss) auto
  have col: "get_column data i width n = Some vs" "length vs = n" using Cons.prems(4,6) [of 0] by (simp_all add: vss)
  have rest: "length wss = length cs" "\<And>k. k < length cs \<Longrightarrow> get_column data (Suc i + k) width n = Some (wss ! k)"
    "\<And>k. k < length cs \<Longrightarrow> length (wss ! k) = n"
    using Cons.prems(3) Cons.prems(4,6) [of "Suc k" for k] by (simp_all add: vss)
  show ?case
  proof (cases "active c")
    case None
    obtain ports' where "decode_ports (\<lambda>vs b. store_quadlets b off (map g vs)) fits width n data (Suc i) cs ports = Some ports'"
      "\<forall>k<length cs. \<forall>a. active (cs ! k) = Some a \<longrightarrow> buffer_quadlets (port_buffer_at ports' a) off n = Some (map g (wss ! k))"
      "\<forall>a. a \<notin> set (List.map_filter active cs) \<longrightarrow> port_buffer_at ports' a = port_buffer_at ports a"
      using Cons.IH [OF _ _ rest(1,2) _ rest(3), of ports] Cons.prems None by (auto simp: List.map_filter_simps)
    then show ?thesis
      using None Cons.prems(1) by (auto simp: vss List.map_filter_simps less_Suc_eq_0_disj)
  next
    case (Some a)
    obtain xs where xs: "port_buffer_at ports a = Some (Quadlets xs)" "off + n \<le> length xs"
    proof (rule buffer_quadlets_SomeE)
      show "buffer_quadlets (port_buffer_at ports a) off n \<noteq> None"
        by (rule int24_room_Some [OF _ Some]) (use Cons.prems(5) in simp)
    qed
    let ?b = "Quadlets (take off xs @ map g vs @ drop (off + n) xs)"
    have st: "store_quadlets (Some (Quadlets xs)) off (map g vs) = Some ?b"
      using xs(2) col(2) by (simp add: store_quadlets_def store_at_def)
    obtain ps where ps: "with_buffer ports a (\<lambda>b. store_quadlets b off (map g vs)) = Some ps"
      by (rule with_buffer_defined [where f = "\<lambda>b. store_quadlets b off (map g vs)", OF xs(1) st])
    note at = with_buffer_at [OF ps]
    have new: "a \<notin> set (List.map_filter active cs)" "distinct (List.map_filter active cs)"
      using Cons.prems(2) Some by (simp_all add: List.map_filter_simps)
    have "active c' \<noteq> Some a" if "c' \<in> set cs" for c'
      using new(1) that by (force simp: List.map_filter_def)
    then have "int24_room ps off n c' = int24_room ports off n c'" if "c' \<in> set cs" for c'
      using that by (cases "active c'") (auto simp: int24_room_def at)
    then have keep: "list_all (int24_room ps off n) cs" using Cons.prems(5) by (simp add: list_all_iff)
    obtain ports' where p: "decode_ports (\<lambda>vs b. store_quadlets b off (map g vs)) fits width n data (Suc i) cs ps = Some ports'"
      "\<forall>k<length cs. \<forall>a. active (cs ! k) = Some a \<longrightarrow> buffer_quadlets (port_buffer_at ports' a) off n = Some (map g (wss ! k))"
      "\<forall>a. a \<notin> set (List.map_filter active cs) \<longrightarrow> port_buffer_at ports' a = port_buffer_at ps a"
      using Cons.IH [OF _ new(2) rest(1,2) keep rest(3)] Cons.prems(1) by auto
    have "port_buffer_at ports' a = Some ?b" using p(3) new(1) at [of a] xs(1) st by simp
    then have "buffer_quadlets (port_buffer_at ports' a) off n = Some (map g vs)"
      using xs(2) col(2) by (simp add: buffer_quadlets_def)
    then show ?thesis
      using p Some Cons.prems(1) col(1) ps at by (auto simp: vss List.map_filter_simps less_Suc_eq_0_disj)
  qed
qed simp

lemma decode_encode_int24: "decode_int24 (encode_int24 v) = v AND 0x00FFFFFF"
  by (rule word_eq_bits) (simp add: decode_int24_def encode_int24_def word_bits_simps)

lemma decode_silence: "decode_int24 AM824_SILENCE = 0"
  by (simp add: decode_int24_def AM824_SILENCE_def)

lemma int24_ready_samples:
  assumes "int24_ready e offset nevents s" and "c \<in> set (m_audio_ports s)" and "active c = Some a"
  obtains vs where "buffer_quadlets (port_buffer_at (m_Ports s) a) (unat offset) (unat nevents) = Some vs"
    and "length vs = unat nevents"
proof -
  have "buffer_quadlets (port_buffer_at (m_Ports s) a) (unat offset) (unat nevents) \<noteq> None"
    by (rule int24_room_Some [OF _ assms(3)]) (use assms(1,2) in \<open>simp add: int24_ready_def list_all_iff\<close>)
  then show ?thesis using that buffer_samples_SomeD(1) by blast
qed

lemma port_samples_at: "port_samples buffer_quadlets ports off n a = buffer_quadlets (port_buffer_at ports a) off n"
  by (cases "lookup_port ports a") (simp_all add: port_samples_def port_buffer_at_def buffer_quadlets_def)

text \<open>What each port sends: its samples, or silence.\<close>

definition port_sends :: "u32 \<Rightarrow> u32 \<Rightarrow> 'm amdtp_processor_scheme \<Rightarrow> nat \<Rightarrow> u32 list" where
  "port_sends offset nevents s k =
     (case active (m_audio_ports s ! k) of
        None \<Rightarrow> replicate (unat nevents) 0
      | Some a \<Rightarrow> the (buffer_quadlets (port_buffer_at (m_Ports s) a) (unat offset) (unat nevents)))"

lemma encodeAudioPortsInt24_columns:
  assumes "int24_ready e offset nevents s" and "4 * (unat nevents * unat (m_dimension s)) \<le> length data"
  shows "encodeAudioPortsInt24 e data offset nevents s =
      Some (apply_events True data (columns 0 (unat (m_dimension s))
              (map (\<lambda>k. map encode_int24 (port_sends offset nevents s k)) [0..<unat (m_nb_audio_ports s)])), s)"
    and "k < unat (m_nb_audio_ports s) \<Longrightarrow> length (port_sends offset nevents s k) = unat nevents"
proof -
  let ?n = "unat nevents" and ?w = "unat (m_dimension s)" and ?cs = "m_audio_ports s" and ?nb = "unat (m_nb_audio_ports s)"
  let ?samples = "\<lambda>a. map_option (map encode_int24) (port_samples buffer_quadlets (m_Ports s) (unat offset) ?n a)"
  let ?vss = "map (\<lambda>k. map encode_int24 (port_sends offset nevents s k)) [0..<?nb]"
  have nb: "length ?cs = ?nb" "?nb \<le> ?w" "list_all (debug_fits e offset nevents) ?cs"
    using assms(1) by (simp_all add: int24_ready_def)
  have src: "encode_source ?samples ?n (?cs ! k) = Some (map encode_int24 (port_sends offset nevents s k))
      \<and> length (port_sends offset nevents s k) = ?n" if "k < ?nb" for k
  proof (cases "active (?cs ! k)")
    case None
    then show ?thesis by (simp add: encode_source_def port_sends_def)
  next
    case (Some a)
    have "?cs ! k \<in> set ?cs" using that nb(1) by simp
    then obtain vs where "buffer_quadlets (port_buffer_at (m_Ports s) a) (unat offset) ?n = Some vs" "length vs = ?n"
      by (rule int24_ready_samples [OF assms(1) _ Some])
    then show ?thesis using Some by (simp add: encode_source_def port_sends_def port_samples_at)
  qed
  then show "k < ?nb \<Longrightarrow> length (port_sends offset nevents s k) = ?n" by blast
  have "those (map (encode_source ?samples ?n) ?cs) = Some ?vss"
    unfolding those_eq_Some using src nb(1) by (auto intro!: nth_equalityI)
  moreover have "in_block data (columns 0 ?w ?vss)"
  proof -
    have "4 * (l + j * ?w) + 4 \<le> length data" if "l < ?nb" "j < ?n" for l j
    proof -
      have "(j + 1) * ?w \<le> ?n * ?w" using that(2) by (intro mult_le_mono1) simp
      then show ?thesis using that(1) nb(2) assms(2) by simp
    qed
    then show ?thesis using src by (auto simp: in_block_def set_columns)
  qed
  ultimately show "encodeAudioPortsInt24 e data offset nevents s = Some (apply_events True data (columns 0 ?w ?vss), s)"
    using nb by (simp add: encodeAudioPortsInt24_def cached_def encode_ports_columns store_events_apply)
qed


definition example_receive :: amdtp_processor where
  "example_receive =
     (amdtp_new exact 8 ePT_Receive 2)
       \<lparr>m_Ports := [(AmdtpAudioPort_new 7 [] E_Capture 0 0 Format_MBLA)
                      \<lparr>m_disabled := False, m_buffer := Some (Quadlets [0, 0, 0, 0])\<rparr>],
        m_audio_ports := [\<lparr>c_port = 7, c_buffer = Some 7, c_enabled = True, c_buffer_size = 4\<rparr>],
        m_nb_audio_ports := 1\<rparr>"


end
