(* ===== verification/AmdtpReceive.thy ===== *)
theory AmdtpReceive
  imports AmdtpPorts
begin

text \<open>
  The AMDTP receive stream processor, \<^verbatim>\<open>libstreaming/amdtp/AmdtpReceiveStreamProcessor.cpp\<close>: the
  methods it gives the base class, the queue through which received MIDI bytes pass, and what the
  state machine of the base class does for this subclass.
\<close>

section \<open>Data\<close>

record amdtp_receive = amdtp_processor +
  midibuffer :: "u32 list"
  mb_head :: u32
  mb_tail :: u32

definition AmdtpReceiveStreamProcessor_new :: "fparith \<Rightarrow> (nat \<Rightarrow> u32) \<Rightarrow> u32 \<Rightarrow> amdtp_receive" where
  "AmdtpReceiveStreamProcessor_new fp junk dimension =
     amdtp_processor.extend (amdtp_new fp (junk 64) ePT_Receive dimension)
       (amdtp_receive.fields (map junk [0..<64]) 0 0)"

text \<open>\<open>None\<close> of the rates: the program reports it and returns 0.\<close>

definition getSytInterval :: "sp_env \<Rightarrow> u32" where
  "getSytInterval e =
     (let r = m_nominal_framerate (spm e)
      in if r = 32000 \<or> r = 44100 \<or> r = 48000 then 8
         else if r = 88200 \<or> r = 96000 then 16
         else if r = 176400 \<or> r = 192000 then 32
         else 0)"

definition receive_prepareChild :: "sp_env \<Rightarrow> 'm amdtp_processor_scheme \<Rightarrow> (bool \<times> 'm amdtp_processor_scheme) option" where
  "receive_prepareChild e s = initPortCache (s\<lparr>m_syt_interval := getSytInterval e\<rparr>)"

section \<open>Packets\<close>

definition receive_processPacketHeader ::
  "u8 list \<Rightarrow> u32 \<Rightarrow> u8 \<Rightarrow> u8 \<Rightarrow> u32 \<Rightarrow> 'm stream_processor_scheme \<Rightarrow> (eChildReturnValue \<times> 'm stream_processor_scheme) option" where
  "receive_processPacketHeader data len tag sy pkt_ctr s =
     do {
       packet \<leftarrow> packet_of_bytes data;
       let ok = pk_syt packet \<noteq> 0xFFFF \<and> pk_fdf packet \<noteq> 0xFF \<and> pk_fmt packet = 0x10 \<and> 0 < pk_dbs packet \<and> 8 \<le> len;
       if ok then Some (eCRV_OK, s\<lparr>m_last_timestamp := sytRecvToFullTicks2 (ucast (pk_syt packet)) pkt_ctr\<rparr>)
       else Some (eCRV_Invalid, s)
     }"

text \<open>
  The number of frames of a packet. The default case divides in 64 bits and by the data block
  size, which may be 0 for a packet whose header was not accepted.
\<close>

definition packet_nevents :: "iec61883_packet \<Rightarrow> u32 \<Rightarrow> u32 option" where
  "packet_nevents packet len =
     (if pk_fdf packet \<in> {0x00, 0x01, 0x02} then Some 8
      else if pk_fdf packet \<in> {0x03, 0x04} then Some 16
      else if pk_fdf packet \<in> {0x05, 0x06} then Some 32
      else if pk_dbs packet = 0 then None
      else Some (ucast ((ucast len div 4 - 2 :: u64) div ucast (pk_dbs packet))))"

text \<open>
  The debug message divides by the number of frames. The frames are copied from the packet without a
  look at its length, so a short packet is read past its end.
\<close>

definition receive_processPacketData ::
  "sp_env \<Rightarrow> u8 list \<Rightarrow> u32 \<Rightarrow> 'm stream_processor_scheme \<Rightarrow> (eChildReturnValue \<times> 'm stream_processor_scheme) option" where
  "receive_processPacketData e data len s =
     do {
       packet \<leftarrow> packet_of_bytes data;
       nevents \<leftarrow> packet_nevents packet len;
       if debug_messages e \<and> nevents = 0 then None
       else
         let b = m_data_buffer s;
             size = unat (nevents * m_event_size b * m_events_per_frame b)
         in if \<not> m_transparent b \<and> length data < 8 + size then None
            else do {
              (ok, s) \<leftarrow> on_buffer (writeFrames (fpa e) b nevents (drop 8 data) (rdbl (fpa e) (of_u64 (m_last_timestamp s)))) s;
              Some (if ok then eCRV_OK else eCRV_XRun, s)
            }
     }"

section \<open>MIDI\<close>

text \<open>The queue of received bytes: the buffer, the place to write and the place to read.\<close>

type_synonym midi_fifo = "u32 list \<times> u32 \<times> u32"

definition midi_put :: "u32 \<Rightarrow> midi_fifo \<Rightarrow> midi_fifo" where
  "midi_put v f =
     (case f of (mb, head, tail) \<Rightarrow>
        let mb = mb[unat head := v]; head = (head + 1) AND 63
        in (mb, head, if head = tail then (tail + 1) AND 63 else tail))"

definition midi_take :: "midi_fifo \<Rightarrow> u32 \<times> midi_fifo" where
  "midi_take f =
     (case f of (mb, head, tail) \<Rightarrow>
        if head \<noteq> tail then (mb ! unat tail, mb, head, (tail + 1) AND 63) else (0, f))"

definition midi_value :: "u32 \<Rightarrow> u32" where
  "midi_value v = (drop_bit 16 v AND 0x000000FF) OR 0x01000000"

text \<open>
  The frames of a port, one after the other, and what its cleared buffer holds afterwards: every
  eighth element may be the next byte of the queue.
\<close>

fun decode_midi_frames :: "(nat \<Rightarrow> u32 option) \<Rightarrow> nat list \<Rightarrow> midi_fifo \<Rightarrow> (midi_fifo \<times> u32 list) option" where
  "decode_midi_frames ev [] f = Some (f, [])"
| "decode_midi_frames ev (j # js) f =
     do {
       v \<leftarrow> ev j;
       let f = (if IEC61883_AM824_HAS_LABEL v IEC61883_AM824_LABEL_MIDI_1X then midi_put (midi_value v) f else f);
       let (out, f) = (if j mod 8 = 0 then midi_take f else (0, f));
       (f, outs) \<leftarrow> decode_midi_frames ev js f;
       Some (f, out # outs)
     }"

fun decode_midi_ports ::
  "u8 list \<Rightarrow> u32 \<Rightarrow> nat \<Rightarrow> nat \<Rightarrow> midi_port_cache list \<Rightarrow> midi_fifo \<times> port list \<Rightarrow> (midi_fifo \<times> port list) option" where
  "decode_midi_ports data dimension off n [] st = Some st"
| "decode_midi_ports data dimension off n (c # cs) (f, ports) =
     (case active c of
        None \<Rightarrow> decode_midi_ports data dimension off n cs (f, ports)
      | Some a \<Rightarrow>
          do {
            (f, outs) \<leftarrow> decode_midi_frames (\<lambda>j. bus_quadlet data (midi_place dimension c j)) [0..<n] f;
            ports \<leftarrow> with_buffer ports a (\<lambda>b. store_quadlets b off outs);
            decode_midi_ports data dimension off n cs (f, ports)
          })"

definition decodeMidiPorts ::
  "u8 list \<Rightarrow> u32 \<Rightarrow> u32 \<Rightarrow> 'm amdtp_receive_scheme \<Rightarrow> 'm amdtp_receive_scheme option" where
  "decodeMidiPorts data offset nevents s =
     do {
       cs \<leftarrow> cached (m_nb_midi_ports s) (m_midi_ports s);
       ((mb, head, tail), ports) \<leftarrow> decode_midi_ports data (m_dimension s) (unat offset) (unat nevents) cs
                                       ((midibuffer s, mb_head s, mb_tail s), m_Ports s);
       Some (s\<lparr>midibuffer := mb, mb_head := head, mb_tail := tail, m_Ports := ports\<rparr>)
     }"

section \<open>The subclass\<close>

definition receive_processReadBlock ::
  "sp_env \<Rightarrow> u8 list \<Rightarrow> u32 \<Rightarrow> u32 \<Rightarrow> 'm amdtp_receive_scheme \<Rightarrow> (bool \<times> 'm amdtp_receive_scheme) option" where
  "receive_processReadBlock e data nevents offset s =
     do {
       s \<leftarrow> updatePortCache s;
       s \<leftarrow> (case m_audio_datatype (spm e) of
               eADT_Int24 \<Rightarrow> decodeAudioPortsInt24 e data offset nevents s
             | eADT_Float \<Rightarrow> decodeAudioPortsFloat e data offset nevents s);
       s \<leftarrow> decodeMidiPorts data offset nevents s;
       Some (True, s)
     }"

definition receive_getMaxPacketSize :: "sp_env \<Rightarrow> 'm amdtp_processor_scheme \<Rightarrow> u32" where
  "receive_getMaxPacketSize e s = 4 * (2 + getSytInterval e * m_dimension s)"

definition amdtp_receive_child :: "sp_env \<Rightarrow> 'm amdtp_receive_scheme sp_child" where
  "amdtp_receive_child e =
     (sp_child_defaults (receive_prepareChild e) m_dimension (\<lambda>_. 4) (\<lambda>_. getSytInterval e))
       \<lparr>processPacketHeader := receive_processPacketHeader,
        processPacketData := receive_processPacketData e,
        processReadBlock := receive_processReadBlock e\<rparr>"

section \<open>The contract of the base class\<close>

lemma initPortCache_private: "initPortCache s = Some (r, s') \<Longrightarrow> same_private s s'"
  by (auto simp: initPortCache_def Let_def same_private_def split: if_splits prod.splits)

lemma updatePortCache_private: "updatePortCache s = Some s' \<Longrightarrow> same_private s s'"
  by (auto simp: updatePortCache_def same_private_def bind_eq_Some_conv)

lemma decode_private:
  "decodeAudioPortsInt24 e d off n s = Some s' \<Longrightarrow> same_private s s'"
  "decodeAudioPortsFloat e d off n s = Some s' \<Longrightarrow> same_private s s'"
  by (auto simp: decodeAudioPortsInt24_def decodeAudioPortsFloat_def same_private_def bind_eq_Some_conv)

lemma decodeMidiPorts_private: "decodeMidiPorts d off n s = Some s' \<Longrightarrow> same_private s s'"
  by (auto simp: decodeMidiPorts_def same_private_def bind_eq_Some_conv)

lemma receive_header_private: "keeps_private (receive_processPacketHeader d n t y c)"
  by (auto simp: keeps_private_def receive_processPacketHeader_def Let_def same_private_def bind_eq_Some_conv split: if_splits)

lemma on_buffer_private:
  assumes "on_buffer r s = Some (x, s')" and "\<And>b. r = Some (x, b) \<Longrightarrow> m_transparent b = m_transparent (m_data_buffer s)"
  shows "same_private s s'"
  using assms by (auto simp: on_buffer_def same_private_def)

lemma receive_data_private: "keeps_private (receive_processPacketData e d n)"
  unfolding keeps_private_def
proof (intro allI impI)
  fix s s' :: "'m stream_processor_scheme" and r
  assume "receive_processPacketData e d n s = Some (r, s')"
  then obtain nev ok where
    "on_buffer (writeFrames (fpa e) (m_data_buffer s) nev (drop 8 d) (rdbl (fpa e) (of_u64 (m_last_timestamp s)))) s = Some (ok, s')"
    unfolding receive_processPacketData_def Let_def by (auto simp: bind_eq_Some_conv split: if_splits)
  then show "same_private s s'" by (rule on_buffer_private) (rule writeFrames_transparent)
qed

lemma receive_read_block_private: "keeps_private (receive_processReadBlock e d n off)"
  unfolding keeps_private_def receive_processReadBlock_def
  by (cases "m_audio_datatype (spm e)")
    (auto simp: bind_eq_Some_conv
      dest!: updatePortCache_private decode_private decodeMidiPorts_private intro: same_private_trans)

lemma receive_prepare_private: "keeps_private (receive_prepareChild e)"
  by (auto simp: keeps_private_def receive_prepareChild_def same_private_def dest!: initPortCache_private)

lemma defaults_private [simp]:
  "keeps_private (\<lambda>s. Some (r, s))" "keeps_private3 (\<lambda>s. Some (r, x, s))"
  by (auto simp: keeps_private_def keeps_private3_def)

interpretation amdtp_rx: sp_child_laws "amdtp_receive_child e" for e
  by unfold_locales
    (simp_all add: amdtp_receive_child_def sp_child_defaults_def receive_header_private receive_data_private
      receive_read_block_private receive_prepare_private)

interpretation amdtp_rx_family: sp_child_family amdtp_receive_child
  by unfold_locales

section \<open>The queue of MIDI bytes\<close>

definition fifo_list :: "midi_fifo \<Rightarrow> u32 list" where
  "fifo_list f =
     (case f of (mb, head, tail) \<Rightarrow>
        map (\<lambda>i. mb ! ((unat tail + i) mod 64)) [0..<(unat head + 64 - unat tail) mod 64])"

definition fifo_ok :: "midi_fifo \<Rightarrow> bool" where
  "fifo_ok f \<longleftrightarrow>
     (case f of (mb, head, tail) \<Rightarrow> length mb = 64 \<and> head < 64 \<and> tail < 64) \<and> 0 \<notin> set (fifo_list f)"

lemma unat_next: "unat ((x + 1 :: u32) AND 63) = (unat x + 1) mod 64"
proof -
  have "unat ((x + 1 :: u32) AND (64 - 1)) = unat (x + 1) mod 2 ^ 6"
    by (rule unat_and_pred_power) simp_all
  also have "\<dots> = (unat x + 1) mod 64" by (simp add: unat_word_ariths mod_mod_cancel)
  finally show ?thesis by simp
qed

lemma next_less: "(x + 1 :: u32) AND 63 < 64"
  using unat_next [of x] by (simp add: word_less_nat_alt)

text \<open>Arithmetic of the indices: the fill, and the step to the next place.\<close>

definition fill_64 :: "nat \<Rightarrow> nat \<Rightarrow> nat" where
  "fill_64 h t = (if t \<le> h then h - t else h + 64 - t)"

lemma fill_mod: "h < 64 \<Longrightarrow> t < 64 \<Longrightarrow> (h + 64 - t) mod 64 = fill_64 h t"
  by (auto simp: fill_64_def mod_if)

lemma mod_step: "h < 64 \<Longrightarrow> (h + 1) mod 64 = (if h = 63 then 0 else h + 1)" for h :: nat
  by auto

lemma fill_arith:
  assumes "h < 64" and "t < 64"
  shows "fill_64 h t < 64" and "(t + fill_64 h t) mod 64 = h"
    and "(h + 1) mod 64 = t \<longleftrightarrow> fill_64 h t = 63"
    and "fill_64 h t < 63 \<Longrightarrow> fill_64 ((h + 1) mod 64) t = fill_64 h t + 1"
    and "fill_64 h t = 63 \<Longrightarrow> fill_64 t ((t + 1) mod 64) = 63"
    and "h \<noteq> t \<Longrightarrow> fill_64 h t = Suc (fill_64 h ((t + 1) mod 64))"
  using assms unfolding mod_step [OF assms(1)] mod_step [OF assms(2)] by (auto simp: fill_64_def mod_if split: if_splits)

lemma fifo_list_fill:
  assumes "head < 64" and "tail < 64"
  shows "fifo_list (mb, head, tail) = map (\<lambda>i. mb ! ((unat tail + i) mod 64)) [0..<fill_64 (unat head) (unat tail)]"
  using assms by (simp add: fifo_list_def fill_mod word_less_nat_alt)

lemma fifo_put:
  assumes "fifo_ok f" and "v \<noteq> 0"
  shows "fifo_list (midi_put v f) = (if length (fifo_list f) < 63 then fifo_list f @ [v] else tl (fifo_list f) @ [v])"
    and "fifo_ok (midi_put v f)"
proof -
  obtain mb head tail where f: "f = (mb, head, tail)" by (cases f)
  define h t where "h = unat head" and "t = unat tail"
  have b: "length mb = 64" "h < 64" "t < 64" using assms(1) by (simp_all add: fifo_ok_def f h_def t_def word_less_nat_alt)
  define n where "n = fill_64 h t"
  note arith = fill_arith [OF b(2,3), folded n_def]
  have h': "head < 64" "tail < 64" using b by (simp_all add: h_def t_def word_less_nat_alt)
  have eq: "(head + 1) AND 63 = tail \<longleftrightarrow> n = 63"
    unfolding arith(3) [symmetric] h_def t_def by (metis unat_next word_unat_eq_iff)
  have list: "fifo_list f = map (\<lambda>i. mb ! ((t + i) mod 64)) [0..<n]"
    unfolding f fifo_list_fill [OF h'] by (simp add: n_def h_def t_def)
  have old: "mb[h := v] ! ((t + i) mod 64) = mb ! ((t + i) mod 64)" if "i < n" for i
    using that arith(1,2) b mod_add_inject [of t i 64 n] by (auto simp: nth_list_update)
  have at_n: "mb[h := v] ! ((t + n) mod 64) = v" using arith(2) b by simp
  have "fifo_list (midi_put v f) = (if n < 63 then fifo_list f @ [v] else tl (fifo_list f) @ [v])"
  proof (cases "n < 63")
    case True
    then have "fifo_list (midi_put v f) = map (\<lambda>i. mb[h := v] ! ((t + i) mod 64)) [0..<n + 1]"
      using arith(4) h' next_less
      by (simp add: f midi_put_def Let_def eq fifo_list_fill unat_next flip: h_def t_def n_def)
    then show ?thesis using True old at_n list by simp
  next
    case False
    then have n63: "n = 63" using arith(1) by simp
    then have hd: "(head + 1) AND 63 = tail" using eq by simp
    have "fifo_list (midi_put v f) = map (\<lambda>i. mb[h := v] ! (((t + 1) mod 64 + i) mod 64)) [0..<63]"
      using arith(5) n63 h' next_less
      by (simp add: f midi_put_def Let_def hd fifo_list_fill unat_next flip: h_def t_def)
    also have "\<dots> = map (\<lambda>i. mb[h := v] ! ((t + i) mod 64)) [1..<64]"
      by (rule nth_equalityI) (simp_all add: mod_simps)
    also have "\<dots> = map (\<lambda>i. mb[h := v] ! ((t + i) mod 64)) [1..<63] @ [v]"
    proof -
      have "[1..<64] = [1..<63] @ [63 :: nat]" using upt_Suc_append [of 1 63] by simp
      then show ?thesis using at_n n63 by simp
    qed
    also have "map (\<lambda>i. mb[h := v] ! ((t + i) mod 64)) [1..<63] = tl (fifo_list f)"
    proof -
      have "mb[h := v] ! (Suc (t + i) mod 64) = mb ! (Suc (t + i) mod 64)" if "i < 62" for i
        using old [of "Suc i"] that n63 by simp
      then show ?thesis unfolding list n63 by (intro nth_equalityI) (simp_all add: nth_tl)
    qed
    finally show ?thesis using False by simp
  qed
  then show l: "fifo_list (midi_put v f) = (if length (fifo_list f) < 63 then fifo_list f @ [v] else tl (fifo_list f) @ [v])"
    by (simp add: list)
  have "0 \<notin> set (fifo_list f)" using assms(1) by (simp add: fifo_ok_def)
  then have "0 \<notin> set (tl (fifo_list f))" by (cases "fifo_list f") auto
  then have "0 \<notin> set (fifo_list (midi_put v f))" using assms(2) \<open>0 \<notin> set (fifo_list f)\<close> unfolding l by auto
  then show "fifo_ok (midi_put v f)"
    using b h' by (auto simp: fifo_ok_def f midi_put_def Let_def next_less)
qed

lemma fifo_take:
  assumes "fifo_ok f"
  shows "fifo_list f = (if fst (midi_take f) = 0 then [] else [fst (midi_take f)]) @ fifo_list (snd (midi_take f))"
    and "fifo_ok (snd (midi_take f))"
proof -
  obtain mb head tail where f: "f = (mb, head, tail)" by (cases f)
  have b: "length mb = 64" "head < 64" "tail < 64" using assms by (simp_all add: fifo_ok_def f)
  note arith = fill_arith [of "unat head" "unat tail"]
  have "fifo_list f = (if fst (midi_take f) = 0 then [] else [fst (midi_take f)]) @ fifo_list (snd (midi_take f))
      \<and> fifo_ok (snd (midi_take f))"
  proof (cases "head = tail")
    case True
    then show ?thesis using assms b by (simp add: f midi_take_def fifo_list_fill fill_64_def)
  next
    case False
    then have ne: "unat head \<noteq> unat tail" by (simp add: word_unat_eq_iff)
    let ?f = "(mb, head, (tail + 1) AND 63)"
    have "fifo_list f = map (\<lambda>i. mb ! ((unat tail + i) mod 64)) [0..<Suc (fill_64 (unat head) ((unat tail + 1) mod 64))]"
      unfolding f fifo_list_fill [OF b(2,3)] using arith(6) ne b(2,3) by (simp add: word_less_nat_alt)
    also have "\<dots> = mb ! unat tail # fifo_list ?f"
      unfolding fifo_list_fill [OF b(2) next_less] unat_next
      using b(3) by (simp add: map_upt_Suc mod_simps word_less_nat_alt del: upt_Suc)
    finally have l: "fifo_list f = mb ! unat tail # fifo_list ?f" .
    then have "mb ! unat tail \<noteq> 0" "fifo_ok ?f" using assms b by (auto simp: fifo_ok_def f next_less)
    then show ?thesis using False l by (simp add: f midi_take_def)
  qed
  then show "fifo_list f = (if fst (midi_take f) = 0 then [] else [fst (midi_take f)]) @ fifo_list (snd (midi_take f))"
    and "fifo_ok (snd (midi_take f))" by auto
qed

text \<open>The bytes that arrive in the frames of a port, in the form in which the client gets them.\<close>

definition midi_arrivals :: "(nat \<Rightarrow> u32 option) \<Rightarrow> nat list \<Rightarrow> u32 list" where
  "midi_arrivals ev js =
     concat (map (\<lambda>j. case ev j of None \<Rightarrow> []
        | Some v \<Rightarrow> if IEC61883_AM824_HAS_LABEL v IEC61883_AM824_LABEL_MIDI_1X then [midi_value v] else []) js)"

lemma midi_value_not_zero: "midi_value v \<noteq> 0"
proof
  assume "midi_value v = 0"
  then have "bit (midi_value v) 24 = bit (0 :: u32) 24" by simp
  then show False by (simp add: midi_value_def bit_simps)
qed

lemma decode_midi_frames_order:
  assumes "\<And>j. j \<in> set js \<Longrightarrow> ev j \<noteq> None" and "fifo_ok f"
    and "length (fifo_list f) + length (midi_arrivals ev js) \<le> 63"
  shows "\<exists>f' outs. decode_midi_frames ev js f = Some (f', outs) \<and> fifo_ok f' \<and> length outs = length js
    \<and> filter (\<lambda>v. v \<noteq> 0) outs @ fifo_list f' = fifo_list f @ midi_arrivals ev js
    \<and> (\<forall>i<length js. js ! i mod 8 \<noteq> 0 \<longrightarrow> outs ! i = 0)"
  using assms
proof (induction js arbitrary: f)
  case Nil
  then show ?case by (simp add: midi_arrivals_def)
next
  case (Cons j js)
  obtain v where v: "ev j = Some v" using Cons.prems(1) [of j] by auto
  define here where "here = (if IEC61883_AM824_HAS_LABEL v IEC61883_AM824_LABEL_MIDI_1X then [midi_value v] else [])"
  have arr: "midi_arrivals ev (j # js) = here @ midi_arrivals ev js" by (simp add: midi_arrivals_def v here_def)
  define g where "g = (if IEC61883_AM824_HAS_LABEL v IEC61883_AM824_LABEL_MIDI_1X then midi_put (midi_value v) f else f)"
  have g: "fifo_ok g" "fifo_list g = fifo_list f @ here"
    using fifo_put [OF Cons.prems(2) midi_value_not_zero, of v] Cons.prems(2,3) unfolding arr by (auto simp: g_def here_def)
  define out k where "out = (if j mod 8 = 0 then fst (midi_take g) else 0)"
    and "k = (if j mod 8 = 0 then snd (midi_take g) else g)"
  have k: "fifo_ok k" "fifo_list g = filter (\<lambda>v. v \<noteq> 0) [out] @ fifo_list k"
    using fifo_take [OF g(1)] g(1) by (auto simp: out_def k_def)
  have "length (fifo_list k) \<le> length (fifo_list g)" by (simp add: k(2))
  then have "length (fifo_list k) + length (midi_arrivals ev js) \<le> 63"
    using Cons.prems(3) by (simp add: g(2) arr)
  from Cons.IH [OF _ k(1) this] Cons.prems(1) obtain f' outs where
    ih: "decode_midi_frames ev js k = Some (f', outs)" "fifo_ok f'" "length outs = length js"
      "filter (\<lambda>v. v \<noteq> 0) outs @ fifo_list f' = fifo_list k @ midi_arrivals ev js"
      "\<forall>i<length js. js ! i mod 8 \<noteq> 0 \<longrightarrow> outs ! i = 0" by auto
  have step: "decode_midi_frames ev (j # js) f = Some (f', out # outs)"
    using ih(1) v by (cases "j mod 8 = 0") (simp_all add: Let_def split_beta out_def k_def flip: g_def)
  have "filter (\<lambda>v. v \<noteq> 0) (out # outs) @ fifo_list f' = filter (\<lambda>v. v \<noteq> 0) [out] @ filter (\<lambda>v. v \<noteq> 0) outs @ fifo_list f'"
    by simp
  also have "\<dots> = fifo_list f @ midi_arrivals ev (j # js)" using ih(4) k(2) g(2) by (simp add: arr)
  finally have order: "filter (\<lambda>v. v \<noteq> 0) (out # outs) @ fifo_list f' = fifo_list f @ midi_arrivals ev (j # js)" .
  have "\<forall>i<length (j # js). (j # js) ! i mod 8 \<noteq> 0 \<longrightarrow> (out # outs) ! i = 0"
    using ih(5) by (auto simp: less_Suc_eq_0_disj out_def)
  then show ?case using step ih(2,3) order by (intro exI [of _ f'] exI [of _ "out # outs"]) simp
qed



text \<open>
  All MIDI ports of a processor share one queue: the second of two bytes that arrive for the first
  port in one block ends up in the buffer of the second port.
\<close>

lemma midi_ports_share_queue:
  "map_option (\<lambda>(f, ps). map m_buffer ps)
     (decode_midi_ports (concat (map (host_bytes True) [0x81430000, 0x80000000, 0x81440000, 0x80000000])) 2 0 2
        (map (\<lambda>k. \<lparr>c_port = k, c_buffer = Some k, c_enabled = True, c_buffer_size = 2, c_position = of_nat k, c_location = 0\<rparr>) [0, 1])
        ((replicate 64 0, 0, 0), map (\<lambda>k. (AmdtpMidiPort_new k [] E_Capture (of_nat k) 0 Format_Midi)
           \<lparr>m_buffer := Some (Quadlets [0, 0])\<rparr>) [0, 1]))
   = Some [Some (Quadlets [0x01000043, 0]), Some (Quadlets [0x01000044, 0])]"
  by (simp add: host_bytes_def bus_quadlet_def host_quadlet_def midi_place_def active_def upt_zero_numeral with_buffer_def
      lookup_port_def AmdtpMidiPort_new_def Port_new_def store_quadlets_def store_at_def midi_put_def midi_take_def Let_def
      IEC61883_AM824_HAS_LABEL_def IEC61883_AM824_LABEL_MIDI_1X_def midi_value_def)

section \<open>Short packets\<close>

lemma packet_nevents_short:
  assumes "6 < pk_fdf packet" and "0 < pk_dbs packet" and "8 \<le> len" and "uint len < 8 + 4 * uint (pk_dbs packet)"
  shows "packet_nevents packet len = Some 0"
proof -
  have l: "uint (ucast len :: u64) = uint len" by (rule uint_ucast_up) simp
  have ge: "8 \<le> uint len" using assms(3) by (simp add: word_le_def)
  have q: "uint (ucast len div 4 :: u64) = uint len div 4" by (simp add: uint_div_distrib l)
  have m: "uint (ucast len div 4 - 2 :: u64) = uint len div 4 - 2"
    using ge q by (subst uint_minus_no_underflow) (simp_all add: word_le_def)
  have d: "uint (ucast (pk_dbs packet) :: u64) = uint (pk_dbs packet)" by (rule uint_ucast_up) simp
  have "uint ((ucast len div 4 - 2 :: u64) div ucast (pk_dbs packet)) = 0"
    using assms(4) ge unfolding uint_div_distrib m d by (intro div_pos_pos_trivial) simp_all
  then have "(ucast len div 4 - 2 :: u64) div ucast (pk_dbs packet) = 0" by (simp only: uint_0_iff)
  moreover have "pk_fdf packet \<notin> {0x00, 0x01, 0x02}" "pk_fdf packet \<notin> {0x03, 0x04}" "pk_fdf packet \<notin> {0x05, 0x06}"
    using assms(1) by auto
  ultimately show ?thesis using assms(2) unfolding packet_nevents_def by simp
qed

text \<open>
  A packet can bring the program down: with debug messages compiled in (the default), a
  packet whose header is accepted, whose FDF is none of the AM824 rates and which is shorter than one
  frame holds 0 frames, and the debug message of \<^verbatim>\<open>processPacketData\<close> divides by that number.
\<close>

theorem receive_short_packet:
  fixes s s' :: "'m stream_processor_scheme"
  assumes "packet_of_bytes data = Some packet"
    and "receive_processPacketHeader data len tag sy ctr s = Some (eCRV_OK, s')"
    and "6 < pk_fdf packet" and "uint len < 8 + 4 * uint (pk_dbs packet)" and "debug_messages e"
  shows "receive_processPacketData e data len s' = None"
proof -
  have "0 < pk_dbs packet" "8 \<le> len"
    using assms(1,2) by (auto simp: receive_processPacketHeader_def Let_def split: if_splits)
  then have "packet_nevents packet len = Some 0" by (intro packet_nevents_short assms(3,4))
  then show ?thesis using assms(1,5) by (simp add: receive_processPacketData_def)
qed

theorem receive_short_packet_witness:
  "receive_processPacketHeader [0, 1, 0, 0, 0x90, 7, 0, 0] 8 1 0 0 example_receive
     = Some (eCRV_OK, example_receive\<lparr>m_last_timestamp := sytRecvToFullTicks2 0 0\<rparr>)
   \<and> receive_processPacketData example_env [0, 1, 0, 0, 0x90, 7, 0, 0] 8
       (example_receive\<lparr>m_last_timestamp := sytRecvToFullTicks2 0 0\<rparr>) = None"
proof
  let ?d = "[0, 1, 0, 0, 0x90, 7, 0, 0] :: u8 list" and ?s = "example_receive\<lparr>m_last_timestamp := sytRecvToFullTicks2 0 0\<rparr>"
  let ?p = "\<lparr>pk_eoh0 = 0, pk_sid = 0, pk_dbs = 1, pk_fn = 0, pk_qpc = 0, pk_sph = 0, pk_reserved = 0, pk_dbc = 0,
             pk_eoh1 = 2, pk_fmt = 0x10, pk_fdf = 7, pk_syt = 0\<rparr>"
  have p: "packet_of_bytes ?d = Some ?p" by (simp add: packet_of_bytes_def u16_join_def)
  show h: "receive_processPacketHeader ?d 8 1 0 0 example_receive = Some (eCRV_OK, ?s)"
    by (simp add: receive_processPacketHeader_def p)
  show "receive_processPacketData example_env ?d 8 ?s = None"
    by (rule receive_short_packet [OF p h]) (simp_all add: example_env_def)
qed

end
