(* ===== verification/AmdtpTransmit.thy ===== *)
theory AmdtpTransmit
  imports AmdtpReceive AvcGeneric
begin

text \<open>
  The AMDTP transmit stream processor, \<^verbatim>\<open>libstreaming/amdtp/AmdtpTransmitStreamProcessor.cpp\<close>: the
  choice of what to send in a cycle, the headers of data and no-data packets, and the encoding of the
  client's frames. The codes of the FDF field are parameters, as for the AV/C commands; \<open>sse\<close> says
  whether the encoders are the ones for SSE2.
\<close>

section \<open>Data\<close>

record amdtp_transmit = amdtp_processor +
  m_cip_status :: "iec61883_cip option"
  m_fdf :: i32
  m_dbc :: u32
  m_send_nodata_payload :: bool
  m_max_cycles_to_transmit_early :: i32
  m_transmit_transfer_delay :: u32
  m_min_cycles_before_presentation :: i32

definition AMDTP_TRANSMIT_TRANSFER_DELAY :: u32 where [consts_defs]: "AMDTP_TRANSMIT_TRANSFER_DELAY = 8704"
definition AMDTP_MIN_CYCLES_BEFORE_PRESENTATION :: i32 where [consts_defs]: "AMDTP_MIN_CYCLES_BEFORE_PRESENTATION = 1"
definition AMDTP_MAX_CYCLES_TO_TRANSMIT_EARLY :: i32 where [consts_defs]: "AMDTP_MAX_CYCLES_TO_TRANSMIT_EARLY = 1"

text \<open>\<open>m_cip_status\<close> and \<open>m_fdf\<close> are unset until \<^verbatim>\<open>prepareChild\<close>.\<close>

definition AmdtpTransmitStreamProcessor_new :: "fparith \<Rightarrow> (nat \<Rightarrow> u32) \<Rightarrow> u32 \<Rightarrow> amdtp_transmit" where
  "AmdtpTransmitStreamProcessor_new fp junk dimension =
     amdtp_processor.extend (amdtp_new fp (junk 0) ePT_Transmit dimension)
       (amdtp_transmit.fields None (junk 1) 0 True AMDTP_MAX_CYCLES_TO_TRANSMIT_EARLY AMDTP_TRANSMIT_TRANSFER_DELAY
          AMDTP_MIN_CYCLES_BEFORE_PRESENTATION)"

definition sendPayloadForNoDataPackets :: "bool \<Rightarrow> 'm amdtp_transmit_scheme \<Rightarrow> 'm amdtp_transmit_scheme" where
  "sendPayloadForNoDataPackets b s = s\<lparr>m_send_nodata_payload := b\<rparr>"

definition setMaxCyclesToTransmitEarly :: "i32 \<Rightarrow> 'm amdtp_transmit_scheme \<Rightarrow> 'm amdtp_transmit_scheme" where
  "setMaxCyclesToTransmitEarly x s = s\<lparr>m_max_cycles_to_transmit_early := x\<rparr>"

definition setTransferDelay :: "u32 \<Rightarrow> 'm amdtp_transmit_scheme \<Rightarrow> 'm amdtp_transmit_scheme" where
  "setTransferDelay x s = s\<lparr>m_transmit_transfer_delay := x\<rparr>"

definition setMinCyclesBeforePresentation :: "i32 \<Rightarrow> 'm amdtp_transmit_scheme \<Rightarrow> 'm amdtp_transmit_scheme" where
  "setMinCyclesBeforePresentation x s = s\<lparr>m_min_cycles_before_presentation := x\<rparr>"

section \<open>Headers\<close>

text \<open>A change of the header at the start of the packet.\<close>

definition write_header :: "(iec61883_packet \<Rightarrow> iec61883_packet) \<Rightarrow> xmit_packet \<Rightarrow> xmit_packet option" where
  "write_header f x =
     do { packet \<leftarrow> packet_of_bytes (x_data x);
          d \<leftarrow> store_at (x_data x) 0 (packet_bytes (f packet));
          Some (x\<lparr>x_data := d\<rparr>) }"

text \<open>The fields all three kinds of header set first, with the tag and the sync code.\<close>

definition common_header :: "'m amdtp_transmit_scheme \<Rightarrow> xmit_packet \<Rightarrow> xmit_packet option" where
  "common_header s x =
     map_option (\<lambda>x. x\<lparr>x_tag := IEC61883_TAG_WITH_CIP, x_sy := 0\<rparr>)
       (write_header (\<lambda>p. p\<lparr>pk_sid := ucast (m_local_node_id s), pk_eoh0 := 0, pk_dbs := ucast (m_dimension s), pk_fn := 0,
                            pk_qpc := 0, pk_sph := 0, pk_reserved := 0, pk_dbc := ucast (m_dbc s), pk_eoh1 := 2,
                            pk_fmt := IEC61883_FMT_AMDTP\<rparr>) x)"

text \<open>The timestamp is passed as 32 bits.\<close>

definition fillDataPacketHeader :: "u32 \<Rightarrow> 'm amdtp_transmit_scheme \<Rightarrow> xmit_packet \<Rightarrow> (u32 \<times> xmit_packet) option" where
  "fillDataPacketHeader ts s x =
     do { x \<leftarrow> write_header (\<lambda>p. p\<lparr>pk_fdf := ucast (m_fdf s), pk_syt := ucast (TICKS_TO_SYT (ucast ts))\<rparr>) x;
          Some (m_syt_interval s, x\<lparr>x_length := m_syt_interval s * 4 * m_dimension s + 8\<rparr>) }"

definition fillNoDataPacketHeader :: "'m amdtp_transmit_scheme \<Rightarrow> xmit_packet \<Rightarrow> (u32 \<times> xmit_packet) option" where
  "fillNoDataPacketHeader s x =
     do { x \<leftarrow> write_header (\<lambda>p. p\<lparr>pk_fdf := IEC61883_FDF_NODATA, pk_syt := 0xffff\<rparr>) x;
          if m_send_nodata_payload s
          then Some (m_syt_interval s, x\<lparr>x_length := 2 * 4 + m_syt_interval s * m_dimension s * 4\<rparr>)
          else Some (0, x\<lparr>x_length := 2 * 4\<rparr>) }"

definition send_data ::
  "u64 \<Rightarrow> eChildReturnValue \<Rightarrow> xmit_packet \<Rightarrow> 'm amdtp_transmit_scheme
   \<Rightarrow> (eChildReturnValue \<times> xmit_packet \<times> 'm amdtp_transmit_scheme) option" where
  "send_data presentation_time r x s =
     do { (n, x) \<leftarrow> fillDataPacketHeader (ucast presentation_time) s x;
          Some (r, x, s\<lparr>m_dbc := m_dbc s + n, m_last_timestamp := presentation_time\<rparr>) }"

definition transmit_generatePacketHeader ::
  "sp_env \<Rightarrow> xmit_packet \<Rightarrow> u32 \<Rightarrow> 'm amdtp_transmit_scheme
   \<Rightarrow> (eChildReturnValue \<times> xmit_packet \<times> 'm amdtp_transmit_scheme) option" where
  "transmit_generatePacketHeader e x pkt_ctr s =
     do {
       x \<leftarrow> common_header s x;
       let (ts_head_tmp, fc) = getBufferHeadTimestamp (fpa e) (m_data_buffer s);
       let presentation_time = (of_int (trunc_rat ts_head_tmp) :: u64);
       let transmit_at_time = substractTicks presentation_time (ucast (m_transmit_transfer_delay s));
       let presentation_cycle = (ucast (TICKS_TO_CYCLES presentation_time) :: u32);
       let transmit_at_cycle = (ucast (TICKS_TO_CYCLES transmit_at_time) :: u32);
       let cycles_until_presentation = diffCycles presentation_cycle (pkt_cycles pkt_ctr);
       let cycles_until_transmit = diffCycles transmit_at_cycle (pkt_cycles pkt_ctr);
       if fc <s m_syt_interval s then
         if cycles_until_presentation \<le>s m_min_cycles_before_presentation s
         then Some (eCRV_XRun, x, s)
         else Some (eCRV_Again, x, s)
       else if cycles_until_transmit <s 0 then
         if m_min_cycles_before_presentation s \<le>s cycles_until_presentation
         then send_data presentation_time (if fc <s 2 * m_syt_interval s then eCRV_Defer else eCRV_Packet) x s
         else Some (eCRV_XRun, x, s)
       else if cycles_until_transmit \<le>s m_max_cycles_to_transmit_early s
       then send_data presentation_time (if fc <s m_syt_interval s then eCRV_Defer else eCRV_Packet) x s
       else Some (eCRV_EmptyPacket, x, s)
     }"

definition transmit_generatePacketData ::
  "xmit_packet \<Rightarrow> 'm amdtp_transmit_scheme \<Rightarrow> (eChildReturnValue \<times> xmit_packet \<times> 'm amdtp_transmit_scheme) option" where
  "transmit_generatePacketData x s =
     do {
       (ok, frames, b) \<leftarrow> readFrames (m_data_buffer s) (m_syt_interval s);
       d \<leftarrow> store_at (x_data x) 8 frames;
       Some (if ok then eCRV_OK else eCRV_XRun, x\<lparr>x_data := d\<rparr>, s\<lparr>m_data_buffer := b\<rparr>)
     }"

definition nodata_header ::
  "eChildReturnValue \<Rightarrow> xmit_packet \<Rightarrow> 'm amdtp_transmit_scheme
   \<Rightarrow> (eChildReturnValue \<times> xmit_packet \<times> 'm amdtp_transmit_scheme) option" where
  "nodata_header r x s =
     do { x \<leftarrow> common_header s x;
          (n, x) \<leftarrow> fillNoDataPacketHeader s x;
          Some (r, x, s\<lparr>m_dbc := m_dbc s + n\<rparr>) }"

definition transmit_generateSilentPacketHeader ::
  "xmit_packet \<Rightarrow> u32 \<Rightarrow> 'm amdtp_transmit_scheme \<Rightarrow> (eChildReturnValue \<times> xmit_packet \<times> 'm amdtp_transmit_scheme) option" where
  "transmit_generateSilentPacketHeader x pkt_ctr s = nodata_header eCRV_Packet x s"

definition transmit_generateSilentPacketData ::
  "xmit_packet \<Rightarrow> 'm amdtp_transmit_scheme \<Rightarrow> (eChildReturnValue \<times> xmit_packet \<times> 'm amdtp_transmit_scheme) option" where
  "transmit_generateSilentPacketData x s = Some (eCRV_OK, x, s)"

definition transmit_generateEmptyPacketHeader ::
  "xmit_packet \<Rightarrow> u32 \<Rightarrow> 'm amdtp_transmit_scheme \<Rightarrow> (eChildReturnValue \<times> xmit_packet \<times> 'm amdtp_transmit_scheme) option" where
  "transmit_generateEmptyPacketHeader x pkt_ctr s = nodata_header eCRV_OK x s"

definition transmit_generateEmptyPacketData ::
  "xmit_packet \<Rightarrow> 'm amdtp_transmit_scheme \<Rightarrow> (eChildReturnValue \<times> xmit_packet \<times> 'm amdtp_transmit_scheme) option" where
  "transmit_generateEmptyPacketData x s = Some (eCRV_OK, x, s)"

section \<open>Preparation\<close>

definition transmit_getSytInterval :: "sp_env \<Rightarrow> u32" where
  "transmit_getSytInterval e =
     (let r = m_nominal_framerate (spm e)
      in if r = 32000 \<or> r = 44100 \<or> r = 48000 then 8
         else if r = 88200 \<or> r = 96000 then 16
         else if r = 176400 \<or> r = 192000 then 32
         else 0)"

definition getFDF :: "fdf_sfc \<Rightarrow> sp_env \<Rightarrow> u32" where
  "getFDF k e =
     (let r = m_nominal_framerate (spm e)
      in if r = 32000 then ucast (SFC_32KHZ k)
         else if r = 44100 then ucast (SFC_44K1HZ k)
         else if r = 48000 then ucast (SFC_48KHZ k)
         else if r = 88200 then ucast (SFC_88K2HZ k)
         else if r = 96000 then ucast (SFC_96KHZ k)
         else if r = 176400 then ucast (SFC_176K4HZ k)
         else if r = 192000 then ucast (SFC_192KHZ k)
         else 0)"

text \<open>The transmit class repeats the code of the receive class for its port cache.\<close>

definition transmit_initPortCache :: "'m amdtp_processor_scheme \<Rightarrow> (bool \<times> 'm amdtp_processor_scheme) option" where
  "transmit_initPortCache = initPortCache"

definition transmit_updatePortCache :: "'m amdtp_processor_scheme \<Rightarrow> 'm amdtp_processor_scheme option" where
  "transmit_updatePortCache = updatePortCache"

definition transmit_prepareChild ::
  "fdf_sfc \<Rightarrow> sp_env \<Rightarrow> 'm amdtp_transmit_scheme \<Rightarrow> (bool \<times> 'm amdtp_transmit_scheme) option" where
  "transmit_prepareChild k e s =
     (let s = s\<lparr>m_syt_interval := transmit_getSytInterval e, m_fdf := getFDF k e\<rparr>;
          s = s\<lparr>m_cip_status := Some (iec61883_cip_init (ucast IEC61883_FMT_AMDTP) (m_fdf s)
                   (sint (m_nominal_framerate (spm e))) (m_dimension s) (sint (m_syt_interval s)))\<rparr>
      in transmit_initPortCache s)"

section \<open>The subclass\<close>

text \<open>The block to be filled holds what its memory held before; not every event of it is written.\<close>

definition block_memory :: "sp_env \<Rightarrow> u32 \<Rightarrow> 'm amdtp_processor_scheme \<Rightarrow> u8 list" where
  "block_memory e nevents s = map (fresh e) [0..<4 * (unat nevents * unat (m_dimension s))]"

definition transmit_processWriteBlock ::
  "bool \<Rightarrow> sp_env \<Rightarrow> u32 \<Rightarrow> u32 \<Rightarrow> 'm amdtp_transmit_scheme \<Rightarrow> (bool \<times> u8 list \<times> 'm amdtp_transmit_scheme) option" where
  "transmit_processWriteBlock sse e nevents offset s =
     do {
       s \<leftarrow> transmit_updatePortCache s;
       let data = block_memory e nevents s;
       (data, s) \<leftarrow> (case m_audio_datatype (spm e) of
           eADT_Int24 \<Rightarrow> (if sse then encodeAudioPortsInt24_sse e data offset nevents s
                         else encodeAudioPortsInt24 e data offset nevents s)
         | eADT_Float \<Rightarrow> (if sse then encodeAudioPortsFloat_sse e data offset nevents s
                         else encodeAudioPortsFloat e data offset nevents s));
       data \<leftarrow> encodeMidiPorts data offset nevents s;
       Some (True, data, s)
     }"

definition transmit_transmitSilenceBlock ::
  "u8 list \<Rightarrow> u32 \<Rightarrow> u32 \<Rightarrow> 'm amdtp_transmit_scheme \<Rightarrow> (bool \<times> u8 list \<times> 'm amdtp_transmit_scheme) option" where
  "transmit_transmitSilenceBlock data nevents offset s =
     do { data \<leftarrow> encodeAudioPortsSilence data offset nevents s;
          data \<leftarrow> encodeMidiPortsSilence data offset nevents s;
          Some (True, data, s) }"

definition transmit_getMaxPacketSize :: "sp_env \<Rightarrow> 'm amdtp_processor_scheme \<Rightarrow> u32" where
  "transmit_getMaxPacketSize e s = 4 * (2 + transmit_getSytInterval e * m_dimension s)"

definition amdtp_transmit_child :: "fdf_sfc \<Rightarrow> bool \<Rightarrow> sp_env \<Rightarrow> 'm amdtp_transmit_scheme sp_child" where
  "amdtp_transmit_child k sse e =
     (sp_child_defaults (transmit_prepareChild k e) m_dimension (\<lambda>_. 4) (\<lambda>_. transmit_getSytInterval e))
       \<lparr>generatePacketHeader := transmit_generatePacketHeader e,
        generatePacketData := transmit_generatePacketData,
        generateEmptyPacketHeader := transmit_generateEmptyPacketHeader,
        generateEmptyPacketData := transmit_generateEmptyPacketData,
        generateSilentPacketHeader := transmit_generateSilentPacketHeader,
        generateSilentPacketData := transmit_generateSilentPacketData,
        processWriteBlock := transmit_processWriteBlock sse e,
        transmitSilenceBlock := transmit_transmitSilenceBlock\<rparr>"

section \<open>The contract of the base class\<close>

lemma xmit_packet_private:
  "send_data t r x s = Some (r', x', s') \<Longrightarrow> same_private s s'"
  "nodata_header r x s = Some (r', x', s') \<Longrightarrow> same_private s s'"
  by (auto simp: send_data_def nodata_header_def same_private_def bind_eq_Some_conv)

lemma transmit_header_private: "keeps_private3 (transmit_generatePacketHeader e x c)"
  unfolding keeps_private3_def transmit_generatePacketHeader_def
  by (auto simp: bind_eq_Some_conv Let_def split_beta split: if_splits dest!: xmit_packet_private)

lemma transmit_data_private: "keeps_private3 (transmit_generatePacketData x)"
  unfolding keeps_private3_def transmit_generatePacketData_def
  by (auto simp: bind_eq_Some_conv same_private_def dest!: readFrames_transparent)

lemma transmit_nodata_private:
  "keeps_private3 (transmit_generateEmptyPacketHeader x c)" "keeps_private3 (transmit_generateSilentPacketHeader x c)"
  "keeps_private3 (transmit_generateEmptyPacketData x)" "keeps_private3 (transmit_generateSilentPacketData x)"
  by (auto simp: keeps_private3_def transmit_generateEmptyPacketHeader_def transmit_generateSilentPacketHeader_def
      transmit_generateEmptyPacketData_def transmit_generateSilentPacketData_def xmit_packet_private)

lemma encode_private:
  "encodeAudioPortsInt24 e d off n s = Some (d', s') \<Longrightarrow> same_private s s'"
  "encodeAudioPortsFloat e d off n s = Some (d', s') \<Longrightarrow> same_private s s'"
  "encodeAudioPortsInt24_sse e d off n s = Some (d', s') \<Longrightarrow> same_private s s'"
  "encodeAudioPortsFloat_sse e d off n s = Some (d', s') \<Longrightarrow> same_private s s'"
  by (auto simp: encodeAudioPortsInt24_def encodeAudioPortsFloat_def encodeAudioPortsInt24_sse_def
      encodeAudioPortsFloat_sse_def bind_eq_Some_conv same_private_def elim!: clear_scratch_keeps)

lemma transmit_write_block_private: "keeps_private3 (transmit_processWriteBlock sse e n off)"
  unfolding keeps_private3_def transmit_processWriteBlock_def transmit_updatePortCache_def Let_def
  by (cases "m_audio_datatype (spm e)"; cases sse)
    (auto simp: bind_eq_Some_conv dest!: updatePortCache_private encode_private intro: same_private_trans)

lemma transmit_silence_private: "keeps_private3 (transmit_transmitSilenceBlock d n off)"
  by (auto simp: keeps_private3_def transmit_transmitSilenceBlock_def bind_eq_Some_conv)

lemma transmit_prepare_private: "keeps_private (transmit_prepareChild k e)"
  unfolding keeps_private_def transmit_prepareChild_def Let_def transmit_initPortCache_def
  by (auto dest!: initPortCache_private simp: same_private_def)

interpretation amdtp_tx: sp_child_laws "amdtp_transmit_child k sse e" for k sse e
  by unfold_locales
    (simp_all add: amdtp_transmit_child_def sp_child_defaults_def transmit_header_private transmit_data_private
      transmit_nodata_private transmit_write_block_private transmit_silence_private transmit_prepare_private)

interpretation amdtp_tx_family: sp_child_family "amdtp_transmit_child k sse" for k sse
  by unfold_locales

section \<open>Empty packets\<close>

lemma length_packet_bytes [simp]: "length (packet_bytes p) = 8"
  by (simp add: packet_bytes_def)

lemma write_header_eq:
  "8 \<le> length (x_data x) \<Longrightarrow>
     write_header f x = Some (x\<lparr>x_data := packet_bytes (f (the (packet_of_bytes (x_data x)))) @ drop 8 (x_data x)\<rparr>)"
  by (simp add: write_header_def store_at_def packet_of_bytes_def)

lemma common_header_Some:
  assumes "8 \<le> length (x_data x)"
  obtains y where "common_header s x = Some y" and "length (x_data y) = length (x_data x)"
  using assms that by (simp add: common_header_def write_header_eq)

lemma nodata_header_Some:
  assumes "8 \<le> length (x_data x)"
  obtains y n where "nodata_header r x s = Some (r, y, s\<lparr>m_dbc := m_dbc s + n\<rparr>)" and "length (x_data y) = length (x_data x)"
proof -
  obtain y where y: "common_header s x = Some y" "length (x_data y) = length (x_data x)"
    using assms by (rule common_header_Some)
  let ?z = "\<lambda>n. y\<lparr>x_data := packet_bytes ((the (packet_of_bytes (x_data y)))\<lparr>pk_fdf := IEC61883_FDF_NODATA, pk_syt := 0xffff\<rparr>)
      @ drop 8 (x_data y), x_length := 2 * 4 + n * m_dimension s * 4\<rparr>"
  have "nodata_header r x s = Some (r, ?z n, s\<lparr>m_dbc := m_dbc s + n\<rparr>)"
    if "n = (if m_send_nodata_payload s then m_syt_interval s else 0)" for n
    using y assms that by (simp add: nodata_header_def fillNoDataPacketHeader_def write_header_eq)
  from that [OF this [OF refl]] show ?thesis using y(2) assms by simp
qed

section \<open>Starting a stream\<close>

text \<open>
  A run of packet cycles in which no cycle is dropped: the packet buffer is reused, and the
  dispositions are collected.
\<close>

fun xmit_run ::
  "sp_env \<Rightarrow> 'm stream_processor_scheme sp_child \<Rightarrow> xmit_packet \<Rightarrow> u32 list \<Rightarrow> 'm stream_processor_scheme
   \<Rightarrow> (raw1394_iso_disposition list \<times> 'm stream_processor_scheme) option" where
  "xmit_run e ch x [] s = Some ([], s)"
| "xmit_run e ch x (c # cs) s =
     do { (d, _, s) \<leftarrow> getPacket e ch x c 0 s; (ds, s) \<leftarrow> xmit_run e ch x cs s; Some (d # ds, s) }"

lemma empty_packet_sent:
  fixes s :: "'m amdtp_transmit_scheme"
  assumes "8 \<le> length (x_data x)" and "m_state s = m_next_state s"
  obtains y n where "send_empty_packet e (amdtp_transmit_child k sse e) x c s = Some (RAW1394_ISO_OK, y, s\<lparr>m_dbc := m_dbc s + n\<rparr>)"
proof -
  obtain y n where "nodata_header eCRV_OK x s = Some (eCRV_OK, y, s\<lparr>m_dbc := m_dbc s + n\<rparr>)"
    using assms(1) by (rule nodata_header_Some)
  then show ?thesis
    using assms(2) that
    by (simp add: send_empty_packet_def amdtp_transmit_child_def transmit_generateEmptyPacketHeader_def
        transmit_generateEmptyPacketData_def)
qed

text \<open>The phases of the start, for one packet each.\<close>

lemma packet_leaves_stopped:
  fixes s :: "'m amdtp_transmit_scheme"
  assumes "8 \<le> length (x_data x)" and "c \<noteq> 0xFFFFFFFF" and "m_state s = ePS_Stopped" and "m_next_state s = ePS_WaitingForStream"
  obtains y n where "getPacket e (amdtp_transmit_child k sse e) x c 0 s =
    Some (RAW1394_ISO_OK, y, s\<lparr>m_state := ePS_WaitingForStream, m_dbc := m_dbc s + n\<rparr>)"
proof -
  let ?t = "s\<lparr>m_state := ePS_WaitingForStream\<rparr>"
  obtain y n where "nodata_header eCRV_OK x ?t = Some (eCRV_OK, y, ?t\<lparr>m_dbc := m_dbc ?t + n\<rparr>)"
    using assms(1) by (rule nodata_header_Some)
  then show ?thesis
    using assms(2-4) that
    by (simp add: getPacket_def send_empty_packet_def try_update_def updateState_def doWaitForRunningStream_def
        amdtp_transmit_child_def transmit_generateEmptyPacketHeader_def transmit_generateEmptyPacketData_def)
qed

lemma packet_waits:
  fixes s :: "'m amdtp_transmit_scheme"
  assumes "8 \<le> length (x_data x)" and "c \<noteq> 0xFFFFFFFF" and "m_state s = ePS_WaitingForStream" and "m_next_state s = ePS_WaitingForStream"
    and "\<not> cycle_due c s"
  obtains y n where "getPacket e (amdtp_transmit_child k sse e) x c 0 s = Some (RAW1394_ISO_OK, y, s\<lparr>m_dbc := m_dbc s + n\<rparr>)"
proof -
  obtain y n where "send_empty_packet e (amdtp_transmit_child k sse e) x c s = Some (RAW1394_ISO_OK, y, s\<lparr>m_dbc := m_dbc s + n\<rparr>)"
    using assms(1,3,4) by (metis empty_packet_sent)
  then show ?thesis using assms(2-5) that by (simp add: getPacket_def)
qed

lemma packet_enters_dry_running:
  fixes s :: "'m amdtp_transmit_scheme"
  assumes "8 \<le> length (x_data x)" and "c \<noteq> 0xFFFFFFFF" and "m_state s = ePS_WaitingForStream" and "m_processor_type s = ePT_Transmit"
    and "cycle_due c s"
  obtains y s' where "getPacket e (amdtp_transmit_child k sse e) x c 0 s = Some (RAW1394_ISO_OK, y, s')"
    and "m_state s' = ePS_DryRunning" and "m_next_state s' = ePS_DryRunning"
proof -
  let ?t = "s\<lparr>m_next_state := ePS_DryRunning, m_local_node_id := getLocalNodeId e AND 0x3f, m_state := ePS_DryRunning\<rparr>"
  obtain y n where "send_empty_packet e (amdtp_transmit_child k sse e) x c ?t = Some (RAW1394_ISO_OK, y, ?t\<lparr>m_dbc := m_dbc ?t + n\<rparr>)"
    by (rule empty_packet_sent [OF assms(1), of ?t]) simp_all
  then show ?thesis
    using assms(2-5) that
    by (simp add: getPacket_def try_update_def updateState_def doDryRunning_def)
qed

lemma waiting_run:
  fixes s :: "'m amdtp_transmit_scheme"
  assumes "8 \<le> length (x_data x)" and "m_state s = ePS_WaitingForStream" and "m_next_state s = ePS_WaitingForStream"
    and "m_processor_type s = ePT_Transmit" and "0xFFFFFFFF \<notin> set (cs @ [c])"
    and "list_all (\<lambda>c. \<not> cycle_due c s) cs" and "cycle_due c s"
  shows "\<exists>s'. xmit_run e (amdtp_transmit_child k sse e) x (cs @ [c]) s = Some (replicate (Suc (length cs)) RAW1394_ISO_OK, s')
    \<and> m_state s' = ePS_DryRunning \<and> m_next_state s' = ePS_DryRunning"
  using assms
proof (induction cs arbitrary: s)
  case Nil
  obtain y s' where "getPacket e (amdtp_transmit_child k sse e) x c 0 s = Some (RAW1394_ISO_OK, y, s')"
    "m_state s' = ePS_DryRunning" "m_next_state s' = ePS_DryRunning"
    by (rule packet_enters_dry_running [of x c s]) (use Nil.prems in auto)
  then show ?case by simp
next
  case (Cons d cs)
  obtain y n where g: "getPacket e (amdtp_transmit_child k sse e) x d 0 s = Some (RAW1394_ISO_OK, y, s\<lparr>m_dbc := m_dbc s + n\<rparr>)"
    by (rule packet_waits [of x d s]) (use Cons.prems in auto)
  have "\<exists>s'. xmit_run e (amdtp_transmit_child k sse e) x (cs @ [c]) (s\<lparr>m_dbc := m_dbc s + n\<rparr>)
      = Some (replicate (Suc (length cs)) RAW1394_ISO_OK, s') \<and> m_state s' = ePS_DryRunning \<and> m_next_state s' = ePS_DryRunning"
    by (rule Cons.IH) (use Cons.prems in \<open>auto simp: cycle_due_def\<close>)
  then show ?case using g by auto
qed


definition example_fdf :: fdf_sfc where
  "example_fdf = \<lparr>SFC_32KHZ = 0, SFC_44K1HZ = 1, SFC_48KHZ = 2, SFC_88K2HZ = 3, SFC_96KHZ = 4, SFC_176K4HZ = 5, SFC_192KHZ = 6\<rparr>"

definition example_stopped :: amdtp_transmit where
  "example_stopped = (AmdtpTransmitStreamProcessor_new exact (\<lambda>_. 0) 2)\<lparr>m_state := ePS_Stopped\<rparr>"


section \<open>Timestamps on the bus\<close>

text \<open>A time \<open>K\<close> full cycles and \<open>off\<close> ticks after the start of the timer, and the time 8704 ticks before it.\<close>

lemma cycle_of_ticks:
  fixes K off :: int
  assumes "0 \<le> off" and "off < 3072"
  defines "t \<equiv> of_int ((K * 3072 + off) mod MAX_TICKS) :: u64"
  shows "uint (ucast (TICKS_TO_CYCLES t) :: u32) = K mod 8000"
    and "uint (ucast (TICKS_TO_CYCLES (substractTicks t 8704)) :: u32) = (K - (if off < 2560 then 3 else 2)) mod 8000"
proof -
  have cyc: "(k * 3072 + x) mod MAX_TICKS div 3072 mod 8000 = k mod 8000" if "0 \<le> x" "x < 3072" for k x :: int
    unfolding ticks_mod_cycles [OF that] using that by (simp add: mod_mod_cancel)
  have t: "uint t = (K * 3072 + off) mod MAX_TICKS" unfolding t_def by (rule uint_ticks_word)
  show "uint (ucast (TICKS_TO_CYCLES t) :: u32) = K mod 8000"
    unfolding uint_cycle_ucast t by (rule cyc [OF assms(1,2)])
  have "uint t < MAX_TICKS" unfolding t by simp
  then have "uint (substractTicks t 8704) = (uint t - 8704) mod MAX_TICKS"
    using uint_substractTicks [of t 8704] by simp
  also have "\<dots> = (K * 3072 + off - 8704) mod MAX_TICKS" unfolding t by (simp add: mod_diff_left_eq)
  finally have s: "uint (substractTicks t 8704) = (K * 3072 + off - 8704) mod MAX_TICKS" .
  show "uint (ucast (TICKS_TO_CYCLES (substractTicks t 8704)) :: u32) = (K - (if off < 2560 then 3 else 2)) mod 8000"
  proof (cases "off < 2560")
    case True
    have "K * 3072 + off - 8704 = (K - 3) * 3072 + (off + 512)" by simp
    then show ?thesis unfolding uint_cycle_ucast s using cyc [of "off + 512" "K - 3"] True assms(1) by simp
  next
    case False
    have "K * 3072 + off - 8704 = (K - 2) * 3072 + (off - 2560)" by simp
    then show ?thesis unfolding uint_cycle_ucast s using cyc [of "off - 2560" "K - 2"] False assms(2) by simp
  qed
qed

lemma syt_field_of_ticks:
  fixes K off :: int
  assumes "0 \<le> off" and "off < 3072"
  defines "t \<equiv> of_int ((K * 3072 + off) mod MAX_TICKS) :: u64"
  shows "ucast (ucast (TICKS_TO_SYT (ucast (ucast t :: u32))) :: u16) = TICKS_TO_SYT t"
    and "(ucast (TICKS_TO_SYT (ucast (ucast t :: u32))) :: u16) \<noteq> 0xFFFF"
proof -
  have "uint t < MAX_TICKS" unfolding t_def by (simp only: uint_ticks_word pos_mod_bound)
  then have "uint (take_bit 32 t) = uint t" unfolding uint_take_bit_mod by (intro mod_pos_pos_trivial) simp_all
  moreover have "ucast (ucast t :: u32) = take_bit 32 t" by (rule bit_word_eqI) (auto simp: bit_simps)
  ultimately have t32: "ucast (ucast t :: u32) = t" by (metis word_uint_eqI)
  have small: "take_bit 16 (TICKS_TO_SYT t) = TICKS_TO_SYT t"
    unfolding TICKS_TO_SYT_def masks_as_take_bit by (rule word_eq_bits) (simp add: word_bits_simps)
  show l: "ucast (ucast (TICKS_TO_SYT (ucast (ucast t :: u32))) :: u16) = TICKS_TO_SYT t"
    unfolding t32 by (subst small [symmetric]) (rule bit_word_eqI, auto simp: bit_simps)
  show "(ucast (TICKS_TO_SYT (ucast (ucast t :: u32))) :: u16) \<noteq> 0xFFFF"
  proof
    assume "(ucast (TICKS_TO_SYT (ucast (ucast t :: u32))) :: u16) = 0xFFFF"
    then have "TICKS_TO_SYT t = 0xFFFF" using l by simp
    then have "uint (CYCLE_TIMER_GET_OFFSET (TICKS_TO_SYT t)) = 4095" by (simp add: CYCLE_TIMER_GET_OFFSET_def)
    moreover have "uint t mod 3072 < 3072" by simp
    ultimately show False unfolding syt_of_ticks(2) by linarith
  qed
qed

text \<open>
  The window of the default settings: the time 8704 ticks before presentation falls two or three
  cycles before the presentation cycle, so only blocks due in one to four cycles are sent.
\<close>

lemma generated_in_window:
  fixes s :: "'m amdtp_transmit_scheme" and d off c sec :: int
  assumes gen: "transmit_generatePacketHeader e x ctr s = Some (r, x', s')" and r: "r = eCRV_Packet \<or> r = eCRV_Defer"
    and defaults: "m_transmit_transfer_delay s = AMDTP_TRANSMIT_TRANSFER_DELAY"
      "m_min_cycles_before_presentation s = AMDTP_MIN_CYCLES_BEFORE_PRESENTATION"
      "m_max_cycles_to_transmit_early s = AMDTP_MAX_CYCLES_TO_TRANSMIT_EARLY"
    and c: "uint (CYCLE_TIMER_GET_CYCLES (ucast ctr)) = c" "c < 8000"
    and off: "0 \<le> off" "off < 3072" and d: "\<bar>d\<bar> \<le> 3996"
    and t: "of_int (trunc_rat (fst (getBufferHeadTimestamp (fpa e) (m_data_buffer s))))
        = (of_int (((sec * 8000 + c + d) * 3072 + off) mod MAX_TICKS) :: u64)"
  obtains y where "1 \<le> d" and "d \<le> 4" and "common_header s x = Some y"
    and "send_data (of_int (((sec * 8000 + c + d) * 3072 + off) mod MAX_TICKS)) r y s = Some (r, x', s')"
proof -
  let ?T = "of_int (((sec * 8000 + c + d) * 3072 + off) mod MAX_TICKS) :: u64"
  let ?q = "if off < 2560 then 3 else 2 :: int"
  let ?cup = "diffCycles (ucast (TICKS_TO_CYCLES ?T)) (pkt_cycles ctr)"
  let ?cut = "diffCycles (ucast (TICKS_TO_CYCLES (substractTicks ?T 8704))) (pkt_cycles ctr)"
  note cyc = cycle_of_ticks [OF off, of "sec * 8000 + c + d"]
  have sec: "(sec * 8000 + z) mod 8000 = z mod 8000" for z by simp
  have cup: "sint ?cup = d"
    by (rule diffCycles_near) (use cyc(1) sec [of "c + d"] c d in \<open>simp_all add: uint_pkt_cycles add.assoc\<close>)
  have q: "2 \<le> ?q" "?q \<le> 3" by simp_all
  have cut: "sint ?cut = d - ?q"
  proof (rule diffCycles_near)
    have "sec * 8000 + c + d - ?q = sec * 8000 + (c + (d - ?q))" by simp
    then show "uint (ucast (TICKS_TO_CYCLES (substractTicks ?T 8704)) :: u32) = (uint (pkt_cycles ctr) + (d - ?q)) mod 8000"
      unfolding cyc(2) uint_pkt_cycles c(1) by (simp only: sec)
    show "uint (pkt_cycles ctr) < 8000" using c by (simp add: uint_pkt_cycles)
    show "- 4000 < d - ?q" "d - ?q < 4000" using q d by linarith+
  qed
  obtain y where y: "common_header s x = Some y"
    using gen by (auto simp: transmit_generatePacketHeader_def bind_eq_Some_conv)
  have dl: "ucast (m_transmit_transfer_delay s) = (8704 :: u64)" "m_min_cycles_before_presentation s = 1"
    "m_max_cycles_to_transmit_early s = 1"
    using defaults by (simp_all add: consts_defs)
  let ?fc = "snd (getBufferHeadTimestamp (fpa e) (m_data_buffer s))"
  have "(if ?fc <s m_syt_interval s then
           if ?cup \<le>s 1 then Some (eCRV_XRun, y, s) else Some (eCRV_Again, y, s)
         else if ?cut <s 0 then
           if 1 \<le>s ?cup then send_data ?T (if ?fc <s 2 * m_syt_interval s then eCRV_Defer else eCRV_Packet) y s
           else Some (eCRV_XRun, y, s)
         else if ?cut \<le>s 1 then send_data ?T (if ?fc <s m_syt_interval s then eCRV_Defer else eCRV_Packet) y s
         else Some (eCRV_EmptyPacket, y, s)) = Some (r, x', s')"
    using gen unfolding transmit_generatePacketHeader_def y Let_def split_beta dl t by simp
  then have g: "(if d - ?q < 0 then 1 \<le> d else d - ?q \<le> 1)" "\<exists>r'. send_data ?T r' y s = Some (r, x', s')"
    using r unfolding word_sless_alt [of ?cut] word_sle_eq [of 1 ?cup] word_sle_eq [of ?cut] cut cup
    by (auto split: if_splits)
  then have "1 \<le> d" "d \<le> 4" by (simp_all split: if_splits)
  moreover obtain r' where "send_data ?T r' y s = Some (r, x', s')" using g(2) by blast
  moreover from this have "r' = r" by (auto simp: send_data_def bind_eq_Some_conv)
  ultimately show ?thesis using that y by blast
qed

lemma send_data_packet:
  fixes s :: "'m amdtp_transmit_scheme"
  assumes "common_header s x = Some y" and "send_data t r y s = Some (r, x', s')"
  shows "packet_of_bytes (x_data x') = Some
      \<lparr>pk_eoh0 = 0, pk_sid = ucast (m_local_node_id s) AND 0x3F, pk_dbs = ucast (m_dimension s), pk_fn = 0, pk_qpc = 0, pk_sph = 0,
       pk_reserved = 0, pk_dbc = ucast (m_dbc s), pk_eoh1 = 2, pk_fmt = 0x10, pk_fdf = ucast (m_fdf s),
       pk_syt = ucast (TICKS_TO_SYT (ucast (ucast t :: u32)))\<rparr>"
    and "x_length x' = m_syt_interval s * 4 * m_dimension s + 8" and "x_tag x' = 1"
    and "s' = s\<lparr>m_dbc := m_dbc s + m_syt_interval s, m_last_timestamp := t\<rparr>"
proof -
  have "8 \<le> length (x_data x)"
    using assms(1) by (auto simp: common_header_def write_header_def packet_of_bytes_def split: if_splits)
  then have y: "x_data y = packet_bytes ((the (packet_of_bytes (x_data x)))\<lparr>pk_sid := ucast (m_local_node_id s), pk_eoh0 := 0,
      pk_dbs := ucast (m_dimension s), pk_fn := 0, pk_qpc := 0, pk_sph := 0, pk_reserved := 0, pk_dbc := ucast (m_dbc s),
      pk_eoh1 := 2, pk_fmt := IEC61883_FMT_AMDTP\<rparr>) @ drop 8 (x_data x)" and tag: "x_tag y = 1"
    using assms(1) by (auto simp: common_header_def write_header_eq consts_defs)
  have y8: "8 \<le> length (x_data y)" by (simp add: y)
  have x': "x' = y\<lparr>x_data := packet_bytes ((the (packet_of_bytes (x_data y)))\<lparr>pk_fdf := ucast (m_fdf s),
        pk_syt := ucast (TICKS_TO_SYT (ucast (ucast t :: u32)))\<rparr>) @ drop 8 (x_data y),
      x_length := m_syt_interval s * 4 * m_dimension s + 8\<rparr>"
    and "s' = s\<lparr>m_dbc := m_dbc s + m_syt_interval s, m_last_timestamp := t\<rparr>"
    using assms(2) by (auto simp: send_data_def fillDataPacketHeader_def write_header_eq [OF y8])
  then show "s' = s\<lparr>m_dbc := m_dbc s + m_syt_interval s, m_last_timestamp := t\<rparr>"
    "x_length x' = m_syt_interval s * 4 * m_dimension s + 8" "x_tag x' = 1"
    using tag by simp_all
  show "packet_of_bytes (x_data x') = Some
      \<lparr>pk_eoh0 = 0, pk_sid = ucast (m_local_node_id s) AND 0x3F, pk_dbs = ucast (m_dimension s), pk_fn = 0, pk_qpc = 0, pk_sph = 0,
       pk_reserved = 0, pk_dbc = ucast (m_dbc s), pk_eoh1 = 2, pk_fmt = 0x10, pk_fdf = ucast (m_fdf s),
       pk_syt = ucast (TICKS_TO_SYT (ucast (ucast t :: u32)))\<rparr>"
    unfolding x' y by (simp add: packet_bytes_roundtrip consts_defs)
qed

text \<open>
  C2. Presentation times survive the bus: a data packet generated with the default settings in second
  \<open>sec\<close>, cycle \<open>c\<close>, for frames due \<open>d\<close> cycles and \<open>off\<close> ticks later (at most half a second away) is due in
  one to four cycles, and a receiver that gets it in the same cycle accepts it and recovers the exact
  presentation time. The packet has the length of its frames, carries the data block counter, and
  advances it by the number of frames.
\<close>

theorem transmit_timestamp_roundtrip:
  fixes s :: "'m amdtp_transmit_scheme" and q :: "'n stream_processor_scheme" and d off c sec :: int
  assumes "transmit_generatePacketHeader e x ctr s = Some (r, x', s')" and "r = eCRV_Packet \<or> r = eCRV_Defer"
    and "m_transmit_transfer_delay s = AMDTP_TRANSMIT_TRANSFER_DELAY"
      "m_min_cycles_before_presentation s = AMDTP_MIN_CYCLES_BEFORE_PRESENTATION"
      "m_max_cycles_to_transmit_early s = AMDTP_MAX_CYCLES_TO_TRANSMIT_EARLY"
    and "uint (CYCLE_TIMER_GET_CYCLES (ucast ctr)) = c" "c < 8000" and "uint (CYCLE_TIMER_GET_SECS (ucast ctr)) = sec"
    and "0 \<le> off" "off < 3072" and "\<bar>d\<bar> \<le> 3996"
    and "of_int (trunc_rat (fst (getBufferHeadTimestamp (fpa e) (m_data_buffer s))))
        = (of_int (((sec * 8000 + c + d) * 3072 + off) mod MAX_TICKS) :: u64)"
    and "0 < m_dimension s" "m_dimension s < 256" and "m_syt_interval s \<le> 32" and "ucast (m_fdf s) \<noteq> (0xFF :: u8)"
  shows "1 \<le> d \<and> d \<le> 4
    \<and> s' = s\<lparr>m_dbc := m_dbc s + m_syt_interval s,
             m_last_timestamp := of_int (((sec * 8000 + c + d) * 3072 + off) mod MAX_TICKS)\<rparr>
    \<and> uint (x_length x') = 8 + 4 * uint (m_syt_interval s) * uint (m_dimension s)
    \<and> map_option pk_dbc (packet_of_bytes (x_data x')) = Some (ucast (m_dbc s))
    \<and> receive_processPacketHeader (x_data x') (x_length x') (x_tag x') (x_sy x') ctr q
      = Some (eCRV_OK, q\<lparr>m_last_timestamp := of_int (((sec * 8000 + c + d) * 3072 + off) mod MAX_TICKS)\<rparr>)"
proof -
  let ?T = "of_int (((sec * 8000 + c + d) * 3072 + off) mod MAX_TICKS) :: u64"
  obtain y where d: "1 \<le> d" "d \<le> 4" and y: "common_header s x = Some y" "send_data ?T r y s = Some (r, x', s')"
    by (rule generated_in_window [OF assms(1-7,9-12)])
  note p = send_data_packet [OF y]
  note syt = syt_field_of_ticks [OF assms(9,10), of "sec * 8000 + c + d"]
  have "uint (CYCLE_TIMER_GET_SECS (ucast ctr)) < 128" by (simp add: timer_fields uint_take_bit_mod)
  then have rcv: "sytRecvToFullTicks2 (TICKS_TO_SYT ?T) ctr = ?T"
    using assms(6-10) d by (intro sytRecvToFullTicks2_of_cycles) simp_all
  have dim: "uint (m_dimension s) < 256" "uint (m_syt_interval s) \<le> 32"
    using assms(14,15) by (simp_all add: word_less_def word_le_def)
  then have prod: "uint (m_syt_interval s) * uint (m_dimension s) \<le> 32 * 255" by (intro mult_mono) simp_all
  have len: "uint (x_length x') = 8 + 4 * uint (m_syt_interval s) * uint (m_dimension s)"
  proof -
    have "m_syt_interval s * 4 * m_dimension s + 8 = (of_int (8 + 4 * (uint (m_syt_interval s) * uint (m_dimension s))) :: u32)"
      by (simp add: algebra_simps)
    then have "uint (x_length x') = take_bit 32 (8 + 4 * (uint (m_syt_interval s) * uint (m_dimension s)))"
      unfolding p(2) by (simp only: unsigned_of_int) simp
    also have "\<dots> = 8 + 4 * (uint (m_syt_interval s) * uint (m_dimension s))"
      by (rule take_bit_int_eq_self) (use prod in \<open>simp_all add: mult.commute [of "uint (m_dimension s)"]\<close>)
    finally show ?thesis by simp
  qed
  have "ucast (m_dimension s) \<noteq> (0 :: u8)"
  proof
    assume "ucast (m_dimension s) = (0 :: u8)"
    then have "uint (ucast (m_dimension s) :: u8) = 0" by simp
    then have "uint (m_dimension s) = 0" using dim(1) by (simp add: unsigned_ucast_eq take_bit_int_eq_self)
    then show False using assms(13) by (simp add: uint_0_iff)
  qed
  then have dbs: "0 < (ucast (m_dimension s) :: u8)" by (simp add: word_gt_0)
  have "8 \<le> x_length x'" using len by (simp add: word_le_def)
  then have "receive_processPacketHeader (x_data x') (x_length x') (x_tag x') (x_sy x') ctr q
      = Some (eCRV_OK, q\<lparr>m_last_timestamp := ?T\<rparr>)"
    using syt dbs assms(16) rcv unfolding receive_processPacketHeader_def p(1) by simp
  then show ?thesis using d p(1,4) len by simp
qed

definition example_sender :: amdtp_transmit where
  "example_sender = (AmdtpTransmitStreamProcessor_new exact (\<lambda>_. 8) 2)
     \<lparr>m_fdf := 2, m_data_buffer := (TimestampedBuffer_new exact)\<lparr>m_framecounter := 8, m_buffer_tail_timestamp := 316516\<rparr>\<rparr>"

theorem transmit_timestamp_roundtrip_witness:
  "\<exists>x' s'. transmit_generatePacketHeader example_env \<lparr>x_data = replicate 8 0, x_length = 0, x_tag = 0, x_sy = 0\<rparr> (100 * 4096) example_sender
        = Some (eCRV_Packet, x', s')
    \<and> receive_processPacketHeader (x_data x') (x_length x') (x_tag x') (x_sy x') (100 * 4096) example_receive
      = Some (eCRV_OK, example_receive\<lparr>m_last_timestamp := of_int (((0 * 8000 + 100 + 3) * 3072 + 100) mod MAX_TICKS)\<rparr>)"
proof -
  let ?x = "\<lparr>x_data = replicate 8 0, x_length = 0, x_tag = 0, x_sy = 0\<rparr>"
  have head: "getBufferHeadTimestamp exact (m_data_buffer example_sender) = (316516, 8)"
    by (simp add: getBufferHeadTimestamp_def getTimestampFromTail_def example_sender_def TimestampedBuffer_new_def wrap_timestamp_def
        Let_def)
  have sender: "m_syt_interval example_sender = 8" "m_transmit_transfer_delay example_sender = 8704"
    "m_min_cycles_before_presentation example_sender = 1" "m_max_cycles_to_transmit_early example_sender = 1"
    "m_dimension example_sender = 2" "m_fdf example_sender = 2"
    by (simp_all add: example_sender_def AmdtpTransmitStreamProcessor_new_def amdtp_new_def StreamProcessor_new_def
        stream_processor.defs amdtp_processor.defs amdtp_transmit.defs consts_defs)
  have t: "trunc_rat 316516 = 316516" by (simp add: trunc_rat_def)
  have ctr: "CYCLE_TIMER_GET_CYCLES (409600 :: u64) = 100" "CYCLE_TIMER_GET_SECS (409600 :: u64) = 0"
    by (simp_all add: CYCLE_TIMER_GET_CYCLES_def CYCLE_TIMER_GET_SECS_def)
  have sub: "substractTicks 316516 8704 = 307812"
    by (simp add: substractTicks_def wrapAtMinTicks_def consts_defs word_sless_alt)
  obtain y where y: "common_header example_sender ?x = Some y" "length (x_data y) = 8"
    by (rule common_header_Some [of ?x example_sender]) simp_all
  obtain x' s' where g: "transmit_generatePacketHeader example_env ?x (100 * 4096) example_sender = Some (eCRV_Packet, x', s')"
    by (simp add: transmit_generatePacketHeader_def y(1) example_env_def head sender t pkt_cycles_def ctr sub TICKS_TO_CYCLES_def
        diffCycles_def consts_defs word_sless_alt word_sle_eq Let_def send_data_def fillDataPacketHeader_def write_header_eq y(2))
  have "receive_processPacketHeader (x_data x') (x_length x') (x_tag x') (x_sy x') (100 * 4096) example_receive
      = Some (eCRV_OK, example_receive\<lparr>m_last_timestamp := of_int (((0 * 8000 + 100 + 3) * 3072 + 100) mod MAX_TICKS)\<rparr>)"
    by (rule transmit_timestamp_roundtrip [OF g, THEN conjunct2, THEN conjunct2, THEN conjunct2, THEN conjunct2, THEN conjunct2])
      (simp_all add: sender ctr consts_defs head example_env_def t)
  then show ?thesis using g by blast
qed

end
