(* ===== verification/AmdtpStreams.thy ===== *)
theory AmdtpStreams
  imports AmdtpTransmit
begin

text \<open>
  The base class and the AMDTP subclasses together: the invariants of the state machine for every
  sequence of calls, the moves the packet handlers make, how a receive stream starts, and what remains
  of a stream whose handler has died. The lemmas of \<open>sp_child_laws\<close> and \<open>sp_child_family\<close> carry the proofs
  through their interpretations on the two subclasses.
\<close>

section \<open>Reachable states\<close>

text \<open>
  C1. Whatever calls the packet threads, the client and the manager make, in any order, an AMDTP stream
  processor keeps the invariant of the state machine: a running stream is free of xruns and its buffer
  holds data, a stream waiting to be disabled still has its data, a stream in error has an xrun, and the switches that wait for a cycle
  are requested by nobody but the packet handlers. As long as its handler does not fail, a stream
  that does not run has a transparent buffer.
\<close>

theorem amdtp_states_safe:
  fixes r :: "'m amdtp_receive_scheme" and s :: "'n amdtp_transmit_scheme"
  shows "(sp_reach amdtp_receive_child failures r \<longrightarrow> sp_inv r \<and> (\<not> failures \<longrightarrow> sp_clean r))
    \<and> (sp_reach (amdtp_transmit_child k sse) failures s \<longrightarrow> sp_inv s \<and> (\<not> failures \<longrightarrow> sp_clean s))"
proof (intro conjI impI)
  assume "sp_reach amdtp_receive_child failures r"
  from amdtp_rx_family.reach_inv [OF this] show "sp_inv r" and "\<not> failures \<Longrightarrow> sp_clean r" by auto
next
  assume "sp_reach (amdtp_transmit_child k sse) failures s"
  from amdtp_tx_family.reach_inv [OF this] show "sp_inv s" and "\<not> failures \<Longrightarrow> sp_clean s" by auto
qed

lemma new_initial:
  "sp_initial (AmdtpReceiveStreamProcessor_new fp junk dimension)"
  "sp_initial (AmdtpTransmitStreamProcessor_new fp junk dimension)"
  by (simp_all add: sp_initial_def AmdtpReceiveStreamProcessor_new_def AmdtpTransmitStreamProcessor_new_def amdtp_new_def
      StreamProcessor_new_def TimestampedBuffer_new_def stream_processor.defs amdtp_processor.defs amdtp_receive.defs
      amdtp_transmit.defs)

theorem amdtp_states_safe_witness:
  "sp_inv (snd (sp_init True (AmdtpReceiveStreamProcessor_new exact (\<lambda>_. 0) 2)))
   \<and> sp_inv (snd (scheduleStartRunning example_env 0 (AmdtpTransmitStreamProcessor_new exact (\<lambda>_. 0) 2)))"
proof -
  have "sp_reach amdtp_receive_child False (snd (sp_init True (AmdtpReceiveStreamProcessor_new exact (\<lambda>_. 0) 2)))"
    by (rule sp_reach.step [OF sp_reach.initial [OF new_initial(1)] sp_step.init])
  moreover have "sp_reach (amdtp_transmit_child example_fdf True) False
      (snd (scheduleStartRunning example_env 0 (AmdtpTransmitStreamProcessor_new exact (\<lambda>_. 0) 2)))"
    by (rule sp_reach.step [OF sp_reach.initial [OF new_initial(2)] sp_step.start])
  ultimately show ?thesis using amdtp_states_safe by blast
qed

section \<open>The moves of the packet handlers\<close>



section \<open>Starting a receive stream\<close>

text \<open>A received packet: its bytes, its length and the cycle timer.\<close>

fun rcv_run ::
  "sp_env \<Rightarrow> 'm stream_processor_scheme sp_child \<Rightarrow> (u8 list \<times> u32 \<times> u32) list \<Rightarrow> 'm stream_processor_scheme
   \<Rightarrow> (raw1394_iso_disposition list \<times> 'm stream_processor_scheme) option" where
  "rcv_run e ch [] s = Some ([], s)"
| "rcv_run e ch ((d, n, c) # ps) s =
     do { (r, _, s) \<leftarrow> putPacket e ch d n 0 1 0 c 0 s; (rs, s) \<leftarrow> rcv_run e ch ps s; Some (r # rs, s) }"

definition accepted :: "u8 list \<times> u32 \<times> u32 \<Rightarrow> bool" where
  "accepted p =
     (case p of (d, n, c) \<Rightarrow>
        case packet_of_bytes d of
          None \<Rightarrow> False
        | Some k \<Rightarrow> pk_syt k \<noteq> 0xFFFF \<and> pk_fdf k \<noteq> 0xFF \<and> pk_fmt k = 0x10 \<and> 0 < pk_dbs k \<and> 8 \<le> n)"

lemma accepted_header:
  assumes "accepted (d, n, c)"
  obtains t where "receive_processPacketHeader d n tag sy c s = Some (eCRV_OK, s\<lparr>m_last_timestamp := t\<rparr>)"
  using assms by (auto simp: accepted_def receive_processPacketHeader_def split: option.splits)

text \<open>The state a packet leaves behind: where the machine is, with the other private members unchanged.\<close>

definition at_state :: "eProcessorState \<Rightarrow> 'm stream_processor_scheme \<Rightarrow> 'm stream_processor_scheme \<Rightarrow> bool" where
  "at_state st s s' \<longleftrightarrow>
     same_private (s\<lparr>m_state := st, m_next_state := st\<rparr>) s'"

text \<open>A packet with a good header, in a state that does not wait for a stream to be enabled or disabled.\<close>

lemma accepted_packet:
  fixes s :: "'m amdtp_receive_scheme"
  assumes "accepted (d, n, c)" and "m_state s = ePS_Stopped \<or> m_state s = ePS_WaitingForStream"
  obtains t where "same_private s t" and "putPacket e (amdtp_receive_child e) d n 0 1 0 c 0 s = putPacket_rest e (amdtp_receive_child e) d n c t"
proof -
  let ?u = "s\<lparr>m_last_timestamp2 := m_last_timestamp s\<rparr>"
  obtain ts where ts: "receive_processPacketHeader d n 1 0 c ?u = Some (eCRV_OK, ?u\<lparr>m_last_timestamp := ts\<rparr>)"
    using assms(1) by (rule accepted_header)
  obtain t where t: "same_private (?u\<lparr>m_last_timestamp := ts\<rparr>) t"
    and ok: "putPacket_ok e (amdtp_receive_child e) d n c (?u\<lparr>m_last_timestamp := ts\<rparr>) = putPacket_rest e (amdtp_receive_child e) d n c t"
    by (rule putPacket_ok_adjusted)
  have "putPacket e (amdtp_receive_child e) d n 0 1 0 c 0 s = putPacket_ok e (amdtp_receive_child e) d n c (?u\<lparr>m_last_timestamp := ts\<rparr>)"
    using assms(2) ts by (auto simp: putPacket_def putPacket_header_def amdtp_receive_child_def)
  moreover have "same_private s t" using t by (simp add: same_private_def)
  ultimately show ?thesis using ok that by simp
qed

lemma accepted_leaves_stopped:
  fixes s :: "'m amdtp_receive_scheme"
  assumes "accepted (d, n, c)" and "m_state s = ePS_Stopped" and "m_next_state s = ePS_WaitingForStream"
  obtains s' where "putPacket e (amdtp_receive_child e) d n 0 1 0 c 0 s = Some (RAW1394_ISO_OK, (), s')"
    and "at_state ePS_WaitingForStream s s'"
proof -
  obtain t where t: "same_private s t" and p: "putPacket e (amdtp_receive_child e) d n 0 1 0 c 0 s = putPacket_rest e (amdtp_receive_child e) d n c t"
    using accepted_packet [OF assms(1), of s e] assms(2) by blast
  have st: "m_state t = ePS_Stopped" "m_next_state t = ePS_WaitingForStream" using same_privateD [OF t] assms by simp_all
  have "putPacket e (amdtp_receive_child e) d n 0 1 0 c 0 s = Some (RAW1394_ISO_OK, (), t\<lparr>m_state := ePS_WaitingForStream\<rparr>)"
    unfolding p putPacket_rest_def using st by (simp add: try_update_def updateState_def doWaitForRunningStream_def)
  then show ?thesis by (rule that) (use t st in \<open>simp add: at_state_def same_private_def\<close>)
qed

lemma accepted_waiting:
  fixes s :: "'m amdtp_receive_scheme"
  assumes "accepted (d, n, c)" and "m_state s = ePS_WaitingForStream" and "m_next_state s = ePS_WaitingForStream"
    and "m_processor_type s = ePT_Receive"
  obtains s' where "putPacket e (amdtp_receive_child e) d n 0 1 0 c 0 s = Some (RAW1394_ISO_OK, (), s')"
    and "at_state (if cycle_due c s then ePS_DryRunning else ePS_WaitingForStream) s s'"
proof -
  obtain t where t: "same_private s t" and p: "putPacket e (amdtp_receive_child e) d n 0 1 0 c 0 s = putPacket_rest e (amdtp_receive_child e) d n c t"
    using accepted_packet [OF assms(1), of s e] assms(2) by blast
  have st: "m_state t = ePS_WaitingForStream" "m_next_state t = ePS_WaitingForStream" "m_processor_type t = ePT_Receive"
    "cycle_due c t = cycle_due c s"
    using same_privateD [OF t] assms cycle_due_private [OF t] by simp_all
  let ?u = "(sp_setBufferTailTimestamp e (rdbl (fpa e) (of_u64 (m_last_timestamp t)))
      (t\<lparr>m_next_state := ePS_DryRunning, m_local_node_id := getLocalNodeId e AND 0x3f\<rparr>))\<lparr>m_state := ePS_DryRunning\<rparr>"
  show ?thesis
  proof (cases "cycle_due c s")
    case True
    have "putPacket e (amdtp_receive_child e) d n 0 1 0 c 0 s = Some (RAW1394_ISO_OK, (), ?u)"
      unfolding p putPacket_rest_def using st True by (simp add: try_update_def updateState_def doDryRunning_def Let_def)
    then show ?thesis
      by (rule that) (use t st True in \<open>simp add: at_state_def same_private_def sp_setBufferTailTimestamp_def\<close>)
  next
    case False
    have "putPacket e (amdtp_receive_child e) d n 0 1 0 c 0 s = Some (RAW1394_ISO_OK, (), t)"
      unfolding p putPacket_rest_def using st False by simp
    then show ?thesis by (rule that) (use t st assms(2,3) False in \<open>simp add: at_state_def same_private_def\<close>)
  qed
qed

lemma at_state_trans: "at_state st s t \<Longrightarrow> at_state st' t u \<Longrightarrow> at_state st' s u"
  by (simp add: at_state_def same_private_def)

lemma at_stateD:
  assumes "at_state st s s'"
  shows "m_state s' = st" and "m_next_state s' = st" and "m_processor_type s' = m_processor_type s"
    and "cycle_due c s' = cycle_due c s" and "m_transparent (m_data_buffer s') = m_transparent (m_data_buffer s)"
    and "m_in_xrun s' = m_in_xrun s"
  using assms by (simp_all add: at_state_def same_private_def cycle_due_def)

lemma receive_waiting_run:
  fixes s :: "'m amdtp_receive_scheme"
  assumes "m_state s = ePS_WaitingForStream" and "m_next_state s = ePS_WaitingForStream" and "m_processor_type s = ePT_Receive"
    and "list_all accepted (ps @ [p])" and "list_all (\<lambda>(_, _, c). \<not> cycle_due c s) ps" and "(\<lambda>(_, _, c). cycle_due c s) p"
  shows "\<exists>s'. rcv_run e (amdtp_receive_child e) (ps @ [p]) s = Some (replicate (Suc (length ps)) RAW1394_ISO_OK, s')
    \<and> at_state ePS_DryRunning s s'"
  using assms
proof (induction ps arbitrary: s)
  case Nil
  obtain d n c where p: "p = (d, n, c)" by (cases p)
  obtain s' where "putPacket e (amdtp_receive_child e) d n 0 1 0 c 0 s = Some (RAW1394_ISO_OK, (), s')"
    "at_state (if cycle_due c s then ePS_DryRunning else ePS_WaitingForStream) s s'"
    by (rule accepted_waiting [of d n c s]) (use Nil.prems p in auto)
  then show ?case using Nil.prems(6) p by auto
next
  case (Cons q ps)
  obtain d n c where q: "q = (d, n, c)" by (cases q)
  obtain u where u: "putPacket e (amdtp_receive_child e) d n 0 1 0 c 0 s = Some (RAW1394_ISO_OK, (), u)"
    "at_state (if cycle_due c s then ePS_DryRunning else ePS_WaitingForStream) s u"
    by (rule accepted_waiting [of d n c s]) (use Cons.prems q in auto)
  then have u2: "at_state ePS_WaitingForStream s u" using Cons.prems(5) q by simp
  have "\<exists>s'. rcv_run e (amdtp_receive_child e) (ps @ [p]) u = Some (replicate (Suc (length ps)) RAW1394_ISO_OK, s')
      \<and> at_state ePS_DryRunning u s'"
    by (rule Cons.IH) (use Cons.prems at_stateD [OF u2] in \<open>auto simp: split_beta\<close>)
  then show ?case using u(1) at_state_trans [OF u2] by (auto simp: q)
qed

lemma receive_start_run:
  fixes s :: "'m amdtp_receive_scheme" and e t
  defines "s0 \<equiv> snd (scheduleStartDryRunning e t s)"
  assumes "m_state s = ePS_Stopped" and "m_processor_type s = ePT_Receive" and "\<And>z. startHandlerForStream e z"
    and "list_all accepted (q # ps @ [p])" and "list_all (\<lambda>(_, _, c). \<not> cycle_due c s0) ps" and "(\<lambda>(_, _, c). cycle_due c s0) p"
  shows "fst (scheduleStartDryRunning e t s)"
    and "\<exists>s'. rcv_run e (amdtp_receive_child e) (q # ps @ [p]) s0 = Some (replicate (length (q # ps @ [p])) RAW1394_ISO_OK, s')
          \<and> at_state ePS_DryRunning s0 s'"
proof -
  obtain d n c where q: "q = (d, n, c)" by (cases q)
  have s0: "fst (scheduleStartDryRunning e t s)" "m_state s0 = ePS_Stopped" "m_next_state s0 = ePS_WaitingForStream"
    "m_processor_type s0 = ePT_Receive"
    using assms(2-4) by (simp_all add: s0_def scheduleStartDryRunning_def scheduleStateTransition_def Let_def)
  obtain u where u: "putPacket e (amdtp_receive_child e) d n 0 1 0 c 0 s0 = Some (RAW1394_ISO_OK, (), u)"
    "at_state ePS_WaitingForStream s0 u"
    by (rule accepted_leaves_stopped [of d n c s0]) (use assms(5) q s0 in auto)
  have "\<exists>s'. rcv_run e (amdtp_receive_child e) (ps @ [p]) u = Some (replicate (Suc (length ps)) RAW1394_ISO_OK, s')
      \<and> at_state ePS_DryRunning u s'"
    by (rule receive_waiting_run) (use assms(5-7) s0 at_stateD [OF u(2)] in \<open>auto simp: split_beta\<close>)
  then show "\<exists>s'. rcv_run e (amdtp_receive_child e) (q # ps @ [p]) s0 = Some (replicate (length (q # ps @ [p])) RAW1394_ISO_OK, s')
          \<and> at_state ePS_DryRunning s0 s'"
    using u(1) at_state_trans [OF u(2)] by (auto simp: q)
  show "fst (scheduleStartDryRunning e t s)" by (rule s0(1))
qed


definition example_idle :: amdtp_receive where
  "example_idle = (AmdtpReceiveStreamProcessor_new exact (\<lambda>_. 0) 2)\<lparr>m_state := ePS_Stopped\<rparr>"

definition example_packet :: "u32 \<Rightarrow> u8 list \<times> u32 \<times> u32" where
  "example_packet c = ([0, 2, 0, 0, 0x90, 2, 0, 0] @ replicate 64 0, 72, c)"

lemma example_accepted: "accepted (example_packet c)"
  by (simp add: accepted_def example_packet_def packet_of_bytes_def u16_join_def)

lemma example_idle_members:
  "m_processor_type example_idle = ePT_Receive" "m_state example_idle = ePS_Stopped"
  by (simp_all add: example_idle_def AmdtpReceiveStreamProcessor_new_def amdtp_new_def StreamProcessor_new_def
      stream_processor.defs amdtp_processor.defs amdtp_receive.defs)

lemma example_due:
  fixes s :: "'m stream_processor_scheme"
  assumes "m_state s = ePS_Stopped"
  shows "\<not> cycle_due (199 * 4096) (snd (scheduleStartDryRunning example_env (- 1) s))"
    and "cycle_due (200 * 4096) (snd (scheduleStartDryRunning example_env (- 1) s))"
proof -
  have "m_cycle_to_switch_state (snd (scheduleStartDryRunning example_env (- 1) s)) = 200"
    using assms by (simp add: scheduleStartDryRunning_def scheduleStateTransition_def switch_time_def example_env_def
        addTicks_def wrapAtMaxTicks_def TICKS_TO_CYCLES_def consts_defs Let_def)
  then show "\<not> cycle_due (199 * 4096) (snd (scheduleStartDryRunning example_env (- 1) s))"
    and "cycle_due (200 * 4096) (snd (scheduleStartDryRunning example_env (- 1) s))"
    by (simp_all add: cycle_due_def pkt_cycles_def CYCLE_TIMER_GET_CYCLES_def diffCycles_def consts_defs Let_def
        word_sless_alt word_sle_eq)
qed


section \<open>A dead handler\<close>

text \<open>
  C39. A running stream (with its opaque buffer) whose handler dies is stopped, but not the way \<^verbatim>\<open>doStop\<close> stops it: its
  buffer stays opaque. Started again, it dry-runs with an opaque buffer and in an xrun, although a
  stopped stream is documented to have a transparent, empty buffer.
\<close>

theorem handler_death_opaque:
  fixes s :: "'m amdtp_receive_scheme" and e t
  defines "s0 \<equiv> snd (scheduleStartDryRunning e t (handlerDied s))"
  assumes "m_state s = ePS_Running" and "\<not> m_transparent (m_data_buffer s)" and "m_processor_type s = ePT_Receive"
    and "\<And>z. startHandlerForStream e z"
    and "list_all accepted (q # ps @ [p])" and "list_all (\<lambda>(_, _, c). \<not> cycle_due c s0) ps" and "(\<lambda>(_, _, c). cycle_due c s0) p"
  shows "\<exists>s'. rcv_run e (amdtp_receive_child e) (q # ps @ [p]) s0 = Some (replicate (length (q # ps @ [p])) RAW1394_ISO_OK, s')
    \<and> m_state s' = ePS_DryRunning \<and> \<not> m_transparent (m_data_buffer s') \<and> m_in_xrun s'"
proof -
  have died: "m_state (handlerDied s) = ePS_Stopped" "m_processor_type (handlerDied s) = ePT_Receive"
    using assms(4) by (simp_all add: handlerDied_def)
  have "\<not> m_transparent (m_data_buffer s0)" "m_in_xrun s0"
    using died assms(3) by (simp_all add: s0_def scheduleStartDryRunning_def scheduleStateTransition_def Let_def handlerDied_def)
  moreover obtain s' where "rcv_run e (amdtp_receive_child e) (q # ps @ [p]) s0
      = Some (replicate (length (q # ps @ [p])) RAW1394_ISO_OK, s')" "at_state ePS_DryRunning s0 s'"
    using receive_start_run(2) [OF died assms(5-8) [unfolded s0_def]] unfolding s0_def by blast
  ultimately show ?thesis using at_stateD by blast
qed

theorem handler_death_opaque_witness:
  "\<exists>s'. rcv_run example_env (amdtp_receive_child example_env)
       (example_packet 0 # [example_packet (199 * 4096)] @ [example_packet (200 * 4096)])
       (snd (scheduleStartDryRunning example_env (- 1) (handlerDied (example_idle
          \<lparr>m_state := ePS_Running, m_data_buffer := (m_data_buffer example_idle)\<lparr>m_transparent := False\<rparr>\<rparr>))))
     = Some (replicate (length (example_packet 0 # [example_packet (199 * 4096)] @ [example_packet (200 * 4096)])) RAW1394_ISO_OK, s')
     \<and> m_state s' = ePS_DryRunning \<and> \<not> m_transparent (m_data_buffer s') \<and> m_in_xrun s'"
proof -
  have st: "m_state (handlerDied s) = ePS_Stopped" for s :: amdtp_receive by (simp add: handlerDied_def)
  have h: "startHandlerForStream example_env z" for z by (simp add: example_env_def)
  show ?thesis
    by (rule handler_death_opaque)
      (use example_due [OF st] in \<open>simp_all add: example_idle_members example_accepted h\<close>, simp_all add: example_packet_def)
qed

end
