(* ===== verification/IsoHandler.thy ===== *)
theory IsoHandler
  imports StreamStates
begin

text \<open>
  The isochronous handlers (class \<^verbatim>\<open>IsoHandler\<close> of \<^verbatim>\<open>libieee1394/IsoHandlerManager.cpp\<close>). A handler owns a handle of
  \<^verbatim>\<open>libraw1394\<close>, is called back by it for every packet and passes the packet on to its client, a stream
  processor, with the full time of the packet and the number of cycles that were lost. What the handler
  asks of its client is the record \<open>iso_client\<close>; the outcome of the calls into the library is an
  argument. An operation is \<open>None\<close> where an assertion fails or a null pointer is followed. Each
  operation is one step; the lock that keeps two threads from disabling a handler at once is left out.
\<close>

section \<open>Data\<close>

datatype EHandlerType = eHT_Receive | eHT_Transmit

datatype EHandlerStates = eHS_Stopped | eHS_Running

datatype raw1394_iso_dma_recv_mode = RAW1394_DMA_PACKET_PER_BUFFER | RAW1394_DMA_BUFFERFILL

text \<open>
  The address of a handler and of its client are numbers; \<open>m_handle\<close> tells whether the handle of the
  library is open. The counters that only feed debug messages are left out.
\<close>

record iso_handler =
  ih_addr :: nat
  m_type :: EHandlerType
  m_handle :: bool
  m_buf_packets :: u32
  m_max_packet_size :: u32
  m_irq_interval :: i32
  m_last_cycle :: i32
  m_last_now :: u32
  m_last_packet_handled_at :: u32
  m_receive_mode :: raw1394_iso_dma_recv_mode
  m_Client :: "nat option"
  ih_State :: EHandlerStates
  ih_NextState :: EHandlerStates
  m_switch_on_cycle :: i32
  m_packets :: u32
  m_deferred_cycles :: u32

text \<open>The methods of its client that a handler calls.\<close>

record 'c iso_client =
  client_putPacket :: "u8 list \<Rightarrow> u32 \<Rightarrow> u8 \<Rightarrow> u8 \<Rightarrow> u8 \<Rightarrow> u32 \<Rightarrow> u32 \<Rightarrow> 'c \<Rightarrow> (raw1394_iso_disposition \<times> 'c) option"
  client_getPacket :: "xmit_packet \<Rightarrow> u32 \<Rightarrow> u32 \<Rightarrow> 'c \<Rightarrow> (raw1394_iso_disposition \<times> xmit_packet \<times> 'c) option"
  client_packetsStopped :: "'c \<Rightarrow> 'c"
  client_handlerDied :: "'c \<Rightarrow> 'c"
  client_handleBusReset :: "'c \<Rightarrow> bool \<times> 'c"
  client_canProducePacket :: "'c \<Rightarrow> bool option"
  client_canConsumePacket :: "'c \<Rightarrow> bool"

text \<open>A stream processor as a client.\<close>

definition sp_client ::
  "sp_env \<Rightarrow> 'm stream_processor_scheme sp_child \<Rightarrow> 'm stream_processor_scheme iso_client" where
  "sp_client e ch =
     \<lparr>client_putPacket = (\<lambda>data len channel tag sy ctr dropped s.
        map_option (\<lambda>(r, _, s). (r, s)) (putPacket e ch data len channel tag sy ctr dropped s)),
      client_getPacket = getPacket e ch,
      client_packetsStopped = packetsStopped, client_handlerDied = handlerDied,
      client_handleBusReset = handleBusReset handleBusResetDo,
      client_canProducePacket = canProducePacket ch, client_canConsumePacket = canConsumePacket ch\<rparr>"

text \<open>
  Whether \<^verbatim>\<open>raw1394_new_handle_on_port\<close>, the initialisation and the start of the isochronous transfer
  succeed.
\<close>

record raw1394_calls =
  raw1394_new_handle :: bool
  raw1394_iso_init :: bool
  raw1394_iso_start :: bool

section \<open>Construction and clients\<close>

text \<open>The constructor the manager uses leaves \<^verbatim>\<open>m_packets\<close> (without \<^verbatim>\<open>DEBUG\<close>) and \<^verbatim>\<open>m_deferred_cycles\<close> alone.\<close>

definition IsoHandler_new :: "(nat \<Rightarrow> u32) \<Rightarrow> nat \<Rightarrow> EHandlerType \<Rightarrow> u32 \<Rightarrow> u32 \<Rightarrow> i32 \<Rightarrow> iso_handler" where
  "IsoHandler_new junk a t buf_packets max_packet_size irq =
     \<lparr>ih_addr = a, m_type = t, m_handle = False, m_buf_packets = buf_packets, m_max_packet_size = max_packet_size,
      m_irq_interval = irq, m_last_cycle = - 1, m_last_now = 0xFFFFFFFF, m_last_packet_handled_at = 0xFFFFFFFF,
      m_receive_mode = RAW1394_DMA_PACKET_PER_BUFFER, m_Client = None, ih_State = eHS_Stopped, ih_NextState = eHS_Stopped,
      m_switch_on_cycle = 0, m_packets = junk 0, m_deferred_cycles = junk 1\<rparr>"

definition isEnabled :: "iso_handler \<Rightarrow> bool" where
  "isEnabled h \<longleftrightarrow> ih_State h = eHS_Running"

definition inUse :: "iso_handler \<Rightarrow> bool" where
  "inUse h \<longleftrightarrow> m_Client h \<noteq> None"

definition isStreamRegistered :: "nat \<Rightarrow> iso_handler \<Rightarrow> bool" where
  "isStreamRegistered s h \<longleftrightarrow> m_Client h = Some s"

definition setReceiveMode :: "raw1394_iso_dma_recv_mode \<Rightarrow> iso_handler \<Rightarrow> iso_handler" where
  "setReceiveMode m h = h\<lparr>m_receive_mode := m\<rparr>"

definition IsoHandler_registerStream :: "nat \<Rightarrow> iso_handler \<Rightarrow> bool \<times> iso_handler" where
  "IsoHandler_registerStream stream h =
     (if m_Client h \<noteq> None then (False, h) else (True, h\<lparr>m_Client := Some stream\<rparr>))"

definition IsoHandler_unregisterStream :: "nat \<Rightarrow> iso_handler \<Rightarrow> bool \<times> iso_handler" where
  "IsoHandler_unregisterStream stream h =
     (if m_Client h \<noteq> Some stream then (False, h) else (True, h\<lparr>m_Client := None\<rparr>))"

definition canIterateClient :: "'c iso_client \<Rightarrow> iso_handler \<Rightarrow> 'c \<Rightarrow> bool option" where
  "canIterateClient cl h c =
     (if \<not> isEnabled h then Some False
      else if m_Client h = None then Some False
      else if m_type h = eHT_Receive then client_canProducePacket cl c
      else Some (client_canConsumePacket cl c))"

section \<open>Packets\<close>

text \<open>
  The full time of a packet: the time of the last call of \<^verbatim>\<open>iterate\<close>, moved by the number of cycles
  between it and the packet.
\<close>

definition packet_ctr :: "u32 \<Rightarrow> u32 \<Rightarrow> u32" where
  "packet_ctr last_now cycle =
     (let now_cycles = pkt_cycles last_now;
          diff_cycles = (scast (diffCycles cycle now_cycles) :: i64);
          tmp = CYCLE_TIMER_TO_TICKS (ucast last_now);
          tmp = tmp + diff_cycles * ucast TICKS_PER_CYCLE;
          pkt_ctr_ticks = wrapAtMinMaxTicks tmp
      in ucast (TICKS_TO_CYCLE_TIMER pkt_ctr_ticks))"

text \<open>\<open>missed_ok\<close> is \<^verbatim>\<open>m_MissedCyclesOK\<close> of the manager.\<close>

definition IsoHandler_putPacket ::
  "bool \<Rightarrow> 'c iso_client \<Rightarrow> u8 list \<Rightarrow> u32 \<Rightarrow> u8 \<Rightarrow> u8 \<Rightarrow> u8 \<Rightarrow> u32 \<Rightarrow> iso_handler \<Rightarrow> 'c
   \<Rightarrow> (raw1394_iso_disposition \<times> iso_handler \<times> 'c) option" where
  "IsoHandler_putPacket missed_ok cl data len channel tag sy cycle h c =
     (let dropped_cycles = (if m_last_cycle h \<noteq> cycle \<and> m_last_cycle h \<noteq> - 1 \<and> \<not> missed_ok
                            then diffCycles cycle (m_last_cycle h) - 1 else 0);
          pkt_ctr = packet_ctr (m_last_now h) cycle;
          h = h\<lparr>m_last_cycle := cycle, m_last_packet_handled_at := pkt_ctr, m_packets := m_packets h + 1\<rparr>
      in if m_Client h \<noteq> None then
           do { (r, c) \<leftarrow> client_putPacket cl data len channel tag sy pkt_ctr dropped_cycles c; Some (r, h, c) }
         else Some (RAW1394_ISO_OK, h, c))"

text \<open>
  The lost cycles reported for a packet to be sent, and the new count of deferred cycles. Stream
  processors never return \<^verbatim>\<open>RAW1394_ISO_AGAIN\<close>, the other result that defers a packet.
\<close>

definition dropped_cycles :: "i32 \<Rightarrow> u32 \<Rightarrow> iso_handler \<Rightarrow> i32 \<times> u32" where
  "dropped_cycles cycle skipped h =
     (let deferred = (if m_last_cycle h = - 1 then 0 else m_deferred_cycles h)
      in if m_last_cycle h \<noteq> cycle \<and> m_last_cycle h \<noteq> - 1 then
           let dropped = diffCycles cycle (m_last_cycle h) - 1 - skipped
           in if dropped = 0 then (0, 0) else (dropped - deferred, deferred)
         else (0, deferred))"

definition IsoHandler_getPacket ::
  "'c iso_client \<Rightarrow> xmit_packet \<Rightarrow> i32 \<Rightarrow> u32 \<Rightarrow> iso_handler \<Rightarrow> 'c
   \<Rightarrow> (raw1394_iso_disposition \<times> xmit_packet \<times> iso_handler \<times> 'c) option" where
  "IsoHandler_getPacket cl x cycle skipped h c =
     (let pkt_ctr = (if cycle <s 0 then 0xFFFFFFFF else packet_ctr (m_last_now h) cycle);
          h = h\<lparr>m_last_packet_handled_at := (if m_packets h < m_buf_packets h then 0xFFFFFFFF else pkt_ctr),
                m_packets := m_packets h + 1\<rparr>;
          (dropped, deferred) = dropped_cycles cycle skipped h;
          h = h\<lparr>m_deferred_cycles := deferred\<rparr>
      in if m_Client h \<noteq> None then
           do {
             (r, x, c) \<leftarrow> client_getPacket cl x pkt_ctr dropped c;
             let h = (if 0 \<le>s cycle then
                        if r \<noteq> RAW1394_ISO_DEFER then h\<lparr>m_last_cycle := cycle\<rparr>
                        else h\<lparr>m_deferred_cycles := m_deferred_cycles h + 1\<rparr>
                      else h);
             Some (r, x, h, c)
           }
         else
           Some (RAW1394_ISO_OK, x\<lparr>x_tag := 0, x_sy := 0, x_length := 0\<rparr>,
                 (if 0 \<le>s cycle then h\<lparr>m_last_cycle := cycle\<rparr> else h), c))"

text \<open>The callbacks of the library, which are methods of the handler but for the split of an argument.\<close>

datatype iso_callback =
    Receive_callback "u8 list" u32 u8 u8 u8 u32
  | Transmit_callback xmit_packet i32 u32

definition iso_receive_handler ::
  "bool \<Rightarrow> 'c iso_client \<Rightarrow> u8 list \<Rightarrow> u32 \<Rightarrow> u8 \<Rightarrow> u8 \<Rightarrow> u8 \<Rightarrow> u32 \<Rightarrow> iso_handler \<Rightarrow> 'c
   \<Rightarrow> (raw1394_iso_disposition \<times> iso_handler \<times> 'c) option" where
  "iso_receive_handler missed_ok cl data len channel tag sy cycle h c =
     IsoHandler_putPacket missed_ok cl data len channel tag sy cycle h c"

definition iso_transmit_handler ::
  "'c iso_client \<Rightarrow> xmit_packet \<Rightarrow> i32 \<Rightarrow> u32 \<Rightarrow> iso_handler \<Rightarrow> 'c
   \<Rightarrow> (raw1394_iso_disposition \<times> xmit_packet \<times> iso_handler \<times> 'c) option" where
  "iso_transmit_handler cl x cycle dropped1 h c =
     (let skipped = drop_bit 16 (dropped1 AND 0xFFFF0000)
      in IsoHandler_getPacket cl x cycle skipped h c)"

text \<open>What the library makes of the callbacks: the packets to be sent and the dispositions.\<close>

fun run_callbacks ::
  "bool \<Rightarrow> 'c iso_client \<Rightarrow> iso_callback list \<Rightarrow> iso_handler \<Rightarrow> 'c
   \<Rightarrow> ((raw1394_iso_disposition \<times> xmit_packet option) list \<times> iso_handler \<times> 'c) option" where
  "run_callbacks missed_ok cl [] h c = Some ([], h, c)"
| "run_callbacks missed_ok cl (Receive_callback data len channel tag sy cycle # cbs) h c =
     do { (r, h, c) \<leftarrow> iso_receive_handler missed_ok cl data len channel tag sy cycle h c;
          (rs, h, c) \<leftarrow> run_callbacks missed_ok cl cbs h c;
          Some ((r, None) # rs, h, c) }"
| "run_callbacks missed_ok cl (Transmit_callback x cycle dropped1 # cbs) h c =
     do { (r, x, h, c) \<leftarrow> iso_transmit_handler cl x cycle dropped1 h c;
          (rs, h, c) \<leftarrow> run_callbacks missed_ok cl cbs h c;
          Some ((r, Some x) # rs, h, c) }"

text \<open>
  \<^verbatim>\<open>iterate\<close>: \<open>cbs\<close> are the callbacks \<^verbatim>\<open>raw1394_loop_iterate\<close> makes, and \<open>ok\<close> whether it succeeds.
\<close>

definition IsoHandler_iterate ::
  "bool \<Rightarrow> 'c iso_client \<Rightarrow> iso_callback list \<Rightarrow> bool \<Rightarrow> u32 \<Rightarrow> iso_handler \<Rightarrow> 'c \<Rightarrow> (bool \<times> iso_handler \<times> 'c) option" where
  "IsoHandler_iterate missed_ok cl cbs ok cycle_timer_now h c =
     (let h = h\<lparr>m_last_now := cycle_timer_now\<rparr>
      in if ih_State h = eHS_Running then
           if \<not> m_handle h then None
           else do { (_, h, c) \<leftarrow> run_callbacks missed_ok cl cbs h c; Some (ok, h, c) }
         else Some (False, h, c))"

section \<open>Starting and stopping\<close>

definition IsoHandler_enable :: "raw1394_calls \<Rightarrow> i32 \<Rightarrow> iso_handler \<Rightarrow> (bool \<times> iso_handler) option" where
  "IsoHandler_enable raw cycle h =
     (if ih_State h \<noteq> eHS_Stopped then Some (False, h)
      else if m_handle h then None
      else if \<not> raw1394_new_handle raw then Some (False, h)
      else
        let h = h\<lparr>m_handle := True, m_packets := 0, m_last_cycle := - 1, m_last_now := 0xFFFFFFFF,
                  m_last_packet_handled_at := 0xFFFFFFFF\<rparr>
        in if m_Client h = None then None
           else if \<not> raw1394_iso_init raw then Some (False, h)
           else if \<not> raw1394_iso_start raw then Some (False, h)
           else Some (True, h\<lparr>ih_State := eHS_Running, ih_NextState := eHS_Running\<rparr>))"

definition IsoHandler_disable :: "'c iso_client \<Rightarrow> iso_handler \<Rightarrow> 'c \<Rightarrow> (bool \<times> iso_handler \<times> 'c) option" where
  "IsoHandler_disable cl h c =
     (if ih_State h \<noteq> eHS_Running then Some (False, h, c)
      else if \<not> m_handle h then None
      else if m_Client h = None then None
      else Some (True, h\<lparr>m_handle := False, ih_State := eHS_Stopped, ih_NextState := eHS_Stopped\<rparr>,
                 client_packetsStopped cl c))"

definition requestEnable :: "i32 \<Rightarrow> iso_handler \<Rightarrow> bool \<times> iso_handler" where
  "requestEnable cycle h =
     (if ih_State h = eHS_Running then (False, h)
      else if ih_State h \<noteq> eHS_Stopped then (False, h)
      else (True, h\<lparr>ih_NextState := eHS_Running\<rparr>))"

definition requestDisable :: "iso_handler \<Rightarrow> bool \<times> iso_handler" where
  "requestDisable h =
     (if ih_State h = eHS_Stopped then (True, h)
      else if ih_State h \<noteq> eHS_Running then (False, h)
      else (True, h\<lparr>ih_NextState := eHS_Stopped\<rparr>))"

definition setIsoStartCycle :: "i32 \<Rightarrow> iso_handler \<Rightarrow> iso_handler" where
  "setIsoStartCycle cycle h = h\<lparr>m_switch_on_cycle := cycle\<rparr>"

definition IsoHandler_updateState ::
  "raw1394_calls \<Rightarrow> 'c iso_client \<Rightarrow> iso_handler \<Rightarrow> 'c \<Rightarrow> (iso_handler \<times> 'c) option" where
  "IsoHandler_updateState raw cl h c =
     (if ih_State h \<noteq> ih_NextState h then
        if ih_State h = eHS_Stopped \<and> ih_NextState h = eHS_Running then
          do { (_, h) \<leftarrow> IsoHandler_enable raw (m_switch_on_cycle h) h; Some (h, c) }
        else if ih_State h = eHS_Running \<and> ih_NextState h = eHS_Stopped then
          do { (_, h, c) \<leftarrow> IsoHandler_disable cl h c; Some (h, c) }
        else Some (h, c)
      else Some (h, c))"

definition IsoHandler_handleBusReset :: "'c iso_client \<Rightarrow> iso_handler \<Rightarrow> 'c \<Rightarrow> (bool \<times> iso_handler \<times> 'c) option" where
  "IsoHandler_handleBusReset cl h c =
     (let h = h\<lparr>m_last_packet_handled_at := 0xFFFFFFFF\<rparr>
      in if m_Client h = None then None
         else let (r, c) = client_handleBusReset cl c in Some (r, h, c))"

definition notifyOfDeath :: "'c iso_client \<Rightarrow> iso_handler \<Rightarrow> 'c \<Rightarrow> (iso_handler \<times> 'c) option" where
  "notifyOfDeath cl h c =
     do {
       (h, c) \<leftarrow> (if m_handle h then map_option snd (IsoHandler_disable cl h c) else Some (h, c));
       if m_Client h = None then None else Some (h, client_handlerDied cl c)
     }"

section \<open>The time of a packet\<close>

lemma timer_word_32: "ucast (ucast (TICKS_TO_CYCLE_TIMER t) :: u32) = TICKS_TO_CYCLE_TIMER t"
  unfolding TICKS_TO_CYCLE_TIMER_def masks_as_take_bit
  by (rule bit_word_eqI) (auto simp: bit_simps)

text \<open>The register value \<open>now\<close> as a point in time: \<open>k\<close> cycles and \<open>off\<close> ticks.\<close>

definition timer_at :: "u32 \<Rightarrow> int \<Rightarrow> int \<Rightarrow> bool" where
  "timer_at now k off \<longleftrightarrow>
     0 \<le> k \<and> k < 1024000 \<and> 0 \<le> off \<and> off < 3072
     \<and> uint (CYCLE_TIMER_GET_SECS (ucast now)) = k div 8000 \<and> uint (CYCLE_TIMER_GET_CYCLES (ucast now)) = k mod 8000
     \<and> uint (CYCLE_TIMER_GET_OFFSET (ucast now)) = off"

lemma timer_at_ticks:
  assumes "timer_at now k off"
  shows "uint (CYCLE_TIMER_TO_TICKS (ucast now)) = k * 3072 + off"
proof -
  have "uint (CYCLE_TIMER_TO_TICKS (ucast now)) = k div 8000 * 24576000 + k mod 8000 * 3072 + off"
    using assms by (simp add: uint_CYCLE_TIMER_TO_TICKS timer_at_def)
  then show ?thesis using div_mult_mod_eq [of k 8000] by linarith
qed

lemma packet_ctr_word:
  fixes d :: int
  assumes now: "timer_at now k off" and d: "\<bar>d\<bar> < 4000" and cycle: "uint cycle = (k + d) mod 8000"
  shows "ucast (packet_ctr now cycle) = TICKS_TO_CYCLE_TIMER (of_int (((k + d) * 3072 + off) mod MAX_TICKS))"
proof -
  let ?now = "CYCLE_TIMER_TO_TICKS (ucast now)"
  have b: "0 \<le> k" "k < 1024000" "0 \<le> off" "off < 3072" using now by (simp_all add: timer_at_def)
  have k: "uint (pkt_cycles now) = k mod 8000" using now by (simp add: uint_pkt_cycles timer_at_def)
  have diff: "sint (diffCycles cycle (pkt_cycles now)) = d"
    by (rule diffCycles_near) (use d cycle k in \<open>simp_all add: mod_add_left_eq\<close>)
  have "(scast (diffCycles cycle (pkt_cycles now)) :: i64) = of_int (sint (diffCycles cycle (pkt_cycles now)))" by simp
  then have "(scast (diffCycles cycle (pkt_cycles now)) :: i64) = of_int d" by (simp only: diff)
  then have "?now + scast (diffCycles cycle (pkt_cycles now)) * ucast TICKS_PER_CYCLE
      = of_int (uint ?now) + of_int d * of_int 3072"
    by (simp add: consts_defs)
  also have "\<dots> = of_int ((k + d) * 3072 + off)"
    unfolding timer_at_ticks [OF now] by (simp add: algebra_simps)
  finally have tmp: "?now + scast (diffCycles cycle (pkt_cycles now)) * ucast TICKS_PER_CYCLE = of_int ((k + d) * 3072 + off)" .
  have r: "- MAX_TICKS \<le> (k + d) * 3072 + off" "(k + d) * 3072 + off < 2 * MAX_TICKS"
    using b abs_less_iff [THEN iffD1, OF d] unfolding distrib_right by linarith+
  then have s: "sint (of_int ((k + d) * 3072 + off) :: i64) = (k + d) * 3072 + off"
    by (intro sint_of_int_in_range) simp_all
  then have "sint (wrapAtMinMaxTicks (of_int ((k + d) * 3072 + off))) = ((k + d) * 3072 + off) mod MAX_TICKS"
    using r by (subst sint_wrapAtMinMaxTicks) simp_all
  moreover have "wrapAtMinMaxTicks x = of_int (sint (wrapAtMinMaxTicks x))" for x by simp
  ultimately have "wrapAtMinMaxTicks (of_int ((k + d) * 3072 + off)) = of_int (((k + d) * 3072 + off) mod MAX_TICKS)"
    by metis
  then show ?thesis unfolding packet_ctr_def Let_def tmp timer_word_32 by simp
qed

text \<open>
  C17. The time of a packet is reconstructed exactly: if the handler was last iterated \<open>k\<close> cycles and \<open>off\<close>
  ticks after the start of the cycle timer, and the library reports a packet by its cycle number, up to half a second
  before or after that, then the counter passed to the client is the register value \<open>d\<close> whole cycles
  away from the iteration, across the wrap-arounds of the cycle and the seconds fields.
\<close>

theorem packet_ctr_exact:
  fixes k d off :: int
  assumes "timer_at now k off" and "\<bar>d\<bar> < 4000" and "uint cycle = (k + d) mod 8000"
  shows "timer_at (packet_ctr now cycle) ((k + d) mod 1024000) off"
proof -
  let ?c = "packet_ctr now cycle" and ?t = "of_int (((k + d) * 3072 + off) mod MAX_TICKS) :: u64"
  note w = packet_ctr_word [OF assms]
  have off: "0 \<le> off" "off < 3072" using assms(1) by (simp_all add: timer_at_def)
  note f = timer_of_cycles [OF off, of "k + d"]
  have secs: "(k + d) mod 1024000 div 8000 = (k + d) div 8000 mod 128" using zmod_zmult2_eq [of 128 "k + d" 8000] by simp
  have t: "uint ?t = (k + d) mod 1024000 * 3072 + off" unfolding uint_ticks_word by (rule ticks_mod_cycles [OF off])
  have o: "uint (CYCLE_TIMER_GET_OFFSET (TICKS_TO_CYCLE_TIMER ?t)) = off"
    unfolding timer_of_ticks t using off by simp
  show ?thesis
    unfolding timer_at_def w using f o off by (simp add: secs mod_mod_cancel)
qed

theorem packet_ctr_exact_witness:
  "timer_at (packet_ctr 0x00001010 7998) (127 * 8000 + 7998) 16"
proof -
  have "timer_at (packet_ctr 0x00001010 7998) ((1 + (- 3)) mod 1024000) 16"
    by (rule packet_ctr_exact) (simp_all add: timer_at_def CYCLE_TIMER_GET_SECS_def CYCLE_TIMER_GET_CYCLES_def CYCLE_TIMER_GET_OFFSET_def)
  then show ?thesis by simp
qed

section \<open>Lost cycles\<close>

text \<open>A client that notes the numbers of lost cycles it is told.\<close>

definition logged :: "'c iso_client \<Rightarrow> ('c \<times> u32 list) iso_client" where
  "logged cl =
     \<lparr>client_putPacket = (\<lambda>data len channel tag sy ctr dropped (c, told).
        map_option (\<lambda>(r, c). (r, c, told @ [dropped])) (client_putPacket cl data len channel tag sy ctr dropped c)),
      client_getPacket = (\<lambda>x ctr dropped (c, told).
        map_option (\<lambda>(r, x, c). (r, x, c, told @ [dropped])) (client_getPacket cl x ctr dropped c)),
      client_packetsStopped = map_prod (client_packetsStopped cl) id,
      client_handlerDied = map_prod (client_handlerDied cl) id,
      client_handleBusReset = (\<lambda>(c, told). let (r, c) = client_handleBusReset cl c in (r, c, told)),
      client_canProducePacket = client_canProducePacket cl \<circ> fst,
      client_canConsumePacket = client_canConsumePacket cl \<circ> fst\<rparr>"

lemma logged_putPacket [simp]:
  "client_putPacket (logged cl) data len ch tag sy ctr n (c, told) =
     map_option (\<lambda>(r, c). (r, c, told @ [n])) (client_putPacket cl data len ch tag sy ctr n c)"
  by (simp add: logged_def)

lemma logged_getPacket [simp]:
  "client_getPacket (logged cl) x ctr n (c, told) =
     map_option (\<lambda>(r, x, c). (r, x, c, told @ [n])) (client_getPacket cl x ctr n c)"
  by (simp add: logged_def)

lemma bind_pair_Some: "x \<bind> (\<lambda>(r, c). Some (f r c)) = map_option (\<lambda>(r, c). f r c) x"
  by (cases x) auto

lemma cycle_not_minus_one:
  fixes k :: int
  shows "(of_int (k mod 8000) :: u32) \<noteq> - 1"
proof
  assume "(of_int (k mod 8000) :: u32) = - 1"
  then have "uint (of_int (k mod 8000) :: u32) = uint (- 1 :: u32)" by (simp only:)
  then have "k mod 8000 = 4294967295" by (simp add: uint_cycle_word unsigned_minus_1_eq_mask mask_eq_exp_minus_1)
  moreover have "k mod 8000 < 8000" by simp
  ultimately show False by linarith
qed

lemma cycles_apart:
  fixes k n :: int
  assumes "0 < n" and "n < 4000"
  shows "diffCycles (of_int ((k + n) mod 8000)) (of_int (k mod 8000)) = of_int n"
    and "(of_int ((k + n) mod 8000) :: u32) \<noteq> of_int (k mod 8000)"
proof -
  have "sint (diffCycles (of_int ((k + n) mod 8000)) (of_int (k mod 8000))) = n"
    by (rule diffCycles_near) (use assms in \<open>simp_all add: uint_cycle_word mod_add_left_eq\<close>)
  moreover have "x = of_int (sint x)" for x :: i32 by simp
  ultimately show d: "diffCycles (of_int ((k + n) mod 8000)) (of_int (k mod 8000)) = of_int n" by metis
  show "(of_int ((k + n) mod 8000) :: u32) \<noteq> of_int (k mod 8000)"
  proof
    assume "(of_int ((k + n) mod 8000) :: u32) = of_int (k mod 8000)"
    then have "(of_int n :: i32) = 0" using d by (simp add: diffCycles_def consts_defs Let_def word_sless_alt)
    then have "sint (of_int n :: i32) = 0" by simp
    then show False using assms sint_of_int_in_range [of n, where 'a = 32] by simp
  qed
qed

lemma IsoHandler_putPacket_gap:
  fixes k n :: int
  assumes "m_last_cycle h = of_int (k mod 8000)" and "0 < n" "n < 4000" and "m_Client h \<noteq> None"
  shows "IsoHandler_putPacket False cl data len ch tag sy (of_int ((k + n) mod 8000)) h c =
    map_option (\<lambda>(r, c). (r, h\<lparr>m_last_cycle := of_int ((k + n) mod 8000),
        m_last_packet_handled_at := packet_ctr (m_last_now h) (of_int ((k + n) mod 8000)), m_packets := m_packets h + 1\<rparr>, c))
      (client_putPacket cl data len ch tag sy (packet_ctr (m_last_now h) (of_int ((k + n) mod 8000))) (of_int (n - 1)) c)"
  using cycles_apart [OF assms(2,3), of k] cycle_not_minus_one [of k] assms(1,4)
  by (auto simp: IsoHandler_putPacket_def Let_def bind_pair_Some)

text \<open>Received packets in the cycles \<open>ks\<close>, counted from the start of the cycle timer.\<close>

type_synonym cycle_packet = "int \<times> u8 list \<times> u32 \<times> u8 \<times> u8 \<times> u8"

fun received :: "cycle_packet \<Rightarrow> iso_callback" where
  "received (k, data, len, ch, tag, sy) = Receive_callback data len ch tag sy (of_int (k mod 8000))"

lemma receive_gaps:
  assumes "successively (\<lambda>a b. a < b \<and> b < a + 4000) (k # map fst ps)"
    and "m_last_cycle h = of_int (k mod 8000)" and "m_Client h \<noteq> None"
    and "run_callbacks False (logged cl) (map received ps) h (c, told) = Some (rs, h', c', told')"
  shows "told' = told @ map2 (\<lambda>a b. of_int (b - a - 1)) (k # map fst ps) (map fst ps)"
  using assms
proof (induction ps arbitrary: k h c told rs)
  case Nil
  then show ?case by simp
next
  case (Cons p ps)
  obtain k' data len ch tag sy where p: "p = (k', data, len, ch, tag, sy)" by (cases p)
  have n: "0 < k' - k" "k' - k < 4000" and k': "k + (k' - k) = k'" using Cons.prems(1) by (simp_all add: p)
  note step = IsoHandler_putPacket_gap [OF Cons.prems(2) n Cons.prems(3), unfolded k', of "logged cl" data len ch tag sy "(c, told)"]
  let ?h = "h\<lparr>m_last_cycle := of_int (k' mod 8000), m_last_packet_handled_at := packet_ctr (m_last_now h) (of_int (k' mod 8000)),
    m_packets := m_packets h + 1\<rparr>"
  obtain c1 rs1 where rest: "run_callbacks False (logged cl) (map received ps) ?h (c1, told @ [of_int (k' - k - 1)]) = Some (rs1, h', c', told')"
    using Cons.prems(4) step by (auto simp: p iso_receive_handler_def bind_eq_Some_conv)
  have "told' = (told @ [of_int (k' - k - 1)]) @ map2 (\<lambda>a b. of_int (b - a - 1)) (k' # map fst ps) (map fst ps)"
    using Cons.prems(1,3) by (intro Cons.IH [OF _ _ _ rest]) (simp_all add: p successively_Cons)
  then show ?case by (simp add: p)
qed

lemma map2_gaps:
  assumes "successively (\<lambda>a b :: int. a < b \<and> b < a + 4000) (k # ks)"
  shows "(\<Sum>w\<leftarrow>map2 (\<lambda>a b. of_int (b - a - 1) :: u32) (k # ks) ks. uint w) + int (length ks) = last (k # ks) - k"
  using assms
proof (induction ks arbitrary: k)
  case Nil
  then show ?case by simp
next
  case (Cons k' ks)
  have "uint (of_int (k' - k - 1) :: u32) = k' - k - 1"
    using Cons.prems by (subst uint_word_of_int_eq) (simp add: take_bit_int_eq_self del: of_int_diff)
  moreover have "(\<Sum>w\<leftarrow>map2 (\<lambda>a b. of_int (b - a - 1) :: u32) (k' # ks) ks. uint w) + int (length ks) = last (k' # ks) - k'"
    using Cons.prems by (intro Cons.IH) (simp add: successively_Cons)
  ultimately show ?case by (simp del: of_int_diff)
qed

lemma missed_cycles_ok:
  assumes "run_callbacks True (logged cl) (map received qs) h (c, told) = Some (rs, h', c', told')" and "m_Client h \<noteq> None"
  shows "told' = told @ replicate (length qs) 0"
  using assms
proof (induction qs arbitrary: h c rs told)
  case Nil
  then show ?case by simp
next
  case (Cons q qs)
  obtain k data len ch tag sy where q: "q = (k, data, len, ch, tag, sy)" by (cases q)
  let ?h = "h\<lparr>m_last_cycle := of_int (k mod 8000), m_last_packet_handled_at := packet_ctr (m_last_now h) (of_int (k mod 8000)),
    m_packets := m_packets h + 1\<rparr>"
  obtain c1 rs1 where "run_callbacks True (logged cl) (map received qs) ?h (c1, told @ [0]) = Some (rs1, h', c', told')"
    using Cons.prems by (auto simp: q iso_receive_handler_def IsoHandler_putPacket_def Let_def bind_eq_Some_conv)
  then show ?case using Cons.IH [of ?h c1 "told @ [0]" rs1] Cons.prems(2) by simp
qed

text \<open>
  C18. A receive handler counts lost cycles exactly: after it has been started, the numbers it reports to its client
  for packets less than half a second apart are the numbers of cycles between a packet and the
  one before, so that packets and lost cycles together make up all cycles from the first packet
  to the last. With \<^verbatim>\<open>m_MissedCyclesOK\<close> nothing is reported.
\<close>

theorem receive_counts_lost_cycles:
  assumes "m_last_cycle h = - 1" and "m_Client h \<noteq> None"
    and "successively (\<lambda>a b. a < b \<and> b < a + 4000) (map fst (p # ps))"
    and "run_callbacks missed_ok (logged cl) (map received (p # ps)) h (c, []) = Some (rs, h', c', told)"
  shows "(missed_ok \<longrightarrow> told = replicate (length (p # ps)) 0)
    \<and> (\<not> missed_ok \<longrightarrow> told = 0 # map2 (\<lambda>a b. of_int (b - a - 1)) (map fst (p # ps)) (map fst ps)
        \<and> (\<Sum>w\<leftarrow>told. uint w) + int (length told) = last (map fst (p # ps)) - fst p + 1)"
proof (intro conjI impI)
  obtain k data len ch tag sy where p: "p = (k, data, len, ch, tag, sy)" by (cases p)
  assume "\<not> missed_ok"
  let ?h = "h\<lparr>m_last_cycle := of_int (k mod 8000), m_last_packet_handled_at := packet_ctr (m_last_now h) (of_int (k mod 8000)),
    m_packets := m_packets h + 1\<rparr>"
  obtain c1 rs1 where "run_callbacks False (logged cl) (map received ps) ?h (c1, [0]) = Some (rs1, h', c', told)"
    using assms(1,2,4) \<open>\<not> missed_ok\<close>
    by (auto simp: p iso_receive_handler_def IsoHandler_putPacket_def Let_def bind_eq_Some_conv)
  then have told: "told = [0] @ map2 (\<lambda>a b. of_int (b - a - 1)) (k # map fst ps) (map fst ps)"
    using assms(2,3) by (intro receive_gaps) (simp_all add: p)
  then show "told = 0 # map2 (\<lambda>a b. of_int (b - a - 1)) (map fst (p # ps)) (map fst ps)" by (simp add: p)
  show "(\<Sum>w\<leftarrow>told. uint w) + int (length told) = last (map fst (p # ps)) - fst p + 1"
    using map2_gaps [of k "map fst ps"] assms(3) unfolding told by (simp add: p del: of_int_diff)
next
  assume "missed_ok"
  then show "told = replicate (length (p # ps)) 0"
    using missed_cycles_ok [of cl "p # ps" h c "[]" rs h' c' told] assms(2,4) by simp
qed

text \<open>A handler right after a successful start, with a client that takes every packet.\<close>

definition example_handler :: "EHandlerType \<Rightarrow> iso_handler" where
  "example_handler t = (IsoHandler_new (\<lambda>_. 7) 1 t 128 1024 8)\<lparr>m_handle := True, m_Client := Some 2, ih_State := eHS_Running,
     ih_NextState := eHS_Running, m_packets := 0\<rparr>"

definition example_client :: "raw1394_iso_disposition list iso_client" where
  "example_client =
     \<lparr>client_putPacket = (\<lambda>_ _ _ _ _ _ _ rs. Some (RAW1394_ISO_OK, rs)),
      client_getPacket = (\<lambda>x _ _ rs. case rs of [] \<Rightarrow> Some (RAW1394_ISO_OK, x, []) | r # rs \<Rightarrow> Some (r, x, rs)),
      client_packetsStopped = id, client_handlerDied = id, client_handleBusReset = Pair True,
      client_canProducePacket = (\<lambda>_. Some True), client_canConsumePacket = (\<lambda>_. True)\<rparr>"

theorem receive_counts_lost_cycles_witness:
  "\<exists>rs h' c' told.
     run_callbacks False (logged example_client) (map received [(7998, [], 0, 0, 0, 0), (7999, [], 0, 0, 0, 0), (8003, [], 0, 0, 0, 0)])
       (example_handler eHT_Receive) ([], []) = Some (rs, h', c', told)
     \<and> told = [0, 0, 3]"
proof -
  obtain rs h' c' told where r: "run_callbacks False (logged example_client)
      (map received ((7998, [], 0, 0, 0, 0) # [(7999, [], 0, 0, 0, 0), (8003, [], 0, 0, 0, 0)]))
      (example_handler eHT_Receive) ([], []) = Some (rs, h', c', told)"
    by (simp add: iso_receive_handler_def IsoHandler_putPacket_def example_handler_def IsoHandler_new_def example_client_def Let_def)
  then have "told = [0, 0, 3]"
    using receive_counts_lost_cycles [OF _ _ _ r] by (simp add: example_handler_def IsoHandler_new_def)
  then show ?thesis using r by auto
qed

section \<open>Deferred cycles\<close>

fun requested :: "int \<times> xmit_packet \<Rightarrow> iso_callback" where
  "requested (k, x) = Transmit_callback x (of_int (k mod 8000)) 0"

lemma cycle_nonneg:
  fixes k :: int
  shows "0 \<le>s (of_int (k mod 8000) :: i32)" and "\<not> (of_int (k mod 8000) :: i32) <s 0"
proof -
  have "k mod 8000 < 8000" by simp
  then have "sint (of_int (k mod 8000) :: i32) = k mod 8000" by (intro sint_of_int_in_range) simp_all
  then show "0 \<le>s (of_int (k mod 8000) :: i32)" "\<not> (of_int (k mod 8000) :: i32) <s 0"
    by (simp_all add: word_sle_eq word_sless_alt)
qed

lemma dropped_cycles_gap:
  fixes k n :: int
  assumes "m_last_cycle h = of_int (k mod 8000)" and "0 < n" "n < 4000"
  shows "dropped_cycles (of_int ((k + n) mod 8000)) 0 h =
    (if n = 1 then (0, 0) else (of_int (n - 1) - m_deferred_cycles h, m_deferred_cycles h))"
proof -
  have "(of_int (n - 1) :: u32) = 0 \<longleftrightarrow> n = 1"
  proof
    assume "(of_int (n - 1) :: u32) = 0"
    then have "sint (of_int (n - 1) :: i32) = 0" by (simp only: signed_0)
    then show "n = 1" using assms(2,3) sint_of_int_in_range [of "n - 1", where 'a = 32] by (simp del: of_int_diff)
  qed simp
  then show ?thesis
    using cycles_apart [OF assms(2,3), of k] cycle_not_minus_one [of k] assms(1)
    by (simp add: dropped_cycles_def Let_def)
qed

lemma getPacket_after_deferrals:
  fixes k :: int
  assumes "m_Client h \<noteq> None" and "m_last_cycle h = of_int (k mod 8000)" and "j = 0 \<or> m_deferred_cycles h = of_nat j" and "j < 3999"
    and "IsoHandler_getPacket (logged cl) x (of_int ((k + int j + 1) mod 8000)) 0 h (c, told) = Some (r, x', h', c', told')"
  shows "told' = told @ [0] \<and> m_Client h' \<noteq> None
    \<and> m_last_cycle h' = of_int ((if r = RAW1394_ISO_DEFER then k else k + int j + 1) mod 8000)
    \<and> m_deferred_cycles h' = of_nat (if r = RAW1394_ISO_DEFER then Suc j else j)"
proof -
  let ?h = "h\<lparr>m_last_packet_handled_at := (if m_packets h < m_buf_packets h then 0xFFFFFFFF
      else packet_ctr (m_last_now h) (of_int ((k + int j + 1) mod 8000))), m_packets := m_packets h + 1\<rparr>"
  have d: "dropped_cycles (of_int ((k + int j + 1) mod 8000)) 0 ?h = (0, of_nat j)"
    using dropped_cycles_gap [of ?h k "int j + 1"] assms(2-4) by (auto simp: add.assoc)
  show ?thesis
    using assms(1,2,5) unfolding IsoHandler_getPacket_def Let_def if_not_P [OF cycle_nonneg(2)] d
    by (auto simp: cycle_nonneg bind_eq_Some_conv)
qed

lemma deferred_run:
  fixes k :: int
  assumes "m_Client h \<noteq> None" and "m_last_cycle h = of_int (k mod 8000)" and "j = 0 \<or> m_deferred_cycles h = of_nat j"
    and "j + n < 3999" and "map fst qs = map (\<lambda>i. k + int i + 1) [j..<Suc (j + n)]"
    and "run_callbacks mo (logged cl) (map requested (qs @ q)) h (c, told) = Some (rs, h', c', told')"
    and "map fst rs = replicate n RAW1394_ISO_DEFER @ r # rs'" and "r \<noteq> RAW1394_ISO_DEFER"
  obtains h1 c1 rs1 where "run_callbacks mo (logged cl) (map requested q) h1 (c1, told @ replicate (Suc n) 0) = Some (rs1, h', c', told')"
    and "m_Client h1 \<noteq> None" and "m_last_cycle h1 = of_int ((k + int (j + n) + 1) mod 8000)" and "m_deferred_cycles h1 = of_nat (j + n)"
  using assms
proof (induction n arbitrary: thesis h j c told qs rs)
  case 0
  obtain x where qs: "qs = [(k + int j + 1, x)]" using "0.prems"(6) by auto
  obtain r1 x1 h1 c1 t1 rs1 where g: "IsoHandler_getPacket (logged cl) x (of_int ((k + int j + 1) mod 8000)) 0 h (c, told) = Some (r1, x1, h1, c1, t1)"
    and rest: "run_callbacks mo (logged cl) (map requested q) h1 (c1, t1) = Some (rs1, h', c', told')" and rs: "rs = (r1, Some x1) # rs1"
    using "0.prems"(7) by (auto simp: qs iso_transmit_handler_def bind_eq_Some_conv)
  have "r1 \<noteq> RAW1394_ISO_DEFER" using "0.prems"(8,9) rs by simp
  then show ?case
    using "0.prems"(1) [of h1 c1 rs1] rest getPacket_after_deferrals [OF "0.prems"(2-4) _ g] "0.prems"(5) by simp
next
  case (Suc n)
  have "map fst qs = (k + int j + 1) # map (\<lambda>i. k + int i + 1) [Suc j..<Suc (Suc j + n)]"
    using Suc.prems(6) by (simp add: upt_conv_Cons del: upt_Suc)
  then obtain x qs' where qs: "qs = (k + int j + 1, x) # qs'" "map fst qs' = map (\<lambda>i. k + int i + 1) [Suc j..<Suc (Suc j + n)]" by auto
  obtain r1 x1 h1 c1 t1 rs1 where g: "IsoHandler_getPacket (logged cl) x (of_int ((k + int j + 1) mod 8000)) 0 h (c, told) = Some (r1, x1, h1, c1, t1)"
    and rest: "run_callbacks mo (logged cl) (map requested (qs' @ q)) h1 (c1, t1) = Some (rs1, h', c', told')" and rs: "rs = (r1, Some x1) # rs1"
    using Suc.prems(7) by (auto simp: qs iso_transmit_handler_def bind_eq_Some_conv)
  have r1: "r1 = RAW1394_ISO_DEFER" "map fst rs1 = replicate n RAW1394_ISO_DEFER @ r # rs'" using Suc.prems(8) rs by simp_all
  have h1: "m_Client h1 \<noteq> None" "m_last_cycle h1 = of_int (k mod 8000)" "m_deferred_cycles h1 = of_nat (Suc j)" "t1 = told @ [0]"
    using getPacket_after_deferrals [OF Suc.prems(2-4) _ g] Suc.prems(5) r1(1) by simp_all
  show ?case
  proof (rule Suc.IH [where h = h1 and j = "Suc j" and qs = qs' and c = c1 and told = t1 and rs = rs1])
    fix h2 c2 rs2
    assume "run_callbacks mo (logged cl) (map requested q) h2 (c2, t1 @ replicate (Suc n) 0) = Some (rs2, h', c', told')"
      "m_Client h2 \<noteq> None" "m_last_cycle h2 = of_int ((k + int (Suc j + n) + 1) mod 8000)" "m_deferred_cycles h2 = of_nat (Suc j + n)"
    then show thesis using Suc.prems(1) [of h2 c2 rs2] h1(4) by simp
  qed (use h1 Suc.prems(5,9) qs(2) rest r1(2) in simp_all)
qed

text \<open>
  The count of deferred cycles outlives its use. A transmit handler whose client defers \<open>n\<close> packets and
  then sends one reports no lost cycle for them, as meant. But the count is only cleared by a packet
  that follows its predecessor directly: if the next packet comes after \<open>g > 0\<close> cycles that were really lost,
  the client is told \<open>g - n\<close>, hence nothing at all for \<open>g = n\<close>.
\<close>

theorem deferred_cycles_hide_drops:
  fixes k g :: int
  assumes "m_Client h \<noteq> None" and "m_last_cycle h = of_int (k mod 8000)" and "n < 3999" and "0 < g" "g < 3999"
    and "map fst qs = map (\<lambda>i. k + int i + 1) [0..<Suc n] @ [k + int n + 2 + g]"
    and "run_callbacks mo (logged cl) (map requested qs) h (c, []) = Some (rs, h', c', told)"
    and "map fst rs = replicate n RAW1394_ISO_DEFER @ [r, r']" and "r \<noteq> RAW1394_ISO_DEFER"
  shows "told = replicate (Suc n) 0 @ [of_int (g - int n)]"
proof -
  obtain qs1 x where qs: "qs = qs1 @ [(k + int n + 2 + g, x)]" "map fst qs1 = map (\<lambda>i. k + int i + 1) [0..<Suc (0 + n)]"
    using assms(6) by (auto simp: map_eq_append_conv simp del: upt_Suc)
  obtain h1 c1 rs1 where r: "run_callbacks mo (logged cl) (map requested [(k + int n + 2 + g, x)]) h1 (c1, [] @ replicate (Suc n) 0) = Some (rs1, h', c', told)"
    and h1: "m_Client h1 \<noteq> None" "m_last_cycle h1 = of_int ((k + int (0 + n) + 1) mod 8000)" "m_deferred_cycles h1 = of_nat (0 + n)"
    using deferred_run [of h k 0 n qs1 mo cl "[(k + int n + 2 + g, x)]" c "[]" rs h' c' told r "[r']"] assms(1-3,7-9) qs
    by (metis (no_types, lifting) add_0)
  let ?k = "k + int n + 1"
  let ?h = "h1\<lparr>m_last_packet_handled_at := (if m_packets h1 < m_buf_packets h1 then 0xFFFFFFFF
      else packet_ctr (m_last_now h1) (of_int ((?k + (g + 1)) mod 8000))), m_packets := m_packets h1 + 1\<rparr>"
  have d: "dropped_cycles (of_int ((?k + (g + 1)) mod 8000)) 0 ?h = (of_int (g - int n), of_nat n)"
    using dropped_cycles_gap [of ?h ?k "g + 1"] assms(4,5) h1 by simp
  have e: "k + int n + 2 + g = ?k + (g + 1)" by simp
  have "IsoHandler_getPacket (logged cl) x (of_int ((?k + (g + 1)) mod 8000)) 0 h1 (c1, replicate (Suc n) 0) \<bind> (\<lambda>(r, x, h, c). Some c) = Some (c', told)"
    using r unfolding e by (auto simp: iso_transmit_handler_def bind_eq_Some_conv)
  then show ?thesis
    using h1(1) unfolding IsoHandler_getPacket_def Let_def if_not_P [OF cycle_nonneg(2)] d
    by (auto simp: cycle_nonneg bind_eq_Some_conv)
qed

theorem deferred_cycles_hide_drops_witness:
  "\<exists>rs h' c' told.
     run_callbacks False (logged example_client) (map requested (map (\<lambda>k. (k, \<lparr>x_data = [], x_length = 0, x_tag = 0, x_sy = 0\<rparr>)) [11, 12, 13, 16]))
       ((example_handler eHT_Transmit)\<lparr>m_last_cycle := 10\<rparr>) ([RAW1394_ISO_DEFER, RAW1394_ISO_DEFER], []) = Some (rs, h', c', told)
     \<and> told = [0, 0, 0, 0]"
proof -
  let ?h = "(example_handler eHT_Transmit)\<lparr>m_last_cycle := 10\<rparr>"
  let ?qs = "map (\<lambda>k. (k, \<lparr>x_data = [], x_length = 0, x_tag = 0, x_sy = 0\<rparr>)) [11, 12, 13, 16 :: int]"
  let ?run = "run_callbacks False (logged example_client) (map requested ?qs) ?h ([RAW1394_ISO_DEFER, RAW1394_ISO_DEFER], [])"
  have "map_option (map fst \<circ> fst) ?run = Some (replicate 2 RAW1394_ISO_DEFER @ [RAW1394_ISO_OK, RAW1394_ISO_OK])" by code_simp
  then obtain rs h' c' told where r: "?run = Some (rs, h', c', told)"
    and rs: "map fst rs = replicate 2 RAW1394_ISO_DEFER @ [RAW1394_ISO_OK, RAW1394_ISO_OK]" by auto
  have "told = replicate (Suc 2) 0 @ [of_int (2 - int 2)]"
    by (rule deferred_cycles_hide_drops [where k = 10 and n = 2 and g = 2, OF _ _ _ _ _ _ r rs])
       (simp_all add: example_handler_def IsoHandler_new_def upt_rec)
  then show ?thesis using r by (auto simp: numeral_2_eq_2)
qed

section \<open>Failed starts\<close>

text \<open>
  A requested start that fails half-way is fatal. When the library gives no handle, the request stays
  pending and the next update tries again; when everything succeeds the handler runs. But when the
  handle was opened and the initialisation or the start of the transfer failed, the handler stays stopped
  with an open handle and the request pending, and the next update runs into the assertion that no handle
  is open, whatever the library does then.
\<close>

theorem enable_failure_aborts:
  assumes "ih_State h = eHS_Stopped" and "ih_NextState h = eHS_Running" and "\<not> m_handle h" and "m_Client h \<noteq> None"
  shows "if \<not> raw1394_new_handle raw then IsoHandler_updateState raw cl h c = Some (h, c)
    else \<exists>h'. IsoHandler_updateState raw cl h c = Some (h', c) \<and> m_handle h'
      \<and> (if raw1394_iso_init raw \<and> raw1394_iso_start raw
         then isEnabled h' \<and> IsoHandler_updateState raw' cl' h' c' = Some (h', c')
         else \<not> isEnabled h' \<and> IsoHandler_updateState raw' cl' h' c' = None)"
  using assms by (auto simp: IsoHandler_updateState_def IsoHandler_enable_def isEnabled_def Let_def)

theorem enable_failure_aborts_witness:
  "IsoHandler_updateState \<lparr>raw1394_new_handle = True, raw1394_iso_init = True, raw1394_iso_start = False\<rparr> example_client
     ((IsoHandler_new (\<lambda>_. 7) 1 eHT_Receive 128 1024 8)\<lparr>m_Client := Some 2, ih_NextState := eHS_Running\<rparr>) [] \<bind>
   (\<lambda>(h, c). IsoHandler_updateState \<lparr>raw1394_new_handle = True, raw1394_iso_init = True, raw1394_iso_start = True\<rparr> example_client h c)
   = None"
  using enable_failure_aborts [of "(IsoHandler_new (\<lambda>_. 7) 1 eHT_Receive 128 1024 8)\<lparr>m_Client := Some 2, ih_NextState := eHS_Running\<rparr>"
      "\<lparr>raw1394_new_handle = True, raw1394_iso_init = True, raw1394_iso_start = False\<rparr>" example_client "[]"
      "\<lparr>raw1394_new_handle = True, raw1394_iso_init = True, raw1394_iso_start = True\<rparr>" example_client "[]"]
  by (auto simp: IsoHandler_new_def)

end
