(* ===== verification/IsoHandlerManager.thy ===== *)
theory IsoHandlerManager
  imports IsoHandler "HOL-Library.Signed_Division"
begin

text \<open>
  The manager of the isochronous handlers (classes \<^verbatim>\<open>IsoHandlerManager\<close> and \<^verbatim>\<open>IsoTask\<close> of
  \<^verbatim>\<open>libieee1394/IsoHandlerManager.cpp\<close>). The manager creates one handler per registered stream and deletes it when the
  stream is unregistered. Two tasks, each with a thread of its own, iterate the handlers that receive
  and the handlers that transmit. A task works on a shadow of the manager's list, which it rebuilds when
  asked to. A handler is found by its address: following the address of a handler that has
  been deleted is \<open>None\<close>, as is a null pointer, a failed assertion, a division by zero and an index
  past an array. The stream processors are a store from addresses to states.
\<close>

section \<open>Data\<close>

definition ISOHANDLERMANAGER_MAX_ISO_HANDLERS_PER_PORT :: nat where
  "ISOHANDLERMANAGER_MAX_ISO_HANDLERS_PER_PORT = 16"

datatype eHandlerStates = IHM_Created | IHM_Running | IHM_Error

datatype eActivityResult = eAR_Activity | eAR_Timeout | eAR_Interrupted | eAR_Error

record pollfd =
  events :: "16 word"
  revents :: "16 word"

definition POLLIN :: "16 word" where "POLLIN = 1"

definition POLLPRI :: "16 word" where "POLLPRI = 2"

record iso_task =
  m_handlerType :: EHandlerType
  request_update :: i32
  m_poll_fds_shadow :: "pollfd list"
  m_IsoHandler_map_shadow :: "nat option list"
  m_poll_nfds_shadow :: nat
  m_SyncIsoHandler :: "nat option"
  m_running :: bool
  m_in_busreset :: bool
  m_activity_semaphore :: nat
  m_activity_wait_timeout_nsec :: i64

text \<open>A thread: its parameters and, once it is started, the real-time priority the system gives it (\<open>None\<close> for normal scheduling).\<close>

record posix_thread =
  fThread :: bool
  fPriority :: i32
  fRealTime :: bool
  fRunning :: bool
  sched_priority :: "i32 option"

record iso_manager =
  ihm_State :: eHandlerStates
  m_IsoHandlers :: "iso_handler list"
  m_StreamProcessors :: "nat list"
  m_realtime :: bool
  m_priority :: i32
  m_IsoThreadTransmit :: "posix_thread option"
  m_IsoTaskTransmit :: "iso_task option"
  m_IsoThreadReceive :: "posix_thread option"
  m_IsoTaskReceive :: "iso_task option"
  m_MissedCyclesOK :: bool
  next_addr :: nat

text \<open>The settings of the configuration, with the defaults of \<^verbatim>\<open>config.h\<close>.\<close>

record iso_options =
  prio_increase :: i32
  prio_increase_xmit :: i32
  prio_increase_recv :: i32
  isotask_activity_timeout_usecs :: i64
  receive_mode_setting :: i32
  bufferfill_mode_threshold :: i32
  min_interrupts_per_period :: i32
  max_nb_buffers_recv :: i32
  min_packetsize_recv :: i32
  max_nb_buffers_xmit :: i32
  max_packetsize_xmit :: i32
  min_packetsize_xmit :: i32

definition default_options :: iso_options where
  "default_options =
     \<lparr>prio_increase = 0, prio_increase_xmit = 1, prio_increase_recv = - 1, isotask_activity_timeout_usecs = 1000000,
      receive_mode_setting = 0, bufferfill_mode_threshold = 64, min_interrupts_per_period = 2, max_nb_buffers_recv = 128,
      min_packetsize_recv = 72, max_nb_buffers_xmit = 128, max_packetsize_xmit = 2048 - 16, min_packetsize_xmit = 72\<rparr>"

text \<open>What the manager asks of a stream that is registered.\<close>

record stream_info =
  si_type :: eProcessorType
  si_packets_per_period :: u32
  si_max_packet_size :: u32

section \<open>Threads\<close>

text \<open>The scheduler accepts priorities from 1 to 98; \<open>ok\<close> tells whether the call into the system succeeds.\<close>

definition clip_priority :: "i32 \<Rightarrow> i32" where
  "clip_priority p = (if p \<le>s 0 then 1 else if 99 \<le>s p then 98 else p)"

definition PosixThread_new :: "bool \<Rightarrow> i32 \<Rightarrow> posix_thread" where
  "PosixThread_new real_time priority =
     \<lparr>fThread = False, fPriority = priority, fRealTime = real_time, fRunning = False, sched_priority = None\<rparr>"

definition PosixThread_Start :: "bool \<Rightarrow> posix_thread \<Rightarrow> bool \<times> posix_thread" where
  "PosixThread_Start ok th =
     (let th = th\<lparr>fRunning := True\<rparr>
      in if \<not> ok then (False, th)
         else (True, th\<lparr>fThread := True, sched_priority := (if fRealTime th then Some (clip_priority (fPriority th)) else None)\<rparr>))"

definition AcquireRealTime :: "bool \<Rightarrow> i32 \<Rightarrow> posix_thread \<Rightarrow> posix_thread" where
  "AcquireRealTime ok priority th =
     (let th = th\<lparr>fPriority := priority\<rparr>
      in if ok \<and> fThread th then th\<lparr>sched_priority := Some (clip_priority (fPriority th))\<rparr> else th)"

definition DropRealTime :: "bool \<Rightarrow> posix_thread \<Rightarrow> posix_thread" where
  "DropRealTime ok th = (if ok \<and> fThread th then th\<lparr>sched_priority := None\<rparr> else th)"

section \<open>Tasks\<close>

text \<open>The constructor leaves most members of the fresh object \<open>u\<close> alone; \<^verbatim>\<open>Init\<close> runs in the new thread.\<close>

definition IsoTask_new :: "iso_task \<Rightarrow> EHandlerType \<Rightarrow> iso_task" where
  "IsoTask_new u t =
     u\<lparr>m_SyncIsoHandler := None, m_handlerType := t, m_running := False, m_in_busreset := False,
       m_activity_wait_timeout_nsec := 1000000 * 1000\<rparr>"

definition IsoTask_Init :: "iso_task \<Rightarrow> iso_task" where
  "IsoTask_Init t =
     t\<lparr>request_update := 0,
       m_IsoHandler_map_shadow := replicate ISOHANDLERMANAGER_MAX_ISO_HANDLERS_PER_PORT None,
       m_poll_fds_shadow := map (events_update (\<lambda>_. 0)) (m_poll_fds_shadow t),
       m_poll_nfds_shadow := 0, m_activity_semaphore := 0, m_running := True\<rparr>"

definition signalActivity :: "iso_task \<Rightarrow> iso_task" where
  "signalActivity t = t\<lparr>m_activity_semaphore := Suc (m_activity_semaphore t)\<rparr>"

definition IsoTask_requestShadowMapUpdate :: "iso_task \<Rightarrow> iso_task" where
  "IsoTask_requestShadowMapUpdate t = signalActivity (t\<lparr>request_update := request_update t + 1\<rparr>)"

text \<open>The deadline of a wait: the nanoseconds are carried into the seconds.\<close>

function normalize_deadline :: "int \<Rightarrow> int \<Rightarrow> int \<times> int" where
  "normalize_deadline sec nsec =
     (if 1000000000 \<le> nsec then normalize_deadline (sec + 1) (nsec - 1000000000) else (sec, nsec))"
  by auto

termination
  by (relation "measure (\<lambda>(sec, nsec). nat nsec)") auto

datatype sem_result = Sem_ok | Sem_ETIMEDOUT | Sem_EINTR | Sem_EINVAL | Sem_failed

text \<open>
  Waiting: \<open>clock\<close> is the time in seconds and nanoseconds if it can be read, and \<open>wait\<close> the outcome of
  \<^verbatim>\<open>sem_timedwait\<close> for a deadline.
\<close>

definition waitForActivity ::
  "(int \<times> int) option \<Rightarrow> (int \<times> int \<Rightarrow> sem_result) \<Rightarrow> iso_task \<Rightarrow> eActivityResult \<times> iso_task" where
  "waitForActivity clock wait t =
     (case clock of
        None \<Rightarrow> (eAR_Error, t)
      | Some (sec, nsec) \<Rightarrow>
          (case wait (normalize_deadline sec (nsec + sint (m_activity_wait_timeout_nsec t))) of
             Sem_ok \<Rightarrow> (eAR_Activity, t\<lparr>m_activity_semaphore := m_activity_semaphore t - 1\<rparr>)
           | Sem_ETIMEDOUT \<Rightarrow> (eAR_Timeout, t)
           | Sem_EINTR \<Rightarrow> (eAR_Interrupted, t)
           | _ \<Rightarrow> (eAR_Error, t)))"

section \<open>Handlers and their clients\<close>

text \<open>
  The handler at an address, and an update of it in place. The methods of the streams are a table
  \<open>cl\<close> by address; a handler without a client never calls them.
\<close>

definition handler_at :: "iso_handler list \<Rightarrow> nat \<Rightarrow> iso_handler option" where
  "handler_at hs a = find (\<lambda>h. ih_addr h = a) hs"

definition set_handler :: "iso_handler \<Rightarrow> iso_handler list \<Rightarrow> iso_handler list" where
  "set_handler h hs = map (\<lambda>g. if ih_addr g = ih_addr h then h else g) hs"

definition client_addr :: "iso_handler \<Rightarrow> nat" where
  "client_addr h = (case m_Client h of None \<Rightarrow> 0 | Some a \<Rightarrow> a)"

definition handler_updateState ::
  "(nat \<Rightarrow> raw1394_calls) \<Rightarrow> (nat \<Rightarrow> 'c iso_client) \<Rightarrow> iso_handler \<Rightarrow> (nat \<Rightarrow> 'c) \<Rightarrow> (iso_handler \<times> (nat \<Rightarrow> 'c)) option" where
  "handler_updateState raw cl h st =
     (let a = client_addr h
      in map_option (\<lambda>(h, c). (h, st(a := c))) (IsoHandler_updateState (raw (ih_addr h)) (cl a) h (st a)))"

definition handler_busReset ::
  "(nat \<Rightarrow> 'c iso_client) \<Rightarrow> iso_handler \<Rightarrow> (nat \<Rightarrow> 'c) \<Rightarrow> (bool \<times> iso_handler \<times> (nat \<Rightarrow> 'c)) option" where
  "handler_busReset cl h st =
     (let a = client_addr h
      in map_option (\<lambda>(r, h, c). (r, h, st(a := c))) (IsoHandler_handleBusReset (cl a) h (st a)))"

definition handler_notifyOfDeath ::
  "(nat \<Rightarrow> 'c iso_client) \<Rightarrow> iso_handler \<Rightarrow> (nat \<Rightarrow> 'c) \<Rightarrow> (iso_handler \<times> (nat \<Rightarrow> 'c)) option" where
  "handler_notifyOfDeath cl h st =
     (let a = client_addr h in map_option (\<lambda>(h, c). (h, st(a := c))) (notifyOfDeath (cl a) h (st a)))"

definition handler_iterate ::
  "bool \<Rightarrow> (nat \<Rightarrow> 'c iso_client) \<Rightarrow> iso_callback list \<Rightarrow> bool \<Rightarrow> u32 \<Rightarrow> iso_handler \<Rightarrow> (nat \<Rightarrow> 'c)
   \<Rightarrow> (iso_handler \<times> (nat \<Rightarrow> 'c)) option" where
  "handler_iterate missed_ok cl cbs ok now h st =
     (let a = client_addr h
      in map_option (\<lambda>(_, h, c). (h, st(a := c))) (IsoHandler_iterate missed_ok (cl a) cbs ok now h (st a)))"

section \<open>The work of a task\<close>

text \<open>The body of the loop of \<^verbatim>\<open>updateShadowMapHelper\<close>: an enabled handler is entered at index \<open>cnt\<close>.\<close>

definition shadow_entry :: "iso_handler \<Rightarrow> nat \<Rightarrow> iso_task \<Rightarrow> (nat \<times> iso_task) option" where
  "shadow_entry h cnt t =
     (if isEnabled h then
        if length (m_IsoHandler_map_shadow t) \<le> cnt \<or> length (m_poll_fds_shadow t) \<le> cnt then None
        else Some (Suc cnt,
          t\<lparr>m_IsoHandler_map_shadow := (m_IsoHandler_map_shadow t)[cnt := Some (ih_addr h)],
            m_poll_fds_shadow := (m_poll_fds_shadow t)[cnt := \<lparr>events = POLLIN, revents = 0\<rparr>],
            m_SyncIsoHandler := (if m_SyncIsoHandler t = None \<and> m_type h = eHT_Transmit then Some (ih_addr h)
                                 else m_SyncIsoHandler t)\<rparr>)
      else Some (cnt, t))"

text \<open>The loop over the handlers of the manager.\<close>

fun updateShadowMap_loop ::
  "(nat \<Rightarrow> raw1394_calls) \<Rightarrow> (nat \<Rightarrow> 'c iso_client) \<Rightarrow> iso_handler list \<Rightarrow> nat \<Rightarrow> iso_task \<Rightarrow> (nat \<Rightarrow> 'c)
   \<Rightarrow> (iso_handler list \<times> nat \<times> iso_task \<times> (nat \<Rightarrow> 'c)) option" where
  "updateShadowMap_loop raw cl [] cnt t st = Some ([], cnt, t, st)"
| "updateShadowMap_loop raw cl (h # hs) cnt t st =
     (if m_type h \<noteq> m_handlerType t then
        map_option (\<lambda>(hs, r). (h # hs, r)) (updateShadowMap_loop raw cl hs cnt t st)
      else
        do {
          (h, st) \<leftarrow> handler_updateState raw cl h st;
          (cnt, t) \<leftarrow> shadow_entry h cnt t;
          if ISOHANDLERMANAGER_MAX_ISO_HANDLERS_PER_PORT < cnt then Some (h # hs, cnt, t, st)
          else map_option (\<lambda>(hs, r). (h # hs, r)) (updateShadowMap_loop raw cl hs cnt t st)
        })"

definition updateShadowMapHelper ::
  "(nat \<Rightarrow> raw1394_calls) \<Rightarrow> (nat \<Rightarrow> 'c iso_client) \<Rightarrow> iso_handler list \<Rightarrow> iso_task \<Rightarrow> (nat \<Rightarrow> 'c)
   \<Rightarrow> (iso_handler list \<times> iso_task \<times> (nat \<Rightarrow> 'c)) option" where
  "updateShadowMapHelper raw cl hs t st =
     (if m_in_busreset t then Some (hs, t\<lparr>m_poll_nfds_shadow := 0\<rparr>, st)
      else do {
        (hs, cnt, t, st) \<leftarrow> updateShadowMap_loop raw cl hs 0 (t\<lparr>m_SyncIsoHandler := None\<rparr>) st;
        let t = (if m_SyncIsoHandler t = None \<and> m_poll_nfds_shadow t \<noteq> 0
                 then t\<lparr>m_SyncIsoHandler := m_IsoHandler_map_shadow t ! 0\<rparr> else t);
        Some (hs, t\<lparr>m_poll_nfds_shadow := cnt\<rparr>, st)
      })"

text \<open>The first part of \<^verbatim>\<open>Execute\<close>: a requested update.\<close>

definition Execute_update ::
  "(nat \<Rightarrow> raw1394_calls) \<Rightarrow> (nat \<Rightarrow> 'c iso_client) \<Rightarrow> iso_handler list \<Rightarrow> iso_task \<Rightarrow> (nat \<Rightarrow> 'c)
   \<Rightarrow> (iso_handler list \<times> iso_task \<times> (nat \<Rightarrow> 'c)) option" where
  "Execute_update raw cl hs t st =
     (if request_update t \<noteq> 0 then
        do {
          (hs, t, st) \<leftarrow> updateShadowMapHelper raw cl hs t st;
          let t = t\<lparr>request_update := request_update t - 1\<rparr>;
          if request_update t <s 0 then None else Some (hs, t, st)
        }
      else Some (hs, t, st))"

text \<open>The loop that selects the handlers to poll, from index \<open>i\<close> on; the flag tells whether there is none.\<close>

fun select_handlers ::
  "(nat \<Rightarrow> 'c iso_client) \<Rightarrow> iso_handler list \<Rightarrow> (nat \<Rightarrow> 'c) \<Rightarrow> nat option list \<Rightarrow> pollfd list \<Rightarrow> (bool \<times> pollfd list) option" where
  "select_handlers cl hs st [] fds = Some (True, fds)"
| "select_handlers cl hs st (None # as) fds = None"
| "select_handlers cl hs st (Some a # as) [] = None"
| "select_handlers cl hs st (Some a # as) (fd # fds) =
     do {
       h \<leftarrow> handler_at hs a;
       can \<leftarrow> canIterateClient (cl (client_addr h)) h (st (client_addr h));
       (none, fds) \<leftarrow> select_handlers cl hs st as fds;
       Some (none \<and> \<not> can, fd\<lparr>events := (if can then POLLIN OR POLLPRI else 0)\<rparr> # fds)
     }"

text \<open>
  What happens while a task waits for activity: the clock, the outcome of the wait, and the stream processors
  after it, which other threads work on.
\<close>

record 'c wait_event =
  we_clock :: "(int \<times> int) option"
  we_wait :: "int \<times> int \<Rightarrow> sem_result"
  we_streams :: "nat \<Rightarrow> 'c"

datatype wait_outcome = Still_waiting | Wait_failed | Ready

text \<open>
  The loop that waits until there is something to poll. It may wait as long as nothing happens: when
  the events are used up, the task is still waiting.
\<close>

fun poll_setup ::
  "(nat \<Rightarrow> 'c iso_client) \<Rightarrow> iso_handler list \<Rightarrow> 'c wait_event list \<Rightarrow> iso_task \<Rightarrow> (nat \<Rightarrow> 'c)
   \<Rightarrow> (wait_outcome \<times> iso_task \<times> (nat \<Rightarrow> 'c)) option" where
  "poll_setup cl hs ws t st =
     (case select_handlers cl hs st (take (m_poll_nfds_shadow t) (m_IsoHandler_map_shadow t)) (m_poll_fds_shadow t) of
        None \<Rightarrow> None
      | Some (no_one_to_poll, fds) \<Rightarrow>
          let t = t\<lparr>m_poll_fds_shadow := fds\<rparr>
          in if \<not> no_one_to_poll then Some (Ready, t, st)
             else (case ws of
                     [] \<Rightarrow> Some (Still_waiting, t, st)
                   | w # ws \<Rightarrow>
                       (case waitForActivity (we_clock w) (we_wait w) t of
                          (eAR_Error, t) \<Rightarrow> Some (Wait_failed, t, we_streams w)
                        | (eAR_Timeout, t) \<Rightarrow> Some (Ready, t, we_streams w)
                        | (_, t) \<Rightarrow> poll_setup cl hs ws t (we_streams w))))"

text \<open>Whether a handler has died: it is stopped, or its last packet is more than two seconds before the time \<open>now\<close> in ticks.\<close>

definition check_handler ::
  "(nat \<Rightarrow> 'c iso_client) \<Rightarrow> u64 \<Rightarrow> iso_handler \<Rightarrow> iso_handler list \<Rightarrow> (nat \<Rightarrow> 'c)
   \<Rightarrow> (bool \<times> iso_handler list \<times> (nat \<Rightarrow> 'c)) option" where
  "check_handler cl now h hs st =
     (if \<not> isEnabled h then Some (True, hs, st)
      else if m_last_packet_handled_at h = 0xFFFFFFFF then Some (False, hs, st)
      else if 2 * ucast TICKS_PER_SECOND <s diffTicks now (CYCLE_TIMER_TO_TICKS (ucast (m_last_packet_handled_at h))) then
        map_option (\<lambda>(h, st). (True, set_handler h hs, st)) (handler_notifyOfDeath cl h st)
      else Some (False, hs, st))"

text \<open>The loop that looks for handlers that have died.\<close>

fun find_dead ::
  "(nat \<Rightarrow> 'c iso_client) \<Rightarrow> u64 \<Rightarrow> nat option list \<Rightarrow> iso_handler list \<Rightarrow> (nat \<Rightarrow> 'c)
   \<Rightarrow> (bool \<times> iso_handler list \<times> (nat \<Rightarrow> 'c)) option" where
  "find_dead cl now [] hs st = Some (False, hs, st)"
| "find_dead cl now (None # as) hs st = None"
| "find_dead cl now (Some a # as) hs st =
     do {
       h \<leftarrow> handler_at hs a;
       (died, hs, st) \<leftarrow> check_handler cl now h hs st;
       (died', hs, st) \<leftarrow> find_dead cl now as hs st;
       Some (died \<or> died', hs, st)
     }"

text \<open>The loop that iterates the handlers with events; \<open>cbs\<close> are the callbacks the library makes for a handler.\<close>

fun iterate_handlers ::
  "bool \<Rightarrow> (nat \<Rightarrow> 'c iso_client) \<Rightarrow> (nat \<Rightarrow> iso_callback list \<times> bool) \<Rightarrow> u32 \<Rightarrow> nat option list \<Rightarrow> pollfd list
   \<Rightarrow> iso_handler list \<Rightarrow> (nat \<Rightarrow> 'c) \<Rightarrow> (iso_handler list \<times> (nat \<Rightarrow> 'c)) option" where
  "iterate_handlers missed_ok cl cbs now [] fds hs st = Some (hs, st)"
| "iterate_handlers missed_ok cl cbs now (a # as) [] hs st = None"
| "iterate_handlers missed_ok cl cbs now (a # as) (fd # fds) hs st =
     (if revents fd AND POLLIN \<noteq> 0 then
        do {
          a \<leftarrow> a;
          h \<leftarrow> handler_at hs a;
          (h, st) \<leftarrow> handler_iterate missed_ok cl (fst (cbs a)) (snd (cbs a)) now h st;
          iterate_handlers missed_ok cl cbs now as fds (set_handler h hs) st
        }
      else iterate_handlers missed_ok cl cbs now as fds hs st)"

datatype poll_result = Poll_events "16 word list" | Poll_EINTR | Poll_failed

text \<open>
  What the system does in one round of \<^verbatim>\<open>Execute\<close>: the calls of the library that start handlers, the
  events while the task waits, the outcome of \<^verbatim>\<open>poll\<close> for the events asked for, the time after it and the
  callbacks.
\<close>

record 'c task_env =
  te_raw :: "nat \<Rightarrow> raw1394_calls"
  te_waits :: "'c wait_event list"
  te_poll :: "16 word list \<Rightarrow> poll_result"
  te_ctr :: u32
  te_callbacks :: "nat \<Rightarrow> iso_callback list \<times> bool"

text \<open>The last part of \<^verbatim>\<open>Execute\<close>, from the return of \<^verbatim>\<open>poll\<close> on.\<close>

definition Execute_polled ::
  "bool \<Rightarrow> (nat \<Rightarrow> 'c iso_client) \<Rightarrow> 'c task_env \<Rightarrow> iso_handler list \<Rightarrow> iso_task \<Rightarrow> (nat \<Rightarrow> 'c)
   \<Rightarrow> (bool \<times> iso_handler list \<times> iso_task \<times> (nat \<Rightarrow> 'c)) option" where
  "Execute_polled missed_ok cl e hs t st =
     (let nfds = m_poll_nfds_shadow t;
          shadow = take nfds (m_IsoHandler_map_shadow t)
      in case te_poll e (map events (take nfds (m_poll_fds_shadow t))) of
           Poll_EINTR \<Rightarrow> Some (True, hs, t, st)
         | Poll_failed \<Rightarrow> Some (False, hs, t\<lparr>m_running := False\<rparr>, st)
         | Poll_events evs \<Rightarrow>
             let fds = map2 (\<lambda>fd ev. fd\<lparr>revents := ev\<rparr>) (take nfds (m_poll_fds_shadow t)) evs;
                 t = t\<lparr>m_poll_fds_shadow := fds @ drop (length fds) (m_poll_fds_shadow t)\<rparr>
             in do {
               (died, hs, st) \<leftarrow> find_dead cl (CYCLE_TIMER_TO_TICKS (ucast (te_ctr e))) shadow hs st;
               if died then Some (True, hs, t\<lparr>m_running := False\<rparr>, st)
               else do {
                 (hs, st) \<leftarrow> iterate_handlers missed_ok cl (te_callbacks e) (te_ctr e) shadow (m_poll_fds_shadow t) hs st;
                 Some (True, hs, t, st)
               }
             })"

datatype execute_result = Blocked | Returned bool

definition IsoTask_Execute ::
  "bool \<Rightarrow> (nat \<Rightarrow> 'c iso_client) \<Rightarrow> 'c task_env \<Rightarrow> iso_handler list \<Rightarrow> iso_task \<Rightarrow> (nat \<Rightarrow> 'c)
   \<Rightarrow> (execute_result \<times> iso_handler list \<times> iso_task \<times> (nat \<Rightarrow> 'c)) option" where
  "IsoTask_Execute missed_ok cl e hs t st =
     do {
       (hs, t, st) \<leftarrow> Execute_update (te_raw e) cl hs t st;
       if m_poll_nfds_shadow t = 0 then Some (Returned True, hs, t, st)
       else do {
         (w, t, st) \<leftarrow> poll_setup cl hs (te_waits e) t st;
         case w of
           Still_waiting \<Rightarrow> Some (Blocked, hs, t, st)
         | Wait_failed \<Rightarrow> Some (Returned False, hs, t, st)
         | Ready \<Rightarrow> map_option (\<lambda>(r, x). (Returned r, x)) (Execute_polled missed_ok cl e hs t st)
       }
     }"

text \<open>The reaction of a task to a bus reset, which another thread calls for.\<close>

fun busReset_loop ::
  "(nat \<Rightarrow> 'c iso_client) \<Rightarrow> EHandlerType \<Rightarrow> iso_handler list \<Rightarrow> (nat \<Rightarrow> 'c) \<Rightarrow> (bool \<times> iso_handler list \<times> (nat \<Rightarrow> 'c)) option" where
  "busReset_loop cl ty [] st = Some (True, [], st)"
| "busReset_loop cl ty (h # hs) st =
     (if m_type h \<noteq> ty then map_option (\<lambda>(r, hs, st). (r, h # hs, st)) (busReset_loop cl ty hs st)
      else do {
        (ok, h, st) \<leftarrow> handler_busReset cl h st;
        (r, hs, st) \<leftarrow> busReset_loop cl ty hs st;
        Some (ok \<and> r, h # hs, st)
      })"

definition IsoTask_handleBusReset ::
  "(nat \<Rightarrow> 'c iso_client) \<Rightarrow> iso_handler list \<Rightarrow> iso_task \<Rightarrow> (nat \<Rightarrow> 'c)
   \<Rightarrow> (bool \<times> iso_handler list \<times> iso_task \<times> (nat \<Rightarrow> 'c)) option" where
  "IsoTask_handleBusReset cl hs t st =
     (if \<not> m_running t then Some (True, hs, t, st)
      else
        let t = IsoTask_requestShadowMapUpdate (t\<lparr>m_in_busreset := True\<rparr>)
        in do {
          (r, hs, st) \<leftarrow> busReset_loop cl (m_handlerType t) hs st;
          Some (r, hs, IsoTask_requestShadowMapUpdate (t\<lparr>m_in_busreset := False\<rparr>), st)
        })"

section \<open>The manager\<close>

text \<open>\<open>missed\<close> is the value of \<^verbatim>\<open>m_MissedCyclesOK\<close> in fresh memory for the constructor that does not set it.\<close>

definition IsoHandlerManager_new1 :: "bool \<Rightarrow> iso_manager" where
  "IsoHandlerManager_new1 missed =
     \<lparr>ihm_State = IHM_Created, m_IsoHandlers = [], m_StreamProcessors = [], m_realtime = False, m_priority = 0,
      m_IsoThreadTransmit = None, m_IsoTaskTransmit = None, m_IsoThreadReceive = None, m_IsoTaskReceive = None,
      m_MissedCyclesOK = missed, next_addr = 0\<rparr>"

definition IsoHandlerManager_new :: "bool \<Rightarrow> i32 \<Rightarrow> iso_manager" where
  "IsoHandlerManager_new run_rt rt_prio =
     \<lparr>ihm_State = IHM_Created, m_IsoHandlers = [], m_StreamProcessors = [], m_realtime = run_rt, m_priority = rt_prio,
      m_IsoThreadTransmit = None, m_IsoTaskTransmit = None, m_IsoThreadReceive = None, m_IsoTaskReceive = None,
      m_MissedCyclesOK = False, next_addr = 0\<rparr>"

definition setMissedCyclesOK :: "bool \<Rightarrow> iso_manager \<Rightarrow> iso_manager" where
  "setMissedCyclesOK ok m = m\<lparr>m_MissedCyclesOK := ok\<rparr>"

definition task_of :: "EHandlerType \<Rightarrow> iso_manager \<Rightarrow> iso_task option" where
  "task_of ty m = (if ty = eHT_Transmit then m_IsoTaskTransmit m else m_IsoTaskReceive m)"

definition set_task :: "EHandlerType \<Rightarrow> iso_task \<Rightarrow> iso_manager \<Rightarrow> iso_manager" where
  "set_task ty t m = (if ty = eHT_Transmit then m\<lparr>m_IsoTaskTransmit := Some t\<rparr> else m\<lparr>m_IsoTaskReceive := Some t\<rparr>)"

text \<open>An update of one task; \<open>None\<close> if there is no such task.\<close>

definition requestTaskUpdate :: "EHandlerType \<Rightarrow> iso_manager \<Rightarrow> iso_manager option" where
  "requestTaskUpdate ty m = map_option (\<lambda>t. set_task ty (IsoTask_requestShadowMapUpdate t) m) (task_of ty m)"

definition requestShadowMapUpdate :: "iso_manager \<Rightarrow> iso_manager" where
  "requestShadowMapUpdate m =
     m\<lparr>m_IsoTaskTransmit := map_option IsoTask_requestShadowMapUpdate (m_IsoTaskTransmit m),
       m_IsoTaskReceive := map_option IsoTask_requestShadowMapUpdate (m_IsoTaskReceive m)\<rparr>"

definition signalActivityTask :: "EHandlerType \<Rightarrow> iso_manager \<Rightarrow> iso_manager option" where
  "signalActivityTask ty m = map_option (\<lambda>t. set_task ty (signalActivity t) m) (task_of ty m)"

text \<open>\<open>ok_x\<close> and \<open>ok_r\<close>: whether the system changes the scheduling of the transmit and the receive thread.\<close>

definition setThreadParameters :: "iso_options \<Rightarrow> bool \<Rightarrow> bool \<Rightarrow> bool \<Rightarrow> i32 \<Rightarrow> iso_manager \<Rightarrow> iso_manager" where
  "setThreadParameters opts ok_x ok_r rt priority m =
     (let priority = (if 98 <s priority then 98 else priority);
          priority = (if priority <s 1 then 1 else priority);
          m = m\<lparr>m_realtime := rt, m_priority := priority\<rparr>;
          sched = (\<lambda>ok inc. map_option (\<lambda>th. if m_realtime m then AcquireRealTime ok (m_priority m + prio_increase opts + inc) th
                                             else DropRealTime ok th))
      in m\<lparr>m_IsoThreadTransmit := sched ok_x (prio_increase_xmit opts) (m_IsoThreadTransmit m),
           m_IsoThreadReceive := sched ok_r (prio_increase_recv opts) (m_IsoThreadReceive m)\<rparr>)"

text \<open>
  \<^verbatim>\<open>init\<close>: \<open>u_x\<close> and \<open>u_r\<close> are the fresh memory of the tasks, \<open>ok_x\<close> and \<open>ok_r\<close> whether the threads start. A thread that is
  started runs \<^verbatim>\<open>Init\<close> of its task some time later.
\<close>

definition IsoHandlerManager_init ::
  "iso_options \<Rightarrow> iso_task \<Rightarrow> iso_task \<Rightarrow> bool \<Rightarrow> bool \<Rightarrow> iso_manager \<Rightarrow> bool \<times> iso_manager" where
  "IsoHandlerManager_init opts u_x u_r ok_x ok_r m =
     (if ihm_State m \<noteq> IHM_Created then (False, m)
      else
        let t_x = (IsoTask_new u_x eHT_Transmit)\<lparr>m_activity_wait_timeout_nsec := isotask_activity_timeout_usecs opts * 1000\<rparr>;
            th_x = PosixThread_new (m_realtime m) (m_priority m + prio_increase opts + prio_increase_xmit opts);
            t_r = IsoTask_new u_r eHT_Receive;
            th_r = PosixThread_new (m_realtime m) (m_priority m + prio_increase opts + prio_increase_recv opts);
            m = m\<lparr>m_IsoTaskTransmit := Some t_x, m_IsoTaskReceive := Some t_r, m_IsoThreadReceive := Some th_r\<rparr>;
            (ok_x, th_x) = PosixThread_Start ok_x th_x;
            m = m\<lparr>m_IsoThreadTransmit := Some th_x\<rparr>
        in if \<not> ok_x then (False, m)
           else
             let (ok_r, th_r) = PosixThread_Start ok_r th_r;
                 m = m\<lparr>m_IsoThreadReceive := Some th_r\<rparr>
             in if \<not> ok_r then (False, m) else (True, m\<lparr>ihm_State := IHM_Running\<rparr>))"

definition registerHandler :: "iso_handler \<Rightarrow> iso_manager \<Rightarrow> bool \<times> iso_manager" where
  "registerHandler h m = (True, requestShadowMapUpdate (m\<lparr>m_IsoHandlers := m_IsoHandlers m @ [h]\<rparr>))"

definition unregisterHandler :: "nat \<Rightarrow> iso_manager \<Rightarrow> bool \<times> iso_manager" where
  "unregisterHandler a m =
     (case handler_at (m_IsoHandlers m) a of
        None \<Rightarrow> (False, m)
      | Some h \<Rightarrow> (True, requestShadowMapUpdate (m\<lparr>m_IsoHandlers := remove1 h (m_IsoHandlers m)\<rparr>)))"

text \<open>The destructor of a handler that is not in use: a running one is disabled, which calls its client.\<close>

definition delete_handler :: "iso_handler \<Rightarrow> unit option" where
  "delete_handler h =
     (if m_handle h \<and> ih_State h = eHS_Running then
        if m_Client h = None then None else Some ()
      else Some ())"

fun delete_unused :: "iso_handler list \<Rightarrow> iso_manager \<Rightarrow> iso_manager option" where
  "delete_unused [] m = Some m"
| "delete_unused (h # hs) m =
     (let m = snd (unregisterHandler (ih_addr h) m) in do { _ \<leftarrow> delete_handler h; delete_unused hs m })"

definition pruneHandlers :: "iso_manager \<Rightarrow> iso_manager option" where
  "pruneHandlers m = delete_unused (filter (\<lambda>h. \<not> inUse h) (m_IsoHandlers m)) m"

text \<open>The interval between interrupts, in packets; the division is unsigned.\<close>

definition irq_interval :: "u32 \<Rightarrow> i32 \<Rightarrow> i32 \<Rightarrow> i32 option" where
  "irq_interval packets_per_period min_interrupts buffers =
     (if min_interrupts = 0 then None
      else
        let irq = (packets_per_period - 1) div min_interrupts;
            irq = (if irq \<le>s 0 then 1 else irq);
            half = of_int (sint buffers sdiv 2)
        in Some (if half <s irq then half else irq))"

definition iso_receive_mode :: "iso_options \<Rightarrow> u32 \<Rightarrow> raw1394_iso_dma_recv_mode" where
  "iso_receive_mode opts packets_per_period =
     (if receive_mode_setting opts = 0 then
        if packets_per_period < bufferfill_mode_threshold opts then RAW1394_DMA_PACKET_PER_BUFFER else RAW1394_DMA_BUFFERFILL
      else if receive_mode_setting opts = 1 then RAW1394_DMA_PACKET_PER_BUFFER
      else if receive_mode_setting opts = 2 then RAW1394_DMA_BUFFERFILL
      else RAW1394_DMA_PACKET_PER_BUFFER)"

text \<open>The handler made for a stream: \<open>Some None\<close> if its packets are too large.\<close>

definition receive_handler_for :: "iso_options \<Rightarrow> u32 \<Rightarrow> (nat \<Rightarrow> u32) \<Rightarrow> nat \<Rightarrow> stream_info \<Rightarrow> iso_handler option option" where
  "receive_handler_for opts page_size junk a si =
     (let max_packet_size = si_max_packet_size si + 8
      in if page_size < max_packet_size then Some None
         else
           let max_packet_size = (if max_packet_size < min_packetsize_recv opts then min_packetsize_recv opts else max_packet_size);
               max_packet_size = (if max_packet_size < 200 then 200 else max_packet_size)
           in do {
             irq \<leftarrow> irq_interval (si_packets_per_period si) (min_interrupts_per_period opts) (max_nb_buffers_recv opts);
             Some (Some (setReceiveMode (iso_receive_mode opts (si_packets_per_period si))
               (IsoHandler_new junk a eHT_Receive (max_nb_buffers_recv opts) max_packet_size irq)))
           })"

definition transmit_handler_for :: "iso_options \<Rightarrow> (nat \<Rightarrow> u32) \<Rightarrow> nat \<Rightarrow> stream_info \<Rightarrow> iso_handler option option" where
  "transmit_handler_for opts junk a si =
     (let max_packet_size = si_max_packet_size si + 8
      in if max_packetsize_xmit opts < max_packet_size then Some None
         else
           let max_packet_size = (if max_packet_size < min_packetsize_xmit opts then min_packetsize_xmit opts else max_packet_size)
           in do {
             irq \<leftarrow> irq_interval (si_packets_per_period si) (min_interrupts_per_period opts) (max_nb_buffers_xmit opts);
             Some (Some (IsoHandler_new junk a eHT_Transmit (max_nb_buffers_xmit opts) max_packet_size irq))
           })"

definition IsoHandlerManager_registerStream ::
  "iso_options \<Rightarrow> u32 \<Rightarrow> (nat \<Rightarrow> u32) \<Rightarrow> nat \<Rightarrow> stream_info \<Rightarrow> iso_manager \<Rightarrow> (bool \<times> iso_manager) option" where
  "IsoHandlerManager_registerStream opts page_size junk stream si m =
     (if \<exists>h \<in> set (m_IsoHandlers m). isStreamRegistered stream h then Some (False, m)
      else do {
        m \<leftarrow> pruneHandlers m;
        let a = next_addr m;
        new \<leftarrow> (if si_type si = ePT_Receive then receive_handler_for opts page_size junk a si
                else transmit_handler_for opts junk a si);
        case new of
          None \<Rightarrow> Some (False, m)
        | Some h \<Rightarrow>
            let m = m\<lparr>next_addr := Suc a\<rparr>;
                (ok, h) = IsoHandler_registerStream stream h
            in if \<not> ok then Some (False, m)
               else let (ok, m) = registerHandler h m
                    in if \<not> ok then Some (False, m)
                       else Some (True, m\<lparr>m_StreamProcessors := m_StreamProcessors m @ [stream]\<rparr>)
      })"

text \<open>The loop that detaches the stream from its handlers; the flag is set if one refuses.\<close>

fun unregister_loop :: "nat \<Rightarrow> iso_handler list \<Rightarrow> bool \<times> iso_handler list" where
  "unregister_loop stream [] = (True, [])"
| "unregister_loop stream (h # hs) =
     (if isStreamRegistered stream h then
        let (ok, h) = IsoHandler_unregisterStream stream h
        in if \<not> ok then (False, h # hs) else let (ok, hs) = unregister_loop stream hs in (ok, h # hs)
      else let (ok, hs) = unregister_loop stream hs in (ok, h # hs))"

definition IsoHandlerManager_unregisterStream :: "nat \<Rightarrow> iso_manager \<Rightarrow> (bool \<times> iso_manager) option" where
  "IsoHandlerManager_unregisterStream stream m =
     (let (ok, hs) = unregister_loop stream (m_IsoHandlers m);
          m = m\<lparr>m_IsoHandlers := hs\<rparr>
      in if \<not> ok then Some (False, m)
         else do {
           m \<leftarrow> pruneHandlers m;
           if stream \<in> set (m_StreamProcessors m)
           then Some (True, m\<lparr>m_StreamProcessors := remove1 stream (m_StreamProcessors m)\<rparr>)
           else Some (False, m)
         })"

definition getHandlerForStream :: "nat \<Rightarrow> iso_manager \<Rightarrow> iso_handler option" where
  "getHandlerForStream stream m = find (isStreamRegistered stream) (m_IsoHandlers m)"

definition getPacketLatencyForStream :: "nat \<Rightarrow> iso_manager \<Rightarrow> i32" where
  "getPacketLatencyForStream stream m =
     (case getHandlerForStream stream m of None \<Rightarrow> 0 | Some h \<Rightarrow> m_irq_interval h)"

definition setIsoStartCycleForStream :: "nat \<Rightarrow> i32 \<Rightarrow> iso_manager \<Rightarrow> iso_manager option" where
  "setIsoStartCycleForStream stream cycle m =
     do {
       h \<leftarrow> getHandlerForStream stream m;
       Some (m\<lparr>m_IsoHandlers := set_handler (setIsoStartCycle cycle h) (m_IsoHandlers m)\<rparr>)
     }"

definition ihm_startHandlerForStream :: "nat \<Rightarrow> i32 \<Rightarrow> iso_manager \<Rightarrow> (bool \<times> iso_manager) option" where
  "ihm_startHandlerForStream stream cycle m =
     (if ihm_State m \<noteq> IHM_Running then Some (False, m)
      else case getHandlerForStream stream m of
             None \<Rightarrow> Some (False, m)
           | Some h \<Rightarrow>
               let (ok, h) = requestEnable cycle h
               in if \<not> ok then Some (False, m)
                  else map_option (Pair True) (requestTaskUpdate (m_type h) (m\<lparr>m_IsoHandlers := set_handler h (m_IsoHandlers m)\<rparr>)))"

definition ihm_stopHandlerForStream :: "nat \<Rightarrow> iso_manager \<Rightarrow> (bool \<times> iso_manager) option" where
  "ihm_stopHandlerForStream stream m =
     (if ihm_State m \<noteq> IHM_Running then Some (False, m)
      else case getHandlerForStream stream m of
             None \<Rightarrow> Some (False, m)
           | Some h \<Rightarrow>
               let (ok, h) = requestDisable h
               in if \<not> ok then Some (False, m)
                  else map_option (Pair True) (requestTaskUpdate (m_type h) (m\<lparr>m_IsoHandlers := set_handler h (m_IsoHandlers m)\<rparr>)))"

fun stopHandlers_loop :: "iso_handler list \<Rightarrow> iso_manager \<Rightarrow> (bool \<times> iso_manager) option" where
  "stopHandlers_loop [] m = Some (True, m)"
| "stopHandlers_loop (h # hs) m =
     (let (ok, h) = requestDisable h
      in if \<not> ok then Some (False, m)
         else do {
           m \<leftarrow> requestTaskUpdate (m_type h) (m\<lparr>m_IsoHandlers := set_handler h (m_IsoHandlers m)\<rparr>);
           stopHandlers_loop hs m
         })"

definition stopHandlers :: "iso_manager \<Rightarrow> (bool \<times> iso_manager) option" where
  "stopHandlers m =
     (if ihm_State m \<noteq> IHM_Running then Some (False, m) else stopHandlers_loop (m_IsoHandlers m) m)"

definition IsoHandlerManager_reset :: "iso_manager \<Rightarrow> (bool \<times> iso_manager) option" where
  "IsoHandlerManager_reset m = (if ihm_State m = IHM_Error then Some (False, m) else stopHandlers m)"

text \<open>One round of the thread of a task, and its start.\<close>

definition task_init :: "EHandlerType \<Rightarrow> iso_manager \<Rightarrow> iso_manager option" where
  "task_init ty m = map_option (\<lambda>t. set_task ty (IsoTask_Init t) m) (task_of ty m)"

definition task_execute ::
  "(nat \<Rightarrow> 'c iso_client) \<Rightarrow> 'c task_env \<Rightarrow> EHandlerType \<Rightarrow> iso_manager \<Rightarrow> (nat \<Rightarrow> 'c)
   \<Rightarrow> (execute_result \<times> iso_manager \<times> (nat \<Rightarrow> 'c)) option" where
  "task_execute cl e ty m st =
     do {
       t \<leftarrow> task_of ty m;
       (r, hs, t, st) \<leftarrow> IsoTask_Execute (m_MissedCyclesOK m) cl e (m_IsoHandlers m) t st;
       Some (r, set_task ty t (m\<lparr>m_IsoHandlers := hs\<rparr>), st)
     }"

definition task_busReset ::
  "(nat \<Rightarrow> 'c iso_client) \<Rightarrow> EHandlerType \<Rightarrow> iso_manager \<Rightarrow> (nat \<Rightarrow> 'c) \<Rightarrow> (iso_manager \<times> (nat \<Rightarrow> 'c)) option" where
  "task_busReset cl ty m st =
     do {
       t \<leftarrow> task_of ty m;
       (_, hs, t, st) \<leftarrow> IsoTask_handleBusReset cl (m_IsoHandlers m) t st;
       Some (set_task ty t (m\<lparr>m_IsoHandlers := hs\<rparr>), st)
     }"

definition IsoHandlerManager_handleBusReset ::
  "(nat \<Rightarrow> 'c iso_client) \<Rightarrow> iso_manager \<Rightarrow> (nat \<Rightarrow> 'c) \<Rightarrow> (bool \<times> iso_manager \<times> (nat \<Rightarrow> 'c)) option" where
  "IsoHandlerManager_handleBusReset cl m st =
     (if m_IsoTaskTransmit m = None then Some (False, m, st)
      else if m_IsoTaskReceive m = None then Some (False, m, st)
      else do {
        (m, st) \<leftarrow> task_busReset cl eHT_Transmit m st;
        (m, st) \<leftarrow> task_busReset cl eHT_Receive m st;
        Some (True, m, st)
      })"

section \<open>The deadline of a wait\<close>

lemma normalize_deadline_sum: "fst (normalize_deadline s n) * 1000000000 + snd (normalize_deadline s n) = s * 1000000000 + n"
  by (induction s n rule: normalize_deadline.induct) (subst (1 2) normalize_deadline.simps, simp)

lemma normalize_deadline_range:
  "snd (normalize_deadline s n) < 1000000000 \<and> (0 \<le> n \<longrightarrow> 0 \<le> snd (normalize_deadline s n))"
  by (induction s n rule: normalize_deadline.induct) (subst (1 2) normalize_deadline.simps, simp)

section \<open>What operations keep of the handlers\<close>

text \<open>The part of a handler that no operation on it changes, and the state it has to be in.\<close>

definition shape_of :: "iso_handler \<Rightarrow> nat \<times> EHandlerType \<times> nat option" where
  "shape_of h = (ih_addr h, m_type h, m_Client h)"

definition handler_ok :: "iso_handler \<Rightarrow> bool" where
  "handler_ok h \<longleftrightarrow> m_Client h \<noteq> None \<and> (m_handle h \<longleftrightarrow> isEnabled h)"

text \<open>The library starts a handler completely or does not give a handle.\<close>

definition starts_cleanly :: "(nat \<Rightarrow> raw1394_calls) \<Rightarrow> bool" where
  "starts_cleanly raw \<longleftrightarrow> (\<forall>a. raw1394_new_handle (raw a) \<longrightarrow> raw1394_iso_init (raw a) \<and> raw1394_iso_start (raw a))"

lemma shape_of_eq [simp]: "shape_of g = shape_of h \<longleftrightarrow> ih_addr g = ih_addr h \<and> m_type g = m_type h \<and> m_Client g = m_Client h"
  by (simp add: shape_of_def)

lemma enable_keeps:
  assumes "IsoHandler_enable raw cycle h = Some (r, h')"
  shows "shape_of h' = shape_of h"
  using assms by (auto simp: IsoHandler_enable_def Let_def split: if_splits)

lemma handler_updateState_keeps:
  assumes "handler_updateState raw cl h st = Some (h', st')"
  shows "shape_of h' = shape_of h" and "starts_cleanly raw \<Longrightarrow> handler_ok h \<Longrightarrow> handler_ok h'"
  using assms
  by (auto simp: handler_updateState_def IsoHandler_updateState_def IsoHandler_enable_def IsoHandler_disable_def handler_ok_def
    isEnabled_def starts_cleanly_def Let_def bind_eq_Some_conv split: if_splits)

lemma handler_updateState_total:
  assumes "handler_ok h"
  shows "handler_updateState raw cl h st \<noteq> None"
  using assms
  by (auto simp: handler_updateState_def IsoHandler_updateState_def IsoHandler_enable_def IsoHandler_disable_def handler_ok_def
    isEnabled_def Let_def)

lemma handler_busReset_keeps:
  assumes "handler_busReset cl h st = Some (r, h', st')"
  shows "shape_of h' = shape_of h" and "handler_ok h \<Longrightarrow> handler_ok h'"
  using assms
  by (auto simp: handler_busReset_def IsoHandler_handleBusReset_def handler_ok_def isEnabled_def Let_def split: if_splits prod.splits)

lemma notifyOfDeath_keeps:
  assumes "handler_notifyOfDeath cl h st = Some (h', st')"
  shows "shape_of h' = shape_of h" and "handler_ok h \<Longrightarrow> handler_ok h'"
  using assms
  by (auto simp: handler_notifyOfDeath_def notifyOfDeath_def IsoHandler_disable_def handler_ok_def isEnabled_def Let_def bind_eq_Some_conv
    split: if_splits)

lemma notifyOfDeath_total: "handler_ok h \<Longrightarrow> handler_notifyOfDeath cl h st \<noteq> None"
  by (auto simp: handler_notifyOfDeath_def notifyOfDeath_def IsoHandler_disable_def handler_ok_def isEnabled_def Let_def)

lemma putPacket_keeps:
  assumes "IsoHandler_putPacket mo cl data len ch tag sy cycle h c = Some (r, h', c')"
  shows "shape_of h' = shape_of h" and "handler_ok h' = handler_ok h"
  using assms by (auto simp: IsoHandler_putPacket_def handler_ok_def isEnabled_def Let_def bind_eq_Some_conv split: if_splits)

lemma getPacket_keeps:
  assumes "IsoHandler_getPacket cl x cycle skipped h c = Some (r, x', h', c')"
  shows "shape_of h' = shape_of h" and "handler_ok h' = handler_ok h"
  using assms
  by (auto simp: IsoHandler_getPacket_def handler_ok_def isEnabled_def Let_def bind_eq_Some_conv split_beta split: if_splits)

lemma run_callbacks_keeps:
  assumes "run_callbacks mo cl cbs h c = Some (rs, h', c')"
  shows "shape_of h' = shape_of h \<and> handler_ok h' = handler_ok h"
  using assms
proof (induction cbs arbitrary: h c rs)
  case Nil
  then show ?case by simp
next
  case (Cons cb cbs)
  obtain h1 c1 rs1 where "shape_of h1 = shape_of h" "handler_ok h1 = handler_ok h" "run_callbacks mo cl cbs h1 c1 = Some (rs1, h', c')"
    using Cons.prems
    by (cases cb)
      (auto simp: bind_eq_Some_conv iso_receive_handler_def iso_transmit_handler_def Let_def simp del: shape_of_eq,
       (metis putPacket_keeps getPacket_keeps)+)
  then show ?case using Cons.IH [of h1 c1 rs1] by simp
qed

lemma handler_iterate_keeps:
  assumes "handler_iterate mo cl cbs ok now h st = Some (h', st')"
  shows "shape_of h' = shape_of h" and "handler_ok h \<Longrightarrow> handler_ok h'"
  using assms
  by (auto simp: handler_iterate_def IsoHandler_iterate_def Let_def bind_eq_Some_conv handler_ok_def isEnabled_def
    split: if_splits dest!: run_callbacks_keeps)

lemma request_keeps:
  shows "shape_of (snd (requestEnable cycle h)) = shape_of h" and "handler_ok (snd (requestEnable cycle h)) = handler_ok h"
    and "shape_of (snd (requestDisable h)) = shape_of h" and "handler_ok (snd (requestDisable h)) = handler_ok h"
    and "shape_of (setIsoStartCycle cycle h) = shape_of h" and "handler_ok (setIsoStartCycle cycle h) = handler_ok h"
  by (simp_all add: requestEnable_def requestDisable_def setIsoStartCycle_def handler_ok_def isEnabled_def)

text \<open>The same handlers, in the same order, and still in order.\<close>

definition keeps :: "iso_handler list \<Rightarrow> iso_handler list \<Rightarrow> bool" where
  "keeps hs hs' \<longleftrightarrow> map shape_of hs' = map shape_of hs \<and> ((\<forall>h\<in>set hs. handler_ok h) \<longrightarrow> (\<forall>h\<in>set hs'. handler_ok h))"

lemma keeps_refl [simp]: "keeps hs hs"
  by (simp add: keeps_def)

lemma keeps_trans: "keeps hs hs1 \<Longrightarrow> keeps hs1 hs2 \<Longrightarrow> keeps hs hs2"
  by (simp add: keeps_def)

lemma keeps_Nil [simp]: "keeps [] hs \<longleftrightarrow> hs = []"
  by (auto simp: keeps_def)

lemma keeps_Cons: "shape_of h' = shape_of h \<Longrightarrow> (handler_ok h \<longrightarrow> handler_ok h') \<Longrightarrow> keeps hs hs' \<Longrightarrow> keeps (h # hs) (h' # hs')"
  by (simp add: keeps_def)

lemma keeps_maps:
  assumes "keeps hs hs'"
  shows "map ih_addr hs' = map ih_addr hs" and "map m_Client hs' = map m_Client hs" and "map m_type hs' = map m_type hs"
    and "length hs' = length hs"
proof -
  have s: "map shape_of hs' = map shape_of hs" using assms by (simp add: keeps_def)
  show "map ih_addr hs' = map ih_addr hs" using arg_cong [OF s, of "map fst"] by (simp add: shape_of_def comp_def)
  show "map m_Client hs' = map m_Client hs" using arg_cong [OF s, of "map (snd \<circ> snd)"] by (simp add: shape_of_def comp_def)
  show "map m_type hs' = map m_type hs" using arg_cong [OF s, of "map (fst \<circ> snd)"] by (simp add: shape_of_def comp_def)
  show "length hs' = length hs" using s by (rule map_eq_imp_length_eq)
qed

lemma handler_at_Some: "handler_at hs a = Some h \<Longrightarrow> h \<in> set hs \<and> ih_addr h = a"
  by (auto simp: handler_at_def find_Some_iff)

lemma handler_at_member: "distinct (map ih_addr hs) \<Longrightarrow> h \<in> set hs \<Longrightarrow> handler_at hs (ih_addr h) = Some h"
  by (induction hs) (auto simp: handler_at_def)

lemma handler_at_ex: "a \<in> ih_addr ` set hs \<Longrightarrow> \<exists>h. handler_at hs a = Some h"
  by (induction hs) (auto simp: handler_at_def)

lemma set_handler_keeps:
  assumes "distinct (map ih_addr hs)" and "g \<in> set hs" and "shape_of h = shape_of g" and "handler_ok g \<longrightarrow> handler_ok h"
  shows "keeps hs (set_handler h hs)"
proof -
  have "inj_on ih_addr (set hs)" using assms(1) by (simp add: distinct_map)
  then have *: "shape_of h = shape_of f \<and> (handler_ok f \<longrightarrow> handler_ok h)" if "ih_addr f = ih_addr h" "f \<in> set hs" for f
    using assms(2-4) that by (metis inj_onD shape_of_eq)
  show ?thesis
    unfolding keeps_def set_handler_def using * by (auto simp del: shape_of_eq)
qed

text \<open>The handlers a task has to serve.\<close>

definition enabled_of :: "EHandlerType \<Rightarrow> iso_handler list \<Rightarrow> iso_handler list" where
  "enabled_of ty hs = filter (\<lambda>h. m_type h = ty \<and> isEnabled h) hs"

definition task_ok :: "EHandlerType \<Rightarrow> iso_task \<Rightarrow> bool" where
  "task_ok ty t \<longleftrightarrow> m_handlerType t = ty
     \<and> length (m_IsoHandler_map_shadow t) = ISOHANDLERMANAGER_MAX_ISO_HANDLERS_PER_PORT
     \<and> length (m_poll_fds_shadow t) = ISOHANDLERMANAGER_MAX_ISO_HANDLERS_PER_PORT"

lemma shadow_entry_ok:
  assumes "shadow_entry h cnt t = Some (cnt', t')" and "task_ok ty t" and "m_type h = ty"
    and "cnt \<le> ISOHANDLERMANAGER_MAX_ISO_HANDLERS_PER_PORT"
  shows "cnt' = cnt + length (enabled_of ty [h]) \<and> cnt' \<le> ISOHANDLERMANAGER_MAX_ISO_HANDLERS_PER_PORT \<and> task_ok ty t'
    \<and> take cnt' (m_IsoHandler_map_shadow t') = take cnt (m_IsoHandler_map_shadow t) @ map (Some \<circ> ih_addr) (enabled_of ty [h])
    \<and> request_update t' = request_update t \<and> m_running t' = m_running t \<and> m_in_busreset t' = m_in_busreset t"
proof (cases "isEnabled h")
  case True
  then have c: "cnt < ISOHANDLERMANAGER_MAX_ISO_HANDLERS_PER_PORT"
    using assms(1,2) by (cases "cnt < ISOHANDLERMANAGER_MAX_ISO_HANDLERS_PER_PORT") (simp_all add: shadow_entry_def task_ok_def)
  have "\<not> (length (m_IsoHandler_map_shadow t) \<le> cnt \<or> length (m_poll_fds_shadow t) \<le> cnt)"
    using c assms(2) by (simp add: task_ok_def)
  then show ?thesis using c True assms by (auto simp: shadow_entry_def enabled_of_def task_ok_def take_Suc_conv_app_nth)
next
  case False
  then show ?thesis using assms by (simp add: shadow_entry_def enabled_of_def)
qed

lemma shadow_entry_total:
  assumes "task_ok ty t" and "cnt < ISOHANDLERMANAGER_MAX_ISO_HANDLERS_PER_PORT"
  shows "shadow_entry h cnt t \<noteq> None"
  using assms by (simp add: shadow_entry_def task_ok_def)

lemma updateShadowMap_loop_ok:
  assumes "updateShadowMap_loop raw cl hs cnt t st = Some (hs', cnt', t', st')" and "task_ok ty t"
    and "cnt \<le> ISOHANDLERMANAGER_MAX_ISO_HANDLERS_PER_PORT"
  shows "cnt' = cnt + length (enabled_of ty hs') \<and> cnt' \<le> ISOHANDLERMANAGER_MAX_ISO_HANDLERS_PER_PORT \<and> task_ok ty t'
    \<and> take cnt' (m_IsoHandler_map_shadow t') = take cnt (m_IsoHandler_map_shadow t) @ map (Some \<circ> ih_addr) (enabled_of ty hs')
    \<and> request_update t' = request_update t \<and> m_running t' = m_running t \<and> m_in_busreset t' = m_in_busreset t"
  using assms
proof (induction hs arbitrary: cnt t st hs')
  case Nil
  then show ?case by (auto simp: enabled_of_def)
next
  case (Cons h hs)
  have cons: "enabled_of ty (g # gs) = enabled_of ty [g] @ enabled_of ty gs" for g gs by (simp add: enabled_of_def)
  show ?case
  proof (cases "m_type h = ty")
    case False
    then have "m_type h \<noteq> m_handlerType t" using Cons.prems(2) by (simp add: task_ok_def)
    then obtain hs1 where r: "hs' = h # hs1" "updateShadowMap_loop raw cl hs cnt t st = Some (hs1, cnt', t', st')"
      using Cons.prems(1) by auto
    show ?thesis using Cons.IH [OF r(2) Cons.prems(2,3)] False by (auto simp: r(1) enabled_of_def)
  next
    case True
    then have "\<not> m_type h \<noteq> m_handlerType t" using Cons.prems(2) by (simp add: task_ok_def)
    then obtain h1 st1 cnt1 t1 where h1: "handler_updateState raw cl h st = Some (h1, st1)" and e: "shadow_entry h1 cnt t = Some (cnt1, t1)"
      and rest: "(if ISOHANDLERMANAGER_MAX_ISO_HANDLERS_PER_PORT < cnt1 then Some (h1 # hs, cnt1, t1, st1)
          else map_option (\<lambda>(hs, r). (h1 # hs, r)) (updateShadowMap_loop raw cl hs cnt1 t1 st1)) = Some (hs', cnt', t', st')"
      using Cons.prems(1) by (auto simp: bind_eq_Some_conv)
    have "m_type h1 = ty" using handler_updateState_keeps(1) [OF h1] True by simp
    note e1 = shadow_entry_ok [OF e Cons.prems(2) this Cons.prems(3)]
    then obtain hs1 where r: "hs' = h1 # hs1" "updateShadowMap_loop raw cl hs cnt1 t1 st1 = Some (hs1, cnt', t', st')"
      using rest by auto
    show ?thesis using Cons.IH [OF r(2)] e1 by (clarsimp simp: r(1) cons [of h1 hs1] add.assoc comp_def)
  qed
qed

lemma updateShadowMap_loop_keeps:
  assumes "updateShadowMap_loop raw cl hs cnt t st = Some (hs', cnt', t', st')" and "starts_cleanly raw"
  shows "keeps hs hs'"
  using assms
proof (induction hs arbitrary: cnt t st hs')
  case (Cons h hs)
  show ?case
  proof (cases "m_type h = m_handlerType t")
    case True
    then obtain h1 st1 cnt1 t1 where h1: "handler_updateState raw cl h st = Some (h1, st1)"
      and rest: "(if ISOHANDLERMANAGER_MAX_ISO_HANDLERS_PER_PORT < cnt1 then Some (h1 # hs, cnt1, t1, st1)
          else map_option (\<lambda>(hs, r). (h1 # hs, r)) (updateShadowMap_loop raw cl hs cnt1 t1 st1)) = Some (hs', cnt', t', st')"
      using Cons.prems(1) by (auto simp: bind_eq_Some_conv)
    then obtain hs1 where hs': "hs' = h1 # hs1"
      and "hs1 = hs \<or> updateShadowMap_loop raw cl hs cnt1 t1 st1 = Some (hs1, cnt', t', st')"
      by (cases "ISOHANDLERMANAGER_MAX_ISO_HANDLERS_PER_PORT < cnt1") auto
    then have "keeps hs hs1" using Cons.IH Cons.prems(2) by auto
    then show ?thesis unfolding hs' using handler_updateState_keeps [OF h1] Cons.prems(2) by (intro keeps_Cons) auto
  next
    case False
    then show ?thesis using Cons.prems Cons.IH [where cnt = cnt and t = t and st = st] by (auto intro!: keeps_Cons)
  qed
qed simp

lemma updateShadowMap_loop_total:
  assumes "\<forall>h\<in>set hs. handler_ok h" and "task_ok ty t"
    and "cnt + length (filter (\<lambda>h. m_type h = ty) hs) \<le> ISOHANDLERMANAGER_MAX_ISO_HANDLERS_PER_PORT"
  shows "updateShadowMap_loop raw cl hs cnt t st \<noteq> None"
  using assms
proof (induction hs arbitrary: cnt t st)
  case (Cons h hs)
  show ?case
  proof (cases "m_type h = ty")
    case True
    then have ty: "\<not> m_type h \<noteq> m_handlerType t" using Cons.prems(2) by (simp add: task_ok_def)
    obtain h1 st1 where h1: "handler_updateState raw cl h st = Some (h1, st1)"
      using handler_updateState_total [of h raw cl st] Cons.prems(1) by auto
    obtain cnt1 t1 where e: "shadow_entry h1 cnt t = Some (cnt1, t1)"
      using shadow_entry_total [OF Cons.prems(2), of cnt h1] Cons.prems(3) True by auto
    have "task_ok ty t1 \<and> cnt1 \<le> Suc cnt"
      using shadow_entry_ok [OF e Cons.prems(2)] handler_updateState_keeps(1) [OF h1] True Cons.prems(3) by (auto simp: enabled_of_def)
    then have "updateShadowMap_loop raw cl hs cnt1 t1 st1 \<noteq> None" using Cons.prems(1,3) True by (intro Cons.IH) auto
    then show ?thesis using ty h1 e by (simp del: not_None_eq)
  next
    case False
    then have "m_type h \<noteq> m_handlerType t" using Cons.prems(2) by (simp add: task_ok_def)
    then show ?thesis using False Cons.prems Cons.IH [where cnt = cnt and t = t and st = st] by auto
  qed
qed simp

lemma updateShadowMapHelper_ok:
  assumes "updateShadowMapHelper raw cl hs t st = Some (hs', t', st')" and "task_ok ty t" and "starts_cleanly raw"
  shows "keeps hs hs' \<and> task_ok ty t' \<and> request_update t' = request_update t \<and> m_running t' = m_running t \<and> m_in_busreset t' = m_in_busreset t
    \<and> m_poll_nfds_shadow t' \<le> ISOHANDLERMANAGER_MAX_ISO_HANDLERS_PER_PORT
    \<and> take (m_poll_nfds_shadow t') (m_IsoHandler_map_shadow t') =
        (if m_in_busreset t then [] else map (Some \<circ> ih_addr) (enabled_of ty hs'))"
proof (cases "m_in_busreset t")
  case True
  then show ?thesis using assms by (auto simp: updateShadowMapHelper_def task_ok_def)
next
  case False
  then obtain cnt t1 where l: "updateShadowMap_loop raw cl hs 0 (t\<lparr>m_SyncIsoHandler := None\<rparr>) st = Some (hs', cnt, t1, st')"
    and t': "t' = t1\<lparr>m_poll_nfds_shadow := cnt\<rparr> \<or> (\<exists>y. t' = t1\<lparr>m_SyncIsoHandler := y, m_poll_nfds_shadow := cnt\<rparr>)"
    using assms(1) by (auto simp: updateShadowMapHelper_def bind_eq_Some_conv Let_def split: if_split_asm)
  have "task_ok ty (t\<lparr>m_SyncIsoHandler := None\<rparr>)" using assms(2) by (simp add: task_ok_def)
  from updateShadowMap_loop_ok [OF l this] updateShadowMap_loop_keeps [OF l assms(3)] show ?thesis
    using t' False by (auto simp: task_ok_def)
qed

lemma updateShadowMapHelper_total:
  assumes "\<forall>h\<in>set hs. handler_ok h" and "task_ok ty t"
    and "length (filter (\<lambda>h. m_type h = ty) hs) \<le> ISOHANDLERMANAGER_MAX_ISO_HANDLERS_PER_PORT"
  shows "updateShadowMapHelper raw cl hs t st \<noteq> None"
proof -
  have "updateShadowMap_loop raw cl hs 0 (t\<lparr>m_SyncIsoHandler := None\<rparr>) st \<noteq> None"
    by (rule updateShadowMap_loop_total [OF assms(1), of ty]) (use assms(2,3) in \<open>simp_all add: task_ok_def\<close>)
  then show ?thesis by (auto simp: updateShadowMapHelper_def Let_def)
qed

lemma Execute_update_ok:
  assumes "Execute_update raw cl hs t st = Some (hs', t', st')" and "task_ok ty t" and "starts_cleanly raw"
  shows "keeps hs hs' \<and> task_ok ty t' \<and> m_running t' = m_running t \<and> m_in_busreset t' = m_in_busreset t
    \<and> (if request_update t = 0 then hs' = hs \<and> t' = t
       else request_update t' = request_update t - 1 \<and> 0 \<le>s request_update t'
        \<and> m_poll_nfds_shadow t' \<le> ISOHANDLERMANAGER_MAX_ISO_HANDLERS_PER_PORT
        \<and> take (m_poll_nfds_shadow t') (m_IsoHandler_map_shadow t') =
            (if m_in_busreset t then [] else map (Some \<circ> ih_addr) (enabled_of ty hs')))"
proof (cases "request_update t = 0")
  case True
  then show ?thesis using assms(1,2) by (simp add: Execute_update_def)
next
  case False
  then obtain t1 where "updateShadowMapHelper raw cl hs t st = Some (hs', t1, st')" "\<not> request_update t1 - 1 <s 0"
    "t' = t1\<lparr>request_update := request_update t1 - 1\<rparr>"
    using assms(1) by (auto simp: Execute_update_def bind_eq_Some_conv Let_def split: if_splits)
  with updateShadowMapHelper_ok [OF this(1) assms(2,3)] False show ?thesis
    by (simp add: task_ok_def word_sle_eq word_sless_alt)
qed

lemma sint_add_small:
  fixes x :: i32
  assumes "0 \<le> sint x" and "0 \<le> sint x + n" and "sint x + n < 2 ^ 31"
  shows "sint (x + of_int n) = sint x + n"
proof -
  have "x + of_int n = of_int (sint x + n)" by simp
  moreover have "sint (of_int (sint x + n) :: i32) = sint x + n" by (rule sint_of_int_in_range) (use assms in simp_all)
  ultimately show ?thesis by simp
qed

lemma sint_pos:
  fixes x :: i32
  assumes "0 \<le> sint x" and "x \<noteq> 0"
  shows "0 < sint x"
proof -
  have "x = of_int (sint x)" by simp
  then have "sint x \<noteq> 0" using assms(2) by (metis of_int_0)
  then show ?thesis using assms(1) by simp
qed

lemma Execute_update_total:
  assumes "\<forall>h\<in>set hs. handler_ok h" and "task_ok ty t" and "0 \<le>s request_update t" and "starts_cleanly raw"
    and "length (filter (\<lambda>h. m_type h = ty) hs) \<le> ISOHANDLERMANAGER_MAX_ISO_HANDLERS_PER_PORT"
  shows "Execute_update raw cl hs t st \<noteq> None"
proof (cases "request_update t = 0")
  case True
  then show ?thesis by (simp add: Execute_update_def)
next
  case False
  obtain hs' t' st' where u: "updateShadowMapHelper raw cl hs t st = Some (hs', t', st')"
    using updateShadowMapHelper_total [OF assms(1,2,5), of raw cl st] by auto
  have "\<not> request_update t - 1 <s 0"
    using False assms(3) sint_add_small [of "request_update t" "- 1"] sint_pos [of "request_update t"] sint_lt [of "request_update t"]
    by (simp add: word_sle_eq word_sless_alt)
  then show ?thesis using u updateShadowMapHelper_ok [OF u assms(2,4)] by (simp add: Execute_update_def)
qed

declare poll_setup.simps [simp del] normalize_deadline.simps [simp del]

text \<open>The entries of a shadow map that are in use point to handlers of the manager.\<close>

definition alive :: "iso_handler list \<Rightarrow> nat option list \<Rightarrow> bool" where
  "alive hs as \<longleftrightarrow> set as \<subseteq> Some ` ih_addr ` set hs"

lemma alive_simps [simp]:
  "alive hs []"
  "alive hs (a # as) \<longleftrightarrow> (\<exists>h\<in>set hs. a = Some (ih_addr h)) \<and> alive hs as"
  by (auto simp: alive_def)

lemma keeps_alive:
  assumes "keeps hs hs'"
  shows "alive hs' as \<longleftrightarrow> alive hs as"
proof -
  have "ih_addr ` set hs' = ih_addr ` set hs" using keeps_maps(1) [OF assms] by (metis list.set_map)
  then show ?thesis by (simp add: alive_def)
qed

lemma bind_not_None: "x \<bind> f \<noteq> None \<longleftrightarrow> x \<noteq> None \<and> f (the x) \<noteq> None"
  by (cases x) simp_all

text \<open>The stream processors do not abort.\<close>

definition clients_total :: "(nat \<Rightarrow> 'c iso_client) \<Rightarrow> bool" where
  "clients_total cl \<longleftrightarrow> (\<forall>a c. client_canProducePacket (cl a) c \<noteq> None
     \<and> (\<forall>data len ch tag sy ctr n. client_putPacket (cl a) data len ch tag sy ctr n c \<noteq> None)
     \<and> (\<forall>x ctr n. client_getPacket (cl a) x ctr n c \<noteq> None))"

lemma select_handlers_length:
  "select_handlers cl hs st as fds = Some (r, fds') \<Longrightarrow> length fds' = length fds"
  by (induction cl hs st as fds arbitrary: r fds' rule: select_handlers.induct) (auto simp: bind_eq_Some_conv)

lemma select_handlers_total:
  assumes "alive hs as" and "length as \<le> length fds" and "clients_total cl"
  shows "select_handlers cl hs st as fds \<noteq> None"
  using assms(1,2)
proof (induction as arbitrary: fds)
  case (Cons a as)
  obtain fd fds' where fds: "fds = fd # fds'" using Cons.prems(2) by (cases fds) auto
  obtain h where h: "a = Some (ih_addr h)" "h \<in> set hs" using Cons.prems(1) by auto
  obtain g where g: "handler_at hs (ih_addr h) = Some g" using handler_at_ex h(2) by blast
  have "canIterateClient (cl (client_addr g)) g (st (client_addr g)) \<noteq> None"
    using assms(3) by (auto simp: canIterateClient_def clients_total_def)
  moreover have "select_handlers cl hs st as fds' \<noteq> None" using Cons fds by simp
  ultimately show ?case using fds h(1) g by auto
qed simp

lemma poll_setup_ok:
  assumes "poll_setup cl hs ws t st = Some (w, t', st')" and "task_ok ty t"
  shows "task_ok ty t' \<and> request_update t' = request_update t \<and> m_running t' = m_running t \<and> m_in_busreset t' = m_in_busreset t
    \<and> m_poll_nfds_shadow t' = m_poll_nfds_shadow t \<and> m_IsoHandler_map_shadow t' = m_IsoHandler_map_shadow t"
  using assms
proof (induction ws arbitrary: t st)
  case Nil
  then obtain r fds where "select_handlers cl hs st (take (m_poll_nfds_shadow t) (m_IsoHandler_map_shadow t)) (m_poll_fds_shadow t) = Some (r, fds)"
    and "t' = t\<lparr>m_poll_fds_shadow := fds\<rparr>"
    by (auto simp: poll_setup.simps [of cl hs "[]"] Let_def split: option.splits if_splits)
  with Nil.prems(2) select_handlers_length [OF this(1)] show ?case by (simp add: task_ok_def)
next
  case (Cons w1 ws)
  obtain r fds where s: "select_handlers cl hs st (take (m_poll_nfds_shadow t) (m_IsoHandler_map_shadow t)) (m_poll_fds_shadow t) = Some (r, fds)"
    using Cons.prems(1) by (auto simp: poll_setup.simps [of cl hs "w1 # ws"] split: option.splits)
  let ?t = "t\<lparr>m_poll_fds_shadow := fds\<rparr>"
  obtain ar t1 where a: "waitForActivity (we_clock w1) (we_wait w1) ?t = (ar, t1)" by fastforce
  then have t1: "t1 = ?t \<or> (\<exists>n. t1 = ?t\<lparr>m_activity_semaphore := n\<rparr>)"
    by (auto simp: waitForActivity_def split: option.splits sem_result.splits)
  have ok: "task_ok ty ?t" using Cons.prems(2) select_handlers_length [OF s] by (simp add: task_ok_def)
  have t': "t' = ?t \<or> t' = t1 \<or> (\<exists>st1. poll_setup cl hs ws t1 st1 = Some (w, t', st'))"
    using Cons.prems(1) s a by (auto simp: poll_setup.simps [of cl hs "w1 # ws"] Let_def split: if_splits eActivityResult.splits)
  have ok1: "task_ok ty t1" using t1 ok by (auto simp: task_ok_def)
  from Cons.IH [OF _ this] t' t1 ok ok1 show ?case by auto
qed

lemma poll_setup_total:
  assumes "alive hs (take (m_poll_nfds_shadow t) (m_IsoHandler_map_shadow t))" and "clients_total cl" and "task_ok ty t"
  shows "poll_setup cl hs ws t st \<noteq> None"
  using assms(1,3)
proof (induction ws arbitrary: t st)
  case Nil
  then have "select_handlers cl hs st (take (m_poll_nfds_shadow t) (m_IsoHandler_map_shadow t)) (m_poll_fds_shadow t) \<noteq> None"
    by (intro select_handlers_total assms(2)) (auto simp: task_ok_def)
  then show ?case by (auto simp: poll_setup.simps [of cl hs "[]"] Let_def)
next
  case (Cons w1 ws)
  have "select_handlers cl hs st (take (m_poll_nfds_shadow t) (m_IsoHandler_map_shadow t)) (m_poll_fds_shadow t) \<noteq> None"
    using Cons.prems by (intro select_handlers_total assms(2)) (auto simp: task_ok_def)
  then obtain r fds where s: "select_handlers cl hs st (take (m_poll_nfds_shadow t) (m_IsoHandler_map_shadow t)) (m_poll_fds_shadow t) = Some (r, fds)"
    by auto
  let ?t = "t\<lparr>m_poll_fds_shadow := fds\<rparr>"
  obtain ar t1 where a: "waitForActivity (we_clock w1) (we_wait w1) ?t = (ar, t1)" by fastforce
  then have t1: "t1 = ?t \<or> (\<exists>n. t1 = ?t\<lparr>m_activity_semaphore := n\<rparr>)"
    by (auto simp: waitForActivity_def split: option.splits sem_result.splits)
  have "poll_setup cl hs ws t1 (we_streams w1) \<noteq> None"
    by (rule Cons.IH) (use t1 Cons.prems select_handlers_length [OF s] in \<open>auto simp: task_ok_def\<close>)
  then show ?case using s a by (auto simp: poll_setup.simps [of cl hs "w1 # ws"] Let_def split: eActivityResult.splits)
qed

lemma check_handler_keeps:
  assumes "check_handler cl now h hs st = Some (d, hs', st')" and "distinct (map ih_addr hs)" and "h \<in> set hs"
  shows "keeps hs hs'"
proof -
  consider "hs' = hs" | h1 st1 where "handler_notifyOfDeath cl h st = Some (h1, st1)" "hs' = set_handler h1 hs"
    using assms(1) by (auto simp: check_handler_def split: if_split_asm)
  then show ?thesis
    by cases (simp, metis set_handler_keeps [OF assms(2,3)] notifyOfDeath_keeps)
qed

lemma check_handler_total: "handler_ok h \<Longrightarrow> check_handler cl now h hs st \<noteq> None"
  using notifyOfDeath_total [of h cl st] by (simp add: check_handler_def del: not_None_eq)

lemma find_dead_keeps:
  assumes "find_dead cl now as hs st = Some (d, hs', st')" and "distinct (map ih_addr hs)"
  shows "keeps hs hs'"
  using assms
proof (induction as arbitrary: hs st d)
  case (Cons a as)
  then obtain a1 h hs1 st1 d1 d2 where at: "handler_at hs a1 = Some h" and c: "check_handler cl now h hs st = Some (d1, hs1, st1)"
    and r: "find_dead cl now as hs1 st1 = Some (d2, hs', st')"
    by (cases a) (simp_all add: bind_eq_Some_conv split_beta, metis prod.collapse)
  have k: "keeps hs hs1" using check_handler_keeps [OF c Cons.prems(2)] handler_at_Some [OF at] by simp
  show ?case using keeps_trans [OF k Cons.IH [OF r]] keeps_maps(1) [OF k] Cons.prems(2) by simp
qed simp

lemma find_dead_total:
  assumes "alive hs as" and "\<forall>h\<in>set hs. handler_ok h" and "distinct (map ih_addr hs)"
  shows "find_dead cl now as hs st \<noteq> None"
  using assms
proof (induction as arbitrary: hs st)
  case (Cons a as)
  obtain h where h: "a = Some (ih_addr h)" "h \<in> set hs" using Cons.prems(1) by auto
  have at: "handler_at hs (ih_addr h) = Some h" using Cons.prems(3) h(2) by (rule handler_at_member)
  obtain d1 hs1 st1 where c: "check_handler cl now h hs st = Some (d1, hs1, st1)"
    using check_handler_total [of h cl now hs st] Cons.prems(2) h(2) by auto
  have k: "keeps hs hs1" by (rule check_handler_keeps [OF c Cons.prems(3) h(2)])
  have "find_dead cl now as hs1 st1 \<noteq> None"
    using Cons.prems keeps_alive [OF k] keeps_maps(1) [OF k] k by (intro Cons.IH) (auto simp: keeps_def)
  then show ?case using h(1) at c by auto
qed simp

lemma run_callbacks_total:
  assumes "clients_total cl"
  shows "run_callbacks mo (cl a) cbs h c \<noteq> None"
proof (induction cbs arbitrary: h c)
  case (Cons cb cbs)
  show ?case
  proof (cases cb)
    case (Receive_callback data len ch tag sy cycle)
    have "IsoHandler_putPacket mo (cl a) data len ch tag sy cycle h c \<noteq> None"
      using assms by (simp add: IsoHandler_putPacket_def Let_def clients_total_def bind_not_None split_beta del: not_None_eq)
    then show ?thesis using Receive_callback Cons.IH by (simp add: iso_receive_handler_def bind_not_None split_beta del: not_None_eq)
  next
    case (Transmit_callback x cycle dropped)
    have "IsoHandler_getPacket (cl a) x cycle (drop_bit 16 (dropped AND 0xFFFF0000)) h c \<noteq> None"
      using assms by (simp add: IsoHandler_getPacket_def Let_def clients_total_def bind_not_None split_beta del: not_None_eq)
    then show ?thesis using Transmit_callback Cons.IH
      by (simp add: iso_transmit_handler_def Let_def bind_not_None split_beta del: not_None_eq)
  qed
qed simp

lemma handler_iterate_total:
  assumes "clients_total cl" and "handler_ok h"
  shows "handler_iterate mo cl cbs ok now h st \<noteq> None"
  using run_callbacks_total [OF assms(1), of mo "client_addr h" cbs "h\<lparr>m_last_now := now\<rparr>" "st (client_addr h)"] assms(2)
  by (auto simp: handler_iterate_def IsoHandler_iterate_def Let_def handler_ok_def isEnabled_def)

lemma iterate_handlers_keeps:
  assumes "iterate_handlers mo cl cbs now as fds hs st = Some (hs', st')" and "distinct (map ih_addr hs)"
  shows "keeps hs hs'"
  using assms
proof (induction as arbitrary: fds hs st)
  case (Cons a as)
  then obtain fd fds' where fds: "fds = fd # fds'" by (cases fds) auto
  show ?case
  proof (cases "revents fd AND POLLIN = 0")
    case True
    then show ?thesis using Cons fds by auto
  next
    case False
    then obtain a1 h h1 st1 where at: "handler_at hs a1 = Some h"
      and i: "handler_iterate mo cl (fst (cbs a1)) (snd (cbs a1)) now h st = Some (h1, st1)"
      and r: "iterate_handlers mo cl cbs now as fds' (set_handler h1 hs) st1 = Some (hs', st')"
      using Cons.prems(1) by (auto simp: fds bind_eq_Some_conv)
    have k: "keeps hs (set_handler h1 hs)"
      using set_handler_keeps [OF Cons.prems(2)] handler_at_Some [OF at] handler_iterate_keeps [OF i] by blast
    show ?thesis using keeps_trans [OF k Cons.IH [OF r]] keeps_maps(1) [OF k] Cons.prems(2) by simp
  qed
qed simp

lemma iterate_handlers_total:
  assumes "alive hs as" and "\<forall>h\<in>set hs. handler_ok h" and "distinct (map ih_addr hs)" and "length as \<le> length fds" and "clients_total cl"
  shows "iterate_handlers mo cl cbs now as fds hs st \<noteq> None"
  using assms(1-4)
proof (induction as arbitrary: fds hs st)
  case (Cons a as)
  obtain fd fds' where fds: "fds = fd # fds'" using Cons.prems(4) by (cases fds) auto
  obtain h where h: "a = Some (ih_addr h)" "h \<in> set hs" using Cons.prems(1) by auto
  have at: "handler_at hs (ih_addr h) = Some h" using Cons.prems(3) h(2) by (rule handler_at_member)
  have rest: "iterate_handlers mo cl cbs now as fds' hs1 st1 \<noteq> None" if k: "keeps hs hs1" for hs1 st1
    using Cons.prems keeps_alive [OF k] keeps_maps(1) [OF k] k fds by (intro Cons.IH) (auto simp: keeps_def)
  obtain h1 st1 where i: "handler_iterate mo cl (fst (cbs (ih_addr h))) (snd (cbs (ih_addr h))) now h st = Some (h1, st1)"
    using handler_iterate_total [OF assms(5), of h mo "fst (cbs (ih_addr h))" "snd (cbs (ih_addr h))" now st] Cons.prems(2) h(2) by auto
  have "keeps hs (set_handler h1 hs)"
    using set_handler_keeps [OF Cons.prems(3) h(2)] handler_iterate_keeps [OF i] by blast
  then show ?case using h(1) at i rest [of "set_handler h1 hs" st1] rest [of hs st] fds by auto
qed simp

lemma Execute_polled_Some:
  fixes t evs
  defines "fds \<equiv> map2 (\<lambda>fd ev. fd\<lparr>revents := ev\<rparr>) (take (m_poll_nfds_shadow t) (m_poll_fds_shadow t)) evs"
  defines "t1 \<equiv> t\<lparr>m_poll_fds_shadow := fds @ drop (length fds) (m_poll_fds_shadow t)\<rparr>"
  assumes "Execute_polled mo cl e hs t st = Some (r, hs', t', st')"
    and "te_poll e (map events (take (m_poll_nfds_shadow t) (m_poll_fds_shadow t))) = Poll_events evs"
  shows "\<exists>d hs1 st1. find_dead cl (CYCLE_TIMER_TO_TICKS (ucast (te_ctr e))) (take (m_poll_nfds_shadow t) (m_IsoHandler_map_shadow t)) hs st = Some (d, hs1, st1)
    \<and> (hs' = hs1 \<and> t' = t1\<lparr>m_running := False\<rparr>
       \<or> (\<exists>as fds. iterate_handlers mo cl (te_callbacks e) (te_ctr e) as fds hs1 st1 = Some (hs', st')) \<and> t' = t1)"
proof -
  let ?f = "find_dead cl (CYCLE_TIMER_TO_TICKS (ucast (te_ctr e))) (take (m_poll_nfds_shadow t) (m_IsoHandler_map_shadow t)) hs st"
  have e: "?f \<bind> (\<lambda>(died, hs, st).
      if died then Some (True, hs, t1\<lparr>m_running := False\<rparr>, st)
      else iterate_handlers mo cl (te_callbacks e) (te_ctr e) (take (m_poll_nfds_shadow t) (m_IsoHandler_map_shadow t)) (m_poll_fds_shadow t1) hs st
        \<bind> (\<lambda>(hs, st). Some (True, hs, t1, st))) = Some (r, hs', t', st')"
    using assms(3,4) unfolding Execute_polled_def Let_def t1_def fds_def by (simp only: poll_result.case)
  then obtain d hs1 st1 where f: "?f = Some (d, hs1, st1)" by (cases ?f) auto
  show ?thesis using e by (cases d) (auto simp: f bind_eq_Some_conv)
qed

lemma Execute_polled_ok:
  assumes "Execute_polled mo cl e hs t st = Some (r, hs', t', st')" and "task_ok ty t" and "distinct (map ih_addr hs)"
  shows "keeps hs hs' \<and> task_ok ty t' \<and> request_update t' = request_update t \<and> m_in_busreset t' = m_in_busreset t
    \<and> m_poll_nfds_shadow t' = m_poll_nfds_shadow t \<and> m_IsoHandler_map_shadow t' = m_IsoHandler_map_shadow t"
proof (cases "te_poll e (map events (take (m_poll_nfds_shadow t) (m_poll_fds_shadow t)))")
  case (Poll_events evs)
  let ?fds = "map2 (\<lambda>fd ev. fd\<lparr>revents := ev\<rparr>) (take (m_poll_nfds_shadow t) (m_poll_fds_shadow t)) evs"
  let ?t = "t\<lparr>m_poll_fds_shadow := ?fds @ drop (length ?fds) (m_poll_fds_shadow t)\<rparr>"
  obtain d hs1 st1 where f: "find_dead cl (CYCLE_TIMER_TO_TICKS (ucast (te_ctr e)))
      (take (m_poll_nfds_shadow t) (m_IsoHandler_map_shadow t)) hs st = Some (d, hs1, st1)"
    and rest: "hs' = hs1 \<and> t' = ?t\<lparr>m_running := False\<rparr> \<or> (\<exists>as fds. iterate_handlers mo cl (te_callbacks e) (te_ctr e) as fds hs1 st1 = Some (hs', st')) \<and> t' = ?t"
    using Execute_polled_Some [OF assms(1) Poll_events] by blast
  note k = find_dead_keeps [OF f assms(3)]
  have "keeps hs hs'"
    using rest iterate_handlers_keeps [of mo cl "te_callbacks e" "te_ctr e" _ _ hs1 st1 hs' st'] keeps_trans [OF k] keeps_maps(1) [OF k] assms(3) k by auto
  moreover have "task_ok ty ?t" using assms(2) by (auto simp: task_ok_def)
  ultimately show ?thesis using rest by (auto simp: task_ok_def)
qed (use assms in \<open>auto simp: Execute_polled_def Let_def task_ok_def\<close>)

lemma Execute_polled_total:
  assumes "alive hs (take (m_poll_nfds_shadow t) (m_IsoHandler_map_shadow t))" and "\<forall>h\<in>set hs. handler_ok h"
    and "distinct (map ih_addr hs)" and "clients_total cl" and "task_ok ty t"
  shows "Execute_polled mo cl e hs t st \<noteq> None"
proof (cases "te_poll e (map events (take (m_poll_nfds_shadow t) (m_poll_fds_shadow t)))")
  case (Poll_events evs)
  let ?as = "take (m_poll_nfds_shadow t) (m_IsoHandler_map_shadow t)"
  let ?fds = "map2 (\<lambda>fd ev. fd\<lparr>revents := ev\<rparr>) (take (m_poll_nfds_shadow t) (m_poll_fds_shadow t)) evs"
  let ?all = "?fds @ drop (length ?fds) (m_poll_fds_shadow t)"
  obtain d hs1 st1 where f: "find_dead cl (CYCLE_TIMER_TO_TICKS (ucast (te_ctr e))) ?as hs st = Some (d, hs1, st1)"
    using find_dead_total [OF assms(1-3), of cl "CYCLE_TIMER_TO_TICKS (ucast (te_ctr e))" st] by auto
  note k = find_dead_keeps [OF f assms(3)]
  have "iterate_handlers mo cl (te_callbacks e) (te_ctr e) ?as ?all hs1 st1 \<noteq> None"
    by (rule iterate_handlers_total [OF _ _ _ _ assms(4)])
       (use keeps_alive [OF k] assms(1-3,5) k keeps_maps(1) [OF k] in \<open>auto simp: keeps_def task_ok_def\<close>)
  then show ?thesis using f Poll_events by (simp add: Execute_polled_def Let_def bind_not_None split_beta del: not_None_eq)
qed (auto simp: Execute_polled_def Let_def)

lemma busReset_loop_ok:
  assumes "busReset_loop cl ty hs st = Some (r, hs', st')"
  shows "keeps hs hs'"
  using assms
proof (induction hs arbitrary: st r hs')
  case (Cons h hs)
  then show ?case
    by (auto simp: bind_eq_Some_conv split: if_split_asm intro!: keeps_Cons simp del: shape_of_eq dest: handler_busReset_keeps)
qed simp

lemma busReset_loop_total:
  assumes "\<forall>h\<in>set hs. handler_ok h"
  shows "busReset_loop cl ty hs st \<noteq> None"
  using assms
proof (induction hs arbitrary: st)
  case (Cons h hs)
  have "handler_busReset cl h st \<noteq> None"
    using Cons.prems by (auto simp: handler_busReset_def IsoHandler_handleBusReset_def Let_def handler_ok_def split: prod.splits)
  then show ?case using Cons by (simp add: bind_not_None split_beta del: not_None_eq)
qed simp

end
