(* ===== verification/IsoManagerStates.thy ===== *)
theory IsoManagerStates
  imports IsoHandlerManager
begin

text \<open>
  The handler manager with its two threads. A configuration is the manager, the stream processors and
  the place each thread has reached in the loop of its task; other threads call the operations
  of the manager between the steps of the tasks. The theory shows that the manager stays well-formed, when a task can follow
  an address of a deleted handler and when it cannot, that requests are carried out, and how
  dead handlers are treated.
\<close>

section \<open>Well-formed managers\<close>

definition ihm_wf :: "iso_manager \<Rightarrow> bool" where
  "ihm_wf m \<longleftrightarrow> distinct (map ih_addr (m_IsoHandlers m)) \<and> (\<forall>h\<in>set (m_IsoHandlers m). ih_addr h < next_addr m \<and> handler_ok h)
     \<and> map m_Client (m_IsoHandlers m) = map Some (m_StreamProcessors m) \<and> distinct (m_StreamProcessors m)
     \<and> pred_option (task_ok eHT_Transmit) (m_IsoTaskTransmit m) \<and> pred_option (task_ok eHT_Receive) (m_IsoTaskReceive m)
     \<and> ihm_State m \<noteq> IHM_Error
     \<and> (ihm_State m = IHM_Running \<longrightarrow> m_IsoTaskTransmit m \<noteq> None \<and> m_IsoTaskReceive m \<noteq> None)"

lemma ihm_wf_task: "ihm_wf m \<Longrightarrow> task_of ty m = Some t \<Longrightarrow> task_ok ty t"
  by (cases ty) (simp_all add: ihm_wf_def task_of_def)

lemma ihm_wf_running: "ihm_wf m \<Longrightarrow> ihm_State m = IHM_Running \<Longrightarrow> task_of ty m \<noteq> None"
  by (simp add: ihm_wf_def task_of_def)

lemma ihm_wf_handlers: "ihm_wf m \<Longrightarrow> distinct (map ih_addr (m_IsoHandlers m)) \<and> (\<forall>h\<in>set (m_IsoHandlers m). handler_ok h)"
  by (simp add: ihm_wf_def)

lemma ihm_wf_keeps:
  assumes "ihm_wf m" and "keeps (m_IsoHandlers m) hs"
  shows "ihm_wf (m\<lparr>m_IsoHandlers := hs\<rparr>)"
proof -
  have a: "map ih_addr hs = map ih_addr (m_IsoHandlers m)" by (rule keeps_maps [OF assms(2)])
  then have "ih_addr ` set hs = ih_addr ` set (m_IsoHandlers m)" by (metis list.set_map)
  moreover have "\<forall>h\<in>set (m_IsoHandlers m). ih_addr h < next_addr m" using assms(1) by (simp add: ihm_wf_def)
  ultimately have "\<forall>h\<in>set hs. ih_addr h < next_addr m" by (metis image_iff)
  then show ?thesis using assms a keeps_maps(2) [OF assms(2)] by (auto simp: ihm_wf_def keeps_def)
qed

lemma task_of_set_task [simp]: "task_of ty (set_task ty' t m) = (if ty' = ty then Some t else task_of ty m)"
  by (cases ty; cases ty') (simp_all add: task_of_def set_task_def)

lemma set_task_simps [simp]:
  "m_IsoHandlers (set_task ty t m) = m_IsoHandlers m" "ihm_State (set_task ty t m) = ihm_State m"
  "m_StreamProcessors (set_task ty t m) = m_StreamProcessors m" "next_addr (set_task ty t m) = next_addr m"
  by (simp_all add: set_task_def)

lemma task_of_simps [simp]:
  "task_of ty (m\<lparr>m_IsoHandlers := hs\<rparr>) = task_of ty m" "task_of ty (m\<lparr>m_StreamProcessors := ss\<rparr>) = task_of ty m"
  "task_of ty (m\<lparr>next_addr := a\<rparr>) = task_of ty m"
  by (simp_all add: task_of_def)

lemma ihm_wf_set_task: "ihm_wf m \<Longrightarrow> task_ok ty t \<Longrightarrow> ihm_wf (set_task ty t m)"
  by (cases ty) (auto simp: ihm_wf_def set_task_def)

lemma all_types: "(\<forall>ty. P ty) \<longleftrightarrow> P eHT_Transmit \<and> P eHT_Receive"
  by (metis EHandlerType.exhaust)

text \<open>Tasks that differ in at most \<open>n\<close> requests.\<close>

definition more_requests_task :: "nat \<Rightarrow> iso_task \<Rightarrow> iso_task \<Rightarrow> bool" where
  "more_requests_task n t t' \<longleftrightarrow>
     (\<exists>k\<le>n. \<exists>c b. t' = t\<lparr>request_update := request_update t + of_nat k, m_in_busreset := b, m_activity_semaphore := c\<rparr>)"

definition more_requests :: "nat \<Rightarrow> iso_manager \<Rightarrow> iso_manager \<Rightarrow> bool" where
  "more_requests n m m' \<longleftrightarrow> (\<forall>ty. rel_option (more_requests_task n) (task_of ty m) (task_of ty m'))"

lemma more_requests_task_refl [simp]: "more_requests_task n t t"
proof -
  have "t = t\<lparr>request_update := request_update t + of_nat 0, m_in_busreset := m_in_busreset t, m_activity_semaphore := m_activity_semaphore t\<rparr>"
    by simp
  then show ?thesis unfolding more_requests_task_def by (metis le0)
qed

lemma more_requests_task_one [simp]: "0 < n \<Longrightarrow> more_requests_task n t (IsoTask_requestShadowMapUpdate t)"
  unfolding more_requests_task_def IsoTask_requestShadowMapUpdate_def signalActivity_def
  by (rule exI [of _ 1]) (auto intro!: exI [of _ "m_in_busreset t"])

lemma more_requests_task_ok: "more_requests_task n t t' \<Longrightarrow> task_ok ty t \<Longrightarrow> task_ok ty t'"
  by (auto simp: more_requests_task_def task_ok_def)

lemma more_requests_task_trans:
  assumes "more_requests_task i t t1" and "more_requests_task j t1 t2"
  shows "more_requests_task (i + j) t t2"
proof -
  obtain k c b k' c' b' where "k \<le> i" "k' \<le> j"
    "t1 = t\<lparr>request_update := request_update t + of_nat k, m_in_busreset := b, m_activity_semaphore := c\<rparr>"
    "t2 = t1\<lparr>request_update := request_update t1 + of_nat k', m_in_busreset := b', m_activity_semaphore := c'\<rparr>"
    using assms by (auto simp: more_requests_task_def)
  then show ?thesis unfolding more_requests_task_def
    by (intro exI [of _ "k + k'"]) (auto simp: add.assoc)
qed

lemma more_requests_refl [simp]: "more_requests n m m"
  by (auto simp: more_requests_def intro: option.rel_refl)

lemma more_requests_same: "(\<And>ty. task_of ty m' = task_of ty m) \<Longrightarrow> more_requests n m m'"
  by (auto simp: more_requests_def intro: option.rel_refl)

lemma more_requests_trans:
  assumes "more_requests i m m1" and "more_requests j m1 m2"
  shows "more_requests (i + j) m m2"
  unfolding more_requests_def
proof
  fix ty
  show "rel_option (more_requests_task (i + j)) (task_of ty m) (task_of ty m2)"
    using assms [unfolded more_requests_def, THEN spec [of _ ty]] more_requests_task_trans
    by (auto simp: option.rel_sel)
qed

lemma requestShadowMapUpdate_simps [simp]:
  "m_IsoHandlers (requestShadowMapUpdate m) = m_IsoHandlers m" "ihm_State (requestShadowMapUpdate m) = ihm_State m"
  "m_StreamProcessors (requestShadowMapUpdate m) = m_StreamProcessors m" "next_addr (requestShadowMapUpdate m) = next_addr m"
  "task_of ty (requestShadowMapUpdate m) = map_option IsoTask_requestShadowMapUpdate (task_of ty m)"
  by (simp_all add: requestShadowMapUpdate_def task_of_def)

lemma requestTaskUpdate_Some:
  assumes "requestTaskUpdate ty m = Some m'"
  shows "more_requests 1 m m' \<and> m_IsoHandlers m' = m_IsoHandlers m \<and> ihm_State m' = ihm_State m
    \<and> m_StreamProcessors m' = m_StreamProcessors m \<and> next_addr m' = next_addr m"
  using assms by (auto simp: requestTaskUpdate_def more_requests_def option.rel_sel split: if_splits)

text \<open>Everything but the handlers and the requests stays.\<close>

definition similar :: "nat \<Rightarrow> iso_manager \<Rightarrow> iso_manager \<Rightarrow> bool" where
  "similar n m m' \<longleftrightarrow> more_requests n m m' \<and> keeps (m_IsoHandlers m) (m_IsoHandlers m') \<and> ihm_State m' = ihm_State m
     \<and> m_StreamProcessors m' = m_StreamProcessors m \<and> next_addr m' = next_addr m"

lemma similar_refl [simp]: "similar n m m"
  by (simp add: similar_def)

lemma similar_trans: "similar i m m1 \<Longrightarrow> similar j m1 m2 \<Longrightarrow> similar (i + j) m m2"
  by (auto simp: similar_def intro: more_requests_trans keeps_trans)

lemma ihm_wf_tasks_iff:
  "ihm_wf m \<longleftrightarrow> distinct (map ih_addr (m_IsoHandlers m)) \<and> (\<forall>h\<in>set (m_IsoHandlers m). ih_addr h < next_addr m \<and> handler_ok h)
     \<and> map m_Client (m_IsoHandlers m) = map Some (m_StreamProcessors m) \<and> distinct (m_StreamProcessors m)
     \<and> (\<forall>ty. pred_option (task_ok ty) (task_of ty m))
     \<and> ihm_State m \<noteq> IHM_Error \<and> (ihm_State m = IHM_Running \<longrightarrow> (\<forall>ty. task_of ty m \<noteq> None))"
  by (auto simp: ihm_wf_def task_of_def all_types)

lemma more_requests_tasks:
  assumes "more_requests n m m'"
  shows "pred_option (task_ok ty) (task_of ty m) \<Longrightarrow> pred_option (task_ok ty) (task_of ty m')"
    and "task_of ty m' = None \<longleftrightarrow> task_of ty m = None"
  using assms [unfolded more_requests_def, THEN spec [of _ ty]] more_requests_task_ok
  by (auto simp: option.rel_sel option.pred_set)

lemma ihm_wf_similar:
  assumes "ihm_wf m" and "similar n m m'"
  shows "ihm_wf m'"
proof -
  have "ihm_wf (m\<lparr>m_IsoHandlers := m_IsoHandlers m'\<rparr>)"
    using ihm_wf_keeps [OF assms(1)] assms(2) by (simp add: similar_def)
  then show ?thesis
    using assms(2) more_requests_tasks [of n m m'] unfolding ihm_wf_tasks_iff similar_def by simp
qed

section \<open>Operations on well-formed managers\<close>

lemma getHandlerForStream_Some: "getHandlerForStream s m = Some h \<Longrightarrow> h \<in> set (m_IsoHandlers m) \<and> m_Client h = Some s"
  by (auto simp: getHandlerForStream_def find_Some_iff isStreamRegistered_def)

lemma similar_set_handler:
  assumes "ihm_wf m" and "g \<in> set (m_IsoHandlers m)" and "shape_of h = shape_of g" and "handler_ok h = handler_ok g"
  shows "similar n m (m\<lparr>m_IsoHandlers := set_handler h (m_IsoHandlers m)\<rparr>)"
  using set_handler_keeps [OF _ assms(2,3)] assms(1,4) ihm_wf_handlers [OF assms(1)]
  by (simp add: similar_def more_requests_same)

lemma similar_requestTaskUpdate:
  assumes "requestTaskUpdate ty m = Some m'"
  shows "similar 1 m m'"
  using requestTaskUpdate_Some [OF assms] by (simp add: similar_def)

lemma startHandler_similar:
  assumes "ihm_startHandlerForStream s cycle m = Some (r, m')" and "ihm_wf m"
  shows "similar 1 m m'"
proof (cases "getHandlerForStream s m")
  case (Some h)
  then have h: "h \<in> set (m_IsoHandlers m)" by (auto dest: getHandlerForStream_Some)
  let ?m = "m\<lparr>m_IsoHandlers := set_handler (snd (requestEnable cycle h)) (m_IsoHandlers m)\<rparr>"
  have "similar 0 m ?m" by (rule similar_set_handler [OF assms(2) h]) (simp_all add: request_keeps del: shape_of_eq)
  moreover have "m' = m \<or> similar 1 ?m m'"
    using assms(1) Some
    by (auto simp: ihm_startHandlerForStream_def split_beta split: if_splits dest: similar_requestTaskUpdate)
  ultimately show ?thesis using similar_trans [of 0 m ?m 1 m'] by auto
qed (use assms in \<open>simp_all add: ihm_startHandlerForStream_def split: if_splits\<close>)

lemma stopHandler_similar:
  assumes "ihm_stopHandlerForStream s m = Some (r, m')" and "ihm_wf m"
  shows "similar 1 m m'"
proof (cases "getHandlerForStream s m")
  case (Some h)
  then have h: "h \<in> set (m_IsoHandlers m)" by (auto dest: getHandlerForStream_Some)
  let ?m = "m\<lparr>m_IsoHandlers := set_handler (snd (requestDisable h)) (m_IsoHandlers m)\<rparr>"
  have "similar 0 m ?m" by (rule similar_set_handler [OF assms(2) h]) (simp_all add: request_keeps del: shape_of_eq)
  moreover have "m' = m \<or> similar 1 ?m m'"
    using assms(1) Some
    by (auto simp: ihm_stopHandlerForStream_def split_beta split: if_splits dest: similar_requestTaskUpdate)
  ultimately show ?thesis using similar_trans [of 0 m ?m 1 m'] by auto
qed (use assms in \<open>simp_all add: ihm_stopHandlerForStream_def split: if_splits\<close>)

lemma similar_has_shape:
  assumes "similar n m m'" and "h \<in> set (m_IsoHandlers m)"
  shows "\<exists>g\<in>set (m_IsoHandlers m'). shape_of g = shape_of h"
proof -
  have "shape_of ` set (m_IsoHandlers m') = shape_of ` set (m_IsoHandlers m)"
    using assms(1) unfolding similar_def keeps_def by (metis list.set_map)
  then show ?thesis using assms(2) by (metis image_iff)
qed

lemma stopHandlers_loop_similar:
  assumes "stopHandlers_loop hs m = Some (r, m')" and "ihm_wf m"
    and "\<forall>h\<in>set hs. handler_ok h \<and> (\<exists>g\<in>set (m_IsoHandlers m). shape_of g = shape_of h)"
  shows "similar (length hs) m m'"
  using assms
proof (induction hs arbitrary: m)
  case (Cons h hs)
  obtain g where g: "g \<in> set (m_IsoHandlers m)" "shape_of g = shape_of h" using Cons.prems(3) by auto
  let ?m = "m\<lparr>m_IsoHandlers := set_handler (snd (requestDisable h)) (m_IsoHandlers m)\<rparr>"
  have "handler_ok g" "handler_ok h" using g(1) Cons.prems(2,3) by (auto simp: ihm_wf_def)
  then have s: "similar 0 m ?m"
    by (intro similar_set_handler [OF Cons.prems(2) g(1)]) (simp_all add: request_keeps g(2) del: shape_of_eq)
  show ?case
  proof (cases "fst (requestDisable h)")
    case True
    then obtain m1 where m1: "requestTaskUpdate (m_type (snd (requestDisable h))) ?m = Some m1"
      and r: "stopHandlers_loop hs m1 = Some (r, m')"
      using Cons.prems(1) by (auto simp: split_beta bind_eq_Some_conv)
    have s1: "similar 1 m m1" using similar_trans [OF s similar_requestTaskUpdate [OF m1]] by simp
    have "\<exists>f\<in>set (m_IsoHandlers m1). shape_of f = shape_of h'" if "h' \<in> set hs" for h'
      using Cons.prems(3) that similar_has_shape [OF s1] by (metis list.set_intros(2))
    then have "similar (length hs) m1 m'"
      using Cons.prems(3) by (intro Cons.IH [OF r ihm_wf_similar [OF Cons.prems(2) s1]]) (auto simp del: shape_of_eq)
    then show ?thesis using similar_trans [OF s1] by fastforce
  next
    case False
    then show ?thesis using Cons.prems(1) by (simp add: split_beta)
  qed
qed simp

lemma stopHandlers_similar:
  assumes "stopHandlers m = Some (r, m')" and "ihm_wf m"
  shows "similar (length (m_IsoHandlers m)) m m'"
  using assms stopHandlers_loop_similar [OF _ assms(2), of "m_IsoHandlers m" r m'] ihm_wf_handlers [OF assms(2)]
  by (auto simp: stopHandlers_def simp del: shape_of_eq split: if_splits)

lemma busReset_similar:
  assumes "task_busReset cl ty m st = Some (m', st')" and "ihm_wf m"
  shows "similar 2 m m'"
proof -
  obtain t r hs t' where t: "task_of ty m = Some t" and b: "IsoTask_handleBusReset cl (m_IsoHandlers m) t st = Some (r, hs, t', st')"
    and m': "m' = set_task ty t' (m\<lparr>m_IsoHandlers := hs\<rparr>)"
    using assms(1) by (auto simp: task_busReset_def bind_eq_Some_conv)
  have "keeps (m_IsoHandlers m) hs \<and> more_requests_task 2 t t'"
  proof (cases "m_running t")
    case True
    let ?t = "IsoTask_requestShadowMapUpdate (t\<lparr>m_in_busreset := True\<rparr>)"
    have "t' = IsoTask_requestShadowMapUpdate (?t\<lparr>m_in_busreset := False\<rparr>)" "\<exists>r st1. busReset_loop cl (m_handlerType ?t) (m_IsoHandlers m) st = Some (r, hs, st1)"
      using b True by (auto simp: IsoTask_handleBusReset_def Let_def bind_eq_Some_conv)
    moreover from this(1) have "more_requests_task 2 t t'"
      unfolding more_requests_task_def IsoTask_requestShadowMapUpdate_def signalActivity_def
      by (intro exI [of _ 2] conjI exI [of _ "Suc (Suc (m_activity_semaphore t))"] exI [of _ False]) (simp_all add: add.commute)
    ultimately show ?thesis using busReset_loop_ok by blast
  next
    case False
    then show ?thesis using b by (simp add: IsoTask_handleBusReset_def)
  qed
  then show ?thesis using t by (auto simp: similar_def m' more_requests_def option.rel_sel)
qed

lemma handleBusReset_similar:
  assumes "IsoHandlerManager_handleBusReset cl m st = Some (r, m', st')" and "ihm_wf m"
  shows "similar 4 m m'"
proof -
  have "m' = m \<or> (\<exists>m1 st1. task_busReset cl eHT_Transmit m st = Some (m1, st1) \<and> task_busReset cl eHT_Receive m1 st1 = Some (m', st'))"
    using assms(1) by (auto simp: IsoHandlerManager_handleBusReset_def bind_eq_Some_conv split: if_splits)
  then show ?thesis
  proof (elim disjE exE conjE)
    fix m1 st1
    assume b: "task_busReset cl eHT_Transmit m st = Some (m1, st1)" "task_busReset cl eHT_Receive m1 st1 = Some (m', st')"
    note s = busReset_similar [OF b(1) assms(2)]
    show ?thesis using similar_trans [OF s busReset_similar [OF b(2) ihm_wf_similar [OF assms(2) s]]] by simp
  qed simp
qed

lemma pruneHandlers_none: "\<forall>h\<in>set (m_IsoHandlers m). m_Client h \<noteq> None \<Longrightarrow> pruneHandlers m = Some m"
  by (simp add: pruneHandlers_def inUse_def)

lemma wf_clients:
  assumes "ihm_wf m"
  shows "\<forall>h\<in>set (m_IsoHandlers m). m_Client h \<noteq> None"
    and "(\<exists>h\<in>set (m_IsoHandlers m). m_Client h = Some s) \<longleftrightarrow> s \<in> set (m_StreamProcessors m)"
proof -
  show "\<forall>h\<in>set (m_IsoHandlers m). m_Client h \<noteq> None" using assms by (simp add: ihm_wf_def handler_ok_def)
  have "m_Client ` set (m_IsoHandlers m) = Some ` set (m_StreamProcessors m)"
    using assms unfolding ihm_wf_def by (metis list.set_map)
  then show "(\<exists>h\<in>set (m_IsoHandlers m). m_Client h = Some s) \<longleftrightarrow> s \<in> set (m_StreamProcessors m)"
    by (metis (no_types, lifting) image_iff option.inject)
qed

text \<open>The handler for a stream is new, stopped and without a client.\<close>

definition new_handler_for :: "iso_options \<Rightarrow> u32 \<Rightarrow> (nat \<Rightarrow> u32) \<Rightarrow> nat \<Rightarrow> stream_info \<Rightarrow> iso_handler option option" where
  "new_handler_for opts page_size junk a si =
     (if si_type si = ePT_Receive then receive_handler_for opts page_size junk a si else transmit_handler_for opts junk a si)"

lemma new_handler_for_Some:
  assumes "new_handler_for opts page_size junk a si = Some (Some h)"
  shows "ih_addr h = a \<and> m_Client h = None \<and> \<not> m_handle h \<and> ih_State h = eHS_Stopped \<and> ih_NextState h = eHS_Stopped
    \<and> m_type h = (if si_type si = ePT_Receive then eHT_Receive else eHT_Transmit)"
  using assms
  by (auto simp: new_handler_for_def receive_handler_for_def transmit_handler_for_def IsoHandler_new_def setReceiveMode_def
    Let_def bind_eq_Some_conv split: if_split_asm)

lemma registerStream_wf:
  assumes "ihm_wf m"
  shows "IsoHandlerManager_registerStream opts page_size junk s si m =
    (if s \<in> set (m_StreamProcessors m) then Some (False, m)
     else case new_handler_for opts page_size junk (next_addr m) si of
            None \<Rightarrow> None
          | Some None \<Rightarrow> Some (False, m)
          | Some (Some h) \<Rightarrow>
              Some (True, (requestShadowMapUpdate (m\<lparr>next_addr := Suc (next_addr m), m_IsoHandlers := m_IsoHandlers m @ [h\<lparr>m_Client := Some s\<rparr>]\<rparr>))
                \<lparr>m_StreamProcessors := m_StreamProcessors m @ [s]\<rparr>))"
proof (cases "s \<in> set (m_StreamProcessors m)")
  case True
  then show ?thesis using wf_clients(2) [OF assms, of s] by (simp add: IsoHandlerManager_registerStream_def isStreamRegistered_def)
next
  case False
  then have n: "\<not> (\<exists>h\<in>set (m_IsoHandlers m). isStreamRegistered s h)"
    using wf_clients(2) [OF assms, of s] by (simp add: isStreamRegistered_def)
  have m: "IsoHandler_registerStream s h = (True, h\<lparr>m_Client := Some s\<rparr>)"
    if "new_handler_for opts page_size junk (next_addr m) si = Some (Some h)" for h
    using new_handler_for_Some [OF that] by (simp add: IsoHandler_registerStream_def)
  show ?thesis
    unfolding IsoHandlerManager_registerStream_def if_not_P [OF n] if_not_P [OF False] pruneHandlers_none [OF wf_clients(1) [OF assms]]
      new_handler_for_def [symmetric] Let_def
    using m by (auto simp: registerHandler_def split: option.splits)
qed

lemma unregister_loop_eq: "unregister_loop s hs = (True, map (\<lambda>h. if m_Client h = Some s then h\<lparr>m_Client := None\<rparr> else h) hs)"
  by (induction hs) (simp_all add: isStreamRegistered_def IsoHandler_unregisterStream_def)

lemma wf_stream_handler:
  assumes "ihm_wf m" and "getHandlerForStream s m = Some h" and "g \<in> set (m_IsoHandlers m)"
  shows "m_Client g = Some s \<longleftrightarrow> ih_addr g = ih_addr h" and "m_Client g = Some s \<longleftrightarrow> g = h"
proof -
  note h = getHandlerForStream_Some [OF assms(2)]
  have "distinct (map m_Client (m_IsoHandlers m))" using assms(1) by (simp add: ihm_wf_def distinct_map)
  then have c: "inj_on m_Client (set (m_IsoHandlers m))" and a: "inj_on ih_addr (set (m_IsoHandlers m))"
    using assms(1) by (simp_all add: distinct_map ihm_wf_def)
  show "m_Client g = Some s \<longleftrightarrow> g = h" using h assms(3) c by (metis inj_onD)
  then show "m_Client g = Some s \<longleftrightarrow> ih_addr g = ih_addr h" using h assms(3) a by (metis inj_onD)
qed

text \<open>
  The split of the handlers at the one of a stream. Unregistering the stream takes that handler out; deleting a
  running one follows the null pointer that its client has become.
\<close>

lemma wf_split:
  assumes "ihm_wf m" and "getHandlerForStream s m = Some h"
  obtains xs ys where "m_IsoHandlers m = xs @ h # ys" and "\<forall>g\<in>set xs \<union> set ys. m_Client g \<noteq> Some s \<and> m_Client g \<noteq> None \<and> ih_addr g \<noteq> ih_addr h"
proof -
  note h = getHandlerForStream_Some [OF assms(2)]
  obtain xs ys where hs: "m_IsoHandlers m = xs @ h # ys" using h by (auto dest: split_list)
  have "ih_addr h \<notin> ih_addr ` (set xs \<union> set ys)" using assms(1) hs by (auto simp: ihm_wf_def)
  then have a: "ih_addr g \<noteq> ih_addr h" if "g \<in> set xs \<union> set ys" for g using that by (metis imageI)
  have "m_Client g \<noteq> Some s \<and> m_Client g \<noteq> None" if "g \<in> set xs \<union> set ys" for g
    using wf_stream_handler(1) [OF assms, of g] wf_clients(1) [OF assms(1)] hs a [OF that] that by auto
  then show thesis using that [OF hs] a by blast
qed

lemma unregisterStream_wf:
  assumes "ihm_wf m"
  shows "IsoHandlerManager_unregisterStream s m =
    (case getHandlerForStream s m of
       None \<Rightarrow> Some (False, m)
     | Some h \<Rightarrow>
         if isEnabled h then None
         else Some (True, (requestShadowMapUpdate (m\<lparr>m_IsoHandlers := filter (\<lambda>g. ih_addr g \<noteq> ih_addr h) (m_IsoHandlers m)\<rparr>))
                \<lparr>m_StreamProcessors := remove1 s (m_StreamProcessors m)\<rparr>))"
proof (cases "getHandlerForStream s m")
  case None
  then have n: "m_Client h \<noteq> Some s" if "h \<in> set (m_IsoHandlers m)" for h
    using that by (auto simp: getHandlerForStream_def find_None_iff isStreamRegistered_def)
  then have "map (\<lambda>h. if m_Client h = Some s then h\<lparr>m_Client := None\<rparr> else h) (m_IsoHandlers m) = m_IsoHandlers m"
    by (simp add: map_idI)
  moreover have "s \<notin> set (m_StreamProcessors m)" using n wf_clients(2) [OF assms, of s] by auto
  ultimately show ?thesis
    using None pruneHandlers_none [OF wf_clients(1) [OF assms]]
    by (simp add: IsoHandlerManager_unregisterStream_def unregister_loop_eq)
next
  case (Some h)
  obtain xs ys where hs: "m_IsoHandlers m = xs @ h # ys"
    and o: "\<forall>g\<in>set xs \<union> set ys. m_Client g \<noteq> Some s \<and> m_Client g \<noteq> None \<and> ih_addr g \<noteq> ih_addr h"
    by (rule wf_split [OF assms Some])
  let ?h = "h\<lparr>m_Client := None\<rparr>"
  note h = getHandlerForStream_Some [OF Some]
  have "handler_ok h" using h ihm_wf_handlers [OF assms] by simp
  then have d: "delete_handler ?h = (if isEnabled h then None else Some ())"
    by (simp add: delete_handler_def handler_ok_def isEnabled_def)
  have e: "(\<lambda>h. if m_Client h = Some s then h\<lparr>m_Client := None\<rparr> else h) g = g" if "g \<in> set xs \<union> set ys" for g
    using o that by simp
  have l: "unregister_loop s (m_IsoHandlers m) = (True, xs @ ?h # ys)"
    using e h by (simp add: unregister_loop_eq hs map_idI)
  have u: "filter (\<lambda>g. \<not> inUse g) (xs @ ?h # ys) = [?h]"
    using o by (simp add: inUse_def filter_empty_conv)
  have f: "handler_at (xs @ ?h # ys) (ih_addr h) = Some ?h"
    using handler_at_member [of "xs @ ?h # ys" ?h] assms hs by (simp add: ihm_wf_def)
  have "?h \<notin> set xs" using o by (metis UnI1 iso_handler.select_convs(11) iso_handler.update_convs(11) iso_handler.surjective)
  then have r: "remove1 ?h (xs @ ?h # ys) = filter (\<lambda>g. ih_addr g \<noteq> ih_addr h) (m_IsoHandlers m)"
    using o by (simp add: remove1_append hs)
  have "s \<in> set (m_StreamProcessors m)" using wf_clients(2) [OF assms, of s] h by auto
  then show ?thesis
    using Some d f r u l
    by (simp add: IsoHandlerManager_unregisterStream_def pruneHandlers_def unregisterHandler_def Let_def)
qed

lemma wf_remove1:
  assumes "map f xs = map Some ss" and "distinct (map g xs)" and "distinct ss" and "x \<in> set xs" and "f x = Some s"
  shows "map f (filter (\<lambda>y. g y \<noteq> g x) xs) = map Some (remove1 s ss)"
  using assms
proof (induction xs arbitrary: ss)
  case (Cons a xs)
  then obtain b ss' where ss: "ss = b # ss'" by (cases ss) auto
  show ?case
  proof (cases "a = x")
    case True
    then have "filter (\<lambda>y. g y \<noteq> g x) xs = xs" using Cons.prems(2) by (auto simp: filter_id_conv dest: image_eqI [of _ g, rotated])
    then show ?thesis using True Cons.prems(1,5) by (simp add: ss)
  next
    case False
    then have "x \<in> set xs" using Cons.prems(4) by simp
    then have "g a \<noteq> g x" using Cons.prems(2) by force
    moreover have "s \<in> set ss'" using \<open>x \<in> set xs\<close> Cons.prems(1,5) ss
      by (metis (no_types, lifting) image_iff list.inject list.simps(9) list.set_map option.inject)
    ultimately show ?thesis using Cons ss \<open>x \<in> set xs\<close> by auto
  qed
qed simp

lemma ihm_wf_register:
  assumes "ihm_wf m" and "IsoHandlerManager_registerStream opts page_size junk s si m = Some (r, m')"
  shows "ihm_wf m' \<and> (m' = m \<or> (\<exists>h. m_IsoHandlers m' = m_IsoHandlers m @ [h]) \<and> more_requests 1 m m')"
proof (cases "m' = m")
  case False
  then obtain h where s: "s \<notin> set (m_StreamProcessors m)" and h: "new_handler_for opts page_size junk (next_addr m) si = Some (Some h)"
    and m': "m' = (requestShadowMapUpdate (m\<lparr>next_addr := Suc (next_addr m), m_IsoHandlers := m_IsoHandlers m @ [h\<lparr>m_Client := Some s\<rparr>]\<rparr>))
                \<lparr>m_StreamProcessors := m_StreamProcessors m @ [s]\<rparr>"
    using assms(2) unfolding registerStream_wf [OF assms(1)] by (auto split: if_split_asm option.splits)
  note n = new_handler_for_Some [OF h]
  have q: "more_requests 1 m m'" by (auto simp: m' more_requests_def option.rel_map intro: option.rel_refl)
  have "ih_addr h \<notin> ih_addr ` set (m_IsoHandlers m)" using n assms(1) by (auto simp: ihm_wf_def)
  moreover have "handler_ok (h\<lparr>m_Client := Some s\<rparr>)" using n by (simp add: handler_ok_def isEnabled_def)
  moreover have "\<forall>ty. pred_option (task_ok ty) (task_of ty m')" "\<forall>ty. task_of ty m' = None \<longleftrightarrow> task_of ty m = None"
    using more_requests_tasks [OF q] assms(1) unfolding ihm_wf_tasks_iff by blast+
  ultimately have "ihm_wf m'"
    using assms(1) s n unfolding ihm_wf_tasks_iff by (auto simp: m' less_Suc_eq)
  then show ?thesis using q by (simp add: m')
qed (use assms in simp)

lemma ihm_wf_unregister:
  assumes "ihm_wf m" and "IsoHandlerManager_unregisterStream s m = Some (r, m')"
  shows "ihm_wf m' \<and> (m' = m \<or> (\<exists>h. getHandlerForStream s m = Some h \<and> \<not> isEnabled h
    \<and> m_IsoHandlers m' = filter (\<lambda>g. ih_addr g \<noteq> ih_addr h) (m_IsoHandlers m)
    \<and> (\<forall>ty. task_of ty m' = map_option IsoTask_requestShadowMapUpdate (task_of ty m))))"
proof (cases "m' = m")
  case False
  then obtain h where g: "getHandlerForStream s m = Some h" "\<not> isEnabled h"
    and m': "m' = (requestShadowMapUpdate (m\<lparr>m_IsoHandlers := filter (\<lambda>g. ih_addr g \<noteq> ih_addr h) (m_IsoHandlers m)\<rparr>))
                \<lparr>m_StreamProcessors := remove1 s (m_StreamProcessors m)\<rparr>"
    using assms(2) unfolding unregisterStream_wf [OF assms(1)] by (auto split: if_split_asm option.splits)
  note h = getHandlerForStream_Some [OF g(1)]
  have c: "map m_Client (filter (\<lambda>g. ih_addr g \<noteq> ih_addr h) (m_IsoHandlers m)) = map Some (remove1 s (m_StreamProcessors m))"
    by (rule wf_remove1) (use assms(1) h in \<open>simp_all add: ihm_wf_def\<close>)
  have "more_requests 1 m m'" by (auto simp: m' more_requests_def option.rel_map intro: option.rel_refl)
  from more_requests_tasks [OF this] have "\<forall>ty. pred_option (task_ok ty) (task_of ty m')" "\<forall>ty. task_of ty m' = None \<longleftrightarrow> task_of ty m = None"
    using assms(1) unfolding ihm_wf_tasks_iff by blast+
  then have "ihm_wf m'"
    using assms(1) c unfolding ihm_wf_tasks_iff by (auto simp: m' distinct_map_filter)
  then show ?thesis using g by (simp add: m')
qed (use assms in simp)

section \<open>Configurations and steps\<close>

datatype task_phase = Unstarted | Idle | Waiting | Polling | Ended

type_synonym 'c ihm_config = "iso_manager \<times> (nat \<Rightarrow> 'c) \<times> (EHandlerType \<Rightarrow> task_phase)"

text \<open>The entries of the shadow map that a task looks at.\<close>

definition shadow :: "iso_task \<Rightarrow> nat option list" where
  "shadow t = take (m_poll_nfds_shadow t) (m_IsoHandler_map_shadow t)"

text \<open>There is room for the requests of an operation: far fewer than \<open>2 ^ 31\<close> are outstanding.\<close>

definition roomy :: "iso_manager \<Rightarrow> bool" where
  "roomy m \<longleftrightarrow> (\<forall>ty. pred_option (\<lambda>t. sint (request_update t) + int (length (m_IsoHandlers m)) + 4 < 2 ^ 31) (task_of ty m))"

text \<open>
  A stream may be unregistered when no task that is in the middle of a round has its handler in the
  shadow map.
\<close>

definition may_unregister :: "nat \<Rightarrow> iso_manager \<Rightarrow> (EHandlerType \<Rightarrow> task_phase) \<Rightarrow> bool" where
  "may_unregister s m ph \<longleftrightarrow>
     (\<forall>ty. ph ty = Waiting \<or> ph ty = Polling \<longrightarrow>
        pred_option (\<lambda>t. pred_option (\<lambda>h. Some (ih_addr h) \<notin> set (shadow t)) (getHandlerForStream s m)) (task_of ty m))"

text \<open>The fresh memory of a task: anything, but with arrays of the declared size.\<close>

definition task_memory :: "iso_task \<Rightarrow> bool" where
  "task_memory u \<longleftrightarrow> task_ok (m_handlerType u) u"

inductive ihm_step :: "(nat \<Rightarrow> 'c iso_client) \<Rightarrow> 'c ihm_config \<Rightarrow> 'c ihm_config \<Rightarrow> bool" for cl where
  init: "ihm_step cl (m, st, ph) (m', st, ph)"
    if "m_IsoTaskTransmit m = None" "m_IsoTaskReceive m = None" "task_memory u_x" "task_memory u_r"
      "IsoHandlerManager_init opts u_x u_r ok_x ok_r m = (r, m')"
| thread_parameters: "ihm_step cl (m, st, ph) (setThreadParameters opts ok_x ok_r rt p m, st, ph)"
| missed_cycles: "ihm_step cl (m, st, ph) (setMissedCyclesOK b m, st, ph)"
| signal: "ihm_step cl (m, st, ph) (m', st, ph)" if "signalActivityTask ty m = Some m'"
| register: "ihm_step cl (m, st, ph) (m', st, ph)"
    if "roomy m" "IsoHandlerManager_registerStream opts page_size junk s si m = Some (r, m')"
| unregister: "ihm_step cl (m, st, ph) (m', st, ph)"
    if "roomy m" "may_unregister s m ph" "IsoHandlerManager_unregisterStream s m = Some (r, m')"
| start: "ihm_step cl (m, st, ph) (m', st, ph)" if "roomy m" "ihm_startHandlerForStream s cycle m = Some (r, m')"
| stop: "ihm_step cl (m, st, ph) (m', st, ph)" if "roomy m" "ihm_stopHandlerForStream s m = Some (r, m')"
| reset: "ihm_step cl (m, st, ph) (m', st, ph)" if "roomy m" "IsoHandlerManager_reset m = Some (r, m')"
| start_cycle: "ihm_step cl (m, st, ph) (m', st, ph)" if "setIsoStartCycleForStream s cycle m = Some m'"
| bus_reset: "ihm_step cl (m, st, ph) (m', st', ph)"
    if "roomy m" "IsoHandlerManager_handleBusReset cl m st = Some (r, m', st')"
| streams: "ihm_step cl (m, st, ph) (m, st', ph)"
| thread: "ihm_step cl (m, st, ph) (m', st, ph(ty := Idle))" if "ph ty = Unstarted" "task_init ty m = Some m'"
| update: "ihm_step cl (m, st, ph)
      (set_task ty t' (m\<lparr>m_IsoHandlers := hs'\<rparr>), st', ph(ty := if m_poll_nfds_shadow t' = 0 then Idle else Waiting))"
    if "ph ty = Idle" "task_of ty m = Some t" "starts_cleanly raw" "Execute_update raw cl (m_IsoHandlers m) t st = Some (hs', t', st')"
| wait: "ihm_step cl (m, st, ph)
      (set_task ty t' m, st', ph(ty := case w of Still_waiting \<Rightarrow> Waiting | Wait_failed \<Rightarrow> Ended | Ready \<Rightarrow> Polling))"
    if "ph ty = Waiting" "task_of ty m = Some t" "poll_setup cl (m_IsoHandlers m) ws t st = Some (w, t', st')"
| polled: "ihm_step cl (m, st, ph) (set_task ty t' (m\<lparr>m_IsoHandlers := hs'\<rparr>), st', ph(ty := if r then Idle else Ended))"
    if "ph ty = Polling" "task_of ty m = Some t"
      "Execute_polled (m_MissedCyclesOK m) cl e (m_IsoHandlers m) t st = Some (r, hs', t', st')"

text \<open>The configurations reached from a new manager.\<close>

inductive ihm_reachable :: "(nat \<Rightarrow> 'c iso_client) \<Rightarrow> 'c ihm_config \<Rightarrow> bool" for cl where
  created: "ihm_reachable cl (IsoHandlerManager_new rt p, st, \<lambda>_. Unstarted)"
| step: "ihm_reachable cl c \<Longrightarrow> ihm_step cl c c' \<Longrightarrow> ihm_reachable cl c'"

section \<open>The invariant\<close>

definition shadow_inv :: "task_phase \<Rightarrow> iso_handler list \<Rightarrow> iso_task \<Rightarrow> bool" where
  "shadow_inv p hs t \<longleftrightarrow>
     (p = Idle \<or> p = Waiting \<or> p = Polling \<longrightarrow> 0 \<le> sint (request_update t))
     \<and> (p = Idle \<and> request_update t = 0 \<or> p = Waiting \<or> p = Polling \<longrightarrow> alive hs (shadow t))"

fun cfg_inv :: "'c ihm_config \<Rightarrow> bool" where
  "cfg_inv (m, st, ph) \<longleftrightarrow> ihm_wf m
     \<and> (\<forall>ty. case task_of ty m of None \<Rightarrow> ph ty = Unstarted | Some t \<Rightarrow> shadow_inv (ph ty) (m_IsoHandlers m) t)"

lemma shadow_inv_more:
  assumes "shadow_inv p hs t" and "more_requests_task n t t'" and "sint (request_update t) + int n < 2 ^ 31"
    and "alive hs (shadow t) \<longrightarrow> alive hs' (shadow t)"
  shows "shadow_inv p hs' t'"
proof -
  obtain k c b where k: "k \<le> n" and t': "t' = t\<lparr>request_update := request_update t + of_nat k, m_in_busreset := b, m_activity_semaphore := c\<rparr>"
    using assms(2) by (auto simp: more_requests_task_def)
  have s: "shadow t' = shadow t" by (simp add: t' shadow_def)
  have r: "sint (request_update t') = sint (request_update t) + int k" if "0 \<le> sint (request_update t)"
    using sint_add_small [OF that, of "int k"] that k assms(3) by (simp add: t')
  have "request_update t = 0" if "request_update t' = 0" "0 \<le> sint (request_update t)"
    using r that sint_pos [of "request_update t"] by (cases "request_update t = 0") auto
  then show ?thesis using assms(1,4) r unfolding shadow_inv_def s by auto
qed

lemma shadow_inv_pending:
  assumes "shadow_inv p hs t" and "sint (request_update t) + 1 < 2 ^ 31" and "p = Waiting \<or> p = Polling \<longrightarrow> alive hs' (shadow t)"
  shows "shadow_inv p hs' (IsoTask_requestShadowMapUpdate t)"
proof -
  let ?t = "IsoTask_requestShadowMapUpdate t"
  have s: "shadow ?t = shadow t" and r: "request_update ?t = request_update t + 1"
    by (simp_all add: shadow_def IsoTask_requestShadowMapUpdate_def signalActivity_def)
  have "sint (request_update ?t) = sint (request_update t) + 1" if "0 \<le> sint (request_update t)"
    using sint_add_small [OF that, of 1] that assms(2) by (simp add: r)
  then have "0 \<le> sint (request_update ?t) \<and> request_update ?t \<noteq> 0" if "0 \<le> sint (request_update t)"
    using that by (cases "request_update ?t = 0") simp_all
  then show ?thesis using assms(1,3) unfolding shadow_inv_def s by auto
qed

lemma cfg_inv_similar:
  assumes "cfg_inv (m, st, ph)" and "similar n m m'"
    and "\<forall>ty. pred_option (\<lambda>t. sint (request_update t) + int n < 2 ^ 31) (task_of ty m)"
  shows "cfg_inv (m', st', ph)"
proof -
  have "case task_of ty m' of None \<Rightarrow> ph ty = Unstarted | Some t \<Rightarrow> shadow_inv (ph ty) (m_IsoHandlers m') t" for ty
  proof (cases "task_of ty m")
    case None
    then show ?thesis using assms(1,2) more_requests_tasks(2) [of n m m' ty]
      by (auto simp: similar_def dest: spec [of _ ty])
  next
    case (Some t)
    then obtain t' where t': "task_of ty m' = Some t'" "more_requests_task n t t'"
      using assms(2) unfolding similar_def more_requests_def by (auto simp: option.rel_sel dest!: spec [of _ ty])
    have "keeps (m_IsoHandlers m) (m_IsoHandlers m')" using assms(2) by (simp add: similar_def)
    then have "shadow_inv (ph ty) (m_IsoHandlers m') t'"
      using assms(1,3) Some by (intro shadow_inv_more [OF _ t'(2)]) (auto simp: keeps_alive dest!: spec [of _ ty])
    then show ?thesis using t' by simp
  qed
  then show ?thesis using ihm_wf_similar [OF _ assms(2)] assms(1) by auto
qed

lemma roomy_room: "roomy m \<Longrightarrow> n \<le> length (m_IsoHandlers m) + 4 \<Longrightarrow> pred_option (\<lambda>t. sint (request_update t) + int n < 2 ^ 31) (task_of ty m)"
  by (auto simp: roomy_def option.pred_set dest!: spec [of _ ty])

lemma room_0: "pred_option (\<lambda>t. sint (request_update t) + int 0 < 2 ^ 31) x"
  using sint_lt [where 'a = 32] by (cases x) simp_all

text \<open>A step of the task \<open>ty\<close>, which may work on the handlers but leaves the other task alone.\<close>

lemma cfg_inv_task:
  assumes "cfg_inv (m, st, ph)" and "keeps (m_IsoHandlers m) hs" and "task_ok ty t" and "shadow_inv p hs t"
  shows "cfg_inv (set_task ty t (m\<lparr>m_IsoHandlers := hs\<rparr>), st', ph(ty := p))"
proof -
  have k: "shadow_inv q (m_IsoHandlers m) t1 \<Longrightarrow> shadow_inv q hs t1" for q t1
    using assms(2) by (simp add: shadow_inv_def keeps_alive)
  have "case task_of ty' m of None \<Rightarrow> ph ty' = Unstarted | Some t \<Rightarrow> shadow_inv (ph ty') hs t" for ty'
    using assms(1) k by (auto split: option.splits dest!: spec [of _ ty'])
  then show ?thesis
    using assms(1,4) ihm_wf_set_task [OF ihm_wf_keeps [OF _ assms(2)] assms(3)] by (simp cong: option.case_cong)
qed

lemma cfg_inv_register:
  assumes "cfg_inv (m, st, ph)" and "roomy m" and "IsoHandlerManager_registerStream opts page_size junk s si m = Some (r, m')"
  shows "cfg_inv (m', st, ph)"
proof -
  have wf: "ihm_wf m" using assms(1) by simp
  have "ihm_wf m'" and m': "m' = m \<or> (\<exists>h. m_IsoHandlers m' = m_IsoHandlers m @ [h]) \<and> more_requests 1 m m'"
    using ihm_wf_register [OF wf assms(3)] by auto
  moreover have "case task_of ty m' of None \<Rightarrow> ph ty = Unstarted | Some t \<Rightarrow> shadow_inv (ph ty) (m_IsoHandlers m') t" for ty
  proof (cases "m' = m")
    case False
    then have q: "more_requests 1 m m'" and a: "alive (m_IsoHandlers m) as \<longrightarrow> alive (m_IsoHandlers m') as" for as
      using m' by (auto simp: alive_def)
    show ?thesis
    proof (cases "task_of ty m")
      case None
      then show ?thesis using assms(1) more_requests_tasks(2) [OF q, of ty] by (auto dest: spec [of _ ty])
    next
      case (Some t)
      then obtain t' where t': "task_of ty m' = Some t'" "more_requests_task 1 t t'"
        using q unfolding more_requests_def by (auto simp: option.rel_sel dest!: spec [of _ ty])
      have "shadow_inv (ph ty) (m_IsoHandlers m') t'"
        using assms(1) roomy_room [OF assms(2), of 1 ty] Some a by (intro shadow_inv_more [OF _ t'(2)]) (auto dest!: spec [of _ ty])
      then show ?thesis using t' by simp
    qed
  qed (use assms(1) in auto)
  ultimately show ?thesis by simp
qed

lemma cfg_inv_unregister:
  assumes "cfg_inv (m, st, ph)" and "roomy m" and "may_unregister s m ph" and "IsoHandlerManager_unregisterStream s m = Some (r, m')"
  shows "cfg_inv (m', st, ph)"
proof (cases "m' = m")
  case False
  have wf: "ihm_wf m" using assms(1) by simp
  obtain h where wf': "ihm_wf m'" and h: "getHandlerForStream s m = Some h"
    and hs: "m_IsoHandlers m' = filter (\<lambda>g. ih_addr g \<noteq> ih_addr h) (m_IsoHandlers m)"
    and t: "\<And>ty. task_of ty m' = map_option IsoTask_requestShadowMapUpdate (task_of ty m)"
    using ihm_wf_unregister [OF wf assms(4)] False by auto
  have a: "alive (m_IsoHandlers m') as" if "alive (m_IsoHandlers m) as" "Some (ih_addr h) \<notin> set as" for as
    using that unfolding alive_def hs by fastforce
  have "case task_of ty m' of None \<Rightarrow> ph ty = Unstarted | Some t \<Rightarrow> shadow_inv (ph ty) (m_IsoHandlers m') t" for ty
  proof (cases "task_of ty m")
    case None
    then show ?thesis using assms(1) t [of ty] by (auto dest: spec [of _ ty])
  next
    case (Some t1)
    then have i: "shadow_inv (ph ty) (m_IsoHandlers m) t1" using assms(1) by (auto dest: spec [of _ ty])
    have "Some (ih_addr h) \<notin> set (shadow t1)" if "ph ty = Waiting \<or> ph ty = Polling"
      using assms(3) that Some h by (auto simp: may_unregister_def)
    then have "shadow_inv (ph ty) (m_IsoHandlers m') (IsoTask_requestShadowMapUpdate t1)"
      using i a roomy_room [OF assms(2), of 1 ty] Some by (intro shadow_inv_pending [OF i]) (auto simp: shadow_inv_def)
    then show ?thesis using t [of ty] Some by simp
  qed
  then show ?thesis using wf' by simp
qed (use assms in simp)

lemma cfg_inv_update:
  assumes "cfg_inv (m, st, ph)" and "ph ty = Idle" and "task_of ty m = Some t" and "starts_cleanly raw"
    and u: "Execute_update raw cl (m_IsoHandlers m) t st = Some (hs', t', st')"
  shows "cfg_inv (set_task ty t' (m\<lparr>m_IsoHandlers := hs'\<rparr>), st', ph(ty := if m_poll_nfds_shadow t' = 0 then Idle else Waiting))"
proof -
  have wf: "ihm_wf m" and i: "shadow_inv Idle (m_IsoHandlers m) t" using assms(1-3) by (auto dest: spec [of _ ty])
  note e = Execute_update_ok [OF u ihm_wf_task [OF wf assms(3)] assms(4)]
  have "0 \<le> sint (request_update t') \<and> alive hs' (shadow t')"
  proof (cases "request_update t = 0")
    case True
    then show ?thesis using i e by (simp add: shadow_inv_def)
  next
    case False
    then have "shadow t' = (if m_in_busreset t then [] else map (Some \<circ> ih_addr) (enabled_of ty hs'))" "0 \<le> sint (request_update t')"
      using e by (auto simp: shadow_def word_sle_eq)
    then show ?thesis by (auto simp: alive_def enabled_of_def)
  qed
  then show ?thesis using e assms(1) by (intro cfg_inv_task) (simp_all add: shadow_inv_def)
qed

lemma cfg_inv_wait:
  assumes "cfg_inv (m, st, ph)" and "ph ty = Waiting" and "task_of ty m = Some t"
    and p: "poll_setup cl (m_IsoHandlers m) ws t st = Some (w, t', st')"
  shows "cfg_inv (set_task ty t' m, st', ph(ty := case w of Still_waiting \<Rightarrow> Waiting | Wait_failed \<Rightarrow> Ended | Ready \<Rightarrow> Polling))"
proof -
  have wf: "ihm_wf m" and i: "shadow_inv Waiting (m_IsoHandlers m) t" using assms(1-3) by (auto dest: spec [of _ ty])
  have ok: "task_ok ty t'" and s: "shadow t' = shadow t" "request_update t' = request_update t"
    using poll_setup_ok [OF p ihm_wf_task [OF wf assms(3)]] by (simp_all add: shadow_def)
  have "shadow_inv q (m_IsoHandlers m) t'" for q using i s by (simp add: shadow_inv_def)
  from cfg_inv_task [OF assms(1) keeps_refl ok this] show ?thesis by simp
qed

lemma cfg_inv_polled:
  assumes "cfg_inv (m, st, ph)" and "ph ty = Polling" and "task_of ty m = Some t"
    and p: "Execute_polled mo cl e (m_IsoHandlers m) t st = Some (r, hs', t', st')"
  shows "cfg_inv (set_task ty t' (m\<lparr>m_IsoHandlers := hs'\<rparr>), st', ph(ty := if r then Idle else Ended))"
proof -
  have wf: "ihm_wf m" and i: "shadow_inv Polling (m_IsoHandlers m) t" using assms(1-3) by (auto dest: spec [of _ ty])
  have ok: "task_ok ty t'" and k: "keeps (m_IsoHandlers m) hs'" and s: "shadow t' = shadow t" "request_update t' = request_update t"
    using Execute_polled_ok [OF p ihm_wf_task [OF wf assms(3)]] ihm_wf_handlers [OF wf] by (simp_all add: shadow_def)
  have "shadow_inv q hs' t'" for q using i s keeps_alive [OF k] by (simp add: shadow_inv_def)
  from cfg_inv_task [OF assms(1) k ok this] show ?thesis .
qed

lemma init_wf:
  assumes "ihm_wf m" and "m_IsoTaskTransmit m = None" "m_IsoTaskReceive m = None" and "task_memory u_x" "task_memory u_r"
    and "IsoHandlerManager_init opts u_x u_r ok_x ok_r m = (r, m')"
  shows "ihm_wf m'"
proof (cases "ihm_State m = IHM_Created")
  case True
  have t: "task_ok ty (IsoTask_new u ty)" "task_ok ty ((IsoTask_new u ty)\<lparr>m_activity_wait_timeout_nsec := n\<rparr>)" if "task_memory u" for u ty n
    using that by (simp_all add: task_memory_def task_ok_def IsoTask_new_def)
  show ?thesis
    using assms(1-3,6) True t(1) [OF assms(5), of eHT_Receive] t(2) [OF assms(4), of eHT_Transmit]
    by (auto simp: IsoHandlerManager_init_def Let_def ihm_wf_def split: prod.splits if_split_asm)
qed (use assms in \<open>simp add: IsoHandlerManager_init_def\<close>)

lemma similar_0: "(\<And>ty. task_of ty m' = task_of ty m) \<Longrightarrow> m_IsoHandlers m' = m_IsoHandlers m \<Longrightarrow> ihm_State m' = ihm_State m
  \<Longrightarrow> m_StreamProcessors m' = m_StreamProcessors m \<Longrightarrow> next_addr m' = next_addr m \<Longrightarrow> similar 0 m m'"
  by (simp add: similar_def more_requests_same)

lemma signal_similar:
  assumes "signalActivityTask ty m = Some m'"
  shows "similar 0 m m'"
proof -
  have "more_requests_task 0 t (signalActivity t)" for t
    unfolding more_requests_task_def signalActivity_def
    by (intro exI [of _ 0] conjI exI [of _ "Suc (m_activity_semaphore t)"] exI [of _ "m_in_busreset t"]) simp_all
  then show ?thesis
    using assms by (auto simp: signalActivityTask_def similar_def more_requests_def option.rel_sel split: if_splits)
qed

lemma cfg_inv_init:
  assumes "cfg_inv (m, st, ph)" and "m_IsoTaskTransmit m = None" "m_IsoTaskReceive m = None" and "task_memory u_x" "task_memory u_r"
    and "IsoHandlerManager_init opts u_x u_r ok_x ok_r m = (r, m')"
  shows "cfg_inv (m', st, ph)"
proof -
  have "task_of ty m = None" for ty using assms(2,3) by (simp add: task_of_def)
  then have "ph ty = Unstarted" for ty using assms(1) by simp
  then show ?thesis using init_wf [OF _ assms(2-6)] assms(1) by (auto simp: shadow_inv_def split: option.splits)
qed

lemma cfg_inv_thread:
  assumes "cfg_inv (m, st, ph)" and "task_init ty m = Some m'"
  shows "cfg_inv (m', st, ph(ty := Idle))"
proof -
  obtain t where t: "task_of ty m = Some t" "m' = set_task ty (IsoTask_Init t) m" using assms(2) by (auto simp: task_init_def)
  have "task_ok ty t" using assms(1) t(1) by (auto intro: ihm_wf_task)
  then have "task_ok ty (IsoTask_Init t)" by (simp add: task_ok_def IsoTask_Init_def)
  from cfg_inv_task [OF assms(1) keeps_refl this, of Idle] show ?thesis
    by (simp add: t(2) shadow_inv_def shadow_def IsoTask_Init_def)
qed

theorem cfg_inv_step:
  assumes "ihm_step cl c c'" and "cfg_inv c"
  shows "cfg_inv c'"
  using assms
proof (induction rule: ihm_step.induct)
  case (init m u_x u_r opts ok_x ok_r r m' st ph)
  show ?case by (rule cfg_inv_init [OF init(6) init(1-5)])
next
  case (thread_parameters m st ph opts ok_x ok_r rt p)
  show ?case
    by (rule cfg_inv_similar [OF thread_parameters(1) similar_0])
       (auto simp: setThreadParameters_def Let_def task_of_def room_0 [simplified])
next
  case (missed_cycles m st ph b)
  show ?case
    by (rule cfg_inv_similar [OF missed_cycles(1) similar_0]) (auto simp: setMissedCyclesOK_def task_of_def room_0 [simplified])
next
  case (signal ty m m' st ph)
  then show ?case using cfg_inv_similar [OF signal(2) signal_similar [OF signal(1)]] room_0 by blast
next
  case (register m opts page_size junk s si r m' st ph)
  show ?case by (rule cfg_inv_register [OF register(3) register(1-2)])
next
  case (unregister m s ph r m' st)
  show ?case by (rule cfg_inv_unregister [OF unregister(4) unregister(1-3)])
next
  case (start m s cycle r m' st ph)
  then show ?case
    using cfg_inv_similar [OF start(3) startHandler_similar [OF start(2)]] roomy_room [OF start(1), of 1] by simp
next
  case (stop m s r m' st ph)
  then show ?case
    using cfg_inv_similar [OF stop(3) stopHandler_similar [OF stop(2)]] roomy_room [OF stop(1), of 1] by simp
next
  case (reset m r m' st ph)
  have "similar (length (m_IsoHandlers m)) m m'"
    using reset(2,3) stopHandlers_similar by (auto simp: IsoHandlerManager_reset_def split: if_splits)
  then show ?case using cfg_inv_similar [OF reset(3)] roomy_room [OF reset(1), of "length (m_IsoHandlers m)"] by simp
next
  case (start_cycle s cycle m m' st ph)
  obtain h where h: "getHandlerForStream s m = Some h" "m' = m\<lparr>m_IsoHandlers := set_handler (setIsoStartCycle cycle h) (m_IsoHandlers m)\<rparr>"
    using start_cycle(1) by (auto simp: setIsoStartCycleForStream_def bind_eq_Some_conv)
  have "similar 0 m m'"
    unfolding h(2) using start_cycle(2) getHandlerForStream_Some [OF h(1)]
    by (intro similar_set_handler [of m h]) (auto simp: request_keeps simp del: shape_of_eq)
  then show ?case using cfg_inv_similar [OF start_cycle(2)] room_0 by blast
next
  case (bus_reset m st r m' st' ph)
  then show ?case
    using cfg_inv_similar [OF bus_reset(3) handleBusReset_similar [OF bus_reset(2)]] roomy_room [OF bus_reset(1), of 4] by simp
next
  case (thread ph ty m m' st)
  show ?case by (rule cfg_inv_thread [OF thread(3) thread(2)])
next
  case (update ph ty m t raw st hs' t' st')
  show ?case by (rule cfg_inv_update [OF update(5) update(1-4)])
next
  case (wait ph ty m t ws st w t' st')
  show ?case by (rule cfg_inv_wait [OF wait(4) wait(1-3)])
next
  case (polled ph ty m t e st r hs' t' st')
  show ?case by (rule cfg_inv_polled [OF polled(4) polled(1-3)])
qed simp

theorem cfg_inv_reachable: "ihm_reachable cl c \<Longrightarrow> cfg_inv c"
proof (induction rule: ihm_reachable.induct)
  case (created rt p st)
  show ?case by (simp add: IsoHandlerManager_new_def ihm_wf_def task_of_def)
qed (rule cfg_inv_step)

section \<open>Properties\<close>


lemma execute_total:
  assumes i: "cfg_inv (m, st, ph)" and "ph ty = Idle" and "task_of ty m = Some t" and "clients_total cl" and "starts_cleanly (te_raw e)"
    and u: "Execute_update (te_raw e) cl (m_IsoHandlers m) t st = Some (hs1, t1, st1)"
  shows "task_execute cl e ty m st \<noteq> None"
proof (cases "m_poll_nfds_shadow t1 = 0")
  case True
  then show ?thesis using u by (simp add: task_execute_def IsoTask_Execute_def assms(3) del: not_None_eq)
next
  case False
  then have s1: "alive hs1 (shadow t1)" and wf1: "ihm_wf (set_task ty t1 (m\<lparr>m_IsoHandlers := hs1\<rparr>))"
    using cfg_inv_update [OF i assms(2,3,5) u] by (auto simp: shadow_inv_def dest: spec [of _ ty])
  have ok1: "task_ok ty t1" and h1: "distinct (map ih_addr hs1)" "\<forall>h\<in>set hs1. handler_ok h"
    using ihm_wf_task [OF wf1, of ty t1] ihm_wf_handlers [OF wf1] by simp_all
  obtain w t2 st2 where p: "poll_setup cl hs1 (te_waits e) t1 st1 = Some (w, t2, st2)"
    using poll_setup_total [OF s1 [unfolded shadow_def] assms(4) ok1, of "te_waits e" st1] by auto
  have s2: "shadow t2 = shadow t1" and ok2: "task_ok ty t2" using poll_setup_ok [OF p ok1] by (simp_all add: shadow_def)
  have "Execute_polled (m_MissedCyclesOK m) cl e hs1 t2 st2 \<noteq> None"
    using Execute_polled_total [OF _ h1(2,1) assms(4) ok2] s1 s2 by (simp add: shadow_def)
  then have "IsoTask_Execute (m_MissedCyclesOK m) cl e (m_IsoHandlers m) t st \<noteq> None"
    using u p False by (simp add: IsoTask_Execute_def split: wait_outcome.split del: not_None_eq)
  then show ?thesis by (simp add: task_execute_def assms(3) bind_not_None split_beta del: not_None_eq)
qed


text \<open>An example: a manager is initialized, its transmit thread starts, and a stream is registered and its handler started.\<close>

definition example_memory :: "iso_task" where
  "example_memory =
     \<lparr>m_handlerType = eHT_Receive, request_update = 77, m_poll_fds_shadow = replicate 16 \<lparr>events = 3, revents = 3\<rparr>,
      m_IsoHandler_map_shadow = replicate 16 (Some 9), m_poll_nfds_shadow = 12, m_SyncIsoHandler = Some 9, m_running = False,
      m_in_busreset = False, m_activity_semaphore = 0, m_activity_wait_timeout_nsec = 0\<rparr>"

definition example_m1 :: iso_manager where
  "example_m1 = snd (IsoHandlerManager_init default_options example_memory example_memory True True (IsoHandlerManager_new False 0))"

definition example_m2 :: iso_manager where
  "example_m2 = the (task_init eHT_Transmit example_m1)"

definition example_m3 :: iso_manager where
  "example_m3 = snd (the (IsoHandlerManager_registerStream default_options 4096 (\<lambda>_. 0) 5
     \<lparr>si_type = ePT_Transmit, si_packets_per_period = 17, si_max_packet_size = 200\<rparr> example_m2))"

definition example_m4 :: iso_manager where
  "example_m4 = snd (the (ihm_startHandlerForStream 5 (- 1) example_m3))"

definition example_phases :: "EHandlerType \<Rightarrow> task_phase" where
  "example_phases = (\<lambda>_. Unstarted)(eHT_Transmit := Idle)"

definition example_raw :: "nat \<Rightarrow> raw1394_calls" where
  "example_raw = (\<lambda>_. \<lparr>raw1394_new_handle = True, raw1394_iso_init = True, raw1394_iso_start = True\<rparr>)"

lemma example_steps:
  "IsoHandlerManager_init default_options example_memory example_memory True True (IsoHandlerManager_new False 0) = (True, example_m1)"
  "task_init eHT_Transmit example_m1 = Some example_m2"
  "IsoHandlerManager_registerStream default_options 4096 (\<lambda>_. 0) 5
     \<lparr>si_type = ePT_Transmit, si_packets_per_period = 17, si_max_packet_size = 200\<rparr> example_m2 = Some (True, example_m3)"
  "ihm_startHandlerForStream 5 (- 1) example_m3 = Some (True, example_m4)"
  by code_simp+

lemma example_requests:
  "map_option request_update (task_of eHT_Transmit example_m2) = Some 0" "map_option request_update (task_of eHT_Receive example_m2) = Some 77"
  "map_option request_update (task_of eHT_Transmit example_m3) = Some 1" "map_option request_update (task_of eHT_Receive example_m3) = Some 78"
  "map_option request_update (task_of eHT_Transmit example_m4) = Some 2"
  "m_IsoHandlers example_m2 = []" "length (m_IsoHandlers example_m3) = 1"
  "length (filter (\<lambda>h. m_type h = eHT_Transmit) (m_IsoHandlers example_m4)) = 1"
  by code_simp+

lemma example_reachable:
  "ihm_reachable (\<lambda>_. example_client) (example_m3, \<lambda>_. [], example_phases)"
  "ihm_reachable (\<lambda>_. example_client) (example_m4, \<lambda>_. [], example_phases)"
proof -
  have "ihm_reachable (\<lambda>_. example_client) (IsoHandlerManager_new False 0, \<lambda>_. [], \<lambda>_. Unstarted)" by (rule created)
  moreover have "ihm_step (\<lambda>_. example_client) (IsoHandlerManager_new False 0, \<lambda>_. [], \<lambda>_. Unstarted) (example_m1, \<lambda>_. [], \<lambda>_. Unstarted)"
    by (rule init [OF _ _ _ _ example_steps(1)])
       (simp_all add: IsoHandlerManager_new_def task_memory_def task_ok_def example_memory_def ISOHANDLERMANAGER_MAX_ISO_HANDLERS_PER_PORT_def)
  moreover have "ihm_step (\<lambda>_. example_client) (example_m1, \<lambda>_. [], \<lambda>_. Unstarted) (example_m2, \<lambda>_. [], example_phases)"
    unfolding example_phases_def by (rule thread [OF _ example_steps(2)]) simp
  moreover have "roomy example_m2" "roomy example_m3"
    using example_requests by (auto simp: roomy_def all_types option.pred_set)
  moreover have "ihm_step (\<lambda>_. example_client) (example_m2, \<lambda>_. [], example_phases) (example_m3, \<lambda>_. [], example_phases)"
    by (rule register [OF calculation(4) example_steps(3)])
  moreover have "ihm_step (\<lambda>_. example_client) (example_m3, \<lambda>_. [], example_phases) (example_m4, \<lambda>_. [], example_phases)"
    by (rule start [OF calculation(5) example_steps(4)])
  ultimately show "ihm_reachable (\<lambda>_. example_client) (example_m3, \<lambda>_. [], example_phases)"
    "ihm_reachable (\<lambda>_. example_client) (example_m4, \<lambda>_. [], example_phases)"
    by (meson step)+
qed



text \<open>The loop of the update brings every handler of the type up to date.\<close>

lemma updateShadowMap_loop_updates:
  assumes "updateShadowMap_loop raw cl hs cnt t st = Some (hs', cnt', t', st')" and "task_ok ty t"
    and "cnt \<le> ISOHANDLERMANAGER_MAX_ISO_HANDLERS_PER_PORT" and "h \<in> set hs" and "m_type h = ty"
  shows "\<exists>h'\<in>set hs'. \<exists>st1 st2. handler_updateState raw cl h st1 = Some (h', st2)"
  using assms
proof (induction hs arbitrary: cnt t st hs')
  case (Cons g hs)
  show ?case
  proof (cases "m_type g = ty")
    case False
    then have "m_type g \<noteq> m_handlerType t" "h \<in> set hs" using Cons.prems(2,4,5) by (auto simp: task_ok_def)
    then show ?thesis using Cons.prems Cons.IH [where cnt = cnt and t = t and st = st] by auto
  next
    case True
    then have "\<not> m_type g \<noteq> m_handlerType t" using Cons.prems(2) by (simp add: task_ok_def)
    then obtain g1 st1 cnt1 t1 where g1: "handler_updateState raw cl g st = Some (g1, st1)" and e: "shadow_entry g1 cnt t = Some (cnt1, t1)"
      and rest: "(if ISOHANDLERMANAGER_MAX_ISO_HANDLERS_PER_PORT < cnt1 then Some (g1 # hs, cnt1, t1, st1)
          else map_option (\<lambda>(hs, r). (g1 # hs, r)) (updateShadowMap_loop raw cl hs cnt1 t1 st1)) = Some (hs', cnt', t', st')"
      using Cons.prems(1) by (auto simp: bind_eq_Some_conv)
    have "m_type g1 = ty" using handler_updateState_keeps(1) [OF g1] True by simp
    note e1 = shadow_entry_ok [OF e Cons.prems(2) this Cons.prems(3)]
    then obtain hs1 where r: "hs' = g1 # hs1" "updateShadowMap_loop raw cl hs cnt1 t1 st1 = Some (hs1, cnt', t', st')"
      using rest by auto
    then show ?thesis using Cons.IH [OF r(2)] e1 g1 Cons.prems(4,5) by auto
  qed
qed simp

lemma Execute_update_updates:
  assumes "Execute_update raw cl hs t st = Some (hs', t', st')" and "task_ok ty t" and "request_update t \<noteq> 0" and "\<not> m_in_busreset t"
    and "h \<in> set hs" and "m_type h = ty"
  shows "\<exists>h'\<in>set hs'. \<exists>st1 st2. handler_updateState raw cl h st1 = Some (h', st2)"
proof -
  obtain cnt t1 where "updateShadowMap_loop raw cl hs 0 (t\<lparr>m_SyncIsoHandler := None\<rparr>) st = Some (hs', cnt, t1, st')"
    using assms(1,3,4) by (auto simp: Execute_update_def updateShadowMapHelper_def bind_eq_Some_conv Let_def split: if_split_asm)
  then show ?thesis by (rule updateShadowMap_loop_updates) (use assms(2,5,6) in \<open>simp_all add: task_ok_def\<close>)
qed

lemma requested_start:
  assumes "handler_updateState raw cl h st1 = Some (h', st2)" and "ih_State h = eHS_Stopped" and "ih_NextState h = eHS_Running"
    and "starts_cleanly raw" and "raw1394_new_handle (raw (ih_addr h))"
  shows "isEnabled h'"
  using assms
  by (auto simp: handler_updateState_def IsoHandler_updateState_def IsoHandler_enable_def isEnabled_def starts_cleanly_def Let_def
    bind_eq_Some_conv split: if_split_asm)

text \<open>What a successful request to start a handler leaves.\<close>

lemma startHandler_Some:
  assumes "ihm_startHandlerForStream s cycle m = Some (True, m')" and "getHandlerForStream s m = Some h" and "ihm_wf m"
  shows "\<exists>g. g \<in> set (m_IsoHandlers m') \<and> shape_of g = shape_of h \<and> ih_State g = eHS_Stopped \<and> ih_NextState g = eHS_Running"
    and "task_of (m_type h) m' = map_option IsoTask_requestShadowMapUpdate (task_of (m_type h) m)"
proof -
  let ?g = "snd (requestEnable cycle h)"
  have e: "fst (requestEnable cycle h)" and m1: "requestTaskUpdate (m_type h) (m\<lparr>m_IsoHandlers := set_handler ?g (m_IsoHandlers m)\<rparr>) = Some m'"
    using assms(1,2) by (auto simp: ihm_startHandlerForStream_def split_beta requestEnable_def split: if_splits)
  note h = getHandlerForStream_Some [OF assms(2)]
  have "?g \<in> set (set_handler ?g (m_IsoHandlers m))"
    using h by (auto simp: set_handler_def requestEnable_def intro!: rev_image_eqI [of h])
  moreover have "shape_of ?g = shape_of h" "ih_State ?g = eHS_Stopped" "ih_NextState ?g = eHS_Running"
    using e by (auto simp: requestEnable_def split: if_splits)
  ultimately show "\<exists>g. g \<in> set (m_IsoHandlers m') \<and> shape_of g = shape_of h \<and> ih_State g = eHS_Stopped \<and> ih_NextState g = eHS_Running"
    using requestTaskUpdate_Some [OF m1] by auto
  show "task_of (m_type h) m' = map_option IsoTask_requestShadowMapUpdate (task_of (m_type h) m)"
    using m1 by (auto simp: requestTaskUpdate_def)
qed

text \<open>
  C23. A request to start the handler of a stream is carried out: when the request succeeds, the next round of
  the task of that handler enables it, if the library lets it, and puts it on the list of handlers
  the task polls, whatever else has been requested before.
\<close>

theorem start_request_served:
  assumes "ihm_reachable cl (m, st, ph)" and "roomy m" and "ihm_startHandlerForStream s cycle m = Some (True, m')"
    and "getHandlerForStream s m = Some h" and "task_of (m_type h) m = Some t" and "ph (m_type h) = Idle" and "\<not> m_in_busreset t"
    and "starts_cleanly raw" and "raw1394_new_handle (raw (ih_addr h))"
    and "length (filter (\<lambda>g. m_type g = m_type h) (m_IsoHandlers m)) \<le> ISOHANDLERMANAGER_MAX_ISO_HANDLERS_PER_PORT"
  shows "\<exists>t1 hs' t' st' h'. task_of (m_type h) m' = Some t1
    \<and> Execute_update raw cl (m_IsoHandlers m') t1 st = Some (hs', t', st')
    \<and> h' \<in> set hs' \<and> ih_addr h' = ih_addr h \<and> m_Client h' = Some s \<and> isEnabled h' \<and> Some (ih_addr h) \<in> set (shadow t')"
proof -
  let ?ty = "m_type h" and ?t = "IsoTask_requestShadowMapUpdate t"
  have i: "cfg_inv (m, st, ph)" by (rule cfg_inv_reachable [OF assms(1)])
  then have wf: "ihm_wf m" and r: "0 \<le> sint (request_update t)" using assms(5,6) by (auto simp: shadow_inv_def dest: spec [of _ ?ty])
  have i': "cfg_inv (m', st, ph)" by (rule cfg_inv_step [OF start [OF assms(2,3)] i])
  have t1: "task_of ?ty m' = Some ?t" using startHandler_Some(2) [OF assms(3,4) wf] assms(5) by simp
  have wf': "ihm_wf m'" and r': "0 \<le> sint (request_update ?t)" using i' t1 assms(6) by (auto simp: shadow_inv_def dest: spec [of _ ?ty])
  have "sint (request_update ?t) = sint (request_update t) + 1"
    using sint_add_small [OF r, of 1] r roomy_room [OF assms(2), of 1 ?ty] assms(5)
    by (simp add: IsoTask_requestShadowMapUpdate_def signalActivity_def)
  then have p: "request_update ?t \<noteq> 0" using r by (cases "request_update ?t = 0") simp_all
  have b: "\<not> m_in_busreset ?t" using assms(7) by (simp add: IsoTask_requestShadowMapUpdate_def signalActivity_def)
  have k: "keeps (m_IsoHandlers m) (m_IsoHandlers m')" using startHandler_similar [OF assms(3) wf] by (simp add: similar_def)
  have "length (filter (\<lambda>g. m_type g = ?ty) (m_IsoHandlers m')) = length (filter (\<lambda>g. m_type g = ?ty) (m_IsoHandlers m))"
    using arg_cong [OF keeps_maps(3) [OF k], of "\<lambda>xs. length (filter (\<lambda>x. x = ?ty) xs)"] by (simp add: filter_map comp_def)
  then obtain hs' t' st' where u: "Execute_update raw cl (m_IsoHandlers m') ?t st = Some (hs', t', st')"
    using Execute_update_total [OF _ ihm_wf_task [OF wf' t1] _ assms(8), of "m_IsoHandlers m'" cl st] ihm_wf_handlers [OF wf'] r' assms(10)
    by (auto simp: word_sle_eq)
  obtain g where g: "g \<in> set (m_IsoHandlers m')" "shape_of g = shape_of h" "ih_State g = eHS_Stopped" "ih_NextState g = eHS_Running"
    using startHandler_Some(1) [OF assms(3,4) wf] by blast
  obtain h' st1 st2 where h': "h' \<in> set hs'" "handler_updateState raw cl g st1 = Some (h', st2)"
    using Execute_update_updates [OF u ihm_wf_task [OF wf' t1] p b g(1)] g(2) by auto
  have en: "isEnabled h'" using requested_start [OF h'(2) g(3,4) assms(8)] assms(9) g(2) by simp
  have sh: "ih_addr h' = ih_addr h" "m_type h' = ?ty" "m_Client h' = m_Client h" using handler_updateState_keeps(1) [OF h'(2)] g(2) by simp_all
  have "shadow t' = map (Some \<circ> ih_addr) (enabled_of ?ty hs')"
    using Execute_update_ok [OF u ihm_wf_task [OF wf' t1] assms(8)] p b by (simp add: shadow_def)
  then have "Some (ih_addr h) \<in> set (shadow t')"
    using h'(1) en sh by (auto simp: enabled_of_def intro!: rev_image_eqI [of h'])
  then show ?thesis
    using t1 u h'(1) en sh getHandlerForStream_Some [OF assms(4)]
    by (intro exI [of _ ?t] exI [of _ hs'] exI [of _ t'] exI [of _ st'] exI [of _ h'] conjI) simp_all
qed

theorem start_request_served_witness:
  "\<exists>t1 hs' t' st' h'. task_of eHT_Transmit example_m4 = Some t1
    \<and> Execute_update example_raw (\<lambda>_. example_client) (m_IsoHandlers example_m4) t1 (\<lambda>_. []) = Some (hs', t', st')
    \<and> h' \<in> set hs' \<and> ih_addr h' = 0 \<and> m_Client h' = Some 5 \<and> isEnabled h' \<and> Some 0 \<in> set (shadow t')"
proof -
  have "map_option (\<lambda>h. (ih_addr h, m_type h)) (getHandlerForStream 5 example_m3) = Some (0, eHT_Transmit)" by code_simp
  then obtain h where h: "getHandlerForStream 5 example_m3 = Some h" "ih_addr h = 0" "m_type h = eHT_Transmit" by auto
  have "map_option m_in_busreset (task_of eHT_Transmit example_m3) = Some False" by code_simp
  then obtain t where t: "task_of (m_type h) example_m3 = Some t" "\<not> m_in_busreset t" using h(3) by auto
  have "length (filter (\<lambda>g. m_type g = m_type h) (m_IsoHandlers example_m3)) \<le> ISOHANDLERMANAGER_MAX_ISO_HANDLERS_PER_PORT"
    using length_filter_le [of "\<lambda>g. m_type g = m_type h" "m_IsoHandlers example_m3"]
    by (simp add: example_requests ISOHANDLERMANAGER_MAX_ISO_HANDLERS_PER_PORT_def)
  moreover have "roomy example_m3" using example_requests by (auto simp: roomy_def all_types option.pred_set)
  ultimately show ?thesis
    using start_request_served [OF example_reachable(1) _ example_steps(4) h(1) t(1) _ t(2), of example_raw] h
    by (auto simp: example_phases_def starts_cleanly_def example_raw_def)
qed

text \<open>
  A request can get lost when a thread is slow to start: \<^verbatim>\<open>Init\<close> runs in the new thread and
  clears the count of requests, also of those made after \<^verbatim>\<open>init\<close> of the manager returned. The rounds that follow
  then leave the handler stopped, although its start was reported as successful, until another request arrives.
\<close>

theorem late_init_loses_request:
  assumes "ihm_wf m" and "ihm_startHandlerForStream s cycle m = Some (True, m')" and "getHandlerForStream s m = Some h"
  shows "\<exists>m'' h'. task_init (m_type h) m' = Some m'' \<and> task_execute cl e (m_type h) m'' st = Some (Returned True, m'', st)
    \<and> getHandlerForStream s m'' = Some h' \<and> ih_NextState h' = eHS_Running \<and> \<not> isEnabled h'"
proof -
  have wf': "ihm_wf m'" by (rule ihm_wf_similar [OF assms(1) startHandler_similar [OF assms(2,1)]])
  have "ihm_State m = IHM_Running" using assms(2) by (auto simp: ihm_startHandlerForStream_def split: if_splits)
  then obtain t where "task_of (m_type h) m = Some t" using ihm_wf_running [OF assms(1)] by fastforce
  then have t: "task_of (m_type h) m' = Some (IsoTask_requestShadowMapUpdate t)" using startHandler_Some(2) [OF assms(2,3,1)] by simp
  let ?t = "IsoTask_Init (IsoTask_requestShadowMapUpdate t)"
  let ?m = "set_task (m_type h) ?t m'"
  have e: "IsoTask_Execute mo cl e hs ?t st = Some (Returned True, hs, ?t, st)" for mo hs
    by (simp add: IsoTask_Execute_def Execute_update_def IsoTask_Init_def)
  obtain g where g: "g \<in> set (m_IsoHandlers m')" "shape_of g = shape_of h" "ih_State g = eHS_Stopped" "ih_NextState g = eHS_Running"
    using startHandler_Some(1) [OF assms(2,3,1)] by blast
  then have "m_Client g = Some s" using getHandlerForStream_Some [OF assms(3)] by simp
  then obtain f where "getHandlerForStream s m' = Some f" using g(1)
    by (cases "getHandlerForStream s m'") (auto simp: getHandlerForStream_def find_None_iff isStreamRegistered_def)
  moreover from this have "f = g" using wf_stream_handler(2) [OF wf' _ g(1)] \<open>m_Client g = Some s\<close> by blast
  ultimately have "getHandlerForStream s ?m = Some g" by (simp add: getHandlerForStream_def)
  moreover have "task_init (m_type h) m' = Some ?m" using t by (simp add: task_init_def)
  moreover have "set_task ty t1 ((set_task ty t1 m1)\<lparr>m_IsoHandlers := m_IsoHandlers m1\<rparr>) = set_task ty t1 m1" for ty t1 m1
    by (simp add: set_task_def)
  then have "task_execute cl e (m_type h) ?m st = Some (Returned True, ?m, st)" by (simp add: task_execute_def e)
  ultimately show ?thesis using g(3,4) by (auto simp: isEnabled_def)
qed

theorem late_init_loses_request_witness:
  "\<exists>m'' h'. task_init eHT_Transmit example_m4 = Some m''
    \<and> task_execute (\<lambda>_. example_client) \<lparr>te_raw = example_raw, te_waits = [], te_poll = (\<lambda>evs. Poll_events evs), te_ctr = 0, te_callbacks = (\<lambda>_. ([], True))\<rparr>
        eHT_Transmit m'' (\<lambda>_. []) = Some (Returned True, m'', \<lambda>_. [])
    \<and> getHandlerForStream 5 m'' = Some h' \<and> \<not> isEnabled h'"
proof -
  have "map_option m_type (getHandlerForStream 5 example_m3) = Some eHT_Transmit" by code_simp
  then obtain h where h: "getHandlerForStream 5 example_m3 = Some h" "m_type h = eHT_Transmit" by auto
  have "ihm_wf example_m3" using cfg_inv_reachable [OF example_reachable(1)] by simp
  from late_init_loses_request [OF this example_steps(4) h(1)] show ?thesis unfolding h(2) by blast
qed

section \<open>Dead handlers\<close>

lemma diffTicks_age:
  assumes "timer_at now k off" and "timer_at seen k' off'"
    and d: "d = ((k * 3072 + off) - (k' * 3072 + off')) mod MAX_TICKS" "d < 1572864000"
  shows "sint (diffTicks (CYCLE_TIMER_TO_TICKS (ucast now)) (CYCLE_TIMER_TO_TICKS (ucast seen))) = d"
proof -
  let ?x = "k * 3072 + off" and ?y = "k' * 3072 + off'"
  have b: "0 \<le> ?x" "?x < MAX_TICKS" "0 \<le> ?y" "?y < MAX_TICKS" using assms(1,2) by (auto simp: timer_at_def)
  have "sint (diffTicks (CYCLE_TIMER_TO_TICKS (ucast now)) (CYCLE_TIMER_TO_TICKS (ucast seen))) =
      (let d = ?x - ?y in if 1572864000 < d then d - MAX_TICKS else if d < -1572864000 then d + MAX_TICKS else d)"
    using sint_diffTicks [of "CYCLE_TIMER_TO_TICKS (ucast now)" "CYCLE_TIMER_TO_TICKS (ucast seen)"] b
    by (simp add: timer_at_ticks [OF assms(1)] timer_at_ticks [OF assms(2)])
  moreover have "d = (if ?x < ?y then ?x - ?y + MAX_TICKS else ?x - ?y)"
    unfolding d(1) using b mod_add_self2 [of "?x - ?y" MAX_TICKS] mod_pos_pos_trivial [of "?x - ?y + MAX_TICKS" MAX_TICKS]
      mod_pos_pos_trivial [of "?x - ?y" MAX_TICKS] by (cases "?x < ?y") simp_all
  ultimately show ?thesis using d(2) b unfolding Let_def by auto
qed

text \<open>
  A handler counts as dead exactly when its last packet is more than two seconds old. For ages below 64 seconds, across
  the wrap-around of the cycle timer, the check of a running handler that has seen packets changes nothing if the
  packet is at most two seconds old; otherwise the handler is stopped, its handle closed, and its client is
  told first that no more packets come and then that the handler died.
\<close>

theorem death_after_two_seconds:
  fixes k off k' off' :: int
  assumes "handler_ok h" and "isEnabled h" and "m_last_packet_handled_at h \<noteq> 0xFFFFFFFF"
    and "timer_at now k off" and "timer_at (m_last_packet_handled_at h) k' off'"
    and "d = ((k * 3072 + off) - (k' * 3072 + off')) mod MAX_TICKS" and "d < 64 * 24576000"
  shows "check_handler cl (CYCLE_TIMER_TO_TICKS (ucast now)) h hs st =
    (if d \<le> 2 * 24576000 then Some (False, hs, st)
     else Some (True, set_handler (h\<lparr>m_handle := False, ih_State := eHS_Stopped, ih_NextState := eHS_Stopped\<rparr>) hs,
       st(client_addr h := client_handlerDied (cl (client_addr h)) (client_packetsStopped (cl (client_addr h)) (st (client_addr h))))))"
proof -
  have "sint (diffTicks (CYCLE_TIMER_TO_TICKS (ucast now)) (CYCLE_TIMER_TO_TICKS (ucast (m_last_packet_handled_at h)))) = d"
    by (rule diffTicks_age [OF assms(4,5,6)]) (use assms(7) in simp)
  moreover have "sint (2 * ucast TICKS_PER_SECOND :: i64) = 2 * 24576000" by (simp add: consts_defs)
  moreover have "handler_notifyOfDeath cl h st = Some (h\<lparr>m_handle := False, ih_State := eHS_Stopped, ih_NextState := eHS_Stopped\<rparr>,
       st(client_addr h := client_handlerDied (cl (client_addr h)) (client_packetsStopped (cl (client_addr h)) (st (client_addr h)))))"
    using assms(1,2)
    by (auto simp: handler_notifyOfDeath_def notifyOfDeath_def IsoHandler_disable_def handler_ok_def isEnabled_def Let_def)
  ultimately show ?thesis using assms(2,3) by (simp add: check_handler_def word_sless_alt)
qed

theorem death_after_two_seconds_witness:
  "check_handler (\<lambda>_. example_client) (CYCLE_TIMER_TO_TICKS (ucast (0x02001000 :: u32)))
     ((example_handler eHT_Receive)\<lparr>m_last_packet_handled_at := 0xFE000000\<rparr>) [] (\<lambda>_. []) = Some (True, [], (\<lambda>_. [])(2 := []))"
proof -
  let ?h = "(example_handler eHT_Receive)\<lparr>m_last_packet_handled_at := 0xFE000000\<rparr>"
  have "timer_at 0x02001000 8001 0" "timer_at (m_last_packet_handled_at ?h) 1016000 0"
    by (simp_all add: timer_at_def CYCLE_TIMER_GET_SECS_def CYCLE_TIMER_GET_CYCLES_def CYCLE_TIMER_GET_OFFSET_def)
  from death_after_two_seconds [OF _ _ _ this refl, of "\<lambda>_. example_client" "[]" "\<lambda>_. []"] show ?thesis
    by (simp add: example_handler_def IsoHandler_new_def handler_ok_def isEnabled_def client_addr_def example_client_def set_handler_def)
qed

text \<open>A handler that the check would stop.\<close>

definition overdue :: "u64 \<Rightarrow> iso_handler \<Rightarrow> bool" where
  "overdue now h \<longleftrightarrow> isEnabled h \<and> m_last_packet_handled_at h \<noteq> 0xFFFFFFFF
     \<and> 2 * ucast TICKS_PER_SECOND <s diffTicks now (CYCLE_TIMER_TO_TICKS (ucast (m_last_packet_handled_at h)))"

lemma find_dead_quiet:
  assumes "distinct (map ih_addr hs)" and "alive hs as" and "\<forall>h\<in>set hs. Some (ih_addr h) \<in> set as \<longrightarrow> \<not> overdue now h"
  shows "find_dead cl now as hs st = Some (\<exists>h\<in>set hs. Some (ih_addr h) \<in> set as \<and> \<not> isEnabled h, hs, st)"
  using assms(2,3)
proof (induction as)
  case (Cons a as)
  obtain h where h: "a = Some (ih_addr h)" "h \<in> set hs" using Cons.prems(1) by auto
  have at: "handler_at hs (ih_addr h) = Some h" using assms(1) h(2) by (rule handler_at_member)
  have inj: "g = h" if "g \<in> set hs" "ih_addr g = ih_addr h" for g using assms(1) that h(2) by (auto simp: distinct_map dest: inj_onD)
  have "check_handler cl now h hs st = Some (\<not> isEnabled h, hs, st)"
    using Cons.prems(2) h by (auto simp: check_handler_def overdue_def)
  moreover have "find_dead cl now as hs st = Some (\<exists>h\<in>set hs. Some (ih_addr h) \<in> set as \<and> \<not> isEnabled h, hs, st)"
    using Cons by auto
  ultimately show ?case using h at inj by auto
qed simp

text \<open>
  One stopped handler blocks its task: as long as a handler of the shadow map is stopped, for instance since it
  died, a round iterates no handler at all, whatever events the others have, and does not ask for an update
  that would take the handler out. The task also counts as not running from then on, and bus
  resets are no longer passed on to its handlers.
\<close>

theorem stopped_handler_blocks_task:
  assumes "distinct (map ih_addr hs)" and "alive hs (shadow t)"
    and "\<forall>h\<in>set hs. Some (ih_addr h) \<in> set (shadow t) \<longrightarrow> \<not> overdue (CYCLE_TIMER_TO_TICKS (ucast (te_ctr e))) h"
    and "h \<in> set hs" and "Some (ih_addr h) \<in> set (shadow t)" and "\<not> isEnabled h"
    and "te_poll e (map events (take (m_poll_nfds_shadow t) (m_poll_fds_shadow t))) = Poll_events evs"
  shows "\<exists>t'. Execute_polled mo cl e hs t st = Some (True, hs, t', st) \<and> shadow t' = shadow t \<and> request_update t' = request_update t
    \<and> IsoTask_handleBusReset cl hs t' st' = Some (True, hs, t', st')"
proof -
  have "find_dead cl (CYCLE_TIMER_TO_TICKS (ucast (te_ctr e))) (take (m_poll_nfds_shadow t) (m_IsoHandler_map_shadow t)) hs st = Some (True, hs, st)"
    using find_dead_quiet [OF assms(1-3), of cl st] assms(4-6) unfolding shadow_def by auto
  then show ?thesis using assms(7) by (simp add: Execute_polled_def Let_def IsoTask_handleBusReset_def shadow_def)
qed

theorem stopped_handler_blocks_task_witness:
  "\<exists>t'. Execute_polled False (\<lambda>_. example_client)
      \<lparr>te_raw = example_raw, te_waits = [], te_poll = (\<lambda>_. Poll_events [1, 1]), te_ctr = 0, te_callbacks = (\<lambda>_. ([], True))\<rparr>
      [example_handler eHT_Receive, (example_handler eHT_Receive)\<lparr>ih_addr := 7, ih_State := eHS_Stopped\<rparr>]
      (example_memory\<lparr>m_IsoHandler_map_shadow := [Some 1, Some 7], m_poll_nfds_shadow := 2\<rparr>) (\<lambda>_. []) =
    Some (True, [example_handler eHT_Receive, (example_handler eHT_Receive)\<lparr>ih_addr := 7, ih_State := eHS_Stopped\<rparr>], t', \<lambda>_. [])
    \<and> shadow t' = [Some 1, Some 7]"
proof -
  let ?g = "example_handler eHT_Receive" and ?h = "(example_handler eHT_Receive)\<lparr>ih_addr := 7, ih_State := eHS_Stopped\<rparr>"
  let ?t = "example_memory\<lparr>m_IsoHandler_map_shadow := [Some 1, Some 7], m_poll_nfds_shadow := 2\<rparr>"
  let ?e = "\<lparr>te_raw = example_raw, te_waits = [] :: raw1394_iso_disposition list wait_event list, te_poll = (\<lambda>_. Poll_events [1, 1]), te_ctr = 0,
    te_callbacks = (\<lambda>_. ([], True))\<rparr>"
  have s: "shadow ?t = [Some 1, Some 7]" by (simp add: shadow_def)
  have "\<exists>t'. Execute_polled False (\<lambda>_. example_client) ?e [?g, ?h] ?t (\<lambda>_. []) = Some (True, [?g, ?h], t', \<lambda>_. []) \<and> shadow t' = shadow ?t
      \<and> request_update t' = request_update ?t \<and> IsoTask_handleBusReset (\<lambda>_. example_client) [?g, ?h] t' (\<lambda>_. []) = Some (True, [?g, ?h], t', \<lambda>_. [])"
    by (rule stopped_handler_blocks_task [of "[?g, ?h]" ?t ?e ?h])
       (simp_all add: shadow_def example_handler_def IsoHandler_new_def overdue_def isEnabled_def)
  then show ?thesis unfolding s by blast
qed

section \<open>Deleted handlers\<close>

lemma select_handlers_dangling:
  assumes "Some a \<in> set as" and "a \<notin> ih_addr ` set hs"
  shows "select_handlers cl hs st as fds = None"
  using assms(1)
proof (induction as arbitrary: fds)
  case (Cons x as)
  have "handler_at hs a = None" using assms(2) by (auto simp: handler_at_def find_None_iff)
  then show ?case using Cons by (cases x; cases fds) (auto simp: bind_eq_None_conv)
qed simp

text \<open>
  C24. Unregistering the stream of a handler that died can crash its task. The handler has been stopped by the task
  itself, so the stream can be unregistered and the handler is deleted at once; but it is still in the
  shadow map. A task that waits for activity at that moment goes on with the old map: the request for an
  update that the deletion makes is only looked at in the next round, and the task follows the
  address of the deleted handler.
\<close>

theorem unregister_dead_handler_dangles:
  assumes "ihm_wf m" and "getHandlerForStream s m = Some h" and "\<not> isEnabled h"
    and "task_of ty m = Some t" and "Some (ih_addr h) \<in> set (shadow t)"
  shows "\<exists>m' t'. IsoHandlerManager_unregisterStream s m = Some (True, m') \<and> task_of ty m' = Some t'
    \<and> request_update t' = request_update t + 1 \<and> poll_setup cl (m_IsoHandlers m') ws t' st = None"
proof -
  obtain m' where u: "IsoHandlerManager_unregisterStream s m = Some (True, m')"
    and hs: "m_IsoHandlers m' = filter (\<lambda>g. ih_addr g \<noteq> ih_addr h) (m_IsoHandlers m)"
    and t: "task_of ty m' = Some (IsoTask_requestShadowMapUpdate t)"
    using unregisterStream_wf [OF assms(1), of s] assms(2-4) by auto
  let ?t = "IsoTask_requestShadowMapUpdate t"
  have "Some (ih_addr h) \<in> set (take (m_poll_nfds_shadow ?t) (m_IsoHandler_map_shadow ?t))"
    using assms(5) by (simp add: shadow_def IsoTask_requestShadowMapUpdate_def signalActivity_def)
  then have "select_handlers cl (m_IsoHandlers m') st (take (m_poll_nfds_shadow ?t) (m_IsoHandler_map_shadow ?t)) (m_poll_fds_shadow ?t) = None"
    using hs by (intro select_handlers_dangling) auto
  then have "poll_setup cl (m_IsoHandlers m') ws ?t st = None" by (subst poll_setup.simps) simp
  then show ?thesis using u t by (auto simp: IsoTask_requestShadowMapUpdate_def signalActivity_def)
qed

theorem unregister_dead_handler_dangles_witness:
  "\<exists>m m' t'. IsoHandlerManager_unregisterStream 5 m = Some (True, m') \<and> task_of eHT_Transmit m' = Some t'
    \<and> poll_setup (\<lambda>_. example_client) (m_IsoHandlers m') [] t' (\<lambda>_. []) = None"
proof -
  have "map_option (\<lambda>h. (ih_addr h, isEnabled h)) (getHandlerForStream 5 example_m3) = Some (0, False)" by code_simp
  then obtain h where h: "getHandlerForStream 5 example_m3 = Some h" "ih_addr h = 0" "\<not> isEnabled h" by auto
  obtain t where t: "task_of eHT_Transmit example_m3 = Some t" using example_requests(3) by auto
  have wf: "ihm_wf example_m3" using cfg_inv_reachable [OF example_reachable(1)] by simp
  let ?t = "t\<lparr>m_IsoHandler_map_shadow := (m_IsoHandler_map_shadow t)[0 := Some 0], m_poll_nfds_shadow := 1\<rparr>"
  let ?m = "set_task eHT_Transmit ?t example_m3"
  have ok: "task_ok eHT_Transmit t" by (rule ihm_wf_task [OF wf t])
  then have "task_ok eHT_Transmit ?t" by (simp add: task_ok_def)
  then have "ihm_wf ?m" by (rule ihm_wf_set_task [OF wf])
  moreover have "Some (ih_addr h) \<in> set (shadow ?t)"
    using ok h(2) by (cases "m_IsoHandler_map_shadow t") (simp_all add: shadow_def task_ok_def ISOHANDLERMANAGER_MAX_ISO_HANDLERS_PER_PORT_def)
  moreover have "getHandlerForStream 5 ?m = Some h" using h(1) by (simp add: getHandlerForStream_def)
  moreover have "task_of eHT_Transmit ?m = Some ?t" by simp
  ultimately show ?thesis using unregister_dead_handler_dangles [of ?m 5 h eHT_Transmit ?t] h(3) by blast
qed

text \<open>
  The check for too many handlers comes after the handler has been entered: with all sixteen entries in use,
  another running handler of the type is written past the end of the arrays.
\<close>

lemma updateShadowMap_loop_overflow:
  assumes "\<forall>h\<in>set hs. m_type h = ty \<longrightarrow> isEnabled h \<and> ih_NextState h = eHS_Running" and "task_ok ty t"
    and "ISOHANDLERMANAGER_MAX_ISO_HANDLERS_PER_PORT < cnt + length (filter (\<lambda>h. m_type h = ty) hs)"
    and "cnt \<le> ISOHANDLERMANAGER_MAX_ISO_HANDLERS_PER_PORT"
  shows "updateShadowMap_loop raw cl hs cnt t st = None"
  using assms
proof (induction hs arbitrary: cnt t st)
  case (Cons h hs)
  show ?case
  proof (cases "m_type h = ty")
    case True
    then have ty: "\<not> m_type h \<noteq> m_handlerType t" using Cons.prems(2) by (simp add: task_ok_def)
    have en: "isEnabled h" and u: "handler_updateState raw cl h st = Some (h, st)"
      using Cons.prems(1) True by (simp_all add: handler_updateState_def IsoHandler_updateState_def isEnabled_def)
    show ?thesis
    proof (cases "shadow_entry h cnt t")
      case None
      then show ?thesis using ty u by simp
    next
      case (Some r)
      obtain cnt1 t1 where r: "shadow_entry h cnt t = Some (cnt1, t1)" using Some by (cases r) simp
      note e = shadow_entry_ok [OF r Cons.prems(2) True Cons.prems(4)]
      have "updateShadowMap_loop raw cl hs cnt1 t1 st = None"
        by (rule Cons.IH) (use Cons.prems(1,3) True en e in \<open>auto simp: enabled_of_def\<close>)
      then show ?thesis using ty u r e by simp
    qed
  next
    case False
    then have "m_type h \<noteq> m_handlerType t" using Cons.prems(2) by (simp add: task_ok_def)
    moreover have "updateShadowMap_loop raw cl hs cnt t st = None" using Cons False by auto
    ultimately show ?thesis by simp
  qed
qed simp

section \<open>Parameters of a handler\<close>

text \<open>
  C40. The interval between interrupts is at least one packet and leaves at least two interrupts per
  turn of the ring of buffers; when the buffers do not limit it, a period of \<open>p\<close> packets has at least the configured number of
  interrupts, as long as it has more packets than that.
\<close>

theorem irq_interval_bounds:
  assumes "0 < sint min_interrupts" and "2 \<le> sint buffers" and "0 < uint p" "uint p < 2 ^ 31"
  shows "\<exists>irq. irq_interval p min_interrupts buffers = Some irq \<and> 1 \<le> sint irq \<and> 2 * sint irq \<le> sint buffers
    \<and> (sint min_interrupts < uint p \<longrightarrow> sint irq * sint min_interrupts < uint p)"
proof -
  let ?n = "sint min_interrupts" and ?p = "uint p"
  define q where "q = (?p - 1) div ?n"
  have n: "uint min_interrupts = ?n" using assms(1) by (simp add: uint_of_sint)
  have "sint (p - 1) = ?p - 1" using sint_diff_small [of p 1] assms(3,4) by simp
  then have "uint (p - 1) = ?p - 1" using assms(3) uint_of_sint [of "p - 1"] by simp
  then have u: "uint ((p - 1) div min_interrupts) = q" by (simp add: uint_div n q_def)
  have q: "0 \<le> q" using assms(1,3) by (simp add: q_def pos_imp_zdiv_nonneg_iff)
  have "q * ?n + (?p - 1) mod ?n = ?p - 1" unfolding q_def by (rule div_mult_mod_eq)
  then have qn: "q * ?n < ?p" using assms(1) pos_mod_sign [of ?n "?p - 1"] by linarith
  have "q \<le> q * ?n" using q assms(1) by (simp add: mult_le_cancel_left1)
  then have s: "sint ((p - 1) div min_interrupts) = q" using sint_of_uint [of "(p - 1) div min_interrupts"] u qn assms(4) by simp
  let ?half = "sint buffers div 2"
  have "?half < 2 ^ 31" using sint_lt [of buffers] by simp
  then have b: "sint (of_int (sint buffers sdiv 2) :: i32) = ?half" "1 \<le> ?half"
    using assms(2) by (simp_all add: signed_divide_int_def sint_of_int_in_range)
  define i where "i = (if q \<le> 0 then 1 else q)"
  have i: "1 \<le> i" "?n < ?p \<longrightarrow> i * ?n < ?p" using q qn by (auto simp: i_def)
  define irq :: i32 where "irq = (if ?half < i then of_int (sint buffers sdiv 2) else if q \<le> 0 then 1 else (p - 1) div min_interrupts)"
  have "irq_interval p min_interrupts buffers = Some irq"
    using assms(1) by (auto simp: irq_interval_def irq_def Let_def word_sle_eq word_sless_alt s b(1) i_def)
  moreover have r: "sint irq = (if ?half < i then ?half else i)" by (simp add: irq_def i_def b(1) s)
  moreover have "?n < ?p \<longrightarrow> sint irq * ?n < ?p"
    using i assms(1) unfolding r by (auto intro: le_less_trans [OF mult_right_mono [of ?half i ?n]])
  ultimately show ?thesis using i(1) b(2) by auto
qed

theorem irq_interval_bounds_witness:
  "\<exists>irq. irq_interval 17 (min_interrupts_per_period default_options) (max_nb_buffers_xmit default_options) = Some irq
    \<and> 1 \<le> sint irq \<and> 2 * sint irq \<le> 128 \<and> sint irq * 2 < 17"
  using irq_interval_bounds [of "min_interrupts_per_period default_options" "max_nb_buffers_xmit default_options" 17]
  by (auto simp: default_options_def)

end
