(* ===== verification/IsoStreams.thy ===== *)
theory IsoStreams
  imports AmdtpStreams IsoHandler
begin

text \<open>
  Handlers and AMDTP stream processors together: what a stream makes of the lost cycles its handler counts.
\<close>

section \<open>Lost cycles\<close>

text \<open>A running stream that is told of lost cycles is on its way out, whatever is in the packet.\<close>

definition leaving :: "u32 \<Rightarrow> 'm stream_processor_scheme \<Rightarrow> bool" where
  "leaving ctr s \<longleftrightarrow> m_state s = ePS_WaitingForStreamDisable \<and> m_next_state s = ePS_WaitingForStreamDisable \<and> m_in_xrun s
     \<and> m_cycle_to_switch_state s = pkt_cycles ctr + 1"

lemma leaving_private: "same_private s t \<Longrightarrow> leaving ctr s \<Longrightarrow> leaving ctr t"
  by (simp add: same_private_def leaving_def)

context sp_child_laws
begin

lemma putPacket_data_leaving:
  assumes "leaving ctr s" and "putPacket_data e ch d n ctr s = Some (r, u, s')"
  shows "leaving ctr s'"
proof -
  obtain r2 s2 where d: "processPacketData ch d n s = Some (r2, s2)" using assms(2) by (auto simp: putPacket_data_def bind_eq_Some_conv)
  have l: "leaving ctr s2" by (rule leaving_private [OF keeps_privateD [OF data d] assms(1)])
  then have "updateState e ch (s2\<lparr>m_in_xrun := True, m_cycle_to_switch_state := pkt_cycles ctr + 1, m_next_state := ePS_WaitingForStreamDisable\<rparr>)
      = Some (True, s2\<lparr>m_in_xrun := True, m_cycle_to_switch_state := pkt_cycles ctr + 1, m_next_state := ePS_WaitingForStreamDisable\<rparr>)"
    by (simp add: updateState_def leaving_def)
  then show ?thesis using assms(2) d l by (auto simp: putPacket_data_def try_update_def leaving_def split: if_splits)
qed

lemma putPacket_ok_leaving:
  assumes "leaving ctr s" and "putPacket_ok e ch d n ctr s = Some (r, u, s')"
  shows "leaving ctr s'"
proof -
  obtain t where t: "same_private s t" "putPacket_ok e ch d n ctr s = putPacket_rest e ch d n ctr t" by (rule putPacket_ok_adjusted)
  have l: "leaving ctr t" by (rule leaving_private [OF t(1) assms(1)])
  then have "putPacket_data e ch d n ctr t = Some (r, u, s')"
    using assms(2) t(2) by (simp add: putPacket_rest_def leaving_def)
  then show ?thesis by (rule putPacket_data_leaving [OF l])
qed

lemma putPacket_lost_cycles:
  assumes "m_state s = ePS_Running" and "dropped \<noteq> 0" and "putPacket e ch d n chan tag sy ctr dropped s = Some (r, u, s')"
  shows "leaving ctr s'"
proof -
  let ?s = "s\<lparr>m_last_timestamp2 := m_last_timestamp s\<rparr>"
  have h: "putPacket_header e ch d n tag sy ctr dropped ?s = Some (r, u, s')" using assms(1,3) by (simp add: putPacket_def Let_def)
  obtain r1 s1 where p: "processPacketHeader ch d n tag sy ctr ?s = Some (r1, s1)" using h by (auto simp: putPacket_header_def bind_eq_Some_conv)
  have st: "m_state s1 = ePS_Running" using keeps_privateD [OF header p] assms(1) by (simp add: same_private_def)
  let ?t = "s1\<lparr>m_correct_last_timestamp := True, m_in_xrun := True, m_cycle_to_switch_state := pkt_cycles ctr + 1,
    m_next_state := ePS_WaitingForStreamDisable\<rparr>"
  have u: "updateState e ch ?t = Some (True, ?t\<lparr>m_state := ePS_WaitingForStreamDisable\<rparr>)"
    using st by (simp add: updateState_def doWaitForStreamDisable_def)
  have l: "leaving ctr (?t\<lparr>m_state := ePS_WaitingForStreamDisable\<rparr>)" by (simp add: leaving_def)
  show ?thesis
    using h p st u assms(2) l putPacket_ok_leaving [OF l] by (auto simp: putPacket_header_def try_update_def Let_def split: if_splits)
qed

lemma putPacket_leaves:
  assumes "leaving ctr s" and "cycle_due ctr' s" and "putPacket e ch d n chan tag sy ctr' dropped s = Some (r, u, s')"
  shows "m_state s' = ePS_DryRunning \<and> m_in_xrun s'"
proof -
  let ?s = "s\<lparr>m_last_timestamp2 := m_last_timestamp s, m_next_state := ePS_DryRunning\<rparr>"
  have "cycle_due ctr' (s\<lparr>m_last_timestamp2 := m_last_timestamp s\<rparr>)" using assms(2) by (simp add: cycle_due_def)
  then have t: "try_update e ch ?s (\<lambda>s. Some (RAW1394_ISO_OK, (), s)) () = Some (r, u, s')"
    using assms(1,3) by (simp add: putPacket_def leaving_def Let_def)
  have "updateState e ch ?s = doDryRunning e ?s" using assms(1) by (simp add: updateState_def leaving_def)
  then obtain ok where "doDryRunning e ?s = Some (ok, s')"
    using t by (auto simp: try_update_def bind_eq_Some_conv split: if_splits)
  then show ?thesis using assms(1) by (auto simp: doDryRunning_def leaving_def on_buffer_def bind_eq_Some_conv)
qed

end

lemma pkt_cycles_packet_ctr:
  fixes k d off :: int
  assumes "timer_at now k off" and "\<bar>d\<bar> < 4000"
  shows "uint (pkt_cycles (packet_ctr now (of_int ((k + d) mod 8000)))) = (k + d) mod 8000"
proof -
  have "0 \<le> off" "off < 3072" using assms(1) by (simp_all add: timer_at_def)
  then show ?thesis
    using packet_ctr_word [OF assms, of "of_int ((k + d) mod 8000)"] timer_of_cycles(1) [of off "k + d"]
    by (simp add: uint_pkt_cycles uint_cycle_word)
qed

lemma due_next_cycle:
  assumes "uint (pkt_cycles ctr) = k mod 8000" and "uint (pkt_cycles ctr') = (k + 1) mod 8000" and "m_cycle_to_switch_state s = pkt_cycles ctr + 1"
  shows "cycle_due ctr' s"
proof (cases "k mod 8000 = 7999")
  case True
  then have "(k + 1) mod 8000 = 0" using mod_add_left_eq [of k 8000 1] by simp
  then have "pkt_cycles ctr = 7999" "pkt_cycles ctr' = 0" using assms(1,2) True by (simp_all add: word_uint_eq_iff)
  then show ?thesis using assms(3) by (simp add: cycle_due_def diffCycles_def consts_defs Let_def word_sle_eq word_sless_alt)
next
  case False
  moreover have "k mod 8000 < 8000" by simp
  ultimately have "(k mod 8000 + 1) mod 8000 = k mod 8000 + 1" by (intro mod_pos_pos_trivial) simp_all
  then have "(k + 1) mod 8000 = k mod 8000 + 1" by (simp add: mod_add_left_eq)
  then have "uint (pkt_cycles ctr') = uint (pkt_cycles ctr) + 1" using assms(1,2) by simp
  then have "of_int (uint (pkt_cycles ctr')) = (of_int (uint (pkt_cycles ctr) + 1) :: u32)" by (simp only:)
  then have "pkt_cycles ctr' = pkt_cycles ctr + 1" by simp
  then show ?thesis using assms(3) by (simp add: cycle_due_def diffCycles_def consts_defs Let_def word_sle_eq word_sless_alt)
qed

lemma sp_client_putPacket:
  "client_putPacket (sp_client e ch) d len chan tag sy ctr m s = map_option (\<lambda>(r, _, s). (r, s)) (putPacket e ch d len chan tag sy ctr m s)"
  by (simp add: sp_client_def)

text \<open>One packet, \<open>n\<close> cycles after the one before.\<close>

lemma received_gap:
  fixes k n :: int
  assumes "m_last_cycle h = of_int (k mod 8000)" and "0 < n" "n < 4000" and "m_Client h \<noteq> None"
    and "run_callbacks False (sp_client e ch) (received (k + n, d, len, chan, tag, sy) # cbs) h s = Some (rs, h', s')"
  obtains r u s1 rs1 h1 where
    "putPacket e ch d len chan tag sy (packet_ctr (m_last_now h) (of_int ((k + n) mod 8000))) (of_int (n - 1)) s = Some (r, u, s1)"
    and "h1 = h\<lparr>m_last_cycle := of_int ((k + n) mod 8000), m_last_packet_handled_at := packet_ctr (m_last_now h) (of_int ((k + n) mod 8000)),
      m_packets := m_packets h + 1\<rparr>"
    and "run_callbacks False (sp_client e ch) cbs h1 s1 = Some (rs1, h', s')"
  using assms(5) IsoHandler_putPacket_gap [OF assms(1-4), of "sp_client e ch" d len chan tag sy s] that
  by (auto simp: iso_receive_handler_def bind_eq_Some_conv sp_client_putPacket)


definition example_running :: amdtp_receive where
  "example_running = example_idle\<lparr>m_state := ePS_Running,
     m_data_buffer := (TimestampedBuffer_new exact)\<lparr>m_event_buffer := ffado_ringbuffer_create (\<lambda>_. 0) 16\<rparr>\<rparr>"


end
