(* ===== verification/StreamProcessorManager.thy ===== *)
theory StreamProcessorManager
  imports IsoHandlerManager
begin

text \<open>
  The stream processor manager, \<^verbatim>\<open>libstreaming/StreamProcessorManager.cpp\<close>, and the calls of the device manager
  that use it. The manager keeps the stream processors of all devices, starts them in step, waits for
  each period of frames and transfers it. Its state is a record with the members of the class; the stream
  processors are a store from addresses to objects. The thread of the client runs the manager while the packet threads
  work on the processors: what they do to the processors while the client sleeps for the \<open>n\<close>-th time is
  the field \<open>se_others\<close> of the environment. Between two sleeps the operations of the client are one step. An operation is
  \<open>None\<close> where the program would abort, divide by zero or never return.
\<close>

section \<open>Data\<close>

text \<open>
  A port is known by its address. \<open>slaveMode\<close> is the option of that name. Members that are never used
  (\<^verbatim>\<open>m_xrun_happened\<close>) are left out.
\<close>

record stream_manager =
  m_time_of_transfer :: u64
  m_time_of_transfer2 :: u64
  m_delayed_usecs :: i32
  m_is_slave :: bool
  slaveMode :: bool
  m_SyncSource :: "nat option"
  m_activity_wait_timeout_nsec :: i64
  spm_nb_buffers :: u32
  spm_period :: u32
  m_sync_delay :: u32
  spm_audio_datatype :: eADT_AudioDataType
  spm_nominal_framerate :: u32
  m_xruns :: u32
  m_shutdown_needed :: bool
  m_nbperiods :: u32
  spm_max_diff_ticks :: i32
  m_thread_realtime :: bool
  m_thread_priority :: i32
  m_ReceiveProcessors :: "nat list"
  m_TransmitProcessors :: "nat list"
  m_CapturePorts_shadow :: "nat list"
  m_PlaybackPorts_shadow :: "nat list"

text \<open>The manager, the processors and the number of times the client has slept.\<close>

record 'm spm_world =
  w_spm :: stream_manager
  w_sps :: "nat \<Rightarrow> 'm stream_processor_scheme"
  w_now :: nat

text \<open>
  The environment: floating point, fresh memory and the kind of build as for a processor; the subclass of
  each processor; the other threads; the bus time, the system time and what the handler manager answers, which depend on
  the time; the configuration file.
\<close>

record 'm spm_env =
  se_fpa :: fparith
  se_fresh :: "nat \<Rightarrow> u8"
  se_debug :: bool
  se_debug_messages :: bool
  se_child :: "nat \<Rightarrow> sp_env \<Rightarrow> 'm stream_processor_scheme sp_child"
  se_others :: "nat \<Rightarrow> (nat \<Rightarrow> 'm stream_processor_scheme) \<Rightarrow> nat \<Rightarrow> 'm stream_processor_scheme"
  se_node_id :: "nat \<Rightarrow> u32"
  se_ticks :: "nat \<Rightarrow> u64"
  se_time :: "nat \<Rightarrow> u64"
  getSystemTimeForCycleTimerTicks :: "nat \<Rightarrow> u64 \<Rightarrow> u64"
  se_start :: "nat \<Rightarrow> nat \<Rightarrow> u64 \<Rightarrow> bool"
  se_stop :: "nat \<Rightarrow> nat \<Rightarrow> bool"
  se_iso :: iso_manager
  se_config :: "string \<Rightarrow> i32 option"

definition StreamProcessorManager_new :: "u32 \<Rightarrow> u32 \<Rightarrow> u32 \<Rightarrow> i32 \<Rightarrow> bool \<Rightarrow> i32 \<Rightarrow> stream_manager" where
  "StreamProcessorManager_new period framerate nb_buffers junk rt prio =
     \<lparr>m_time_of_transfer = 0, m_time_of_transfer2 = 0, m_delayed_usecs = junk, m_is_slave = False, slaveMode = False,
      m_SyncSource = None, m_activity_wait_timeout_nsec = 0, spm_nb_buffers = nb_buffers, spm_period = period,
      m_sync_delay = 0, spm_audio_datatype = eADT_Float, spm_nominal_framerate = framerate, m_xruns = 0,
      m_shutdown_needed = False, m_nbperiods = 0, spm_max_diff_ticks = 50, m_thread_realtime = rt,
      m_thread_priority = prio, m_ReceiveProcessors = [], m_TransmitProcessors = [],
      m_CapturePorts_shadow = [], m_PlaybackPorts_shadow = []\<rparr>"

definition SIGNAL_DELAY_TICKS :: i32 where "SIGNAL_DELAY_TICKS = 0"
definition XMIT_PREBUFFER_FRAMES :: i32 where "XMIT_PREBUFFER_FRAMES = 100"
definition CYCLES_FOR_DRYRUN :: nat where "CYCLES_FOR_DRYRUN = 40000"
definition CYCLES_FOR_STARTUP :: i32 where "CYCLES_FOR_STARTUP = 200"
definition PRESTART_CYCLES_FOR_XMIT :: i32 where "PRESTART_CYCLES_FOR_XMIT = 20"
definition PRESTART_CYCLES_FOR_RECV :: i32 where "PRESTART_CYCLES_FOR_RECV = 0"
definition SYNCSTART_TRIES :: nat where "SYNCSTART_TRIES = 10"
definition SYNC_WAIT_TIME_MSEC :: i32 where "SYNC_WAIT_TIME_MSEC = 200"
definition NB_ALIGN_TRIES :: i32 where "NB_ALIGN_TRIES = 40"
definition ALIGN_AVERAGE_TIME_MSEC :: i32 where "ALIGN_AVERAGE_TIME_MSEC = 400"

text \<open>A setting of the configuration file, or the given default.\<close>

definition getValueForSetting :: "'m spm_env \<Rightarrow> string \<Rightarrow> i32 \<Rightarrow> i32" where
  "getValueForSetting e path ref = (case se_config e path of Some v \<Rightarrow> v | None \<Rightarrow> ref)"

section \<open>Calls of the processors\<close>

text \<open>What the processor at an address finds in its environment.\<close>

definition spm_settings :: "'m spm_world \<Rightarrow> sp_manager" where
  "spm_settings w =
     \<lparr>m_nb_buffers = spm_nb_buffers (w_spm w), m_period = spm_period (w_spm w),
      m_audio_datatype = spm_audio_datatype (w_spm w), m_nominal_framerate = spm_nominal_framerate (w_spm w),
      sync_ticks_per_frame = (case m_SyncSource (w_spm w) of None \<Rightarrow> 0 | Some a \<Rightarrow> getTicksPerFrame (w_sps w a))\<rparr>"

definition env_of :: "'m spm_env \<Rightarrow> 'm spm_world \<Rightarrow> nat \<Rightarrow> sp_env" where
  "env_of e w a =
     \<lparr>fpa = se_fpa e, fresh = se_fresh e, debug_build = se_debug e, debug_messages = se_debug_messages e,
      spm = spm_settings w, getLocalNodeId = se_node_id e (w_now w), getCycleTimerTicks = se_ticks e (w_now w),
      startHandlerForStream = se_start e (w_now w) a, stopHandlerForStream = se_stop e (w_now w) a\<rparr>"

definition child_of :: "'m spm_env \<Rightarrow> 'm spm_world \<Rightarrow> nat \<Rightarrow> 'm stream_processor_scheme sp_child" where
  "child_of e w a = se_child e a (env_of e w a)"

definition put_sp :: "nat \<Rightarrow> 'm stream_processor_scheme \<Rightarrow> 'm spm_world \<Rightarrow> 'm spm_world" where
  "put_sp a s w = w\<lparr>w_sps := (w_sps w)(a := s)\<rparr>"

text \<open>A call that may abort, one that cannot, and one without a result.\<close>

definition sp_call ::
  "'m spm_env \<Rightarrow> nat \<Rightarrow> (sp_env \<Rightarrow> 'm stream_processor_scheme sp_child \<Rightarrow> 'm stream_processor_scheme
   \<Rightarrow> ('r \<times> 'm stream_processor_scheme) option) \<Rightarrow> 'm spm_world \<Rightarrow> ('r \<times> 'm spm_world) option" where
  "sp_call e a f w =
     do { (r, s) \<leftarrow> f (env_of e w a) (child_of e w a) (w_sps w a); Some (r, put_sp a s w) }"

definition sp_act ::
  "'m spm_env \<Rightarrow> nat \<Rightarrow> (sp_env \<Rightarrow> 'm stream_processor_scheme \<Rightarrow> bool \<times> 'm stream_processor_scheme)
   \<Rightarrow> 'm spm_world \<Rightarrow> bool \<times> 'm spm_world" where
  "sp_act e a f w = (let (r, s) = f (env_of e w a) (w_sps w a) in (r, put_sp a s w))"

definition sp_set ::
  "'m spm_env \<Rightarrow> (sp_env \<Rightarrow> 'm stream_processor_scheme \<Rightarrow> 'm stream_processor_scheme) \<Rightarrow> nat \<Rightarrow> 'm spm_world \<Rightarrow> 'm spm_world" where
  "sp_set e f a w = put_sp a (f (env_of e w a) (w_sps w a)) w"

definition set_spm :: "(stream_manager \<Rightarrow> stream_manager) \<Rightarrow> 'm spm_world \<Rightarrow> 'm spm_world" where
  "set_spm f w = w\<lparr>w_spm := f (w_spm w)\<rparr>"

definition all_sps :: "'m spm_world \<Rightarrow> nat list" where
  "all_sps w = m_ReceiveProcessors (w_spm w) @ m_TransmitProcessors (w_spm w)"

text \<open>A loop over processors that returns at the first failure, and one that goes on and remembers it.\<close>

fun until_failure ::
  "('a \<Rightarrow> 'm spm_world \<Rightarrow> (bool \<times> 'm spm_world) option) \<Rightarrow> 'a list \<Rightarrow> 'm spm_world \<Rightarrow> (bool \<times> 'm spm_world) option" where
  "until_failure f [] w = Some (True, w)"
| "until_failure f (a # as) w =
     do { (ok, w) \<leftarrow> f a w; if ok then until_failure f as w else Some (False, w) }"

fun for_each ::
  "('a \<Rightarrow> 'm spm_world \<Rightarrow> (bool \<times> 'm spm_world) option) \<Rightarrow> 'a list \<Rightarrow> 'm spm_world \<Rightarrow> (bool \<times> 'm spm_world) option" where
  "for_each f [] w = Some (True, w)"
| "for_each f (a # as) w =
     do { (ok, w) \<leftarrow> f a w; (rest, w) \<leftarrow> for_each f as w; Some (ok \<and> rest, w) }"

text \<open>The client sleeps while the other threads work.\<close>

definition spm_sleep :: "'m spm_env \<Rightarrow> 'm spm_world \<Rightarrow> 'm spm_world" where
  "spm_sleep e w = w\<lparr>w_sps := se_others e (w_now w) (w_sps w), w_now := w_now w + 1\<rparr>"

fun spm_sleeps :: "'m spm_env \<Rightarrow> nat \<Rightarrow> 'm spm_world \<Rightarrow> 'm spm_world" where
  "spm_sleeps e n w = (if n = 0 then w else spm_sleeps e (n - 1) (spm_sleep e w))"

declare spm_sleeps.simps [simp del]

text \<open>
  The two loops that wait: \<open>wait_checked\<close> looks, sleeps and counts down until it has seen the condition;
  \<open>wait_first\<close> looks before it sleeps. The result is the remaining count.
\<close>

fun wait_checked :: "'m spm_env \<Rightarrow> ('m spm_world \<Rightarrow> bool) \<Rightarrow> nat \<Rightarrow> 'm spm_world \<Rightarrow> nat \<times> 'm spm_world" where
  "wait_checked e ready cnt w =
     (if cnt = 0 then (0, w)
      else if ready w then (cnt - 1, spm_sleep e w)
      else wait_checked e ready (cnt - 1) (spm_sleep e w))"

declare wait_checked.simps [simp del]

fun wait_first :: "'m spm_env \<Rightarrow> ('m spm_world \<Rightarrow> bool) \<Rightarrow> nat \<Rightarrow> 'm spm_world \<Rightarrow> nat \<times> 'm spm_world" where
  "wait_first e ready cnt w =
     (if \<not> ready w \<and> cnt \<noteq> 0 then wait_first e ready (cnt - 1) (spm_sleep e w) else (cnt, w))"

declare wait_first.simps [simp del]

section \<open>Activity\<close>

datatype sem_outcome = Sem_posted | Sem_ETIMEDOUT | Sem_EINTR | Sem_EINVAL | Sem_other

text \<open>The carry of nanoseconds into seconds.\<close>

function carry_nsec :: "int \<Rightarrow> int \<Rightarrow> int \<times> int" where
  "carry_nsec sec nsec = (if 1000000000 \<le> nsec then carry_nsec (sec + 1) (nsec - 1000000000) else (sec, nsec))"
  by pat_completeness auto
termination
  by (relation "measure (\<lambda>(_, nsec). nat nsec)") auto

declare carry_nsec.simps [simp del]

text \<open>
  \<open>now\<close> is the reading of the clock, \<open>None\<close> when it fails; \<open>sem\<close> tells how the wait for the semaphore ends,
  given the absolute timeout if there is one.
\<close>

definition spm_waitForActivity ::
  "(int \<times> int) option \<Rightarrow> ((int \<times> int) option \<Rightarrow> sem_outcome) \<Rightarrow> stream_manager \<Rightarrow> eActivityResult" where
  "spm_waitForActivity now sem m =
     (let result = (\<lambda>ts. case sem ts of Sem_posted \<Rightarrow> eAR_Activity | Sem_ETIMEDOUT \<Rightarrow> eAR_Timeout
                         | Sem_EINTR \<Rightarrow> eAR_Interrupted | _ \<Rightarrow> eAR_Error)
      in if 0 \<le>s m_activity_wait_timeout_nsec m then
           (case now of
              None \<Rightarrow> eAR_Error
            | Some (sec, nsec) \<Rightarrow> result (Some (carry_nsec sec (nsec + sint (m_activity_wait_timeout_nsec m)))))
         else result None)"

definition setActivityWaitTimeoutUsec :: "i32 \<Rightarrow> stream_manager \<Rightarrow> stream_manager" where
  "setActivityWaitTimeoutUsec usec m = m\<lparr>m_activity_wait_timeout_nsec := scast usec * 1000\<rparr>"

text \<open>Two periods in microseconds; the sampling rate must not be 0.\<close>

definition activity_timeout :: "stream_manager \<Rightarrow> i32" where
  "activity_timeout m = ucast ((2000000 * ucast (spm_period m) :: i64) div ucast (spm_nominal_framerate m))"

section \<open>Registration and parameters\<close>

text \<open>
  The ports the manager offers: those of the right direction, in the order of the processors.
\<close>

definition updateShadowLists :: "'m spm_world \<Rightarrow> 'm spm_world" where
  "updateShadowLists w =
     (let ports = (\<lambda>d as. concat (map (\<lambda>a. map p_addr (filter (\<lambda>p. m_Direction p = d) (m_Ports (w_sps w a)))) as))
      in set_spm (\<lambda>m. m\<lparr>m_CapturePorts_shadow := ports E_Capture (m_ReceiveProcessors m),
                        m_PlaybackPorts_shadow := ports E_Playback (m_TransmitProcessors m)\<rparr>) w)"

text \<open>\<open>f\<close> is the address of the new update handler.\<close>

definition registerProcessor :: "nat \<Rightarrow> nat \<Rightarrow> 'm spm_world \<Rightarrow> bool \<times> 'm spm_world" where
  "registerProcessor f a w =
     (let w = (if m_processor_type (w_sps w a) = ePT_Receive
               then set_spm (\<lambda>m. m\<lparr>m_ReceiveProcessors := m_ReceiveProcessors m @ [a]\<rparr>) w
               else set_spm (\<lambda>m. m\<lparr>m_TransmitProcessors := m_TransmitProcessors m @ [a]\<rparr>) w);
          w = put_sp a (snd (addPortManagerUpdateHandler (w_sps w a) f)) w
      in (True, updateShadowLists w))"

text \<open>\<open>mine\<close> tells the update handlers of this manager.\<close>

definition drop_handler :: "(nat \<Rightarrow> bool) \<Rightarrow> nat \<Rightarrow> 'm spm_world \<Rightarrow> 'm spm_world" where
  "drop_handler mine a w =
     (case getUpdateHandlerForPtr mine (w_sps w a) of
        None \<Rightarrow> w
      | Some f \<Rightarrow> put_sp a (snd (remPortManagerUpdateHandler (w_sps w a) f)) w)"

definition unregisterProcessor :: "(nat \<Rightarrow> bool) \<Rightarrow> nat \<Rightarrow> 'm spm_world \<Rightarrow> bool \<times> 'm spm_world" where
  "unregisterProcessor mine a w =
     (let m = w_spm w;
          recv = (m_processor_type (w_sps w a) = ePT_Receive)
      in if a \<notin> set (if recv then m_ReceiveProcessors m else m_TransmitProcessors m) then (False, w)
         else
           let w = (if m_SyncSource m = Some a then set_spm (m_SyncSource_update (\<lambda>_. None)) w else w);
               w = (if recv then set_spm (m_ReceiveProcessors_update (remove1 a)) w
                    else set_spm (m_TransmitProcessors_update (remove1 a)) w)
           in (True, updateShadowLists (drop_handler mine a w)))"

text \<open>Negative arguments stand for the current values.\<close>

definition streamingParamsOk :: "i32 \<Rightarrow> i32 \<Rightarrow> i32 \<Rightarrow> stream_manager \<Rightarrow> bool" where
  "streamingParamsOk period rate n_buffers m =
     (let period = (if period <s 0 then spm_period m else period);
          rate = (if rate <s 0 then spm_nominal_framerate m else rate);
          n_buffers = (if n_buffers <s 0 then spm_nb_buffers m else n_buffers)
      in if n_buffers <s 2 then False
         else
           let min_period = (if rate <s 56000 then 8 else if rate <s 112000 then 16 else 32)
           in \<not> period <s min_period)"

definition setPeriodSize :: "'m spm_env \<Rightarrow> u32 \<Rightarrow> 'm spm_world \<Rightarrow> 'm spm_world option" where
  "setPeriodSize e period w =
     (if period = spm_period (w_spm w) then Some w
      else
        let w = set_spm (\<lambda>m. m\<lparr>spm_period := period\<rparr>) w
        in do {
          (_, w) \<leftarrow> for_each (\<lambda>a. sp_call e a (\<lambda>en ch. periodSizeChanged en ch period)) (m_ReceiveProcessors (w_spm w)) w;
          (_, w) \<leftarrow> for_each (\<lambda>a. sp_call e a (\<lambda>en ch. periodSizeChanged en ch period)) (m_TransmitProcessors (w_spm w)) w;
          Some (if spm_nominal_framerate (w_spm w) > 0
                then set_spm (\<lambda>m. setActivityWaitTimeoutUsec (activity_timeout m) m) w else w)
        })"

definition setSyncSource :: "nat option \<Rightarrow> 'm spm_world \<Rightarrow> bool \<times> 'm spm_world" where
  "setSyncSource s w = (True, set_spm (\<lambda>m. m\<lparr>m_SyncSource := s\<rparr>) w)"

text \<open>Without a sync source the first processor becomes it.\<close>

definition select_sync_source :: "stream_manager \<Rightarrow> stream_manager" where
  "select_sync_source m =
     (let pick = (\<lambda>as s. case s of Some a \<Rightarrow> Some a | None \<Rightarrow> (case as of [] \<Rightarrow> None | a # _ \<Rightarrow> Some a))
      in m\<lparr>m_SyncSource := pick (m_TransmitProcessors m) (pick (m_ReceiveProcessors m) (m_SyncSource m))\<rparr>)"

definition spm_prepare :: "'m spm_env \<Rightarrow> 'm spm_world \<Rightarrow> (bool \<times> 'm spm_world) option" where
  "spm_prepare e w =
     (let w = set_spm (\<lambda>m. select_sync_source (m\<lparr>m_is_slave := slaveMode m, m_shutdown_needed := False\<rparr>)) w
      in do {
        (ok, w) \<leftarrow> until_failure (\<lambda>a. sp_call e a sp_prepare) (m_ReceiveProcessors (w_spm w)) w;
        if \<not> ok then Some (False, w)
        else do {
          (ok, w) \<leftarrow> until_failure (\<lambda>a. sp_call e a sp_prepare) (m_TransmitProcessors (w_spm w)) w;
          if \<not> ok then Some (False, w)
          else if length (m_ReceiveProcessors (w_spm w)) + length (m_TransmitProcessors (w_spm w)) = 0 then Some (False, w)
          else if spm_nominal_framerate (w_spm w) = 0 then None
          else Some (True, updateShadowLists (set_spm (\<lambda>m. setActivityWaitTimeoutUsec (activity_timeout m) m) w))
        }
      })"

text \<open>
  \<^verbatim>\<open>getPortByIndex\<close>: without \<^verbatim>\<open>DEBUG\<close> an index out of range throws an exception (\<open>None\<close>), with it the result is a
  null pointer; a negative index throws in both builds.
\<close>

definition getPortByIndex :: "'m spm_env \<Rightarrow> i32 \<Rightarrow> E_Direction \<Rightarrow> stream_manager \<Rightarrow> nat option option" where
  "getPortByIndex e idx direction m =
     (let ports = (if direction = E_Capture then m_CapturePorts_shadow m else m_PlaybackPorts_shadow m)
      in if se_debug e \<and> int (length ports) \<le> sint idx then Some None
         else if 0 \<le>s idx \<and> unat idx < length ports then Some (Some (ports ! unat idx))
         else None)"

definition direction_sps :: "E_Direction \<Rightarrow> stream_manager \<Rightarrow> nat list" where
  "direction_sps direction m = (if direction = E_Capture then m_ReceiveProcessors m else m_TransmitProcessors m)"

definition spm_getPortCount_type :: "E_PortType \<Rightarrow> E_Direction \<Rightarrow> 'm spm_world \<Rightarrow> nat" where
  "spm_getPortCount_type type direction w =
     sum_list (map (\<lambda>a. getPortCount_type (w_sps w a) type) (direction_sps direction (w_spm w)))"

definition spm_getPortCount :: "E_Direction \<Rightarrow> 'm spm_world \<Rightarrow> nat" where
  "spm_getPortCount direction w = sum_list (map (\<lambda>a. getPortCount (w_sps w a)) (direction_sps direction (w_spm w)))"

definition spm_setThreadParameters :: "bool \<Rightarrow> i32 \<Rightarrow> 'm spm_world \<Rightarrow> bool \<times> 'm spm_world" where
  "spm_setThreadParameters rt priority w = (True, set_spm (\<lambda>m. m\<lparr>m_thread_realtime := rt, m_thread_priority := priority\<rparr>) w)"

section \<open>Waiting for a period\<close>

definition sync_time :: "'m spm_env \<Rightarrow> nat \<Rightarrow> 'm spm_world \<Rightarrow> u64" where
  "sync_time e a w = getTimeAtPeriod (env_of e w a) (w_sps w a)"

definition period_ready :: "'m spm_env \<Rightarrow> 'm spm_world \<Rightarrow> bool option" where
  "period_ready e w =
     do {
       produce \<leftarrow> those (map (\<lambda>a. canProducePeriod (env_of e w a) (w_sps w a)) (m_TransmitProcessors (w_spm w)));
       Some (list_all (\<lambda>a. canConsumePeriod (env_of e w a) (w_sps w a)) (m_ReceiveProcessors (w_spm w))
             \<and> list_all (\<lambda>r. r) produce)
     }"

definition any_xrun :: "'m spm_world \<Rightarrow> bool" where
  "any_xrun w \<longleftrightarrow> list_ex (\<lambda>a. m_in_xrun (w_sps w a)) (all_sps w)"

definition any_error :: "'m spm_world \<Rightarrow> bool" where
  "any_error w \<longleftrightarrow> list_ex (\<lambda>a. m_state (w_sps w a) = ePS_Error) (all_sps w)"

text \<open>
  The loop that waits until every processor can transfer a period, or one of them has an xrun or an
  error (the flags it returns). It may run forever.
\<close>

partial_function (option) wait_ready :: "'m spm_env \<Rightarrow> 'm spm_world \<Rightarrow> (bool \<times> bool \<times> 'm spm_world) option" where
  "wait_ready e w =
     do {
       ready \<leftarrow> period_ready e w;
       let w = (if ready then w else spm_sleep e w);
       let xrun_occurred = any_xrun w;
       let in_error = any_error w;
       if xrun_occurred \<or> in_error \<or> m_shutdown_needed (w_spm w) \<or> ready
       then Some (xrun_occurred, in_error, w)
       else wait_ready e w
     }"

text \<open>What is noted when the wait has ended.\<close>

definition note_period :: "'m spm_env \<Rightarrow> nat \<Rightarrow> bool \<Rightarrow> 'm spm_world \<Rightarrow> 'm spm_world" where
  "note_period e sync in_error w =
     (let time = sync_time e sync w;
          pred = getSystemTimeForCycleTimerTicks e (w_now w) time
      in set_spm (\<lambda>m. m\<lparr>m_shutdown_needed := m_shutdown_needed m \<or> in_error, m_time_of_transfer := time,
             m_time_of_transfer2 := (if se_debug e then time else m_time_of_transfer2 m), m_nbperiods := m_nbperiods m + 1,
             m_delayed_usecs := ucast (se_time e (w_now w) - pred)\<rparr>) w)"

definition spm_waitForPeriod :: "'m spm_env \<Rightarrow> 'm spm_world \<Rightarrow> (bool \<times> 'm spm_world) option" where
  "spm_waitForPeriod e w =
     (case m_SyncSource (w_spm w) of
        None \<Rightarrow> Some (False, w)
      | Some sync \<Rightarrow>
          if m_shutdown_needed (w_spm w) then Some (False, w)
          else do {
            (xrun_occurred, in_error, w) \<leftarrow> wait_ready e (spm_sleep e w);
            Some (\<not> xrun_occurred, note_period e sync in_error w)
          })"

section \<open>Transfers\<close>

text \<open>The presentation time of the frames written now: one ring buffer after the time of the transfer.\<close>

definition transmit_time :: "'m spm_env \<Rightarrow> rat \<Rightarrow> nat \<Rightarrow> 'm spm_world \<Rightarrow> i64" where
  "transmit_time e rate a w =
     (let fp = se_fpa e;
          one_ringbuffer_in_frames = spm_nb_buffers (w_spm w) * spm_period (w_spm w) + m_extra_buffer_frames (w_sps w a);
          one_ringbuffer_in_ticks = (of_int (trunc_rat (rflt fp (rflt fp (of_u32 one_ringbuffer_in_frames) * rate))) :: i64)
      in addTicks (m_time_of_transfer (w_spm w)) one_ringbuffer_in_ticks)"

definition transfer_type :: "'m spm_env \<Rightarrow> eProcessorType \<Rightarrow> 'm spm_world \<Rightarrow> (bool \<times> 'm spm_world) option" where
  "transfer_type e t w =
     (case m_SyncSource (w_spm w) of
        None \<Rightarrow> Some (False, w)
      | Some sync \<Rightarrow>
          if t = ePT_Receive then
            for_each (\<lambda>a w. sp_call e a (\<lambda>en ch. getFrames en ch (spm_period (w_spm w)) (m_time_of_transfer (w_spm w))) w)
              (m_ReceiveProcessors (w_spm w)) w
          else
            let rate = getTicksPerFrame (w_sps w sync)
            in for_each (\<lambda>a w. sp_call e a (\<lambda>en ch. putFrames en ch (spm_period (w_spm w)) (transmit_time e rate a w)) w)
                 (m_TransmitProcessors (w_spm w)) w)"

definition spm_transfer :: "'m spm_env \<Rightarrow> 'm spm_world \<Rightarrow> (bool \<times> 'm spm_world) option" where
  "spm_transfer e w =
     do {
       (r1, w) \<leftarrow> transfer_type e ePT_Receive w;
       (r2, w) \<leftarrow> transfer_type e ePT_Transmit w;
       Some (r1 \<and> r2, w)
     }"

definition transferSilence_type :: "'m spm_env \<Rightarrow> eProcessorType \<Rightarrow> 'm spm_world \<Rightarrow> (bool \<times> 'm spm_world) option" where
  "transferSilence_type e t w =
     (case m_SyncSource (w_spm w) of
        None \<Rightarrow> Some (False, w)
      | Some sync \<Rightarrow>
          if t = ePT_Receive then
            for_each (\<lambda>a w. sp_call e a (\<lambda>en ch. sp_dropFrames (spm_period (w_spm w)) (m_time_of_transfer (w_spm w))) w)
              (m_ReceiveProcessors (w_spm w)) w
          else
            let rate = getTicksPerFrame (w_sps w sync)
            in for_each (\<lambda>a w. sp_call e a (\<lambda>en ch. putSilenceFrames en ch (spm_period (w_spm w)) (transmit_time e rate a w)) w)
                 (m_TransmitProcessors (w_spm w)) w)"

definition spm_transferSilence :: "'m spm_env \<Rightarrow> 'm spm_world \<Rightarrow> (bool \<times> 'm spm_world) option" where
  "spm_transferSilence e w =
     do {
       (r1, w) \<leftarrow> transferSilence_type e ePT_Transmit w;
       (r2, w) \<leftarrow> transferSilence_type e ePT_Receive w;
       Some (r1 \<and> r2, w)
     }"

section \<open>Alignment of the received streams\<close>

text \<open>The time offsets of the received streams from the sync source, summed up over \<open>n\<close> periods.\<close>

definition stream_offsets :: "'m spm_env \<Rightarrow> nat \<Rightarrow> 'm spm_world \<Rightarrow> i64 list" where
  "stream_offsets e sync w = map (\<lambda>a. diffTicks (sync_time e sync w) (sync_time e a w)) (m_ReceiveProcessors (w_spm w))"

fun align_measure ::
  "'m spm_env \<Rightarrow> nat \<Rightarrow> nat \<Rightarrow> i64 list \<Rightarrow> 'm spm_world \<Rightarrow> (bool \<times> i64 list \<times> 'm spm_world) option" where
  "align_measure e periods_per_align_try nb_sync_runs offs w =
     (if nb_sync_runs = 0 then Some (True, offs, w)
      else do {
        (ok, w) \<leftarrow> spm_waitForPeriod e w;
        if \<not> ok then Some (False, offs, w)
        else do {
          (ok, w) \<leftarrow> spm_transferSilence e w;
          if \<not> ok then Some (False, offs, w)
          else do {
            sync \<leftarrow> m_SyncSource (w_spm w);
            let ds = stream_offsets e sync w;
            let offs = (if nb_sync_runs = periods_per_align_try then ds else map2 (+) offs ds);
            align_measure e periods_per_align_try (nb_sync_runs - 1) offs w
          }
        }
      })"

declare align_measure.simps [simp del]

text \<open>\<^verbatim>\<open>roundf\<close> rounds halves away from zero.\<close>

definition roundf :: "rat \<Rightarrow> int" where
  "roundf r = (if 0 \<le> r then \<lfloor>r + 1 / 2\<rfloor> else \<lceil>r - 1 / 2\<rceil>)"

text \<open>The average offset of one stream in frames.\<close>

definition offset_frames :: "'m spm_env \<Rightarrow> nat \<Rightarrow> 'm spm_world \<Rightarrow> nat \<Rightarrow> i64 \<Rightarrow> i32 option" where
  "offset_frames e periods_per_align_try w a d =
     (let fp = se_fpa e;
          tpf = getTicksPerFrame (w_sps w a)
      in if periods_per_align_try = 0 \<or> tpf = 0 then None
         else
           let d = sint d sdiv int periods_per_align_try
           in Some (of_int (roundf (rflt fp (rflt fp (of_int d) / tpf)))))"

definition min_shift :: "i32 list \<Rightarrow> i32" where
  "min_shift ds = foldl (\<lambda>m d. if d <s m then d else m) 9999 ds"

definition frames_to_shift :: "i32 list \<Rightarrow> i32 list" where
  "frames_to_shift ds = map (\<lambda>d. d - min_shift ds) ds"

text \<open>One try: whether nothing failed, and whether the streams were found aligned. If not, they are shifted.\<close>

definition align_try :: "'m spm_env \<Rightarrow> nat \<Rightarrow> 'm spm_world \<Rightarrow> (bool \<times> bool \<times> 'm spm_world) option" where
  "align_try e periods_per_align_try w =
     do {
       (ok, offs, w) \<leftarrow> align_measure e periods_per_align_try periods_per_align_try [] w;
       if \<not> ok then Some (False, False, w)
       else do {
         ds \<leftarrow> those (map2 (offset_frames e periods_per_align_try w) (m_ReceiveProcessors (w_spm w)) offs);
         if list_all (\<lambda>d. d = 0) ds then Some (True, True, w)
         else do {
           (ok, w) \<leftarrow> until_failure (\<lambda>(a, n). sp_call e a (\<lambda>en ch. shiftStream n))
                        (zip (m_ReceiveProcessors (w_spm w)) (frames_to_shift ds)) w;
           Some (ok, False, w)
         }
       }
     }"

text \<open>
  The tries. The counter is decremented after it is tested, also by the test that ends the loop. The
  result is \<open>None\<close> when a try failed, otherwise whether the streams are aligned and the counter.
\<close>

function align_loop ::
  "'m spm_env \<Rightarrow> nat \<Rightarrow> i32 \<Rightarrow> 'm spm_world \<Rightarrow> ((bool \<times> i32) option \<times> 'm spm_world) option" where
  "align_loop e periods_per_align_try cnt w =
     (if cnt = 0 then Some (Some (False, cnt - 1), w)
      else do {
        (ok, aligned, w) \<leftarrow> align_try e periods_per_align_try w;
        if \<not> ok then Some (None, w)
        else if aligned then Some (Some (True, cnt - 1), w)
        else align_loop e periods_per_align_try (cnt - 1) w
      })"
  by pat_completeness auto
termination
  by (relation "measure (\<lambda>(_, _, cnt, _). unat cnt)") (auto simp: unat_minus_one unat_gt_0)

declare align_loop.simps [simp del]

definition alignReceivedStreams :: "'m spm_env \<Rightarrow> 'm spm_world \<Rightarrow> (bool \<times> 'm spm_world) option" where
  "alignReceivedStreams e w =
     (let cnt = getValueForSetting e ''streaming.spm.align_tries'' NB_ALIGN_TRIES;
          align_average_time_msec = getValueForSetting e ''streaming.spm.align_average_time_msec'' ALIGN_AVERAGE_TIME_MSEC
      in if spm_period (w_spm w) = 0 then None
         else
           let periods_per_align_try = (align_average_time_msec * spm_nominal_framerate (w_spm w)) div 1000 div spm_period (w_spm w)
           in do {
             (r, w) \<leftarrow> align_loop e (unat periods_per_align_try) cnt w;
             Some (case r of None \<Rightarrow> (False, w) | Some (_, cnt) \<Rightarrow> (cnt \<noteq> 0, w))
           })"

section \<open>Starting and stopping\<close>

definition in_state :: "eProcessorState \<Rightarrow> 'm spm_world \<Rightarrow> nat \<Rightarrow> bool" where
  "in_state st w a \<longleftrightarrow> m_state (w_sps w a) = st"

definition start_dry :: "'m spm_env \<Rightarrow> nat \<Rightarrow> 'm spm_world \<Rightarrow> (bool \<times> 'm spm_world) option" where
  "start_dry e a w =
     (if in_state ePS_Error w a then Some (False, w)
      else if \<not> in_state ePS_DryRunning w a then Some (sp_act e a (\<lambda>en. scheduleStartDryRunning en (- 1)) w)
      else Some (True, w))"

definition spm_startDryRunning :: "'m spm_env \<Rightarrow> 'm spm_world \<Rightarrow> (bool \<times> 'm spm_world) option" where
  "spm_startDryRunning e w =
     do {
       (ok, w) \<leftarrow> until_failure (start_dry e) (m_TransmitProcessors (w_spm w)) w;
       if \<not> ok then Some (False, w)
       else do {
         (ok, w) \<leftarrow> until_failure (start_dry e) (m_ReceiveProcessors (w_spm w)) w;
         if \<not> ok then Some (False, w)
         else
           let (cnt, w) = wait_checked e (\<lambda>w. list_all (in_state ePS_DryRunning w) (all_sps w)) CYCLES_FOR_DRYRUN w
           in Some (cnt \<noteq> 0, w)
       }
     }"

text \<open>The largest latency of the received streams and the largest packet of all streams.\<close>

definition getMaxFrameLatency :: "'m spm_env \<Rightarrow> nat \<Rightarrow> i32" where
  "getMaxFrameLatency e a = getPacketLatencyForStream a (se_iso e) * TICKS_PER_CYCLE"

definition max_signed :: "i32 list \<Rightarrow> i32" where
  "max_signed xs = foldl (\<lambda>m x. if m <s x then x else m) 0 xs"

definition max_of_min_delay :: "'m spm_env \<Rightarrow> 'm spm_world \<Rightarrow> i32" where
  "max_of_min_delay e w = max_signed (map (getMaxFrameLatency e) (m_ReceiveProcessors (w_spm w)))"

definition max_packet_size_frames :: "'m spm_env \<Rightarrow> 'm spm_world \<Rightarrow> i32" where
  "max_packet_size_frames e w = max_signed (map (\<lambda>a. getNominalFramesPerPacket (child_of e w a) (w_sps w a)) (all_sps w))"

text \<open>
  The number of frames to start in, rounded to whole packets, in ticks. \<open>None\<close> is a division by zero.
\<close>

definition time_for_startup :: "'m spm_env \<Rightarrow> i32 \<Rightarrow> rat \<Rightarrow> i32 \<Rightarrow> u64 option" where
  "time_for_startup e cycles_for_startup tpf packet =
     (let fp = se_fpa e
      in if tpf = 0 \<or> packet = 0 then None
         else
           let abs = rdbl fp (of_u32 (cycles_for_startup * TICKS_PER_CYCLE));
               frames = (of_int (trunc_rat (rdbl fp (abs / tpf))) :: i32);
               frames = (of_int (sint frames sdiv sint packet) + 1) * packet
           in Some (of_int (trunc_rat (rflt fp (rflt fp (of_i32 frames) * tpf)))))"

text \<open>
  The smallest multiple of the packet size that is not below the number of frames, by repeated
  addition; \<open>None\<close> is a loop that never ends or an overflow.
\<close>

function prebuffer_loop :: "int \<Rightarrow> int \<Rightarrow> int \<Rightarrow> int option" where
  "prebuffer_loop frames packet tmp =
     (if tmp < frames then
        if packet \<le> 0 \<or> 2 ^ 31 \<le> tmp + packet then None else prebuffer_loop frames packet (tmp + packet)
      else Some tmp)"
  by pat_completeness auto
termination
  by (relation "measure (\<lambda>(frames, _, tmp). nat (frames - tmp))") auto

declare prebuffer_loop.simps [simp del]

definition prebuffer_frames :: "i32 \<Rightarrow> i32 \<Rightarrow> i32 option" where
  "prebuffer_frames frames packet =
     (if packet = 0 then None
      else if sint frames smod sint packet \<noteq> 0 then map_option of_int (prebuffer_loop (sint frames) (sint packet) 0)
      else Some frames)"

text \<open>
  The plan of a start, computed while the streams run dry: the sync source, the presentation time of the
  first sample, the times at which receiving and sending start, and the extra frames of the buffers.
\<close>

record start_plan =
  time_of_first_sample :: u64
  time_to_start_xmit :: u64
  time_to_start_recv :: u64
  xmit_prebuffer_frames :: i32
  recv_extra_frames :: i32

text \<open>The number of periods to wait for the delay-locked loops.\<close>

definition sync_runs :: "'m spm_env \<Rightarrow> 'm spm_world \<Rightarrow> u32 option" where
  "sync_runs e w =
     (if spm_period (w_spm w) = 0 then None
      else Some ((getValueForSetting e ''streaming.spm.sync_wait_time_msec'' SYNC_WAIT_TIME_MSEC * spm_nominal_framerate (w_spm w))
                 div 1000 div spm_period (w_spm w)))"

definition plan_start :: "'m spm_env \<Rightarrow> i32 \<Rightarrow> nat \<Rightarrow> 'm spm_world \<Rightarrow> start_plan option" where
  "plan_start e packet sync w =
     (let fp = se_fpa e;
          tpf = getTicksPerFrame (w_sps w sync);
          cycles_for_startup = getValueForSetting e ''streaming.spm.cycles_for_startup'' CYCLES_FOR_STARTUP;
          prestart_cycles_for_xmit = getValueForSetting e ''streaming.spm.prestart_cycles_for_xmit'' PRESTART_CYCLES_FOR_XMIT;
          prestart_cycles_for_recv = getValueForSetting e ''streaming.spm.prestart_cycles_for_recv'' PRESTART_CYCLES_FOR_RECV
      in do {
        startup \<leftarrow> time_for_startup e cycles_for_startup tpf packet;
        let first = addTicks (sync_time e sync w) startup;
        let sync_delay_frames = (of_int (trunc_rat (rflt fp (rflt fp (of_u32 (m_sync_delay (w_spm w))) / tpf))) :: i32);
        prebuffer \<leftarrow> prebuffer_frames (getValueForSetting e ''streaming.spm.xmit_prebuffer_frames'' XMIT_PREBUFFER_FRAMES) packet;
        let extra = (of_int (sint sync_delay_frames sdiv sint packet) + 1) * packet;
        Some \<lparr>time_of_first_sample = first,
              time_to_start_xmit = substractTicks first (ucast (prestart_cycles_for_xmit * TICKS_PER_CYCLE)),
              time_to_start_recv = substractTicks first (ucast (prestart_cycles_for_recv * TICKS_PER_CYCLE)),
              xmit_prebuffer_frames = prebuffer,
              recv_extra_frames = (if extra <s 1024 then 1024 else extra)\<rparr>
      })"

text \<open>Carrying the plan out: first the buffers, then the sync source, then the other streams.\<close>

definition announce_start :: "'m spm_env \<Rightarrow> start_plan \<Rightarrow> 'm spm_world \<Rightarrow> 'm spm_world" where
  "announce_start e p w =
     (let first = rdbl (se_fpa e) (of_u64 (time_of_first_sample p));
          w = fold (sp_set e (\<lambda>en s. sp_setBufferHeadTimestamp en first (setExtraBufferFrames (xmit_prebuffer_frames p) s)))
                (m_TransmitProcessors (w_spm w)) w
      in fold (sp_set e (\<lambda>en. setExtraBufferFrames (recv_extra_frames p))) (m_ReceiveProcessors (w_spm w)) w)"

definition schedule_start :: "'m spm_env \<Rightarrow> start_plan \<Rightarrow> nat \<Rightarrow> 'm spm_world \<Rightarrow> (bool \<times> 'm spm_world) option" where
  "schedule_start e p sync w =
     (let start = (\<lambda>t a w. Some (sp_act e a (\<lambda>en. scheduleStartRunning en t) w))
      in do {
        (ok, w) \<leftarrow> start (if m_processor_type (w_sps w sync) = ePT_Receive then time_to_start_recv p else time_to_start_xmit p) sync w;
        if \<not> ok then Some (False, w)
        else do {
          (ok, w) \<leftarrow> until_failure (start (time_to_start_recv p)) (filter (\<lambda>a. a \<noteq> sync) (m_ReceiveProcessors (w_spm w))) w;
          if \<not> ok then Some (False, w)
          else until_failure (start (time_to_start_xmit p)) (filter (\<lambda>a. a \<noteq> sync) (m_TransmitProcessors (w_spm w))) w
        }
      })"

text \<open>Once the sync source runs, the time of the transfer is known and with it the tail of the transmit buffers.\<close>

definition preset_tails :: "'m spm_env \<Rightarrow> i32 \<Rightarrow> nat \<Rightarrow> 'm spm_world \<Rightarrow> 'm spm_world" where
  "preset_tails e prebuffer sync w =
     (let fp = se_fpa e;
          w = set_spm (\<lambda>m. m\<lparr>m_time_of_transfer := sync_time e sync w\<rparr>) w;
          m = w_spm w;
          rate = getTicksPerFrame (w_sps w sync);
          w = (if se_debug e
               then set_spm (\<lambda>m. m\<lparr>m_time_of_transfer2 := substractTicks (m_time_of_transfer m)
                      (of_int (trunc_rat (rflt fp (rflt fp (of_u32 (spm_period m)) * rate))))\<rparr>) w
               else w);
          delay_in_ticks = (of_int (trunc_rat (rflt fp (rflt fp (of_u32 ((spm_nb_buffers m - 1) * spm_period m + prebuffer)) * rate))) :: i64);
          transmit_tail_timestamp = addTicks (m_time_of_transfer m) delay_in_ticks
      in fold (sp_set e (\<lambda>en s. sp_setBufferTailTimestamp en (rdbl fp (of_int (sint transmit_tail_timestamp))) (setTicksPerFrame en rate s)))
           (m_TransmitProcessors (w_spm w)) w)"

definition spm_syncStartAll :: "'m spm_env \<Rightarrow> 'm spm_world \<Rightarrow> (bool \<times> 'm spm_world) option" where
  "spm_syncStartAll e w =
     (case m_SyncSource (w_spm w) of
        None \<Rightarrow> Some (False, w)
      | Some sync \<Rightarrow>
          let signal_delay_ticks = getValueForSetting e ''streaming.spm.signal_delay_ticks'' SIGNAL_DELAY_TICKS;
              packet = max_packet_size_frames e w;
              w = set_spm (\<lambda>m. m\<lparr>m_sync_delay := max_of_min_delay e w + signal_delay_ticks\<rparr>) w
          in do {
            n \<leftarrow> sync_runs e w;
            let w = spm_sleeps e (unat n) w;
            p \<leftarrow> plan_start e packet sync w;
            let w = announce_start e p w;
            (ok, w) \<leftarrow> schedule_start e p sync w;
            if \<not> ok then Some (False, w)
            else
              let (cnt, w) = wait_first e (\<lambda>w. in_state ePS_Running w sync) 8000 w
              in if cnt = 0 then Some (False, w)
                 else alignReceivedStreams e (preset_tails e (xmit_prebuffer_frames p) sync w)
          })"

text \<open>Stopping: every running stream is switched to dry running, then all are switched off.\<close>

definition stop_running :: "'m spm_env \<Rightarrow> nat \<Rightarrow> 'm spm_world \<Rightarrow> (bool \<times> 'm spm_world) option" where
  "stop_running e a w =
     (if in_state ePS_Running w a then Some (sp_act e a (\<lambda>en. scheduleStopRunning en (- 1)) w) else Some (True, w))"

definition stop_dry :: "'m spm_env \<Rightarrow> nat \<Rightarrow> 'm spm_world \<Rightarrow> (bool \<times> 'm spm_world) option" where
  "stop_dry e a w =
     (if in_state ePS_Error w a then Some (True, w) else Some (sp_act e a (\<lambda>en. scheduleStopDryRunning en (- 1)) w))"

definition settled :: "'m spm_world \<Rightarrow> nat \<Rightarrow> bool" where
  "settled w a \<longleftrightarrow> in_state ePS_DryRunning w a \<or> in_state ePS_Stopped w a \<or> in_state ePS_WaitingForStream w a \<or> in_state ePS_Error w a"

definition halted :: "'m spm_world \<Rightarrow> nat \<Rightarrow> bool" where
  "halted w a \<longleftrightarrow> in_state ePS_Stopped w a \<or> in_state ePS_Error w a"

definition spm_stop :: "'m spm_env \<Rightarrow> 'm spm_world \<Rightarrow> (bool \<times> 'm spm_world) option" where
  "spm_stop e w =
     do {
       (ok, w) \<leftarrow> until_failure (stop_running e) (all_sps w) w;
       if \<not> ok then Some (False, w)
       else
         let (cnt, w) = wait_checked e (\<lambda>w. list_all (settled w) (all_sps w)) 8000 w
         in if cnt = 0 then Some (False, w)
            else do {
              (ok, w) \<leftarrow> until_failure (stop_dry e) (all_sps w) w;
              if \<not> ok then Some (False, w)
              else
                let (cnt, w) = wait_checked e (\<lambda>w. list_all (halted w) (all_sps w)) 8000 w
                in Some (cnt \<noteq> 0, w)
            }
     }"

datatype start_outcome = Started | Tries_used_up | Shutdown_requested

fun start_tries :: "'m spm_env \<Rightarrow> nat \<Rightarrow> 'm spm_world \<Rightarrow> (start_outcome \<times> 'm spm_world) option" where
  "start_tries e 0 w = Some (Tries_used_up, w)"
| "start_tries e (Suc n) w =
     do {
       (ok, w) \<leftarrow> spm_startDryRunning e w;
       if \<not> ok then start_tries e n w
       else do {
         (ok, w) \<leftarrow> spm_syncStartAll e w;
         if ok then Some (Started, w)
         else if m_shutdown_needed (w_spm w) then Some (Shutdown_requested, w)
         else start_tries e n w
       }
     }"

definition spm_start :: "'m spm_env \<Rightarrow> 'm spm_world \<Rightarrow> (bool \<times> 'm spm_world) option" where
  "spm_start e w =
     do {
       (r, w) \<leftarrow> start_tries e SYNCSTART_TRIES w;
       case r of
         Started \<Rightarrow> Some (True, w)
       | Shutdown_requested \<Rightarrow> Some (False, w)
       | Tries_used_up \<Rightarrow> do { (_, w) \<leftarrow> spm_stop e w; Some (False, w) }
     }"

fun xrun_tries :: "'m spm_env \<Rightarrow> nat \<Rightarrow> 'm spm_world \<Rightarrow> (bool \<times> 'm spm_world) option" where
  "xrun_tries e 0 w = Some (False, w)"
| "xrun_tries e (Suc n) w =
     (if m_shutdown_needed (w_spm w) then Some (True, w)
      else do {
        (ok, w) \<leftarrow> spm_startDryRunning e w;
        if \<not> ok then xrun_tries e n w
        else do { (ok, w) \<leftarrow> spm_syncStartAll e w; if ok then Some (True, w) else xrun_tries e n w }
      })"

definition handleXrun :: "'m spm_env \<Rightarrow> 'm spm_world \<Rightarrow> (bool \<times> 'm spm_world) option" where
  "handleXrun e w = xrun_tries e SYNCSTART_TRIES w"

section \<open>The device manager\<close>

datatype eWaitResult = eWR_OK | eWR_Xrun | eWR_Error | eWR_Shutdown

definition DeviceManager_waitForPeriod :: "'m spm_env \<Rightarrow> 'm spm_world \<Rightarrow> (eWaitResult \<times> 'm spm_world) option" where
  "DeviceManager_waitForPeriod e w =
     do {
       (ok, w) \<leftarrow> spm_waitForPeriod e w;
       if ok then Some (eWR_OK, w)
       else if m_shutdown_needed (w_spm w) then Some (eWR_Shutdown, w)
       else do { (ok, w) \<leftarrow> handleXrun e w; Some (if ok then eWR_Xrun else eWR_Error, w) }
     }"

definition DeviceManager_setPeriodSize :: "'m spm_env \<Rightarrow> u32 \<Rightarrow> 'm spm_world \<Rightarrow> (bool \<times> 'm spm_world) option" where
  "DeviceManager_setPeriodSize e period w =
     (if \<not> streamingParamsOk period (- 1) (- 1) (w_spm w) then Some (False, w)
      else do { w \<leftarrow> setPeriodSize e period w; Some (True, w) })"

definition DeviceManager_setStreamingParams ::
  "'m spm_env \<Rightarrow> u32 \<Rightarrow> u32 \<Rightarrow> u32 \<Rightarrow> 'm spm_world \<Rightarrow> (bool \<times> 'm spm_world) option" where
  "DeviceManager_setStreamingParams e period rate nb_buffers w =
     (if \<not> streamingParamsOk period rate nb_buffers (w_spm w) then Some (False, w)
      else do {
        w \<leftarrow> setPeriodSize e period w;
        Some (True, set_spm (\<lambda>m. m\<lparr>spm_nominal_framerate := rate, spm_nb_buffers := nb_buffers\<rparr>) w)
      })"

end
