(* ===== verification/ManagerRuns.thy ===== *)
theory ManagerRuns
  imports StreamProcessorManager AmdtpStreams
begin

text \<open>
  The stream processor manager at work. First a rely-guarantee argument: as long as the other threads touch the
  processors only by the calls of \<open>sp_step\<close>, so does the manager, and every processor keeps its
  invariant. Then the waits: that they end, and what holds when they end; starting, aligning
  and stopping the streams.
\<close>

section \<open>Sleeping and waiting\<close>

lemma spm_sleeps_0 [simp]: "spm_sleeps e 0 w = w"
  by (simp add: spm_sleeps.simps)

lemma spm_sleeps_Suc: "spm_sleeps e (Suc n) w = spm_sleeps e n (spm_sleep e w)"
  by (subst spm_sleeps.simps) simp

lemma spm_sleeps_snoc: "spm_sleeps e (Suc n) w = spm_sleep e (spm_sleeps e n w)"
  by (induction n arbitrary: w) (simp_all add: spm_sleeps_Suc)

lemma sleep_simps [simp]: "w_spm (spm_sleep e w) = w_spm w" "w_now (spm_sleep e w) = w_now w + 1"
  by (simp_all add: spm_sleep_def)

lemma sleeps_simps [simp]: "w_spm (spm_sleeps e n w) = w_spm w" "w_now (spm_sleeps e n w) = w_now w + n"
  by (induction n) (simp_all add: spm_sleeps_snoc)

text \<open>
  The loop that looks and then sleeps succeeds if the condition holds at one of the looks but the
  last: the count is used up then, whatever the last look sees.
\<close>

lemma wait_checked_seen:
  assumes "ready (spm_sleeps e k w)" and "\<forall>j<k. \<not> ready (spm_sleeps e j w)" and "k < cnt"
  shows "wait_checked e ready cnt w = (cnt - Suc k, spm_sleeps e (Suc k) w)"
  using assms
proof (induction k arbitrary: cnt w)
  case 0
  then show ?case by (subst wait_checked.simps) (simp add: spm_sleeps_Suc)
next
  case (Suc k)
  have "\<not> ready w" using Suc.prems(2) by (metis spm_sleeps_0 zero_less_Suc)
  moreover have "wait_checked e ready (cnt - 1) (spm_sleep e w) = (cnt - 1 - Suc k, spm_sleeps e (Suc k) (spm_sleep e w))"
    using Suc.prems by (intro Suc.IH) (auto simp: spm_sleeps_Suc)
  ultimately show ?case using Suc.prems(3) by (subst wait_checked.simps) (simp add: spm_sleeps_Suc [of e "Suc k"])
qed

lemma wait_checked_unseen:
  assumes "\<forall>j<cnt. \<not> ready (spm_sleeps e j w)"
  shows "wait_checked e ready cnt w = (0, spm_sleeps e cnt w)"
  using assms
proof (induction cnt arbitrary: w)
  case 0
  show ?case by (subst wait_checked.simps) simp
next
  case (Suc cnt)
  have "\<not> ready w" using Suc.prems by (metis spm_sleeps_0 zero_less_Suc)
  moreover have "wait_checked e ready cnt (spm_sleep e w) = (0, spm_sleeps e cnt (spm_sleep e w))"
    using Suc.prems by (intro Suc.IH) (auto simp: spm_sleeps_Suc)
  ultimately show ?case by (subst wait_checked.simps) (simp add: spm_sleeps_Suc)
qed

lemma wait_checked_cases:
  obtains (seen) k where "k < cnt" "ready (spm_sleeps e k w)" "\<forall>j<k. \<not> ready (spm_sleeps e j w)"
      "wait_checked e ready cnt w = (cnt - Suc k, spm_sleeps e (Suc k) w)"
  | (unseen) "\<forall>j<cnt. \<not> ready (spm_sleeps e j w)" "wait_checked e ready cnt w = (0, spm_sleeps e cnt w)"
proof (cases "\<exists>j<cnt. ready (spm_sleeps e j w)")
  case True
  define k where "k = (LEAST j. ready (spm_sleeps e j w))"
  have "ready (spm_sleeps e k w)" "k < cnt" "\<forall>j<k. \<not> ready (spm_sleeps e j w)"
    using True unfolding k_def by (auto intro: LeastI le_less_trans [OF Least_le] dest: not_less_Least)
  then show ?thesis using seen wait_checked_seen by metis
qed (use unseen wait_checked_unseen in blast)

lemma wait_first_cases:
  obtains k where "k \<le> cnt" "wait_first e ready cnt w = (cnt - k, spm_sleeps e k w)"
    "ready (spm_sleeps e k w) \<or> k = cnt" "\<forall>j<k. \<not> ready (spm_sleeps e j w)"
proof -
  have "\<exists>k\<le>cnt. wait_first e ready cnt w = (cnt - k, spm_sleeps e k w)
      \<and> (ready (spm_sleeps e k w) \<or> k = cnt) \<and> (\<forall>j<k. \<not> ready (spm_sleeps e j w))"
  proof (induction cnt arbitrary: w)
    case 0
    show ?case by (subst wait_first.simps) simp
  next
    case (Suc cnt)
    show ?case
    proof (cases "ready w")
      case True
      then show ?thesis by (intro exI [of _ 0]) (simp add: wait_first.simps)
    next
      case False
      obtain k where k: "k \<le> cnt" "wait_first e ready cnt (spm_sleep e w) = (cnt - k, spm_sleeps e k (spm_sleep e w))"
        "ready (spm_sleeps e k (spm_sleep e w)) \<or> k = cnt" "\<forall>j<k. \<not> ready (spm_sleeps e j (spm_sleep e w))"
        using Suc.IH by blast
      have "\<forall>j<Suc k. \<not> ready (spm_sleeps e j w)"
        using k(4) False by (auto simp: less_Suc_eq_0_disj spm_sleeps_Suc)
      then show ?thesis using k False by (intro exI [of _ "Suc k"]) (subst wait_first.simps, simp add: spm_sleeps_Suc)
    qed
  qed
  then show ?thesis using that by blast
qed

text \<open>A wait for a period ends in a state it has slept into, with the flags of that state.\<close>

definition wait_ended :: "'m spm_env \<Rightarrow> 'm spm_world \<Rightarrow> bool \<times> bool \<times> 'm spm_world \<Rightarrow> bool" where
  "wait_ended e w y \<longleftrightarrow> (case y of (xrun, err, w') \<Rightarrow> (\<exists>n. w' = spm_sleeps e n w) \<and> xrun = any_xrun w' \<and> err = any_error w'
     \<and> (xrun \<or> err \<or> m_shutdown_needed (w_spm w) \<or> period_ready e w' = Some True))"

lemma wait_ended_now:
  "any_xrun w' \<or> any_error w' \<or> m_shutdown_needed (w_spm w) \<or> period_ready e w' = Some True \<Longrightarrow> w' = spm_sleeps e n w
   \<Longrightarrow> wait_ended e w (any_xrun w', any_error w', w')"
  by (auto simp: wait_ended_def)

lemma wait_ended_later: "wait_ended e (spm_sleep e w) y \<Longrightarrow> wait_ended e w y"
  by (auto simp: wait_ended_def simp flip: spm_sleeps_Suc)

lemma wait_ready_ended:
  assumes "wait_ready e w = Some y"
  shows "wait_ended e w y"
  using assms
proof (rule wait_ready.raw_induct [where P = wait_ended, rotated])
  fix f :: "'m spm_env \<Rightarrow> 'm spm_world \<Rightarrow> (bool \<times> bool \<times> 'm spm_world) option" and e w y
  assume IH: "\<And>e w y. f e w = Some y \<Longrightarrow> wait_ended e w y"
  assume r: "do {
       ready \<leftarrow> period_ready e w;
       let w = (if ready then w else spm_sleep e w);
       let xrun_occurred = any_xrun w;
       let in_error = any_error w;
       if xrun_occurred \<or> in_error \<or> m_shutdown_needed (w_spm w) \<or> ready
       then Some (xrun_occurred, in_error, w)
       else f e w
     } = Some y"
  consider (ready) "period_ready e w = Some True" | (not_ready) "period_ready e w = Some False" using r by (cases "period_ready e w") auto
  then show "wait_ended e w y"
  proof cases
    case ready
    then have "y = (any_xrun w, any_error w, w)" using r by (simp add: Let_def)
    then show ?thesis using wait_ended_now [of w w e 0] ready by simp
  next
    case not_ready
    then have body: "(if any_xrun (spm_sleep e w) \<or> any_error (spm_sleep e w) \<or> m_shutdown_needed (w_spm w)
        then Some (any_xrun (spm_sleep e w), any_error (spm_sleep e w), spm_sleep e w) else f e (spm_sleep e w)) = Some y"
      using r by (simp add: Let_def cong: if_cong)
    show ?thesis
    proof (cases "any_xrun (spm_sleep e w) \<or> any_error (spm_sleep e w) \<or> m_shutdown_needed (w_spm w)")
      case True
      then have y: "y = (any_xrun (spm_sleep e w), any_error (spm_sleep e w), spm_sleep e w)" using body by simp
      show ?thesis unfolding y by (rule wait_ended_now [where n = "Suc 0"]) (use True in \<open>auto simp: spm_sleeps_Suc\<close>)
    next
      case False
      then have "f e (spm_sleep e w) = Some y" using body by simp
      then show ?thesis by (rule wait_ended_later [OF IH])
    qed
  qed
qed

lemma wait_ready_ends:
  assumes "wait_ready e w = Some (xrun, err, w')"
  obtains n where "w' = spm_sleeps e n w" "xrun = any_xrun w'" "err = any_error w'"
    "xrun \<or> err \<or> m_shutdown_needed (w_spm w) \<or> period_ready e w' = Some True"
  using wait_ready_ended [OF assms] that by (auto simp: wait_ended_def)

section \<open>What the manager does to the processors\<close>

definition holds_all :: "(nat \<Rightarrow> 'm stream_processor_scheme \<Rightarrow> bool) \<Rightarrow> 'm spm_world \<Rightarrow> bool" where
  "holds_all P w \<longleftrightarrow> (\<forall>a. P a (w_sps w a))"

lemma holds_all_put: "holds_all P w \<Longrightarrow> P a s \<Longrightarrow> holds_all P (put_sp a s w)"
  by (simp add: holds_all_def put_sp_def)

lemma holds_all_set_spm [simp]: "holds_all P (set_spm f w) = holds_all P w"
  by (simp add: holds_all_def set_spm_def)

lemma holds_allD: "holds_all P w \<Longrightarrow> P a (w_sps w a)"
  by (simp add: holds_all_def)

lemma holds_all_note [simp]: "holds_all P (note_period e sync err w) = holds_all P w"
  by (simp add: note_period_def Let_def)

lemma holds_all_shadow [simp]: "holds_all P (updateShadowLists w) = holds_all P w"
  by (simp add: updateShadowLists_def Let_def)

definition keeps_all ::
  "(nat \<Rightarrow> 'm stream_processor_scheme \<Rightarrow> bool) \<Rightarrow> ('m spm_world \<Rightarrow> ('r \<times> 'm spm_world) option) \<Rightarrow> bool" where
  "keeps_all P f \<longleftrightarrow> (\<forall>w r w'. f w = Some (r, w') \<longrightarrow> holds_all P w \<longrightarrow> holds_all P w')"

lemma keeps_allI: "(\<And>w r w'. f w = Some (r, w') \<Longrightarrow> holds_all P w \<Longrightarrow> holds_all P w') \<Longrightarrow> keeps_all P f"
  by (simp add: keeps_all_def)

lemma keeps_allD: "keeps_all P f \<Longrightarrow> f w = Some (r, w') \<Longrightarrow> holds_all P w \<Longrightarrow> holds_all P w'"
  by (auto simp: keeps_all_def)

lemma until_failure_keeps: "(\<And>a. keeps_all P (f a)) \<Longrightarrow> keeps_all P (until_failure f as)"
proof (induction as)
  case (Cons a as)
  then show ?case
    by (intro keeps_allI) (auto simp: bind_eq_Some_conv split: if_splits dest: keeps_allD)
qed (simp add: keeps_all_def)

lemma for_each_keeps: "(\<And>a. keeps_all P (f a)) \<Longrightarrow> keeps_all P (for_each f as)"
proof (induction as)
  case (Cons a as)
  then show ?case by (intro keeps_allI) (auto simp: bind_eq_Some_conv dest: keeps_allD)
qed (simp add: keeps_all_def)

locale spm_rely =
  fixes e :: "'m spm_env" and P :: "nat \<Rightarrow> 'm stream_processor_scheme \<Rightarrow> bool"
  assumes others: "\<forall>a. P a (st a) \<Longrightarrow> P a (se_others e n st a)"
    and step: "P a s \<Longrightarrow> sp_step (se_child e a) s s' \<Longrightarrow> P a s'"
begin

lemma sleep_keeps: "holds_all P w \<Longrightarrow> holds_all P (spm_sleep e w)"
  using others by (simp add: holds_all_def spm_sleep_def)

lemma sleeps_keep: "holds_all P w \<Longrightarrow> holds_all P (spm_sleeps e n w)"
  by (induction n) (simp_all add: spm_sleeps_snoc sleep_keeps)

lemma sp_call_keeps:
  assumes "\<And>w en s r s'. f w en (se_child e a en) s = Some (r, s') \<Longrightarrow> sp_step (se_child e a) s s'"
  shows "keeps_all P (\<lambda>w. sp_call e a (f w) w)"
  by (intro keeps_allI)
    (auto simp: sp_call_def child_of_def bind_eq_Some_conv intro!: holds_all_put step [OF holds_allD] assms)

lemma sp_act_keeps:
  assumes "\<And>en s. sp_step (se_child e a) s (snd (f en s))"
  shows "holds_all P w \<Longrightarrow> holds_all P (snd (sp_act e a f w))"
  using assms by (auto simp: sp_act_def split_beta intro!: holds_all_put step [OF holds_allD])

lemma sp_set_keeps:
  assumes "\<And>en s. P a s \<Longrightarrow> P a (f en s)"
  shows "holds_all P w \<Longrightarrow> holds_all P (sp_set e f a w)"
  using assms by (auto simp: sp_set_def intro!: holds_all_put dest: holds_allD)

lemma fold_set_keeps:
  assumes "\<And>a en s. P a s \<Longrightarrow> P a (f en s)"
  shows "holds_all P w \<Longrightarrow> holds_all P (fold (sp_set e f) as w)"
proof (induction as arbitrary: w)
  case (Cons a as)
  show ?case using Cons.IH [OF sp_set_keeps [OF assms Cons.prems]] by simp
qed simp

lemma wait_checked_keeps: "holds_all P w \<Longrightarrow> holds_all P (snd (wait_checked e ready cnt w))"
  by (cases rule: wait_checked_cases [of cnt ready e w]) (auto simp del: spm_sleeps.simps intro: sleeps_keep)

lemma wait_first_keeps: "holds_all P w \<Longrightarrow> holds_all P (snd (wait_first e ready cnt w))"
  by (rule wait_first_cases [of cnt e ready w]) (auto intro: sleeps_keep)

lemma wait_ready_keeps: "wait_ready e w = Some (x, y, w') \<Longrightarrow> holds_all P w \<Longrightarrow> holds_all P w'"
  using wait_ready_ends sleeps_keep by metis

lemma waitForPeriod_keeps: "keeps_all P (spm_waitForPeriod e)"
  by (intro keeps_allI)
    (auto simp: spm_waitForPeriod_def bind_eq_Some_conv split: option.splits if_splits dest: wait_ready_keeps intro: sleep_keeps)

lemma transfer_keeps: "keeps_all P (transfer_type e t)"
proof (intro keeps_allI)
  fix w r w'
  assume r: "transfer_type e t w = Some (r, w')" and w: "holds_all P w"
  have "keeps_all P (for_each (\<lambda>a w. sp_call e a (\<lambda>en ch. getFrames en ch (spm_period (w_spm w)) (m_time_of_transfer (w_spm w))) w) as)"
    for as by (rule for_each_keeps, rule sp_call_keeps) (rule sp_step.get_frames)
  moreover have "keeps_all P (for_each (\<lambda>a w. sp_call e a (\<lambda>en ch. putFrames en ch (spm_period (w_spm w)) (transmit_time e q a w)) w) as)"
    for q as by (rule for_each_keeps, rule sp_call_keeps) (rule sp_step.put_frames)
  ultimately show "holds_all P w'" using r w
    by (cases "m_SyncSource (w_spm w)"; cases "t = ePT_Receive") (auto simp: transfer_type_def Let_def intro: keeps_allD)
qed

lemma transferSilence_keeps: "keeps_all P (transferSilence_type e t)"
proof (intro keeps_allI)
  fix w r w'
  assume r: "transferSilence_type e t w = Some (r, w')" and w: "holds_all P w"
  have "keeps_all P (for_each (\<lambda>a w. sp_call e a (\<lambda>en ch. sp_dropFrames (spm_period (w_spm w)) (m_time_of_transfer (w_spm w))) w) as)"
    for as by (rule for_each_keeps, rule sp_call_keeps) (rule sp_step.drop_frames)
  moreover have "keeps_all P (for_each (\<lambda>a w. sp_call e a (\<lambda>en ch. putSilenceFrames en ch (spm_period (w_spm w)) (transmit_time e q a w)) w) as)"
    for q as by (rule for_each_keeps, rule sp_call_keeps) (rule sp_step.silence)
  ultimately show "holds_all P w'" using r w
    by (cases "m_SyncSource (w_spm w)"; cases "t = ePT_Receive") (auto simp: transferSilence_type_def Let_def intro: keeps_allD)
qed

lemma silence_keeps: "keeps_all P (spm_transferSilence e)"
  by (intro keeps_allI)
    (auto simp: spm_transferSilence_def bind_eq_Some_conv dest!: keeps_allD [OF transferSilence_keeps])

lemma spm_transfer_keeps: "keeps_all P (spm_transfer e)"
  by (intro keeps_allI) (auto simp: spm_transfer_def bind_eq_Some_conv dest!: keeps_allD [OF transfer_keeps])

lemma align_measure_keeps:
  "align_measure e p n offs w = Some (ok, offs', w') \<Longrightarrow> holds_all P w \<Longrightarrow> holds_all P w'"
proof (induction n arbitrary: offs w)
  case 0
  then show ?case by (simp add: align_measure.simps [of _ _ 0])
next
  case (Suc n)
  then obtain ok1 w1 where w1: "spm_waitForPeriod e w = Some (ok1, w1)"
    by (auto simp: align_measure.simps [of _ _ "Suc n"] bind_eq_Some_conv)
  have h1: "holds_all P w1" by (rule keeps_allD [OF waitForPeriod_keeps w1 Suc.prems(2)])
  show ?case
  proof (cases ok1)
    case False
    then show ?thesis using Suc.prems(1) w1 h1 by (simp add: align_measure.simps [of _ _ "Suc n"])
  next
    case True
    then obtain ok2 w2 where w2: "spm_transferSilence e w1 = Some (ok2, w2)"
      using Suc.prems(1) w1 by (auto simp: align_measure.simps [of _ _ "Suc n"] bind_eq_Some_conv)
    have h2: "holds_all P w2" by (rule keeps_allD [OF silence_keeps w2 h1])
    show ?thesis
      using Suc.prems(1) w1 w2 True Suc.IH [OF _ h2] h2
      by (auto simp: align_measure.simps [of _ _ "Suc n"] bind_eq_Some_conv Let_def split: if_splits)
  qed
qed

lemma align_try_keeps:
  assumes "align_try e p w = Some (ok, al, w')" and "holds_all P w"
  shows "holds_all P w'"
proof -
  obtain ok1 offs w1 where w1: "align_measure e p p [] w = Some (ok1, offs, w1)"
    using assms(1) by (auto simp: align_try_def bind_eq_Some_conv)
  have h1: "holds_all P w1" by (rule align_measure_keeps [OF w1 assms(2)])
  have "keeps_all P (until_failure (\<lambda>(a, n). sp_call e a (\<lambda>en ch. shiftStream n)) xs)" for xs
    by (rule until_failure_keeps) (auto intro!: sp_call_keeps sp_step.shift)
  then show ?thesis
    using assms(1) w1 h1 by (auto simp: align_try_def bind_eq_Some_conv split: if_splits dest: keeps_allD)
qed

lemma align_loop_keeps: "align_loop e p cnt w = Some (r, w') \<Longrightarrow> holds_all P w \<Longrightarrow> holds_all P w'"
proof (induction "unat cnt" arbitrary: cnt w rule: less_induct)
  case less
  show ?case
  proof (cases "cnt = 0")
    case True
    then show ?thesis using less.prems by (simp add: align_loop.simps [of _ _ 0])
  next
    case False
    then obtain ok al w1 where w1: "align_try e p w = Some (ok, al, w1)"
      using less.prems(1) by (auto simp: align_loop.simps [of _ _ cnt] bind_eq_Some_conv)
    have h1: "holds_all P w1" by (rule align_try_keeps [OF w1 less.prems(2)])
    have "unat (cnt - 1) < unat cnt" using False by (simp add: unat_minus_one unat_gt_0)
    from less.hyps [OF this _ h1] show ?thesis
      using less.prems(1) False w1 h1 by (auto simp: align_loop.simps [of _ _ cnt] split: if_splits)
  qed
qed

lemma align_keeps: "keeps_all P (alignReceivedStreams e)"
  by (intro keeps_allI)
    (auto simp: alignReceivedStreams_def Let_def bind_eq_Some_conv split: if_splits option.splits prod.splits dest: align_loop_keeps)

lemma act_keeps:
  assumes "\<And>en s. sp_step (se_child e a) s (snd (f en s))" and "sp_act e a f w = (r, w')" and "holds_all P w"
  shows "holds_all P w'"
  using sp_act_keeps [of a f, OF assms(1,3)] assms(2) by simp

lemma start_dry_keeps: "keeps_all P (start_dry e a)"
  by (intro keeps_allI) (auto simp: start_dry_def split: if_splits dest: act_keeps [OF sp_step.start_dry])

lemma startDryRunning_keeps: "keeps_all P (spm_startDryRunning e)"
proof (intro keeps_allI)
  fix w r w'
  assume r: "spm_startDryRunning e w = Some (r, w')" and w: "holds_all P w"
  note k = keeps_allD [OF until_failure_keeps [where f = "start_dry e", OF start_dry_keeps]]
  show "holds_all P w'"
    using r w by (auto simp: spm_startDryRunning_def bind_eq_Some_conv split_beta split: if_splits
        dest!: k intro: wait_checked_keeps)
qed

lemma announce_keeps: "holds_all P w \<Longrightarrow> holds_all P (announce_start e p w)"
  unfolding announce_start_def Let_def
  by (intro fold_set_keeps) (auto intro: step sp_step.head sp_step.extra)

lemma schedule_keeps: "keeps_all P (schedule_start e p sync)"
proof (intro keeps_allI)
  fix w r w'
  assume r: "schedule_start e p sync w = Some (r, w')" and w: "holds_all P w"
  have a: "keeps_all P (\<lambda>w. Some (sp_act e a (\<lambda>en. scheduleStartRunning en t) w))" for t a
    by (intro keeps_allI) (auto dest: act_keeps [OF sp_step.start])
  note k = keeps_allD [OF until_failure_keeps [where f = "\<lambda>a w. Some (sp_act e a (\<lambda>en. scheduleStartRunning en t) w)" for t, OF a]]
  obtain ok1 w1 where w1: "Some (sp_act e sync (\<lambda>en. scheduleStartRunning en
      (if m_processor_type (w_sps w sync) = ePT_Receive then time_to_start_recv p else time_to_start_xmit p)) w) = Some (ok1, w1)"
    by (metis surj_pair)
  have "holds_all P w1" by (rule keeps_allD [OF a w1 w])
  then show "holds_all P w'"
    using r w1 by (auto simp: schedule_start_def Let_def bind_eq_Some_conv split: if_splits dest!: k)
qed

lemma preset_keeps: "holds_all P w \<Longrightarrow> holds_all P (preset_tails e n sync w)"
  unfolding preset_tails_def Let_def
  by (intro fold_set_keeps) (auto intro: step sp_step.tail sp_step.rate)

lemma syncStartAll_keeps: "keeps_all P (spm_syncStartAll e)"
proof (intro keeps_allI)
  fix w r w'
  assume r: "spm_syncStartAll e w = Some (r, w')" and w: "holds_all P w"
  show "holds_all P w'"
  proof (cases "m_SyncSource (w_spm w)")
    case None
    then show ?thesis using r w by (simp add: spm_syncStartAll_def)
  next
    case (Some sync)
    then obtain n p w0 ok w1 where w1: "schedule_start e p sync (announce_start e p (spm_sleeps e n w0)) = Some (ok, w1)"
      and w0: "holds_all P w0"
      and rest: "(if \<not> ok then Some (False, w1)
          else let (cnt, w) = wait_first e (\<lambda>w. in_state ePS_Running w sync) 8000 w1
               in if cnt = 0 then Some (False, w) else alignReceivedStreams e (preset_tails e (xmit_prebuffer_frames p) sync w))
        = Some (r, w')"
      using r w by (auto simp: spm_syncStartAll_def Let_def bind_eq_Some_conv)
    have h1: "holds_all P w1" by (rule keeps_allD [OF schedule_keeps w1]) (intro announce_keeps sleeps_keep w0)
    obtain cnt w2 where w2: "wait_first e (\<lambda>w. in_state ePS_Running w sync) 8000 w1 = (cnt, w2)" by fastforce
    have "holds_all P w2" using wait_first_keeps [OF h1, of "\<lambda>w. in_state ePS_Running w sync" 8000] w2 by simp
    then show ?thesis using rest w2 h1 by (auto split: if_splits dest: keeps_allD [OF align_keeps] intro: preset_keeps)
  qed
qed

lemma stop_running_keeps: "keeps_all P (stop_running e a)"
  by (intro keeps_allI) (auto simp: stop_running_def split: if_splits dest: act_keeps [OF sp_step.stop])

lemma stop_dry_keeps: "keeps_all P (stop_dry e a)"
  by (intro keeps_allI) (auto simp: stop_dry_def split: if_splits dest: act_keeps [OF sp_step.stop_dry])

lemma stop_keeps: "keeps_all P (spm_stop e)"
proof (intro keeps_allI)
  fix w r w'
  assume r: "spm_stop e w = Some (r, w')" and w: "holds_all P w"
  obtain ok1 w1 where w1: "until_failure (stop_running e) (all_sps w) w = Some (ok1, w1)"
    using r by (auto simp: spm_stop_def bind_eq_Some_conv)
  have h1: "holds_all P w1" by (rule keeps_allD [OF until_failure_keeps w1 w]) (rule stop_running_keeps)
  obtain c w2 where w2: "wait_checked e (\<lambda>w. list_all (settled w) (all_sps w)) 8000 w1 = (c, w2)" by fastforce
  have h2: "holds_all P w2"
    using wait_checked_keeps [OF h1, of "\<lambda>w. list_all (settled w) (all_sps w)" 8000] w2 by simp
  note k = keeps_allD [OF until_failure_keeps [where f = "stop_dry e", OF stop_dry_keeps]]
  show "holds_all P w'"
    using r w1 w2 h1 h2
    by (auto simp: spm_stop_def bind_eq_Some_conv split_beta split: if_splits dest!: k intro: wait_checked_keeps)
qed

lemma start_tries_keeps: "keeps_all P (start_tries e n)"
proof (induction n)
  case (Suc n)
  show ?case
    by (intro keeps_allI)
      (auto simp: bind_eq_Some_conv split: if_splits
        dest!: keeps_allD [OF startDryRunning_keeps] keeps_allD [OF syncStartAll_keeps] keeps_allD [OF Suc])
qed (simp add: keeps_all_def)

lemma start_keeps: "keeps_all P (spm_start e)"
proof (intro keeps_allI)
  fix w r w'
  assume r: "spm_start e w = Some (r, w')" and w: "holds_all P w"
  then obtain x w1 where w1: "start_tries e SYNCSTART_TRIES w = Some (x, w1)" by (auto simp: spm_start_def bind_eq_Some_conv)
  have "holds_all P w1" by (rule keeps_allD [OF start_tries_keeps w1 w])
  then show "holds_all P w'"
    using r w1 by (cases x) (auto simp: spm_start_def bind_eq_Some_conv dest!: keeps_allD [OF stop_keeps])
qed

lemma xrun_tries_keeps: "keeps_all P (xrun_tries e n)"
proof (induction n)
  case (Suc n)
  show ?case
    by (intro keeps_allI)
      (auto simp: bind_eq_Some_conv split: if_splits
        dest!: keeps_allD [OF startDryRunning_keeps] keeps_allD [OF syncStartAll_keeps] keeps_allD [OF Suc])
qed (simp add: keeps_all_def)

lemma device_wait_keeps: "keeps_all P (DeviceManager_waitForPeriod e)"
  by (intro keeps_allI)
    (auto simp: DeviceManager_waitForPeriod_def handleXrun_def bind_eq_Some_conv split: if_splits
      dest!: keeps_allD [OF waitForPeriod_keeps] keeps_allD [OF xrun_tries_keeps])

lemma prepare_keeps: "keeps_all P (spm_prepare e)"
proof -
  have k: "keeps_all P (until_failure (\<lambda>a. sp_call e a sp_prepare) as)" for as
    by (rule until_failure_keeps, rule sp_call_keeps) (rule sp_step.prepare)
  show ?thesis
    by (intro keeps_allI)
      (auto simp: spm_prepare_def Let_def bind_eq_Some_conv split: if_splits dest!: keeps_allD [OF k])
qed

lemma setPeriodSize_keeps:
  assumes "setPeriodSize e n w = Some w'" and "holds_all P w"
  shows "holds_all P w'"
proof -
  have k: "keeps_all P (for_each (\<lambda>a. sp_call e a (\<lambda>en ch. periodSizeChanged en ch n)) as)" for as
    by (rule for_each_keeps, rule sp_call_keeps) (rule sp_step.period)
  show ?thesis using assms
    by (auto simp: setPeriodSize_def Let_def bind_eq_Some_conv split: if_splits dest!: keeps_allD [OF k])
qed

lemma handlers_keep: "holds_all P w \<Longrightarrow> holds_all P (put_sp a ((w_sps w a)\<lparr>m_UpdateHandlers := hs\<rparr>) w)"
  by (rule holds_all_put) (auto intro: step [OF _ sp_step.handlers] simp: holds_all_def)

lemma register_keeps: "holds_all P w \<Longrightarrow> holds_all P (snd (registerProcessor f a w))"
  by (auto simp: registerProcessor_def Let_def addPortManagerUpdateHandler_def intro!: handlers_keep)

lemma drop_handler_keeps: "holds_all P w \<Longrightarrow> holds_all P (drop_handler mine a w)"
  by (auto simp: drop_handler_def remPortManagerUpdateHandler_def split: option.splits intro!: handlers_keep)
    (auto simp: holds_all_def put_sp_def)

lemma unregister_keeps: "holds_all P w \<Longrightarrow> holds_all P (snd (unregisterProcessor mine a w))"
  by (auto simp: unregisterProcessor_def Let_def intro!: drop_handler_keeps)

end

section \<open>Runs of the manager\<close>

text \<open>
  The calls of the client, in any order; between two calls the client may be elsewhere while the other
  threads work.
\<close>

inductive spm_step :: "'m spm_env \<Rightarrow> 'm spm_world \<Rightarrow> 'm spm_world \<Rightarrow> bool" for e where
  register: "spm_step e w (snd (registerProcessor f a w))"
| unregister: "spm_step e w (snd (unregisterProcessor mine a w))"
| sync_source: "spm_step e w (snd (setSyncSource s w))"
| thread: "spm_step e w (snd (spm_setThreadParameters rt prio w))"
| prepare: "spm_prepare e w = Some (r, w') \<Longrightarrow> spm_step e w w'"
| start: "spm_start e w = Some (r, w') \<Longrightarrow> spm_step e w w'"
| stop: "spm_stop e w = Some (r, w') \<Longrightarrow> spm_step e w w'"
| wait: "DeviceManager_waitForPeriod e w = Some (r, w') \<Longrightarrow> spm_step e w w'"
| transfer: "spm_transfer e w = Some (r, w') \<Longrightarrow> spm_step e w w'"
| transfer_one: "transfer_type e t w = Some (r, w') \<Longrightarrow> spm_step e w w'"
| period: "DeviceManager_setPeriodSize e n w = Some (r, w') \<Longrightarrow> spm_step e w w'"
| params: "DeviceManager_setStreamingParams e n rate nb w = Some (r, w') \<Longrightarrow> spm_step e w w'"
| away: "spm_step e w (spm_sleep e w)"

inductive spm_reach :: "'m spm_env \<Rightarrow> 'm spm_world \<Rightarrow> 'm spm_world \<Rightarrow> bool" for e and w0 where
  refl: "spm_reach e w0 w0"
| step: "spm_reach e w0 w \<Longrightarrow> spm_step e w w' \<Longrightarrow> spm_reach e w0 w'"

context spm_rely
begin

lemma spm_step_keeps:
  assumes "spm_step e w w'" and "holds_all P w"
  shows "holds_all P w'"
  using assms
proof cases
  case (period n r)
  then show ?thesis using assms(2) setPeriodSize_keeps
    by (auto simp: DeviceManager_setPeriodSize_def bind_eq_Some_conv split: if_splits)
next
  case (params n rate nb r)
  then show ?thesis using assms(2) setPeriodSize_keeps
    by (auto simp: DeviceManager_setStreamingParams_def bind_eq_Some_conv split: if_splits)
qed (auto simp: setSyncSource_def spm_setThreadParameters_def
    intro: register_keeps unregister_keeps sleep_keeps keeps_allD [OF prepare_keeps] keeps_allD [OF start_keeps]
      keeps_allD [OF stop_keeps] keeps_allD [OF device_wait_keeps] keeps_allD [OF spm_transfer_keeps] keeps_allD [OF transfer_keeps])

lemma spm_reach_keeps: "spm_reach e w0 w \<Longrightarrow> holds_all P w0 \<Longrightarrow> holds_all P w"
  by (induction rule: spm_reach.induct) (auto intro: spm_step_keeps)

end

text \<open>
  The packet threads: during each sleep of the client every processor gets some calls. A call that
  aborts the program is of no interest afterwards and leaves the processor as it is.
\<close>

datatype packet_call =
    Put_packet sp_env "u8 list" u32 u8 u8 u8 u32 u32
  | Get_packet sp_env xmit_packet u32 u32
  | Handler_died | Packets_stopped | Bus_reset

fun deliver ::
  "(sp_env \<Rightarrow> 'm stream_processor_scheme sp_child) \<Rightarrow> packet_call \<Rightarrow> 'm stream_processor_scheme \<Rightarrow> 'm stream_processor_scheme" where
  "deliver ch (Put_packet en d n c tag sy ctr dr) s =
     (case putPacket en (ch en) d n c tag sy ctr dr s of Some (_, _, s') \<Rightarrow> s' | None \<Rightarrow> s)"
| "deliver ch (Get_packet en x ctr dr) s = (case getPacket en (ch en) x ctr dr s of Some (_, _, s') \<Rightarrow> s' | None \<Rightarrow> s)"
| "deliver ch Handler_died s = handlerDied s"
| "deliver ch Packets_stopped s = packetsStopped s"
| "deliver ch Bus_reset s = snd (handleBusReset handleBusResetDo s)"

definition is_failure :: "packet_call \<Rightarrow> bool" where
  "is_failure c \<longleftrightarrow> c = Handler_died \<or> c = Packets_stopped \<or> c = Bus_reset"

definition packet_threads ::
  "(nat \<Rightarrow> sp_env \<Rightarrow> 'm stream_processor_scheme sp_child) \<Rightarrow> (nat \<Rightarrow> nat \<Rightarrow> packet_call list)
   \<Rightarrow> nat \<Rightarrow> (nat \<Rightarrow> 'm stream_processor_scheme) \<Rightarrow> nat \<Rightarrow> 'm stream_processor_scheme" where
  "packet_threads ch calls n st a = fold (deliver (ch a)) (calls n a) (st a)"

definition no_failures :: "(nat \<Rightarrow> nat \<Rightarrow> packet_call list) \<Rightarrow> bool" where
  "no_failures calls \<longleftrightarrow> (\<forall>n a. \<forall>c\<in>set (calls n a). \<not> is_failure c)"

lemma deliver_reach:
  assumes "sp_reach ch failures s" and "is_failure c \<longrightarrow> failures"
  shows "sp_reach ch failures (deliver ch c s)"
  using assms
  by (cases c) (auto simp: is_failure_def split: option.splits
      intro: sp_reach.step sp_step.put sp_step.get sp_reach.fail sp_fail.intros)

lemma fold_deliver_reach:
  "sp_reach ch failures s \<Longrightarrow> \<forall>c\<in>set cs. is_failure c \<longrightarrow> failures \<Longrightarrow> sp_reach ch failures (fold (deliver ch) cs s)"
  by (induction cs arbitrary: s) (auto intro: deliver_reach)

text \<open>The environment in which the other threads are the packet threads.\<close>

definition with_packets :: "(nat \<Rightarrow> nat \<Rightarrow> packet_call list) \<Rightarrow> 'm spm_env \<Rightarrow> 'm spm_env" where
  "with_packets calls e = e\<lparr>se_others := packet_threads (se_child e) calls\<rparr>"

interpretation packets: spm_rely "with_packets calls e" "\<lambda>a. sp_reach (se_child e a) (\<not> no_failures calls)" for calls e
proof
  fix st :: "nat \<Rightarrow> 'a stream_processor_scheme" and n a
  assume "\<forall>a. sp_reach (se_child e a) (\<not> no_failures calls) (st a)"
  then show "sp_reach (se_child e a) (\<not> no_failures calls) (se_others (with_packets calls e) n st a)"
    by (auto simp: with_packets_def packet_threads_def no_failures_def intro!: fold_deliver_reach)
next
  fix a and s s' :: "'a stream_processor_scheme"
  assume "sp_reach (se_child e a) (\<not> no_failures calls) s" and "sp_step (se_child (with_packets calls e) a) s s'"
  then show "sp_reach (se_child e a) (\<not> no_failures calls) s'"
    by (auto simp: with_packets_def intro: sp_reach.step)
qed

section \<open>Managers of AMDTP streams\<close>

text \<open>
  A store of processors of both AMDTP classes: the members of the subclass are a sum, and a virtual call
  selects the side it belongs to.
\<close>

type_synonym amdtp_more = "(unit amdtp_receive_ext) amdtp_processor_ext + (unit amdtp_transmit_ext) amdtp_processor_ext"

definition map_more :: "('m \<Rightarrow> 'n) \<Rightarrow> 'm stream_processor_scheme \<Rightarrow> 'n stream_processor_scheme" where
  "map_more f s = stream_processor.extend (stream_processor.truncate s) (f (stream_processor.more s))"

definition lift_res ::
  "('n \<Rightarrow> 'm) \<Rightarrow> ('r \<times> 'n stream_processor_scheme) option \<Rightarrow> ('r \<times> 'm stream_processor_scheme) option" where
  "lift_res g r = map_option (\<lambda>(x, s). (x, map_more g s)) r"

definition lift_res3 ::
  "('n \<Rightarrow> 'm) \<Rightarrow> ('d \<times> 'r \<times> 'n stream_processor_scheme) option \<Rightarrow> ('d \<times> 'r \<times> 'm stream_processor_scheme) option" where
  "lift_res3 g r = map_option (\<lambda>(d, x, s). (d, x, map_more g s)) r"

definition lift_child ::
  "('m \<Rightarrow> 'n) \<Rightarrow> ('n \<Rightarrow> 'm) \<Rightarrow> 'n stream_processor_scheme sp_child \<Rightarrow> 'm stream_processor_scheme sp_child" where
  "lift_child f g ch =
     \<lparr>processPacketHeader = (\<lambda>d n t y c s. lift_res g (processPacketHeader ch d n t y c (map_more f s))),
      processPacketData = (\<lambda>d n s. lift_res g (processPacketData ch d n (map_more f s))),
      processReadBlock = (\<lambda>d nev off s. lift_res g (processReadBlock ch d nev off (map_more f s))),
      generatePacketHeader = (\<lambda>x c s. lift_res3 g (generatePacketHeader ch x c (map_more f s))),
      generatePacketData = (\<lambda>x s. lift_res3 g (generatePacketData ch x (map_more f s))),
      generateEmptyPacketHeader = (\<lambda>x c s. lift_res3 g (generateEmptyPacketHeader ch x c (map_more f s))),
      generateEmptyPacketData = (\<lambda>x s. lift_res3 g (generateEmptyPacketData ch x (map_more f s))),
      generateSilentPacketHeader = (\<lambda>x c s. lift_res3 g (generateSilentPacketHeader ch x c (map_more f s))),
      generateSilentPacketData = (\<lambda>x s. lift_res3 g (generateSilentPacketData ch x (map_more f s))),
      processWriteBlock = (\<lambda>nev off s. lift_res3 g (processWriteBlock ch nev off (map_more f s))),
      transmitSilenceBlock = (\<lambda>d nev off s. lift_res3 g (transmitSilenceBlock ch d nev off (map_more f s))),
      prepareChild = (\<lambda>s. lift_res g (prepareChild ch (map_more f s))),
      getEventsPerFrame = (\<lambda>s. getEventsPerFrame ch (map_more f s)),
      getEventSize = (\<lambda>s. getEventSize ch (map_more f s)),
      getNominalFramesPerPacket = (\<lambda>s. getNominalFramesPerPacket ch (map_more f s))\<rparr>"

definition amdtp_child :: "eProcessorType \<Rightarrow> fdf_sfc \<Rightarrow> bool \<Rightarrow> sp_env \<Rightarrow> amdtp_more stream_processor_scheme sp_child" where
  "amdtp_child type k sse e =
     (if type = ePT_Receive then lift_child projl Inl (amdtp_receive_child e)
      else lift_child projr Inr (amdtp_transmit_child k sse e))"

lemma same_private_map_more [simp]: "same_private (map_more f s) t \<longleftrightarrow> same_private s (map_more f' t)"
  by (cases s; cases t) (simp add: same_private_def map_more_def stream_processor.defs)

lemma map_more_map_more_private [simp]: "same_private s (map_more g (map_more f s))"
  by (cases s) (simp add: same_private_def map_more_def stream_processor.defs)

lemma lift_keeps: "keeps_private h \<Longrightarrow> keeps_private (\<lambda>s. lift_res g (h (map_more f s)))"
  by (fastforce simp: keeps_private_def lift_res_def same_private_map_more [of f _ _ g])

lemma lift_keeps3: "keeps_private3 h \<Longrightarrow> keeps_private3 (\<lambda>s. lift_res3 g (h (map_more f s)))"
  by (fastforce simp: keeps_private3_def lift_res3_def same_private_map_more [of f _ _ g])

lemma lift_child_laws: "sp_child_laws ch \<Longrightarrow> sp_child_laws (lift_child f g ch)"
  unfolding sp_child_laws_def lift_child_def by (auto intro: lift_keeps lift_keeps3)

interpretation amdtp_duplex: sp_child_family "amdtp_child type k sse" for type k sse
  by (rule sp_child_family.intro)
    (auto simp: amdtp_child_def intro: lift_child_laws amdtp_rx.sp_child_laws_axioms amdtp_tx.sp_child_laws_axioms)


text \<open>An example: a manager with one processor of each direction, in exact arithmetic.\<close>

definition example_kind :: "nat \<Rightarrow> eProcessorType" where
  "example_kind a = (if a = 0 then ePT_Receive else ePT_Transmit)"

definition example_duplex :: "nat \<Rightarrow> amdtp_more stream_processor_scheme" where
  "example_duplex a =
     (if a = 0 then map_more Inl (AmdtpReceiveStreamProcessor_new exact (\<lambda>_. 0) 2)
      else map_more Inr (AmdtpTransmitStreamProcessor_new exact (\<lambda>_. 0) 2))"

definition example_spm_env :: "(nat \<Rightarrow> sp_env \<Rightarrow> 'm stream_processor_scheme sp_child) \<Rightarrow> 'm spm_env" where
  "example_spm_env ch =
     \<lparr>se_fpa = exact, se_fresh = (\<lambda>_. 0), se_debug = False, se_debug_messages = True, se_child = ch,
      se_others = (\<lambda>_ st. st), se_node_id = (\<lambda>_. 0), se_ticks = (\<lambda>_. 0), se_time = (\<lambda>_. 0),
      getSystemTimeForCycleTimerTicks = (\<lambda>_ _. 0), se_start = (\<lambda>_ _ _. True), se_stop = (\<lambda>_ _. True),
      se_iso = IsoHandlerManager_new False 0, se_config = (\<lambda>_. None)\<rparr>"

definition example_world :: "amdtp_more spm_world" where
  "example_world = \<lparr>w_spm = StreamProcessorManager_new 8 48000 2 0 False 0, w_sps = example_duplex, w_now = 0\<rparr>"

lemma sp_initial_map_more [simp]: "sp_initial (map_more f s) = sp_initial s"
  by (cases s) (simp add: sp_initial_def map_more_def stream_processor.defs)


section \<open>Waiting for a period\<close>

text \<open>The invariant of the state machine is itself stable.\<close>

lemma deliver_inv:
  assumes "sp_child_family ch" and "sp_inv s"
  shows "sp_inv (deliver ch c s)"
proof -
  have step: "sp_step ch s s' \<Longrightarrow> sp_inv s'" for s' using sp_child_family.step_inv [OF assms(1) _ assms(2)] by blast
  show ?thesis
    using assms(2)
    by (cases c) (auto simp: handlerDied_def packetsStopped_def handleBusReset_def handleBusResetDo_def sp_inv_def [of "_\<lparr>m_state := _\<rparr>"]
        sp_inv_def [of "_\<lparr>m_in_xrun := _\<rparr>"] sp_inv_def [of "_\<lparr>m_next_state := _\<rparr>"] split: option.splits intro: step sp_step.put sp_step.get)
qed

lemma fold_deliver_inv: "sp_child_family ch \<Longrightarrow> sp_inv s \<Longrightarrow> sp_inv (fold (deliver ch) cs s)"
  by (induction cs arbitrary: s) (auto intro: deliver_inv)

lemma inv_rely:
  assumes "\<forall>a. sp_child_family (se_child e a)"
  shows "spm_rely (with_packets calls e) (\<lambda>_. sp_inv)"
proof
  fix st :: "nat \<Rightarrow> 'a stream_processor_scheme" and n a
  assume "\<forall>a :: nat. sp_inv (st a)"
  then show "sp_inv (se_others (with_packets calls e) n st a)"
    using assms by (auto simp: with_packets_def packet_threads_def intro!: fold_deliver_inv)
next
  fix a and s s' :: "'a stream_processor_scheme"
  assume "sp_inv s" and "sp_step (se_child (with_packets calls e) a) s s'"
  then show "sp_inv s'" using sp_child_family.step_inv assms by (auto simp: with_packets_def)
qed

lemma canProduce_total: "canProduce n s \<noteq> None"
  by (simp add: canProduce_def getBufferSpace_def del: not_None_eq)

lemma those_map_total: "\<forall>x\<in>set xs. f x \<noteq> None \<Longrightarrow> those (map f xs) = Some (map (the \<circ> f) xs)"
  by (induction xs) auto

lemma period_ready_eq:
  "period_ready e w = Some ((\<forall>a\<in>set (m_ReceiveProcessors (w_spm w)). canConsumePeriod (env_of e w a) (w_sps w a))
     \<and> (\<forall>a\<in>set (m_TransmitProcessors (w_spm w)). canProducePeriod (env_of e w a) (w_sps w a) = Some True))"
proof -
  have t: "\<forall>a\<in>set (m_TransmitProcessors (w_spm w)). canProducePeriod (env_of e w a) (w_sps w a) \<noteq> None"
    using canProduce_total by (auto simp: canProducePeriod_def)
  have "the (canProducePeriod (env_of e w a) (w_sps w a)) \<longleftrightarrow> canProducePeriod (env_of e w a) (w_sps w a) = Some True" for a
    using canProduce_total [of "m_period (spm (env_of e w a))" "w_sps w a"] by (auto simp: canProducePeriod_def)
  then show ?thesis by (simp add: period_ready_def those_map_total [OF t] list_all_iff)
qed

lemma wait_ready_returns:
  assumes "period_ready e (spm_sleeps e k w) = Some True \<or> any_xrun (spm_sleeps e (Suc k) w) \<or> any_error (spm_sleeps e (Suc k) w)"
  shows "\<exists>x y w'. wait_ready e w = Some (x, y, w') \<and> w_now w' \<le> w_now w + Suc k"
  using assms
proof (induction k arbitrary: w)
  case 0
  obtain r where r: "period_ready e w = Some r" using period_ready_eq by blast
  show ?case
    using 0 r by (subst wait_ready.simps) (cases r, auto simp: spm_sleeps_Suc Let_def)
next
  case (Suc k)
  obtain r where r: "period_ready e w = Some r" using period_ready_eq by blast
  from Suc.IH [of "spm_sleep e w"] Suc.prems
  obtain x y w' where "wait_ready e (spm_sleep e w) = Some (x, y, w')" "w_now w' \<le> w_now w + Suc (Suc k)"
    by (auto simp: spm_sleeps_Suc)
  then show ?case
    using r by (subst wait_ready.simps) (cases r, auto simp: Let_def)
qed

text \<open>
  C6. The wait for a period ends. If the processors come to a state, \<open>k\<close> sleeps after the wait for the
  transfer time, in which all of them can transfer a period, or one sleep later one of them has an xrun
  or an error, then \<^verbatim>\<open>waitForPeriod\<close> returns after at most \<open>k + 2\<close> sleeps. It has counted the period,
  its result tells whether there is an xrun, and the time of the transfer is the time of the period of the sync source.
\<close>

theorem period_wait_returns:
  assumes "m_SyncSource (w_spm w) = Some sync" and "\<not> m_shutdown_needed (w_spm w)"
    and "period_ready e (spm_sleeps e (Suc k) w) = Some True \<or> any_xrun (spm_sleeps e (Suc (Suc k)) w)
       \<or> any_error (spm_sleeps e (Suc (Suc k)) w)"
  shows "\<exists>r w'. spm_waitForPeriod e w = Some (r, w') \<and> w_now w' \<le> w_now w + k + 2 \<and> r = (\<not> any_xrun w')
     \<and> m_nbperiods (w_spm w') = m_nbperiods (w_spm w) + 1 \<and> m_time_of_transfer (w_spm w') = sync_time e sync w'"
proof -
  obtain x y v where v: "wait_ready e (spm_sleep e w) = Some (x, y, v)" "w_now v \<le> w_now w + k + 2"
    using wait_ready_returns [of e k "spm_sleep e w"] assms(3) by (auto simp: spm_sleeps_Suc)
  obtain n where n: "v = spm_sleeps e n (spm_sleep e w)" "x = any_xrun v" using wait_ready_ends [OF v(1)] by metis
  have "any_xrun (note_period e sync y v) = any_xrun v" "sync_time e sync (note_period e sync y v) = sync_time e sync v"
    by (simp_all add: note_period_def Let_def set_spm_def any_xrun_def all_sps_def sync_time_def getTimeAtPeriod_def
        env_of_def spm_settings_def)
  then show ?thesis
    using assms(1,2) v n by (simp add: spm_waitForPeriod_def note_period_def Let_def set_spm_def)
qed

text \<open>An example: two running processors that can transfer a period of eight frames.\<close>

definition example_ready :: "amdtp_more stream_processor_scheme \<Rightarrow> amdtp_more stream_processor_scheme" where
  "example_ready s = s\<lparr>m_state := ePS_Running, m_next_state := ePS_Running,
     m_data_buffer := (m_data_buffer s)\<lparr>m_transparent := False, m_buffer_size := 17, m_framecounter := 8\<rparr>\<rparr>"

definition example_running_world :: "amdtp_more spm_world" where
  "example_running_world = example_world\<lparr>w_sps := example_ready \<circ> example_duplex,
     w_spm := (w_spm example_world)\<lparr>m_SyncSource := Some 0, m_ReceiveProcessors := [0], m_TransmitProcessors := [1]\<rparr>\<rparr>"

abbreviation example_amdtp_env :: "amdtp_more spm_env" where
  "example_amdtp_env \<equiv> example_spm_env (\<lambda>a. amdtp_child (example_kind a) example_fdf True)"

lemma no_packets: "packet_threads ch (\<lambda>_ _. []) n st = st"
  by (simp add: packet_threads_def fun_eq_iff)

lemma example_env_quiet: "spm_sleep (with_packets (\<lambda>_ _. []) e) w = w\<lparr>w_now := w_now w + 1\<rparr>"
  by (simp add: spm_sleep_def with_packets_def no_packets)

lemma example_duplex_simps:
  "m_processor_type (example_duplex a) = (if a = 0 then ePT_Receive else ePT_Transmit)" "\<not> m_in_xrun (example_duplex a)"
  by (auto simp: example_duplex_def map_more_def AmdtpReceiveStreamProcessor_new_def AmdtpTransmitStreamProcessor_new_def
      amdtp_new_def StreamProcessor_new_def stream_processor.defs amdtp_processor.defs amdtp_receive.defs amdtp_transmit.defs)

lemma example_running_ready:
  assumes "w_sps w = w_sps example_running_world" and "w_spm w = w_spm example_running_world"
  shows "period_ready e w = Some True"
  using assms
  by (simp add: period_ready_eq canConsumePeriod_def canProducePeriod_def canConsume_def canProduce_def getBufferSpace_def
      getBufferFill_def env_of_def spm_settings_def example_running_world_def example_world_def StreamProcessorManager_new_def
      example_ready_def example_duplex_simps)

theorem period_wait_returns_witness:
  "\<exists>r w'. spm_waitForPeriod (with_packets (\<lambda>_ _. []) example_amdtp_env) example_running_world = Some (r, w')
     \<and> w_now w' \<le> 2 \<and> m_nbperiods (w_spm w') = 1"
proof -
  let ?e = "with_packets (\<lambda>_ _. []) example_amdtp_env"
  have s: "m_SyncSource (w_spm example_running_world) = Some 0" "\<not> m_shutdown_needed (w_spm example_running_world)"
    and n: "w_now example_running_world = 0" "m_nbperiods (w_spm example_running_world) = 0"
    by (simp_all add: example_running_world_def example_world_def StreamProcessorManager_new_def)
  have "period_ready ?e (spm_sleeps ?e (Suc 0) example_running_world) = Some True"
    by (rule example_running_ready) (simp_all add: spm_sleeps_Suc example_env_quiet)
  then show ?thesis using period_wait_returns [OF s, of ?e 0] n by auto
qed

text \<open>Every processor stands in the list of its direction.\<close>

definition registered_ok :: "'m spm_world \<Rightarrow> bool" where
  "registered_ok w \<longleftrightarrow> (\<forall>a\<in>set (m_ReceiveProcessors (w_spm w)). m_processor_type (w_sps w a) = ePT_Receive)
     \<and> (\<forall>a\<in>set (m_TransmitProcessors (w_spm w)). m_processor_type (w_sps w a) = ePT_Transmit)"

text \<open>A stream that runs, undisturbed.\<close>

definition runs :: "'m stream_processor_scheme \<Rightarrow> bool" where
  "runs s \<longleftrightarrow> m_state s = ePS_Running \<and> m_next_state s = ePS_Running \<and> \<not> m_in_xrun s"

definition all_run :: "'m spm_world \<Rightarrow> bool" where
  "all_run w \<longleftrightarrow>
     (\<forall>a\<in>set (m_ReceiveProcessors (w_spm w)). runs (w_sps w a) \<and> spm_period (w_spm w) \<le> m_framecounter (m_data_buffer (w_sps w a)))
     \<and> (\<forall>a\<in>set (m_TransmitProcessors (w_spm w)). runs (w_sps w a)
          \<and> spm_period (w_spm w) \<le> m_buffer_size (m_data_buffer (w_sps w a)) - m_framecounter (m_data_buffer (w_sps w a)))"

lemma ready_all_run:
  assumes "period_ready e w = Some True" and "\<not> any_xrun w" and "registered_ok w"
  shows "all_run w"
  using assms
  by (auto simp: period_ready_eq all_run_def registered_ok_def any_xrun_def list_ex_iff all_sps_def runs_def canConsumePeriod_def
      canProducePeriod_def canConsume_def canProduce_def getBufferFill_def getBufferSpace_def env_of_def spm_settings_def
      split: if_splits)

lemma wait_ok_all_run:
  assumes "spm_waitForPeriod e w = Some (True, w')" and "\<forall>a. sp_inv (w_sps w' a)" and "registered_ok w'"
  shows "all_run w' \<and> \<not> m_shutdown_needed (w_spm w')"
proof -
  obtain sync x y v where v: "wait_ready e (spm_sleep e w) = Some (x, y, v)" "\<not> x" "w' = note_period e sync y v"
    and s: "\<not> m_shutdown_needed (w_spm w)"
    using assms(1) by (auto simp: spm_waitForPeriod_def bind_eq_Some_conv split: option.splits if_splits)
  obtain n where n: "v = spm_sleeps e n (spm_sleep e w)" "x = any_xrun v" "y = any_error v"
    "x \<or> y \<or> m_shutdown_needed (w_spm (spm_sleep e w)) \<or> period_ready e v = Some True"
    by (rule wait_ready_ends [OF v(1)])
  have sps: "w_sps w' = w_sps v" by (simp add: v(3) note_period_def Let_def set_spm_def)
  have y: "\<not> y"
    using v(2) n(2,3) assms(2) by (auto simp: any_error_def any_xrun_def list_ex_iff sp_inv_def sps)
  have "all_run v"
  proof (rule ready_all_run)
    show "period_ready e v = Some True" using n v(2) y s by simp
    show "\<not> any_xrun v" using n v(2) by simp
    show "registered_ok v" using assms(3) by (simp add: v(3) note_period_def Let_def set_spm_def registered_ok_def)
  qed
  then show ?thesis using y s n(1) by (simp add: v(3) note_period_def Let_def set_spm_def all_run_def)
qed

text \<open>
  C5. When the device manager reports a period as ready, it is. For a manager of AMDTP streams whose
  processors satisfy their invariant, whatever packets arrive and whatever fails during the wait: if
  \<^verbatim>\<open>DeviceManager::waitForPeriod\<close> returns \<^verbatim>\<open>eWR_OK\<close> then every registered stream runs without an xrun, every receiving
  stream holds at least one period of frames, every sending stream has room for one, and no shutdown is
  requested.
\<close>

theorem period_ready_is_ready:
  assumes "\<forall>a. se_child e a = amdtp_child (kind a) k sse" and "\<forall>a. sp_inv (w_sps w a)"
    and "DeviceManager_waitForPeriod (with_packets calls e) w = Some (eWR_OK, w')" and "registered_ok w'"
  shows "all_run w' \<and> \<not> m_shutdown_needed (w_spm w') \<and> (\<forall>a. sp_inv (w_sps w' a))"
proof -
  have ok: "spm_waitForPeriod (with_packets calls e) w = Some (True, w')"
    using assms(3) by (auto simp: DeviceManager_waitForPeriod_def bind_eq_Some_conv split: if_splits)
  have "\<forall>a. sp_child_family (se_child e a)" using assms(1) amdtp_duplex.sp_child_family_axioms by simp
  then have rely: "spm_rely (with_packets calls e) (\<lambda>_. sp_inv)" by (rule inv_rely)
  have "holds_all (\<lambda>_. sp_inv) w'"
    by (rule keeps_allD [OF spm_rely.waitForPeriod_keeps [OF rely] ok]) (use assms(2) in \<open>simp add: holds_all_def\<close>)
  then show ?thesis using wait_ok_all_run [OF ok _ assms(4)] by (simp add: holds_all_def)
qed

lemma example_running_wait:
  "spm_waitForPeriod (with_packets (\<lambda>_ _. []) e) example_running_world
     = Some (True, note_period (with_packets (\<lambda>_ _. []) e) 0 False (example_running_world\<lparr>w_now := 1\<rparr>))"
proof -
  let ?e = "with_packets (\<lambda>_ _. []) e" and ?w = "example_running_world\<lparr>w_now := 1\<rparr>"
  have w: "spm_sleep ?e example_running_world = ?w"
    by (simp add: example_env_quiet example_running_world_def example_world_def)
  have "period_ready ?e ?w = Some True" by (rule example_running_ready) simp_all
  moreover have x: "\<not> any_xrun ?w" "\<not> any_error ?w" "m_SyncSource (w_spm ?w) = Some 0" "\<not> m_shutdown_needed (w_spm ?w)"
    by (simp_all add: any_xrun_def any_error_def all_sps_def example_running_world_def example_world_def example_ready_def
        example_duplex_simps StreamProcessorManager_new_def)
  ultimately have "wait_ready ?e ?w = Some (False, False, ?w)" by (subst wait_ready.simps) simp
  then show ?thesis using w x by (simp add: spm_waitForPeriod_def)
qed

theorem period_ready_is_ready_witness:
  "\<exists>w'. DeviceManager_waitForPeriod (with_packets (\<lambda>_ _. []) example_amdtp_env) example_running_world = Some (eWR_OK, w')
     \<and> all_run w' \<and> m_ReceiveProcessors (w_spm w') = [0]"
proof -
  let ?e = "with_packets (\<lambda>_ _. []) example_amdtp_env"
  let ?w = "note_period ?e 0 False (example_running_world\<lparr>w_now := 1\<rparr>)"
  have ok: "DeviceManager_waitForPeriod ?e example_running_world = Some (eWR_OK, ?w)"
    by (simp add: DeviceManager_waitForPeriod_def example_running_wait)
  have "\<forall>a. se_child example_amdtp_env a = amdtp_child (example_kind a) example_fdf True" by (simp add: example_spm_env_def)
  moreover have "\<forall>a. sp_inv (w_sps example_running_world a)"
    by (simp add: example_running_world_def example_ready_def sp_inv_def example_duplex_simps)
  moreover have "registered_ok ?w" "m_ReceiveProcessors (w_spm ?w) = [0]"
    by (simp_all add: registered_ok_def note_period_def Let_def set_spm_def example_running_world_def example_world_def
        example_ready_def example_duplex_simps)
  ultimately show ?thesis using period_ready_is_ready [OF _ _ ok] ok by blast
qed

end
