(* ===== verification/ManagerStart.thy ===== *)
theory ManagerStart
  imports ManagerRuns
begin

text \<open>
  Starting and stopping: how the start is planned and scheduled, how the received streams are aligned,
  what holds when \<^verbatim>\<open>start\<close> and \<^verbatim>\<open>stop\<close> return.
\<close>

section \<open>Alignment\<close>

declare wait_ready.simps [code]

text \<open>\<open>unaligned_tries e p n w\<close>: the state after \<open>n\<close> tries none of which failed or found the streams aligned.\<close>

fun unaligned_tries :: "'m spm_env \<Rightarrow> nat \<Rightarrow> nat \<Rightarrow> 'm spm_world \<Rightarrow> 'm spm_world option" where
  "unaligned_tries e p 0 w = Some w"
| "unaligned_tries e p (Suc n) w =
     do { (ok, aligned, w) \<leftarrow> align_try e p w; if ok \<and> \<not> aligned then unaligned_tries e p n w else None }"

lemma align_loop_unaligned:
  "unaligned_tries e p n w = Some v \<Longrightarrow> n \<le> unat cnt \<Longrightarrow> align_loop e p cnt w = align_loop e p (cnt - of_nat n) v"
proof (induction n arbitrary: cnt w)
  case (Suc n)
  from Suc.prems(2) have c: "cnt \<noteq> 0" by auto
  then have n: "n \<le> unat (cnt - 1)" using Suc.prems(2) by (simp add: unat_minus_one)
  obtain u where u: "align_try e p w = Some (True, False, u)" "unaligned_tries e p n u = Some v"
    using Suc.prems(1) by (auto simp: bind_eq_Some_conv split: if_splits)
  have "align_loop e p cnt w = align_loop e p (cnt - 1) u"
    using c u(1) by (subst align_loop.simps) simp
  then show ?case using Suc.IH [OF u(2) n] by (simp add: algebra_simps)
qed simp

text \<open>The number of tries and the number of periods per try that the settings give.\<close>

definition align_tries :: "'m spm_env \<Rightarrow> i32" where
  "align_tries e = getValueForSetting e ''streaming.spm.align_tries'' NB_ALIGN_TRIES"

definition align_periods :: "'m spm_env \<Rightarrow> 'm spm_world \<Rightarrow> nat" where
  "align_periods e w = unat ((getValueForSetting e ''streaming.spm.align_average_time_msec'' ALIGN_AVERAGE_TIME_MSEC
     * spm_nominal_framerate (w_spm w)) div 1000 div spm_period (w_spm w))"

lemma align_eq:
  "spm_period (w_spm w) \<noteq> 0 \<Longrightarrow> alignReceivedStreams e w =
     map_option (\<lambda>(r, w). case r of None \<Rightarrow> (False, w) | Some (_, cnt) \<Rightarrow> (cnt \<noteq> 0, w)) (align_loop e (align_periods e w) (align_tries e) w)"
  by (simp add: alignReceivedStreams_def align_periods_def align_tries_def Let_def map_option_case split: bind_splits option.splits prod.splits)

text \<open>
  C35. The result of the alignment, try by try. If the streams are found aligned after \<open>n\<close> tries that found
  them unaligned, the alignment succeeds, except in the last permitted try, which is reported as a failure.
  If no try finds them aligned, the alignment is reported as a success: the counter is tested for 0, but the
  test that ends the loop has decremented it to -1.
\<close>

theorem align_outcome:
  assumes "spm_period (w_spm w) \<noteq> 0" and "unaligned_tries e (align_periods e w) n w = Some v"
  shows "(n < unat (align_tries e) \<and> align_try e (align_periods e w) v = Some (True, True, w')
            \<longrightarrow> alignReceivedStreams e w = Some (n + 1 \<noteq> unat (align_tries e), w'))
       \<and> (n = unat (align_tries e) \<longrightarrow> alignReceivedStreams e w = Some (True, v))"
proof (intro conjI impI; (elim conjE)?)
  let ?c = "align_tries e" and ?p = "align_periods e w"
  note loop = align_loop_unaligned [OF assms(2), of ?c] and res = align_eq [OF assms(1), of e]
  {
    assume n: "n < unat ?c" and t: "align_try e ?p v = Some (True, True, w')"
    have "unat (of_nat n :: i32) = n" using n unsigned_less [of ?c, where ?'a = nat] by (simp add: unat_of_nat)
    then have u: "unat (?c - of_nat n) = unat ?c - n" using n by (simp add: unat_sub word_le_nat_alt)
    have z: "?c - of_nat n \<noteq> 0" using u n by (metis unat_0 zero_less_diff less_irrefl)
    have "?c - of_nat n - 1 = 0 \<longleftrightarrow> unat (?c - of_nat n) = 1" by (metis diff_eq_eq add_0 unat_1 word_unat_eq_iff)
    then have "?c - of_nat n - 1 \<noteq> 0 \<longleftrightarrow> n + 1 \<noteq> unat ?c" using u n by arith
    moreover have "align_loop e ?p ?c w = Some (Some (True, ?c - of_nat n - 1), w')"
      using loop n t z by (simp add: align_loop.simps [of e ?p "?c - of_nat n"])
    ultimately show "alignReceivedStreams e w = Some (n + 1 \<noteq> unat ?c, w')" using res by simp
  next
    assume "n = unat ?c"
    then have "?c - of_nat n = 0" "n \<le> unat ?c" by simp_all
    then have "align_loop e ?p ?c w = Some (Some (False, - 1), v)"
      using loop by (simp add: align_loop.simps [of e ?p 0])
    then show "alignReceivedStreams e w = Some (True, v)" using res by simp
  }
qed

text \<open>
  An example: two received streams, ten frames apart, that are given one try of one period. The try shifts
  one of them and is not repeated.
\<close>

definition example_apart :: "nat \<Rightarrow> stream_processor" where
  "example_apart a = (StreamProcessor_new exact ePT_Receive)\<lparr>m_state := ePS_Running, m_next_state := ePS_Running,
     m_data_buffer := (TimestampedBuffer_new exact)\<lparr>m_event_buffer := ffado_ringbuffer_create (\<lambda>_. 0) 32, m_event_size := 1,
       m_events_per_frame := 1, m_framecounter := 32, m_transparent := False, m_current_rate := 512, m_wrap_at := 3145728000,
       m_buffer_tail_timestamp := (if a = 0 then 100000 else 105120)\<rparr>\<rparr>"

definition example_apart_env :: "unit spm_env" where
  "example_apart_env = (example_spm_env (\<lambda>_ _. sp_child_defaults (\<lambda>s. Some (True, s)) (\<lambda>_. 1) (\<lambda>_. 4) (\<lambda>_. 8)))
     \<lparr>se_config := (\<lambda>s. if s = ''streaming.spm.align_tries'' \<or> s = ''streaming.spm.align_average_time_msec'' then Some 1 else None)\<rparr>"

definition example_apart_world :: "unit spm_world" where
  "example_apart_world = \<lparr>w_spm = (StreamProcessorManager_new 8 8000 2 0 False 0)\<lparr>m_SyncSource := Some 0, m_ReceiveProcessors := [0, 1]\<rparr>,
     w_sps = example_apart, w_now = 0\<rparr>"

theorem align_outcome_witness: "\<exists>v. alignReceivedStreams example_apart_env example_apart_world = Some (True, v)"
proof -
  have "unaligned_tries example_apart_env (align_periods example_apart_env example_apart_world) 1 example_apart_world \<noteq> None"
    by code_simp
  then obtain v where "unaligned_tries example_apart_env (align_periods example_apart_env example_apart_world) 1 example_apart_world = Some v"
    by auto
  moreover have "spm_period (w_spm example_apart_world) \<noteq> 0" by code_simp
  moreover have "1 = unat (align_tries example_apart_env)" by code_simp
  ultimately show ?thesis using align_outcome by blast
qed

text \<open>The shifts: no stream is shifted backwards, and what remains of the offsets is the same for all.\<close>

lemma sint_min_shift: "sint (min_shift ds) = Min (insert 9999 (sint ` set ds))"
proof -
  have "sint (foldl (\<lambda>m d. if d <s m then d else m) m ds) = Min (insert (sint m) (sint ` set ds))" for m :: i32
  proof (induction ds arbitrary: m)
    case (Cons d ds)
    have "sint (if d <s m then d else m) = min (sint m) (sint d)" by (simp add: word_sless_alt)
    then show ?case using Cons [of "if d <s m then d else m"] by (cases ds) (simp_all add: ac_simps)
  qed simp
  from this [of 9999] show ?thesis by (simp add: min_shift_def)
qed

lemma sint_shift:
  assumes "\<forall>k\<in>set ks. \<bar>k\<bar> < 2 ^ 29" and "Min (set ks) \<le> 9999" and "i < length ks"
  shows "sint (frames_to_shift (map of_int ks) ! i) = ks ! i - Min (set ks)" and "Min (set ks) \<le> ks ! i"
proof -
  have s: "sint (of_int k :: i32) = k" if "k \<in> set ks" for k
    using assms(1) that by (intro sint_of_int_in_range) (auto simp: abs_less_iff dest!: bspec [of _ _ k])
  have ne: "set ks \<noteq> {}" using assms(3) by auto
  have "(\<lambda>k. sint (of_int k :: i32)) ` set ks = set ks" using s by force
  then have m: "sint (min_shift (map of_int ks)) = Min (set ks)"
    using ne assms(2) by (simp add: sint_min_shift image_image min_absorb2 del: of_int_eq_iff)
  show le: "Min (set ks) \<le> ks ! i" using assms(3) by simp
  have b: "\<bar>ks ! i\<bar> < 2 ^ 29" "\<bar>Min (set ks)\<bar> < 2 ^ 29" using assms(1,3) Min_in [OF _ ne] by auto
  have "frames_to_shift (map of_int ks) ! i = of_int (ks ! i - Min (set ks))"
    using assms(3) by (simp add: frames_to_shift_def flip: m)
  then show "sint (frames_to_shift (map of_int ks) ! i) = ks ! i - Min (set ks)"
    using b by (simp only:) (rule sint_of_int_in_range, auto simp: abs_less_iff)
qed

text \<open>
  A received stream whose period of \<open>p\<close> frames ends \<open>k\<close> frames of \<open>q\<close> ticks before the time \<open>T\<close>, with counters far
  from overflow; times wrap at \<open>W\<close>.
\<close>

definition stream_behind :: "rat \<Rightarrow> rat \<Rightarrow> u32 \<Rightarrow> rat \<Rightarrow> int \<Rightarrow> 'm stream_processor_scheme \<Rightarrow> bool" where
  "stream_behind q W p T k s \<longleftrightarrow>
     (let b = m_data_buffer s
      in m_event_buffer b \<noteq> None \<and> m_current_rate b = q \<and> m_wrap_at b = W \<and> 0 \<le> sint (m_framecounter b) \<and> sint (m_framecounter b) < 2 ^ 29
         \<and> m_buffer_tail_timestamp b = T - of_int k * q + (of_i32 (m_framecounter b) - of_i32 p) * q)"

lemma of_i32_diff2:
  assumes "sint a \<in> {0..<2 ^ 29}" and "sint n \<in> {0..<2 ^ 30}" and "sint p \<in> {0..<2 ^ 29}"
  shows "of_i32 (a - n - p) = of_i32 a - of_i32 n - of_i32 p"
proof -
  have "sint (of_int (sint a - sint n - sint p) :: i32) = sint a - sint n - sint p"
    by (rule sint_of_int_in_range) (use assms in auto)
  then have "sint (a - n - p) = sint a - sint n - sint p" by simp
  then show ?thesis by (simp add: of_i32_def)
qed

lemma shiftStream_forward:
  assumes "0 \<le> sint n" and "m_event_buffer (m_data_buffer s) \<noteq> None"
  shows "\<exists>rb. shiftStream n s = Some (True, s\<lparr>m_data_buffer := (m_data_buffer s)\<lparr>m_framecounter := m_framecounter (m_data_buffer s) - n,
    m_event_buffer := rb\<rparr>\<rparr>)"
proof (cases "n = 0")
  case True
  then show ?thesis by (intro exI [of _ "m_event_buffer (m_data_buffer s)"]) (simp add: shiftStream_def)
next
  case False
  then have "sint n \<noteq> 0" by (metis signed_0 signed_word_eqI)
  then have "0 <s n" using assms(1) by (simp add: word_sless_alt)
  moreover obtain rb where "m_event_buffer (m_data_buffer s) = Some rb" using assms(2) by blast
  ultimately show ?thesis using False
    by (intro exI [of _ "Some (ffado_ringbuffer_read_advance rb (ucast (n * m_event_size (m_data_buffer s) * m_events_per_frame (m_data_buffer s))))"])
      (simp add: shiftStream_def on_buffer_def dropFrames_def decrementFrameCounter_def Let_def)
qed

lemma shift_moves:
  assumes "stream_behind q W p T k s" and "sint n \<in> {0..<2 ^ 30}" and "sint p \<in> {0..<2 ^ 29}"
    and "0 \<le> T - of_int (k - sint n) * q" and "T - of_int (k - sint n) * q < W"
  shows "\<exists>s'. shiftStream n s = Some (True, s') \<and> getTimestampFromHead exact (m_data_buffer s') p = T - of_int (k - sint n) * q"
proof -
  let ?b = "m_data_buffer s"
  note b = assms(1) [unfolded stream_behind_def Let_def]
  obtain s' where s': "shiftStream n s = Some (True, s')" and f: "m_framecounter (m_data_buffer s') = m_framecounter ?b - n"
    and same: "m_current_rate (m_data_buffer s') = q" "m_wrap_at (m_data_buffer s') = W"
      "m_buffer_tail_timestamp (m_data_buffer s') = m_buffer_tail_timestamp ?b"
    using b assms(2) shiftStream_forward [of n s] by fastforce
  have "getTimestampFromHead exact (m_data_buffer s') p
      = wrap_timestamp exact (m_data_buffer s') (T - of_int (k - sint n) * q)"
  proof -
    have "of_i32 (m_framecounter ?b - n - p) = of_i32 (m_framecounter ?b) - of_int (sint n) - of_i32 p"
      using of_i32_diff2 [of "m_framecounter ?b" n p] b assms(2,3) by (simp add: of_i32_def)
    moreover have "m_buffer_tail_timestamp ?b = T - of_int k * q + (of_i32 (m_framecounter ?b) - of_i32 p) * q" using b by simp
    ultimately have "m_buffer_tail_timestamp ?b - of_i32 (m_framecounter ?b - n - p) * q = T - of_int (k - sint n) * q"
      by (simp only: of_int_diff) (simp only: algebra_simps)
    then show ?thesis using same f by (simp add: getTimestampFromHead_def getTimestampFromTail_def)
  qed
  then show ?thesis using s' assms(4,5) same by (auto simp: wrap_timestamp_id)
qed


lemma example_apart_behind:
  "stream_behind 512 3145728000 8 87712 0 (example_apart 0)" "stream_behind 512 3145728000 8 87712 (- 10) (example_apart 1)"
  by code_simp+


section \<open>Stopping\<close>

text \<open>Loops over processors that only schedule: they always return, and leave the manager and the time alone.\<close>

definition schedules :: "('a \<Rightarrow> 'm spm_world \<Rightarrow> (bool \<times> 'm spm_world) option) \<Rightarrow> bool" where
  "schedules f \<longleftrightarrow> (\<forall>a w. \<exists>r w'. f a w = Some (r, w') \<and> w_spm w' = w_spm w \<and> w_now w' = w_now w)"

lemma until_failure_schedules:
  "schedules f \<Longrightarrow> \<exists>r w'. until_failure f as w = Some (r, w') \<and> w_spm w' = w_spm w \<and> w_now w' = w_now w"
proof (induction as arbitrary: w)
  case (Cons a as)
  obtain r u where u: "f a w = Some (r, u)" "w_spm u = w_spm w" "w_now u = w_now w"
    using Cons.prems unfolding schedules_def by blast
  show ?case using u Cons.IH [OF Cons.prems, of u] by (cases r) auto
qed (auto intro: exI [of _ True])

lemma sp_act_frame: "\<exists>r w'. sp_act e a f w = (r, w') \<and> w_spm w' = w_spm w \<and> w_now w' = w_now w"
  by (cases "f (env_of e w a) (w_sps w a)") (simp add: sp_act_def put_sp_def)

lemma stops_schedule: "schedules (stop_running e)" "schedules (stop_dry e)" "schedules (start_dry e)"
  using sp_act_frame by (fastforce simp: schedules_def stop_running_def stop_dry_def start_dry_def)+

lemma all_sps_cong: "w_spm w' = w_spm w \<Longrightarrow> all_sps w' = all_sps w"
  by (simp add: all_sps_def)

lemma wait_checked_frame:
  "\<exists>c w'. wait_checked e ready cnt w = (c, w') \<and> w_spm w' = w_spm w \<and> w_now w' \<le> w_now w + cnt
     \<and> (c \<noteq> 0 \<longrightarrow> (\<exists>v. w' = spm_sleep e v \<and> w_spm v = w_spm w \<and> ready v))"
proof (cases rule: wait_checked_cases [of cnt ready e w])
  case (seen k)
  then show ?thesis by (auto simp: spm_sleeps_snoc intro!: exI [of _ "spm_sleeps e k w"])
qed simp

text \<open>
  C8. Stopping ends, and when it succeeds the streams are off. \<^verbatim>\<open>stop\<close> returns after at most 16000 sleeps of one cycle, whatever
  the packet threads do. If it reports success, then at its last look, one sleep before it returns, every
  registered processor was stopped or in error. It is the same whether the streams ran before or not.
\<close>

theorem stop_halts_streams:
  "\<exists>r w'. spm_stop e w = Some (r, w') \<and> w_spm w' = w_spm w \<and> w_now w' \<le> w_now w + 16000
     \<and> (r \<longrightarrow> (\<exists>v. w' = spm_sleep e v \<and> (\<forall>a\<in>set (all_sps w). halted v a)))"
proof -
  obtain ok1 w1 where w1: "until_failure (stop_running e) (all_sps w) w = Some (ok1, w1)" "w_spm w1 = w_spm w" "w_now w1 = w_now w"
    using until_failure_schedules [OF stops_schedule(1)] by blast
  obtain c2 w2 where w2: "wait_checked e (\<lambda>w. list_all (settled w) (all_sps w)) 8000 w1 = (c2, w2)" "w_spm w2 = w_spm w"
      "w_now w2 \<le> w_now w + 8000"
    using wait_checked_frame [of e "\<lambda>w. list_all (settled w) (all_sps w)" 8000 w1] w1 by auto
  obtain ok3 w3 where w3: "until_failure (stop_dry e) (all_sps w2) w2 = Some (ok3, w3)" "w_spm w3 = w_spm w" "w_now w3 = w_now w2"
    using until_failure_schedules [OF stops_schedule(2)] w2(2) by metis
  obtain c4 w4 where w4: "wait_checked e (\<lambda>w. list_all (halted w) (all_sps w)) 8000 w3 = (c4, w4)" "w_spm w4 = w_spm w"
      "w_now w4 \<le> w_now w3 + 8000" "c4 \<noteq> 0 \<longrightarrow> (\<exists>v. w4 = spm_sleep e v \<and> w_spm v = w_spm w \<and> list_all (halted v) (all_sps v))"
    using wait_checked_frame [of e "\<lambda>w. list_all (halted w) (all_sps w)" 8000 w3] w3 by auto
  show ?thesis
  proof (cases "ok1 \<and> c2 \<noteq> 0 \<and> ok3")
    case True
    then have "spm_stop e w = Some (c4 \<noteq> 0, w4)" using w1(1) w2(1) w3(1) w4(1) by (simp add: spm_stop_def)
    then show ?thesis using w2 w3 w4 by (auto simp: all_sps_def list_all_iff)
  next
    case False
    then show ?thesis using w1 w2 w3 by (cases ok1; cases "c2 = 0") (auto simp: spm_stop_def)
  qed
qed

definition example_stopped_world :: "unit spm_world" where
  "example_stopped_world = example_apart_world\<lparr>w_sps := (\<lambda>a. (example_apart a)\<lparr>m_state := ePS_Stopped, m_next_state := ePS_Stopped\<rparr>)\<rparr>"

theorem stop_halts_streams_witness:
  "\<exists>w' v. spm_stop example_apart_env example_stopped_world = Some (True, w') \<and> w_now w' \<le> 16000
     \<and> w' = spm_sleep example_apart_env v \<and> halted v 0 \<and> halted v 1"
proof -
  have "map_option fst (spm_stop example_apart_env example_stopped_world) = Some True" by code_simp
  moreover have "set (all_sps example_stopped_world) = {0, 1}" "w_now example_stopped_world = 0"
    by (auto simp: example_stopped_world_def example_apart_world_def all_sps_def StreamProcessorManager_new_def)
  ultimately show ?thesis using stop_halts_streams [of example_apart_env example_stopped_world] by auto
qed

section \<open>The plan of a start\<close>

lemma prebuffer_loop_result:
  assumes "0 < m" and "m dvd tmp" and "tmp < n + m" and "n + m < 2 ^ 31"
  shows "\<exists>r. prebuffer_loop n m tmp = Some r \<and> m dvd r \<and> n \<le> r \<and> r < n + m"
  using assms
proof (induction n m tmp rule: prebuffer_loop.induct)
  case (1 n m tmp)
  show ?case
  proof (cases "tmp < n")
    case True
    then have "\<not> (m \<le> 0 \<or> 2 ^ 31 \<le> tmp + m)" using 1(2,5) by linarith
    then show ?thesis using 1(1) [OF True] 1(2-5) True by (subst prebuffer_loop.simps) simp
  next
    case False
    then show ?thesis using 1(3,4) by (subst prebuffer_loop.simps) simp
  qed
qed

lemma prebuffer_frames_result:
  assumes "0 < sint m" and "0 < sint n" and "sint n + sint m < 2 ^ 31"
  shows "\<exists>r. prebuffer_frames n m = Some r \<and> sint m dvd sint r \<and> sint n \<le> sint r \<and> sint r < sint n + sint m"
proof (cases "sint n smod sint m = 0")
  case True
  then have "sint m dvd sint n" using assms by (simp add: signed_modulo_int_def dvd_eq_mod_eq_0)
  then show ?thesis using True assms by (auto simp: prebuffer_frames_def)
next
  case False
  obtain r where r: "prebuffer_loop (sint n) (sint m) 0 = Some r" "sint m dvd r" "sint n \<le> r" "r < sint n + sint m"
    using prebuffer_loop_result [of "sint m" 0 "sint n"] assms by auto
  then have "sint (of_int r :: i32) = r" using assms by (intro sint_of_int_in_range) auto
  then show ?thesis using r False assms by (auto simp: prebuffer_frames_def)
qed

text \<open>The number of frames of the startup time, rounded up to whole packets of \<open>P\<close> frames.\<close>

definition startup_frames :: "rat \<Rightarrow> int \<Rightarrow> int" where
  "startup_frames q P = (\<lfloor>614400 / q\<rfloor> div P + 1) * P"

lemma div_brackets:
  fixes f :: int
  assumes "0 < P"
  shows "f < (f div P + 1) * P" and "(f div P + 1) * P \<le> f + P"
proof -
  have "(f div P + 1) * P = f - f mod P + P" by (simp add: distrib_right minus_mod_eq_div_mult)
  then show "f < (f div P + 1) * P" "(f div P + 1) * P \<le> f + P"
    using pos_mod_bound [OF assms, of f] pos_mod_sign [OF assms, of f] by linarith+
qed

lemma startup_frames_bounds:
  assumes "1 \<le> q" and "0 < P"
  shows "P dvd startup_frames q P" and "614400 < of_int (startup_frames q P) * q"
    and "of_int (startup_frames q P) * q \<le> 614400 + of_int P * q" and "0 < startup_frames q P" and "startup_frames q P \<le> 614400 + P"
proof -
  let ?f = "\<lfloor>614400 / q\<rfloor>"
  show "P dvd startup_frames q P" by (simp add: startup_frames_def)
  have f: "?f < startup_frames q P" "startup_frames q P \<le> ?f + P"
    using div_brackets [OF assms(2), of ?f] by (simp_all add: startup_frames_def)
  have "614400 / q < of_int (startup_frames q P)" using f(1) by (simp add: floor_less_iff)
  then show "614400 < of_int (startup_frames q P) * q" using assms(1) by (simp add: pos_divide_less_eq)
  have le: "of_int ?f * q \<le> 614400" using assms(1) by (metis of_int_floor_le pos_le_divide_eq order_less_le_trans zero_less_one)
  have "of_int (startup_frames q P) * q \<le> of_int (?f + P) * q" using f(2) assms(1) by (intro mult_right_mono) simp_all
  then show "of_int (startup_frames q P) * q \<le> 614400 + of_int P * q" using le by (simp add: distrib_right)
  have "0 \<le> ?f" "?f \<le> 614400" using assms(1) by (simp_all add: floor_le_iff pos_divide_less_eq)
  then show "0 < startup_frames q P" "startup_frames q P \<le> 614400 + P" using f by linarith+
qed

lemma sint_of_small: "0 \<le> k \<Longrightarrow> k < 2147483648 \<Longrightarrow> sint (of_int k :: i32) = k"
  by (intro sint_of_int_in_range) auto

lemma sdiv_nonneg: "0 \<le> a \<Longrightarrow> 0 < b \<Longrightarrow> a sdiv b = (a :: int) div b"
  by (auto simp: signed_divide_int_def sgn_if)

lemma time_for_startup_exact:
  assumes "se_fpa e = exact" and "1 \<le> q" and "q \<le> 1024" and "0 < sint packet" and "sint packet \<le> 1024"
  shows "time_for_startup e 200 q packet = Some (of_int \<lfloor>of_int (startup_frames q (sint packet)) * q\<rfloor>)"
proof -
  let ?P = "sint packet" and ?f = "\<lfloor>614400 / q\<rfloor>"
  have f: "0 \<le> ?f" "?f \<le> 614400" using assms(2) by (simp_all add: floor_le_iff pos_divide_less_eq)
  have "sint (of_int ?f :: i32) = ?f" using f by (intro sint_of_small) linarith+
  moreover have "?f sdiv ?P = ?f div ?P" by (rule sdiv_nonneg [OF f(1) assms(4)])
  ultimately have "(of_int (sint (of_int ?f :: i32) sdiv ?P) + 1) * packet = of_int (startup_frames q ?P)"
    by (simp add: startup_frames_def)
  moreover have "sint (of_int (startup_frames q ?P) :: i32) = startup_frames q ?P"
    using startup_frames_bounds(4,5) [OF assms(2,4)] assms(5) by (intro sint_of_int_in_range) auto
  then have "of_i32 (of_int (startup_frames q ?P)) = of_int (startup_frames q ?P)" by (simp only: of_i32_def)
  moreover have "0 \<le> of_int (startup_frames q ?P) * q" using startup_frames_bounds(2) [OF assms(2,4)] by linarith
  ultimately show ?thesis
    using assms(1,2,4) by (auto simp: time_for_startup_def Let_def of_u32_def TICKS_PER_CYCLE_def trunc_rat_def)
qed

text \<open>With the default settings and exact arithmetic the times of the plan are those that were asked for.\<close>

lemma plan_start_exact:
  assumes "se_fpa e = exact" and "se_config e = (\<lambda>_. None)"
    and "getTicksPerFrame (w_sps w sync) = q" and "1 \<le> q" and "q \<le> 1024" and "0 < sint packet" and "sint packet \<le> 1024"
    and "uint (sync_time e sync w) < MAX_TICKS"
  shows "\<exists>p. plan_start e packet sync w = Some p
     \<and> uint (time_of_first_sample p) = (uint (sync_time e sync w) + \<lfloor>of_int (startup_frames q (sint packet)) * q\<rfloor>) mod MAX_TICKS
     \<and> time_to_start_recv p = time_of_first_sample p
     \<and> uint (time_to_start_xmit p) = (uint (time_of_first_sample p) - 61440) mod MAX_TICKS
     \<and> sint packet dvd sint (xmit_prebuffer_frames p) \<and> 100 \<le> sint (xmit_prebuffer_frames p)
     \<and> sint (xmit_prebuffer_frames p) < 100 + sint packet"
proof -
  let ?T = "\<lfloor>of_int (startup_frames q (sint packet)) * q\<rfloor>"
  have T: "614400 < of_int (startup_frames q (sint packet)) * q" "of_int (startup_frames q (sint packet)) * q \<le> 614400 + of_int (sint packet) * q"
    using startup_frames_bounds [OF assms(4,6)] by auto
  have "of_int (sint packet) \<le> (of_int 1024 :: rat)" using assms(7) by (simp only: of_int_le_iff)
  then have "of_int (sint packet) * q \<le> 1024 * 1024" using assms(4,5) by (intro mult_mono) simp_all
  then have "of_int (startup_frames q (sint packet)) * q \<le> of_int 1662976" using T(2) by simp
  then have "?T \<le> 1662976" by (metis floor_mono floor_of_int)
  moreover have "0 \<le> ?T" using T(1) by simp
  ultimately have u: "uint (of_int ?T :: u64) = ?T" by (simp add: uint_word_of_int del: zero_le_floor le_floor_iff floor_le_iff)
  have first: "uint (addTicks (sync_time e sync w) (of_int ?T)) = (uint (sync_time e sync w) + ?T) mod MAX_TICKS"
  proof -
    have "uint (sync_time e sync w) + uint (of_int ?T :: u64) < 2 * MAX_TICKS" unfolding u using assms(8) \<open>?T \<le> 1662976\<close> by linarith
    from uint_addTicks [OF this] show ?thesis unfolding u .
  qed
  obtain r where r: "prebuffer_frames 100 packet = Some r" "sint packet dvd sint r" "100 \<le> sint r" "sint r < 100 + sint packet"
    using prebuffer_frames_result [of packet 100] assms(6,7) by auto
  show ?thesis
    using r first time_for_startup_exact [OF assms(1,4-7)]
      uint_substractTicks [of "addTicks (sync_time e sync w) (of_int ?T)" "61440"]
      uint_substractTicks [of "addTicks (sync_time e sync w) (of_int ?T)" "0"]
    by (simp add: plan_start_def Let_def assms(2,3) getValueForSetting_def CYCLES_FOR_STARTUP_def PRESTART_CYCLES_FOR_XMIT_def
        PRESTART_CYCLES_FOR_RECV_def XMIT_PREBUFFER_FRAMES_def TICKS_PER_CYCLE_def word_uint_eq_iff)
qed

text \<open>Scheduling a start changes the switch cycle and the next state of the given processors, and nothing else.\<close>

definition start_at :: "u64 \<Rightarrow> 'm stream_processor_scheme \<Rightarrow> 'm stream_processor_scheme" where
  "start_at t s = s\<lparr>m_cycle_to_switch_state := ucast (TICKS_TO_CYCLES t), m_next_state := ePS_WaitingForStreamEnable\<rparr>"

lemma start_at_idem [simp]: "start_at t (start_at t' s) = start_at t s"
  by (simp add: start_at_def)

lemma schedule_one:
  "0 \<le> sint t \<Longrightarrow> sp_act e a (\<lambda>en. scheduleStartRunning en t) w = (True, put_sp a (start_at t (w_sps w a)) w)"
  by (simp add: sp_act_def scheduleStartRunning_def scheduleStateTransition_def switch_time_def start_at_def word_sless_alt)

lemma put_sp_simps: "w_spm (put_sp a s w) = w_spm w" "w_sps (put_sp a s w) = (w_sps w)(a := s)"
  by (simp_all add: put_sp_def)

lemma schedule_each:
  "until_failure (\<lambda>a w. Some (True, put_sp a (start_at t (w_sps w a)) w)) as w
     = Some (True, w\<lparr>w_sps := (\<lambda>a. if a \<in> set as then start_at t (w_sps w a) else w_sps w a)\<rparr>)"
proof (induction as arbitrary: w)
  case (Cons a as)
  have "(\<lambda>b. if b \<in> set as then start_at t (if b = a then start_at t (w_sps w a) else w_sps w b)
             else if b = a then start_at t (w_sps w a) else w_sps w b)
      = (\<lambda>b. if b = a \<or> b \<in> set as then start_at t (w_sps w b) else w_sps w b)" by auto
  then show ?case using Cons by (simp add: put_sp_def fun_upd_apply cong: if_cong)
qed simp

lemma fold_sp_set_spm [simp]: "w_spm (fold (sp_set e f) as w) = w_spm w"
  by (induction as arbitrary: w) (simp_all add: sp_set_def put_sp_def)

lemma fold_sp_set_keeps:
  assumes "\<And>en s. g (f en s) = g s"
  shows "g (w_sps (fold (sp_set e f) as w) a) = g (w_sps w a)"
  by (induction as arbitrary: w) (simp_all add: sp_set_def put_sp_def assms)

lemma fold_sp_set_other: "a \<notin> set as \<Longrightarrow> w_sps (fold (sp_set e f) as w) a = w_sps w a"
  by (induction as arbitrary: w) (simp_all add: sp_set_def put_sp_def)

lemma fold_sp_set_const:
  assumes "\<And>en s. g (f en s) = c"
  shows "a \<in> set as \<Longrightarrow> g (w_sps (fold (sp_set e f) as w) a) = c"
proof (induction as arbitrary: w)
  case (Cons b as)
  show ?case
  proof (cases "a \<in> set as")
    case False
    have "g (w_sps (sp_set e f b w) b) = c" by (simp add: sp_set_def put_sp_def assms)
    then show ?thesis using False Cons.prems by (simp add: fold_sp_set_other)
  qed (simp add: Cons.IH)
qed simp

lemma announce_start_effect:
  "w_spm (announce_start e p w) = w_spm w"
  "m_processor_type (w_sps (announce_start e p w) a) = m_processor_type (w_sps w a)"
  "a \<in> set (m_TransmitProcessors (w_spm w)) \<Longrightarrow> a \<notin> set (m_ReceiveProcessors (w_spm w)) \<Longrightarrow>
     m_extra_buffer_frames (w_sps (announce_start e p w) a) = xmit_prebuffer_frames p"
  by (simp_all add: announce_start_def Let_def fold_sp_set_keeps [where g = m_processor_type] fold_sp_set_other
      fold_sp_set_const [where g = m_extra_buffer_frames] sp_setBufferHeadTimestamp_def setExtraBufferFrames_def)

lemma schedule_start_effect:
  assumes "0 \<le> sint (time_to_start_recv p)" and "0 \<le> sint (time_to_start_xmit p)"
    and "\<forall>a\<in>set (m_ReceiveProcessors (w_spm w)). m_processor_type (w_sps w a) = ePT_Receive"
    and "\<forall>a\<in>set (m_TransmitProcessors (w_spm w)). m_processor_type (w_sps w a) = ePT_Transmit"
    and "sync \<in> set (all_sps w)"
  shows "\<exists>v. schedule_start e p sync w = Some (True, v)
     \<and> (\<forall>a\<in>set (m_ReceiveProcessors (w_spm w)). w_sps v a = start_at (time_to_start_recv p) (w_sps w a))
     \<and> (\<forall>a\<in>set (m_TransmitProcessors (w_spm w)). w_sps v a = start_at (time_to_start_xmit p) (w_sps w a))"
proof -
  let ?R = "set (m_ReceiveProcessors (w_spm w))" and ?X = "set (m_TransmitProcessors (w_spm w))"
    and ?t = "if m_processor_type (w_sps w sync) = ePT_Receive then time_to_start_recv p else time_to_start_xmit p"
  let ?v = "\<lambda>a. if a = sync then start_at ?t (w_sps w a) else if a \<in> ?X then start_at (time_to_start_xmit p) (w_sps w a)
    else if a \<in> ?R then start_at (time_to_start_recv p) (w_sps w a) else w_sps w a"
  have d: "a \<notin> ?X" if "a \<in> ?R" for a using that assms(3,4) by force
  have t: "0 \<le> sint ?t" using assms(1,2) by simp
  have "\<exists>w'. schedule_start e p sync w = Some (True, w') \<and> w_sps w' = ?v"
    using assms(1,2) t
    by (simp add: schedule_start_def schedule_one schedule_each put_sp_simps split del: if_split cong: if_cong)
       (auto simp: fun_eq_iff)
  moreover have "?v a = start_at (time_to_start_recv p) (w_sps w a)" if "a \<in> ?R" for a using that d [OF that] assms(3) by auto
  moreover have "?v a = start_at (time_to_start_xmit p) (w_sps w a)" if "a \<in> ?X" for a using that assms(4) by auto
  ultimately show ?thesis by (elim exE conjE) (intro exI conjI, assumption, simp_all)
qed

lemma sint_ticks: "uint (t :: u64) < MAX_TICKS \<Longrightarrow> 0 \<le> sint t"
  using sint_diff_small [of t 0] by simp

text \<open>
  C4. The streams start together. With the default settings and exact arithmetic, a start that is planned when
  the sync source reaches its next period at time \<open>t\<close> sets the time of the first sample to \<open>t\<close> plus a whole number of
  packets that last more than 200 cycles, and at most one packet more; every receiving
  stream, the sync source included, is scheduled to be enabled in the cycle of the first sample, and every transmitting stream 20 cycles
  earlier, modulo the wrap-around of the time. A transmit stream prebuffers the smallest number of whole
  packets that has at least 100 frames. Planning and scheduling cannot fail.
\<close>

theorem start_is_synchronised:
  assumes "se_fpa e = exact" and "se_config e = (\<lambda>_. None)"
    and "getTicksPerFrame (w_sps w sync) = q" and "1 \<le> q" and "q \<le> 1024" and "0 < sint packet" and "sint packet \<le> 1024"
    and "uint (sync_time e sync w) < MAX_TICKS" and "sync \<in> set (all_sps w)"
    and "\<forall>a\<in>set (m_ReceiveProcessors (w_spm w)). m_processor_type (w_sps w a) = ePT_Receive"
    and "\<forall>a\<in>set (m_TransmitProcessors (w_spm w)). m_processor_type (w_sps w a) = ePT_Transmit"
  shows "\<exists>p v frames first. plan_start e packet sync w = Some p \<and> schedule_start e p sync (announce_start e p w) = Some (True, v)
     \<and> sint packet dvd frames \<and> 200 * 3072 < of_int frames * q \<and> of_int frames * q \<le> 200 * 3072 + of_int (sint packet) * q
     \<and> first = (uint (sync_time e sync w) + \<lfloor>of_int frames * q\<rfloor>) mod MAX_TICKS
     \<and> (\<forall>a\<in>set (m_ReceiveProcessors (w_spm w)). m_next_state (w_sps v a) = ePS_WaitingForStreamEnable
          \<and> uint (m_cycle_to_switch_state (w_sps v a)) = first div 3072 mod 8000)
     \<and> (\<forall>a\<in>set (m_TransmitProcessors (w_spm w)). m_next_state (w_sps v a) = ePS_WaitingForStreamEnable
          \<and> uint (m_cycle_to_switch_state (w_sps v a)) = (first - 20 * 3072) mod MAX_TICKS div 3072 mod 8000
          \<and> sint packet dvd sint (m_extra_buffer_frames (w_sps v a)) \<and> 100 \<le> sint (m_extra_buffer_frames (w_sps v a))
          \<and> sint (m_extra_buffer_frames (w_sps v a)) < 100 + sint packet)"
proof -
  let ?F = "startup_frames q (sint packet)"
  obtain p where p: "plan_start e packet sync w = Some p"
      "uint (time_of_first_sample p) = (uint (sync_time e sync w) + \<lfloor>of_int ?F * q\<rfloor>) mod MAX_TICKS"
      "time_to_start_recv p = time_of_first_sample p"
      "uint (time_to_start_xmit p) = (uint (time_of_first_sample p) - 61440) mod MAX_TICKS"
    and pre: "sint packet dvd sint (xmit_prebuffer_frames p)" "100 \<le> sint (xmit_prebuffer_frames p)"
      "sint (xmit_prebuffer_frames p) < 100 + sint packet"
    using plan_start_exact [OF assms(1-8)] by blast
  let ?w = "announce_start e p w"
  have "uint (time_to_start_recv p) < MAX_TICKS" "uint (time_to_start_xmit p) < MAX_TICKS" unfolding p(3) p(2) p(4) by simp_all
  note nonneg = this [THEN sint_ticks]
  obtain v where v: "schedule_start e p sync ?w = Some (True, v)"
      "\<forall>a\<in>set (m_ReceiveProcessors (w_spm w)). w_sps v a = start_at (time_to_start_recv p) (w_sps ?w a)"
      "\<forall>a\<in>set (m_TransmitProcessors (w_spm w)). w_sps v a = start_at (time_to_start_xmit p) (w_sps ?w a)"
    using schedule_start_effect [OF nonneg, of ?w sync e] assms(9-11) by (auto simp: announce_start_effect all_sps_def)
  have extra: "m_extra_buffer_frames (w_sps v a) = xmit_prebuffer_frames p" if "a \<in> set (m_TransmitProcessors (w_spm w))" for a
  proof -
    have "a \<notin> set (m_ReceiveProcessors (w_spm w))" using that assms(10,11) by force
    then show ?thesis using that v(3) by (simp add: start_at_def announce_start_effect)
  qed
  show ?thesis
    by (intro exI [of _ p] exI [of _ v] exI [of _ ?F] exI [of _ "uint (time_of_first_sample p)"])
      (use p v pre extra startup_frames_bounds [OF assms(4,6)] in \<open>simp add: start_at_def uint_cycle_ucast\<close>)
qed

text \<open>An example: a received and a transmitted stream of 48000 frames per second in packets of eight.\<close>

definition example_start_env :: "unit spm_env" where
  "example_start_env = example_apart_env\<lparr>se_config := (\<lambda>_. None)\<rparr>"

definition example_start_world :: "unit spm_world" where
  "example_start_world = example_apart_world\<lparr>
     w_spm := (w_spm example_apart_world)\<lparr>m_ReceiveProcessors := [0], m_TransmitProcessors := [1]\<rparr>,
     w_sps := (\<lambda>a. (example_apart a)\<lparr>m_processor_type := (if a = 0 then ePT_Receive else ePT_Transmit)\<rparr>)\<rparr>"

theorem start_is_synchronised_witness:
  "\<exists>p v. plan_start example_start_env 8 0 example_start_world = Some p
     \<and> schedule_start example_start_env p 0 (announce_start example_start_env p example_start_world) = Some (True, v)
     \<and> m_next_state (w_sps v 0) = ePS_WaitingForStreamEnable \<and> m_next_state (w_sps v 1) = ePS_WaitingForStreamEnable
     \<and> 8 dvd sint (m_extra_buffer_frames (w_sps v 1))"
proof -
  have q: "getTicksPerFrame (w_sps example_start_world 0) = 512" by code_simp
  have t: "uint (sync_time example_start_env 0 example_start_world) < MAX_TICKS" by code_simp
  have e: "se_fpa example_start_env = exact" "se_config example_start_env = (\<lambda>_. None)"
    by (simp_all add: example_start_env_def example_apart_env_def example_spm_env_def)
  have w: "m_ReceiveProcessors (w_spm example_start_world) = [0]" "m_TransmitProcessors (w_spm example_start_world) = [1]"
    "m_processor_type (w_sps example_start_world 0) = ePT_Receive" "m_processor_type (w_sps example_start_world 1) = ePT_Transmit"
    by (simp_all add: example_start_world_def)
  have i: "sint (8 :: i32) = 8" by simp
  have "0 < sint (8 :: i32)" "sint (8 :: i32) \<le> 1024" "1 \<le> (512 :: rat)" "512 \<le> (1024 :: rat)" by simp_all
  moreover have "0 \<in> set (all_sps example_start_world)" by (simp add: all_sps_def w)
  moreover have "\<forall>a\<in>{0}. m_processor_type (w_sps example_start_world a) = ePT_Receive"
    "\<forall>a\<in>{1}. m_processor_type (w_sps example_start_world a) = ePT_Transmit"
    using w(3,4) by simp_all
  ultimately obtain p v where "plan_start example_start_env 8 0 example_start_world = Some p"
    "schedule_start example_start_env p 0 (announce_start example_start_env p example_start_world) = Some (True, v)"
    "\<forall>a\<in>{0}. m_next_state (w_sps v a) = ePS_WaitingForStreamEnable"
    "\<forall>a\<in>{1}. m_next_state (w_sps v a) = ePS_WaitingForStreamEnable \<and> sint (8 :: i32) dvd sint (m_extra_buffer_frames (w_sps v a))"
    using start_is_synchronised [OF e q _ _ _ _ t, of 8, unfolded w(1,2) list.set] by blast
  then show ?thesis using i by auto
qed

end
