(* ===== verification/MotuReceive.thy ===== *)
theory MotuReceive
  imports AmdtpReceive
begin

text \<open>
  The MOTU receive stream processor, \<^verbatim>\<open>libstreaming/motu/MotuReceiveStreamProcessor.cpp\<close>: the timestamps
  that MOTU devices put before every frame, packed 24-bit samples, the MIDI bytes and the stream of control
  values that come with the audio. The \<^verbatim>\<open>MotuPortInfo\<close> part of a port is found by the address of the port; a
  cast of a port that is none is \<open>None\<close>, like every access outside an array. The printing of packets at
  a debug level above 0 is left out.
\<close>

section \<open>Data\<close>

record motu_port_info =
  mp_position :: i32
  mp_size :: i32

record motu_processor = stream_processor +
  mo_event_size :: u32
  mo_motu_model :: i32
  mo_info :: "nat \<Rightarrow> motu_port_info option"

datatype EMotuDevCtrlStatus = MOTU_DEVCTRL_INVALID | MOTU_DEVCTRL_SYNCING | MOTU_DEVCTRL_INIT | MOTU_DEVCTRL_VALID

record mix_bus =
  channel_gain :: "u8 list"
  channel_gain_index :: u8
  channel_pan :: "u8 list"
  channel_pan_index :: u8
  channel_control :: "u8 list"
  channel_control_index :: u8
  bus_gain :: u8
  bus_dest :: u8

record motu_dev_controls =
  dc_status :: EMotuDevCtrlStatus
  input_6dB_boost :: u32
  input_ref_level :: u32
  input_20dB_pad :: u32
  input_gaintrim :: "u32 list"
  input_gaintrim_index :: u8
  mixbus :: "mix_bus list"
  mixbus_index :: u8
  main_out_volume :: u8
  phones_volume :: u8
  phones_assign :: u8
  n_mixbuses :: u8
  n_channels :: u8

record motu_receive = motu_processor +
  mr_devctrls :: motu_dev_controls
  mr_midibuffer :: "u32 list"
  mr_mb_head :: u32
  mr_mb_tail :: u32

definition MOTUFW_MAX_MIXBUSES :: nat where "MOTUFW_MAX_MIXBUSES = 4"
definition MOTUFW_MAX_MIXBUS_CHANNELS :: nat where "MOTUFW_MAX_MIXBUS_CHANNELS = 20"
definition MOTU_MODEL_828MkI :: i32 where "MOTU_MODEL_828MkI = 5"

definition motu_new :: "fparith \<Rightarrow> eProcessorType \<Rightarrow> u32 \<Rightarrow> i32 \<Rightarrow> motu_processor" where
  "motu_new fp type event_size model =
     stream_processor.extend (StreamProcessor_new fp type) (motu_processor.fields event_size model (\<lambda>_. None))"

text \<open>The control values after \<^verbatim>\<open>memset\<close>.\<close>

definition cleared_bus :: mix_bus where
  "cleared_bus =
     \<lparr>channel_gain = replicate 20 0, channel_gain_index = 0, channel_pan = replicate 20 0, channel_pan_index = 0,
      channel_control = replicate 20 0, channel_control_index = 0, bus_gain = 0, bus_dest = 0\<rparr>"

definition cleared_controls :: motu_dev_controls where
  "cleared_controls =
     \<lparr>dc_status = MOTU_DEVCTRL_INVALID, input_6dB_boost = 0, input_ref_level = 0, input_20dB_pad = 0,
      input_gaintrim = replicate 20 0, input_gaintrim_index = 0, mixbus = replicate MOTUFW_MAX_MIXBUSES cleared_bus,
      mixbus_index = 0, main_out_volume = 0, phones_volume = 0, phones_assign = 0, n_mixbuses = 0, n_channels = 0\<rparr>"

definition MotuReceiveStreamProcessor_new :: "fparith \<Rightarrow> (nat \<Rightarrow> u32) \<Rightarrow> i32 \<Rightarrow> u32 \<Rightarrow> motu_receive" where
  "MotuReceiveStreamProcessor_new fp junk model event_size =
     motu_processor.extend (motu_new fp ePT_Receive event_size model)
       (motu_receive.fields cleared_controls (map junk [0..<64]) 0 0)"

definition motu_getMaxPacketSize :: "sp_env \<Rightarrow> u32" where
  "motu_getMaxPacketSize e =
     (let framerate = m_nominal_framerate (spm e)
      in if framerate \<le>s 48000 then 904 else if framerate \<le>s 96000 then 1416 else 1672)"

definition motu_getNominalFramesPerPacket :: "sp_env \<Rightarrow> u32" where
  "motu_getNominalFramesPerPacket e =
     (let framerate = m_nominal_framerate (spm e)
      in if framerate \<le>s 48000 then 8 else if framerate \<le>s 96000 then 16 else 32)"

definition motu_prepareChild :: "'m motu_processor_scheme \<Rightarrow> (bool \<times> 'm motu_processor_scheme) option" where
  "motu_prepareChild s = Some (True, s)"

section \<open>Timestamps\<close>

text \<open>The cycle timer the bus service computes from its time in ticks.\<close>

definition getCycleTimer :: "sp_env \<Rightarrow> u32" where
  "getCycleTimer e = ucast (TICKS_TO_CYCLE_TIMER (ucast (ucast (getCycleTimerTicks e) :: u32)))"

definition sphRecvToFullTicks :: "u32 \<Rightarrow> u32 \<Rightarrow> u32" where
  "sphRecvToFullTicks sph ct_now =
     (let timestamp = (ucast (CYCLE_TIMER_TO_TICKS (ucast (sph AND 0x1ffffff))) :: u32);
          now_cycles = (ucast (CYCLE_TIMER_GET_CYCLES (ucast ct_now)) :: u32);
          ts_sec = (ucast (CYCLE_TIMER_GET_SECS (ucast ct_now)) :: u32);
          sph_cycles = CYCLE_TIMER_GET_CYCLES (ucast sph);
          ts_sec = (if sph_cycles > ucast (now_cycles + 1000) then if ts_sec \<noteq> 0 then ts_sec - 1 else 127
                    else if ucast now_cycles > sph_cycles + 1000 then if ts_sec = 127 then 0 else ts_sec + 1
                    else ts_sec)
      in ucast (ucast timestamp + ucast ts_sec * TICKS_PER_SECOND))"

section \<open>Packets\<close>

text \<open>\<open>n\<close> bytes at a place of an array.\<close>

definition bytes_at :: "u8 list \<Rightarrow> int \<Rightarrow> nat \<Rightarrow> u8 list option" where
  "bytes_at d k n = (if 0 \<le> k \<and> nat k + n \<le> length d then Some (take n (drop (nat k) d)) else None)"

text \<open>
  The length of the packet is compared with the header only; the place of the last frame is computed with
  32 bits from the number of frames less one.
\<close>

definition motu_processPacketHeader ::
  "sp_env \<Rightarrow> u8 list \<Rightarrow> u32 \<Rightarrow> u8 \<Rightarrow> u8 \<Rightarrow> u32 \<Rightarrow> 'm motu_processor_scheme \<Rightarrow> (eChildReturnValue \<times> 'm motu_processor_scheme) option" where
  "motu_processPacketHeader e data len tag sy pkt_ctr s =
     (if 8 < len then do {
        q0 \<leftarrow> bus_quadlet data 0;
        q1 \<leftarrow> bus_quadlet data 1;
        let dbs = drop_bit 16 q0 AND 0xff;
        let fdf_size = (if drop_bit 16 q1 AND 0xff = 0x22 then 32 else 0 :: u32);
        if tag \<noteq> 1 \<or> (fdf_size \<noteq> 32 \<and> fdf_size \<noteq> 0) \<or> dbs = 0 then Some (eCRV_Invalid, s)
        else if mo_event_size s = 0 then None
        else do {
          let n_events = (len - 8) div mo_event_size s;
          last_sph \<leftarrow> bytes_at data (8 + uint ((n_events - 1) * mo_event_size s)) 4;
          Some (eCRV_OK, s\<lparr>m_last_timestamp := ucast (sphRecvToFullTicks (host_quadlet True last_sph) (getCycleTimer e))\<rparr>)
        }
      }
      else Some (eCRV_Invalid, s))"

definition motu_processPacketData ::
  "sp_env \<Rightarrow> u8 list \<Rightarrow> u32 \<Rightarrow> 'm motu_processor_scheme \<Rightarrow> (eChildReturnValue \<times> 'm motu_processor_scheme) option" where
  "motu_processPacketData e data len s =
     (if mo_event_size s = 0 then None
      else
        let n_events = (len - 8) div mo_event_size s;
            b = m_data_buffer s;
            size = unat (n_events * m_event_size b * m_events_per_frame b)
        in if \<not> m_transparent b \<and> length data < 8 + size then None
           else do {
             (ok, s) \<leftarrow> on_buffer (writeFrames (fpa e) b n_events (drop 8 data) (rdbl (fpa e) (of_u64 (m_last_timestamp s)))) s;
             Some (if ok then eCRV_OK else eCRV_XRun, s)
           })"

section \<open>Audio\<close>

text \<open>A sample of three bytes, the most significant first, with its sign extended to 32 bits.\<close>

definition motu_sample :: "u8 list \<Rightarrow> u32" where
  "motu_sample b =
     (let v = push_bit 16 (ucast (b ! 0)) + push_bit 8 (ucast (b ! 1)) + ucast (b ! 2)
      in if b ! 0 AND 0x80 \<noteq> 0 then v OR 0xff000000 else v)"

text \<open>The samples of a port: one in each frame, at its position.\<close>

definition motu_samples :: "u8 list \<Rightarrow> u32 \<Rightarrow> motu_port_info \<Rightarrow> nat \<Rightarrow> u8 list list option" where
  "motu_samples data event_size i n =
     those (map (\<lambda>j. bytes_at data (sint (mp_position i) + int j * uint event_size) 3) [0..<n])"

definition decodeMotuEventsToPort ::
  "sp_env \<Rightarrow> u32 \<Rightarrow> motu_port_info \<Rightarrow> port \<Rightarrow> u8 list \<Rightarrow> u32 \<Rightarrow> u32 \<Rightarrow> port_buffer option" where
  "decodeMotuEventsToPort e event_size i p data offset nevents =
     (if \<not> nevents + offset \<le> m_buffersize p then None
      else do {
        vs \<leftarrow> motu_samples data event_size i (unat nevents);
        case m_audio_datatype (spm e) of
          eADT_Int24 \<Rightarrow> store_quadlets (m_buffer p) (unat offset) (map motu_sample vs)
        | eADT_Float \<Rightarrow> store_floats (m_buffer p) (unat offset)
            (map (\<lambda>v. rflt (fpa e) (rflt (fpa e) (of_int (sint (motu_sample v))) * rflt (fpa e) (1 / 8388607))) vs)
      })"

section \<open>MIDI\<close>

text \<open>
  The frames of a MIDI port: a byte with the lowest bit of the first place set is queued, and every eighth element
  of the cleared buffer takes the next byte of the queue. The queue is that of the AMDTP class.
\<close>

fun motu_midi_frames :: "(nat \<Rightarrow> u8 list option) \<Rightarrow> nat list \<Rightarrow> midi_fifo \<Rightarrow> (midi_fifo \<times> u32 list) option" where
  "motu_midi_frames ev [] f = Some (f, [])"
| "motu_midi_frames ev (j # js) f =
     do {
       b \<leftarrow> ev j;
       let f = (if b ! 0 AND 0x01 = 0x01 then midi_put (0x01000000 OR ucast (b ! 2)) f else f);
       let (out, f) = (if j mod 8 = 0 then midi_take f else (0, f));
       (f, outs) \<leftarrow> motu_midi_frames ev js f;
       Some (f, out # outs)
     }"

definition decodeMotuMidiEventsToPort ::
  "u32 \<Rightarrow> motu_port_info \<Rightarrow> port \<Rightarrow> u8 list \<Rightarrow> u32 \<Rightarrow> u32 \<Rightarrow> midi_fifo \<Rightarrow> (port_buffer \<times> midi_fifo) option" where
  "decodeMotuMidiEventsToPort event_size i p data offset nevents f =
     (if \<not> nevents + offset \<le> m_buffersize p then None
      else do {
        (f, outs) \<leftarrow> motu_midi_frames (\<lambda>j. bytes_at data (sint (mp_position i) + int j * uint event_size) 3) [0..<unat nevents] f;
        b \<leftarrow> store_quadlets (m_buffer p) (unat offset) outs;
        Some (b, f)
      })"

section \<open>Control values\<close>

text \<open>The keys.\<close>

definition MOTU_KEY_SEQ_SYNC :: u8 where "MOTU_KEY_SEQ_SYNC = 0x0c"
definition MOTU_KEY_CHANNEL_GAIN :: u8 where "MOTU_KEY_CHANNEL_GAIN = 0x14"
definition MOTU_KEY_CHANNEL_PAN :: u8 where "MOTU_KEY_CHANNEL_PAN = 0x1c"
definition MOTU_KEY_CHANNEL_CTRL :: u8 where "MOTU_KEY_CHANNEL_CTRL = 0x24"
definition MOTU_KEY_MIXBUS_GAIN :: u8 where "MOTU_KEY_MIXBUS_GAIN = 0x2c"
definition MOTU_KEY_MIXBUS_DEST :: u8 where "MOTU_KEY_MIXBUS_DEST = 0x34"
definition MOTU_KEY_MAINOUT_VOL :: u8 where "MOTU_KEY_MAINOUT_VOL = 0x3c"
definition MOTU_KEY_PHONES_VOL :: u8 where "MOTU_KEY_PHONES_VOL = 0x44"
definition MOTU_KEY_PHONES_DEST :: u8 where "MOTU_KEY_PHONES_DEST = 0x4c"
definition MOTU_KEY_INPUT_6dB_BOOST :: u8 where "MOTU_KEY_INPUT_6dB_BOOST = 0x6c"
definition MOTU_KEY_INPUT_REF_LEVEL :: u8 where "MOTU_KEY_INPUT_REF_LEVEL = 0x74"
definition MOTU_KEY_SEQ_SYNC_MIXBUS1 :: u8 where "MOTU_KEY_SEQ_SYNC_MIXBUS1 = 0"

lemmas motu_keys =
  MOTU_KEY_SEQ_SYNC_def MOTU_KEY_CHANNEL_GAIN_def MOTU_KEY_CHANNEL_PAN_def MOTU_KEY_CHANNEL_CTRL_def
  MOTU_KEY_MIXBUS_GAIN_def MOTU_KEY_MIXBUS_DEST_def MOTU_KEY_MAINOUT_VOL_def MOTU_KEY_PHONES_VOL_def
  MOTU_KEY_PHONES_DEST_def MOTU_KEY_INPUT_6dB_BOOST_def MOTU_KEY_INPUT_REF_LEVEL_def MOTU_KEY_SEQ_SYNC_MIXBUS1_def

text \<open>The steps that bring the parser in step with the device.\<close>

definition ctrl_sync :: "u8 \<Rightarrow> u8 \<Rightarrow> motu_dev_controls \<Rightarrow> motu_dev_controls" where
  "ctrl_sync key arg c =
     (case dc_status c of
        MOTU_DEVCTRL_INVALID \<Rightarrow>
          if key = MOTU_KEY_SEQ_SYNC \<and> arg = MOTU_KEY_SEQ_SYNC_MIXBUS1 then c\<lparr>dc_status := MOTU_DEVCTRL_SYNCING\<rparr> else c
      | MOTU_DEVCTRL_SYNCING \<Rightarrow>
          if key = MOTU_KEY_SEQ_SYNC then c\<lparr>mixbus_index := arg\<rparr>
          else if key = MOTU_KEY_CHANNEL_GAIN \<and> mixbus_index c = 0 then c\<lparr>dc_status := MOTU_DEVCTRL_INIT\<rparr> else c
      | MOTU_DEVCTRL_INIT \<Rightarrow>
          if key = MOTU_KEY_SEQ_SYNC \<and> arg = MOTU_KEY_SEQ_SYNC_MIXBUS1 \<and> 0 < mixbus_index c
          then c\<lparr>dc_status := MOTU_DEVCTRL_VALID\<rparr> else c
      | MOTU_DEVCTRL_VALID \<Rightarrow> c)"

text \<open>A change of the bus that is being read; the bus is looked up before its index is compared with the bound.\<close>

definition ctrl_bus :: "(mix_bus \<Rightarrow> mix_bus) \<Rightarrow> motu_dev_controls \<Rightarrow> motu_dev_controls option" where
  "ctrl_bus f c =
     (let k = unat (mixbus_index c)
      in if k < length (mixbus c) then Some (c\<lparr>mixbus := (mixbus c)[k := f (mixbus c ! k)]\<rparr>) else None)"

definition ctrl_put :: "u8 list \<Rightarrow> u8 \<Rightarrow> u8 \<Rightarrow> u8 list" where
  "ctrl_put xs i arg = (if unat i < MOTUFW_MAX_MIXBUS_CHANNELS then xs[unat i := arg] else xs)"

definition ctrl_seq_sync :: "u8 \<Rightarrow> motu_dev_controls \<Rightarrow> motu_dev_controls" where
  "ctrl_seq_sync arg c =
     (let gains = channel_gain_index (mixbus c ! unat (mixbus_index c));
          c = (if unat (mixbus_index c) < MOTUFW_MAX_MIXBUSES \<and> n_channels c = 0 \<and> gains \<noteq> 0 then c\<lparr>n_channels := gains\<rparr> else c);
          c = c\<lparr>mixbus_index := drop_bit 5 arg\<rparr>;
          k = unat (mixbus_index c)
      in if MOTUFW_MAX_MIXBUSES \<le> k then c
         else c\<lparr>n_mixbuses := (if unat (n_mixbuses c) < k + 1 then mixbus_index c + 1 else n_mixbuses c),
                mixbus := (mixbus c)[k := (mixbus c ! k)\<lparr>channel_gain_index := 0, channel_pan_index := 0, channel_control_index := 0\<rparr>]\<rparr>)"

definition ctrl_key :: "u8 \<Rightarrow> u8 \<Rightarrow> motu_dev_controls \<Rightarrow> motu_dev_controls option" where
  "ctrl_key key arg c =
     (if key = MOTU_KEY_SEQ_SYNC then Some (ctrl_seq_sync arg c)
      else if key = MOTU_KEY_CHANNEL_GAIN then
        ctrl_bus (\<lambda>b. b\<lparr>channel_gain_index := channel_gain_index b + 1, channel_gain := ctrl_put (channel_gain b) (channel_gain_index b) arg\<rparr>) c
      else if key = MOTU_KEY_CHANNEL_PAN then
        ctrl_bus (\<lambda>b. b\<lparr>channel_pan_index := channel_pan_index b + 1, channel_pan := ctrl_put (channel_pan b) (channel_pan_index b) arg\<rparr>) c
      else if key = MOTU_KEY_CHANNEL_CTRL then
        ctrl_bus (\<lambda>b. b\<lparr>channel_control_index := channel_control_index b + 1,
                       channel_control := ctrl_put (channel_control b) (channel_control_index b) arg\<rparr>) c
      else if key = MOTU_KEY_MIXBUS_GAIN then
        if unat (mixbus_index c) < MOTUFW_MAX_MIXBUSES then ctrl_bus (\<lambda>b. b\<lparr>bus_gain := arg\<rparr>) c else Some c
      else if key = MOTU_KEY_MIXBUS_DEST then
        if unat (mixbus_index c) < MOTUFW_MAX_MIXBUSES then ctrl_bus (\<lambda>b. b\<lparr>bus_dest := arg\<rparr>) c else Some c
      else if key = MOTU_KEY_MAINOUT_VOL then Some (c\<lparr>main_out_volume := arg\<rparr>)
      else if key = MOTU_KEY_PHONES_VOL then Some (c\<lparr>phones_volume := arg\<rparr>)
      else if key = MOTU_KEY_PHONES_DEST then Some (c\<lparr>phones_assign := arg\<rparr>)
      else if key = MOTU_KEY_INPUT_6dB_BOOST then Some (c\<lparr>input_6dB_boost := ucast arg\<rparr>)
      else if key = MOTU_KEY_INPUT_REF_LEVEL then Some (c\<lparr>input_ref_level := ucast arg\<rparr>)
      else Some c)"

definition ctrl_event :: "u8 \<Rightarrow> u8 \<Rightarrow> motu_dev_controls \<Rightarrow> motu_dev_controls option" where
  "ctrl_event src arg c =
     (let key = src AND NOT 1; c = ctrl_sync key arg c
      in if dc_status c = MOTU_DEVCTRL_INIT \<or> dc_status c = MOTU_DEVCTRL_VALID then ctrl_key key arg c else Some c)"

fun ctrl_events :: "(u8 \<times> u8) list \<Rightarrow> motu_dev_controls \<Rightarrow> motu_dev_controls option" where
  "ctrl_events [] c = Some c"
| "ctrl_events ((src, arg) # evs) c = do { c \<leftarrow> ctrl_event src arg c; ctrl_events evs c }"

definition decodeMotuCtrlEvents :: "u8 list \<Rightarrow> u32 \<Rightarrow> u32 \<Rightarrow> motu_dev_controls \<Rightarrow> motu_dev_controls option" where
  "decodeMotuCtrlEvents data event_size nevents c =
     do {
       evs \<leftarrow> those (map (\<lambda>j. bytes_at data (4 + int j * uint event_size) 2) [0..<unat nevents]);
       ctrl_events (map (\<lambda>b. (b ! 0, b ! 1)) evs) c
     }"

section \<open>The subclass\<close>

definition motu_read_port ::
  "sp_env \<Rightarrow> u32 \<Rightarrow> (nat \<Rightarrow> motu_port_info option) \<Rightarrow> u8 list \<Rightarrow> u32 \<Rightarrow> u32 \<Rightarrow> port \<Rightarrow> midi_fifo \<Rightarrow> (port \<times> midi_fifo) option" where
  "motu_read_port e es info data offset nevents p f =
     (if m_disabled p then Some (p, f)
      else case m_PortType p of
        E_Audio \<Rightarrow> do { i \<leftarrow> info (p_addr p); b \<leftarrow> decodeMotuEventsToPort e es i p data offset nevents;
                        Some (p\<lparr>m_buffer := Some b\<rparr>, f) }
      | E_Midi \<Rightarrow> do { i \<leftarrow> info (p_addr p); (b, f) \<leftarrow> decodeMotuMidiEventsToPort es i p data offset nevents f;
                       Some (p\<lparr>m_buffer := Some b\<rparr>, f) }
      | E_Control \<Rightarrow> Some (p, f))"

fun motu_read_ports ::
  "sp_env \<Rightarrow> u32 \<Rightarrow> (nat \<Rightarrow> motu_port_info option) \<Rightarrow> u8 list \<Rightarrow> u32 \<Rightarrow> u32 \<Rightarrow> port list \<Rightarrow> midi_fifo \<Rightarrow> (port list \<times> midi_fifo) option" where
  "motu_read_ports e es info data offset nevents [] f = Some ([], f)"
| "motu_read_ports e es info data offset nevents (p # ps) f =
     do {
       (p, f) \<leftarrow> motu_read_port e es info data offset nevents p f;
       (ps, f) \<leftarrow> motu_read_ports e es info data offset nevents ps f;
       Some (p # ps, f)
     }"

definition motu_processReadBlock ::
  "sp_env \<Rightarrow> u8 list \<Rightarrow> u32 \<Rightarrow> u32 \<Rightarrow> 'm motu_receive_scheme \<Rightarrow> (bool \<times> 'm motu_receive_scheme) option" where
  "motu_processReadBlock e data nevents offset s =
     do {
       c \<leftarrow> (if mo_motu_model s \<noteq> MOTU_MODEL_828MkI
             then decodeMotuCtrlEvents data (mo_event_size s) nevents (mr_devctrls s) else Some (mr_devctrls s));
       (ports, mb, head, tail) \<leftarrow> motu_read_ports e (mo_event_size s) (mo_info s) data offset nevents (m_Ports s)
                                    (mr_midibuffer s, mr_mb_head s, mr_mb_tail s);
       Some (True, s\<lparr>mr_devctrls := c, m_Ports := ports, mr_midibuffer := mb, mr_mb_head := head, mr_mb_tail := tail\<rparr>)
     }"

definition motu_receive_child :: "sp_env \<Rightarrow> 'm motu_receive_scheme sp_child" where
  "motu_receive_child e =
     (sp_child_defaults motu_prepareChild (\<lambda>_. 1) mo_event_size (\<lambda>_. motu_getNominalFramesPerPacket e))
       \<lparr>processPacketHeader := motu_processPacketHeader e,
        processPacketData := motu_processPacketData e,
        processReadBlock := motu_processReadBlock e\<rparr>"

section \<open>The contract of the base class\<close>

lemma motu_header_private: "keeps_private (motu_processPacketHeader e d n t y c)"
  by (auto simp: keeps_private_def motu_processPacketHeader_def Let_def same_private_def bind_eq_Some_conv split: if_splits)

lemma motu_data_private: "keeps_private (motu_processPacketData e d n)"
  unfolding keeps_private_def
proof (intro allI impI)
  fix s s' :: "'m motu_processor_scheme" and r
  assume "motu_processPacketData e d n s = Some (r, s')"
  then obtain nev ok where
    "on_buffer (writeFrames (fpa e) (m_data_buffer s) nev (drop 8 d) (rdbl (fpa e) (of_u64 (m_last_timestamp s)))) s = Some (ok, s')"
    unfolding motu_processPacketData_def Let_def by (auto simp: bind_eq_Some_conv split: if_splits)
  then show "same_private s s'" by (rule on_buffer_private) (rule writeFrames_transparent)
qed

lemma motu_read_block_private: "keeps_private (motu_processReadBlock e d n off)"
  by (auto simp: keeps_private_def motu_processReadBlock_def same_private_def bind_eq_Some_conv)

lemma motu_prepare_private: "keeps_private motu_prepareChild"
  by (simp add: keeps_private_def motu_prepareChild_def)

interpretation motu_rx: sp_child_laws "motu_receive_child e" for e
  by unfold_locales
    (simp_all add: motu_receive_child_def sp_child_defaults_def motu_header_private motu_data_private motu_read_block_private
      motu_prepare_private)

interpretation motu_rx_family: sp_child_family motu_receive_child
  by unfold_locales

end
