(* ===== verification/MotuTransmit.thy ===== *)
theory MotuTransmit
  imports MotuReceive
begin

text \<open>
  The MOTU transmit stream processor, \<^verbatim>\<open>libstreaming/motu/MotuTransmitStreamProcessor.cpp\<close>: when a packet is sent, its
  header and the timestamp of every frame, packed samples and the MIDI bytes, which are paced to the rate of the
  MIDI bus. At a debug level above 0 the class writes a test tone over the first analog channel; the samples of the tone
  are an argument, empty at level 0.
\<close>

section \<open>Data\<close>

record motu_transmit = motu_processor +
  mt_event_pad_bytes :: u32
  mt_tx_dbc :: u32
  mt_midibuffer :: "u32 list"
  mt_mb_head :: u32
  mt_mb_tail :: u32
  mt_midi_lock :: u32
  mt_midi_tx_period :: u32

definition MOTU_TRANSMIT_TRANSFER_DELAY :: u32 where [consts_defs]: "MOTU_TRANSMIT_TRANSFER_DELAY = 0"
definition MOTU_MIN_CYCLES_BEFORE_PRESENTATION :: i32 where [consts_defs]: "MOTU_MIN_CYCLES_BEFORE_PRESENTATION = 0"
definition MOTU_MAX_CYCLES_TO_TRANSMIT_EARLY :: i32 where [consts_defs]: "MOTU_MAX_CYCLES_TO_TRANSMIT_EARLY = 2"

text \<open>\<^verbatim>\<open>lrintf\<close> rounds to the nearest integer, halves to the even one.\<close>

definition lrintf :: "rat \<Rightarrow> int" where
  "lrintf r =
     (let f = \<lfloor>r\<rfloor>; d = r - of_int f
      in if d < 1 / 2 \<or> (d = 1 / 2 \<and> even f) then f else f + 1)"

definition motu_midi_tx_period :: "sp_env \<Rightarrow> u32" where
  "motu_midi_tx_period e =
     of_int \<lceil>rflt (fpa e) (rflt (fpa e) (of_int (sint (m_nominal_framerate (spm e)))) / 3125)\<rceil>"

definition MotuTransmitStreamProcessor_new :: "sp_env \<Rightarrow> (nat \<Rightarrow> u32) \<Rightarrow> i32 \<Rightarrow> u32 \<Rightarrow> motu_transmit" where
  "MotuTransmitStreamProcessor_new e junk model event_size =
     motu_processor.extend (motu_new (fpa e) ePT_Transmit event_size model)
       (motu_transmit.fields ((event_size - 4) mod 3) 0 (map junk [0..<1024]) 0 0 0 (motu_midi_tx_period e))"

definition fullTicksToSph :: "i64 \<Rightarrow> u32" where
  "fullTicksToSph timestamp = ucast (TICKS_TO_CYCLE_TIMER timestamp) AND 0x1ffffff"

section \<open>Headers\<close>

definition motu_cip :: "sp_env \<Rightarrow> 'm motu_transmit_scheme \<Rightarrow> u8 list" where
  "motu_cip e s =
     host_bytes True (0x00000400 OR push_bit 24 (getLocalNodeId e AND 0x3f) OR mt_tx_dbc s OR push_bit 16 (mo_event_size s div 4))
     @ host_bytes True 0x8222ffff"

definition motu_fillDataPacketHeader ::
  "sp_env \<Rightarrow> xmit_packet \<Rightarrow> 'm motu_transmit_scheme \<Rightarrow> (u32 \<times> xmit_packet \<times> 'm motu_transmit_scheme) option" where
  "motu_fillDataPacketHeader e x s =
     (let n_events = motu_getNominalFramesPerPacket e;
          dbc = mt_tx_dbc s + n_events;
          s = s\<lparr>mt_tx_dbc := (if 0xff < dbc then dbc - 0x100 else dbc)\<rparr>
      in do { d \<leftarrow> store_at (x_data x) 0 (motu_cip e s); Some (n_events, x\<lparr>x_data := d\<rparr>, s) })"

definition motu_fillNoDataPacketHeader :: "sp_env \<Rightarrow> xmit_packet \<Rightarrow> 'm motu_transmit_scheme \<Rightarrow> (u32 \<times> xmit_packet) option" where
  "motu_fillNoDataPacketHeader e x s =
     do { d \<leftarrow> store_at (x_data x) 0 (motu_cip e s); Some (0, x\<lparr>x_data := d, x_length := 8\<rparr>) }"

definition motu_send ::
  "sp_env \<Rightarrow> u64 \<Rightarrow> xmit_packet \<Rightarrow> 'm motu_transmit_scheme \<Rightarrow> (eChildReturnValue \<times> xmit_packet \<times> 'm motu_transmit_scheme) option" where
  "motu_send e presentation_time x s =
     do { (_, x, s) \<leftarrow> motu_fillDataPacketHeader e x s; Some (eCRV_Packet, x, s\<lparr>m_last_timestamp := presentation_time\<rparr>) }"

definition motu_data_packet :: "sp_env \<Rightarrow> 'm motu_transmit_scheme \<Rightarrow> xmit_packet \<Rightarrow> xmit_packet" where
  "motu_data_packet e s x = x\<lparr>x_sy := 0, x_tag := 1, x_length := motu_getNominalFramesPerPacket e * mo_event_size s + 8\<rparr>"

text \<open>Frames that are there are sent in a window around their time.\<close>

definition motu_send_in_time ::
  "sp_env \<Rightarrow> u64 \<Rightarrow> xmit_packet \<Rightarrow> u32 \<Rightarrow> 'm motu_transmit_scheme \<Rightarrow> (eChildReturnValue \<times> xmit_packet \<times> 'm motu_transmit_scheme) option" where
  "motu_send_in_time e presentation_time x cycle s =
     (let transmit_at_time = substractTicks presentation_time (ucast MOTU_TRANSMIT_TRANSFER_DELAY);
          presentation_cycle = (ucast (TICKS_TO_CYCLES presentation_time) :: u32);
          transmit_at_cycle = (ucast (TICKS_TO_CYCLES transmit_at_time) :: u32);
          cycles_until_presentation = diffCycles presentation_cycle cycle;
          cycles_until_transmit = diffCycles transmit_at_cycle cycle
      in if cycles_until_transmit <s 0 then
           if MOTU_MIN_CYCLES_BEFORE_PRESENTATION \<le>s cycles_until_presentation then motu_send e presentation_time x s
           else Some (eCRV_XRun, x, s)
         else if cycles_until_transmit \<le>s MOTU_MAX_CYCLES_TO_TRANSMIT_EARLY then motu_send e presentation_time x s
         else Some (eCRV_EmptyPacket, x, s))"

definition motu_generatePacketHeader ::
  "sp_env \<Rightarrow> xmit_packet \<Rightarrow> u32 \<Rightarrow> 'm motu_transmit_scheme \<Rightarrow> (eChildReturnValue \<times> xmit_packet \<times> 'm motu_transmit_scheme) option" where
  "motu_generatePacketHeader e x pkt_ctr s =
     (let cycle = pkt_cycles pkt_ctr;
          x = motu_data_packet e s x;
          (ts_head_tmp, fc) = getBufferHeadTimestamp (fpa e) (m_data_buffer s);
          presentation_time = (of_int (trunc_rat ts_head_tmp) :: u64)
      in if fc <s motu_getNominalFramesPerPacket e then
           if diffCycles (ucast (TICKS_TO_CYCLES presentation_time)) cycle \<le>s MOTU_MIN_CYCLES_BEFORE_PRESENTATION
           then Some (eCRV_XRun, x, s)
           else Some (eCRV_Again, x, s)
         else motu_send_in_time e presentation_time x cycle s)"

definition motu_generateEmptyPacketHeader ::
  "sp_env \<Rightarrow> xmit_packet \<Rightarrow> u32 \<Rightarrow> 'm motu_transmit_scheme \<Rightarrow> (eChildReturnValue \<times> xmit_packet \<times> 'm motu_transmit_scheme) option" where
  "motu_generateEmptyPacketHeader e x pkt_ctr s =
     do { (_, x) \<leftarrow> motu_fillNoDataPacketHeader e (x\<lparr>x_sy := 0, x_tag := 1, x_length := 8\<rparr>) s; Some (eCRV_OK, x, s) }"

definition motu_generateEmptyPacketData ::
  "xmit_packet \<Rightarrow> 'm motu_transmit_scheme \<Rightarrow> (eChildReturnValue \<times> xmit_packet \<times> 'm motu_transmit_scheme) option" where
  "motu_generateEmptyPacketData x s = Some (eCRV_OK, x, s)"

text \<open>The time of a silent packet follows from that of the packet before.\<close>

definition motu_generateSilentPacketHeader ::
  "sp_env \<Rightarrow> xmit_packet \<Rightarrow> u32 \<Rightarrow> 'm motu_transmit_scheme \<Rightarrow> (eChildReturnValue \<times> xmit_packet \<times> 'm motu_transmit_scheme) option" where
  "motu_generateSilentPacketHeader e x pkt_ctr s =
     (let n_events = motu_getNominalFramesPerPacket e;
          ticks = (of_int (lrintf (rflt (fpa e) (of_int (sint n_events) * sync_ticks_per_frame (spm e)))) :: u32)
      in motu_send_in_time e (addTicks (m_last_timestamp s) (ucast ticks)) (motu_data_packet e s x) (pkt_cycles pkt_ctr) s)"

section \<open>Frames\<close>

text \<open>
  Chunks of bytes, one in each frame, from a position on. An empty chunk stores nothing.
\<close>

definition store_bytes :: "u8 list \<Rightarrow> int \<Rightarrow> u8 list \<Rightarrow> u8 list option" where
  "store_bytes d k c = (if c = [] then Some d else if 0 \<le> k then store_at d (nat k) c else None)"

fun store_frames :: "u8 list \<Rightarrow> int \<Rightarrow> int \<Rightarrow> u8 list list \<Rightarrow> u8 list option" where
  "store_frames d k w [] = Some d"
| "store_frames d k w (c # cs) = do { d \<leftarrow> store_bytes d k c; store_frames d (k + w) w cs }"

text \<open>The timestamp of the \<open>i\<close>-th frame of a packet.\<close>

definition frame_time :: "sp_env \<Rightarrow> 'm motu_transmit_scheme \<Rightarrow> nat \<Rightarrow> i64" where
  "frame_time e s i =
     addTicks (m_last_timestamp s)
       (ucast (of_int (lrintf (rflt (fpa e) (of_nat i * sync_ticks_per_frame (spm e)))) :: u32))"

definition store_sph :: "sp_env \<Rightarrow> 'm motu_transmit_scheme \<Rightarrow> u8 list \<Rightarrow> u8 list option" where
  "store_sph e s d =
     store_frames d 8 (4 * uint (mo_event_size s div 4))
       (map (\<lambda>i. host_bytes True (fullTicksToSph (frame_time e s i))) [0..<unat (motu_getNominalFramesPerPacket e)])"

text \<open>Bytes at the end of a frame that belong to no port; two bytes are cleared, however many there are.\<close>

definition store_pads :: "sp_env \<Rightarrow> 'm motu_transmit_scheme \<Rightarrow> u8 list \<Rightarrow> u8 list option" where
  "store_pads e s d =
     (if mt_event_pad_bytes s \<noteq> 0
      then store_frames d (8 + uint (mo_event_size s) - uint (mt_event_pad_bytes s)) (uint (mo_event_size s))
             (replicate (unat (motu_getNominalFramesPerPacket e)) [0, 0])
      else Some d)"

definition motu_generatePacketData ::
  "u8 list list \<Rightarrow> sp_env \<Rightarrow> xmit_packet \<Rightarrow> 'm motu_transmit_scheme
   \<Rightarrow> (eChildReturnValue \<times> xmit_packet \<times> 'm motu_transmit_scheme) option" where
  "motu_generatePacketData tone e x s =
     do {
       (ok, frames, b) \<leftarrow> readFrames (m_data_buffer s) (motu_getNominalFramesPerPacket e);
       d \<leftarrow> store_at (x_data x) 8 frames;
       let s = s\<lparr>m_data_buffer := b\<rparr>;
       if ok then do {
         d \<leftarrow> store_frames d (8 + 16) (uint (mo_event_size s)) tone;
         d \<leftarrow> store_sph e s d;
         d \<leftarrow> store_pads e s d;
         Some (eCRV_OK, x\<lparr>x_data := d\<rparr>, s)
       }
       else Some (eCRV_XRun, x\<lparr>x_data := d\<rparr>, s)
     }"

definition motu_generateSilentPacketData ::
  "sp_env \<Rightarrow> xmit_packet \<Rightarrow> 'm motu_transmit_scheme \<Rightarrow> (eChildReturnValue \<times> xmit_packet \<times> 'm motu_transmit_scheme) option" where
  "motu_generateSilentPacketData e x s =
     do {
       d \<leftarrow> store_at (x_data x) 8 (replicate (unat (motu_getNominalFramesPerPacket e * mo_event_size s)) 0);
       d \<leftarrow> store_sph e s d;
       Some (eCRV_OK, x\<lparr>x_data := d\<rparr>, s)
     }"

section \<open>Audio\<close>

definition motu_bytes :: "u32 \<Rightarrow> u8 list" where
  "motu_bytes v = [ucast (drop_bit 16 v AND 0xff), ucast (drop_bit 8 v AND 0xff), ucast (v AND 0xff)]"

definition motu_clip :: "rat \<Rightarrow> rat" where
  "motu_clip v = (let v = (if v > 1 then 1 else v) in if v < - 1 then - 1 else v)"

definition encodePortToMotuEvents ::
  "sp_env \<Rightarrow> u32 \<Rightarrow> motu_port_info \<Rightarrow> port \<Rightarrow> u8 list \<Rightarrow> u32 \<Rightarrow> u32 \<Rightarrow> u8 list option" where
  "encodePortToMotuEvents e event_size i p data offset nevents =
     (if \<not> nevents + offset \<le> m_buffersize p then None
      else do {
        vs \<leftarrow> (case m_audio_datatype (spm e) of
                eADT_Int24 \<Rightarrow> buffer_quadlets (m_buffer p) (unat offset) (unat nevents)
              | eADT_Float \<Rightarrow> map_option (map (\<lambda>v. of_int (lrintf (rflt (fpa e) (motu_clip v * 8388607)))))
                                (buffer_floats (m_buffer p) (unat offset) (unat nevents)));
        store_frames data (sint (mp_position i)) (uint event_size) (map motu_bytes vs)
      })"

definition encodeSilencePortToMotuEvents :: "u32 \<Rightarrow> motu_port_info \<Rightarrow> u8 list \<Rightarrow> u32 \<Rightarrow> u8 list option" where
  "encodeSilencePortToMotuEvents event_size i data nevents =
     store_frames data (sint (mp_position i)) (uint event_size) (replicate (unat nevents) [0, 0, 0])"

section \<open>MIDI\<close>

text \<open>The queue of bytes to be sent, and the number of frames until the next may be.\<close>

record motu_midi =
  mq_buffer :: "u32 list"
  mq_head :: u32
  mq_tail :: u32
  mq_lock :: u32

definition motu_midi_put :: "u32 \<Rightarrow> motu_midi \<Rightarrow> motu_midi" where
  "motu_midi_put v m =
     (let head = (mq_head m + 1) AND 1023
      in m\<lparr>mq_buffer := (mq_buffer m)[unat (mq_head m) := v], mq_head := head,
           mq_tail := (if head = mq_tail m then (mq_tail m + 1) AND 1023 else mq_tail m)\<rparr>)"

text \<open>One frame: the element of the port's buffer, and the bytes stored in the frame, if any.\<close>

definition motu_midi_frame :: "u32 \<Rightarrow> u32 \<Rightarrow> motu_midi \<Rightarrow> u8 list \<times> motu_midi" where
  "motu_midi_frame period v m =
     (let m = (if mq_lock m \<noteq> 0 then m\<lparr>mq_lock := mq_lock m - 1\<rparr> else m);
          m = (if v AND 0xff000000 \<noteq> 0 then motu_midi_put v m else m)
      in if mq_head m \<noteq> mq_tail m \<and> mq_lock m = 0
         then ([0x01, 0x00, ucast (mq_buffer m ! unat (mq_tail m) AND 0xff)],
               m\<lparr>mq_tail := (mq_tail m + 1) AND 1023, mq_lock := period\<rparr>)
         else ([], m))"

fun motu_midi_run :: "u32 \<Rightarrow> u32 list \<Rightarrow> motu_midi \<Rightarrow> u8 list list \<times> motu_midi" where
  "motu_midi_run period [] m = ([], m)"
| "motu_midi_run period (v # vs) m =
     (let (c, m) = motu_midi_frame period v m; (cs, m) = motu_midi_run period vs m in (c # cs, m))"

definition encodePortToMotuMidiEvents ::
  "u32 \<Rightarrow> u32 \<Rightarrow> motu_port_info \<Rightarrow> port \<Rightarrow> u8 list \<Rightarrow> u32 \<Rightarrow> u32 \<Rightarrow> motu_midi \<Rightarrow> (u8 list \<times> motu_midi) option" where
  "encodePortToMotuMidiEvents period event_size i p data offset nevents m =
     do {
       vs \<leftarrow> buffer_quadlets (m_buffer p) (unat offset) (unat nevents);
       let (cs, m) = motu_midi_run period vs m;
       data \<leftarrow> store_frames data (sint (mp_position i)) (uint event_size) cs;
       Some (data, m)
     }"

definition encodeSilencePortToMotuMidiEvents :: "u32 \<Rightarrow> motu_port_info \<Rightarrow> u8 list \<Rightarrow> u32 \<Rightarrow> u8 list option" where
  "encodeSilencePortToMotuMidiEvents event_size i data nevents =
     store_frames data (sint (mp_position i)) (uint event_size) (replicate (unat nevents) [0, 0, 0])"

section \<open>The subclass\<close>

definition motu_write_port ::
  "sp_env \<Rightarrow> u32 \<Rightarrow> u32 \<Rightarrow> (nat \<Rightarrow> motu_port_info option) \<Rightarrow> u32 \<Rightarrow> u32 \<Rightarrow> port \<Rightarrow> u8 list \<Rightarrow> motu_midi
   \<Rightarrow> (u8 list \<times> motu_midi) option" where
  "motu_write_port e period es info offset nevents p data m =
     (if m_disabled p then
        do { i \<leftarrow> info (p_addr p); d \<leftarrow> encodeSilencePortToMotuEvents es i data nevents; Some (d, m) }
      else case m_PortType p of
        E_Audio \<Rightarrow> do { i \<leftarrow> info (p_addr p); d \<leftarrow> encodePortToMotuEvents e es i p data offset nevents; Some (d, m) }
      | E_Midi \<Rightarrow> do { i \<leftarrow> info (p_addr p); encodePortToMotuMidiEvents period es i p data offset nevents m }
      | E_Control \<Rightarrow> Some (data, m))"

fun motu_write_ports ::
  "sp_env \<Rightarrow> u32 \<Rightarrow> u32 \<Rightarrow> (nat \<Rightarrow> motu_port_info option) \<Rightarrow> u32 \<Rightarrow> u32 \<Rightarrow> port list \<Rightarrow> u8 list \<times> motu_midi
   \<Rightarrow> (u8 list \<times> motu_midi) option" where
  "motu_write_ports e period es info offset nevents [] st = Some st"
| "motu_write_ports e period es info offset nevents (p # ps) (data, m) =
     do {
       st \<leftarrow> motu_write_port e period es info offset nevents p data m;
       motu_write_ports e period es info offset nevents ps st
     }"

text \<open>The places of MIDI and control data are cleared first.\<close>

definition motu_processWriteBlock ::
  "sp_env \<Rightarrow> u32 \<Rightarrow> u32 \<Rightarrow> 'm motu_transmit_scheme \<Rightarrow> (bool \<times> u8 list \<times> 'm motu_transmit_scheme) option" where
  "motu_processWriteBlock e nevents offset s =
     do {
       let data = map (fresh e) [0..<unat nevents * unat (mo_event_size s)];
       data \<leftarrow> store_frames data 4 (uint (mo_event_size s)) (replicate (unat nevents) (replicate 6 0));
       (data, m) \<leftarrow> motu_write_ports e (mt_midi_tx_period s) (mo_event_size s) (mo_info s) offset nevents (m_Ports s)
          (data, \<lparr>mq_buffer = mt_midibuffer s, mq_head = mt_mb_head s, mq_tail = mt_mb_tail s, mq_lock = mt_midi_lock s\<rparr>);
       Some (True, data, s\<lparr>mt_midibuffer := mq_buffer m, mt_mb_head := mq_head m, mt_mb_tail := mq_tail m, mt_midi_lock := mq_lock m\<rparr>)
     }"

fun motu_silence_ports :: "u32 \<Rightarrow> (nat \<Rightarrow> motu_port_info option) \<Rightarrow> u32 \<Rightarrow> port list \<Rightarrow> u8 list \<Rightarrow> u8 list option" where
  "motu_silence_ports es info nevents [] data = Some data"
| "motu_silence_ports es info nevents (p # ps) data =
     do {
       data \<leftarrow> (case m_PortType p of
                 E_Audio \<Rightarrow> do { i \<leftarrow> info (p_addr p); encodeSilencePortToMotuEvents es i data nevents }
               | E_Midi \<Rightarrow> do { i \<leftarrow> info (p_addr p); encodeSilencePortToMotuMidiEvents es i data nevents }
               | E_Control \<Rightarrow> Some data);
       motu_silence_ports es info nevents ps data
     }"

definition motu_transmitSilenceBlock ::
  "u8 list \<Rightarrow> u32 \<Rightarrow> u32 \<Rightarrow> 'm motu_transmit_scheme \<Rightarrow> (bool \<times> u8 list \<times> 'm motu_transmit_scheme) option" where
  "motu_transmitSilenceBlock data nevents offset s =
     do { data \<leftarrow> motu_silence_ports (mo_event_size s) (mo_info s) nevents (m_Ports s) data; Some (True, data, s) }"

definition motu_transmit_child :: "u8 list list \<Rightarrow> sp_env \<Rightarrow> 'm motu_transmit_scheme sp_child" where
  "motu_transmit_child tone e =
     (sp_child_defaults motu_prepareChild (\<lambda>_. 1) mo_event_size (\<lambda>_. motu_getNominalFramesPerPacket e))
       \<lparr>generatePacketHeader := motu_generatePacketHeader e,
        generatePacketData := motu_generatePacketData tone e,
        generateEmptyPacketHeader := motu_generateEmptyPacketHeader e,
        generateEmptyPacketData := motu_generateEmptyPacketData,
        generateSilentPacketHeader := motu_generateSilentPacketHeader e,
        generateSilentPacketData := motu_generateSilentPacketData e,
        processWriteBlock := motu_processWriteBlock e,
        transmitSilenceBlock := motu_transmitSilenceBlock\<rparr>"

section \<open>The contract of the base class\<close>

lemma motu_send_in_time_private: "motu_send_in_time e t x c s = Some (r, x', s') \<Longrightarrow> same_private s s'"
  by (auto simp: motu_send_in_time_def motu_send_def motu_fillDataPacketHeader_def Let_def bind_eq_Some_conv same_private_def
      split: if_splits)

lemma motu_xmit_header_private:
  "keeps_private3 (motu_generatePacketHeader e x c)" "keeps_private3 (motu_generateSilentPacketHeader e x c)"
  "keeps_private3 (motu_generateEmptyPacketHeader e x c)" "keeps_private3 (motu_generateEmptyPacketData x)"
  by (auto simp: keeps_private3_def motu_generatePacketHeader_def motu_generateSilentPacketHeader_def
      motu_generateEmptyPacketHeader_def motu_generateEmptyPacketData_def Let_def split_beta bind_eq_Some_conv same_private_def
      split: if_splits dest!: motu_send_in_time_private)

lemma motu_xmit_data_private:
  "keeps_private3 (motu_generatePacketData tone e x)" "keeps_private3 (motu_generateSilentPacketData e x)"
  by (auto simp: keeps_private3_def motu_generatePacketData_def motu_generateSilentPacketData_def Let_def bind_eq_Some_conv same_private_def
      split: if_splits dest!: readFrames_transparent)

lemma motu_write_block_private:
  "keeps_private3 (motu_processWriteBlock e n off)" "keeps_private3 (motu_transmitSilenceBlock d n off)"
  by (auto simp: keeps_private3_def motu_processWriteBlock_def motu_transmitSilenceBlock_def bind_eq_Some_conv same_private_def)

interpretation motu_tx: sp_child_laws "motu_transmit_child tone e" for tone e
  by unfold_locales
    (simp_all add: motu_transmit_child_def sp_child_defaults_def motu_xmit_header_private motu_xmit_data_private
      motu_write_block_private motu_prepare_private)

interpretation motu_tx_family: sp_child_family "motu_transmit_child tone" for tone
  by unfold_locales

end
