(* ===== verification/MotuStreams.thy ===== *)
theory MotuStreams
  imports MotuTransmit
begin

text \<open>
  What holds of MOTU streams: the times of frames survive the bus, packed samples reach the port at the same
  position, MIDI bytes keep their order and the pace of the MIDI bus, and the control values
  stay inside their tables as long as the device sends the buses there are.
\<close>

section \<open>Times\<close>

lemma mod_window:
  fixes T N :: int
  assumes "(T - N + w) mod M \<le> 2 * w" and "0 < M" and "0 \<le> w" and "2 * w < M"
  obtains k r where "T - N = k * M + r" and "- w \<le> r" and "r \<le> w"
proof
  show "T - N = ((T - N + w) div M) * M + ((T - N + w) mod M - w)" using div_mult_mod_eq [of "T - N + w" M] by linarith
  show "- w \<le> (T - N + w) mod M - w" using assms(2) by simp
  show "(T - N + w) mod M - w \<le> w" using assms(1) by linarith
qed

text \<open>The seconds of a time close to another, from the cycles of both.\<close>

lemma close_seconds:
  fixes a b c d p q k r :: int
  assumes "0 \<le> a" "a < 128" "0 \<le> b" "b < 128" "0 \<le> c" "c < 8000" "0 \<le> d" "d < 8000" "0 \<le> p" "p < 3072" "0 \<le> q" "q < 3072"
    and "(24576000 * a + 3072 * c + p) - (24576000 * b + 3072 * d + q) = k * 3145728000 + r" and "- 3072000 \<le> r" "r \<le> 3072000"
  shows "a = (if c > d + 1000 then if b \<noteq> 0 then b - 1 else 127 else if d > c + 1000 then if b = 127 then 0 else b + 1 else b)"
proof -
  define m where "m = a - b - 128 * k"
  have r: "r = 24576000 * m + 3072 * c - 3072 * d + p - q" using assms(13) unfolding m_def by (simp add: algebra_simps)
  have "m < 2" "- 2 < m" using r assms(5-12,14,15) by linarith+
  then consider "m = - 1" | "m = 0" | "m = 1" by linarith
  then show ?thesis
  proof cases
    case 1
    then have "c > d + 1000" "\<not> d > c + 1000" using r assms by linarith+
    moreover have "k = 0 \<or> k = 1" using 1 assms(1-4) unfolding m_def by linarith
    ultimately show ?thesis using 1 assms(1-4) unfolding m_def by auto
  next
    case 2
    then have "\<not> c > d + 1000" "\<not> d > c + 1000" using r assms by linarith+
    moreover have "k = 0" using 2 assms(1-4) unfolding m_def by linarith
    ultimately show ?thesis using 2 unfolding m_def by auto
  next
    case 3
    then have "d > c + 1000" "\<not> c > d + 1000" using r assms by linarith+
    moreover have "k = 0 \<or> k = - 1" using 3 assms(1-4) unfolding m_def by linarith
    ultimately show ?thesis using 3 assms(1-4) unfolding m_def by auto
  qed
qed

lemma sph_fields:
  fixes t :: u64
  shows "uint (CYCLE_TIMER_GET_SECS (ucast (fullTicksToSph t))) = 0"
    "uint (CYCLE_TIMER_GET_CYCLES (ucast (fullTicksToSph t))) = (uint t div 3072) mod 8000"
    "uint (CYCLE_TIMER_GET_OFFSET (ucast (fullTicksToSph t))) = uint t mod 3072"
    "fullTicksToSph t AND 0x1ffffff = fullTicksToSph t"
proof -
  have c: "CYCLE_TIMER_GET_CYCLES (ucast (fullTicksToSph t)) = CYCLE_TIMER_GET_CYCLES (TICKS_TO_CYCLE_TIMER t)"
    and o: "CYCLE_TIMER_GET_OFFSET (ucast (fullTicksToSph t)) = CYCLE_TIMER_GET_OFFSET (TICKS_TO_CYCLE_TIMER t)"
    and s: "CYCLE_TIMER_GET_SECS (ucast (fullTicksToSph t)) = 0"
    by (rule word_eq_bits; simp add: CYCLE_TIMER_GET_CYCLES_def CYCLE_TIMER_GET_OFFSET_def CYCLE_TIMER_GET_SECS_def
        fullTicksToSph_def word_bits_simps)+
  show "fullTicksToSph t AND 0x1ffffff = fullTicksToSph t" by (simp add: fullTicksToSph_def and.assoc)
  show "uint (CYCLE_TIMER_GET_SECS (ucast (fullTicksToSph t))) = 0" using s by simp
  show "uint (CYCLE_TIMER_GET_CYCLES (ucast (fullTicksToSph t))) = (uint t div 3072) mod 8000"
    "uint (CYCLE_TIMER_GET_OFFSET (ucast (fullTicksToSph t))) = uint t mod 3072"
    unfolding c o by (simp_all add: timer_of_ticks)
qed

lemma timer_as_u32:
  "CYCLE_TIMER_GET_CYCLES (ucast (ucast x :: u32)) = CYCLE_TIMER_GET_CYCLES x"
  "CYCLE_TIMER_GET_SECS (ucast (ucast x :: u32)) = CYCLE_TIMER_GET_SECS x" for x :: u64
  by (rule word_eq_bits; simp add: CYCLE_TIMER_GET_CYCLES_def CYCLE_TIMER_GET_SECS_def word_bits_simps)+

lemma uint_ucast_small: "uint x < 4294967296 \<Longrightarrow> uint (ucast x :: u32) = uint x" for x :: u64
  by (simp add: unsigned_ucast_eq take_bit_int_eq_self)

lemma uint_ticks_join:
  fixes x s :: u32
  assumes "uint x < 24576000" and "uint s < 128"
  shows "uint (ucast (ucast x + ucast s * TICKS_PER_SECOND) :: u32) = uint x + 24576000 * uint s"
proof -
  have "uint (ucast s * TICKS_PER_SECOND :: u64) = uint s * 24576000 mod 2 ^ 64"
    by (simp add: uint_word_ariths uint_ucast_up TICKS_PER_SECOND_def)
  then have m: "uint (ucast s * TICKS_PER_SECOND :: u64) = uint s * 24576000" using assms(2) by (simp add: mod_pos_pos_trivial)
  have "uint (ucast x + ucast s * TICKS_PER_SECOND :: u64) = uint x + uint s * 24576000"
    using m assms by (subst uint_plus_no_overflow) (simp_all add: uint_ucast_up)
  then show ?thesis using assms by (simp add: uint_ucast_small)
qed

text \<open>The conversion in integers: only the seconds need a decision.\<close>

lemma uint_sphRecvToFullTicks:
  assumes "uint (CYCLE_TIMER_GET_SECS (ucast ct)) = b" and "uint (CYCLE_TIMER_GET_CYCLES (ucast ct)) = d" and "b < 128" and "d < 8000"
    and "uint (CYCLE_TIMER_GET_CYCLES (ucast sph)) = c" and "c < 8000" and "uint (CYCLE_TIMER_TO_TICKS (ucast (sph AND 0x1ffffff))) = x"
    and "x < 24576000"
  shows "uint (sphRecvToFullTicks sph ct) = x + 24576000 *
    (if c > d + 1000 then if b \<noteq> 0 then b - 1 else 127 else if d > c + 1000 then if b = 127 then 0 else b + 1 else b)"
proof -
  let ?b = "ucast (CYCLE_TIMER_GET_SECS (ucast ct)) :: u32" and ?d = "ucast (CYCLE_TIMER_GET_CYCLES (ucast ct)) :: u32"
    and ?x = "ucast (CYCLE_TIMER_TO_TICKS (ucast (sph AND 0x1ffffff))) :: u32"
  have u: "uint ?b = b" "uint ?d = d" "uint ?x = x" using assms by (simp_all add: uint_ucast_small)
  let ?sec = "if CYCLE_TIMER_GET_CYCLES (ucast sph) > ucast (?d + 1000) then if ?b \<noteq> 0 then ?b - 1 else 127
    else if ucast ?d > CYCLE_TIMER_GET_CYCLES (ucast sph) + 1000 then if ?b = 127 then 0 else ?b + 1 else ?b"
  let ?k = "if c > d + 1000 then if b \<noteq> 0 then b - 1 else 127 else if d > c + 1000 then if b = 127 then 0 else b + 1 else b"
  have "0 \<le> b" using assms(1) uint_ge_0 by blast
  have 1: "uint (?d + 1000) = d + 1000" using u(2) assms(4) by (subst uint_plus_no_overflow) simp_all
  have 2: "uint (CYCLE_TIMER_GET_CYCLES (ucast sph) + 1000) = c + 1000" using assms(5,6) by (subst uint_plus_no_overflow) simp_all
  have z: "?b \<noteq> 0 \<longleftrightarrow> b \<noteq> 0" "?b = 127 \<longleftrightarrow> b = 127" using u(1) by (auto simp: word_uint_eq_iff)
  have 3: "uint (?b + 1) = b + 1" using u(1) assms(3) by (subst uint_plus_no_overflow) simp_all
  have 4: "b \<noteq> 0 \<Longrightarrow> uint (?b - 1) = b - 1" using u(1) \<open>0 \<le> b\<close> by (subst uint_sub_lem [THEN iffD1]) (simp_all add: word_le_def)
  have sec: "uint ?sec = ?k"
    using 1 2 3 4 u assms(5) by (simp add: word_less_def uint_ucast_up z)
  have k: "0 \<le> ?k" "?k < 128" using assms(3) \<open>0 \<le> b\<close> by auto
  have "uint (sphRecvToFullTicks sph ct) = uint (ucast (ucast ?x + ucast ?sec * TICKS_PER_SECOND) :: u32)"
    by (simp only: sphRecvToFullTicks_def Let_def)
  then show ?thesis using uint_ticks_join [of ?x ?sec] u(3) sec k(2) assms(8) by simp
qed

text \<open>
  A time that is sent in the header of a frame is recovered exactly by the receiver, if its cycle timer is at
  most 1000 cycles before or after that time; seconds that have passed or are still to come are corrected, also
  across the end of 128 seconds.
\<close>

lemma sph_roundtrip:
  assumes "uint t < MAX_TICKS" and "uint now < MAX_TICKS" and "(uint t - uint now + 3072000) mod MAX_TICKS \<le> 2 * 3072000"
  shows "uint (sphRecvToFullTicks (fullTicksToSph t) (ucast (TICKS_TO_CYCLE_TIMER now))) = uint t"
proof -
  let ?T = "uint t" and ?N = "uint now"
  let ?ct = "ucast (ucast (TICKS_TO_CYCLE_TIMER now) :: u32) :: u64"
  let ?c = "?T div 3072 mod 8000" and ?d = "?N div 3072 mod 8000" and ?b = "?N div 24576000" and ?a = "?T div 24576000"
  obtain k r where kr: "?T - ?N = k * MAX_TICKS + r" "- 3072000 \<le> r" "r \<le> 3072000"
    by (rule mod_window [OF assms(3)]) simp_all
  have T: "?T = 24576000 * ?a + 3072 * ?c + ?T mod 3072" and N: "?N = 24576000 * ?b + 3072 * ?d + ?N mod 3072"
    using ticks_parts_sum [of ?T] ticks_parts_sum [of ?N] by linarith+
  have sec: "?a = (if ?c > ?d + 1000 then if ?b \<noteq> 0 then ?b - 1 else 127
      else if ?d > ?c + 1000 then if ?b = 127 then 0 else ?b + 1 else ?b)"
  proof (rule close_seconds [where p = "?T mod 3072" and q = "?N mod 3072" and k = k and r = r])
    show "(24576000 * ?a + 3072 * ?c + ?T mod 3072) - (24576000 * ?b + 3072 * ?d + ?N mod 3072) = k * MAX_TICKS + r"
      using T N kr(1) by linarith
    have "0 \<le> ?c" "0 \<le> ?d" "0 \<le> ?T mod 3072" "0 \<le> ?N mod 3072" by simp_all
    then show "?a < 128" "?b < 128" using T N assms(1,2) by linarith+
  qed (use kr in \<open>simp_all add: pos_imp_zdiv_nonneg_iff\<close>)
  have b: "0 \<le> ?b" "?b < 128" "0 \<le> ?c" "?c < 8000" "0 \<le> ?d" "?d < 8000"
    using assms(2) by (simp_all add: pos_imp_zdiv_nonneg_iff div_less_iff_less_mult)
  have "uint (CYCLE_TIMER_TO_TICKS (ucast (fullTicksToSph t AND 0x1ffffff))) = ?c * 3072 + ?T mod 3072"
    by (simp only: sph_fields uint_CYCLE_TIMER_TO_TICKS)
  moreover have "?c * 3072 + ?T mod 3072 < 24576000" using b(4) pos_mod_bound [of 3072 ?T] by linarith
  ultimately have "uint (sphRecvToFullTicks (fullTicksToSph t) (ucast (TICKS_TO_CYCLE_TIMER now))) = ?c * 3072 + ?T mod 3072 + 24576000 * ?a"
    unfolding sec
    by (intro uint_sphRecvToFullTicks) (simp_all only: timer_as_u32 timer_of_ticks sph_fields b mod_pos_pos_trivial)
  then show ?thesis using T by linarith
qed

section \<open>Chunks in frames\<close>

lemma store_bytes_frame:
  assumes "store_bytes d k c = Some d'"
  shows "length d' = length d" and "b < length d \<Longrightarrow> \<not> (k \<le> int b \<and> int b < k + int (length c)) \<Longrightarrow> d' ! b = d ! b"
    and "c \<noteq> [] \<Longrightarrow> bytes_at d' k (length c) = Some c"
proof -
  show len: "length d' = length d"
    using assms by (auto simp: store_bytes_def split: if_splits dest: length_store_at)
  show "d' ! b = d ! b" if "b < length d" "\<not> (k \<le> int b \<and> int b < k + int (length c))"
    using assms that by (auto simp: store_bytes_def nth_store_at split: if_splits)
  show "bytes_at d' k (length c) = Some c" if "c \<noteq> []"
    using assms that by (auto simp: store_bytes_def bytes_at_def store_at_def split: if_splits)
qed

lemma bytes_at_cong:
  assumes "length d' = length d" and "\<And>b. b < length d \<Longrightarrow> k \<le> int b \<Longrightarrow> int b < k + int n \<Longrightarrow> d' ! b = d ! b"
  shows "bytes_at d' k n = bytes_at d k n"
proof (cases "0 \<le> k \<and> nat k + n \<le> length d")
  case True
  then have "take n (drop (nat k) d') = take n (drop (nat k) d)"
    using assms by (intro nth_equalityI) auto
  then show ?thesis using assms(1) by (simp add: bytes_at_def)
qed (use assms(1) in \<open>auto simp: bytes_at_def\<close>)

lemma store_frames_length: "store_frames d k w cs = Some d' \<Longrightarrow> length d' = length d"
  by (induction cs arbitrary: d k) (auto simp: bind_eq_Some_conv dest: store_bytes_frame(1))

lemma store_frames_other:
  assumes "store_frames d k w cs = Some d'" and "b < length d"
    and "\<forall>i<length cs. \<not> (k + int i * w \<le> int b \<and> int b < k + int i * w + int (length (cs ! i)))"
  shows "d' ! b = d ! b"
  using assms
proof (induction cs arbitrary: d k)
  case (Cons c cs)
  then obtain d1 where d1: "store_bytes d k c = Some d1" "store_frames d1 (k + w) w cs = Some d'" by (auto simp: bind_eq_Some_conv)
  have "\<forall>i<length cs. \<not> (k + w + int i * w \<le> int b \<and> int b < k + w + int i * w + int (length (cs ! i)))"
  proof (intro allI impI)
    fix i assume "i < length cs"
    with Cons.prems(3) [rule_format, of "Suc i"]
    show "\<not> (k + w + int i * w \<le> int b \<and> int b < k + w + int i * w + int (length (cs ! i)))" by (simp add: algebra_simps)
  qed
  then have "d' ! b = d1 ! b" using Cons.IH [OF d1(2)] Cons.prems(2) store_bytes_frame(1) [OF d1(1)] by simp
  also have "\<dots> = d ! b" using Cons.prems(2) Cons.prems(3) [rule_format, of 0] by (intro store_bytes_frame(2) [OF d1(1)]) simp_all
  finally show ?case .
qed simp

lemma store_frames_before:
  assumes "store_frames d k w cs = Some d'" and "0 \<le> w" and "int b < k" and "b < length d"
  shows "d' ! b = d ! b"
proof (rule store_frames_other [OF assms(1,4)], intro allI impI)
  fix i
  have "0 \<le> int i * w" using assms(2) by simp
  then show "\<not> (k + int i * w \<le> int b \<and> int b < k + int i * w + int (length (cs ! i)))" using assms(3) by linarith
qed

lemma store_frames_bytes:
  assumes "store_frames d k w cs = Some d'" and "i < length cs" and "cs ! i \<noteq> []" and "\<forall>c\<in>set cs. int (length c) \<le> w"
  shows "bytes_at d' (k + int i * w) (length (cs ! i)) = Some (cs ! i)"
  using assms
proof (induction cs arbitrary: d k i)
  case (Cons c cs)
  then obtain d1 where d1: "store_bytes d k c = Some d1" "store_frames d1 (k + w) w cs = Some d'" by (auto simp: bind_eq_Some_conv)
  show ?case
  proof (cases i)
    case 0
    have w: "int (length c) \<le> w" using Cons.prems(4) by simp
    have "bytes_at d' k (length c) = bytes_at d1 k (length c)"
    proof (rule bytes_at_cong [OF store_frames_length [OF d1(2)]])
      fix b assume "b < length d1" "int b < k + int (length c)"
      then show "d' ! b = d1 ! b" using w by (intro store_frames_before [OF d1(2)]) linarith+
    qed
    then show ?thesis using 0 Cons.prems(3) store_bytes_frame(3) [OF d1(1)] by simp
  next
    case (Suc j)
    then show ?thesis using Cons.IH [OF d1(2), of j] Cons.prems by (simp add: algebra_simps)
  qed
qed simp

lemma store_frames_Some:
  assumes "\<forall>i<length cs. cs ! i \<noteq> [] \<longrightarrow> 0 \<le> k + int i * w \<and> k + int i * w + int (length (cs ! i)) \<le> int (length d)"
  shows "store_frames d k w cs \<noteq> None"
  using assms
proof (induction cs arbitrary: d k)
  case (Cons c cs)
  have "c \<noteq> [] \<longrightarrow> 0 \<le> k \<and> k + int (length c) \<le> int (length d)" using Cons.prems [rule_format, of 0] by simp
  then have "store_bytes d k c \<noteq> None" by (auto simp: store_bytes_def store_at_def nat_le_iff)
  then obtain d1 where d1: "store_bytes d k c = Some d1" by auto
  have "store_frames d1 (k + w) w cs \<noteq> None"
  proof (rule Cons.IH, intro allI impI)
    fix i assume "i < length cs" "cs ! i \<noteq> []"
    then show "0 \<le> k + w + int i * w \<and> k + w + int i * w + int (length (cs ! i)) \<le> int (length d1)"
      using Cons.prems [rule_format, of "Suc i"] store_bytes_frame(1) [OF d1] by (simp add: algebra_simps)
  qed
  then show ?case using d1 by simp
qed simp

section \<open>Packets\<close>

text \<open>The timestamp in front of the \<open>i\<close>-th frame of a packet.\<close>

definition packet_sph :: "u8 list \<Rightarrow> u32 \<Rightarrow> nat \<Rightarrow> u32 option" where
  "packet_sph d event_size i = map_option (host_quadlet True) (bytes_at d (8 + int i * uint event_size) 4)"

definition motu_layout :: "'m motu_transmit_scheme \<Rightarrow> bool" where
  "motu_layout s \<longleftrightarrow> 4 dvd uint (mo_event_size s) \<and> 4 \<le> uint (mo_event_size s) \<and> uint (mo_event_size s) < 1024"

lemma motu_nominal: "motu_getNominalFramesPerPacket e \<in> {8, 16, 32}"
  by (auto simp: motu_getNominalFramesPerPacket_def Let_def)

lemma motu_nominal_bounds:
  "0 < unat (motu_getNominalFramesPerPacket e)" "unat (motu_getNominalFramesPerPacket e) \<le> 32"
  using motu_nominal [of e] by auto

lemma layout_stride: "motu_layout s \<Longrightarrow> 4 * uint (mo_event_size s div 4) = uint (mo_event_size s)"
  by (simp add: motu_layout_def uint_div dvd_mult_div_cancel)

lemma host_bytes_nonempty [simp]: "host_bytes be v \<noteq> []"
  by (simp add: host_bytes_def Let_def)

lemma mod_256_once: "0 \<le> a \<Longrightarrow> a < 512 \<Longrightarrow> (if 255 < a then a - 256 else a) = a mod (256 :: int)"
  by presburger

lemma store_sph_effect:
  assumes "store_sph e s d = Some d'" and "motu_layout s"
  shows "length d' = length d" and "b < length d \<Longrightarrow> b < 8 \<Longrightarrow> d' ! b = d ! b"
    and "i < unat (motu_getNominalFramesPerPacket e) \<Longrightarrow> packet_sph d' (mo_event_size s) i = Some (fullTicksToSph (frame_time e s i))"
proof -
  note st = assms(1) [unfolded store_sph_def layout_stride [OF assms(2)]]
  show "length d' = length d" by (rule store_frames_length [OF st])
  show "d' ! b = d ! b" if "b < length d" "b < 8" by (rule store_frames_before [OF st]) (use that in simp_all)
  show "packet_sph d' (mo_event_size s) i = Some (fullTicksToSph (frame_time e s i))" if "i < unat (motu_getNominalFramesPerPacket e)"
    using store_frames_bytes [OF st, of i] that assms(2) by (auto simp: packet_sph_def motu_layout_def)
qed

text \<open>The header of a data packet.\<close>

lemma motu_header_packet:
  assumes "motu_generatePacketHeader e x c s = Some (eCRV_Packet, x', s')"
  shows "\<exists>t k d. s' = s\<lparr>mt_tx_dbc := k, m_last_timestamp := t\<rparr> \<and> store_at (x_data x) 0 (motu_cip e s') = Some d
      \<and> x' = x\<lparr>x_sy := 0, x_tag := 1, x_length := motu_getNominalFramesPerPacket e * mo_event_size s + 8, x_data := d\<rparr>"
    and "uint (mt_tx_dbc s) < 256 \<Longrightarrow> uint (mt_tx_dbc s') = (uint (mt_tx_dbc s) + uint (motu_getNominalFramesPerPacket e)) mod 256"
proof -
  let ?n = "motu_getNominalFramesPerPacket e" and ?dbc = "mt_tx_dbc s + motu_getNominalFramesPerPacket e"
  let ?s = "s\<lparr>mt_tx_dbc := (if 0xff < ?dbc then ?dbc - 0x100 else ?dbc)\<rparr>"
  obtain t where "motu_send e t (motu_data_packet e s x) s = Some (eCRV_Packet, x', s')"
    using assms by (auto simp: motu_generatePacketHeader_def motu_send_in_time_def Let_def split_beta split: if_splits)
  then obtain d where d: "store_at (x_data x) 0 (motu_cip e ?s) = Some d" "s' = ?s\<lparr>m_last_timestamp := t\<rparr>"
      "x' = motu_data_packet e s x\<lparr>x_data := d\<rparr>"
    by (auto simp: motu_send_def motu_fillDataPacketHeader_def Let_def bind_eq_Some_conv motu_data_packet_def)
  then show "\<exists>t k d. s' = s\<lparr>mt_tx_dbc := k, m_last_timestamp := t\<rparr> \<and> store_at (x_data x) 0 (motu_cip e s') = Some d
      \<and> x' = x\<lparr>x_sy := 0, x_tag := 1, x_length := ?n * mo_event_size s + 8, x_data := d\<rparr>"
    by (intro exI [of _ t] exI [of _ "if 0xff < ?dbc then ?dbc - 0x100 else ?dbc"] exI [of _ d]) (simp add: motu_cip_def motu_data_packet_def)
  assume "uint (mt_tx_dbc s) < 256"
  moreover have "uint ?n \<in> {8, 16, 32}" using motu_nominal [of e] by auto
  ultimately have u: "uint ?dbc = uint (mt_tx_dbc s) + uint ?n" "uint ?n \<le> 32" "0 \<le> uint ?n"
    by (auto intro!: uint_plus_no_overflow)
  have "uint (?dbc - 0x100) = uint ?dbc - 256" if "0xff < ?dbc"
    using that by (subst uint_sub_lem [THEN iffD1]) (simp_all add: word_less_def word_le_def)
  then have "uint (mt_tx_dbc s') = (if 255 < uint ?dbc then uint ?dbc - 256 else uint ?dbc)" using d(2) by (auto simp: word_less_def)
  also have "\<dots> = (uint (mt_tx_dbc s) + uint ?n) mod 256"
    unfolding u(1) by (rule mod_256_once) (use u(2,3) \<open>uint (mt_tx_dbc s) < 256\<close> uint_ge_0 [of "mt_tx_dbc s"] in linarith)+
  finally show "uint (mt_tx_dbc s') = (uint (mt_tx_dbc s) + uint ?n) mod 256" .
qed

lemma cip_dbs:
  fixes n dbc w :: u32
  shows "drop_bit 16 (0x00000400 OR push_bit 24 n OR (dbc AND 0xff) OR push_bit 16 (w AND 0xff)) AND 0xff = w AND 0xff"
  by (rule word_eq_bits) (simp add: word_bits_simps)

lemma and_255:
  fixes w :: u32
  assumes "uint w < 256"
  shows "w AND 0xff = w"
proof -
  have "w AND 0xff = take_bit 8 w" by (simp add: take_bit_eq_mask mask_eq_exp_minus_1)
  moreover have "uint (take_bit 8 w) = uint w" using assms by (simp add: uint_take_bit_mod mod_pos_pos_trivial)
  ultimately show ?thesis by (simp add: word_uint_eq_iff)
qed

text \<open>A packet with the header and the timestamps of a MOTU is accepted, with the time of its last frame.\<close>

lemma motu_packet_accepted:
  fixes s :: "'m motu_transmit_scheme" and r :: "'n motu_processor_scheme"
  assumes "motu_layout s" and "uint (mt_tx_dbc s) < 256" and "take 8 d = motu_cip e s"
    and "unat (motu_getNominalFramesPerPacket e) = n"
    and "packet_sph d (mo_event_size s) (n - 1) = Some (fullTicksToSph t)" and "mo_event_size r = mo_event_size s"
    and "uint t < MAX_TICKS" and "uint (getCycleTimerTicks e') < MAX_TICKS"
    and "(uint t - uint (getCycleTimerTicks e') + 3072000) mod MAX_TICKS \<le> 2 * 3072000"
  shows "motu_processPacketHeader e' d (motu_getNominalFramesPerPacket e * mo_event_size s + 8) 1 sy c r
    = Some (eCRV_OK, r\<lparr>m_last_timestamp := t\<rparr>)"
proof -
  let ?n = "motu_getNominalFramesPerPacket e" and ?w = "mo_event_size s"
  let ?q = "0x00000400 OR push_bit 24 (getLocalNodeId e AND 0x3f) OR mt_tx_dbc s OR push_bit 16 (?w div 4)"
  have w: "4 \<le> uint ?w" "uint ?w < 1024" "uint ?n \<in> {8, 16, 32}"
    using assms(1) motu_nominal [of e] by (auto simp: motu_layout_def)
  have "length (take 8 d) = 8" unfolding assms(3) by (simp add: motu_cip_def)
  then have len: "8 \<le> length d" by simp
  have "take 4 d = take 4 (take 8 d)" by simp
  then have q0: "bus_quadlet d 0 = Some ?q" using len assms(3) by (simp add: bus_quadlet_def motu_cip_def)
  have "bus_quadlet d 1 \<noteq> None" using len by (simp add: bus_quadlet_def)
  then obtain q1 where q1: "bus_quadlet d 1 = Some q1" by auto
  have dv: "uint (?w div 4) = uint ?w div 4" by (simp add: uint_div)
  have "drop_bit 16 ?q AND 0xff = ?w div 4"
    using cip_dbs [of "getLocalNodeId e AND 0x3f" "mt_tx_dbc s" "?w div 4"] and_255 [OF assms(2)] and_255 [of "?w div 4"] w dv by simp
  moreover have "?w div 4 \<noteq> 0" using dv w(1) by (auto simp: word_uint_eq_iff)
  ultimately have dbs: "drop_bit 16 ?q AND 0xff \<noteq> 0" by simp
  have m: "uint (?n * ?w) = uint ?n * uint ?w" using w by (auto simp: uint_word_ariths)
  have le: "uint ?n * uint ?w < 32768" "8 * 4 \<le> uint ?n * uint ?w" using w by auto
  have l: "8 < ?n * ?w + 8" using m le by (simp add: word_less_def uint_word_ariths)
  have nev: "(?n * ?w + 8 - 8) div ?w = ?n" using m w(1) by (simp add: word_uint_eq_iff uint_div)
  have "uint ((?n - 1) * ?w) = int (n - 1) * uint ?w"
  proof -
    have "uint (?n - 1) = uint ?n - 1" using w(3) by (subst uint_sub_lem [THEN iffD1]) (auto simp: word_le_def)
    then have "uint ((?n - 1) * ?w) = (uint ?n - 1) * uint ?w" using w by (auto simp: uint_word_ariths)
    moreover have "uint ?n - 1 = int (n - 1)" using assms(4) w(3) by (auto simp: uint_nat of_nat_diff)
    ultimately show ?thesis by simp
  qed
  then obtain bs where bs: "bytes_at d (8 + uint ((?n - 1) * ?w)) 4 = Some bs" "host_quadlet True bs = fullTicksToSph t"
    using assms(5) by (auto simp: packet_sph_def)
  have "ucast (ucast (getCycleTimerTicks e') :: u32) = getCycleTimerTicks e'"
    using assms(8) by (simp add: word_uint_eq_iff uint_ucast_up uint_ucast_small)
  then have "uint (sphRecvToFullTicks (fullTicksToSph t) (getCycleTimer e')) = uint t"
    using sph_roundtrip [OF assms(7-9)] by (simp add: getCycleTimer_def)
  then have "ucast (sphRecvToFullTicks (fullTicksToSph t) (getCycleTimer e')) = t" by (simp add: word_uint_eq_iff uint_ucast_up)
  moreover have "?w \<noteq> 0" using w(1) by auto
  ultimately show ?thesis using q0 q1 dbs l nev bs assms(6) by (simp add: motu_processPacketHeader_def Let_def)
qed

lemma motu_data_effect:
  assumes "motu_generatePacketData [] e x s = Some (eCRV_OK, x', s')"
  shows "\<exists>b d0 d1 d2. s' = s\<lparr>m_data_buffer := b\<rparr> \<and> length d0 = length (x_data x) \<and> (\<forall>k<8. k < length d0 \<longrightarrow> d0 ! k = x_data x ! k)
    \<and> store_sph e s d0 = Some d1 \<and> store_pads e s d1 = Some d2 \<and> x' = x\<lparr>x_data := d2\<rparr>"
proof -
  obtain ok frames b where r: "readFrames (m_data_buffer s) (motu_getNominalFramesPerPacket e) = Some (ok, frames, b)"
    using assms by (auto simp: motu_generatePacketData_def bind_eq_Some_conv)
  let ?s = "s\<lparr>m_data_buffer := b\<rparr>"
  have "store_sph e ?s = store_sph e s" "store_pads e ?s = store_pads e s"
    by (simp_all add: fun_eq_iff store_sph_def store_pads_def frame_time_def)
  with assms r obtain d0 d1 d2 where d: "store_at (x_data x) 8 frames = Some d0" "store_sph e s d0 = Some d1" "store_pads e s d1 = Some d2"
      "s' = ?s" "x' = x\<lparr>x_data := d2\<rparr>"
    by (auto simp: motu_generatePacketData_def Let_def bind_eq_Some_conv split: if_splits)
  have "length d0 = length (x_data x)" "\<forall>k<8. k < length d0 \<longrightarrow> d0 ! k = x_data x ! k"
    using nth_store_at [OF d(1)] length_store_at [OF d(1)] by simp_all
  then show ?thesis using d by blast
qed

lemma take_8_cong: "length d' = length d \<Longrightarrow> (\<And>b. b < 8 \<Longrightarrow> b < length d \<Longrightarrow> d' ! b = d ! b) \<Longrightarrow> take 8 d' = take 8 d"
  by (intro nth_equalityI) auto


text \<open>An example: eight frames of 16 bytes that are due in cycle 3.\<close>

definition example_motu_buffer :: "u32 \<Rightarrow> tsbuffer" where
  "example_motu_buffer event_size =
     (TimestampedBuffer_new exact)\<lparr>m_event_buffer :=
          map_option (\<lambda>rb. snd (ffado_ringbuffer_write rb (replicate (8 * unat event_size) 1) (ucast (8 * event_size))))
            (ffado_ringbuffer_create (\<lambda>_. 0) 256),
        m_event_size := event_size, m_events_per_frame := 1, m_framecounter := 8, m_transparent := False, m_current_rate := 512,
        m_wrap_at := 3145728000, m_buffer_tail_timestamp := 14096\<rparr>"

definition example_motu_tx :: "u32 \<Rightarrow> motu_transmit" where
  "example_motu_tx event_size =
     (motu_processor.extend (motu_new exact ePT_Transmit event_size 1) (motu_transmit.fields ((event_size - 4) mod 3) 0 [] 0 0 0 16))
       \<lparr>m_data_buffer := example_motu_buffer event_size\<rparr>"

definition example_motu_packet :: "nat \<Rightarrow> xmit_packet" where
  "example_motu_packet n = \<lparr>x_data = replicate n 0, x_length = 0, x_tag = 0, x_sy = 0\<rparr>"

definition example_motu_sends :: "u32 \<Rightarrow> nat \<Rightarrow> bool" where
  "example_motu_sends event_size n =
     (case motu_generatePacketHeader example_env (example_motu_packet n) 0x3000 (example_motu_tx event_size) of
        Some (r, x, s) \<Rightarrow>
          r = eCRV_Packet \<and> uint (frame_time example_env s 7) < 1000000
          \<and> (case motu_generatePacketData [] example_env x s of Some (r, _) \<Rightarrow> r = eCRV_OK | None \<Rightarrow> False)
      | None \<Rightarrow> False)"

lemma example_motu_run:
  assumes "example_motu_sends event_size n"
  obtains x1 s1 x2 s2 where "motu_generatePacketHeader example_env (example_motu_packet n) 0x3000 (example_motu_tx event_size) = Some (eCRV_Packet, x1, s1)"
    "motu_generatePacketData [] example_env x1 s1 = Some (eCRV_OK, x2, s2)" "uint (frame_time example_env s1 7) < 1000000"
  using assms by (auto simp: example_motu_sends_def split: option.splits prod.splits)

lemma example_motu_fields:
  "mo_event_size (example_motu_tx es) = es" "mt_event_pad_bytes (example_motu_tx es) = (es - 4) mod 3" "mt_tx_dbc (example_motu_tx es) = 0"
  "unat (motu_getNominalFramesPerPacket example_env) = 8"
  by (simp_all add: example_motu_tx_def motu_new_def motu_processor.defs motu_transmit.defs
      stream_processor.defs StreamProcessor_new_def motu_getNominalFramesPerPacket_def example_env_def)


text \<open>The pad bytes: the second byte cleared is the first of the next timestamp when there is one pad byte.\<close>

lemma take_4_nth: "m + 4 \<le> length d \<Longrightarrow> take 4 (drop m d) = [d ! m, d ! (m + 1), d ! (m + 2), d ! (m + 3)]"
  by (rule nth_equalityI) (auto simp: less_Suc_eq numeral_eq_Suc)

lemma bytes_at_4:
  "bytes_at d k 4 = (if 0 \<le> k \<and> nat k + 4 \<le> length d
     then Some [d ! nat k, d ! (nat k + 1), d ! (nat k + 2), d ! (nat k + 3)] else None)"
  by (simp add: bytes_at_def take_4_nth)

lemma bytes_at_2:
  "bytes_at d k 2 = (if 0 \<le> k \<and> nat k + 2 \<le> length d then Some [d ! nat k, d ! (nat k + 1)] else None)"
proof -
  have "take 2 (drop m d) = [d ! m, d ! (m + 1)]" if "m + 2 \<le> length d" for m
    using that by (intro nth_equalityI) (auto simp: less_Suc_eq numeral_eq_Suc)
  then show ?thesis by (simp add: bytes_at_def)
qed

lemma store_pads_one:
  assumes "store_pads e s d = Some d'" and "mt_event_pad_bytes s = 1" and "8 \<le> uint (mo_event_size s)"
    and "0 < i" and "i < unat (motu_getNominalFramesPerPacket e)" and "packet_sph d (mo_event_size s) i = Some v"
  shows "packet_sph d' (mo_event_size s) i = Some (v AND 0x00ffffff)"
proof -
  let ?w = "uint (mo_event_size s)" and ?n = "unat (motu_getNominalFramesPerPacket e)"
  let ?k = "8 + int i * ?w"
  have st: "store_frames d (7 + ?w) ?w (replicate ?n [0, 0]) = Some d'" using assms(1,2) by (simp add: store_pads_def algebra_simps)
  have len: "length d' = length d" by (rule store_frames_length [OF st])
  have "bytes_at d' (7 + ?w + int (i - 1) * ?w) 2 = Some [0, 0]"
    using store_frames_bytes [OF st, of "i - 1"] assms(3-5) by (simp add: numeral_2_eq_2)
  then have "bytes_at d' (?k - 1) 2 = Some [0, 0]" using assms(4) by (simp add: algebra_simps of_nat_diff)
  moreover have "0 \<le> int i * ?w" by simp
  then have "nat (?k - 1) + 1 = nat ?k" by linarith
  ultimately have z: "d' ! nat ?k = 0" by (auto simp: bytes_at_2 split: if_splits)
  have o: "d' ! (nat ?k + m) = d ! (nat ?k + m)" if "0 < m" "m < 4" "nat ?k + m < length d" for m
  proof (rule store_frames_other [OF st that(3)], intro allI impI)
    fix j assume "j < length (replicate ?n [0 :: u8, 0])"
    then have "length (replicate ?n [0 :: u8, 0] ! j) = 2" by simp
    moreover have k: "int (nat ?k + m) = ?k + int m" by simp
    moreover have "\<not> (7 + ?w + int j * ?w \<le> ?k + int m \<and> ?k + int m < 7 + ?w + int j * ?w + 2)"
    proof (cases "j < i")
      case True
      then have "(int j + 1) * ?w \<le> int i * ?w" by (intro mult_right_mono) simp_all
      then show ?thesis using that(1) unfolding distrib_right by linarith
    next
      case False
      then have "int i * ?w \<le> int j * ?w" by (intro mult_right_mono) simp_all
      then show ?thesis using that(2) assms(3) by linarith
    qed
    ultimately show "\<not> (7 + ?w + int j * ?w \<le> int (nat ?k + m) \<and> int (nat ?k + m) < 7 + ?w + int j * ?w + int (length (replicate ?n [0 :: u8, 0] ! j)))"
      by simp
  qed
  let ?m = "nat ?k"
  have fits: "?m + 4 \<le> length d" and v: "v = host_quadlet True [d ! ?m, d ! (?m + 1), d ! (?m + 2), d ! (?m + 3)]"
    using assms(6) by (auto simp: packet_sph_def bytes_at_4 split: if_splits)
  have "bytes_at d' ?k 4 = Some [0, d ! (?m + 1), d ! (?m + 2), d ! (?m + 3)]"
    unfolding bytes_at_4 using fits len z o [of 1] o [of 2] o [of 3] by simp
  moreover have "host_quadlet True [0, d ! (?m + 1), d ! (?m + 2), d ! (?m + 3)] = v AND 0x00ffffff"
    unfolding v by (rule word_eq_bits) (simp add: host_quadlet_def Let_def word_bits_simps)
  ultimately show ?thesis by (simp add: packet_sph_def)
qed

text \<open>
  C37. One pad byte spoils the timestamps. With an event size that leaves one pad byte (20 bytes for three channels, 44 for
  eleven), clearing the pad bytes overwrites the first byte of the timestamp of the next frame: every frame but the
  first is sent with its cycle modulo 4096, so the times of frames in the later half of a second are 4096 cycles too early.
\<close>

theorem motu_padding_spoils_times:
  fixes s :: "'m motu_transmit_scheme"
  assumes "motu_generatePacketHeader e x c s = Some (eCRV_Packet, x1, s1)"
    and "motu_generatePacketData [] e x1 s1 = Some (eCRV_OK, x2, s2)"
    and "motu_layout s" and "mt_event_pad_bytes s = 1" and "8 \<le> uint (mo_event_size s)"
    and "0 < i" and "i < unat (motu_getNominalFramesPerPacket e)" and "frame_time e s1 i = t"
  shows "\<exists>sph. packet_sph (x_data x2) (mo_event_size s) i = Some sph
    \<and> uint (CYCLE_TIMER_GET_CYCLES (ucast sph)) = uint t div 3072 mod 8000 mod 4096
    \<and> uint (CYCLE_TIMER_GET_OFFSET (ucast sph)) = uint t mod 3072"
proof -
  obtain u k d where h: "s1 = s\<lparr>mt_tx_dbc := k, m_last_timestamp := u\<rparr>"
    using motu_header_packet(1) [OF assms(1)] by blast
  have s1: "mo_event_size s1 = mo_event_size s" "mt_event_pad_bytes s1 = 1" "motu_layout s1"
    using h assms(3,4) by (simp_all add: motu_layout_def)
  obtain d0 d1 d2 where m: "store_sph e s1 d0 = Some d1" "store_pads e s1 d1 = Some d2" "x2 = x1\<lparr>x_data := d2\<rparr>"
    using motu_data_effect [OF assms(2)] by blast
  have "packet_sph d1 (mo_event_size s1) i = Some (fullTicksToSph t)" using store_sph_effect(3) [OF m(1) s1(3) assms(7)] assms(8) by simp
  then have sph: "packet_sph (x_data x2) (mo_event_size s) i = Some (fullTicksToSph t AND 0x00ffffff)"
    using store_pads_one [OF m(2) s1(2) _ assms(6,7)] assms(5) s1(1) m(3) by simp
  have c: "CYCLE_TIMER_GET_CYCLES (ucast (fullTicksToSph t AND 0x00ffffff)) = take_bit 12 (CYCLE_TIMER_GET_CYCLES (ucast (fullTicksToSph t)))"
    and o: "CYCLE_TIMER_GET_OFFSET (ucast (fullTicksToSph t AND 0x00ffffff)) = CYCLE_TIMER_GET_OFFSET (ucast (fullTicksToSph t))"
    by (rule word_eq_bits; simp add: CYCLE_TIMER_GET_CYCLES_def CYCLE_TIMER_GET_OFFSET_def word_bits_simps)+
  have "uint (CYCLE_TIMER_GET_CYCLES (ucast (fullTicksToSph t AND 0x00ffffff))) = uint t div 3072 mod 8000 mod 4096"
    unfolding c uint_take_bit_mod sph_fields by simp
  moreover have "uint (CYCLE_TIMER_GET_OFFSET (ucast (fullTicksToSph t AND 0x00ffffff))) = uint t mod 3072" unfolding o sph_fields ..
  ultimately show ?thesis using sph by blast
qed

theorem motu_padding_spoils_times_witness:
  "\<exists>x1 s1 x2 s2 sph. motu_generatePacketHeader example_env (example_motu_packet 169) 0x3000 (example_motu_tx 20) = Some (eCRV_Packet, x1, s1)
    \<and> motu_generatePacketData [] example_env x1 s1 = Some (eCRV_OK, x2, s2) \<and> packet_sph (x_data x2) 20 1 = Some sph
    \<and> uint (CYCLE_TIMER_GET_CYCLES (ucast sph)) = uint (frame_time example_env s1 1) div 3072 mod 8000 mod 4096"
proof -
  have "example_motu_sends 20 169" by code_simp
  then obtain x1 s1 x2 s2 where g: "motu_generatePacketHeader example_env (example_motu_packet 169) 0x3000 (example_motu_tx 20) = Some (eCRV_Packet, x1, s1)"
    "motu_generatePacketData [] example_env x1 s1 = Some (eCRV_OK, x2, s2)"
    by (rule example_motu_run)
  have "motu_layout (example_motu_tx 20)" "mt_event_pad_bytes (example_motu_tx 20) = 1" "8 \<le> uint (mo_event_size (example_motu_tx 20))"
    "1 < unat (motu_getNominalFramesPerPacket example_env)"
    by (simp_all add: motu_layout_def example_motu_fields)
  from motu_padding_spoils_times [OF g this(1-3) zero_less_one this(4) refl] show ?thesis using g by (auto simp: example_motu_fields)
qed

section \<open>MIDI\<close>

text \<open>The queue as a list: the words from the tail to the head of a ring of 1024.\<close>

definition ring_fill :: "nat \<Rightarrow> nat \<Rightarrow> nat" where
  "ring_fill h t = (if t \<le> h then h - t else h + 1024 - t)"

definition motu_queue :: "motu_midi \<Rightarrow> u32 list" where
  "motu_queue m = map (\<lambda>i. mq_buffer m ! ((unat (mq_tail m) + i) mod 1024)) [0..<ring_fill (unat (mq_head m)) (unat (mq_tail m))]"

definition motu_queue_ok :: "motu_midi \<Rightarrow> bool" where
  "motu_queue_ok m \<longleftrightarrow> length (mq_buffer m) = 1024 \<and> mq_head m < 1024 \<and> mq_tail m < 1024"

lemma unat_ring_next: "unat ((x + 1 :: u32) AND 1023) = (unat x + 1) mod 1024"
proof -
  have "unat ((x + 1 :: u32) AND (1024 - 1)) = unat (x + 1) mod 2 ^ 10" by (rule unat_and_pred_power) simp_all
  also have "\<dots> = (unat x + 1) mod 1024" by (simp add: unat_word_ariths mod_mod_cancel)
  finally show ?thesis by simp
qed

lemma ring_next_less: "(x + 1 :: u32) AND 1023 < 1024"
  using unat_ring_next [of x] by (simp add: word_less_nat_alt)

lemma ring_step: "h < 1024 \<Longrightarrow> (h + 1) mod 1024 = (if h = 1023 then 0 else h + 1)" for h :: nat
  by auto

lemma ring_arith:
  assumes "h < 1024" and "t < 1024"
  shows "ring_fill h t < 1024" and "(t + ring_fill h t) mod 1024 = h" and "(h + 1) mod 1024 = t \<longleftrightarrow> ring_fill h t = 1023"
    and "ring_fill h t < 1023 \<Longrightarrow> ring_fill ((h + 1) mod 1024) t = ring_fill h t + 1"
    and "h \<noteq> t \<Longrightarrow> ring_fill h t = Suc (ring_fill h ((t + 1) mod 1024))" and "ring_fill h t = 0 \<longleftrightarrow> h = t"
  using assms unfolding ring_step [OF assms(1)] ring_step [OF assms(2)] by (auto simp: ring_fill_def mod_if split: if_splits)

lemma motu_queue_put:
  assumes "motu_queue_ok m" and "length (motu_queue m) < 1023"
  shows "motu_queue (motu_midi_put v m) = motu_queue m @ [v]" and "motu_queue_ok (motu_midi_put v m)"
    and "mq_lock (motu_midi_put v m) = mq_lock m"
proof -
  define h t n where "h = unat (mq_head m)" and "t = unat (mq_tail m)" and "n = ring_fill h t"
  have b: "length (mq_buffer m) = 1024" "h < 1024" "t < 1024"
    using assms(1) by (simp_all add: motu_queue_ok_def h_def t_def word_less_nat_alt)
  note arith = ring_arith [OF b(2,3), folded n_def]
  have n: "n < 1023" using assms(2) by (simp add: motu_queue_def n_def h_def t_def)
  then have "(h + 1) mod 1024 \<noteq> t" using arith(3) by simp
  then have eq: "(mq_head m + 1) AND 1023 \<noteq> mq_tail m" using unat_ring_next [of "mq_head m"] by (auto simp: h_def t_def)
  have old: "(mq_buffer m)[h := v] ! ((t + i) mod 1024) = mq_buffer m ! ((t + i) mod 1024)" if "i < n" for i
    using that arith(1,2) b mod_add_inject [of t i 1024 n] by (auto simp: nth_list_update)
  have "(mq_buffer m)[h := v] ! ((t + n) mod 1024) = v" using arith(2) b by simp
  moreover have "motu_queue (motu_midi_put v m) = map (\<lambda>i. (mq_buffer m)[h := v] ! ((t + i) mod 1024)) [0..<n + 1]"
    using arith(4) [OF n] eq by (simp add: motu_queue_def motu_midi_put_def Let_def unat_ring_next flip: h_def t_def)
  ultimately show "motu_queue (motu_midi_put v m) = motu_queue m @ [v]"
    using old by (simp add: motu_queue_def flip: h_def t_def n_def)
  show "motu_queue_ok (motu_midi_put v m)" "mq_lock (motu_midi_put v m) = mq_lock m"
    using assms(1) ring_next_less by (auto simp: motu_queue_ok_def motu_midi_put_def Let_def)
qed

lemma motu_queue_take:
  assumes "motu_queue_ok m" and "mq_head m \<noteq> mq_tail m"
  shows "motu_queue m = mq_buffer m ! unat (mq_tail m) # motu_queue (m\<lparr>mq_tail := (mq_tail m + 1) AND 1023, mq_lock := l\<rparr>)"
    and "motu_queue_ok (m\<lparr>mq_tail := (mq_tail m + 1) AND 1023, mq_lock := l\<rparr>)"
proof -
  define h t where "h = unat (mq_head m)" and "t = unat (mq_tail m)"
  have b: "h < 1024" "t < 1024" "h \<noteq> t"
    using assms by (auto simp: motu_queue_ok_def h_def t_def word_less_nat_alt word_unat_eq_iff)
  have "[0..<Suc n] = 0 # map Suc [0..<n]" for n by (simp add: upt_conv_Cons map_Suc_upt del: upt_Suc)
  then have "motu_queue m = map (\<lambda>i. mq_buffer m ! ((t + i) mod 1024)) (0 # map Suc [0..<ring_fill h ((t + 1) mod 1024)])"
    using ring_arith(5) [OF b] by (simp only: motu_queue_def flip: h_def t_def)
  then show "motu_queue m = mq_buffer m ! unat (mq_tail m) # motu_queue (m\<lparr>mq_tail := (mq_tail m + 1) AND 1023, mq_lock := l\<rparr>)"
    using b(2) by (simp add: motu_queue_def unat_ring_next mod_simps flip: h_def t_def)
  show "motu_queue_ok (m\<lparr>mq_tail := (mq_tail m + 1) AND 1023, mq_lock := l\<rparr>)"
    using assms(1) ring_next_less by (auto simp: motu_queue_ok_def)
qed

text \<open>A word that holds a MIDI byte, and the byte.\<close>

definition has_midi :: "u32 \<Rightarrow> bool" where "has_midi v \<longleftrightarrow> v AND 0xff000000 \<noteq> 0"

definition midi_byte_of :: "u32 \<Rightarrow> u8" where "midi_byte_of v = ucast (v AND 0xff)"

lemma motu_frame_lock:
  assumes "motu_midi_frame P v m = (c, m')"
  shows "if c = [] then unat (mq_lock m') = unat (mq_lock m) - 1 else unat (mq_lock m) \<le> 1 \<and> mq_lock m' = P"
proof -
  define m1 where "m1 = (if mq_lock m \<noteq> 0 then m\<lparr>mq_lock := mq_lock m - 1\<rparr> else m)"
  define m2 where "m2 = (if v AND 0xff000000 \<noteq> 0 then motu_midi_put v m1 else m1)"
  have "unat (mq_lock m1) = unat (mq_lock m) - 1" by (simp add: m1_def unat_minus_one)
  moreover have "mq_lock m2 = mq_lock m1" by (simp add: m2_def motu_midi_put_def Let_def)
  moreover have "motu_midi_frame P v m = (if mq_head m2 \<noteq> mq_tail m2 \<and> mq_lock m2 = 0
         then ([0x01, 0x00, ucast (mq_buffer m2 ! unat (mq_tail m2) AND 0xff)], m2\<lparr>mq_tail := (mq_tail m2 + 1) AND 1023, mq_lock := P\<rparr>)
         else ([], m2))"
    by (simp only: motu_midi_frame_def Let_def m1_def m2_def)
  ultimately show ?thesis using assms by (auto split: if_splits)
qed

lemma motu_frame_queue:
  assumes "motu_midi_frame P v m = (c, m')" and "motu_queue_ok m" and "has_midi v \<longrightarrow> length (motu_queue m) < 1023"
  shows "motu_queue_ok m'" and "\<exists>xs. motu_queue m @ filter has_midi [v] = xs @ motu_queue m' \<and> length xs \<le> 1
    \<and> c = (if xs = [] then [] else [1, 0, midi_byte_of (hd xs)])"
proof -
  define m1 where "m1 = (if mq_lock m \<noteq> 0 then m\<lparr>mq_lock := mq_lock m - 1\<rparr> else m)"
  define m2 where "m2 = (if v AND 0xff000000 \<noteq> 0 then motu_midi_put v m1 else m1)"
  have m1: "motu_queue m1 = motu_queue m" "motu_queue_ok m1" using assms(2) by (simp_all add: m1_def motu_queue_def motu_queue_ok_def)
  have m2: "motu_queue m2 = motu_queue m @ filter has_midi [v]" "motu_queue_ok m2"
    using motu_queue_put(1,2) [OF m1(2), of v] m1 assms(3) by (auto simp: m2_def has_midi_def)
  have f: "(c, m') = (if mq_head m2 \<noteq> mq_tail m2 \<and> mq_lock m2 = 0
         then ([0x01, 0x00, ucast (mq_buffer m2 ! unat (mq_tail m2) AND 0xff)], m2\<lparr>mq_tail := (mq_tail m2 + 1) AND 1023, mq_lock := P\<rparr>)
         else ([], m2))"
    unfolding assms(1) [symmetric] by (simp only: motu_midi_frame_def Let_def m1_def m2_def)
  have "motu_queue_ok m' \<and> (\<exists>xs. motu_queue m2 = xs @ motu_queue m' \<and> length xs \<le> 1
      \<and> c = (if xs = [] then [] else [1, 0, midi_byte_of (hd xs)]))"
  proof (cases "mq_head m2 \<noteq> mq_tail m2 \<and> mq_lock m2 = 0")
    case True
    then show ?thesis
      using f motu_queue_take [OF m2(2), of P] by (intro conjI exI [of _ "[mq_buffer m2 ! unat (mq_tail m2)]"]) (auto simp: midi_byte_of_def)
  next
    case False
    then show ?thesis using f m2(2) by (intro conjI exI [of _ "[]"]) auto
  qed
  then show "motu_queue_ok m'" and "\<exists>xs. motu_queue m @ filter has_midi [v] = xs @ motu_queue m' \<and> length xs \<le> 1
    \<and> c = (if xs = [] then [] else [1, 0, midi_byte_of (hd xs)])" unfolding m2(1) by auto
qed

lemma motu_run_Cons:
  assumes "motu_midi_run P (v # vs) m = (cs, m')"
  obtains c m1 cs' where "motu_midi_frame P v m = (c, m1)" "motu_midi_run P vs m1 = (cs', m')" "cs = c # cs'"
  using assms by (auto simp: Let_def split: prod.splits)

lemma motu_run_first: "motu_midi_run P vs m = (cs, m') \<Longrightarrow> i < length cs \<Longrightarrow> cs ! i \<noteq> [] \<Longrightarrow> unat (mq_lock m) \<le> i + 1"
proof (induction vs arbitrary: m cs i)
  case (Cons v vs)
  obtain c m1 cs' where c: "motu_midi_frame P v m = (c, m1)" "motu_midi_run P vs m1 = (cs', m')" "cs = c # cs'"
    using Cons.prems(1) by (rule motu_run_Cons)
  show ?case using motu_frame_lock [OF c(1)] Cons.IH [OF c(2), of "i - 1"] Cons.prems(2,3) c(3) by (cases i) (auto split: if_splits)
qed simp

lemma motu_run_spaced:
  "motu_midi_run P vs m = (cs, m') \<Longrightarrow> i < j \<Longrightarrow> j < length cs \<Longrightarrow> cs ! i \<noteq> [] \<Longrightarrow> cs ! j \<noteq> [] \<Longrightarrow> i + unat P \<le> j"
proof (induction vs arbitrary: m cs i j)
  case (Cons v vs)
  obtain c m1 cs' where c: "motu_midi_frame P v m = (c, m1)" "motu_midi_run P vs m1 = (cs', m')" "cs = c # cs'"
    using Cons.prems(1) by (rule motu_run_Cons)
  obtain j' where j: "j = Suc j'" using Cons.prems(2) by (cases j) auto
  show ?case
  proof (cases i)
    case 0
    then have "mq_lock m1 = P" using motu_frame_lock [OF c(1)] Cons.prems(4) c(3) by simp
    then show ?thesis using motu_run_first [OF c(2), of j'] Cons.prems(3,5) c(3) j 0 by simp
  next
    case (Suc k)
    then show ?thesis using Cons.IH [OF c(2), of k j'] Cons.prems(2-5) c(3) j by simp
  qed
qed simp

lemma motu_run_order:
  assumes "motu_midi_run P vs m = (cs, m')" and "motu_queue_ok m" and "length (motu_queue m) + length (filter has_midi vs) \<le> 1023"
  shows "motu_queue_ok m' \<and> length cs = length vs
    \<and> map midi_byte_of (motu_queue m @ filter has_midi vs) = map (\<lambda>c. c ! 2) (filter (\<lambda>c. c \<noteq> []) cs) @ map midi_byte_of (motu_queue m')"
  using assms
proof (induction vs arbitrary: m cs)
  case (Cons v vs)
  obtain c m1 cs' where c: "motu_midi_frame P v m = (c, m1)" "motu_midi_run P vs m1 = (cs', m')" "cs = c # cs'"
    using Cons.prems(1) by (rule motu_run_Cons)
  have h: "has_midi v \<longrightarrow> length (motu_queue m) < 1023" using Cons.prems(3) by (auto split: if_splits)
  obtain xs where xs: "motu_queue m @ filter has_midi [v] = xs @ motu_queue m1" "length xs \<le> 1"
      "c = (if xs = [] then [] else [1, 0, midi_byte_of (hd xs)])"
    using motu_frame_queue(2) [OF c(1) Cons.prems(2) h] by blast
  have "length (motu_queue m1) + length (filter has_midi vs) \<le> 1023"
    using arg_cong [OF xs(1), of length] Cons.prems(3) by (auto split: if_splits)
  note IH = Cons.IH [OF c(2) motu_frame_queue(1) [OF c(1) Cons.prems(2) h] this]
  have "map midi_byte_of (motu_queue m @ filter has_midi (v # vs)) = map midi_byte_of xs @ map midi_byte_of (motu_queue m1 @ filter has_midi vs)"
    using arg_cong [OF xs(1), of "map midi_byte_of"] by (cases "has_midi v") simp_all
  moreover have "map (\<lambda>c. c ! 2) (filter (\<lambda>c. c \<noteq> []) cs) = map midi_byte_of xs @ map (\<lambda>c. c ! 2) (filter (\<lambda>c. c \<noteq> []) cs')"
    using xs(2,3) c(3) by (cases xs) auto
  ultimately show ?case using IH c(3) by simp
qed simp

text \<open>Frames that are at least \<open>P\<close> apart, counted in a window.\<close>

lemma spaced_card:
  fixes S :: "nat set"
  assumes "S \<subseteq> {k..<k + R}" and "\<And>i j. i \<in> S \<Longrightarrow> j \<in> S \<Longrightarrow> i < j \<Longrightarrow> i + P \<le> j" and "R \<le> N * P" and "0 < P"
  shows "card S \<le> N"
proof -
  let ?f = "\<lambda>i. (i - k) div P"
  have step: "?f i < ?f j" if "i \<in> S" "j \<in> S" "i < j" for i j
  proof -
    have "i + P \<le> j" "k \<le> i" using that assms(1,2) by auto
    then have "(i - k + P) div P \<le> (j - k) div P" by (intro div_le_mono) simp
    then show ?thesis using assms(4) by simp
  qed
  then have "inj_on ?f S" by (intro inj_onI) (metis less_irrefl linorder_neqE_nat)
  moreover have "?f ` S \<subseteq> {0..<N}"
  proof
    fix x assume "x \<in> ?f ` S"
    then obtain i where "i \<in> S" "x = ?f i" by blast
    moreover have "i - k < R" using assms(1) \<open>i \<in> S\<close> by force
    then have "i - k < N * P" using assms(3) by simp
    ultimately show "x \<in> {0..<N}" by (simp add: div_less_iff_less_mult assms(4))
  qed
  ultimately show ?thesis using card_inj_on_le [of ?f S "{0..<N}"] by simp
qed

lemma ceiling_3125:
  fixes r :: int
  assumes "0 < r"
  shows "r \<le> 3125 * \<lceil>of_int r / (3125 :: rat)\<rceil>" and "\<lceil>of_int r / (3125 :: rat)\<rceil> \<le> r"
proof -
  have "of_int r / 3125 \<le> (of_int \<lceil>of_int r / (3125 :: rat)\<rceil> :: rat)" by (rule le_of_int_ceiling)
  then have "(of_int r :: rat) \<le> 3125 * of_int \<lceil>of_int r / (3125 :: rat)\<rceil>" by linarith
  then have "(of_int r :: rat) \<le> of_int (3125 * \<lceil>of_int r / (3125 :: rat)\<rceil>)" by (simp only: of_int_mult of_int_numeral)
  then show "r \<le> 3125 * \<lceil>of_int r / (3125 :: rat)\<rceil>" by (simp only: of_int_le_iff)
  show "\<lceil>of_int r / (3125 :: rat)\<rceil> \<le> r" using assms by (simp add: ceiling_le_iff field_simps)
qed

lemma uint_of_int_small: "0 \<le> k \<Longrightarrow> k < 4294967296 \<Longrightarrow> uint (of_int k :: u32) = k"
  by (simp add: uint_word_of_int mod_pos_pos_trivial)

lemma motu_period_exact:
  assumes "fpa e = exact" and "0 < sint (m_nominal_framerate (spm e))"
  shows "nat (sint (m_nominal_framerate (spm e))) \<le> 3125 * unat (motu_midi_tx_period e)" and "0 < unat (motu_midi_tx_period e)"
proof -
  let ?r = "sint (m_nominal_framerate (spm e))" and ?c = "\<lceil>of_int (sint (m_nominal_framerate (spm e))) / (3125 :: rat)\<rceil>"
  have r: "?r < 2147483648" using sint_lt [of "m_nominal_framerate (spm e)"] by simp
  have ge: "?r \<le> 3125 * ?c" and "?c \<le> ?r" using ceiling_3125 [OF assms(2)] by simp_all
  then have u: "uint (of_int ?c :: u32) = ?c" by (intro uint_of_int_small) (use r ge assms(2) in linarith)+
  then have "unat (motu_midi_tx_period e) = nat ?c" using assms(1) by (simp add: motu_midi_tx_period_def unat_eq_nat_uint)
  then show "nat ?r \<le> 3125 * unat (motu_midi_tx_period e)" "0 < unat (motu_midi_tx_period e)" using ge assms(2) by linarith+
qed



section \<open>Control values\<close>

definition bus_ok :: "mix_bus \<Rightarrow> bool" where
  "bus_ok b \<longleftrightarrow> length (channel_gain b) = 20 \<and> length (channel_pan b) = 20 \<and> length (channel_control b) = 20"

definition ctrl_ok :: "motu_dev_controls \<Rightarrow> bool" where
  "ctrl_ok c \<longleftrightarrow> length (mixbus c) = 4 \<and> (\<forall>b\<in>set (mixbus c). bus_ok b) \<and> unat (n_mixbuses c) \<le> 4
     \<and> (dc_status c = MOTU_DEVCTRL_INIT \<or> dc_status c = MOTU_DEVCTRL_VALID \<longrightarrow> unat (mixbus_index c) < 4)"

lemma cleared_ok: "ctrl_ok cleared_controls"
  by (simp add: ctrl_ok_def cleared_controls_def MOTUFW_MAX_MIXBUSES_def bus_ok_def cleared_bus_def)

lemma ctrl_sync_ok: "ctrl_ok c \<Longrightarrow> ctrl_ok (ctrl_sync key arg c)"
  by (cases "dc_status c") (auto simp: ctrl_ok_def ctrl_sync_def)

lemma ctrl_bus_ok:
  assumes "ctrl_ok c" and "unat (mixbus_index c) < 4" and "\<And>b. bus_ok b \<Longrightarrow> bus_ok (f b)"
  shows "\<exists>c'. ctrl_bus f c = Some c' \<and> ctrl_ok c'"
proof -
  have "bus_ok (f (mixbus c ! unat (mixbus_index c)))" using assms by (auto simp: ctrl_ok_def)
  then show ?thesis using assms(1,2) by (auto simp: ctrl_bus_def Let_def ctrl_ok_def dest: set_update_subset_insert [THEN subsetD])
qed

lemma ctrl_put_length [simp]: "length (ctrl_put xs i arg) = length xs"
  by (simp add: ctrl_put_def)

lemma unat_bus: "unat (drop_bit 5 arg :: u8) = unat arg div 32"
  by (simp add: drop_bit_eq_div unat_div)

lemma ctrl_seq_sync_ok:
  assumes "ctrl_ok c" and "arg < 0x80"
  shows "ctrl_ok (ctrl_seq_sync arg c)"
proof -
  have k: "unat (drop_bit 5 arg) < 4"
    using assms(2) by (simp add: unat_bus word_less_nat_alt div_less_iff_less_mult)
  then have "unat (drop_bit 5 arg + 1) \<le> 4" by (simp add: unat_word_ariths)
  moreover have "bus_ok ((mixbus c ! unat (drop_bit 5 arg))\<lparr>channel_gain_index := 0, channel_pan_index := 0, channel_control_index := 0\<rparr>)"
    using assms(1) k by (auto simp: ctrl_ok_def bus_ok_def)
  ultimately show ?thesis using assms(1) k
    by (auto simp: ctrl_seq_sync_def Let_def ctrl_ok_def MOTUFW_MAX_MIXBUSES_def dest: set_update_subset_insert [THEN subsetD])
qed

lemma ctrl_key_ok:
  assumes "ctrl_ok c" and "dc_status c = MOTU_DEVCTRL_INIT \<or> dc_status c = MOTU_DEVCTRL_VALID"
    and "key = MOTU_KEY_SEQ_SYNC \<longrightarrow> arg < 0x80"
  shows "\<exists>c'. ctrl_key key arg c = Some c' \<and> ctrl_ok c'"
proof -
  have k: "unat (mixbus_index c) < 4" using assms(1,2) by (simp add: ctrl_ok_def)
  note bus = ctrl_bus_ok [OF assms(1) k]
  show ?thesis
    using assms(1,3) k ctrl_seq_sync_ok [OF assms(1)]
      bus [of "\<lambda>b. b\<lparr>channel_gain_index := channel_gain_index b + 1, channel_gain := ctrl_put (channel_gain b) (channel_gain_index b) arg\<rparr>"]
      bus [of "\<lambda>b. b\<lparr>channel_pan_index := channel_pan_index b + 1, channel_pan := ctrl_put (channel_pan b) (channel_pan_index b) arg\<rparr>"]
      bus [of "\<lambda>b. b\<lparr>channel_control_index := channel_control_index b + 1, channel_control := ctrl_put (channel_control b) (channel_control_index b) arg\<rparr>"]
      bus [of "\<lambda>b. b\<lparr>bus_gain := arg\<rparr>"] bus [of "\<lambda>b. b\<lparr>bus_dest := arg\<rparr>"]
    by (simp add: ctrl_key_def bus_ok_def MOTUFW_MAX_MIXBUSES_def) (simp add: ctrl_ok_def)
qed

lemma ctrl_event_ok:
  assumes "ctrl_ok c" and "src AND NOT 1 = MOTU_KEY_SEQ_SYNC \<longrightarrow> arg < 0x80"
  shows "\<exists>c'. ctrl_event src arg c = Some c' \<and> ctrl_ok c'"
  using ctrl_key_ok [OF ctrl_sync_ok [OF assms(1)]] ctrl_sync_ok [OF assms(1)] assms(2) by (simp add: ctrl_event_def Let_def)

text \<open>
  C36. The control values stay inside their tables if the device behaves. As long as no event selects a mix bus
  beyond the fourth, any sequence of events is parsed and keeps the tables well-formed. After an event that
  selects a later bus the index is only reported, and the next channel value is counted in memory behind the
  table.
\<close>

theorem motu_controls_bounds:
  assumes "ctrl_ok c"
  shows "((\<forall>(src, arg)\<in>set evs. src AND NOT 1 = MOTU_KEY_SEQ_SYNC \<longrightarrow> arg < 0x80) \<longrightarrow>
        (\<exists>c'. ctrl_events evs c = Some c' \<and> ctrl_ok c'))
    \<and> (dc_status c = MOTU_DEVCTRL_VALID \<and> 0x80 \<le> arg \<and> key \<in> {MOTU_KEY_CHANNEL_GAIN, MOTU_KEY_CHANNEL_PAN, MOTU_KEY_CHANNEL_CTRL} \<longrightarrow>
        ctrl_events [(MOTU_KEY_SEQ_SYNC, arg), (key, v)] c = None)"
proof (intro conjI impI)
  assume "\<forall>(src, arg)\<in>set evs. src AND NOT 1 = MOTU_KEY_SEQ_SYNC \<longrightarrow> arg < 0x80"
  with assms show "\<exists>c'. ctrl_events evs c = Some c' \<and> ctrl_ok c'"
  proof (induction evs arbitrary: c)
    case (Cons ev evs)
    obtain src arg where ev: "ev = (src, arg)" by (cases ev)
    have "src AND NOT 1 = MOTU_KEY_SEQ_SYNC \<longrightarrow> arg < 0x80" using Cons.prems(2) ev by auto
    then obtain c1 where "ctrl_event src arg c = Some c1" "ctrl_ok c1" using ctrl_event_ok [OF Cons.prems(1)] by blast
    then show ?case using Cons.IH [of c1] Cons.prems(2) ev by auto
  qed simp
next
  assume a: "dc_status c = MOTU_DEVCTRL_VALID \<and> 0x80 \<le> arg \<and> key \<in> {MOTU_KEY_CHANNEL_GAIN, MOTU_KEY_CHANNEL_PAN, MOTU_KEY_CHANNEL_CTRL}"
  have k: "4 \<le> unat (drop_bit 5 arg)"
    using a by (simp add: unat_bus word_le_nat_alt less_eq_div_iff_mult_less_eq)
  let ?c = "ctrl_seq_sync arg c"
  have c: "dc_status ?c = MOTU_DEVCTRL_VALID" "mixbus_index ?c = drop_bit 5 arg" "length (mixbus ?c) = 4"
    using a assms k by (auto simp: ctrl_seq_sync_def Let_def ctrl_ok_def)
  have "ctrl_event MOTU_KEY_SEQ_SYNC arg c = Some ?c"
    using a by (simp add: ctrl_event_def Let_def ctrl_sync_def ctrl_key_def MOTU_KEY_SEQ_SYNC_def)
  moreover have "ctrl_event key v ?c = None"
    using a c k by (auto simp: ctrl_event_def Let_def ctrl_sync_def ctrl_key_def ctrl_bus_def motu_keys)
  ultimately show "ctrl_events [(MOTU_KEY_SEQ_SYNC, arg), (key, v)] c = None" by simp
qed

theorem motu_controls_bounds_witness:
  "(\<exists>c'. ctrl_events [(0x0c, 0), (0x14, 5), (0x0c, 0x20), (0x14, 6), (0x0c, 0)] cleared_controls = Some c' \<and> ctrl_ok c')
   \<and> ctrl_events [(MOTU_KEY_SEQ_SYNC, 0x80), (MOTU_KEY_CHANNEL_GAIN, 1)] (cleared_controls\<lparr>dc_status := MOTU_DEVCTRL_VALID\<rparr>) = None"
proof -
  have "ctrl_ok (cleared_controls\<lparr>dc_status := MOTU_DEVCTRL_VALID\<rparr>)"
    by (simp add: ctrl_ok_def cleared_controls_def MOTUFW_MAX_MIXBUSES_def bus_ok_def cleared_bus_def)
  from motu_controls_bounds [where arg = "0x80" and key = MOTU_KEY_CHANNEL_GAIN and v = 1, OF this, THEN conjunct2]
    motu_controls_bounds [where evs = "[(0x0c, 0), (0x14, 5), (0x0c, 0x20), (0x14, 6), (0x0c, 0)]", OF cleared_ok, THEN conjunct1]
  show ?thesis by simp
qed

section \<open>Samples\<close>

text \<open>The low 24 bits of a word as a signed number of 32 bits.\<close>

definition sign_24 :: "u32 \<Rightarrow> u32" where
  "sign_24 v = (if bit v 23 then v OR 0xff000000 else v AND 0x00ffffff)"

lemma three_bytes:
  fixes x y z :: u8
  shows "push_bit 16 (ucast x) + push_bit 8 (ucast y) + ucast z = (push_bit 16 (ucast x) OR push_bit 8 (ucast y) OR ucast z :: u32)"
proof -
  have "push_bit 16 (ucast x) AND push_bit 8 (ucast y) = (0 :: u32)" by (rule word_eq_bits) (simp add: word_bits_simps)
  then have "push_bit 16 (ucast x) + push_bit 8 (ucast y) = (push_bit 16 (ucast x) OR push_bit 8 (ucast y) :: u32)"
    by (rule disjunctive_add_eq_or)
  moreover have "(push_bit 16 (ucast x) OR push_bit 8 (ucast y)) AND ucast z = (0 :: u32)" by (rule word_eq_bits) (simp add: word_bits_simps)
  ultimately show ?thesis by (simp add: disjunctive_add_eq_or or.assoc)
qed

lemma motu_sample_roundtrip: "motu_sample (motu_bytes v) = sign_24 v"
proof -
  have "motu_bytes v ! 0 AND 2 ^ 7 \<noteq> 0 \<longleftrightarrow> bit (motu_bytes v ! 0) 7" by (simp only: and_exp_eq_0_iff_not_bit not_not)
  then have s: "motu_bytes v ! 0 AND 0x80 \<noteq> 0 \<longleftrightarrow> bit v 23" by (simp add: motu_bytes_def word_bits_simps bit_simps)
  have "push_bit 16 (ucast (motu_bytes v ! 0)) + push_bit 8 (ucast (motu_bytes v ! 1)) + ucast (motu_bytes v ! 2) = v AND 0x00ffffff"
    unfolding three_bytes by (rule word_eq_bits) (simp add: motu_bytes_def word_bits_simps)
  moreover have "v AND 0x00ffffff OR 0xff000000 = v OR 0xff000000" by (rule word_eq_bits) (simp add: word_bits_simps)
  ultimately show ?thesis by (simp add: motu_sample_def sign_24_def Let_def s)
qed

text \<open>A port that a block of \<open>nevents\<close> frames can be read from or written to.\<close>

definition motu_port_ok :: "u32 \<Rightarrow> (nat \<Rightarrow> motu_port_info option) \<Rightarrow> u32 \<Rightarrow> u32 \<Rightarrow> port \<Rightarrow> bool" where
  "motu_port_ok es info offset nevents p \<longleftrightarrow>
     (case info (p_addr p) of
        None \<Rightarrow> False
      | Some i \<Rightarrow> 0 \<le> sint (mp_position i) \<and> sint (mp_position i) + 3 \<le> uint es)
     \<and> (\<not> m_disabled p \<longrightarrow> nevents + offset \<le> m_buffersize p
          \<and> (case m_buffer p of Some (Quadlets xs) \<Rightarrow> unat offset + unat nevents \<le> length xs | _ \<Rightarrow> False))"

definition motu_pos :: "(nat \<Rightarrow> motu_port_info option) \<Rightarrow> port \<Rightarrow> int" where
  "motu_pos info p = sint (mp_position (the (info (p_addr p))))"

text \<open>What a port sends: silence when it is disabled, otherwise the samples of its buffer.\<close>

definition motu_sends :: "u32 \<Rightarrow> u32 \<Rightarrow> port \<Rightarrow> u32 list" where
  "motu_sends offset nevents p =
     (if m_disabled p then replicate (unat nevents) 0 else the (buffer_quadlets (m_buffer p) (unat offset) (unat nevents)))"

lemma port_ok_samples:
  assumes "motu_port_ok es info offset nevents p"
  shows "\<exists>i. info (p_addr p) = Some i \<and> sint (mp_position i) = motu_pos info p" "0 \<le> motu_pos info p" "motu_pos info p + 3 \<le> uint es"
    and "\<not> m_disabled p \<Longrightarrow> nevents + offset \<le> m_buffersize p"
    and "\<not> m_disabled p \<Longrightarrow> buffer_quadlets (m_buffer p) (unat offset) (unat nevents) = Some (motu_sends offset nevents p)"
    and "length (motu_sends offset nevents p) = unat nevents"
  using assms by (auto simp: motu_port_ok_def motu_pos_def motu_sends_def buffer_quadlets_def split: option.splits port_buffer.splits)

lemma column_fits:
  assumes "0 \<le> k" and "k + 3 \<le> w" and "j < n" and "int (length d) = int n * w"
  shows "0 \<le> k + int j * w" and "k + int j * w + 3 \<le> int (length d)"
proof -
  have "(int j + 1) * w \<le> int n * w" using assms by (intro mult_right_mono) simp_all
  then show "k + int j * w + 3 \<le> int (length d)" using assms unfolding distrib_right by simp
  show "0 \<le> k + int j * w" using assms by (simp add: order_trans [OF assms(1)])
qed

definition in_motu_column :: "int \<Rightarrow> int \<Rightarrow> nat \<Rightarrow> nat \<Rightarrow> bool" where
  "in_motu_column k w n b \<longleftrightarrow> (\<exists>j<n. k + int j * w \<le> int b \<and> int b < k + int j * w + 3)"

lemma store_column:
  assumes "0 \<le> k" and "k + 3 \<le> w" and "length cs = n" and "int (length d) = int n * w" and "\<forall>c\<in>set cs. c = [] \<or> length c = 3"
  shows "\<exists>d'. store_frames d k w cs = Some d' \<and> length d' = length d \<and> (\<forall>b<length d. \<not> in_motu_column k w n b \<longrightarrow> d' ! b = d ! b)
    \<and> (\<forall>j<n. cs ! j \<noteq> [] \<longrightarrow> bytes_at d' (k + int j * w) 3 = Some (cs ! j))"
proof -
  have c: "cs ! j = [] \<or> length (cs ! j) = 3" if "j < n" for j using that assms(3,5) by auto
  have "store_frames d k w cs \<noteq> None"
  proof (rule store_frames_Some, intro allI impI)
    fix j assume "j < length cs" "cs ! j \<noteq> []"
    then show "0 \<le> k + int j * w \<and> k + int j * w + int (length (cs ! j)) \<le> int (length d)"
      using column_fits [OF assms(1,2) _ assms(4), of j] c [of j] assms(3) by auto
  qed
  then obtain d' where d': "store_frames d k w cs = Some d'" by auto
  moreover have "\<forall>b<length d. \<not> in_motu_column k w n b \<longrightarrow> d' ! b = d ! b"
  proof (intro allI impI)
    fix b assume b: "b < length d" "\<not> in_motu_column k w n b"
    show "d' ! b = d ! b"
    proof (rule store_frames_other [OF d' b(1)], intro allI impI)
      fix j assume "j < length cs"
      then show "\<not> (k + int j * w \<le> int b \<and> int b < k + int j * w + int (length (cs ! j)))"
        using b(2) c [of j] assms(3) by (auto simp: in_motu_column_def)
    qed
  qed
  moreover have "\<forall>j<n. cs ! j \<noteq> [] \<longrightarrow> bytes_at d' (k + int j * w) 3 = Some (cs ! j)"
  proof (intro allI impI)
    fix j assume j: "j < n" "cs ! j \<noteq> []"
    have "\<forall>c\<in>set cs. int (length c) \<le> w" using assms(1,2,5) by fastforce
    then show "bytes_at d' (k + int j * w) 3 = Some (cs ! j)" using store_frames_bytes [OF d', of j] j c [of j] assms(3) by simp
  qed
  ultimately show ?thesis using store_frames_length [OF d'] by blast
qed

lemma motu_run_chunks: "motu_midi_run P vs m = (cs, m') \<Longrightarrow> length cs = length vs \<and> (\<forall>c\<in>set cs. c = [] \<or> length c = 3)"
proof (induction vs arbitrary: m cs)
  case (Cons v vs)
  obtain c m1 cs' where c: "motu_midi_frame P v m = (c, m1)" "motu_midi_run P vs m1 = (cs', m')" "cs = c # cs'"
    using Cons.prems by (rule motu_run_Cons)
  have "c = [] \<or> length c = 3" using c(1) by (auto simp: motu_midi_frame_def Let_def split: if_splits)
  then show ?case using Cons.IH [OF c(2)] c(3) by auto
qed simp

lemma motu_write_port_effect:
  assumes "motu_port_ok es info offset nevents p" and "int (length d) = int (unat nevents) * uint es" and "m_audio_datatype (spm e) = eADT_Int24"
  shows "\<exists>d' m'. motu_write_port e period es info offset nevents p d m = Some (d', m') \<and> length d' = length d
    \<and> (\<forall>b<length d. \<not> in_motu_column (motu_pos info p) (uint es) (unat nevents) b \<longrightarrow> d' ! b = d ! b)
    \<and> (m_disabled p \<or> m_PortType p = E_Audio \<longrightarrow>
        (\<forall>j<unat nevents. bytes_at d' (motu_pos info p + int j * uint es) 3 = Some (motu_bytes (motu_sends offset nevents p ! j))))"
proof -
  note ok = port_ok_samples [OF assms(1)]
  obtain i where i: "info (p_addr p) = Some i" "sint (mp_position i) = motu_pos info p" using ok(1) by blast
  note st = store_column [OF ok(2,3) _ assms(2)]
  have sent: "\<exists>d'. store_frames d (motu_pos info p) (uint es) (map motu_bytes (motu_sends offset nevents p)) = Some d' \<and> length d' = length d
    \<and> (\<forall>b<length d. \<not> in_motu_column (motu_pos info p) (uint es) (unat nevents) b \<longrightarrow> d' ! b = d ! b)
    \<and> (\<forall>j<unat nevents. bytes_at d' (motu_pos info p + int j * uint es) 3 = Some (motu_bytes (motu_sends offset nevents p ! j)))"
    using st [of "map motu_bytes (motu_sends offset nevents p)"] ok(6) by (auto simp: motu_bytes_def)
  consider "m_disabled p" | "\<not> m_disabled p" "m_PortType p = E_Audio" | "\<not> m_disabled p" "m_PortType p = E_Midi"
    | "\<not> m_disabled p" "m_PortType p = E_Control" by (cases "m_PortType p") auto
  then show ?thesis
  proof cases
    case 1
    have "map motu_bytes (motu_sends offset nevents p) = replicate (unat nevents) [0, 0, 0]"
      using 1 by (simp add: motu_sends_def motu_bytes_def)
    then show ?thesis using 1 sent i by (auto simp: motu_write_port_def encodeSilencePortToMotuEvents_def)
  next
    case 2
    then show ?thesis using sent i ok(4,5) assms(3) by (auto simp: motu_write_port_def encodePortToMotuEvents_def)
  next
    case 3
    obtain cs m' where r: "motu_midi_run period (motu_sends offset nevents p) m = (cs, m')" by (metis surj_pair)
    then show ?thesis using 3 i ok(5,6) st [of cs] motu_run_chunks [OF r] by (auto simp: motu_write_port_def encodePortToMotuMidiEvents_def)
  next
    case 4
    then show ?thesis by (simp add: motu_write_port_def)
  qed
qed

lemma columns_disjoint:
  assumes "in_motu_column k w n b" and "in_motu_column k' w n' b" and "0 \<le> k" "k + 3 \<le> w" "0 \<le> k'" "k' + 3 \<le> w"
  shows "\<bar>k - k'\<bar> < 3"
proof -
  obtain i j where i: "k + int i * w \<le> int b" "int b < k + int i * w + 3" and j: "k' + int j * w \<le> int b" "int b < k' + int j * w + 3"
    using assms(1,2) by (auto simp: in_motu_column_def)
  have less: "(int x + 1) * w \<le> int y * w" if "x < y" for x y using that assms(3,4) by (intro mult_right_mono) simp_all
  have "i = j"
  proof (rule ccontr)
    assume "i \<noteq> j"
    then consider "i < j" | "j < i" by linarith
    then show False
      using i j assms(3-6) less [of i j] less [of j i] unfolding distrib_right by cases linarith+
  qed
  then show ?thesis using i j by simp
qed

definition motu_separate :: "(nat \<Rightarrow> motu_port_info option) \<Rightarrow> port list \<Rightarrow> bool" where
  "motu_separate info ports \<longleftrightarrow> sorted_wrt (\<lambda>p q. 3 \<le> \<bar>motu_pos info p - motu_pos info q\<bar>) ports"

lemma motu_write_ports_effect:
  assumes "\<forall>p\<in>set ports. motu_port_ok es info offset nevents p" and "motu_separate info ports"
    and "int (length d) = int (unat nevents) * uint es" and "m_audio_datatype (spm e) = eADT_Int24"
  shows "\<exists>d' m'. motu_write_ports e period es info offset nevents ports (d, m) = Some (d', m') \<and> length d' = length d
    \<and> (\<forall>b<length d. (\<forall>p\<in>set ports. \<not> in_motu_column (motu_pos info p) (uint es) (unat nevents) b) \<longrightarrow> d' ! b = d ! b)
    \<and> (\<forall>p\<in>set ports. m_disabled p \<or> m_PortType p = E_Audio \<longrightarrow>
        (\<forall>j<unat nevents. bytes_at d' (motu_pos info p + int j * uint es) 3 = Some (motu_bytes (motu_sends offset nevents p ! j))))"
  using assms
proof (induction ports arbitrary: d m)
  case (Cons p ports)
  let ?n = "unat nevents" and ?w = "uint es"
  obtain d1 m1 where 1: "motu_write_port e period es info offset nevents p d m = Some (d1, m1)" "length d1 = length d"
      "\<forall>b<length d. \<not> in_motu_column (motu_pos info p) ?w ?n b \<longrightarrow> d1 ! b = d ! b"
      "m_disabled p \<or> m_PortType p = E_Audio \<longrightarrow>
        (\<forall>j<?n. bytes_at d1 (motu_pos info p + int j * ?w) 3 = Some (motu_bytes (motu_sends offset nevents p ! j)))"
    using motu_write_port_effect [of es info offset nevents p d e period m] Cons.prems by auto
  have prems: "\<forall>p\<in>set ports. motu_port_ok es info offset nevents p" "motu_separate info ports" "int (length d1) = int ?n * ?w"
    using Cons.prems 1(2) by (simp_all add: motu_separate_def)
  obtain d' m' where 2: "motu_write_ports e period es info offset nevents ports (d1, m1) = Some (d', m')" "length d' = length d1"
      "\<forall>b<length d1. (\<forall>p\<in>set ports. \<not> in_motu_column (motu_pos info p) ?w ?n b) \<longrightarrow> d' ! b = d1 ! b"
      "\<forall>p\<in>set ports. m_disabled p \<or> m_PortType p = E_Audio \<longrightarrow>
        (\<forall>j<?n. bytes_at d' (motu_pos info p + int j * ?w) 3 = Some (motu_bytes (motu_sends offset nevents p ! j)))"
    using Cons.IH [OF prems Cons.prems(4), of m1] by blast
  have keep: "bytes_at d' (motu_pos info p + int j * ?w) 3 = bytes_at d1 (motu_pos info p + int j * ?w) 3" if "j < ?n" for j
  proof (rule bytes_at_cong [OF 2(2)])
    fix b assume b: "b < length d1" "motu_pos info p + int j * ?w \<le> int b" "int b < motu_pos info p + int j * ?w + int 3"
    then have col: "in_motu_column (motu_pos info p) ?w ?n b" using that by (auto simp: in_motu_column_def)
    have "\<not> in_motu_column (motu_pos info q) ?w ?n b" if q: "q \<in> set ports" for q
    proof
      assume "in_motu_column (motu_pos info q) ?w ?n b"
      from columns_disjoint [OF col this] have "\<bar>motu_pos info p - motu_pos info q\<bar> < 3"
        using port_ok_samples(2,3) [of es info offset nevents p] port_ok_samples(2,3) [of es info offset nevents q] Cons.prems(1) q by simp
      moreover have "3 \<le> \<bar>motu_pos info p - motu_pos info q\<bar>" using Cons.prems(2) q by (simp add: motu_separate_def)
      ultimately show False by simp
    qed
    then show "d' ! b = d1 ! b" using 2(3) b(1) by blast
  qed
  show ?case using 1 2 keep by auto
qed simp

lemma bytes_in_column:
  assumes "motu_port_ok es info offset nevents p" and "int (length d) = int (unat nevents) * uint es" and "j < unat nevents"
  shows "bytes_at d (motu_pos info p + int j * uint es) 3 \<noteq> None"
  using column_fits [OF port_ok_samples(2,3) [OF assms(1)] assms(3,2)] by (auto simp: bytes_at_def)

lemma motu_midi_frames_total:
  "\<forall>j\<in>set js. ev j \<noteq> None \<Longrightarrow> \<exists>f' outs. motu_midi_frames ev js f = Some (f', outs) \<and> length outs = length js"
proof (induction js arbitrary: f)
  case (Cons j js)
  obtain b where b: "ev j = Some b" using Cons.prems by auto
  let ?f = "if b ! 0 AND 0x01 = 0x01 then midi_put (0x01000000 OR ucast (b ! 2)) f else f"
  obtain out f1 where o: "(if j mod 8 = 0 then midi_take ?f else (0, ?f)) = (out, f1)" by (metis surj_pair)
  have "\<forall>j\<in>set js. ev j \<noteq> None" using Cons.prems by simp
  from Cons.IH [OF this, of f1] show ?case using b o by (auto simp del: split_paired_Ex)
qed (simp del: split_paired_Ex)

lemma stored_quadlets:
  assumes "motu_port_ok es info offset nevents p" and "\<not> m_disabled p" and "length vs = unat nevents"
  shows "\<exists>b. store_quadlets (m_buffer p) (unat offset) vs = Some b \<and> buffer_quadlets (Some b) (unat offset) (unat nevents) = Some vs"
  using assms by (auto simp: motu_port_ok_def store_quadlets_def store_at_def buffer_quadlets_def split: option.splits port_buffer.splits)

lemma motu_read_port_effect:
  assumes "motu_port_ok es info offset nevents p" and "int (length d) = int (unat nevents) * uint es" and "m_audio_datatype (spm e) = eADT_Int24"
  shows "\<exists>p' f'. motu_read_port e es info d offset nevents p f = Some (p', f')
    \<and> (\<not> m_disabled p \<and> m_PortType p = E_Audio \<longrightarrow> buffer_quadlets (m_buffer p') (unat offset) (unat nevents)
         = Some (map (\<lambda>j. motu_sample (the (bytes_at d (motu_pos info p + int j * uint es) 3))) [0..<unat nevents]))
    \<and> (m_disabled p \<or> m_PortType p = E_Control \<longrightarrow> p' = p)"
proof -
  note ok = port_ok_samples [OF assms(1)]
  obtain i where i: "info (p_addr p) = Some i" "sint (mp_position i) = motu_pos info p" using ok(1) by blast
  note total = bytes_in_column [OF assms(1,2)]
  consider "m_disabled p \<or> m_PortType p = E_Control" | "\<not> m_disabled p" "m_PortType p = E_Audio" | "\<not> m_disabled p" "m_PortType p = E_Midi"
    by (cases "m_PortType p") auto
  then show ?thesis
  proof cases
    case 1
    then show ?thesis by (auto simp: motu_read_port_def simp del: split_paired_Ex)
  next
    case 2
    let ?vs = "map (\<lambda>j. the (bytes_at d (motu_pos info p + int j * uint es) 3)) [0..<unat nevents]"
    have "motu_samples d es i (unat nevents) = Some ?vs"
      unfolding motu_samples_def i(2) those_eq_Some using total by (auto intro!: nth_equalityI)
    moreover obtain b where "store_quadlets (m_buffer p) (unat offset) (map motu_sample ?vs) = Some b"
        "buffer_quadlets (Some b) (unat offset) (unat nevents) = Some (map motu_sample ?vs)"
      using stored_quadlets [OF assms(1) 2(1), of "map motu_sample ?vs"] by auto
    ultimately show ?thesis using 2 i ok(4) assms(3) by (auto simp: motu_read_port_def decodeMotuEventsToPort_def comp_def simp del: split_paired_Ex)
  next
    case 3
    have "\<forall>j\<in>set [0..<unat nevents]. bytes_at d (motu_pos info p + int j * uint es) 3 \<noteq> None" using total by simp
    then obtain f' outs where "motu_midi_frames (\<lambda>j. bytes_at d (motu_pos info p + int j * uint es) 3) [0..<unat nevents] f = Some (f', outs)"
        "length outs = unat nevents"
      using motu_midi_frames_total [of "[0..<unat nevents]" "\<lambda>j. bytes_at d (motu_pos info p + int j * uint es) 3" f] by auto
    moreover from this(2) obtain b where "store_quadlets (m_buffer p) (unat offset) outs = Some b"
      using stored_quadlets [OF assms(1) 3(1)] by blast
    ultimately show ?thesis using 3 i ok(4) by (auto simp: motu_read_port_def decodeMotuMidiEventsToPort_def simp del: split_paired_Ex)
  qed
qed

lemma motu_read_ports_effect:
  assumes "\<forall>p\<in>set ports. motu_port_ok es info offset nevents p" and "int (length d) = int (unat nevents) * uint es"
    and "m_audio_datatype (spm e) = eADT_Int24"
  shows "\<exists>ports' f'. motu_read_ports e es info d offset nevents ports f = Some (ports', f') \<and> length ports' = length ports
    \<and> (\<forall>k<length ports. (\<not> m_disabled (ports ! k) \<and> m_PortType (ports ! k) = E_Audio \<longrightarrow>
          buffer_quadlets (m_buffer (ports' ! k)) (unat offset) (unat nevents)
            = Some (map (\<lambda>j. motu_sample (the (bytes_at d (motu_pos info (ports ! k) + int j * uint es) 3))) [0..<unat nevents]))
        \<and> (m_disabled (ports ! k) \<or> m_PortType (ports ! k) = E_Control \<longrightarrow> ports' ! k = ports ! k))"
  using assms(1)
proof (induction ports arbitrary: f)
  case (Cons p ports)
  obtain p' f1 where 1: "motu_read_port e es info d offset nevents p f = Some (p', f1)"
      "\<not> m_disabled p \<and> m_PortType p = E_Audio \<longrightarrow> buffer_quadlets (m_buffer p') (unat offset) (unat nevents)
         = Some (map (\<lambda>j. motu_sample (the (bytes_at d (motu_pos info p + int j * uint es) 3))) [0..<unat nevents])"
      "m_disabled p \<or> m_PortType p = E_Control \<longrightarrow> p' = p"
    using motu_read_port_effect [of es info offset nevents p d e f] Cons.prems assms(2,3) by auto
  obtain ports' f' where "motu_read_ports e es info d offset nevents ports f1 = Some (ports', f')" "length ports' = length ports"
      "\<forall>k<length ports. (\<not> m_disabled (ports ! k) \<and> m_PortType (ports ! k) = E_Audio \<longrightarrow>
          buffer_quadlets (m_buffer (ports' ! k)) (unat offset) (unat nevents)
            = Some (map (\<lambda>j. motu_sample (the (bytes_at d (motu_pos info (ports ! k) + int j * uint es) 3))) [0..<unat nevents]))
        \<and> (m_disabled (ports ! k) \<or> m_PortType (ports ! k) = E_Control \<longrightarrow> ports' ! k = ports ! k)"
    using Cons.IH [of f1] Cons.prems by auto
  then show ?case using 1 by (auto simp: nth_Cons split: nat.splits simp del: split_paired_Ex)
qed (simp del: split_paired_Ex)

text \<open>
  C11. Audio survives the bus to and from a MOTU: writing a block of frames succeeds, and a processor with the same event size that
  reads the block (and can parse its control bytes) puts into the buffer of an enabled port the sign-extended low 24 bits of the samples
  of the sending port with the same position, or zeroes when that port is disabled. The ports of the sender must lie
  inside the frame, at least three bytes apart; MIDI ports may be among them.
\<close>

theorem motu_audio_roundtrip:
  fixes s :: "'m motu_transmit_scheme" and r :: "'n motu_receive_scheme"
  assumes "m_audio_datatype (spm e) = eADT_Int24" and "m_audio_datatype (spm e') = eADT_Int24"
    and "mo_event_size r = mo_event_size s" and "10 \<le> uint (mo_event_size s)"
    and "\<forall>p\<in>set (m_Ports s). motu_port_ok (mo_event_size s) (mo_info s) offset nevents p" and "motu_separate (mo_info s) (m_Ports s)"
    and "\<forall>q\<in>set (m_Ports r). motu_port_ok (mo_event_size s) (mo_info r) offset' nevents q"
    and "p \<in> set (m_Ports s)" and "m_disabled p \<or> m_PortType p = E_Audio"
    and "k < length (m_Ports r)" and "\<not> m_disabled (m_Ports r ! k)" and "m_PortType (m_Ports r ! k) = E_Audio"
    and "motu_pos (mo_info r) (m_Ports r ! k) = motu_pos (mo_info s) p"
  shows "\<exists>data s'. motu_processWriteBlock e nevents offset s = Some (True, data, s')
    \<and> (mo_motu_model r = MOTU_MODEL_828MkI \<or> decodeMotuCtrlEvents data (mo_event_size s) nevents (mr_devctrls r) \<noteq> None \<longrightarrow>
        (\<exists>r'. motu_processReadBlock e' data nevents offset' r = Some (True, r')
           \<and> buffer_quadlets (m_buffer (m_Ports r' ! k)) (unat offset') (unat nevents) = Some (map sign_24 (motu_sends offset nevents p))))"
proof -
  let ?n = "unat nevents" and ?w = "uint (mo_event_size s)" and ?q = "m_Ports r ! k"
  let ?m = "\<lparr>mq_buffer = mt_midibuffer s, mq_head = mt_mb_head s, mq_tail = mt_mb_tail s, mq_lock = mt_midi_lock s\<rparr> :: motu_midi"
  define d0 where "d0 = map (fresh e) [0..<?n * unat (mo_event_size s)]"
  have l0: "int (length d0) = int ?n * ?w" by (simp add: d0_def)
  have "store_frames d0 4 ?w (replicate ?n (replicate 6 0)) \<noteq> None"
  proof (rule store_frames_Some, intro allI impI)
    fix j assume j: "j < length (replicate ?n (replicate 6 (0 :: u8)))"
    then have "int j + 1 \<le> int ?n" unfolding length_replicate by linarith
    from mult_right_mono [OF this uint_ge_0 [of "mo_event_size s"]] show "0 \<le> 4 + int j * ?w \<and> 4 + int j * ?w + int (length (replicate ?n (replicate 6 (0 :: u8)) ! j)) \<le> int (length d0)"
      using j assms(4) unfolding l0 distrib_right by simp
  qed
  then obtain d1 where d1: "store_frames d0 4 ?w (replicate ?n (replicate 6 0)) = Some d1" by auto
  have l1: "int (length d1) = int ?n * ?w" using store_frames_length [OF d1] l0 by simp
  obtain d m where w: "motu_write_ports e (mt_midi_tx_period s) (mo_event_size s) (mo_info s) offset nevents (m_Ports s) (d1, ?m) = Some (d, m)"
      "length d = length d1" "\<forall>j<?n. bytes_at d (motu_pos (mo_info s) p + int j * ?w) 3 = Some (motu_bytes (motu_sends offset nevents p ! j))"
    using motu_write_ports_effect [OF assms(5,6) l1 assms(1), of "mt_midi_tx_period s" ?m] assms(8,9) by blast
  have "\<exists>s'. motu_processWriteBlock e nevents offset s = Some (True, d, s')"
    using d1 w(1) by (simp add: motu_processWriteBlock_def Let_def flip: d0_def)
  moreover have "\<exists>r'. motu_processReadBlock e' d nevents offset' r = Some (True, r')
      \<and> buffer_quadlets (m_buffer (m_Ports r' ! k)) (unat offset') ?n = Some (map sign_24 (motu_sends offset nevents p))"
    if c: "mo_motu_model r = MOTU_MODEL_828MkI \<or> decodeMotuCtrlEvents d (mo_event_size s) nevents (mr_devctrls r) \<noteq> None"
  proof -
    have ld: "int (length d) = int ?n * ?w" using w(2) l1 by simp
    obtain ports' f' where p': "motu_read_ports e' (mo_event_size s) (mo_info r) d offset' nevents (m_Ports r) (mr_midibuffer r, mr_mb_head r, mr_mb_tail r)
        = Some (ports', f')" "buffer_quadlets (m_buffer (ports' ! k)) (unat offset') ?n
            = Some (map (\<lambda>j. motu_sample (the (bytes_at d (motu_pos (mo_info r) ?q + int j * ?w) 3))) [0..<?n])"
      using motu_read_ports_effect [OF assms(7) ld assms(2)] assms(10-12) by blast
    have "map (\<lambda>j. motu_sample (the (bytes_at d (motu_pos (mo_info r) ?q + int j * ?w) 3))) [0..<?n] = map sign_24 (motu_sends offset nevents p)"
      using w(3) assms(13) port_ok_samples(6) [of "mo_event_size s" "mo_info s" offset nevents p] assms(5,8)
      by (intro nth_equalityI) (simp_all add: motu_sample_roundtrip)
    then show ?thesis using p' c assms(3) by (cases f') (auto simp: motu_processReadBlock_def)
  qed
  ultimately show ?thesis by blast
qed

definition example_motu_port :: "E_Direction \<Rightarrow> u32 list \<Rightarrow> port" where
  "example_motu_port dir xs = (Port_new 7 [] E_Audio dir)\<lparr>m_disabled := False, m_buffersize := 4, m_buffer := Some (Quadlets xs)\<rparr>"

definition example_motu_info :: "nat \<Rightarrow> motu_port_info option" where
  "example_motu_info a = Some \<lparr>mp_position = 10, mp_size = 24\<rparr>"

theorem motu_audio_roundtrip_witness:
  "\<exists>data s'. motu_processWriteBlock example_env 2 1
       ((example_motu_tx 16)\<lparr>m_Ports := [example_motu_port E_Playback [9, 1, 0x00800002, 9]], mo_info := example_motu_info\<rparr>) = Some (True, data, s')
    \<and> (\<exists>r'. motu_processReadBlock example_env data 2 2
           ((MotuReceiveStreamProcessor_new exact (\<lambda>_. 0) MOTU_MODEL_828MkI 16)
              \<lparr>m_Ports := [example_motu_port E_Capture [9, 9, 9, 9]], mo_info := example_motu_info\<rparr>) = Some (True, r')
        \<and> buffer_quadlets (m_buffer (m_Ports r' ! 0)) 2 2 = Some [1, 0xff800002])"
proof -
  let ?s = "(example_motu_tx 16)\<lparr>m_Ports := [example_motu_port E_Playback [9, 1, 0x00800002, 9]], mo_info := example_motu_info\<rparr>"
  let ?r = "(MotuReceiveStreamProcessor_new exact (\<lambda>_. 0) MOTU_MODEL_828MkI 16)
              \<lparr>m_Ports := [example_motu_port E_Capture [9, 9, 9, 9]], mo_info := example_motu_info\<rparr>"
  have r: "mo_event_size (MotuReceiveStreamProcessor_new exact (\<lambda>_. 0) MOTU_MODEL_828MkI 16) = 16" "mo_motu_model ?r = MOTU_MODEL_828MkI"
    by (simp_all add: MotuReceiveStreamProcessor_new_def motu_new_def motu_processor.defs motu_receive.defs stream_processor.defs StreamProcessor_new_def)
  have "\<exists>data s'. motu_processWriteBlock example_env 2 1 ?s = Some (True, data, s')
    \<and> (mo_motu_model ?r = MOTU_MODEL_828MkI \<or> decodeMotuCtrlEvents data (mo_event_size ?s) 2 (mr_devctrls ?r) \<noteq> None \<longrightarrow>
        (\<exists>r'. motu_processReadBlock example_env data 2 2 ?r = Some (True, r')
           \<and> buffer_quadlets (m_buffer (m_Ports r' ! 0)) (unat (2 :: u32)) (unat (2 :: u32))
             = Some (map sign_24 (motu_sends 1 2 (example_motu_port E_Playback [9, 1, 0x00800002, 9])))))"
    by (rule motu_audio_roundtrip)
      (simp_all add: r(1) example_motu_fields example_env_def motu_port_ok_def motu_separate_def example_motu_port_def example_motu_info_def Port_new_def
        motu_pos_def)
  moreover have "map sign_24 (motu_sends 1 2 (example_motu_port E_Playback [9, 1, 0x00800002, 9])) = [1, 0xff800002]" by code_simp
  ultimately show ?thesis using r(2) by auto
qed

section \<open>States and short packets\<close>

text \<open>The invariant of the state machine holds for both MOTU classes.\<close>

lemma motu_states_safe:
  fixes r :: "'m motu_receive_scheme" and s :: "'n motu_transmit_scheme"
  shows "sp_reach motu_receive_child failures r \<Longrightarrow> sp_inv r \<and> (\<not> failures \<longrightarrow> sp_clean r)"
    and "sp_reach (motu_transmit_child tone) failures s \<Longrightarrow> sp_inv s \<and> (\<not> failures \<longrightarrow> sp_clean s)"
  using motu_rx_family.reach_inv [of failures r] motu_tx_family.reach_inv [of tone failures s] by auto

text \<open>
  A packet with the right tag that is shorter than one frame: the number of frames is 0, and the last frame is looked for four
  gigabytes behind the start of the packet.
\<close>

lemma motu_short_packet:
  assumes "8 < len" and "len - 8 < mo_event_size s" and "bus_quadlet data 0 = Some q0" and "bus_quadlet data 1 \<noteq> None"
    and "drop_bit 16 q0 AND 0xff \<noteq> 0" and "int (length data) < 4294967296 - uint (mo_event_size s)"
  shows "motu_processPacketHeader e data len 1 sy c s = None"
proof -
  have z: "mo_event_size s \<noteq> 0" using assms(2) by auto
  have n: "(len - 8) div mo_event_size s = 0" using assms(2) by (simp add: div_word_less)
  have "uint ((0 - 1) * mo_event_size s) = 4294967296 - uint (mo_event_size s)"
  proof -
    have "uint (mo_event_size s) mod 4294967296 = uint (mo_event_size s)" "uint (mo_event_size s) \<noteq> 0"
      using uint_lt2p [of "mo_event_size s"] z by (simp_all add: mod_pos_pos_trivial uint_0_iff)
    then show ?thesis by (simp add: uint_word_ariths zmod_zminus1_eq_if)
  qed
  then have "bytes_at data (8 + uint ((0 - 1) * mo_event_size s)) 4 = None" using assms(6) by (auto simp: bytes_at_def)
  then show ?thesis using assms(1,3-5) z n by (auto simp: motu_processPacketHeader_def Let_def)
qed

end
