(* ===== verification/Spec2Isabelle.thy ===== *)
theory Spec2Isabelle
  imports AvcCommands AvcPlugInfo AvcStreamFormat AmdtpStreams IsoManagerStates IsoStreams ManagerStart MotuStreams
begin

text \<open>
  A verification library for FFADO, the user-space driver for FireWire audio interfaces
  (\<^verbatim>\<open>src/libffado/src\<close>).

  \<^bold>\<open>The program.\<close> FFADO discovers devices on the IEEE 1394 bus, configures them with AV/C commands and
  streams audio to and from them. Every audio packet carries a presentation time in a 16-bit SYT field;
  \<^verbatim>\<open>libieee1394/cycletimer.h\<close> turns it into a full time in ticks of 24.576 MHz. A stream processor
  (\<^verbatim>\<open>libstreaming/generic/StreamProcessor.cpp\<close>) is driven by the isochronous threads, which hand it received
  packets (\<^verbatim>\<open>putPacket\<close>) or ask it for packets to send (\<^verbatim>\<open>getPacket\<close>), and by the client, which moves frames
  between the processor and its ports; a state machine, switched at chosen bus cycles, decides what
  happens to the data. The threads belong to \<^verbatim>\<open>libieee1394/IsoHandlerManager.cpp\<close>: the manager has one handler
  per registered stream, a handler is called back by \<^verbatim>\<open>libraw1394\<close> for each packet, and two tasks iterate the
  handlers that receive and those that transmit. The stream processor manager (\<^verbatim>\<open>libstreaming/StreamProcessorManager.cpp\<close>) starts all streams in one
  bus cycle, aligns the received ones, and moves one period of every stream at a time for the client. The subclasses of the
  stream processor for AMDTP (\<^verbatim>\<open>libstreaming/amdtp\<close>) and for MOTU devices (\<^verbatim>\<open>libstreaming/motu\<close>) know the packet
  formats. The frames in between are kept in a \<^verbatim>\<open>TimestampedBuffer\<close> (\<^verbatim>\<open>libutil/TimestampedBuffer.cpp\<close>), a frame queue on top of
  the lock-free \<^verbatim>\<open>ringbuffer.c\<close> that tracks the times of its ends with a delay-locked loop. Configuration
  goes through command classes of \<^verbatim>\<open>libavc\<close>, which write themselves to and read themselves from the
  serializers of \<^verbatim>\<open>libutil/cmd_serialize.cpp\<close> and are sent by \<^verbatim>\<open>AVCCommand::fire\<close>.

  \<^bold>\<open>Theories.\<close>
  \<^item> \<open>Prelude\<close>: names of the machine types (\<open>u8\<close> to \<open>u64\<close>, \<open>i16\<close>, \<open>i32\<close>, \<open>i64\<close>), the collections of
    defining equations and the lemmas on words and lists that the components share.
  \<^item> \<open>CycleTimer\<close> (\<^verbatim>\<open>libieee1394/cycletimer.h\<close>): the register macros, \<^verbatim>\<open>addTicks\<close>, \<^verbatim>\<open>substractTicks\<close>,
    \<^verbatim>\<open>diffTicks\<close>, \<^verbatim>\<open>addCycles\<close>, \<^verbatim>\<open>diffCycles\<close> and the three SYT conversions, on words of the widths of the code, with
    C's conversions written out. Arithmetic modulo 128 seconds, the encodings of a time and their
    round trips, and the exact range of inputs for which a conversion returns the presentation time.
  \<^item> \<open>RingBuffer\<close> (\<^verbatim>\<open>libutil/ringbuffer.c\<close>): the buffer as a record with its memory as a list, all operations
    including the vectors. The locale \<open>bounded_fifo\<close> is the contract of a bounded queue; its
    interpretation on the ring buffer shows that the code refines a list of bytes.
  \<^item> \<open>TimestampedBuffer\<close>: the buffer's members as a record that owns a ring buffer; an assertion that fails
    is the result \<open>None\<close>. Times are rational numbers, and the rounding of \<^verbatim>\<open>float\<close> and \<^verbatim>\<open>double\<close> is a
    parameter (\<open>fparith\<close>); what concerns data holds for every rounding, what concerns times is proved in
    exact arithmetic (\<open>exact\<close>). The loops of the block functions may not end when the sizes are 0 and
    are partial functions; their termination for a configured buffer is part of the theorems.
  \<^item> \<open>CmdSerialize\<close>: serializers and deserializers as records of operations in the state monad. The locales
    \<open>byte_sink\<close> and \<open>byte_source\<close> are the contracts that commands rely on (\<open>emits\<close>: a computation writes
    exactly these bytes wherever there is room; \<open>takes\<close>: it reads exactly these bytes), interpreted on
    \<^verbatim>\<open>BufferSerialize\<close>, \<^verbatim>\<open>BufferDeserialize\<close> and the counting serializers. Stores beyond the buffer are
    recorded in a flag.
  \<^item> \<open>AvcGeneric\<close> (\<^verbatim>\<open>avc_generic.cpp\<close>, \<^verbatim>\<open>avc_definitions.cpp\<close>): the base class, \<^verbatim>\<open>fire\<close> over a given bus
    transaction, rates and name tables. The locale \<open>avc_codec\<close> is the contract between \<^verbatim>\<open>fire\<close> and a command
    class: its bytes, when they are written and what a receiver makes of them. In it are proved what
    \<^verbatim>\<open>fire\<close> sends and returns and the round trip through a frame, once for all classes.
  \<^item> \<open>AvcCommands\<close>, \<open>AvcPlugAddress\<close>, \<open>AvcPlugInfo\<close>, \<open>AvcStreamFormat\<close>: the command classes and their data,
    each with its \<open>*_wire\<close> (or \<open>*_bytes\<close>) specification and an interpretation of \<open>avc_codec\<close>.
  \<^item> \<open>StreamPort\<close> (\<^verbatim>\<open>generic/Port.cpp\<close>, \<^verbatim>\<open>generic/PortManager.cpp\<close>): ports with their buffers, the manager's
    collection of ports and update handlers; names stay unique.
  \<^item> \<open>StreamProcessor\<close>: every operation of the class on a record that extends the port manager. The virtual
    methods of the subclass are the record \<open>sp_child\<close>; what a call asks of the manager, the bus service
    and the handler manager is the record \<open>sp_env\<close>.
  \<^item> \<open>StreamStates\<close>: the state machine. The locale \<open>sp_child_laws\<close> states what the base class relies on when
    it calls a subclass (the subclass leaves the private members alone); in it are proved the
    transitions of every operation. \<open>sp_step\<close> and \<open>sp_reach\<close> are the calls of the packet threads, the
    client and the manager in any order, \<open>sp_fail\<close> the failures of the handler; \<open>sp_child_family\<close> extends the
    contract to all environments and holds the invariant of the reachable states. Waiting for a state and the
    number of nominal packets are here too.
  \<^item> \<open>Cip\<close> (\<^verbatim>\<open>util/cip.c\<close>): the packet header, its bit fields and the header generator, equivalent to exact
    rational pacing in all three modes.
  \<^item> \<open>AmdtpPorts\<close>, \<open>AmdtpReceive\<close>, \<open>AmdtpTransmit\<close>: the AMDTP subclasses, with the port cache, the plain and the
    SSE2 encoders, decoding, MIDI in both directions and the packet headers. Both subclasses interpret
    \<open>sp_child_laws\<close> and \<open>sp_child_family\<close> (\<open>amdtp_rx\<close>, \<open>amdtp_tx\<close>).
  \<^item> \<open>AmdtpStreams\<close>: what holds of whole AMDTP streams: the reachable states, the transitions, how a stream
    starts and what a dying handler leaves behind.
  \<^item> \<open>IsoHandler\<close> (class \<^verbatim>\<open>IsoHandler\<close>): preparing, enabling and disabling a handler, its packet callbacks, the
    full time it computes for a packet and the cycles it counts as lost. The client is the record
    \<open>iso_client\<close>, the outcome of the calls into \<^verbatim>\<open>libraw1394\<close> the record \<open>raw1394_calls\<close>.
  \<^item> \<open>IsoHandlerManager\<close> (classes \<^verbatim>\<open>IsoHandlerManager\<close>, \<^verbatim>\<open>IsoTask\<close> and the calls of \<^verbatim>\<open>PosixThread\<close> they use): the
    registration of streams and handlers, the requests of the client and the loop of a task with its
    shadow of the list of handlers. Handlers are found by address; following the address of a deleted
    handler is \<open>None\<close>.
  \<^item> \<open>IsoManagerStates\<close>: the manager, its clients and the two threads as a step relation (\<open>ihm_step\<close>) in which
    the steps of the tasks and the calls of other threads interleave. The manager stays well-formed; a
    task never follows a dead address while streams are unregistered only when no task is inside
    an iteration that has their handler (\<open>may_unregister\<close>), and can do so otherwise; a request to start is served by the
    next update; dead handlers are found after two seconds. Its hypotheses: the library
    starts the transfers it opened (\<open>starts_cleanly\<close>), the callbacks of the clients return (\<open>clients_total\<close>) and
    the counter of requests does not overflow (\<open>roomy\<close>).
  \<^item> \<open>IsoStreams\<close>: handlers and AMDTP streams together: what lost cycles do to a running stream.
  \<^item> \<open>StreamProcessorManager\<close>: every operation of the manager, and the calls of \<^verbatim>\<open>DeviceManager\<close> that wait for a period
    and set the streaming parameters. The processors are a store indexed by address (\<open>w_sps\<close>); what the packet threads do to them
    while the manager sleeps for the \<open>n\<close>-th time is an argument (\<open>se_others\<close>), and between two sleeps the manager's
    calls are one step. The wait for a period may not end and is a partial function; all other loops are counted.
  \<^item> \<open>ManagerRuns\<close>: whole runs. The locale \<open>spm_rely\<close> is the contract between the manager and the threads: a property
    of the processors that the threads and the calls of the manager keep holds after every operation. It is interpreted
    on threads that make any calls to AMDTP processors (\<open>packets\<close>), with both directions as one subclass
    (\<open>amdtp_duplex\<close>). Waiting for a period ends when the streams are ready or have failed, and success means that all run.
  \<^item> \<open>ManagerStart\<close>: the plan of a start and the cycles it schedules, the shifts and the outcome of the alignment, and
    what holds when \<^verbatim>\<open>stop\<close> returns.
  \<^item> \<open>MotuReceive\<close>, \<open>MotuTransmit\<close> (\<^verbatim>\<open>libstreaming/motu\<close>): the MOTU subclasses, in which every frame carries its own
    timestamp and samples are packed into three bytes; MIDI bytes, paced to the MIDI bus when they are sent, and the stream
    of control values. The port information is found by the address of the port, and the samples of the test
    tone are an argument. Both subclasses interpret \<open>sp_child_laws\<close> and \<open>sp_child_family\<close> (\<open>motu_rx\<close>, \<open>motu_tx\<close>), so all that
    was proved for the base class holds for them.
  \<^item> \<open>MotuStreams\<close>: the times of frames and the samples survive the bus, MIDI bytes keep their order and at most 3125
    are sent in a second, control values stay inside their tables for devices that behave; what one pad byte per frame and
    packets shorter than a frame do.

  \<^bold>\<open>Conventions.\<close> A class is a record (a derived command class extends the record of the base class), a
  pointer that may be null is an \<open>option\<close>, a virtual call on a small class hierarchy is a case
  distinction over a datatype. A method returns its result and the changed object. Values that the
  code reads uninitialised are arguments (\<open>ini\<close>, \<open>junk\<close>). A read outside a table is \<open>None\<close>. Numbers keep
  their width. Loops over counters are recursive functions over natural numbers or lists, so that no
  fuel is needed.

  \<^bold>\<open>Not modelled.\<close> Concurrent access to the ring buffer and the locks of the timestamped buffer (each
  operation is one step), memory management (objects are values; freeing has no counterpart), debug
  output (except where computing its arguments can fail), the wake-up signals between threads (a wait takes the list of its events and ends in \<open>Still_waiting\<close> when the list does), the exact results
  of floating point operations, and the bus itself, which is an argument of \<^verbatim>\<open>fire\<close> and part of \<open>sp_env\<close>. The
  codes of \<^verbatim>\<open>libiec61883\<close> for the sampling rates are a parameter. The bus service
  (\<^verbatim>\<open>ieee1394service.cpp\<close>, a layer over \<^verbatim>\<open>libraw1394\<close>), the other packet formats, the function block and descriptor commands and the device drivers
  are not covered yet. In the order of the plan: the RME format, the
  function block and descriptor commands, the EFC commands of the Fireworks devices, the option container and
  the device string parser.
\<close>

end
